(* ===== verification/Prelude.thy ===== *)
theory Prelude
  imports Main "HOL-Library.AList"
begin

text \<open>
  The prelude of the development: the exceptions of the Python sources as values, results as
  sums, the association-list view of a Python dict, and the list and table lemmas that the
  component theories share. Nothing here models one particular component.
\<close>

named_theorems result_simps \<open>facts about sequencing of results\<close>
named_theorems table_simps \<open>lookups in tables after an insert or an update\<close>

section \<open>Exceptions and results\<close>

text \<open>
  The exception classes the modelled code raises. \<open>AppError\<close> carries its code and its HTTP
  status, the others their message (or, for \<open>KeyError\<close>, the missing key; for \<open>ToolError\<close>, its
  code).
\<close>

datatype py_error =
    ValueError string
  | KeyError string
  | TypeError string
  | RuntimeError string
  | IntegrityError string
  | BudgetExceeded string
  | StopIteration
  | AppError string nat
  | ToolError string

type_synonym 'a result = "py_error + 'a"

text \<open>Sequencing: the first exception wins.\<close>

fun andThen :: "'e + 'a \<Rightarrow> ('a \<Rightarrow> 'e + 'b) \<Rightarrow> 'e + 'b" where
  "andThen (Inl e) f = Inl e"
| "andThen (Inr x) f = f x"

lemma andThen_Inr_iff [result_simps]:
  "andThen r f = Inr y \<longleftrightarrow> (\<exists>x. r = Inr x \<and> f x = Inr y)"
  by (cases r) auto

lemma andThen_Inl_iff [result_simps]:
  "andThen r f = Inl e \<longleftrightarrow> r = Inl e \<or> (\<exists>x. r = Inr x \<and> f x = Inl e)"
  by (cases r) auto

lemma andThen_assoc [result_simps]:
  "andThen (andThen r f) g = andThen r (\<lambda>x. andThen (f x) g)"
  by (cases r) auto

section \<open>Strings\<close>

text \<open>\<^verbatim>\<open>str.lower\<close> on the ASCII range.\<close>

definition char_lower :: "char \<Rightarrow> char" where
  "char_lower c =
     (let n = of_char c in if 65 \<le> n \<and> n \<le> (90::nat) then char_of (n + 32) else c)"

definition str_lower :: "string \<Rightarrow> string" where
  "str_lower s = map char_lower s"

text \<open>\<^verbatim>\<open>s.startswith(p)\<close> and \<^verbatim>\<open>s.endswith(p)\<close>.\<close>

definition starts_with :: "string \<Rightarrow> string \<Rightarrow> bool" where
  "starts_with s p \<longleftrightarrow> take (length p) s = p"

definition ends_with :: "string \<Rightarrow> string \<Rightarrow> bool" where
  "ends_with s p \<longleftrightarrow> length p \<le> length s \<and> drop (length s - length p) s = p"

text \<open>\<^verbatim>\<open>s.split(c)\<close> for a separator of one character.\<close>

fun py_split :: "char \<Rightarrow> string \<Rightarrow> string list" where
  "py_split c [] = [[]]"
| "py_split c (x # xs) =
     (if x = c then [] # py_split c xs
      else case py_split c xs of [] \<Rightarrow> [[x]] | p # ps \<Rightarrow> (x # p) # ps)"

section \<open>Tables\<close>

text \<open>
  A table is the list of its rows in insertion order. \<open>select_one\<close> is a \<^verbatim>\<open>SELECT\<close> on a
  condition of which at most one row is expected (\<open>fetchone\<close>), \<open>update_where\<close> an \<^verbatim>\<open>UPDATE\<close>.
\<close>

definition select_one :: "('r \<Rightarrow> bool) \<Rightarrow> 'r list \<Rightarrow> 'r option" where
  "select_one p rows = find p rows"

definition update_where :: "('r \<Rightarrow> bool) \<Rightarrow> ('r \<Rightarrow> 'r) \<Rightarrow> 'r list \<Rightarrow> 'r list" where
  "update_where p f rows = map (\<lambda>r. if p r then f r else r) rows"

lemma select_one_Nil [simp]: "select_one p [] = None"
  by (simp add: select_one_def)

lemma select_one_Cons [simp]:
  "select_one p (r # rs) = (if p r then Some r else select_one p rs)"
  by (simp add: select_one_def)

lemma select_one_append [table_simps]:
  "select_one p (rs @ rs') =
     (case select_one p rs of None \<Rightarrow> select_one p rs' | Some r \<Rightarrow> Some r)"
  by (induction rs) auto

lemma select_one_Some_in: "select_one p rs = Some r \<Longrightarrow> r \<in> set rs \<and> p r"
  by (induction rs) (auto split: if_splits)

lemma select_one_None_iff: "select_one p rs = None \<longleftrightarrow> (\<forall>r \<in> set rs. \<not> p r)"
  by (induction rs) auto

lemma update_where_Nil [simp]: "update_where p f [] = []"
  by (simp add: update_where_def)

lemma update_where_Cons [simp]:
  "update_where p f (r # rs) = (if p r then f r else r) # update_where p f rs"
  by (simp add: update_where_def)

lemma length_update_where [simp]: "length (update_where p f rs) = length rs"
  by (simp add: update_where_def)

lemma set_update_where:
  "set (update_where p f rs) = (\<lambda>r. if p r then f r else r) ` set rs"
  by (simp add: update_where_def)

lemma update_where_none: "(\<And>r. r \<in> set rs \<Longrightarrow> \<not> p r) \<Longrightarrow> update_where p f rs = rs"
  by (induction rs) auto

text \<open>
  The primary key of a table: one row per key, and an update that leaves the key alone.
\<close>

locale keyed_table =
  fixes key :: "'r \<Rightarrow> 'k"
    and upd :: "'u \<Rightarrow> 'r \<Rightarrow> 'r"
  assumes key_upd: "key (upd u r) = key r"
begin

lemma keys_update_where:
  "map key (update_where p (upd u) rs) = map key rs"
  by (induction rs) (auto simp: key_upd)

lemma select_key_distinct:
  assumes "distinct (map key rs)" and "r \<in> set rs"
  shows "select_one (\<lambda>x. key x = key r) rs = Some r"
  using assms by (induction rs) (auto simp: image_iff)

lemma select_update_same:
  "select_one (\<lambda>x. key x = k) (update_where (\<lambda>x. key x = k) (upd u) rs) =
     map_option (upd u) (select_one (\<lambda>x. key x = k) rs)"
  by (induction rs) (auto simp: key_upd)

lemma select_update_other:
  "k' \<noteq> k \<Longrightarrow>
   select_one (\<lambda>x. key x = k') (update_where (\<lambda>x. key x = k) (upd u) rs) =
     select_one (\<lambda>x. key x = k') rs"
  by (induction rs) (auto simp: key_upd)

lemma sum_update_where:
  fixes w :: "'r \<Rightarrow> 'n::ab_group_add"
  assumes "distinct (map key rs)" and "select_one (\<lambda>x. key x = k) rs = Some r"
  shows "sum_list (map w (update_where (\<lambda>x. key x = k) (upd u) rs)) =
           sum_list (map w rs) - w r + w (upd u r)"
proof -
  have no_key: "update_where (\<lambda>x. key x = k) (upd u) xs = xs" if "k \<notin> key ` set xs" for xs
    using that by (intro update_where_none) auto
  show ?thesis
    using assms by (induction rs) (auto simp: no_key split: if_splits)
qed

end

end
