(* ===== verification/Json.thy ===== *)
theory Json
  imports Prelude Complex_Main "HOL-Library.List_Lexorder" "HOL-Library.Char_ord"
begin

text \<open>
  JSON-compatible Python values and the operations of \<^verbatim>\<open>backend/app/runtime.py\<close> on them:
  \<^verbatim>\<open>stable_hash\<close> and the recursive \<^verbatim>\<open>_merge\<close>. A Python dict is the association list of its
  items in insertion order; two dicts that differ in the order only have the same \<open>canon\<close>, which
  is what \<^verbatim>\<open>json.dumps(..., sort_keys=True)\<close> prints. Floats are exact rationals.
\<close>

datatype json =
    JNull
  | JBool bool
  | JInt int
  | JFloat rat
  | JStr string
  | JList "json list"
  | JObj "(string \<times> json) list"

type_synonym dict = "(string \<times> json) list"

definition dict_get :: "dict \<Rightarrow> string \<Rightarrow> json option" where
  "dict_get d k = map_of d k"

definition dict_set :: "string \<Rightarrow> json \<Rightarrow> dict \<Rightarrow> dict" where
  "dict_set k v d = AList.update k v d"

text \<open>\<^verbatim>\<open>d.get(k, default)\<close>, and the reads of the code that expect a string, an integer or a dict.\<close>

definition dict_get_or :: "dict \<Rightarrow> string \<Rightarrow> json \<Rightarrow> json" where
  "dict_get_or d k v = (case dict_get d k of None \<Rightarrow> v | Some x \<Rightarrow> x)"

fun as_dict :: "json \<Rightarrow> dict" where
  "as_dict (JObj d) = d"
| "as_dict _ = []"

fun as_list :: "json \<Rightarrow> json list" where
  "as_list (JList xs) = xs"
| "as_list _ = []"

fun as_str :: "json \<Rightarrow> string" where
  "as_str (JStr s) = s"
| "as_str _ = []"

fun as_int :: "json \<Rightarrow> int" where
  "as_int (JInt n) = n"
| "as_int _ = 0"

text \<open>Python's truth value of a JSON value.\<close>

fun truthy :: "json \<Rightarrow> bool" where
  "truthy JNull = False"
| "truthy (JBool b) = b"
| "truthy (JInt n) = (n \<noteq> 0)"
| "truthy (JFloat x) = (x \<noteq> 0)"
| "truthy (JStr s) = (s \<noteq> [])"
| "truthy (JList xs) = (xs \<noteq> [])"
| "truthy (JObj d) = (d \<noteq> [])"

lemma dict_get_Nil [simp]: "dict_get [] k = None"
  by (simp add: dict_get_def)

lemma dict_get_Cons [simp]:
  "dict_get ((k', v) # d) k = (if k = k' then Some v else dict_get d k)"
  by (simp add: dict_get_def)

lemma dict_get_set [simp]:
  "dict_get (dict_set k v d) k' = (if k' = k then Some v else dict_get d k')"
  by (simp add: dict_get_def dict_set_def update_conv)

lemma dict_set_Nil [simp]: "dict_set k v [] = [(k, v)]"
  by (simp add: dict_set_def)

lemma dict_set_Cons [simp]:
  "dict_set k v ((k', v') # d) =
     (if k' = k then (k, v) # d else (k', v') # dict_set k v d)"
  by (simp add: dict_set_def)

lemma distinct_dict_set: "distinct (map fst d) \<Longrightarrow> distinct (map fst (dict_set k v d))"
  by (simp add: dict_set_def distinct_update)

lemma dict_get_None_iff: "dict_get d k = None \<longleftrightarrow> k \<notin> fst ` set d"
  by (simp add: dict_get_def map_of_eq_None_iff)

section \<open>Canonical form and hashing\<close>

text \<open>
  The hash of the code is the SHA-256 of the canonical serialisation. The digest is a parameter
  \<open>sha\<close> of the model, an arbitrary function of the canonical value.
\<close>

fun canon :: "json \<Rightarrow> json" where
  "canon (JList xs) = JList (map canon xs)"
| "canon (JObj d) = JObj (sort_key fst (map (\<lambda>(k, v). (k, canon v)) d))"
| "canon v = v"

definition stable_hash :: "(json \<Rightarrow> string) \<Rightarrow> json \<Rightarrow> string" where
  "stable_hash sha v = sha (canon v)"

section \<open>The recursive merge of a patch\<close>

fun merge :: "json \<Rightarrow> json \<Rightarrow> json"
  and merge_items :: "dict \<Rightarrow> dict \<Rightarrow> dict" where
  "merge (JObj b) (JObj p) = JObj (merge_items b p)"
| "merge b p = p"
| "merge_items r [] = r"
| "merge_items r ((k, v) # p) =
     merge_items
       (dict_set k (case dict_get r k of Some old \<Rightarrow> merge old v | None \<Rightarrow> v) r) p"

lemma merge_JNull [simp]: "merge JNull p = p"
  by (cases p) auto

lemma merge_flat: "(\<And>d. p \<noteq> JObj d) \<Longrightarrow> merge b p = p"
  by (cases b; cases p) auto

lemma merge_items_keys:
  "fst ` set (merge_items b p) = fst ` set b \<union> fst ` set p"
proof (induction p arbitrary: b)
  case Nil
  then show ?case by simp
next
  case (Cons kv p)
  then show ?case
    by (cases kv) (auto simp: dict_set_def dom_update)
qed

lemma distinct_merge_items:
  "distinct (map fst b) \<Longrightarrow> distinct (map fst (merge_items b p))"
proof (induction p arbitrary: b)
  case Nil
  then show ?case by simp
next
  case (Cons kv p)
  then show ?case by (cases kv) (simp add: distinct_dict_set)
qed

text \<open>
  What a merge does at one key: the patch replaces or is merged into the old value, a key the
  patch does not name keeps its value, and no key is ever removed.
\<close>

lemma dict_get_merge_items:
  assumes "distinct (map fst p)"
  shows "dict_get (merge_items b p) k =
    (case dict_get p k of
       None \<Rightarrow> dict_get b k
     | Some v \<Rightarrow> Some (case dict_get b k of None \<Rightarrow> v | Some old \<Rightarrow> merge old v))"
  using assms
proof (induction p arbitrary: b)
  case Nil
  then show ?case by simp
next
  case (Cons kv p)
  obtain k0 v0 where kv: "kv = (k0, v0)" by (cases kv)
  from Cons.prems kv have "distinct (map fst p)" and fresh: "k0 \<notin> fst ` set p" by auto
  then have "dict_get p k0 = None" by (simp add: dict_get_None_iff)
  with Cons.IH [OF \<open>distinct (map fst p)\<close>] kv show ?case
    by (auto split: option.splits)
qed

lemma dict_get_merge_items_None:
  "dict_get p k = None \<Longrightarrow> dict_get (merge_items b p) k = dict_get b k"
proof (induction p arbitrary: b)
  case Nil
  then show ?case by simp
next
  case (Cons kv p)
  then show ?case by (cases kv) (auto split: if_splits)
qed

end
