(* ===== verification/Runtime.thy ===== *)
theory Runtime
  imports Json
begin

text \<open>
  The database-independent primitives of \<^verbatim>\<open>backend/app/runtime.py\<close>: the event reducer, the
  execution budget, the progress watchdog, the capability router and the sparse message bus.
\<close>

section \<open>EventReducer\<close>

datatype event = Event string json | RawEvent dict

text \<open>
  \<^verbatim>\<open>event.payload if isinstance(event, Event) else event.get("payload", event)\<close>
\<close>

fun event_payload :: "event \<Rightarrow> json" where
  "event_payload (Event ty p) = p"
| "event_payload (RawEvent d) = dict_get_or d ''payload'' (JObj d)"

definition reducer_apply :: "dict option \<Rightarrow> event \<Rightarrow> dict result" where
  "reducer_apply state event =
     (let current = (case state of None \<Rightarrow> [] | Some s \<Rightarrow> s)
      in case event_payload event of
           JObj payload \<Rightarrow>
             (case dict_get_or payload ''patch'' (JObj payload) of
                JObj patch \<Rightarrow> Inr (as_dict (merge (JObj current) (JObj patch)))
              | _ \<Rightarrow> Inl (TypeError ''event patch must be a mapping''))
         | _ \<Rightarrow> Inl (TypeError ''event payload must be a mapping''))"

fun reducer_loop :: "dict \<Rightarrow> event list \<Rightarrow> dict result" where
  "reducer_loop state [] = Inr state"
| "reducer_loop state (e # es) =
     (case reducer_apply (Some state) e of
        Inl err \<Rightarrow> Inl err
      | Inr state' \<Rightarrow> reducer_loop state' es)"

definition reducer_replay :: "event list \<Rightarrow> dict option \<Rightarrow> dict result" where
  "reducer_replay events initial =
     reducer_loop (case initial of None \<Rightarrow> [] | Some s \<Rightarrow> s) events"

lemma reducer_apply_patch [simp]:
  "reducer_apply (Some s) (Event ty (JObj [(''patch'', JObj p)])) = Inr (merge_items s p)"
  by (simp add: reducer_apply_def dict_get_or_def)

lemma reducer_loop_append:
  "reducer_loop s (es @ fs) = andThen (reducer_loop s es) (\<lambda>s'. reducer_loop s' fs)"
  by (induction es arbitrary: s) (auto split: sum.splits)

section \<open>BudgetGuard\<close>

record execution_budget =
  max_steps :: "int option"
  max_tool_calls :: "int option"
  max_messages :: "int option"
  max_tokens :: "int option"
  max_replans :: "int option"
  max_seconds :: "rat option"

record budget_guard =
  g_budget :: execution_budget
  started_at :: rat
  g_steps :: int
  g_tool_calls :: int
  g_messages :: int
  g_tokens :: int
  g_replans :: int

definition budget_guard_init :: "execution_budget \<Rightarrow> rat \<Rightarrow> budget_guard" where
  "budget_guard_init b now =
     \<lparr>g_budget = b, started_at = now, g_steps = 0, g_tool_calls = 0, g_messages = 0,
      g_tokens = 0, g_replans = 0\<rparr>"

text \<open>The dict lookups \<^verbatim>\<open>counters.get(kind)\<close> and \<^verbatim>\<open>limits.get(kind)\<close> of \<^verbatim>\<open>check\<close>.\<close>

definition guard_counter :: "budget_guard \<Rightarrow> string \<Rightarrow> int option" where
  "guard_counter g kind = map_of
     [(''step'', g_steps g), (''tool_call'', g_tool_calls g), (''message'', g_messages g),
      (''token'', g_tokens g), (''replan'', g_replans g)] kind"

definition guard_limits :: "budget_guard \<Rightarrow> string \<Rightarrow> int option option" where
  "guard_limits g kind = map_of
     [(''step'', max_steps (g_budget g)), (''tool_call'', max_tool_calls (g_budget g)),
      (''message'', max_messages (g_budget g)), (''token'', max_tokens (g_budget g)),
      (''replan'', max_replans (g_budget g))] kind"

definition guard_check :: "budget_guard \<Rightarrow> rat \<Rightarrow> string \<Rightarrow> int \<Rightarrow> bool result" where
  "guard_check g now kind amount =
     (if amount < 0 then Inl (ValueError ''amount must be non-negative'')
      else case guard_counter g kind of
        None \<Rightarrow> Inl (ValueError ''unknown budget kind'')
      | Some current \<Rightarrow>
          (case guard_limits g kind of
             Some (Some limit) \<Rightarrow>
               if current + amount > limit then Inr False
               else Inr (case max_seconds (g_budget g) of
                           None \<Rightarrow> True | Some s \<Rightarrow> now - started_at g \<le> s)
           | _ \<Rightarrow> Inr (case max_seconds (g_budget g) of
                           None \<Rightarrow> True | Some s \<Rightarrow> now - started_at g \<le> s)))"

definition guard_consume ::
    "budget_guard \<Rightarrow> rat \<Rightarrow> string \<Rightarrow> int \<Rightarrow> budget_guard result" where
  "guard_consume g now kind amount =
     (case guard_check g now kind amount of
        Inl e \<Rightarrow> Inl e
      | Inr False \<Rightarrow> Inl (BudgetExceeded kind)
      | Inr True \<Rightarrow> Inr
          (if kind = ''step'' then g\<lparr>g_steps := g_steps g + amount\<rparr>
           else if kind = ''tool_call'' then g\<lparr>g_tool_calls := g_tool_calls g + amount\<rparr>
           else if kind = ''message'' then g\<lparr>g_messages := g_messages g + amount\<rparr>
           else if kind = ''token'' then g\<lparr>g_tokens := g_tokens g + amount\<rparr>
           else if kind = ''replan'' then g\<lparr>g_replans := g_replans g + amount\<rparr>
           else g))"

definition consume_step :: "budget_guard \<Rightarrow> rat \<Rightarrow> int \<Rightarrow> budget_guard result" where
  "consume_step g now amount = guard_consume g now ''step'' amount"

definition consume_tool_call :: "budget_guard \<Rightarrow> rat \<Rightarrow> int \<Rightarrow> budget_guard result" where
  "consume_tool_call g now amount = guard_consume g now ''tool_call'' amount"

definition consume_message :: "budget_guard \<Rightarrow> rat \<Rightarrow> int \<Rightarrow> budget_guard result" where
  "consume_message g now amount = guard_consume g now ''message'' amount"

definition consume_tokens :: "budget_guard \<Rightarrow> rat \<Rightarrow> int \<Rightarrow> budget_guard result" where
  "consume_tokens g now amount = guard_consume g now ''token'' amount"

definition consume_replan :: "budget_guard \<Rightarrow> rat \<Rightarrow> int \<Rightarrow> budget_guard result" where
  "consume_replan g now amount = guard_consume g now ''replan'' amount"

datatype remaining_budget = Unlimited | Count int | Seconds rat

definition guard_remaining :: "budget_guard \<Rightarrow> rat \<Rightarrow> string \<Rightarrow> remaining_budget result" where
  "guard_remaining g now kind =
     (if kind = ''time'' then
        Inr (case max_seconds (g_budget g) of
               None \<Rightarrow> Unlimited
             | Some s \<Rightarrow> Seconds (max 0 (s - (now - started_at g))))
      else case guard_limits g kind of
        None \<Rightarrow> Inl (ValueError ''unknown budget kind'')
      | Some None \<Rightarrow> Inr Unlimited
      | Some (Some limit) \<Rightarrow>
          (case guard_counter g kind of
             None \<Rightarrow> Inl (KeyError kind)
           | Some c \<Rightarrow> Inr (Count (max 0 (limit - c)))))"

text \<open>A run of requests: a refused one (any exception) leaves the guard as it was.\<close>

fun guard_run :: "budget_guard \<Rightarrow> (rat \<times> string \<times> int) list \<Rightarrow> budget_guard" where
  "guard_run g [] = g"
| "guard_run g ((now, kind, amount) # rs) =
     (case guard_consume g now kind amount of
        Inl e \<Rightarrow> guard_run g rs
      | Inr g' \<Rightarrow> guard_run g' rs)"

definition room_for :: "int \<Rightarrow> int option \<Rightarrow> bool" where
  "room_for c limit \<longleftrightarrow> 0 \<le> c \<and> (case limit of None \<Rightarrow> True | Some l \<Rightarrow> c \<le> l)"

definition guard_within :: "budget_guard \<Rightarrow> bool" where
  "guard_within g \<longleftrightarrow>
     room_for (g_steps g) (max_steps (g_budget g)) \<and>
     room_for (g_tool_calls g) (max_tool_calls (g_budget g)) \<and>
     room_for (g_messages g) (max_messages (g_budget g)) \<and>
     room_for (g_tokens g) (max_tokens (g_budget g)) \<and>
     room_for (g_replans g) (max_replans (g_budget g))"

lemma room_for_add:
  "room_for c limit \<Longrightarrow> 0 \<le> a \<Longrightarrow> (\<And>l. limit = Some l \<Longrightarrow> c + a \<le> l) \<Longrightarrow> room_for (c + a) limit"
  by (auto simp: room_for_def split: option.splits)

lemma guard_counter_Some_iff:
  "(\<exists>c. guard_counter g kind = Some c) \<longleftrightarrow>
     kind \<in> {''step'', ''tool_call'', ''message'', ''token'', ''replan''}"
  by (auto simp: guard_counter_def)

lemma guard_consume_budget:
  "guard_consume g now kind amount = Inr g' \<Longrightarrow> g_budget g' = g_budget g"
  by (auto simp: guard_consume_def split: sum.splits bool.splits if_splits)

lemma guard_consume_within:
  assumes "guard_within g" and "guard_consume g now kind amount = Inr g'"
  shows "guard_within g'"
proof -
  from assms(2) have check: "guard_check g now kind amount = Inr True"
    by (auto simp: guard_consume_def split: sum.splits bool.splits)
  then have "0 \<le> amount"
    and room: "\<And>l c. guard_limits g kind = Some (Some l) \<Longrightarrow> guard_counter g kind = Some c \<Longrightarrow>
      c + amount \<le> l"
    by (auto simp: guard_check_def split: if_splits option.splits)
  from check have "kind \<in> {''step'', ''tool_call'', ''message'', ''token'', ''replan''}"
    unfolding guard_counter_Some_iff [of g, symmetric]
    by (simp add: guard_check_def split: if_splits option.splits)
  then consider "kind = ''step''" | "kind = ''tool_call''" | "kind = ''message''"
    | "kind = ''token''" | "kind = ''replan''" by blast
  then show ?thesis
    using assms check room \<open>0 \<le> amount\<close>
    by cases (auto simp: guard_consume_def guard_within_def guard_limits_def
        guard_counter_def intro!: room_for_add)
qed

lemma guard_run_within: "guard_within g \<Longrightarrow> guard_within (guard_run g rs)"
proof (induction g rs rule: guard_run.induct)
  case (1 g)
  then show ?case by simp
next
  case (2 g now kind amount rs)
  then show ?case by (auto split: sum.splits dest: guard_consume_within)
qed

lemma guard_run_budget: "g_budget (guard_run g rs) = g_budget g"
  by (induction g rs rule: guard_run.induct)
    (auto split: sum.splits dest: guard_consume_budget)

section \<open>ProgressWatchdog\<close>

record watchdog =
  threshold :: int
  w_last :: "(string \<times> string \<times> string set) option"
  seen_evidence :: "string set"
  consecutive :: int

record watchdog_decision =
  triggered :: bool
  reason :: string
  d_consecutive :: int
  has_new_evidence :: bool

definition watchdog_init :: "int \<Rightarrow> watchdog result" where
  "watchdog_init t =
     (if t < 1 then Inl (ValueError ''threshold must be positive'')
      else Inr \<lparr>threshold = t, w_last = None, seen_evidence = {}, consecutive = 0\<rparr>)"

definition watchdog_observe ::
    "(json \<Rightarrow> string) \<Rightarrow> watchdog \<Rightarrow> json \<Rightarrow> string \<Rightarrow> string list \<Rightarrow>
     watchdog_decision \<times> watchdog" where
  "watchdog_observe sha w action_signature world_state_hash evidence_ids =
     (let evidence = set evidence_ids;
          action_hash = stable_hash sha action_signature;
          same = (case w_last w of
                    None \<Rightarrow> False
                  | Some (a, h, _) \<Rightarrow> a = action_hash \<and> h = world_state_hash);
          new_evidence = (evidence - seen_evidence w \<noteq> {});
          c = (if same \<and> \<not> new_evidence then consecutive w + 1 else 1);
          trig = (threshold w \<le> c \<and> \<not> new_evidence)
      in (\<lparr>triggered = trig, reason = (if trig then ''no_progress'' else ''progress''),
            d_consecutive = c, has_new_evidence = new_evidence\<rparr>,
          w\<lparr>w_last := Some (action_hash, world_state_hash, evidence),
            seen_evidence := seen_evidence w \<union> evidence, consecutive := c\<rparr>))"

text \<open>
  The service replays the whole history of a Quest through a fresh watchdog and acts on the last
  decision (the loop of \<^verbatim>\<open>_record_progress_and_check_loop\<close>).
\<close>

type_synonym observation = "json \<times> string \<times> string list"

fun watchdog_run ::
    "(json \<Rightarrow> string) \<Rightarrow> watchdog \<Rightarrow> observation list \<Rightarrow> watchdog_decision option \<Rightarrow>
     watchdog_decision option \<times> watchdog" where
  "watchdog_run sha w [] d = (d, w)"
| "watchdog_run sha w ((sig, h, ev) # os) d =
     (case watchdog_observe sha w sig h ev of (d', w') \<Rightarrow> watchdog_run sha w' os (Some d'))"

text \<open>
  What the watchdog is meant to notice, without its counters: the last \<open>n\<close> observations have the
  same action and world hash, and none after the first of them brought evidence not seen before.
\<close>

fun obs_key :: "(json \<Rightarrow> string) \<Rightarrow> observation \<Rightarrow> string \<times> string" where
  "obs_key sha (sig, h, ev) = (stable_hash sha sig, h)"

fun obs_evidence :: "observation \<Rightarrow> string set" where
  "obs_evidence (sig, h, ev) = set ev"

definition brings_new :: "observation list \<Rightarrow> nat \<Rightarrow> bool" where
  "brings_new os i \<longleftrightarrow> \<not> obs_evidence (os ! i) \<subseteq> \<Union> (obs_evidence ` set (take i os))"

definition stalled_for :: "(json \<Rightarrow> string) \<Rightarrow> observation list \<Rightarrow> nat \<Rightarrow> bool" where
  "stalled_for sha os n \<longleftrightarrow>
     n \<le> length os \<and>
     (\<forall>i < length os. length os - n \<le> i \<longrightarrow> obs_key sha (os ! i) = obs_key sha (last os)) \<and>
     (\<forall>i < length os. length os - n < i \<longrightarrow> \<not> brings_new os i)"

lemma watchdog_run_snoc:
  "watchdog_run sha w (os @ [(sig, h, ev)]) d =
     (case watchdog_run sha w os d of (d', w') \<Rightarrow>
        (case watchdog_observe sha w' sig h ev of (d'', w'') \<Rightarrow> (Some d'', w'')))"
  by (induction os arbitrary: w d) (auto split: prod.splits)

lemma brings_new_snoc:
  "brings_new (os @ [x]) i =
     (if i < length os then brings_new os i
      else if i = length os then \<not> obs_evidence x \<subseteq> \<Union> (obs_evidence ` set os)
      else brings_new (os @ [x]) i)"
  by (auto simp: brings_new_def nth_append)

lemma stalled_for_snoc_Suc:
  assumes "os \<noteq> []" and "0 < n"
  shows "stalled_for sha (os @ [x]) (Suc n) \<longleftrightarrow>
     stalled_for sha os n \<and> obs_key sha x = obs_key sha (last os) \<and>
     \<not> brings_new (os @ [x]) (length os)"
proof
  assume L: "stalled_for sha (os @ [x]) (Suc n)"
  then have len: "n \<le> length os"
    and keys: "\<And>i. i < Suc (length os) \<Longrightarrow> length os - n \<le> i \<Longrightarrow>
      obs_key sha ((os @ [x]) ! i) = obs_key sha x"
    and fresh: "\<And>i. i < Suc (length os) \<Longrightarrow> length os - n < i \<Longrightarrow> \<not> brings_new (os @ [x]) i"
    by (auto simp: stalled_for_def)
  have kl: "obs_key sha (last os) = obs_key sha x"
    using keys [of "length os - 1"] assms by (simp add: nth_append last_conv_nth)
  have "\<not> brings_new (os @ [x]) (length os)"
    using fresh [of "length os"] assms by simp
  moreover have "stalled_for sha os n"
    unfolding stalled_for_def
  proof (intro conjI allI impI)
    show "n \<le> length os" by (rule len)
  next
    fix i assume "i < length os" "length os - n \<le> i"
    then show "obs_key sha (os ! i) = obs_key sha (last os)"
      using keys [of i] kl by (simp add: nth_append)
  next
    fix i assume "i < length os" "length os - n < i"
    then show "\<not> brings_new os i"
      using fresh [of i] by (simp add: brings_new_snoc)
  qed
  ultimately show "stalled_for sha os n \<and> obs_key sha x = obs_key sha (last os) \<and>
     \<not> brings_new (os @ [x]) (length os)"
    using kl by simp
next
  assume R: "stalled_for sha os n \<and> obs_key sha x = obs_key sha (last os) \<and>
     \<not> brings_new (os @ [x]) (length os)"
  then have "n \<le> length os" by (simp add: stalled_for_def)
  show "stalled_for sha (os @ [x]) (Suc n)"
    unfolding stalled_for_def
  proof (intro conjI allI impI)
    show "Suc n \<le> length (os @ [x])" using \<open>n \<le> length os\<close> by simp
  next
    fix i assume "i < length (os @ [x])" "length (os @ [x]) - Suc n \<le> i"
    then show "obs_key sha ((os @ [x]) ! i) = obs_key sha (last (os @ [x]))"
      using R by (cases "i < length os") (auto simp: nth_append stalled_for_def)
  next
    fix i assume "i < length (os @ [x])" "length (os @ [x]) - Suc n < i"
    then show "\<not> brings_new (os @ [x]) i"
      using R by (cases "i = length os") (auto simp: brings_new_snoc stalled_for_def)
  qed
qed

lemma stalled_for_one: "stalled_for sha os 1 \<longleftrightarrow> os \<noteq> []"
  by (cases os rule: rev_cases) (auto simp: stalled_for_def nth_append)

lemma stalled_for_mono: "stalled_for sha os n \<Longrightarrow> m \<le> n \<Longrightarrow> stalled_for sha os m"
  by (auto simp: stalled_for_def)

text \<open>The watchdog after a non-empty history: what its fields mean.\<close>

definition watchdog_tracks ::
    "(json \<Rightarrow> string) \<Rightarrow> int \<Rightarrow> observation list \<Rightarrow> watchdog \<Rightarrow> bool" where
  "watchdog_tracks sha t os w \<longleftrightarrow>
     threshold w = t \<and>
     seen_evidence w = \<Union> (obs_evidence ` set os) \<and>
     (if os = [] then w_last w = None \<and> consecutive w = 0
      else map_option (\<lambda>(a, h, _). (a, h)) (w_last w) = Some (obs_key sha (last os)) \<and>
           0 < consecutive w \<and>
           (\<forall>n > 0. stalled_for sha os n \<longleftrightarrow> int n \<le> consecutive w))"

lemma watchdog_tracks_init: "watchdog_init t = Inr w \<Longrightarrow> watchdog_tracks sha t [] w"
  by (auto simp: watchdog_init_def watchdog_tracks_def split: if_splits)

lemma stalled_for_snoc_pos:
  assumes "0 < n"
  shows "stalled_for sha (os @ [x]) n \<longleftrightarrow>
     n = 1 \<or> (os \<noteq> [] \<and> stalled_for sha os (n - 1) \<and> obs_key sha x = obs_key sha (last os) \<and>
            \<not> brings_new (os @ [x]) (length os))"
proof (cases "n = 1 \<or> os = []")
  case True
  then show ?thesis
    using assms stalled_for_one [of sha "os @ [x]"] by (auto simp: stalled_for_def)
next
  case False
  then have "os \<noteq> []" "0 < n - 1" "n = Suc (n - 1)" using assms by auto
  then show ?thesis
    using stalled_for_snoc_Suc [of os "n - 1" sha x] False by auto
qed

lemma watchdog_tracks_step:
  assumes "watchdog_tracks sha t os w"
    and "watchdog_observe sha w sig h ev = (d, w')"
  shows "watchdog_tracks sha t (os @ [(sig, h, ev)]) w' \<and>
         d_consecutive d = consecutive w' \<and>
         has_new_evidence d = brings_new (os @ [(sig, h, ev)]) (length os) \<and>
         triggered d = (t \<le> consecutive w' \<and> \<not> has_new_evidence d)"
proof -
  let ?x = "(sig, h, ev)"
  let ?new = "brings_new (os @ [?x]) (length os)"
  let ?same = "os \<noteq> [] \<and> obs_key sha ?x = obs_key sha (last os)"
  have seen: "seen_evidence w = \<Union> (obs_evidence ` set os)" and thr: "threshold w = t"
    using assms(1) by (simp_all add: watchdog_tracks_def)
  have new: "(set ev - seen_evidence w \<noteq> {}) = ?new"
    by (auto simp: brings_new_def seen)
  have same: "(case w_last w of None \<Rightarrow> False
      | Some (a, h', _) \<Rightarrow> a = stable_hash sha sig \<and> h' = h) = ?same"
    using assms(1)
    by (cases "obs_key sha (last os)") (auto simp: watchdog_tracks_def split: option.splits if_splits)
  have c': "consecutive w' = (if ?same \<and> \<not> ?new then consecutive w + 1 else 1)"
    and d: "d_consecutive d = consecutive w'" "has_new_evidence d = ?new"
      "triggered d = (t \<le> consecutive w' \<and> \<not> ?new)"
    and w': "threshold w' = t" "seen_evidence w' = seen_evidence w \<union> set ev"
      "w_last w' = Some (stable_hash sha sig, h, set ev)"
    using assms(2) unfolding watchdog_observe_def Let_def same new by (auto simp: thr)
  have "(stalled_for sha (os @ [?x]) n \<longleftrightarrow> int n \<le> consecutive w')" if "0 < n" for n
  proof (cases "?same \<and> \<not> ?new \<and> n \<noteq> 1")
    case True
    then have "stalled_for sha (os @ [?x]) n = stalled_for sha os (n - 1)"
      using that by (simp add: stalled_for_snoc_pos)
    also have "\<dots> = (int (n - 1) \<le> consecutive w)"
      using assms(1) True that by (auto simp: watchdog_tracks_def)
    finally show ?thesis using True that c' by auto
  next
    case False
    moreover have "0 < consecutive w" if "os \<noteq> []"
      using assms(1) that by (auto simp: watchdog_tracks_def)
    ultimately show ?thesis using that c' by (auto simp: stalled_for_snoc_pos)
  qed
  moreover have "0 < consecutive w'"
    using c' assms(1) by (auto simp: watchdog_tracks_def split: if_splits)
  ultimately show ?thesis
    using d w' seen by (auto simp: watchdog_tracks_def)
qed

lemma watchdog_tracks_run:
  assumes "watchdog_init t = Inr w" and "watchdog_run sha w os None = (d, w')"
  shows "watchdog_tracks sha t os w'"
  using assms(2)
proof (induction os arbitrary: d w' rule: rev_induct)
  case Nil
  with assms(1) show ?case by (simp add: watchdog_tracks_init)
next
  case (snoc x os)
  obtain sig h ev where "x = (sig, h, ev)" by (cases x)
  with snoc show ?case
    by (auto simp: watchdog_run_snoc split: prod.splits dest: watchdog_tracks_step)
qed

section \<open>CapabilityRouter\<close>

definition capability_route :: "int \<Rightarrow> string \<Rightarrow> bool option \<Rightarrow> string list result" where
  "capability_route step_count risk_level force_multi =
     (if step_count < 1 then Inl (ValueError ''step_count must be positive'')
      else let multi = (case force_multi of
                 Some b \<Rightarrow> b
               | None \<Rightarrow> 4 \<le> step_count \<or> str_lower risk_level \<in> {''high'', ''critical''})
        in Inr (if multi then [''planner'', ''executor'', ''verifier''] else [''agent'']))"

section \<open>SparseMessageBus\<close>

record sparse_message =
  task_id :: string
  sm_state_version :: int
  sender :: string
  recipient :: string
  evidence_ids :: "string list"
  expected_reply :: "string option"
  sm_payload :: json

record publish_result =
  accepted :: bool
  p_reason :: string
  message :: sparse_message

record message_bus =
  messages :: "sparse_message list"
  fingerprints :: "string set"

definition bus_init :: message_bus where
  "bus_init = \<lparr>messages = [], fingerprints = {}\<rparr>"

fun json_opt_str :: "string option \<Rightarrow> json" where
  "json_opt_str None = JNull"
| "json_opt_str (Some s) = JStr s"

definition message_fingerprint :: "(json \<Rightarrow> string) \<Rightarrow> sparse_message \<Rightarrow> string" where
  "message_fingerprint sha m = stable_hash sha (JObj
     [(''task_id'', JStr (task_id m)), (''sender'', JStr (sender m)),
      (''recipient'', JStr (recipient m)), (''payload'', sm_payload m),
      (''evidence_ids'', JList (map JStr (evidence_ids m))),
      (''expected_reply'', json_opt_str (expected_reply m))])"

definition bus_publish ::
    "(json \<Rightarrow> string) \<Rightarrow> message_bus \<Rightarrow> string \<Rightarrow> int \<Rightarrow> string \<Rightarrow> string \<Rightarrow> string list \<Rightarrow>
     string option \<Rightarrow> json \<Rightarrow> publish_result \<times> message_bus" where
  "bus_publish sha bus tid version frm to_agent evs reply payload =
     (let m = \<lparr>task_id = tid, sm_state_version = version, sender = frm, recipient = to_agent,
               evidence_ids = sorted_list_of_set (set evs), expected_reply = reply,
               sm_payload = payload\<rparr>;
          fingerprint = message_fingerprint sha m
      in if fingerprint \<in> fingerprints bus
         then (\<lparr>accepted = False, p_reason = ''duplicate_no_new_evidence'', message = m\<rparr>, bus)
         else (\<lparr>accepted = True, p_reason = ''accepted'', message = m\<rparr>,
               bus\<lparr>fingerprints := insert fingerprint (fingerprints bus),
                   messages := messages bus @ [m]\<rparr>))"

definition bus_ok :: "(json \<Rightarrow> string) \<Rightarrow> message_bus \<Rightarrow> bool" where
  "bus_ok sha bus \<longleftrightarrow>
     distinct (map (message_fingerprint sha) (messages bus)) \<and>
     fingerprints bus = message_fingerprint sha ` set (messages bus)"

lemma bus_ok_init: "bus_ok sha bus_init"
  by (simp add: bus_ok_def bus_init_def)

lemma bus_publish_ok:
  assumes "bus_ok sha bus"
    and "bus_publish sha bus tid version frm to_agent evs reply payload = (r, bus')"
  shows "bus_ok sha bus' \<and>
    accepted r = (message_fingerprint sha (message r) \<notin> fingerprints bus) \<and>
    messages bus' = messages bus @ (if accepted r then [message r] else [])"
proof -
  obtain m f where m: "m = \<lparr>task_id = tid, sm_state_version = version, sender = frm,
      recipient = to_agent, evidence_ids = sorted_list_of_set (set evs), expected_reply = reply,
      sm_payload = payload\<rparr>" and f: "f = message_fingerprint sha m"
    by blast
  show ?thesis
    using assms unfolding bus_publish_def Let_def m [symmetric] f [symmetric]
    by (auto simp: bus_ok_def f split: if_splits)
qed

section \<open>Properties\<close>

lemma guard_limit_counter:
  "guard_limits g kind = Some l \<Longrightarrow> \<exists>c. guard_counter g kind = Some c"
  by (auto simp: guard_limits_def guard_counter_def split: if_splits)

text \<open>
  A budget guard never overspends: whatever sequence of requests it is given (of any kind
  and amount, at any clock reading, refused ones included), every counter stays at or below its
  limit and never becomes negative.
\<close>

lemma guard_never_overspends:
  assumes "guard_within (budget_guard_init b t)"
  shows "guard_within (guard_run (budget_guard_init b t) rs) \<and>
         g_budget (guard_run (budget_guard_init b t) rs) = b"
  using assms by (simp add: guard_run_within guard_run_budget) (simp add: budget_guard_init_def)

lemma guard_never_overspends_witness:
  "guard_within (guard_run (budget_guard_init
      \<lparr>max_steps = Some 2, max_tool_calls = Some 5, max_messages = None, max_tokens = Some 10,
       max_replans = Some 0, max_seconds = Some 60\<rparr> 0)
      [(1, ''step'', 2), (2, ''step'', 1), (3, ''token'', 7)])"
  by (rule guard_never_overspends [THEN conjunct1])
    (simp add: guard_within_def budget_guard_init_def room_for_def)

text \<open>
  \<^verbatim>\<open>consume\<close> succeeds exactly when \<^verbatim>\<open>remaining\<close> says there is room: for a kind with a
  limit, a non-negative request is granted if and only if it fits the remaining count and the wall
  clock is within its limit; otherwise it raises \<^verbatim>\<open>BudgetExceeded\<close>.
\<close>

lemma guard_consume_iff_remaining:
  assumes "guard_within g" and "guard_remaining g now kind = Inr (Count r)" and "0 \<le> amount"
  shows "if amount \<le> r \<and> (\<forall>s. max_seconds (g_budget g) = Some s \<longrightarrow> now - started_at g \<le> s)
         then \<exists>g'. guard_consume g now kind amount = Inr g' \<and> guard_within g'
         else guard_consume g now kind amount = Inl (BudgetExceeded kind)"
proof -
  obtain limit c where l: "guard_limits g kind = Some (Some limit)"
    and c: "guard_counter g kind = Some c" and r: "r = max 0 (limit - c)"
    using assms(2) by (auto simp: guard_remaining_def split: if_splits option.splits)
  have "c \<le> limit"
    using assms(1) l c
    by (auto simp: guard_within_def room_for_def guard_limits_def guard_counter_def split: if_splits)
  then have chk: "guard_check g now kind amount =
      Inr (amount \<le> r \<and> (\<forall>s. max_seconds (g_budget g) = Some s \<longrightarrow> now - started_at g \<le> s))"
    using assms(3) l c r by (auto simp: guard_check_def split: option.splits)
  show ?thesis
  proof (cases "amount \<le> r \<and> (\<forall>s. max_seconds (g_budget g) = Some s \<longrightarrow> now - started_at g \<le> s)")
    case True
    then obtain g' where g': "guard_consume g now kind amount = Inr g'"
      using chk by (simp add: guard_consume_def)
    with guard_consume_within [OF assms(1) g'] True show ?thesis by auto
  next
    case False
    with chk show ?thesis by (auto simp: guard_consume_def)
  qed
qed

theorem guard_consume_iff_remaining_witness:
  "\<exists>g'. guard_consume (budget_guard_init
      \<lparr>max_steps = Some 2, max_tool_calls = Some 5, max_messages = None, max_tokens = Some 10,
       max_replans = Some 0, max_seconds = Some 60\<rparr> 0) 1 ''step'' 2 = Inr g' \<and> guard_within g'"
  using guard_consume_iff_remaining [of "budget_guard_init
      \<lparr>max_steps = Some 2, max_tool_calls = Some 5, max_messages = None, max_tokens = Some 10,
       max_replans = Some 0, max_seconds = Some 60\<rparr> 0" 1 "''step''" 2 2]
  by (simp add: guard_within_def budget_guard_init_def room_for_def guard_remaining_def
      guard_limits_def guard_counter_def)

text \<open>
  The watchdog reports a stall exactly when there is one: replaying a non-empty history
  through a fresh watchdog with threshold \<open>t\<close>, the last decision is triggered if and only if the
  last \<open>t\<close> observations have the same action signature and world hash, none after the first of
  them brought unseen evidence, and the last one brought none.
\<close>

lemma watchdog_detects_stall:
  assumes "watchdog_init t = Inr w" and "os \<noteq> []"
    and "watchdog_run sha w os None = (Some d, w')"
  shows "triggered d \<longleftrightarrow> stalled_for sha os (nat t) \<and> \<not> brings_new os (length os - 1)"
proof -
  obtain os' sig h ev where os: "os = os' @ [(sig, h, ev)]"
    using assms(2) by (metis prod_cases3 rev_exhaust)
  obtain d0 w0 where run0: "watchdog_run sha w os' None = (d0, w0)" by fastforce
  then have obs: "watchdog_observe sha w0 sig h ev = (d, w')"
    using assms(3) by (simp add: os watchdog_run_snoc split: prod.splits)
  have "watchdog_tracks sha t os' w0" by (rule watchdog_tracks_run [OF assms(1) run0])
  from watchdog_tracks_step [OF this obs]
  have "watchdog_tracks sha t os w'"
    and "triggered d = (t \<le> consecutive w' \<and> \<not> brings_new os (length os'))"
    by (simp_all add: os)
  moreover have "0 < nat t" "int (nat t) = t"
    using assms(1) by (auto simp: watchdog_init_def split: if_splits)
  ultimately show ?thesis using assms(2) os by (auto simp: watchdog_tracks_def)
qed

lemma watchdog_detects_stall_witness:
  "stalled_for (\<lambda>_. ''h'') [(JStr ''a'', ''w'', []), (JStr ''a'', ''w'', [])] 2"
  using watchdog_detects_stall [of 2
      "\<lparr>threshold = 2, w_last = None, seen_evidence = {}, consecutive = 0\<rparr>"
      "[(JStr ''a'', ''w'', []), (JStr ''a'', ''w'', [])]" "\<lambda>_. ''h''"
      "\<lparr>triggered = True, reason = ''no_progress'', d_consecutive = 2, has_new_evidence = False\<rparr>"
      "\<lparr>threshold = 2, w_last = Some (''h'', ''w'', {}), seen_evidence = {}, consecutive = 2\<rparr>"]
  by (simp add: watchdog_init_def watchdog_observe_def stable_hash_def Let_def)

text \<open>
  The event reducer applies a patch key by key and never drops a key: a key the patch
  does not name keeps its value, a key it names gets the patch's value, merged into an old dict.
\<close>

lemma reducer_patch_semantics:
  assumes "distinct (map fst p)"
    and "reducer_apply (Some s) (Event ty (JObj [(''patch'', JObj p)])) = Inr s'"
  shows "dict_get s' k =
    (case dict_get p k of
       None \<Rightarrow> dict_get s k
     | Some v \<Rightarrow> Some (case dict_get s k of None \<Rightarrow> v | Some old \<Rightarrow> merge old v))"
proof -
  have "s' = merge_items s p" using assms(2) by simp
  then show ?thesis by (simp add: dict_get_merge_items [OF assms(1)])
qed

lemma reducer_patch_semantics_witness:
  "dict_get (merge_items [(''a'', JInt 1), (''b'', JInt 2)] [(''b'', JInt 3)]) ''a'' = Some (JInt 1)"
  using reducer_patch_semantics [of "[(''b'', JInt 3)]" "[(''a'', JInt 1), (''b'', JInt 2)]" "''t''"
      "merge_items [(''a'', JInt 1), (''b'', JInt 2)] [(''b'', JInt 3)]" "''a''"]
  by simp

end
