(* ===== verification/Planning.thy ===== *)
theory Planning
  imports Json "HOL-Library.Product_Lexorder"
begin

text \<open>
  Plans: the compilation of a plan from the agent's steps and its constrained replanning
  (\<^verbatim>\<open>backend/app/v1/orchestration.py\<close>), the validation of a plan's dependency graph by the storage
  (\<^verbatim>\<open>V1Storage._validate_plan\<close>) and the scheduling helpers of the service
  (\<^verbatim>\<open>_ready_milestones\<close>, \<^verbatim>\<open>_updated_milestones\<close>).
\<close>

section \<open>Data\<close>

datatype milestone_status = Pending | Running | Verifying | Completed | Failed | Superseded

record milestone =
  m_id :: string
  m_plan_version :: int
  m_position :: int
  m_title :: string
  m_description :: string
  m_tool :: string
  m_args :: dict
  m_deps :: "string list"
  m_criteria :: "string list"
  m_status :: milestone_status
  m_evidence :: "string list"
  m_attempt :: int

text \<open>\<^verbatim>\<open>agent.PlanStep\<close>\<close>

record plan_step =
  s_title :: string
  s_description :: string
  s_tool :: string
  s_args :: dict

datatype criterion_kind =
  FileExistsNonempty | Markdown | PythonSyntax | JsonSchema | DiffScope

fun kind_name :: "criterion_kind \<Rightarrow> string" where
  "kind_name FileExistsNonempty = ''file_exists_nonempty''"
| "kind_name Markdown = ''markdown''"
| "kind_name PythonSyntax = ''python_syntax''"
| "kind_name JsonSchema = ''json_schema''"
| "kind_name DiffScope = ''diff_scope''"

record acceptance_criterion =
  c_id :: string
  c_kind :: criterion_kind
  c_description :: string
  c_path :: "string option"
  c_required_keys :: "string list"
  c_allowed_paths :: "string list"
  c_changed_paths :: "string list"
  c_required :: bool

record plan =
  pl_id :: string
  pl_version :: int
  pl_milestones :: "milestone list"
  pl_metadata :: dict

fun status_name :: "milestone_status \<Rightarrow> string" where
  "status_name Pending = ''pending''"
| "status_name Running = ''running''"
| "status_name Verifying = ''verifying''"
| "status_name Completed = ''completed''"
| "status_name Failed = ''failed''"
| "status_name Superseded = ''superseded''"

definition json_strs :: "string list \<Rightarrow> json" where
  "json_strs xs = JList (map JStr xs)"

text \<open>The dict of one node, as \<^verbatim>\<open>_compile_nodes\<close> writes it and the state keeps it.\<close>

definition milestone_json :: "milestone \<Rightarrow> json" where
  "milestone_json m = JObj
     [(''id'', JStr (m_id m)), (''plan_version'', JInt (m_plan_version m)),
      (''position'', JInt (m_position m)), (''title'', JStr (m_title m)),
      (''description'', JStr (m_description m)), (''tool_name'', JStr (m_tool m)),
      (''tool_args'', JObj (m_args m)), (''dependencies'', json_strs (m_deps m)),
      (''acceptance_criteria'', json_strs (m_criteria m)),
      (''status'', JStr (status_name (m_status m))),
      (''evidence_ids'', json_strs (m_evidence m)), (''attempt'', JInt (m_attempt m))]"

definition milestones_json :: "milestone list \<Rightarrow> json" where
  "milestones_json ms = JList (map milestone_json ms)"

fun status_of_name :: "string \<Rightarrow> milestone_status" where
  "status_of_name s =
     (if s = ''running'' then Running else if s = ''verifying'' then Verifying
      else if s = ''completed'' then Completed else if s = ''failed'' then Failed
      else if s = ''superseded'' then Superseded else Pending)"

text \<open>The same dict read back with its subscripts.\<close>

definition milestone_of_json :: "json \<Rightarrow> milestone" where
  "milestone_of_json v =
     (let d = as_dict v; get = (\<lambda>k. dict_get_or d k JNull)
      in \<lparr>m_id = as_str (get ''id''), m_plan_version = as_int (get ''plan_version''),
          m_position = as_int (get ''position''), m_title = as_str (get ''title''),
          m_description = as_str (get ''description''), m_tool = as_str (get ''tool_name''),
          m_args = as_dict (get ''tool_args''),
          m_deps = map as_str (as_list (get ''dependencies'')),
          m_criteria = map as_str (as_list (get ''acceptance_criteria'')),
          m_status = status_of_name (as_str (get ''status'')),
          m_evidence = map as_str (as_list (get ''evidence_ids'')),
          m_attempt = as_int (get ''attempt'')\<rparr>)"

lemma status_of_name_inverse [simp]: "status_of_name (status_name st) = st"
  by (cases st) auto

lemma map_as_str_inverse [simp]: "map as_str (as_list (json_strs xs)) = xs"
  by (simp add: json_strs_def comp_def)

lemma milestone_of_json_inverse [simp]: "milestone_of_json (milestone_json m) = m"
  by (simp add: milestone_of_json_def milestone_json_def dict_get_or_def Let_def
      del: status_of_name.simps)

section \<open>Criteria\<close>

definition short_id :: "(json \<Rightarrow> string) \<Rightarrow> string \<Rightarrow> json \<Rightarrow> string" where
  "short_id sha prefix v = prefix @ ''_'' @ take 12 (stable_hash sha v)"

text \<open>\<^verbatim>\<open>str(args.get("path", ""))\<close>: the agent's steps carry a string path or none.\<close>

definition path_arg :: "dict \<Rightarrow> string" where
  "path_arg args = as_str (dict_get_or args ''path'' (JStr []))"

definition criterion_for_path :: "(json \<Rightarrow> string) \<Rightarrow> string \<Rightarrow> acceptance_criterion" where
  "criterion_for_path sha path =
     (let lower = str_lower path;
          kind = (if ends_with lower ''.py'' then PythonSyntax
                  else if ends_with lower ''.md'' \<or> ends_with lower ''.markdown'' then Markdown
                  else if ends_with lower ''.json'' then JsonSchema
                  else FileExistsNonempty)
      in \<lparr>c_id = short_id sha ''criterion''
             (JObj [(''path'', JStr path), (''kind'', JStr (kind_name kind))]),
          c_kind = kind,
          c_description = kind_name kind @ '' check for '' @ path,
          c_path = Some path, c_required_keys = [], c_allowed_paths = [],
          c_changed_paths = [], c_required = True\<rparr>)"

text \<open>The criteria generated from the writing steps, one per path, in order of first use.\<close>

fun generated_criteria ::
    "(json \<Rightarrow> string) \<Rightarrow> plan_step list \<Rightarrow> (string \<times> acceptance_criterion) list \<Rightarrow>
     (string \<times> acceptance_criterion) list" where
  "generated_criteria sha [] acc = acc"
| "generated_criteria sha (s # ss) acc =
     generated_criteria sha ss
       (if s_tool s = ''write_file'' \<and> path_arg (s_args s) \<noteq> []
        then AList.update (path_arg (s_args s)) (criterion_for_path sha (path_arg (s_args s))) acc
        else acc)"

text \<open>\<^verbatim>\<open>{f(item): index for index, item in enumerate(xs)}\<close>: the last index of a key wins.\<close>

definition last_index :: "('a \<Rightarrow> 'k option) \<Rightarrow> 'a list \<Rightarrow> 'k \<Rightarrow> nat option" where
  "last_index f xs k =
     map_of (rev (zip (map f xs) [0..<length xs])) (Some k)"

fun override_criteria ::
    "(string \<Rightarrow> nat option) \<Rightarrow> (string \<Rightarrow> nat option) \<Rightarrow> acceptance_criterion list \<Rightarrow>
     acceptance_criterion list \<Rightarrow> acceptance_criterion list" where
  "override_criteria by_id by_path res [] = res"
| "override_criteria by_id by_path res (c # cs) =
     (let index = (case by_id (c_id c) of
                     Some i \<Rightarrow> Some i
                   | None \<Rightarrow> (case c_path c of
                                Some p \<Rightarrow> if p \<noteq> [] then by_path p else None
                              | None \<Rightarrow> None))
      in override_criteria by_id by_path
           (case index of None \<Rightarrow> res @ [c] | Some i \<Rightarrow> res[i := c]) cs)"

definition normalize_criteria ::
    "(json \<Rightarrow> string) \<Rightarrow> acceptance_criterion list \<Rightarrow> plan_step list \<Rightarrow>
     acceptance_criterion list" where
  "normalize_criteria sha payload_criteria steps =
     (let result = map snd (generated_criteria sha steps []);
          by_path = last_index
            (\<lambda>c. case c_path c of Some p \<Rightarrow> if p \<noteq> [] then Some p else None | None \<Rightarrow> None) result;
          by_id = last_index (\<lambda>c. Some (c_id c)) result
      in override_criteria by_id by_path result payload_criteria)"

section \<open>Compilation of the milestones\<close>

record compile_state =
  cs_nodes :: "milestone list"
  cs_roots :: "string list"
  cs_writes :: "(string \<times> string) list"
  cs_previous :: "string option"

definition node_id :: "(json \<Rightarrow> string) \<Rightarrow> int \<Rightarrow> plan_step \<Rightarrow> string" where
  "node_id sha position s = short_id sha ''milestone''
     (JObj [(''position'', JInt position), (''title'', JStr (s_title s)),
            (''tool'', JStr (s_tool s)), (''args'', JObj (s_args s))])"

definition node_dependencies :: "compile_state \<Rightarrow> int \<Rightarrow> plan_step \<Rightarrow> string list" where
  "node_dependencies st position s =
     (if position = 1 then []
      else if s_tool s = ''write_file'' then cs_roots st
      else if starts_with (s_tool s) ''check_''
              \<and> map_of (cs_writes st) (path_arg (s_args s)) \<noteq> None
        then [the (map_of (cs_writes st) (path_arg (s_args s)))]
      else case cs_previous st of
             Some p \<Rightarrow> if p \<noteq> [] then [p] else []
           | None \<Rightarrow> [])"

definition compile_step ::
    "(json \<Rightarrow> string) \<Rightarrow> int \<Rightarrow> plan_step \<Rightarrow> compile_state \<Rightarrow> compile_state" where
  "compile_step sha position s st =
     (let nid = node_id sha position s;
          path = path_arg (s_args s);
          node = \<lparr>m_id = nid, m_plan_version = 1, m_position = position, m_title = s_title s,
                  m_description = s_description s, m_tool = s_tool s, m_args = s_args s,
                  m_deps = node_dependencies st position s, m_criteria = [],
                  m_status = Pending, m_evidence = [], m_attempt = 0\<rparr>
      in \<lparr>cs_nodes = cs_nodes st @ [node],
          cs_roots = (if position = 1 then cs_roots st @ [nid] else cs_roots st),
          cs_writes = (if s_tool s = ''write_file'' \<and> path \<noteq> []
                       then AList.update path nid (cs_writes st) else cs_writes st),
          cs_previous = Some nid\<rparr>)"

fun compile_loop ::
    "(json \<Rightarrow> string) \<Rightarrow> int \<Rightarrow> plan_step list \<Rightarrow> compile_state \<Rightarrow> compile_state" where
  "compile_loop sha position [] st = st"
| "compile_loop sha position (s # ss) st =
     compile_loop sha (position + 1) ss (compile_step sha position s st)"

definition compile_nodes :: "(json \<Rightarrow> string) \<Rightarrow> plan_step list \<Rightarrow> milestone list" where
  "compile_nodes sha steps = cs_nodes (compile_loop sha 1 steps
     \<lparr>cs_nodes = [], cs_roots = [], cs_writes = [], cs_previous = None\<rparr>)"

section \<open>Validation of the dependency graph\<close>

text \<open>The two loops over the milestones that build \<^verbatim>\<open>dependencies\<close> and check each node.\<close>

fun check_dependencies ::
    "string set \<Rightarrow> milestone list \<Rightarrow> (milestone list \<times> (string \<times> string set) list) result" where
  "check_dependencies ids [] = Inr ([], [])"
| "check_dependencies ids (m # ms) =
     (let ds = set (m_deps m)
      in if ds - ids \<noteq> {} then Inl (ValueError ''missing dependency'')
         else if m_id m \<in> ds then Inl (ValueError ''dependency cycle'')
         else case check_dependencies ids ms of
                Inl e \<Rightarrow> Inl e
              | Inr (ms', deps) \<Rightarrow>
                  Inr (m\<lparr>m_deps := sort (remdups (m_deps m))\<rparr> # ms', (m_id m, ds) # deps))"

text \<open>One pass of \<^verbatim>\<open>for identifier, items in dependencies.items()\<close>.\<close>

fun kahn_scan ::
    "string \<Rightarrow> string list \<Rightarrow> string list \<Rightarrow> (string \<times> string set) list \<Rightarrow>
     (string \<times> string set) list \<times> string list" where
  "kahn_scan current visited ready [] = ([], ready)"
| "kahn_scan current visited ready ((i, items) # ds) =
     (if current \<in> items then
        let items' = items - {current};
            ready' = (if items' = {} \<and> i \<notin> set visited \<and> i \<notin> set ready
                      then sort (ready @ [i]) else ready)
        in case kahn_scan current visited ready' ds of
             (ds', ready'') \<Rightarrow> ((i, items') # ds', ready'')
      else case kahn_scan current visited ready ds of
             (ds', ready'') \<Rightarrow> ((i, items) # ds', ready''))"

definition open_nodes :: "(string \<times> string set) list \<Rightarrow> nat" where
  "open_nodes deps = length (filter (\<lambda>(i, items). items \<noteq> {}) deps)"

lemma kahn_scan_measure:
  "kahn_scan c vis rd ds = (ds', rd') \<Longrightarrow>
     length rd' + open_nodes ds' \<le> length rd + open_nodes ds"
proof (induction c vis rd ds arbitrary: ds' rd' rule: kahn_scan.induct)
  case (1 current visited ready)
  then show ?case by simp
next
  case (2 current visited ready i items ds)
  show ?case
  proof (cases "current \<in> items")
    case True
    then have "items \<noteq> {}" by auto
    with 2 True show ?thesis
      by (fastforce simp: open_nodes_def Let_def split: prod.splits if_splits)
  next
    case False
    with 2 show ?thesis
      by (fastforce simp: open_nodes_def split: prod.splits if_splits)
  qed
qed

function kahn ::
    "string list \<Rightarrow> string list \<Rightarrow> (string \<times> string set) list \<Rightarrow> string list" where
  "kahn [] visited deps = visited"
| "kahn (current # ready) visited deps =
     (case kahn_scan current (visited @ [current]) ready deps of
        (deps', ready') \<Rightarrow> kahn ready' (visited @ [current]) deps')"
  by pat_completeness auto
termination
  by (relation "measure (\<lambda>(ready, visited, deps). length ready + open_nodes deps)")
    (auto dest!: kahn_scan_measure [OF sym])

definition validate_plan :: "milestone list \<Rightarrow> milestone list result" where
  "validate_plan milestones =
     (let identifiers = map m_id milestones
      in if identifiers = [] \<or> (\<exists>i \<in> set identifiers. i = [])
         then Inl (ValueError ''plan must contain milestones with stable IDs'')
         else if \<not> distinct identifiers then Inl (ValueError ''duplicate milestone ID'')
         else case check_dependencies (set identifiers) milestones of
           Inl e \<Rightarrow> Inl e
         | Inr (ms, deps) \<Rightarrow>
             let ready = sort (map fst (filter (\<lambda>(i, items). items = {}) deps));
                 visited = kahn ready [] deps
             in if length visited \<noteq> length identifiers
                then Inl (ValueError ''dependency cycle'')
                else Inr ms)"

section \<open>Scheduling helpers of the service\<close>

definition completed_ids :: "milestone list \<Rightarrow> string set" where
  "completed_ids ms = m_id ` set (filter (\<lambda>m. m_status m = Completed) ms)"

definition ready_milestones :: "milestone list \<Rightarrow> milestone list" where
  "ready_milestones ms =
     sort_key (\<lambda>m. (m_position m, m_id m))
       (filter (\<lambda>m. m_status m \<in> {Pending, Running, Verifying}
                     \<and> set (m_deps m) \<subseteq> completed_ids ms) ms)"

fun updated_milestones ::
    "milestone list \<Rightarrow> string \<Rightarrow> (milestone \<Rightarrow> milestone) \<Rightarrow> milestone list result" where
  "updated_milestones [] mid change = Inl (KeyError mid)"
| "updated_milestones (m # ms) mid change =
     (if m_id m = mid then Inr (change m # ms)
      else case updated_milestones ms mid change of
             Inl e \<Rightarrow> Inl e | Inr ms' \<Rightarrow> Inr (m # ms'))"

section \<open>Replanning\<close>

datatype replan_outcome = RequiresUser | Replanned plan

definition remap_id :: "(json \<Rightarrow> string) \<Rightarrow> int \<Rightarrow> string \<Rightarrow> string \<Rightarrow> string" where
  "remap_id sha version hypothesis old = short_id sha ''milestone''
     (JObj [(''version'', JInt (version + 1)), (''old'', JStr old),
            (''hypothesis'', JStr hypothesis)])"

definition replan_milestone ::
    "(json \<Rightarrow> string) \<Rightarrow> int \<Rightarrow> string \<Rightarrow> string list \<Rightarrow> milestone \<Rightarrow> milestone" where
  "replan_milestone sha version hypothesis unfinished m =
     m\<lparr>m_id := remap_id sha version hypothesis (m_id m), m_plan_version := version + 1,
       m_status := Pending, m_evidence := [], m_attempt := m_attempt m + 1,
       m_deps := map (\<lambda>d. if d \<in> set unfinished
                           then remap_id sha version hypothesis d else d) (m_deps m)\<rparr>"

definition replan_plan ::
    "(json \<Rightarrow> string) \<Rightarrow> plan \<Rightarrow> int \<Rightarrow> int option \<Rightarrow> string \<Rightarrow> string \<Rightarrow> replan_outcome result"
where
  "replan_plan sha p used limit failed_node hypothesis =
     (let milestones = pl_milestones p;
          completed = completed_ids milestones;
          all_ids = m_id ` set milestones
      in if failed_node \<notin> all_ids
           then Inl (ValueError ''failed milestone is not in the current plan'')
         else if failed_node \<in> completed
           then Inl (ValueError ''completed milestones cannot be replanned'')
         else if limit \<noteq> None \<and> the limit \<le> used then Inr RequiresUser
         else
           let unfinished = filter (\<lambda>i. i \<notin> completed) (map m_id milestones);
               next_milestones = map (\<lambda>m. if m_id m \<in> completed then m
                 else replan_milestone sha (pl_version p) hypothesis unfinished m) milestones;
               superseded = as_list (dict_get_or (pl_metadata p) ''superseded'' (JList []));
               entry = JObj [(''plan_version'', JInt (pl_version p)),
                             (''node_ids'', JList (map JStr unfinished)),
                             (''failure_hypothesis'', JStr hypothesis)]
           in Inr (Replanned \<lparr>pl_id = pl_id p, pl_version = pl_version p + 1,
                pl_milestones = next_milestones,
                pl_metadata = dict_set ''superseded'' (JList (superseded @ [entry]))
                                (pl_metadata p)\<rparr>))"

end
