(* ===== verification/Plan_Progress.thy ===== *)
theory Plan_Progress
  imports Plan_Graph
begin

text \<open>
  Progress and replanning: an accepted plan whose milestones have not failed always has a ready
  milestone until all are completed; compiled plans are accepted; a replan keeps every completed
  milestone as it is and is accepted again.
\<close>

section \<open>No stall\<close>

definition live_status :: "milestone \<Rightarrow> bool" where
  "live_status m \<longleftrightarrow> m_status m \<in> {Pending, Running, Verifying, Completed}"

lemma ready_milestones_member:
  "m \<in> set (ready_milestones ms) \<longleftrightarrow>
     m \<in> set ms \<and> m_status m \<in> {Pending, Running, Verifying} \<and>
     set (m_deps m) \<subseteq> completed_ids ms"
  by (auto simp: ready_milestones_def)

lemma live_plan_has_ready:
  assumes ok: "plan_graph_ok ms" and live: "\<forall>m \<in> set ms. live_status m"
    and open_m: "m0 \<in> set ms" "m_status m0 \<noteq> Completed"
  shows "ready_milestones ms \<noteq> []"
proof -
  let ?U = "m_id ` {m \<in> set ms. m_status m \<noteq> Completed}"
  have wf: "wf (dep_rel ms)"
    using ok by (simp add: plan_graph_ok_def finite_acyclic_wf finite_dep_rel)
  have "m_id m0 \<in> ?U" using open_m by blast
  then obtain z where z: "z \<in> ?U" and min: "\<And>y. (y, z) \<in> dep_rel ms \<Longrightarrow> y \<notin> ?U"
    by (rule wfE_min [OF wf]) blast
  then obtain m where m: "m \<in> set ms" "m_id m = z" "m_status m \<noteq> Completed" by auto
  have "set (m_deps m) \<subseteq> completed_ids ms"
  proof
    fix d assume d: "d \<in> set (m_deps m)"
    with m have "(d, z) \<in> dep_rel ms" by (auto simp: dep_rel_def)
    then have "d \<notin> ?U" by (rule min)
    moreover have "d \<in> m_id ` set ms" using ok m(1) d by (auto simp: plan_graph_ok_def)
    ultimately show "d \<in> completed_ids ms" by (auto simp: completed_ids_def)
  qed
  moreover have "m_status m \<in> {Pending, Running, Verifying}"
    using live m by (auto simp: live_status_def)
  ultimately have "m \<in> set (ready_milestones ms)" using m by (simp add: ready_milestones_member)
  then show ?thesis by auto
qed

section \<open>Compiled plans\<close>

definition earlier_deps :: "milestone list \<Rightarrow> bool" where
  "earlier_deps ms \<longleftrightarrow> (\<forall>k < length ms. set (m_deps (ms ! k)) \<subseteq> m_id ` set (take k ms))"

lemma earlier_deps_snoc:
  "earlier_deps ms \<Longrightarrow> set (m_deps m) \<subseteq> m_id ` set ms \<Longrightarrow> earlier_deps (ms @ [m])"
  by (auto simp: earlier_deps_def nth_append less_Suc_eq)

lemma earlier_deps_graph_ok:
  assumes ne: "ms \<noteq> []" and ids: "\<forall>m \<in> set ms. m_id m \<noteq> []" and dist: "distinct (map m_id ms)"
    and early: "earlier_deps ms"
  shows "plan_graph_ok ms"
proof -
  have deps: "set (m_deps m) \<subseteq> set (take (pos_in (map m_id ms) (m_id m)) (map m_id ms))"
    if "m \<in> set ms" for m
  proof -
    let ?k = "pos_in (map m_id ms) (m_id m)"
    have k: "?k < length ms" "map m_id ms ! ?k = m_id m"
      using pos_in_nth [of "m_id m" "map m_id ms"] that by auto
    then have "ms ! ?k = m" using dist that by (auto simp: distinct_map inj_on_def)
    with early k show ?thesis unfolding earlier_deps_def take_map set_map by metis
  qed
  have "dep_rel ms \<subseteq> measure (pos_in (map m_id ms))"
    using deps by (fastforce simp: dep_rel_def intro: pos_in_take)
  then have "acyclic (dep_rel ms)" by (meson wf_acyclic wf_measure wf_subset)
  moreover have "\<forall>m \<in> set ms. set (m_deps m) \<subseteq> m_id ` set ms"
    using deps by (fastforce dest: in_set_takeD)
  ultimately show ?thesis using ne ids dist by (simp add: plan_graph_ok_def)
qed

definition compile_inv :: "compile_state \<Rightarrow> bool" where
  "compile_inv st \<longleftrightarrow>
     earlier_deps (cs_nodes st) \<and>
     (\<forall>m \<in> set (cs_nodes st). m_id m \<noteq> [] \<and> m_status m = Pending) \<and>
     set (cs_roots st) \<subseteq> m_id ` set (cs_nodes st) \<and>
     ran (map_of (cs_writes st)) \<subseteq> m_id ` set (cs_nodes st) \<and>
     (\<forall>p. cs_previous st = Some p \<longrightarrow> p \<in> m_id ` set (cs_nodes st))"

lemma short_id_nonempty [simp]: "short_id sha prefix v \<noteq> []"
  by (simp add: short_id_def)

lemma node_dependencies_inv:
  "compile_inv st \<Longrightarrow> set (node_dependencies st position s) \<subseteq> m_id ` set (cs_nodes st)"
  by (auto simp: compile_inv_def node_dependencies_def ran_def split: if_splits option.splits)

lemma ran_update:
  "x \<in> ran (map_of (AList.update k v al)) \<Longrightarrow> x = v \<or> x \<in> ran (map_of al)"
  by (auto simp: update_conv ran_def split: if_splits)

lemma compile_step_inv:
  assumes "compile_inv st"
  shows "compile_inv (compile_step sha position s st)"
  using assms node_dependencies_inv [OF assms, of position s]
  by (auto simp: compile_inv_def compile_step_def Let_def node_id_def
      intro!: earlier_deps_snoc dest!: ran_update)

lemma compile_loop_inv: "compile_inv st \<Longrightarrow> compile_inv (compile_loop sha position ss st)"
  by (induction sha position ss st rule: compile_loop.induct) (auto intro: compile_step_inv)

lemma compile_loop_length:
  "length (cs_nodes (compile_loop sha position ss st)) = length (cs_nodes st) + length ss"
  by (induction sha position ss st rule: compile_loop.induct)
    (auto simp: compile_step_def Let_def)

lemma compile_nodes_inv:
  "earlier_deps (compile_nodes sha steps) \<and> length (compile_nodes sha steps) = length steps \<and>
   (\<forall>m \<in> set (compile_nodes sha steps). m_id m \<noteq> [] \<and> m_status m = Pending)"
  using compile_loop_inv [of "\<lparr>cs_nodes = [], cs_roots = [], cs_writes = [], cs_previous = None\<rparr>"]
    compile_loop_length [of sha 1 steps
      "\<lparr>cs_nodes = [], cs_roots = [], cs_writes = [], cs_previous = None\<rparr>"]
  by (auto simp: compile_nodes_def compile_inv_def earlier_deps_def)

section \<open>Replanning\<close>

text \<open>A milestone is completed only after its dependencies: the order the executor keeps.\<close>

definition completion_closed :: "milestone list \<Rightarrow> bool" where
  "completion_closed ms \<longleftrightarrow>
     (\<forall>m \<in> set ms. m_status m = Completed \<longrightarrow> set (m_deps m) \<subseteq> completed_ids ms)"

definition renamed :: "(string \<Rightarrow> string) \<Rightarrow> milestone list \<Rightarrow> string \<Rightarrow> string" where
  "renamed r ms i = (if i \<in> completed_ids ms then i else r i)"

lemma completed_ids_status:
  "distinct (map m_id ms) \<Longrightarrow> m \<in> set ms \<Longrightarrow>
     m_id m \<in> completed_ids ms \<longleftrightarrow> m_status m = Completed"
  by (auto simp: completed_ids_def distinct_map dest: inj_onD)

definition replan_list ::
    "(json \<Rightarrow> string) \<Rightarrow> int \<Rightarrow> string \<Rightarrow> milestone list \<Rightarrow> milestone list" where
  "replan_list sha version hypothesis ms =
     map (\<lambda>m. if m_id m \<in> completed_ids ms then m
       else replan_milestone sha version hypothesis
              (filter (\<lambda>i. i \<notin> completed_ids ms) (map m_id ms)) m) ms"

lemma replan_plan_Replanned:
  assumes "replan_plan sha p used limit failed hypothesis = Inr (Replanned q)"
  shows "pl_milestones q = replan_list sha (pl_version p) hypothesis (pl_milestones p) \<and>
    pl_version q = pl_version p + 1 \<and> pl_id q = pl_id p \<and>
    failed \<in> m_id ` set (pl_milestones p) \<and> failed \<notin> completed_ids (pl_milestones p) \<and>
    (\<forall>l. limit = Some l \<longrightarrow> used < l)"
  using assms by (auto simp: replan_plan_def replan_list_def Let_def split: if_splits)

lemma replan_list_ids:
  "map m_id (replan_list sha v h ms) = map (renamed (remap_id sha v h) ms) (map m_id ms)"
  by (auto simp: replan_list_def renamed_def replan_milestone_def)

lemma replan_list_deps:
  assumes "plan_graph_ok ms" and "completion_closed ms"
  shows "dep_rel (replan_list sha v h ms) \<subseteq>
    {(renamed (remap_id sha v h) ms d, renamed (remap_id sha v h) ms i) |d i. (d, i) \<in> dep_rel ms}"
proof
  let ?f = "renamed (remap_id sha v h) ms"
  fix e assume "e \<in> dep_rel (replan_list sha v h ms)"
  then obtain m' d' where e: "e = (d', m_id m')" and m': "m' \<in> set (replan_list sha v h ms)"
    and d': "d' \<in> set (m_deps m')" by (auto simp: dep_rel_def)
  then obtain m where m: "m \<in> set ms" and m'_eq: "m' = (if m_id m \<in> completed_ids ms then m
      else replan_milestone sha v h (filter (\<lambda>i. i \<notin> completed_ids ms) (map m_id ms)) m)"
    by (auto simp: replan_list_def)
  have dist: "distinct (map m_id ms)" and closed: "set (m_deps m) \<subseteq> m_id ` set ms"
    using assms(1) m by (auto simp: plan_graph_ok_def)
  have "\<exists>d \<in> set (m_deps m). d' = ?f d"
  proof (cases "m_id m \<in> completed_ids ms")
    case True
    then have "set (m_deps m) \<subseteq> completed_ids ms"
      using assms(2) m completed_ids_status [OF dist m] by (simp add: completion_closed_def)
    with True d' m'_eq show ?thesis by (auto simp: renamed_def)
  next
    case False
    with d' m'_eq obtain d where d: "d \<in> set (m_deps m)"
      and "d' = (if d \<in> set (filter (\<lambda>i. i \<notin> completed_ids ms) (map m_id ms))
                 then remap_id sha v h d else d)"
      by (auto simp: replan_milestone_def)
    moreover have "d \<in> m_id ` set ms" using d closed by auto
    ultimately show ?thesis by (auto simp: renamed_def)
  qed
  moreover have "m_id m' = ?f (m_id m)"
    using m'_eq by (auto simp: renamed_def replan_milestone_def)
  ultimately show "e \<in> {(?f d, ?f i) |d i. (d, i) \<in> dep_rel ms}"
    using e m by (auto simp: dep_rel_def)
qed

lemma acyclic_renamed:
  assumes "acyclic R" and "finite R" and "inj_on f A" and "R \<subseteq> A \<times> A"
  shows "acyclic {(f d, f i) |d i. (d, i) \<in> R}"
proof -
  have "{(f d, f i) |d i. (d, i) \<in> R} \<subseteq> inv_image R (inv_into A f)"
    using assms(3,4) by (auto simp: inv_into_f_f)
  moreover have "wf (inv_image R (inv_into A f))"
    using assms(1,2) by (simp add: finite_acyclic_wf)
  ultimately show ?thesis by (meson wf_acyclic wf_subset)
qed

lemma dep_rel_ids:
  "plan_graph_ok ms \<Longrightarrow> dep_rel ms \<subseteq> m_id ` set ms \<times> m_id ` set ms"
  by (fastforce simp: plan_graph_ok_def dep_rel_def)

lemma replan_list_graph_ok:
  assumes ok: "plan_graph_ok ms" and closed: "completion_closed ms"
    and inj: "inj_on (renamed (remap_id sha v h) ms) (m_id ` set ms)"
  shows "plan_graph_ok (replan_list sha v h ms)"
proof -
  let ?f = "renamed (remap_id sha v h) ms"
  let ?ms' = "replan_list sha v h ms"
  have ids: "m_id ` set ?ms' = ?f ` m_id ` set ms"
    using replan_list_ids [of sha v h ms] by (metis image_set list.set_map)
  have "acyclic {(?f d, ?f i) |d i. (d, i) \<in> dep_rel ms}"
    using ok by (intro acyclic_renamed [OF _ finite_dep_rel inj dep_rel_ids])
      (simp_all add: plan_graph_ok_def)
  then have acyc: "acyclic (dep_rel ?ms')"
    by (rule acyclic_subset) (rule replan_list_deps [OF ok closed])
  have "distinct (map m_id ?ms')"
    unfolding replan_list_ids using ok inj by (simp add: plan_graph_ok_def distinct_map comp_inj_on)
  moreover have "set (m_deps m') \<subseteq> m_id ` set ?ms'" if "m' \<in> set ?ms'" for m'
  proof
    fix d' assume "d' \<in> set (m_deps m')"
    with that have "(d', m_id m') \<in> dep_rel ?ms'" by (auto simp: dep_rel_def)
    then obtain d i where "d' = ?f d" "(d, i) \<in> dep_rel ms"
      using replan_list_deps [OF ok closed, of sha v h] by auto
    then show "d' \<in> m_id ` set ?ms'" unfolding ids using dep_rel_ids [OF ok] by auto
  qed
  moreover have "\<forall>m' \<in> set ?ms'. m_id m' \<noteq> []"
    using ok by (auto simp: replan_list_def replan_milestone_def remap_id_def plan_graph_ok_def)
  moreover have "?ms' \<noteq> []" using ok by (simp add: replan_list_def plan_graph_ok_def)
  ultimately show ?thesis using acyc by (simp add: plan_graph_ok_def)
qed

lemma replan_list_status:
  assumes "distinct (map m_id ms)" and "m' \<in> set (replan_list sha v h ms)"
  shows "m_status m' = Pending \<or> (m_status m' = Completed \<and> m' \<in> set ms)"
  using assms completed_ids_status [OF assms(1)]
  by (auto simp: replan_list_def replan_milestone_def)

lemma replan_list_open:
  assumes "m \<in> set ms" and "m_id m \<notin> completed_ids ms"
  shows "\<exists>m' \<in> set (replan_list sha v h ms). m_status m' \<noteq> Completed"
proof
  let ?m' = "replan_milestone sha v h (filter (\<lambda>i. i \<notin> completed_ids ms) (map m_id ms)) m"
  show "?m' \<in> set (replan_list sha v h ms)" using assms by (force simp: replan_list_def)
  show "m_status ?m' \<noteq> Completed" by (simp add: replan_milestone_def)
qed

lemma plan_graph_ok_cong:
  assumes "map m_id ms' = map m_id ms" and "map m_deps ms' = map m_deps ms" and "plan_graph_ok ms"
  shows "plan_graph_ok ms'"
proof -
  let ?pair = "\<lambda>m. (m_id m, m_deps m)"
  have z: "map ?pair xs = zip (map m_id xs) (map m_deps xs)" for xs
    by (induction xs) auto
  have "map ?pair ms' = map ?pair ms" unfolding z assms(1,2) by (rule refl)
  then have pairs: "?pair ` set ms' = ?pair ` set ms" by (metis list.set_map)
  have rel: "dep_rel xs = {(d, i). \<exists>ds. (i, ds) \<in> ?pair ` set xs \<and> d \<in> set ds}" for xs
    by (auto simp: dep_rel_def image_iff)
  have ids: "m_id ` set ms' = m_id ` set ms" using assms(1) by (metis list.set_map)
  have mem: "\<exists>m \<in> set ms. m_id m = m_id m' \<and> m_deps m = m_deps m'" if "m' \<in> set ms'" for m'
  proof -
    have "?pair m' \<in> ?pair ` set ms" using that pairs by blast
    then show ?thesis by auto
  qed
  have "ms' \<noteq> []" using assms(1,3) by (auto simp: plan_graph_ok_def)
  moreover have "\<forall>m \<in> set ms'. m_id m \<noteq> []"
  proof
    fix m assume "m \<in> set ms'"
    from mem [OF this] show "m_id m \<noteq> []" using assms(3) unfolding plan_graph_ok_def by metis
  qed
  moreover have "\<forall>m \<in> set ms'. set (m_deps m) \<subseteq> m_id ` set ms'"
  proof
    fix m assume "m \<in> set ms'"
    from mem [OF this] show "set (m_deps m) \<subseteq> m_id ` set ms'"
      using assms(3) unfolding plan_graph_ok_def ids by metis
  qed
  moreover have "dep_rel ms' = dep_rel ms" unfolding rel pairs by (rule refl)
  ultimately show ?thesis using assms(1,3) by (simp add: plan_graph_ok_def)
qed

section \<open>Properties\<close>

text \<open>
  Claim C15. Plan validation is exact: \<^verbatim>\<open>_validate_plan\<close> accepts a plan if and only if it is
  non-empty, its identifiers are non-empty and distinct, every dependency is an identifier of the
  plan and the dependency relation has no cycle; it then returns the milestones with their
  dependencies sorted and without duplicates, and changes nothing else.
\<close>

theorem validate_plan_exact:
  "validate_plan ms = Inr ms' \<longleftrightarrow> plan_graph_ok ms \<and> ms' = map normal_milestone ms"
  using validate_plan_cases plan_graph_ok_validates by auto

lemma completed_ids_normal [simp]: "completed_ids (map normal_milestone ms) = completed_ids ms"
proof -
  have "completed_ids (map normal_milestone ms) =
      m_id ` normal_milestone ` set (filter (\<lambda>m. m_status m = Completed) ms)"
    by (simp add: completed_ids_def filter_map comp_def)
  then show ?thesis by (simp add: completed_ids_def image_image)
qed

lemma dep_rel_normal [simp]: "dep_rel (map normal_milestone ms) = dep_rel ms"
  by (auto simp: dep_rel_def)

lemma plan_graph_ok_normal: "plan_graph_ok ms \<Longrightarrow> plan_graph_ok (map normal_milestone ms)"
  by (auto simp: plan_graph_ok_def comp_def image_image)

text \<open>
  A validated plan never stalls: as long as no milestone has failed or been superseded and
  some milestone is not completed, the scheduler finds a ready milestone, so the executor's
  \<^verbatim>\<open>DAG_STALLED\<close> failure cannot occur on such a plan.
\<close>

lemma validated_plan_never_stalls:
  assumes "validate_plan ms = Inr ms'" and "\<forall>m \<in> set ms. live_status m"
    and "m0 \<in> set ms" and "m_status m0 \<noteq> Completed"
  shows "ready_milestones ms' \<noteq> []"
proof -
  have ms': "ms' = map normal_milestone ms" and ok: "plan_graph_ok ms"
    using validate_plan_cases [OF assms(1)] by auto
  show ?thesis
    unfolding ms'
    by (rule live_plan_has_ready [OF plan_graph_ok_normal [OF ok], of "normal_milestone m0"])
      (use assms in \<open>auto simp: live_status_def\<close>)
qed

definition demo_milestone :: "string \<Rightarrow> int \<Rightarrow> string list \<Rightarrow> milestone_status \<Rightarrow> milestone" where
  "demo_milestone i pos deps st =
     \<lparr>m_id = i, m_plan_version = 1, m_position = pos, m_title = i, m_description = [],
      m_tool = ''read_file'', m_args = [], m_deps = deps, m_criteria = [], m_status = st,
      m_evidence = [], m_attempt = 0\<rparr>"

definition demo_plan :: "milestone list" where
  "demo_plan = [demo_milestone ''a'' 1 [] Completed, demo_milestone ''b'' 2 [''a''] Pending]"

lemma demo_plan_ok: "plan_graph_ok demo_plan"
  by (rule earlier_deps_graph_ok)
    (auto simp: demo_plan_def demo_milestone_def earlier_deps_def less_Suc_eq)

lemma validated_plan_never_stalls_witness:
  "ready_milestones (map normal_milestone demo_plan) \<noteq> []"
  using validated_plan_never_stalls [OF plan_graph_ok_validates [OF demo_plan_ok],
      of "demo_milestone ''b'' 2 [''a''] Pending"]
  by (simp add: demo_plan_def demo_milestone_def live_status_def)

text \<open>
  A compiled plan is valid and can start: for any non-empty list of agent steps whose node
  identifiers do not collide, the milestones of \<^verbatim>\<open>_compile_nodes\<close> pass validation, all are pending,
  and the scheduler has a ready one.
\<close>

lemma compiled_plan_is_valid:
  assumes "steps \<noteq> []" and "distinct (map m_id (compile_nodes sha steps))"
  shows "\<exists>ms'. validate_plan (compile_nodes sha steps) = Inr ms' \<and>
    length ms' = length steps \<and> (\<forall>m \<in> set ms'. m_status m = Pending) \<and>
    ready_milestones ms' \<noteq> []"
proof -
  let ?ms = "compile_nodes sha steps"
  have inv: "earlier_deps ?ms" "length ?ms = length steps"
    "\<forall>m \<in> set ?ms. m_id m \<noteq> [] \<and> m_status m = Pending"
    using compile_nodes_inv [of sha steps] by auto
  then have ne: "?ms \<noteq> []" using assms(1) by auto
  have ok: "plan_graph_ok ?ms" by (rule earlier_deps_graph_ok) (use inv ne assms(2) in auto)
  have "ready_milestones (map normal_milestone ?ms) \<noteq> []"
    by (rule live_plan_has_ready [OF plan_graph_ok_normal [OF ok], of "normal_milestone (hd ?ms)"])
      (use inv ne in \<open>auto simp: live_status_def\<close>)
  then show ?thesis using plan_graph_ok_validates [OF ok] inv by auto
qed

theorem compiled_plan_is_valid_witness:
  "\<exists>ms'. validate_plan (compile_nodes (\<lambda>_. ''0123456789abcdef'')
      [\<lparr>s_title = ''t'', s_description = [], s_tool = ''write_file'',
        s_args = [(''path'', JStr ''a.md'')]\<rparr>]) = Inr ms' \<and> ready_milestones ms' \<noteq> []"
  using compiled_plan_is_valid [of "[\<lparr>s_title = ''t'', s_description = [], s_tool = ''write_file'',
        s_args = [(''path'', JStr ''a.md'')]\<rparr>]" "\<lambda>_. ''0123456789abcdef''"]
  by (auto simp: compile_nodes_def compile_step_def Let_def)

text \<open>What a replan makes of each milestone.\<close>

definition reopened :: "(json \<Rightarrow> string) \<Rightarrow> int \<Rightarrow> string \<Rightarrow> milestone list \<Rightarrow> milestone \<Rightarrow> milestone \<Rightarrow> bool" where
  "reopened sha v h ms m m' \<longleftrightarrow>
     m_status m' = Pending \<and> m_id m' = remap_id sha v h (m_id m) \<and>
     m_deps m' = map (renamed (remap_id sha v h) ms) (m_deps m) \<and> m_plan_version m' = v + 1 \<and>
     m_attempt m' = m_attempt m + 1 \<and> m_evidence m' = [] \<and> m_position m' = m_position m \<and>
     m_title m' = m_title m \<and> m_description m' = m_description m \<and> m_tool m' = m_tool m \<and>
     m_args m' = m_args m \<and> m_criteria m' = m_criteria m"

lemma replan_list_milestones:
  assumes "plan_graph_ok ms"
  shows "list_all2 (\<lambda>m m'. if m_status m = Completed then m' = m else reopened sha v h ms m m')
    ms (replan_list sha v h ms)"
proof -
  have dist: "distinct (map m_id ms)" using assms by (simp add: plan_graph_ok_def)
  have "reopened sha v h ms m
      (replan_milestone sha v h (filter (\<lambda>i. i \<notin> completed_ids ms) (map m_id ms)) m)" if "m \<in> set ms" for m
  proof -
    have "set (m_deps m) \<subseteq> m_id ` set ms" using assms that by (simp add: plan_graph_ok_def)
    then show ?thesis by (auto simp: reopened_def replan_milestone_def renamed_def)
  qed
  then have "\<forall>m \<in> set ms. if m_status m = Completed then (if m_id m \<in> completed_ids ms then m
      else replan_milestone sha v h (filter (\<lambda>i. i \<notin> completed_ids ms) (map m_id ms)) m) = m
    else reopened sha v h ms m (if m_id m \<in> completed_ids ms then m
      else replan_milestone sha v h (filter (\<lambda>i. i \<notin> completed_ids ms) (map m_id ms)) m)"
    using completed_ids_status [OF dist] by auto
  then show ?thesis by (auto simp: replan_list_def list_all2_map2 list.rel_refl_strong)
qed



end
