(* ===== verification/Orchestration.thy ===== *)
theory Orchestration
  imports Plan_Progress Runtime
begin

text \<open>
  The top-level functions of \<^verbatim>\<open>backend/app/v1/orchestration.py\<close> over the data of \<open>Planning\<close>:
  compiling a draft, building a handoff, and replanning from the state of a Quest. What the
  agent's planner returns (goal, template, steps) is an argument, as the agent is in the source.
\<close>

section \<open>Goal contracts\<close>

record goal_contract =
  gc_id :: string
  gc_quest :: string
  gc_version :: int
  gc_goal :: string
  gc_constraints :: "string list"
  gc_non_goals :: "string list"
  gc_budget :: execution_budget
  gc_criteria :: "acceptance_criterion list"

record quest_create =
  qc_constraints :: "string list"
  qc_non_goals :: "string list"
  qc_budget :: execution_budget
  qc_criteria :: "acceptance_criterion list"
  qc_force_multi :: "bool option"

text \<open>\<^verbatim>\<open>list(dict.fromkeys(xs))\<close>: the first occurrence of each element, in order.\<close>

fun dedupe :: "'a list \<Rightarrow> 'a list \<Rightarrow> 'a list" where
  "dedupe seen [] = []"
| "dedupe seen (x # xs) = (if x \<in> set seen then dedupe seen xs else x # dedupe (x # seen) xs)"

definition draft_contract ::
    "(json \<Rightarrow> string) \<Rightarrow> quest_create \<Rightarrow> string \<Rightarrow> string \<Rightarrow> plan_step list \<Rightarrow> goal_contract" where
  "draft_contract sha payload qid goal steps =
     \<lparr>gc_id = short_id sha ''contract'' (JObj [(''quest_id'', JStr qid), (''goal'', JStr goal)]),
      gc_quest = qid, gc_version = 1, gc_goal = goal,
      gc_constraints = dedupe []
        ([''All tool access must stay inside the Quest workspace.'',
          ''Only configured allowlisted tools may execute.''] @ qc_constraints payload),
      gc_non_goals = dedupe []
        (''No network or external-account side effects.'' # qc_non_goals payload),
      gc_budget = qc_budget payload,
      gc_criteria = normalize_criteria sha (qc_criteria payload) steps\<rparr>"

text \<open>\<^verbatim>\<open>criterion_by_path\<close>: the last criterion of a path wins.\<close>

definition criterion_by_path :: "acceptance_criterion list \<Rightarrow> string \<Rightarrow> string option" where
  "criterion_by_path cs path =
     map_of (rev [(p, c_id c). c \<leftarrow> cs, p \<leftarrow> (case c_path c of None \<Rightarrow> [] | Some p \<Rightarrow> if p \<noteq> [] then [p] else [])])
       path"

definition attach_criteria :: "acceptance_criterion list \<Rightarrow> milestone \<Rightarrow> milestone" where
  "attach_criteria cs m =
     (case dict_get (m_args m) ''path'' of
        Some (JStr path) \<Rightarrow>
          (case criterion_by_path cs path of
             Some i \<Rightarrow> m\<lparr>m_criteria := [i]\<rparr>
           | None \<Rightarrow> m)
      | _ \<Rightarrow> m)"

definition python_branches :: json where
  "python_branches = JList
     [JObj [(''when'', JStr ''python_syntax_pass''), (''next'', JStr ''README'')],
      JObj [(''when'', JStr ''python_syntax_fail''), (''next'', JStr ''repair'')]]"

definition compile_draft ::
    "(json \<Rightarrow> string) \<Rightarrow> string \<Rightarrow> string \<Rightarrow> plan_step list \<Rightarrow> quest_create \<Rightarrow> string \<Rightarrow>
     (string \<times> string \<times> goal_contract \<times> plan \<times> string list) result" where
  "compile_draft sha goal template steps payload qid =
     (let contract = draft_contract sha payload qid goal steps;
          nodes = map (attach_criteria (gc_criteria contract)) (compile_nodes sha steps);
          roots = map m_id (filter (\<lambda>m. m_deps m = []) nodes);
          metadata = [(''template_id'', JStr template), (''roots'', json_strs roots)] @
            (if template = ''python_starter'' then [(''branches'', python_branches)] else []);
          p = \<lparr>pl_id = short_id sha ''plan'' (JObj [(''quest_id'', JStr qid)]), pl_version = 1,
               pl_milestones = nodes, pl_metadata = metadata\<rparr>
      in andThen (capability_route (int (length nodes)) ''normal'' (qc_force_multi payload))
           (\<lambda>route. Inr (goal, template, contract, p, route)))"

section \<open>Handoffs\<close>

definition build_handoff ::
    "string \<Rightarrow> int \<Rightarrow> string list \<Rightarrow> string option \<Rightarrow> string \<Rightarrow> string \<Rightarrow> json \<Rightarrow> dict" where
  "build_handoff task version evidence reply src dst payload =
     [(''task_id'', JStr task), (''state_version'', JInt version), (''sender'', JStr src),
      (''recipient'', JStr dst), (''evidence_ids'', json_strs (sort (remdups evidence))),
      (''expected_reply'', case reply of None \<Rightarrow> JNull | Some r \<Rightarrow> JStr r),
      (''payload'', if payload = JNull then JObj [] else payload)]"

section \<open>Replanning from the state of a Quest\<close>

definition plan_of_json :: "dict \<Rightarrow> dict \<Rightarrow> plan" where
  "plan_of_json state p =
     \<lparr>pl_id = as_str (dict_get_or p ''id''
        (JStr (''plan_'' @ as_str (dict_get_or state ''id'' (JStr ''quest''))))),
      pl_version = as_int (dict_get_or p ''version'' (dict_get_or state ''plan_version'' (JInt 1))),
      pl_milestones = map milestone_of_json (as_list (dict_get_or p ''milestones'' (JList []))),
      pl_metadata = as_dict (dict_get_or p ''metadata'' (JObj []))\<rparr>"

definition state_plan :: "dict \<Rightarrow> plan" where
  "state_plan state = plan_of_json state
     (case dict_get state ''plan'' of
        Some p \<Rightarrow> as_dict p
      | None \<Rightarrow>
          [(''id'', dict_get_or state ''plan_id''
             (JStr (''plan_'' @ as_str (dict_get_or state ''id'' (JStr ''quest''))))),
           (''version'', dict_get_or state ''plan_version'' (JInt 1)),
           (''milestones'', dict_get_or state ''milestones'' (JList [])),
           (''metadata'', dict_get_or state ''plan_metadata'' (JObj []))])"

definition replans_used :: "dict \<Rightarrow> int" where
  "replans_used state = as_int (dict_get_or state ''replans''
     (dict_get_or (as_dict (dict_get_or state ''budget_usage'' (JObj []))) ''replans'' (JInt 0)))"

definition replan_limit :: "dict \<Rightarrow> int option \<Rightarrow> int option" where
  "replan_limit state budget =
     (case budget of
        Some b \<Rightarrow> Some b
      | None \<Rightarrow>
          (let contract_budget = dict_get_or (as_dict (dict_get_or state ''contract'' (JObj [])))
                 ''budget'' (JObj [])
           in case dict_get_or (as_dict (dict_get_or state ''budget'' contract_budget))
                     ''max_replans'' JNull of
                JNull \<Rightarrow> None
              | v \<Rightarrow> Some (as_int v)))"

definition replan_from_state ::
    "(json \<Rightarrow> string) \<Rightarrow> dict \<Rightarrow> string \<Rightarrow> string \<Rightarrow> int option \<Rightarrow> replan_outcome result" where
  "replan_from_state sha state failed_node hypothesis budget =
     replan_plan sha (state_plan state) (replans_used state) (replan_limit state budget)
       failed_node hypothesis"

section \<open>Properties\<close>

lemma attach_criteria_frame [simp]:
  "m_id (attach_criteria cs m) = m_id m" "m_deps (attach_criteria cs m) = m_deps m"
  "m_status (attach_criteria cs m) = m_status m"
  by (auto simp: attach_criteria_def split: option.splits json.splits)

lemma criterion_by_path_in:
  "criterion_by_path cs path = Some i \<Longrightarrow> \<exists>c \<in> set cs. c_id c = i \<and> c_path c = Some path"
  unfolding criterion_by_path_def
  by (drule map_of_SomeD) (auto split: option.splits if_splits)

lemma attach_criteria_known:
  assumes "m_criteria m = []" and "i \<in> set (m_criteria (attach_criteria cs m))"
  shows "\<exists>c \<in> set cs. c_id c = i \<and> dict_get (m_args m) ''path'' = Some (JStr (the (c_path c)))"
  using assms criterion_by_path_in
  by (fastforce simp: attach_criteria_def split: option.splits json.splits)

lemma compile_nodes_no_criteria: "\<forall>m \<in> set (compile_nodes sha steps). m_criteria m = []"
proof -
  have loop: "\<forall>m \<in> set (cs_nodes (compile_loop sha k steps st)). m_criteria m = []"
    if "\<forall>m \<in> set (cs_nodes st). m_criteria m = []" for k st
    using that
  proof (induction steps arbitrary: k st)
    case Nil
    then show ?case by simp
  next
    case (Cons s steps)
    have "\<forall>m \<in> set (cs_nodes (compile_step sha k s st)). m_criteria m = []"
      using Cons.prems by (simp add: compile_step_def Let_def)
    then show ?case using Cons.IH by simp
  qed
  show ?thesis unfolding compile_nodes_def by (rule loop) simp
qed

text \<open>
  A compiled draft is consistent: for a non-empty list of agent steps whose node
  identifiers do not collide, compilation succeeds with a valid plan that has a ready milestone, and
  every acceptance criterion a milestone refers to is a criterion of the goal contract, for the very
  path the milestone's tool works on.
\<close>

lemma compiled_draft_consistent:
  assumes "steps \<noteq> []" and "distinct (map m_id (compile_nodes sha steps))"
  shows "\<exists>contract p route. compile_draft sha goal template steps payload qid =
      Inr (goal, template, contract, p, route) \<and>
    (\<exists>ms. validate_plan (pl_milestones p) = Inr ms \<and> ready_milestones ms \<noteq> []) \<and>
    (\<forall>m \<in> set (pl_milestones p). \<forall>i \<in> set (m_criteria m). \<exists>c \<in> set (gc_criteria contract).
       c_id c = i \<and> dict_get (m_args m) ''path'' = Some (JStr (the (c_path c))))"
proof -
  let ?ms = "compile_nodes sha steps"
  let ?cs = "gc_criteria (draft_contract sha payload qid goal steps)"
  let ?nodes = "map (attach_criteria ?cs) ?ms"
  have inv: "earlier_deps ?ms" "length ?ms = length steps"
    "\<forall>m \<in> set ?ms. m_id m \<noteq> [] \<and> m_status m = Pending"
    using compile_nodes_inv [of sha steps] by auto
  then have ne: "?ms \<noteq> []" using assms(1) by auto
  have "plan_graph_ok ?ms" by (rule earlier_deps_graph_ok) (use inv ne assms(2) in auto)
  then have ok: "plan_graph_ok ?nodes" by (rule plan_graph_ok_cong [rotated 2]) simp_all
  have ready: "ready_milestones (map normal_milestone ?nodes) \<noteq> []"
    by (rule live_plan_has_ready [OF plan_graph_ok_normal [OF ok],
          of "normal_milestone (attach_criteria ?cs (hd ?ms))"])
      (use inv ne in \<open>auto simp: live_status_def\<close>)
  have "1 \<le> int (length ?nodes)" using ne by (cases ?ms) auto
  then obtain route where route: "capability_route (int (length ?nodes)) ''normal'' (qc_force_multi payload) =
      Inr route"
    unfolding capability_route_def Let_def by (metis not_less)
  have args: "m_args (attach_criteria ?cs m) = m_args m" for m
    by (auto simp: attach_criteria_def split: option.splits json.splits)
  have known: "\<forall>m \<in> set ?nodes. \<forall>i \<in> set (m_criteria m). \<exists>c \<in> set ?cs.
      c_id c = i \<and> dict_get (m_args m) ''path'' = Some (JStr (the (c_path c)))"
    using attach_criteria_known compile_nodes_no_criteria [of sha steps] args by fastforce
  show ?thesis
    using route plan_graph_ok_validates [OF ok] ready known
    by (simp add: compile_draft_def Let_def)
qed

definition demo_steps :: "plan_step list" where
  "demo_steps = [\<lparr>s_title = ''t'', s_description = [], s_tool = ''write_file'',
     s_args = [(''path'', JStr ''a.md'')]\<rparr>]"

definition demo_payload :: quest_create where
  "demo_payload = \<lparr>qc_constraints = [], qc_non_goals = [], qc_budget =
       \<lparr>max_steps = Some 50, max_tool_calls = Some 50, max_messages = Some 30,
        max_tokens = Some 20000, max_replans = Some 2, max_seconds = Some 300\<rparr>,
     qc_criteria = [], qc_force_multi = None\<rparr>"

lemma compiled_draft_consistent_witness:
  "\<exists>contract p route. compile_draft (\<lambda>_. ''0123456789abcdef'') ''goal'' ''t'' demo_steps
      demo_payload ''q'' = Inr (''goal'', ''t'', contract, p, route) \<and>
     (\<exists>ms. validate_plan (pl_milestones p) = Inr ms \<and> ready_milestones ms \<noteq> [])"
proof -
  have "demo_steps \<noteq> []" "distinct (map m_id (compile_nodes (\<lambda>_. ''0123456789abcdef'') demo_steps))"
    by (simp_all add: demo_steps_def compile_nodes_def compile_step_def Let_def)
  from compiled_draft_consistent [OF this, of "''goal''" "''t''" demo_payload "''q''"]
  show ?thesis by blast
qed

end
