(* ===== verification/Schema.thy ===== *)
theory Schema
  imports Planning
begin

text \<open>
  The tables of \<^verbatim>\<open>backend/app/v1/storage.py\<close> as records, one per \<^verbatim>\<open>CREATE TABLE\<close> of the migrations,
  and the database as the record of its tables. JSON columns hold the value itself (the code
  writes \<^verbatim>\<open>json.dumps\<close> and reads \<^verbatim>\<open>json.loads\<close>, which keeps a value up to the order of dict keys);
  versions and sequence numbers, which start at 0 and are only incremented, are naturals. The
  columns that only record when a model call, an attempt or a reservation was last updated are left
  out: nothing reads them.
\<close>

record quest_row =
  q_id :: string
  q_state :: dict
  q_version :: nat
  q_status :: json
  q_created :: string
  q_updated :: string

record contract_row =
  ct_id :: string
  ct_version :: int
  ct_quest :: string
  ct_json :: dict
  ct_created :: string

record plan_row =
  pv_id :: string
  pv_version :: int
  pv_quest :: string
  pv_plan :: plan
  pv_created :: string

record plan_milestone_row =
  pm_plan :: string
  pm_version :: int
  pm_milestone :: string
  pm_title :: string
  pm_data :: json

record plan_dependency_row =
  pd_plan :: string
  pd_version :: int
  pd_milestone :: string
  pd_depends_on :: string

record event_row =
  ev_id :: nat
  ev_quest :: string
  ev_sequence :: nat
  ev_type :: string
  ev_schema :: int
  ev_before :: nat
  ev_after :: nat
  ev_payload :: json
  ev_hash :: string
  ev_created :: string

record checkpoint_row =
  ck_quest :: string
  ck_version :: nat
  ck_state :: dict
  ck_hash :: string
  ck_created :: string

datatype receipt_status =
  ActPrepared | ActDispatched | ActCommitted | ActFailed | ActUnknownEffect

record action_row =
  a_id :: string
  a_quest :: string
  a_milestone :: string
  a_key :: string
  a_tool :: string
  a_args_hash :: string
  a_args :: dict
  a_pre_effect :: "string option"
  a_expected :: nat
  a_status :: receipt_status
  a_result :: "dict option"
  a_error :: "dict option"
  a_created :: string
  a_updated :: string
  a_event :: "nat option"

text \<open>Evidence, verification results, progress entries and decisions share one shape.\<close>

record data_row =
  r_id :: string
  r_quest :: string
  r_data :: dict
  r_created :: string

record lease_row =
  l_quest :: string
  l_owner :: string
  l_expires :: rat

record resource_lease_row =
  rl_key :: string
  rl_quest :: string
  rl_owner :: string
  rl_expires :: rat

record review_row =
  rv_quest :: string
  rv_id :: string
  rv_manifest :: string
  rv_key :: string
  rv_decision :: string
  rv_note :: "string option"
  rv_created :: string
  rv_completed :: "string option"

record observation_row =
  ob_id :: string
  ob_quest :: string
  ob_action :: string
  ob_event :: nat
  ob_path :: string
  ob_before :: "string option"
  ob_after :: string
  ob_size :: int
  ob_kind :: string
  ob_status :: string
  ob_created :: string

datatype attempt_status =
  Prepared | Dispatched | Succeeded | AttemptFailed | UnknownOutcome

datatype validation_status =
  VPending | VCurrent | VInvalid | VStale | VConflict | VCancelled

record model_call_row =
  mc_id :: string
  mc_quest :: string
  mc_purpose :: string
  mc_key :: string
  mc_request_schema :: int
  mc_candidate_schema :: int
  mc_input_hash :: string
  mc_prompt :: string
  mc_contract :: string
  mc_contract_version :: int
  mc_contract_hash :: string
  mc_plan :: string
  mc_plan_version :: int
  mc_plan_hash :: string
  mc_expected :: nat
  mc_max_tokens :: int
  mc_status :: attempt_status
  mc_winner :: "string option"
  mc_created :: string

record model_attempt_row =
  ma_id :: string
  ma_call :: string
  ma_no :: nat
  ma_token :: string
  ma_adapter :: string
  ma_model :: string
  ma_parameters :: dict
  ma_status :: attempt_status
  ma_validation :: validation_status
  ma_reserved :: int
  ma_settled :: int
  ma_input :: int
  ma_output :: int
  ma_candidate :: "dict option"
  ma_candidate_hash :: "string option"
  ma_response_hash :: "string option"
  ma_usage :: "dict option"
  ma_cost :: "dict option"
  ma_error :: "dict option"

record cost_account_row =
  ca_id :: string
  ca_provider :: string
  ca_alias :: string
  ca_snapshot :: string
  ca_pricing :: string
  ca_fx :: int
  ca_max_call :: int
  ca_max_total :: int
  ca_breached :: bool

datatype reservation_status = Held | Settled | Unknown | Released

record cost_reservation_row =
  cr_attempt :: string
  cr_account :: string
  cr_provider :: string
  cr_alias :: string
  cr_snapshot :: string
  cr_pricing :: string
  cr_fx :: int
  cr_input :: int
  cr_output :: int
  cr_reserved :: int
  cr_settled :: "int option"
  cr_status :: reservation_status

text \<open>\<^verbatim>\<open>v1_workspace_snapshots\<close>, its entries, and \<^verbatim>\<open>v1_artifact_provenance\<close>.\<close>

record snapshot_row =
  sn_id :: string
  sn_quest :: string
  sn_kind :: string
  sn_policy :: string
  sn_workspace :: string
  sn_root :: "string option"
  sn_count :: int
  sn_total :: int
  sn_status :: string
  sn_version :: "nat option"
  sn_sequence :: "nat option"
  sn_created :: string

record snapshot_entry_row =
  se_snapshot :: string
  se_path :: string
  se_type :: string
  se_size :: int
  se_sha :: string

record provenance_row =
  pr_id :: string
  pr_artifact :: string
  pr_quest :: string
  pr_baseline :: string
  pr_final :: string
  pr_action :: "string option"
  pr_event :: "nat option"
  pr_evidence :: string
  pr_hash :: string
  pr_status :: string
  pr_created :: string

record db =
  quests :: "quest_row list"
  contracts :: "contract_row list"
  plans :: "plan_row list"
  plan_milestones :: "plan_milestone_row list"
  plan_dependencies :: "plan_dependency_row list"
  events :: "event_row list"
  next_event :: nat
  checkpoints :: "checkpoint_row list"
  actions :: "action_row list"
  evidence_rows :: "data_row list"
  verification_rows :: "data_row list"
  progress_rows :: "data_row list"
  decision_rows :: "data_row list"
  leases :: "lease_row list"
  resource_leases :: "resource_lease_row list"
  reviews :: "review_row list"
  observations :: "observation_row list"
  model_calls :: "model_call_row list"
  model_attempts :: "model_attempt_row list"
  cost_accounts :: "cost_account_row list"
  cost_reservations :: "cost_reservation_row list"
  snapshots :: "snapshot_row list"
  snapshot_entries :: "snapshot_entry_row list"
  provenances :: "provenance_row list"

definition empty_db :: db where
  "empty_db = \<lparr>quests = [], contracts = [], plans = [], plan_milestones = [],
     plan_dependencies = [], events = [], next_event = 1, checkpoints = [], actions = [],
     evidence_rows = [], verification_rows = [], progress_rows = [], decision_rows = [],
     leases = [], resource_leases = [], reviews = [], observations = [], model_calls = [],
     model_attempts = [], cost_accounts = [], cost_reservations = [],
     snapshots = [], snapshot_entries = [], provenances = []\<rparr>"

definition EVENT_SCHEMA_VERSION :: int where
  "EVENT_SCHEMA_VERSION = 1"

definition find_quest :: "db \<Rightarrow> string \<Rightarrow> quest_row option" where
  "find_quest d qid = select_one (\<lambda>r. q_id r = qid) (quests d)"

text \<open>\<^verbatim>\<open>_SHA256_HEX.fullmatch\<close>\<close>

definition is_sha256 :: "string \<Rightarrow> bool" where
  "is_sha256 s \<longleftrightarrow> length s = 64 \<and> (\<forall>c \<in> set s. c \<in> set ''0123456789abcdef'')"

end
