(* ===== verification/Event_Store.thy ===== *)
theory Event_Store
  imports Schema Runtime
begin

text \<open>
  The event store of \<^verbatim>\<open>V1Storage\<close>: drafting a Quest, appending events under the state-version
  check, replay and checkpoints. Every operation is a function from the database to an exception
  or a result with the new database: a transaction that raises is rolled back, so on \<open>Inl\<close> the
  caller keeps the old database. \<open>sha\<close> is the digest, \<open>now\<close> the value of \<^verbatim>\<open>utc_now()\<close>.
\<close>

section \<open>Appending an event\<close>

definition append_locked ::
    "(json \<Rightarrow> string) \<Rightarrow> string \<Rightarrow> string \<Rightarrow> dict \<Rightarrow> nat \<Rightarrow> int \<Rightarrow> string \<Rightarrow> db \<Rightarrow>
     (event_row \<times> db) result" where
  "append_locked sha qid ty patch expected schema now d =
     (if schema \<noteq> EVENT_SCHEMA_VERSION then Inl (ValueError ''unknown event schema version'')
      else case find_quest d qid of
        None \<Rightarrow> Inl (KeyError qid)
      | Some row \<Rightarrow>
          if q_version row \<noteq> expected then Inl (ValueError ''state version conflict'')
          else
            let after = expected + 1;
                event_patch = dict_set ''updated_at'' (JStr now)
                  (dict_set ''state_version'' (JInt (int after)) patch);
                payload = JObj [(''patch'', JObj event_patch)]
            in case reducer_apply (Some (q_state row)) (Event ty payload) of
                 Inl e \<Rightarrow> Inl e
               | Inr new_state \<Rightarrow>
                   if select_one (\<lambda>e. ev_quest e = qid \<and> ev_sequence e = after) (events d) \<noteq> None
                   then Inl (IntegrityError ''v1_events'')
                   else
                     let ev = \<lparr>ev_id = next_event d, ev_quest = qid, ev_sequence = after,
                               ev_type = ty, ev_schema = schema, ev_before = expected,
                               ev_after = after, ev_payload = payload,
                               ev_hash = stable_hash sha (JObj new_state), ev_created = now\<rparr>
                     in Inr (ev, d\<lparr>events := events d @ [ev], next_event := next_event d + 1,
                          quests := update_where (\<lambda>r. q_id r = qid \<and> q_version r = expected)
                            (\<lambda>r. r\<lparr>q_state := new_state, q_version := after,
                                  q_status := dict_get_or new_state ''status'' (JStr ''draft''),
                                  q_updated := now\<rparr>) (quests d)\<rparr>))"

definition append_event ::
    "(json \<Rightarrow> string) \<Rightarrow> string \<Rightarrow> string \<Rightarrow> dict \<Rightarrow> nat \<Rightarrow> int \<Rightarrow> string \<Rightarrow> db \<Rightarrow>
     (event_row \<times> db) result" where
  "append_event sha qid ty patch expected schema now d =
     append_locked sha qid ty patch expected schema now d"

text \<open>The loop over an ordered group of events in one transaction.\<close>

fun append_all ::
    "(json \<Rightarrow> string) \<Rightarrow> string \<Rightarrow> (string \<times> dict) list \<Rightarrow> nat \<Rightarrow> string \<Rightarrow> db \<Rightarrow>
     (event_row list \<times> db) result" where
  "append_all sha qid [] version now d = Inr ([], d)"
| "append_all sha qid ((ty, patch) # es) version now d =
     (case append_locked sha qid ty patch version EVENT_SCHEMA_VERSION now d of
        Inl e \<Rightarrow> Inl e
      | Inr (ev, d') \<Rightarrow>
          (case append_all sha qid es (version + 1) now d' of
             Inl e \<Rightarrow> Inl e
           | Inr (evs, d'') \<Rightarrow> Inr (ev # evs, d'')))"

definition append_events ::
    "(json \<Rightarrow> string) \<Rightarrow> string \<Rightarrow> (string \<times> dict) list \<Rightarrow> nat \<Rightarrow> string \<Rightarrow> db \<Rightarrow>
     (event_row list \<times> db) result" where
  "append_events sha qid es expected now d = append_all sha qid es expected now d"

section \<open>Reading\<close>

definition get_quest :: "db \<Rightarrow> string \<Rightarrow> dict option" where
  "get_quest d qid = map_option q_state (find_quest d qid)"

definition require_quest :: "db \<Rightarrow> string \<Rightarrow> dict result" where
  "require_quest d qid =
     (case get_quest d qid of None \<Rightarrow> Inl (KeyError qid) | Some s \<Rightarrow> Inr s)"

definition list_events :: "db \<Rightarrow> string \<Rightarrow> nat \<Rightarrow> event_row list" where
  "list_events d qid after =
     sort_key ev_sequence (filter (\<lambda>e. ev_quest e = qid \<and> after < ev_sequence e) (events d))"

section \<open>Contracts and plans\<close>

definition insert_contract ::
    "string \<Rightarrow> dict \<Rightarrow> string \<Rightarrow> db \<Rightarrow> db result" where
  "insert_contract qid contract now d =
     (let cid = (let i = dict_get_or contract ''id'' JNull
                 in if truthy i then as_str i else ''contract_'' @ qid);
          version = as_int (dict_get_or contract ''version'' (JInt 1))
      in if \<exists>r \<in> set (contracts d). (ct_id r = cid \<or> ct_quest r = qid) \<and> ct_version r = version
         then Inl (IntegrityError ''v1_goal_contracts'')
         else Inr (d\<lparr>contracts := contracts d @
           [\<lparr>ct_id = cid, ct_version = version, ct_quest = qid, ct_json = contract,
             ct_created = now\<rparr>]\<rparr>))"

definition insert_plan ::
    "string \<Rightarrow> plan \<Rightarrow> milestone list \<Rightarrow> string \<Rightarrow> db \<Rightarrow> db result" where
  "insert_plan qid p milestones now d =
     (let pid = (if pl_id p \<noteq> [] then pl_id p else ''plan_'' @ qid); version = pl_version p
      in if \<exists>r \<in> set (plans d). (pv_id r = pid \<or> pv_quest r = qid) \<and> pv_version r = version
         then Inl (IntegrityError ''v1_plan_versions'')
         else Inr (d\<lparr>plans := plans d @
               [\<lparr>pv_id = pid, pv_version = version, pv_quest = qid,
                 pv_plan = p\<lparr>pl_milestones := milestones\<rparr>, pv_created = now\<rparr>],
             plan_milestones := plan_milestones d @
               map (\<lambda>m. \<lparr>pm_plan = pid, pm_version = version, pm_milestone = m_id m,
                         pm_title = m_title m, pm_data = milestone_json m\<rparr>) milestones,
             plan_dependencies := plan_dependencies d @
               concat (map (\<lambda>m. map (\<lambda>dep. \<lparr>pd_plan = pid, pd_version = version,
                  pd_milestone = m_id m, pd_depends_on = dep\<rparr>) (m_deps m)) milestones)\<rparr>))"

definition initial_usage :: json where
  "initial_usage = JObj [(''steps'', JInt 0), (''tool_calls'', JInt 0), (''messages'', JInt 0),
                         (''tokens'', JInt 0), (''replans'', JInt 0)]"

definition initial_state ::
    "string \<Rightarrow> dict \<Rightarrow> plan \<Rightarrow> milestone list \<Rightarrow> string option \<Rightarrow> string list option \<Rightarrow> string \<Rightarrow>
     string \<Rightarrow> dict" where
  "initial_state qid contract p milestones workspace route status now =
     [(''id'', JStr qid), (''goal'', dict_get_or contract ''goal'' (JStr [])),
      (''workspace'', case workspace of
         Some w \<Rightarrow> if w \<noteq> [] then JStr w else dict_get_or contract ''workspace'' (JStr [])
       | None \<Rightarrow> dict_get_or contract ''workspace'' (JStr [])),
      (''status'', JStr status), (''state_version'', JInt 0),
      (''plan_id'', JStr (pl_id p)), (''plan_version'', JInt (pl_version p)),
      (''plan_metadata'', JObj (pl_metadata p)),
      (''template_id'', dict_get_or (pl_metadata p) ''template_id'' JNull),
      (''contract'', JObj contract), (''milestones'', milestones_json milestones),
      (''current_milestone_id'', JNull), (''progress'', JFloat 0),
      (''route'', json_strs (case route of
         Some r \<Rightarrow> if r \<noteq> [] then r else [''agent''] | None \<Rightarrow> [''agent''])),
      (''budget_usage'', initial_usage), (''pause_requested'', JBool False),
      (''recovery_required'', JBool False), (''artifact_review_required'', JBool False),
      (''artifact_disposition'', JStr ''not_applicable''),
      (''pending_artifact_review'', JNull), (''legacy_unverified'', JBool False),
      (''error'', JNull), (''created_at'', JStr now), (''updated_at'', JStr now),
      (''started_at'', JNull), (''finished_at'', JNull)]"

definition create_draft ::
    "(json \<Rightarrow> string) \<Rightarrow> string \<Rightarrow> dict \<Rightarrow> plan \<Rightarrow> string option \<Rightarrow> string list option \<Rightarrow> string \<Rightarrow>
     string \<Rightarrow> db \<Rightarrow> (dict \<times> db) result" where
  "create_draft sha qid contract p workspace route status now d =
     (case validate_plan (pl_milestones p) of
        Inl e \<Rightarrow> Inl e
      | Inr milestones \<Rightarrow>
          if find_quest d qid \<noteq> None then Inl (IntegrityError ''v1_quests'')
          else
            let d1 = d\<lparr>quests := quests d @
                  [\<lparr>q_id = qid, q_state = [], q_version = 0, q_status = JStr status,
                    q_created = now, q_updated = now\<rparr>]\<rparr>
            in andThen (insert_contract qid contract now d1) (\<lambda>d2.
               andThen (insert_plan qid p milestones now d2) (\<lambda>d3.
               andThen (append_locked sha qid ''QuestDrafted''
                    (initial_state qid contract p milestones workspace route status now)
                    0 EVENT_SCHEMA_VERSION now d3) (\<lambda>(ev, d4).
               andThen (require_quest d4 qid) (\<lambda>s. Inr (s, d4))))))"

definition store_contract_version ::
    "(json \<Rightarrow> string) \<Rightarrow> string \<Rightarrow> dict \<Rightarrow> nat \<Rightarrow> string \<Rightarrow> string \<Rightarrow> string \<Rightarrow> db \<Rightarrow>
     (event_row \<times> db) result" where
  "store_contract_version sha qid contract expected ty status now d =
     (case find_quest d qid of
        None \<Rightarrow> Inl (ValueError ''state version conflict'')
      | Some row \<Rightarrow>
          if q_version row \<noteq> expected then Inl (ValueError ''state version conflict'')
          else andThen (insert_contract qid contract now d) (\<lambda>d1.
            append_locked sha qid ty
              [(''contract'', JObj contract), (''goal'', dict_get_or contract ''goal'' (JStr [])),
               (''status'', JStr status), (''error'', JNull)]
              expected EVENT_SCHEMA_VERSION now d1))"

section \<open>Replay\<close>

fun replay_loop :: "(json \<Rightarrow> string) \<Rightarrow> dict \<Rightarrow> event_row list \<Rightarrow> dict result" where
  "replay_loop sha state [] = Inr state"
| "replay_loop sha state (e # es) =
     (if ev_schema e \<noteq> EVENT_SCHEMA_VERSION
      then Inl (ValueError ''unknown event schema version'')
      else case reducer_apply (Some state) (Event (ev_type e) (ev_payload e)) of
        Inl err \<Rightarrow> Inl err
      | Inr state' \<Rightarrow>
          if stable_hash sha (JObj state') \<noteq> ev_hash e
          then Inl (ValueError ''event replay checksum mismatch'')
          else replay_loop sha state' es)"

text \<open>\<^verbatim>\<open>ORDER BY state_version DESC LIMIT 1\<close>\<close>

definition latest_checkpoint :: "db \<Rightarrow> string \<Rightarrow> checkpoint_row option" where
  "latest_checkpoint d qid =
     (case filter (\<lambda>c. ck_quest c = qid) (checkpoints d) of
        [] \<Rightarrow> None
      | cs \<Rightarrow> Some (last (sort_key ck_version cs)))"

definition replay :: "(json \<Rightarrow> string) \<Rightarrow> db \<Rightarrow> string \<Rightarrow> bool \<Rightarrow> dict result" where
  "replay sha d qid from_checkpoint =
     (case (if from_checkpoint then latest_checkpoint d qid else None) of
        None \<Rightarrow> replay_loop sha [] (list_events d qid 0)
      | Some c \<Rightarrow> replay_loop sha (ck_state c) (list_events d qid (ck_version c)))"

section \<open>Checkpoints\<close>

definition save_checkpoint ::
    "(json \<Rightarrow> string) \<Rightarrow> string \<Rightarrow> string \<Rightarrow> db \<Rightarrow> ((nat \<times> string) \<times> db) result" where
  "save_checkpoint sha qid now d =
     (case find_quest d qid of
        None \<Rightarrow> Inl (KeyError qid)
      | Some row \<Rightarrow>
          let h = stable_hash sha (JObj (q_state row));
              new = \<lparr>ck_quest = qid, ck_version = q_version row, ck_state = q_state row,
                     ck_hash = h, ck_created = now\<rparr>
          in case select_one (\<lambda>c. ck_quest c = qid \<and> ck_version c = q_version row)
                    (checkpoints d) of
               Some c \<Rightarrow> if ck_hash c \<noteq> h then Inl (ValueError ''checkpoint conflict'')
                         else Inr ((q_version row, h), d)
             | None \<Rightarrow> Inr ((q_version row, h), d\<lparr>checkpoints := checkpoints d @ [new]\<rparr>))"

definition validate_checkpoint ::
    "(json \<Rightarrow> string) \<Rightarrow> db \<Rightarrow> string \<Rightarrow> nat option \<Rightarrow> bool result" where
  "validate_checkpoint sha d qid version =
     (let checkpoint = (case version of
            None \<Rightarrow> latest_checkpoint d qid
          | Some v \<Rightarrow> select_one (\<lambda>c. ck_quest c = qid \<and> ck_version c = v) (checkpoints d))
      in case checkpoint of
           None \<Rightarrow> Inr False
         | Some c \<Rightarrow>
             if stable_hash sha (JObj (ck_state c)) \<noteq> ck_hash c then Inr False
             else case replay sha d qid False of
               Inl (ValueError _) \<Rightarrow> Inr False
             | Inl e \<Rightarrow> Inl e
             | Inr full \<Rightarrow>
                 (case replay sha d qid True of
                    Inl (ValueError _) \<Rightarrow> Inr False
                  | Inl e \<Rightarrow> Inl e
                  | Inr suffix \<Rightarrow>
                      (case get_quest d qid of
                         None \<Rightarrow> Inr False
                       | Some current \<Rightarrow>
                           Inr (stable_hash sha (JObj full) = stable_hash sha (JObj suffix) \<and>
                                stable_hash sha (JObj suffix) = stable_hash sha (JObj current)))))"

definition has_checkpoint :: "db \<Rightarrow> string \<Rightarrow> bool" where
  "has_checkpoint d qid = (select_one (\<lambda>c. ck_quest c = qid) (checkpoints d) \<noteq> None)"

end
