(* ===== verification/Ledger.thy ===== *)
theory Ledger
  imports Event_Store
begin

text \<open>
  What the event store guarantees: the events of a Quest are numbered 1, 2, ... without a gap, the
  projection is the replay of its events, every checkpoint is the replay of a prefix. The
  invariant \<open>ledger_ok\<close> says so, every append keeps it, and the facts about replay and
  checkpoints follow from it.
\<close>

section \<open>The invariant\<close>

definition quest_events :: "db \<Rightarrow> string \<Rightarrow> event_row list" where
  "quest_events d qid = filter (\<lambda>e. ev_quest e = qid) (events d)"

definition event_ok :: "event_row \<Rightarrow> bool" where
  "event_ok e \<longleftrightarrow>
     ev_schema e = EVENT_SCHEMA_VERSION \<and> ev_after e = ev_sequence e \<and>
     ev_sequence e = Suc (ev_before e)"

definition quest_ok :: "(json \<Rightarrow> string) \<Rightarrow> db \<Rightarrow> quest_row \<Rightarrow> bool" where
  "quest_ok sha d row \<longleftrightarrow>
     map ev_sequence (quest_events d (q_id row)) = [1..<Suc (q_version row)] \<and>
     replay_loop sha [] (quest_events d (q_id row)) = Inr (q_state row) \<and>
     (0 < q_version row \<longrightarrow>
        dict_get (q_state row) ''state_version'' = Some (JInt (int (q_version row))) \<and>
        q_status row = dict_get_or (q_state row) ''status'' (JStr ''draft''))"

definition checkpoint_ok :: "(json \<Rightarrow> string) \<Rightarrow> db \<Rightarrow> checkpoint_row \<Rightarrow> bool" where
  "checkpoint_ok sha d c \<longleftrightarrow>
     (\<exists>row. find_quest d (ck_quest c) = Some row \<and> ck_version c \<le> q_version row) \<and>
     replay_loop sha [] (take (ck_version c) (quest_events d (ck_quest c))) = Inr (ck_state c) \<and>
     ck_hash c = stable_hash sha (JObj (ck_state c))"

definition ledger_ok :: "(json \<Rightarrow> string) \<Rightarrow> db \<Rightarrow> bool" where
  "ledger_ok sha d \<longleftrightarrow>
     distinct (map q_id (quests d)) \<and>
     (\<forall>row \<in> set (quests d). quest_ok sha d row) \<and>
     (\<forall>e \<in> set (events d). event_ok e \<and> ev_quest e \<in> q_id ` set (quests d) \<and>
        ev_id e < next_event d) \<and>
     distinct (map ev_id (events d)) \<and>
     (\<forall>c \<in> set (checkpoints d). checkpoint_ok sha d c)"

text \<open>The invariant reads four columns of the database only.\<close>

lemma ledger_ok_cong:
  assumes "quests d' = quests d" "events d' = events d" "next_event d' = next_event d"
    "checkpoints d' = checkpoints d"
  shows "ledger_ok sha d' = ledger_ok sha d"
  using assms
  by (simp add: ledger_ok_def quest_ok_def checkpoint_ok_def quest_events_def find_quest_def)

lemma ledger_ok_empty: "ledger_ok sha empty_db"
  by (simp add: ledger_ok_def empty_db_def)

lemma find_quest_in:
  "find_quest d qid = Some row \<Longrightarrow> row \<in> set (quests d) \<and> q_id row = qid"
  unfolding find_quest_def by (rule select_one_Some_in)

lemma quest_ok_lengthD:
  "quest_ok sha d row \<Longrightarrow> length (quest_events d (q_id row)) = q_version row"
  unfolding quest_ok_def by (metis One_nat_def diff_Suc_1 length_map length_upt)

lemma ledger_quest_ok:
  "ledger_ok sha d \<Longrightarrow> find_quest d qid = Some row \<Longrightarrow> quest_ok sha d row"
  using find_quest_in by (auto simp: ledger_ok_def)

section \<open>Replay\<close>

lemma replay_loop_append:
  "replay_loop sha s (es @ fs) = andThen (replay_loop sha s es) (\<lambda>s'. replay_loop sha s' fs)"
  by (induction es arbitrary: s) (auto split: sum.splits)

lemma list_events_after:
  assumes "quest_ok sha d row"
  shows "list_events d (q_id row) v = drop v (quest_events d (q_id row))"
proof -
  let ?es = "quest_events d (q_id row)"
  have seqs: "map ev_sequence ?es = [1..<Suc (q_version row)]"
    using assms by (simp add: quest_ok_def)
  have "filter (\<lambda>e. ev_quest e = q_id row \<and> v < ev_sequence e) (events d) =
      filter (\<lambda>e. v < ev_sequence e) ?es"
    by (simp add: quest_events_def conj_commute)
  also have "\<dots> = drop v ?es"
  proof -
    have *: "filter (\<lambda>e. v < ev_sequence e) es = drop (v - k) es"
      if "map ev_sequence es = [Suc k..<n]" for es k n
      using that
    proof (induction es arbitrary: k)
      case Nil
      then show ?case by simp
    next
      case (Cons e es)
      then have "ev_sequence e = Suc k" and rest: "map ev_sequence es = [Suc (Suc k)..<n]"
        by (auto simp: upt_eq_Cons_conv dest!: sym [of "ev_sequence e # map ev_sequence es"])
      show ?case
      proof (cases "v \<le> k")
        case True
        have "\<forall>e' \<in> set es. v < ev_sequence e'"
        proof
          fix e' assume "e' \<in> set es"
          then have "ev_sequence e' \<in> set [Suc (Suc k)..<n]" using rest by (metis image_eqI list.set_map)
          with True show "v < ev_sequence e'" by simp
        qed
        with True \<open>ev_sequence e = Suc k\<close> show ?thesis by simp
      next
        case False
        then have "v - k = Suc (v - Suc k)" by simp
        with False Cons.IH [OF rest] \<open>ev_sequence e = Suc k\<close> show ?thesis by simp
      qed
    qed
    show ?thesis using * [of ?es 0 "Suc (q_version row)"] seqs by simp
  qed
  finally have eq: "filter (\<lambda>e. ev_quest e = q_id row \<and> v < ev_sequence e) (events d) = drop v ?es" .
  have "sorted (map ev_sequence (drop v ?es))"
    by (simp add: drop_map [symmetric] seqs sorted_wrt_drop del: upt_Suc)
  then show ?thesis by (simp add: list_events_def eq sort_key_id_if_sorted)
qed

lemma replay_full:
  assumes "ledger_ok sha d" and "find_quest d qid = Some row"
  shows "replay sha d qid False = Inr (q_state row)"
proof -
  have ok: "quest_ok sha d row" and "q_id row = qid"
    using assms ledger_quest_ok find_quest_in by auto
  then show ?thesis
    using list_events_after [OF ok, of 0] by (simp add: replay_def quest_ok_def)
qed

lemma latest_checkpoint_in:
  "latest_checkpoint d qid = Some c \<Longrightarrow> c \<in> set (checkpoints d) \<and> ck_quest c = qid"
proof -
  assume "latest_checkpoint d qid = Some c"
  moreover have "last (sort_key ck_version cs) \<in> set cs" if "cs \<noteq> []" for cs :: "checkpoint_row list"
  proof -
    from that have "length (sort_key ck_version cs) \<noteq> 0" by simp
    then have "sort_key ck_version cs \<noteq> []" by (simp only: length_0_conv) simp
    then have "last (sort_key ck_version cs) \<in> set (sort_key ck_version cs)" by (rule last_in_set)
    then show ?thesis by simp
  qed
  ultimately have "c \<in> set (filter (\<lambda>c. ck_quest c = qid) (checkpoints d))"
    unfolding latest_checkpoint_def by (cases "filter (\<lambda>c. ck_quest c = qid) (checkpoints d)") fastforce+
  then show ?thesis by simp
qed

lemma replay_suffix:
  assumes ok: "ledger_ok sha d" and row: "find_quest d qid = Some row"
  shows "replay sha d qid True = Inr (q_state row)"
proof (cases "latest_checkpoint d qid")
  case None
  then show ?thesis using replay_full [OF assms] by (simp add: replay_def)
next
  case (Some c)
  then have "c \<in> set (checkpoints d)" and cq: "ck_quest c = qid"
    using latest_checkpoint_in by auto
  then have "checkpoint_ok sha d c" using ok by (simp add: ledger_ok_def)
  then have pre: "replay_loop sha [] (take (ck_version c) (quest_events d qid)) = Inr (ck_state c)"
    by (simp add: checkpoint_ok_def cq)
  have qok: "quest_ok sha d row" and "q_id row = qid"
    using ok row ledger_quest_ok find_quest_in by auto
  then have "replay_loop sha [] (take (ck_version c) (quest_events d qid) @
      drop (ck_version c) (quest_events d qid)) = Inr (q_state row)"
    by (simp add: quest_ok_def)
  with pre have "replay_loop sha (ck_state c) (drop (ck_version c) (quest_events d qid)) =
      Inr (q_state row)"
    by (simp only: replay_loop_append andThen.simps)
  then show ?thesis
    using Some list_events_after [OF qok] \<open>q_id row = qid\<close> by (simp add: replay_def)
qed

lemma validate_latest_checkpoint:
  assumes ok: "ledger_ok sha d" and cp: "has_checkpoint d qid"
  shows "validate_checkpoint sha d qid None = Inr True"
proof -
  obtain c0 where "c0 \<in> set (checkpoints d)" "ck_quest c0 = qid"
    using cp by (auto simp: has_checkpoint_def select_one_None_iff)
  then have "filter (\<lambda>c. ck_quest c = qid) (checkpoints d) \<noteq> []"
    by (auto simp: filter_empty_conv)
  then obtain c where c: "latest_checkpoint d qid = Some c"
    unfolding latest_checkpoint_def
    by (cases "filter (\<lambda>c. ck_quest c = qid) (checkpoints d)") auto
  then have "c \<in> set (checkpoints d)" "ck_quest c = qid" using latest_checkpoint_in by auto
  then have "checkpoint_ok sha d c" using ok by (simp add: ledger_ok_def)
  then obtain row where row: "find_quest d qid = Some row"
    and "ck_hash c = stable_hash sha (JObj (ck_state c))"
    using \<open>ck_quest c = qid\<close> by (auto simp: checkpoint_ok_def)
  with c replay_full [OF ok row] replay_suffix [OF ok row] show ?thesis
    by (simp add: validate_checkpoint_def get_quest_def)
qed

section \<open>Appending\<close>

definition event_patch :: "dict \<Rightarrow> nat \<Rightarrow> string \<Rightarrow> dict" where
  "event_patch patch after now =
     dict_set ''updated_at'' (JStr now) (dict_set ''state_version'' (JInt (int after)) patch)"

definition new_event ::
    "(json \<Rightarrow> string) \<Rightarrow> db \<Rightarrow> quest_row \<Rightarrow> string \<Rightarrow> dict \<Rightarrow> string \<Rightarrow> event_row" where
  "new_event sha d row ty patch now =
     \<lparr>ev_id = next_event d, ev_quest = q_id row, ev_sequence = Suc (q_version row), ev_type = ty,
      ev_schema = EVENT_SCHEMA_VERSION, ev_before = q_version row, ev_after = Suc (q_version row),
      ev_payload = JObj [(''patch'', JObj (event_patch patch (Suc (q_version row)) now))],
      ev_hash = stable_hash sha (JObj
        (merge_items (q_state row) (event_patch patch (Suc (q_version row)) now))),
      ev_created = now\<rparr>"

definition advanced :: "dict \<Rightarrow> string \<Rightarrow> quest_row \<Rightarrow> quest_row" where
  "advanced patch now row =
     (let s = merge_items (q_state row) (event_patch patch (Suc (q_version row)) now)
      in row\<lparr>q_state := s, q_version := Suc (q_version row),
             q_status := dict_get_or s ''status'' (JStr ''draft''), q_updated := now\<rparr>)"

text \<open>The two ways an append can end: a refusal, or one more event and an advanced projection.\<close>

lemma append_locked_Inr:
  assumes "append_locked sha qid ty patch expected schema now d = Inr (ev, d')"
  shows "\<exists>row. find_quest d qid = Some row \<and> q_version row = expected \<and>
    schema = EVENT_SCHEMA_VERSION \<and> ev = new_event sha d row ty patch now \<and>
    d' = d\<lparr>events := events d @ [ev], next_event := next_event d + 1,
           quests := update_where (\<lambda>r. q_id r = qid \<and> q_version r = expected)
             (\<lambda>r. r\<lparr>q_state := q_state (advanced patch now row),
                   q_version := q_version (advanced patch now row),
                   q_status := q_status (advanced patch now row), q_updated := now\<rparr>) (quests d)\<rparr>"
  using assms find_quest_in [of d qid]
  by (auto simp: append_locked_def Let_def new_event_def event_patch_def advanced_def
      split: if_splits option.splits)

lemma append_locked_conflict:
  "find_quest d qid = Some row \<Longrightarrow> q_version row \<noteq> expected \<Longrightarrow>
   append_locked sha qid ty patch expected EVENT_SCHEMA_VERSION now d =
     Inl (ValueError ''state version conflict'')"
  by (simp add: append_locked_def)

lemma append_locked_succeeds:
  assumes ok: "ledger_ok sha d" and row: "find_quest d qid = Some row"
  shows "\<exists>d'. append_locked sha qid ty patch (q_version row) EVENT_SCHEMA_VERSION now d =
    Inr (new_event sha d row ty patch now, d')"
proof -
  have qok: "quest_ok sha d row" and qid: "q_id row = qid"
    using ok row ledger_quest_ok find_quest_in by auto
  have "ev_sequence e \<noteq> Suc (q_version row)" if "e \<in> set (events d)" "ev_quest e = qid" for e
  proof -
    have "e \<in> set (quest_events d (q_id row))" using that qid by (simp add: quest_events_def)
    then have "ev_sequence e \<in> set [1..<Suc (q_version row)]"
      using qok by (metis image_eqI list.set_map quest_ok_def)
    then show ?thesis by (simp only: set_upt) simp
  qed
  then have "select_one (\<lambda>e. ev_quest e = qid \<and> ev_sequence e = Suc (q_version row)) (events d) = None"
    by (auto simp: select_one_None_iff)
  with row qid show ?thesis
    by (simp add: append_locked_def Let_def new_event_def event_patch_def)
qed

interpretation quest_table: keyed_table q_id "\<lambda>(patch, now). advanced patch now"
  by unfold_locales (auto simp: advanced_def Let_def)

text \<open>With distinct identifiers the version in the \<^verbatim>\<open>WHERE\<close> clause changes nothing.\<close>

lemma update_quest_eq:
  assumes "distinct (map q_id rs)" and "select_one (\<lambda>r. q_id r = qid) rs = Some row"
  shows "update_where (\<lambda>r. q_id r = qid \<and> q_version r = q_version row)
      (\<lambda>r. r\<lparr>q_state := q_state (advanced patch now row),
            q_version := q_version (advanced patch now row),
            q_status := q_status (advanced patch now row), q_updated := now\<rparr>) rs =
    update_where (\<lambda>r. q_id r = qid) (advanced patch now) rs"
  using assms
proof (induction rs)
  case Nil
  then show ?case by simp
next
  case (Cons r rs)
  show ?case
  proof (cases "q_id r = qid")
    case True
    with Cons.prems have "r = row" by auto
    have "q_id r \<notin> q_id ` set rs" using Cons.prems(1) by simp
    then have none: "\<And>x. x \<in> set rs \<Longrightarrow> q_id x \<noteq> qid" using True by (metis imageI)
    with True \<open>r = row\<close> show ?thesis by (simp add: update_where_none advanced_def Let_def)
  next
    case False
    with Cons show ?thesis by auto
  qed
qed

lemma append_locked_db:
  assumes "distinct (map q_id (quests d))"
    and "append_locked sha qid ty patch expected schema now d = Inr (ev, d')"
  obtains row where "find_quest d qid = Some row" and "q_version row = expected"
    and "ev = new_event sha d row ty patch now"
    and "d' = d\<lparr>events := events d @ [ev], next_event := next_event d + 1,
           quests := update_where (\<lambda>r. q_id r = qid) (advanced patch now) (quests d)\<rparr>"
proof -
  from append_locked_Inr [OF assms(2)] obtain row where row: "find_quest d qid = Some row"
    and v: "q_version row = expected" and ev: "ev = new_event sha d row ty patch now"
    and d': "d' = d\<lparr>events := events d @ [ev], next_event := next_event d + 1,
           quests := update_where (\<lambda>r. q_id r = qid \<and> q_version r = expected)
             (\<lambda>r. r\<lparr>q_state := q_state (advanced patch now row),
                   q_version := q_version (advanced patch now row),
                   q_status := q_status (advanced patch now row), q_updated := now\<rparr>) (quests d)\<rparr>"
    by blast
  have "select_one (\<lambda>r. q_id r = qid) (quests d) = Some row" using row by (simp add: find_quest_def)
  from update_quest_eq [OF assms(1) this] have "d' = d\<lparr>events := events d @ [ev],
      next_event := next_event d + 1,
      quests := update_where (\<lambda>r. q_id r = qid) (advanced patch now) (quests d)\<rparr>"
    using d' v by simp
  with row v ev that show ?thesis by blast
qed

section \<open>Every append keeps the invariant\<close>

lemma distinct_event_patch: "distinct (map fst patch) \<Longrightarrow> distinct (map fst (event_patch patch v now))"
  by (simp add: event_patch_def distinct_dict_set)

lemma advanced_simps [simp]:
  "q_id (advanced patch now row) = q_id row"
  "q_version (advanced patch now row) = Suc (q_version row)"
  "q_state (advanced patch now row) =
     merge_items (q_state row) (event_patch patch (Suc (q_version row)) now)"
  by (simp_all add: advanced_def Let_def)

lemma advanced_version:
  assumes "distinct (map fst patch)"
  shows "dict_get (q_state (advanced patch now row)) ''state_version'' =
    Some (JInt (int (Suc (q_version row))))"
proof -
  have "dict_get (event_patch patch (Suc (q_version row)) now) ''state_version'' =
      Some (JInt (int (Suc (q_version row))))"
    by (simp add: event_patch_def)
  then show ?thesis
    by (simp add: dict_get_merge_items [OF distinct_event_patch [OF assms]] merge_flat
        split: option.splits)
qed

lemma advanced_quest_ok:
  assumes ok: "quest_ok sha d row" and "distinct (map fst patch)"
    and d': "events d' = events d @ [new_event sha d row ty patch now]"
  shows "quest_ok sha d' (advanced patch now row)"
proof -
  let ?e = "new_event sha d row ty patch now"
  have es: "quest_events d' (q_id row) = quest_events d (q_id row) @ [?e]"
    by (simp add: quest_events_def d' new_event_def)
  have "replay_loop sha [] (quest_events d' (q_id row)) = Inr (q_state (advanced patch now row))"
    using ok by (simp add: es replay_loop_append quest_ok_def new_event_def)
  moreover have "map ev_sequence (quest_events d' (q_id row)) = [1..<Suc (Suc (q_version row))]"
    using ok by (simp add: es quest_ok_def new_event_def)
  moreover have "q_status (advanced patch now row) =
      dict_get_or (q_state (advanced patch now row)) ''status'' (JStr ''draft'')"
    by (simp add: advanced_def Let_def)
  ultimately show ?thesis
    using advanced_version [OF assms(2)] by (simp add: quest_ok_def del: upt_Suc)
qed

lemma quest_ok_other:
  assumes "quest_ok sha d r" and "events d' = events d @ [e]" and "ev_quest e \<noteq> q_id r"
  shows "quest_ok sha d' r"
  using assms by (simp add: quest_ok_def quest_events_def)

lemma append_locked_ledger_ok:
  assumes ok: "ledger_ok sha d" and pd: "distinct (map fst patch)"
    and app: "append_locked sha qid ty patch expected schema now d = Inr (ev, d')"
  shows "ledger_ok sha d'"
proof -
  have dist: "distinct (map q_id (quests d))" using ok by (simp add: ledger_ok_def)
  from append_locked_db [OF dist app] obtain row where row: "find_quest d qid = Some row"
    and ev: "ev = new_event sha d row ty patch now"
    and d': "d' = d\<lparr>events := events d @ [ev], next_event := next_event d + 1,
           quests := update_where (\<lambda>r. q_id r = qid) (advanced patch now) (quests d)\<rparr>"
    by blast
  have qid: "q_id row = qid" and row_in: "row \<in> set (quests d)"
    using find_quest_in [OF row] by auto
  have keys: "map q_id (quests d') = map q_id (quests d)"
    using quest_table.keys_update_where [of "\<lambda>r. q_id r = qid" "(patch, now)" "quests d"]
    by (simp add: d')
  have ids: "q_id ` set (quests d') = q_id ` set (quests d)"
    using keys by (metis list.set_map)
  have quests: "quest_ok sha d' r'" if "r' \<in> set (quests d')" for r'
  proof -
    from that obtain r where r: "r \<in> set (quests d)"
      and r': "r' = (if q_id r = qid then advanced patch now r else r)"
      by (auto simp: d' set_update_where)
    have rok: "quest_ok sha d r" using ok r by (simp add: ledger_ok_def)
    show ?thesis
    proof (cases "q_id r = qid")
      case True
      with r row_in qid dist have "r = row" by (metis distinct_map inj_onD)
      with True r' show ?thesis
        using advanced_quest_ok [OF _ pd, of sha d row d' ty now] rok ev d' by simp
    next
      case False
      with r' rok show ?thesis
        using quest_ok_other [of sha d r d' ev] ev qid d' by (simp add: new_event_def)
    qed
  qed
  have evs: "event_ok e \<and> ev_quest e \<in> q_id ` set (quests d') \<and> ev_id e < next_event d'"
    if "e \<in> set (events d')" for e
    using that ok row_in unfolding ids by (auto simp: d' ev ledger_ok_def event_ok_def new_event_def)
  have fresh: "distinct (map ev_id (events d'))"
    using ok by (auto simp: d' ev ledger_ok_def new_event_def)
  have cps: "checkpoint_ok sha d' c" if "c \<in> set (checkpoints d')" for c
  proof -
    have cok: "checkpoint_ok sha d c" using that ok by (simp add: d' ledger_ok_def)
    then obtain r where r: "find_quest d (ck_quest c) = Some r" "ck_version c \<le> q_version r"
      by (auto simp: checkpoint_ok_def)
    then have "length (quest_events d (ck_quest c)) = q_version r"
      using ledger_quest_ok [OF ok r(1)] find_quest_in [OF r(1)] quest_ok_lengthD by metis
    with r(2) have take_same: "take (ck_version c) (quest_events d' (ck_quest c)) =
        take (ck_version c) (quest_events d (ck_quest c))"
      by (simp add: quest_events_def d')
    have "find_quest d' (ck_quest c) =
        Some (if ck_quest c = qid then advanced patch now r else r)"
      using r(1) quest_table.select_update_same [of qid "(patch, now)" "quests d"]
        quest_table.select_update_other [of "ck_quest c" qid "(patch, now)" "quests d"]
      by (auto simp: find_quest_def d')
    with cok r take_same show ?thesis by (auto simp: checkpoint_ok_def)
  qed
  show ?thesis
    unfolding ledger_ok_def using keys dist quests evs fresh cps by simp
qed

section \<open>Groups of events and drafts\<close>

text \<open>Extending the quest table by a fresh row, and writing the other tables.\<close>

lemma ledger_ok_new_quest:
  assumes ok: "ledger_ok sha d" and fresh: "find_quest d qid = None"
  shows "ledger_ok sha (d\<lparr>quests := quests d @
    [\<lparr>q_id = qid, q_state = [], q_version = 0, q_status = st, q_created = t, q_updated = now\<rparr>]\<rparr>)"
    (is "ledger_ok sha ?d'")
proof -
  have nq: "qid \<notin> q_id ` set (quests d)"
    using fresh by (auto simp: find_quest_def select_one_None_iff)
  then have "quest_events d qid = []"
    using ok by (auto simp: quest_events_def ledger_ok_def filter_empty_conv)
  moreover have "find_quest ?d' q = Some r" if "find_quest d q = Some r" for q r
    using that by (simp add: find_quest_def select_one_append)
  ultimately show ?thesis
    using ok nq
    by (auto simp: ledger_ok_def quest_ok_def quest_events_def checkpoint_ok_def)
qed

lemma insert_contract_frame:
  "insert_contract qid c now d = Inr d' \<Longrightarrow>
     quests d' = quests d \<and> events d' = events d \<and> next_event d' = next_event d \<and>
     checkpoints d' = checkpoints d"
  by (auto simp: insert_contract_def Let_def split: if_splits)

lemma insert_plan_frame:
  "insert_plan qid p ms now d = Inr d' \<Longrightarrow>
     quests d' = quests d \<and> events d' = events d \<and> next_event d' = next_event d \<and>
     checkpoints d' = checkpoints d"
  by (auto simp: insert_plan_def Let_def split: if_splits)

lemma append_all_ledger_ok:
  "ledger_ok sha d \<Longrightarrow> \<forall>(ty, patch) \<in> set es. distinct (map fst patch) \<Longrightarrow>
   append_all sha qid es version now d = Inr (evs, d') \<Longrightarrow> ledger_ok sha d'"
proof (induction es arbitrary: version d evs)
  case Nil
  then show ?case by simp
next
  case (Cons e es)
  obtain ty patch where e: "e = (ty, patch)" by (cases e)
  with Cons.prems(3) obtain ev d1 evs1
    where app: "append_locked sha qid ty patch version EVENT_SCHEMA_VERSION now d = Inr (ev, d1)"
      and rest: "append_all sha qid es (version + 1) now d1 = Inr (evs1, d')"
    by (auto split: sum.splits prod.splits)
  have "ledger_ok sha d1"
    using append_locked_ledger_ok [OF Cons.prems(1) _ app] Cons.prems(2) e by simp
  with Cons.IH rest Cons.prems(2) show ?case by simp
qed

lemma initial_state_distinct:
  "distinct (map fst (initial_state qid contract p ms ws route st now))"
  by (simp add: initial_state_def)

lemma create_draft_ledger_ok:
  assumes ok: "ledger_ok sha d"
    and cd: "create_draft sha qid contract p ws route st now d = Inr (s, d')"
  shows "ledger_ok sha d'"
proof -
  let ?d1 = "d\<lparr>quests := quests d @ [\<lparr>q_id = qid, q_state = [], q_version = 0,
      q_status = JStr st, q_created = now, q_updated = now\<rparr>]\<rparr>"
  obtain ms d2 d3 ev where fresh: "find_quest d qid = None"
    and d2: "insert_contract qid contract now ?d1 = Inr d2"
    and d3: "insert_plan qid p ms now d2 = Inr d3"
    and app: "append_locked sha qid ''QuestDrafted'' (initial_state qid contract p ms ws route st now)
      0 EVENT_SCHEMA_VERSION now d3 = Inr (ev, d')"
    using cd by (auto simp: create_draft_def Let_def result_simps split: sum.splits if_splits)
  have "ledger_ok sha ?d1" by (rule ledger_ok_new_quest [OF ok fresh])
  then have "ledger_ok sha d3"
    using insert_contract_frame [OF d2] insert_plan_frame [OF d3]
    by (metis ledger_ok_cong)
  from append_locked_ledger_ok [OF this initial_state_distinct app] show ?thesis .
qed

lemma store_contract_version_ledger_ok:
  assumes ok: "ledger_ok sha d"
    and sc: "store_contract_version sha qid c expected ty st now d = Inr (ev, d')"
  shows "ledger_ok sha d'"
proof -
  let ?patch = "[(''contract'', JObj c), (''goal'', dict_get_or c ''goal'' (JStr [])),
      (''status'', JStr st), (''error'', JNull)]"
  obtain d1 where d1: "insert_contract qid c now d = Inr d1"
    and app: "append_locked sha qid ty ?patch expected EVENT_SCHEMA_VERSION now d1 = Inr (ev, d')"
    using sc by (auto simp: store_contract_version_def result_simps split: option.splits if_splits)
  have "ledger_ok sha d1" using ok insert_contract_frame [OF d1] by (metis ledger_ok_cong)
  moreover have "distinct (map fst ?patch)" by simp
  ultimately show ?thesis using append_locked_ledger_ok app by blast
qed

lemma save_checkpoint_ledger_ok:
  assumes ok: "ledger_ok sha d" and sc: "save_checkpoint sha qid now d = Inr (r, d')"
  shows "ledger_ok sha d'"
proof -
  obtain row where row: "find_quest d qid = Some row"
    and d': "d' = d \<or> d' = d\<lparr>checkpoints := checkpoints d @
      [\<lparr>ck_quest = qid, ck_version = q_version row, ck_state = q_state row,
        ck_hash = stable_hash sha (JObj (q_state row)), ck_created = now\<rparr>]\<rparr>"
    using sc by (auto simp: save_checkpoint_def Let_def split: option.splits if_splits)
  have "quest_ok sha d row" "q_id row = qid"
    using ok row ledger_quest_ok find_quest_in by auto
  then have len: "length (quest_events d qid) = q_version row"
    and rep: "replay_loop sha [] (quest_events d qid) = Inr (q_state row)"
    using quest_ok_lengthD [of sha d row] by (auto simp: quest_ok_def)
  then have "checkpoint_ok sha d \<lparr>ck_quest = qid, ck_version = q_version row, ck_state = q_state row,
      ck_hash = stable_hash sha (JObj (q_state row)), ck_created = now\<rparr>"
    using row by (simp add: checkpoint_ok_def)
  moreover have "checkpoint_ok sha (d\<lparr>checkpoints := cs\<rparr>) c = checkpoint_ok sha d c" for cs c
    by (simp add: checkpoint_ok_def quest_events_def find_quest_def)
  moreover have "quest_ok sha (d\<lparr>checkpoints := cs\<rparr>) r = quest_ok sha d r" for cs r
    by (simp add: quest_ok_def quest_events_def)
  ultimately show ?thesis using ok d' by (auto simp: ledger_ok_def)
qed

text \<open>A checkpoint that is saved is there.\<close>

lemma save_checkpoint_has:
  "save_checkpoint sha qid now d = Inr (r, d') \<Longrightarrow> has_checkpoint d' qid"
  by (auto simp: save_checkpoint_def has_checkpoint_def Let_def select_one_append
      select_one_None_iff dest!: select_one_Some_in split: option.splits if_splits)

lemma append_all_versions:
  assumes "ledger_ok sha d" and "find_quest d qid = Some row"
    and "append_all sha qid es version now d = Inr (evs, d')"
    and "\<forall>(ty, patch) \<in> set es. distinct (map fst patch)"
  shows "(es \<noteq> [] \<longrightarrow> version = q_version row) \<and>
    map ev_sequence evs = [Suc version..<Suc (version + length es)] \<and>
    (\<exists>row'. find_quest d' qid = Some row' \<and> q_version row' = q_version row + length es)"
  using assms
proof (induction es arbitrary: version d row evs)
  case Nil
  then show ?case by auto
next
  case (Cons e es)
  obtain ty patch where e: "e = (ty, patch)" by (cases e)
  with Cons.prems(3) obtain ev d1 evs1
    where app: "append_locked sha qid ty patch version EVENT_SCHEMA_VERSION now d = Inr (ev, d1)"
      and rest: "append_all sha qid es (version + 1) now d1 = Inr (evs1, d')"
      and evs: "evs = ev # evs1"
    by (auto split: sum.splits prod.splits)
  have dist: "distinct (map q_id (quests d))" using Cons.prems(1) by (simp add: ledger_ok_def)
  have v: "q_version row = version"
    and ev: "ev = new_event sha d row ty patch now"
    and d1: "d1 = d\<lparr>events := events d @ [ev], next_event := next_event d + 1,
           quests := update_where (\<lambda>r. q_id r = qid) (advanced patch now) (quests d)\<rparr>"
    using append_locked_db [OF dist app] Cons.prems(2) by auto
  have ok1: "ledger_ok sha d1"
    using append_locked_ledger_ok [OF Cons.prems(1) _ app] Cons.prems(4) e by simp
  have row1: "find_quest d1 qid = Some (advanced patch now row)"
    using Cons.prems(2) quest_table.select_update_same [of qid "(patch, now)" "quests d"]
    by (simp add: d1 find_quest_def)
  have "\<forall>(ty, patch) \<in> set es. distinct (map fst patch)" using Cons.prems(4) by simp
  from Cons.IH [OF ok1 row1 rest this] v evs ev show ?case
    by (simp add: new_event_def upt_rec [of "Suc version"] del: upt_Suc)
qed

end
