(* ===== verification/Actions.thy ===== *)
theory Actions
  imports Event_Store
begin

text \<open>
  The tool-action journal of \<^verbatim>\<open>V1Storage\<close> (\<^verbatim>\<open>v1_tool_actions\<close>): an action is prepared once per
  idempotency key, dispatched, and ends committed, failed or with an unknown effect. A commit also
  appends the \<^verbatim>\<open>ToolCommitted\<close> event and links the action to it, and may store the observation of
  the file the tool wrote. The times \<open>now\<close>, \<open>now'\<close> are the values of \<^verbatim>\<open>utc_now()\<close>.
\<close>

fun receipt_name :: "receipt_status \<Rightarrow> string" where
  "receipt_name ActPrepared = ''prepared''"
| "receipt_name ActDispatched = ''dispatched''"
| "receipt_name ActCommitted = ''committed''"
| "receipt_name ActFailed = ''failed''"
| "receipt_name ActUnknownEffect = ''unknown_effect''"

definition find_action :: "db \<Rightarrow> string \<Rightarrow> action_row option" where
  "find_action d aid = select_one (\<lambda>r. a_id r = aid) (actions d)"

section \<open>Preparing\<close>

definition prepare_action ::
    "string \<Rightarrow> string \<Rightarrow> string \<Rightarrow> string \<Rightarrow> string \<Rightarrow> string \<Rightarrow> dict \<Rightarrow> nat \<Rightarrow> string option \<Rightarrow>
     string \<Rightarrow> db \<Rightarrow> (action_row \<times> db) result" where
  "prepare_action aid qid mid key tool args_hash args expected pre now d =
     (case find_quest d qid of
        None \<Rightarrow> Inl (KeyError qid)
      | Some projection \<Rightarrow>
          (case select_one (\<lambda>r. a_quest r = qid \<and> a_key r = key) (actions d) of
             Some existing \<Rightarrow>
               if a_args_hash existing \<noteq> args_hash \<or> a_tool existing \<noteq> tool
               then Inl (ValueError ''idempotency key conflict'') else Inr (existing, d)
           | None \<Rightarrow>
               if q_version projection \<noteq> expected then Inl (ValueError ''state version conflict'')
               else if find_action d aid \<noteq> None then Inl (IntegrityError ''v1_tool_actions'')
               else
                 let row = \<lparr>a_id = aid, a_quest = qid, a_milestone = mid, a_key = key,
                       a_tool = tool, a_args_hash = args_hash, a_args = args,
                       a_pre_effect = pre, a_expected = expected, a_status = ActPrepared,
                       a_result = None, a_error = None, a_created = now, a_updated = now,
                       a_event = None\<rparr>
                 in Inr (row, d\<lparr>actions := actions d @ [row]\<rparr>)))"

section \<open>Transitions\<close>

definition transition_row ::
    "receipt_status \<Rightarrow> dict option \<Rightarrow> dict option \<Rightarrow> string \<Rightarrow> action_row \<Rightarrow> action_row" where
  "transition_row status res err now r =
     r\<lparr>a_status := status, a_result := res, a_error := err, a_updated := now\<rparr>"

definition transition_action ::
    "string \<Rightarrow> receipt_status list \<Rightarrow> receipt_status \<Rightarrow> dict option \<Rightarrow> dict option \<Rightarrow> string \<Rightarrow> db \<Rightarrow>
     (action_row \<times> db) result" where
  "transition_action aid allowed_from status res err now d =
     (case find_action d aid of
        None \<Rightarrow> Inl (KeyError aid)
      | Some row \<Rightarrow>
          if a_status row = status then Inr (row, d)
          else if a_status row \<notin> set allowed_from
          then Inl (ValueError (''action transition '' @ receipt_name (a_status row) @ '' -> '' @
                 receipt_name status @ '' is not allowed''))
          else Inr (transition_row status res err now row,
                 d\<lparr>actions := update_where (\<lambda>r. a_id r = aid)
                      (transition_row status res err now) (actions d)\<rparr>))"

definition mark_action_dispatched :: "string \<Rightarrow> string \<Rightarrow> db \<Rightarrow> (action_row \<times> db) result" where
  "mark_action_dispatched aid now d =
     transition_action aid [ActPrepared] ActDispatched None None now d"

definition commit_action :: "string \<Rightarrow> dict \<Rightarrow> string \<Rightarrow> db \<Rightarrow> (action_row \<times> db) result" where
  "commit_action aid res now d =
     transition_action aid [ActDispatched, ActUnknownEffect] ActCommitted (Some res) None now d"

definition fail_action :: "string \<Rightarrow> dict \<Rightarrow> string \<Rightarrow> db \<Rightarrow> (action_row \<times> db) result" where
  "fail_action aid err now d =
     transition_action aid [ActPrepared, ActDispatched] ActFailed None (Some err) now d"

definition mark_action_unknown ::
    "string \<Rightarrow> dict option \<Rightarrow> string \<Rightarrow> db \<Rightarrow> (action_row \<times> db) result" where
  "mark_action_unknown aid err now d =
     transition_action aid [ActDispatched] ActUnknownEffect None err now d"

section \<open>The observation of a written file\<close>

definition bad_relative_path :: "string \<Rightarrow> bool" where
  "bad_relative_path p \<longleftrightarrow>
     p = [] \<or> starts_with p ''/'' \<or> CHR 0x5C \<in> set p \<or>
     (\<exists>part \<in> set (py_split CHR ''/'' p). part \<in> {[], ''.'', ''..''})"

definition bad_observation :: "dict \<Rightarrow> nat option \<Rightarrow> bool" where
  "bad_observation ob event \<longleftrightarrow>
     (case dict_get ob ''observation_id'' of Some (JStr s) \<Rightarrow> s = [] | _ \<Rightarrow> True) \<or>
     (case dict_get ob ''relative_path'' of Some (JStr s) \<Rightarrow> bad_relative_path s | _ \<Rightarrow> True) \<or>
     (case dict_get ob ''before_sha256'' of
        None \<Rightarrow> False | Some JNull \<Rightarrow> False | Some (JStr s) \<Rightarrow> \<not> is_sha256 s | _ \<Rightarrow> True) \<or>
     (case dict_get ob ''after_sha256'' of Some (JStr s) \<Rightarrow> \<not> is_sha256 s | _ \<Rightarrow> True) \<or>
     (case dict_get ob ''after_size_bytes'' of Some (JInt n) \<Rightarrow> n < 0 | _ \<Rightarrow> True) \<or>
     dict_get_or ob ''change_kind'' JNull \<notin>
       JStr ` {''created'', ''modified'', ''deleted'', ''unchanged'', ''unsupported''} \<or>
     dict_get_or ob ''status'' JNull \<notin>
       JStr ` {''observed'', ''unstable'', ''unsupported'', ''unrecoverable''} \<or>
     event = None"

definition observation_row_of ::
    "dict \<Rightarrow> string \<Rightarrow> string \<Rightarrow> nat \<Rightarrow> string \<Rightarrow> observation_row" where
  "observation_row_of ob aid qid event now =
     \<lparr>ob_id = as_str (dict_get_or ob ''observation_id'' JNull), ob_quest = qid, ob_action = aid,
      ob_event = event, ob_path = as_str (dict_get_or ob ''relative_path'' JNull),
      ob_before = (case dict_get_or ob ''before_sha256'' JNull of JStr s \<Rightarrow> Some s | _ \<Rightarrow> None),
      ob_after = as_str (dict_get_or ob ''after_sha256'' JNull),
      ob_size = as_int (dict_get_or ob ''after_size_bytes'' JNull),
      ob_kind = as_str (dict_get_or ob ''change_kind'' JNull),
      ob_status = as_str (dict_get_or ob ''status'' JNull), ob_created = now\<rparr>"

text \<open>The unique index allows one observation per action.\<close>

definition insert_observation ::
    "dict \<Rightarrow> string \<Rightarrow> string \<Rightarrow> nat option \<Rightarrow> string \<Rightarrow> db \<Rightarrow> db result" where
  "insert_observation ob aid qid event now d =
     (if bad_observation ob event then Inl (ValueError ''tool file observation is invalid'')
      else case find_action d aid of
        None \<Rightarrow> Inl (ValueError ''tool file observation action/event binding is invalid'')
      | Some action \<Rightarrow>
          if a_quest action \<noteq> qid \<or> a_status action \<noteq> ActCommitted \<or> a_event action \<noteq> event
          then Inl (ValueError ''tool file observation action/event binding is invalid'')
          else case select_one (\<lambda>e. Some (ev_id e) = event) (events d) of
            None \<Rightarrow> Inl (ValueError ''tool file observation receipt event is invalid'')
          | Some ev \<Rightarrow>
              if ev_quest ev \<noteq> qid \<or> ev_type ev \<noteq> ''ToolCommitted''
              then Inl (ValueError ''tool file observation receipt event is invalid'')
              else
                let row = observation_row_of ob aid qid (the event) now
                in if \<exists>r \<in> set (observations d). ob_id r = ob_id row \<or> ob_action r = aid
                   then Inl (IntegrityError ''v1_tool_file_observations'')
                   else Inr (d\<lparr>observations := observations d @ [row]\<rparr>))"

definition append_tool_file_observation ::
    "string \<Rightarrow> string \<Rightarrow> string \<Rightarrow> string \<Rightarrow> nat \<Rightarrow> string option \<Rightarrow> string option \<Rightarrow> int \<Rightarrow>
     string \<Rightarrow> string \<Rightarrow> string \<Rightarrow> db \<Rightarrow> db result" where
  "append_tool_file_observation oid qid aid path event prior after nbytes kind status now d =
     (case find_action d aid of
        None \<Rightarrow> Inl (ValueError ''tool file observation action does not belong to quest'')
      | Some action \<Rightarrow>
          if a_quest action \<noteq> qid
          then Inl (ValueError ''tool file observation action does not belong to quest'')
          else insert_observation
            [(''observation_id'', JStr oid), (''relative_path'', JStr path),
             (''before_sha256'', case prior of None \<Rightarrow> JNull | Some s \<Rightarrow> JStr s),
             (''after_sha256'', case after of None \<Rightarrow> JNull | Some s \<Rightarrow> JStr s),
             (''after_size_bytes'', JInt nbytes), (''change_kind'', JStr kind),
             (''status'', JStr status)]
            aid qid (Some event) now d)"

section \<open>Committing\<close>

definition receipt_json :: "action_row \<Rightarrow> dict \<Rightarrow> dict" where
  "receipt_json row res =
     [(''action_id'', JStr (a_id row)), (''idempotency_key'', JStr (a_key row)),
      (''status'', JStr ''committed''), (''result'', JObj res), (''error'', JNull)]"

text \<open>\<^verbatim>\<open>UPDATE ... SET committed_event_id\<close>, under the unique index on that column.\<close>

definition link_action :: "string \<Rightarrow> nat \<Rightarrow> db \<Rightarrow> db result" where
  "link_action aid event d =
     (if \<exists>r \<in> set (actions d). a_id r \<noteq> aid \<and> a_event r = Some event
      then Inl (IntegrityError ''v1_idx_actions_committed_event'')
      else Inr (d\<lparr>actions := update_where (\<lambda>r. a_id r = aid)
                   (\<lambda>r. r\<lparr>a_event := Some event\<rparr>) (actions d)\<rparr>))"

definition receipt_event ::
    "(json \<Rightarrow> string) \<Rightarrow> action_row \<Rightarrow> dict \<Rightarrow> string \<Rightarrow> db \<Rightarrow> (event_row \<times> db) result" where
  "receipt_event sha row res now d =
     (case find_quest d (a_quest row) of
        None \<Rightarrow> Inl (TypeError ''NoneType'')
      | Some projection \<Rightarrow>
          append_locked sha (a_quest row) ''ToolCommitted''
            [(''last_receipt'', JObj (receipt_json row res))]
            (q_version projection) EVENT_SCHEMA_VERSION now d)"

definition commit_action_with_event ::
    "(json \<Rightarrow> string) \<Rightarrow> string \<Rightarrow> dict \<Rightarrow> dict option \<Rightarrow> string \<Rightarrow> string \<Rightarrow> db \<Rightarrow>
     (action_row \<times> db) result" where
  "commit_action_with_event sha aid res ob now now' d =
     (case find_action d aid of
        None \<Rightarrow> Inl (KeyError aid)
      | Some row \<Rightarrow>
          if a_status row = ActCommitted then
            (case a_result row of
               None \<Rightarrow> Inl (TypeError ''NoneType'')
             | Some stored \<Rightarrow>
                 if canon (JObj stored) \<noteq> canon (JObj res)
                 then Inl (ValueError ''committed action result conflict'')
                 else if a_event row = None
                 then Inl (ValueError ''committed action receipt event missing'')
                 else Inr (row, d))
          else if a_status row \<notin> {ActDispatched, ActUnknownEffect}
          then Inl (ValueError (''action transition '' @ receipt_name (a_status row) @
                 '' -> committed is not allowed''))
          else
            let d1 = d\<lparr>actions := update_where (\<lambda>r. a_id r = aid)
                   (transition_row ActCommitted (Some res) None now) (actions d)\<rparr>
            in andThen (receipt_event sha row res now d1) (\<lambda>(ev, d2).
               andThen (link_action aid (ev_id ev) d2) (\<lambda>d3.
               andThen (case ob of None \<Rightarrow> Inr d3
                        | Some ob \<Rightarrow> insert_observation ob aid (a_quest row) (Some (ev_id ev))
                                      now' d3) (\<lambda>d4.
               case find_action d4 aid of
                 None \<Rightarrow> Inl (TypeError ''NoneType'')
               | Some updated \<Rightarrow> Inr (updated, d4)))))"

section \<open>Reading and recovery\<close>

definition get_action :: "db \<Rightarrow> string \<Rightarrow> action_row option" where
  "get_action d aid = find_action d aid"

definition list_unresolved_actions :: "db \<Rightarrow> string \<Rightarrow> action_row list" where
  "list_unresolved_actions d qid =
     sort_key a_created (filter (\<lambda>r. a_quest r = qid \<and>
       a_status r \<in> {ActDispatched, ActUnknownEffect}) (actions d))"

text \<open>Linked, orphaned and doubly linked receipts.\<close>

definition action_recovery_summary :: "db \<Rightarrow> nat \<times> nat \<times> nat" where
  "action_recovery_summary d =
     (let linked = [e. r \<leftarrow> actions d, e \<leftarrow> (case a_event r of None \<Rightarrow> [] | Some e \<Rightarrow> [e])]
      in (length (filter (\<lambda>r. a_status r = ActCommitted \<and> a_event r \<noteq> None) (actions d)),
          length (filter (\<lambda>r. a_status r = ActCommitted \<and> a_event r = None) (actions d)),
          length (filter (\<lambda>e. 1 < length (filter (\<lambda>e'. e' = e) linked)) (remdups linked))))"

definition interrupted_error :: dict where
  "interrupted_error = [(''code'', JStr ''PROCESS_INTERRUPTED''),
     (''message'', JStr ''Dispatch outcome must be reconciled'')]"

definition mark_dispatched_actions_unknown :: "string \<Rightarrow> db \<Rightarrow> nat \<times> db" where
  "mark_dispatched_actions_unknown now d =
     (length (filter (\<lambda>r. a_status r = ActDispatched) (actions d)),
      d\<lparr>actions := update_where (\<lambda>r. a_status r = ActDispatched)
          (\<lambda>r. r\<lparr>a_status := ActUnknownEffect, a_error := Some interrupted_error,
                a_updated := now\<rparr>) (actions d)\<rparr>)"

text \<open>
  \<^verbatim>\<open>_repair_committed_action_events\<close>, run after the migrations. \<open>mentions\<close> stands for SQLite's
  \<^verbatim>\<open>LIKE\<close> on the stored text of a payload with the pattern of an action identifier.
\<close>

fun repair_rows ::
    "(json \<Rightarrow> string) \<Rightarrow> (json \<Rightarrow> string \<Rightarrow> bool) \<Rightarrow> action_row list \<Rightarrow> string \<Rightarrow> db \<Rightarrow> db result" where
  "repair_rows sha mentions [] now d = Inr d"
| "repair_rows sha mentions (row # rows) now d =
     andThen
       (case filter (\<lambda>e. ev_quest e = a_quest row \<and> ev_type e = ''ToolCommitted'' \<and>
                mentions (ev_payload e) (a_id row)) (events d) of
          ev # _ \<Rightarrow> link_action (a_id row) (ev_id ev) d
        | [] \<Rightarrow>
            (case a_result row of
               None \<Rightarrow> Inl (TypeError ''NoneType'')
             | Some res \<Rightarrow>
                 andThen (receipt_event sha row res now d) (\<lambda>(ev, d').
                   link_action (a_id row) (ev_id ev) d')))
       (repair_rows sha mentions rows now)"

definition repair_committed_action_events ::
    "(json \<Rightarrow> string) \<Rightarrow> (json \<Rightarrow> string \<Rightarrow> bool) \<Rightarrow> string \<Rightarrow> db \<Rightarrow> db result" where
  "repair_committed_action_events sha mentions now d =
     repair_rows sha mentions
       (filter (\<lambda>r. a_status r = ActCommitted \<and> a_event r = None) (actions d)) now d"

end
