(* ===== verification/Action_Journal.thy ===== *)
theory Action_Journal
  imports Ledger Actions
begin

text \<open>
  What the tool-action journal guarantees: the status of an action only moves along the edges of
  its automaton, a key names one request, a receipt is linked to exactly one \<^verbatim>\<open>ToolCommitted\<close>
  event of the same Quest, and an observation belongs to a committed action.
\<close>

section \<open>The automaton of an action\<close>

inductive action_edge :: "receipt_status \<Rightarrow> receipt_status \<Rightarrow> bool" where
  dispatch: "action_edge ActPrepared ActDispatched"
| refuse: "action_edge ActPrepared ActFailed"
| commit: "action_edge ActDispatched ActCommitted"
| fail: "action_edge ActDispatched ActFailed"
| lose: "action_edge ActDispatched ActUnknownEffect"
| reconcile: "action_edge ActUnknownEffect ActCommitted"

inductive_cases action_edge_from_committed: "action_edge ActCommitted s"
inductive_cases action_edge_from_failed: "action_edge ActFailed s"
inductive_cases action_edge_to_prepared: "action_edge s ActPrepared"
inductive_simps action_edge_iff: "action_edge s t"

lemma action_edge_terminal:
  "action_edge s t \<Longrightarrow> s \<noteq> ActCommitted \<and> s \<noteq> ActFailed \<and> t \<noteq> ActPrepared"
  by (auto elim: action_edge.cases)

text \<open>One operation on one row: the request is kept, the status stays or takes one edge, a
  committed row keeps its result and its link.\<close>

definition row_advances :: "action_row \<Rightarrow> action_row \<Rightarrow> bool" where
  "row_advances r r' \<longleftrightarrow>
     a_id r' = a_id r \<and> a_quest r' = a_quest r \<and> a_key r' = a_key r \<and> a_tool r' = a_tool r \<and>
     a_args_hash r' = a_args_hash r \<and> a_args r' = a_args r \<and> a_pre_effect r' = a_pre_effect r \<and>
     a_expected r' = a_expected r \<and>
     (a_status r' = a_status r \<or> action_edge (a_status r) (a_status r')) \<and>
     (a_status r = ActCommitted \<longrightarrow> a_result r' = a_result r) \<and>
     (a_event r \<noteq> None \<longrightarrow> a_event r' = a_event r)"

definition journal_advances :: "db \<Rightarrow> db \<Rightarrow> bool" where
  "journal_advances d d' \<longleftrightarrow>
     (\<forall>r \<in> set (actions d). \<exists>r' \<in> set (actions d'). row_advances r r')"

lemma row_advances_refl [simp]: "row_advances r r"
  by (simp add: row_advances_def)

lemma journal_advances_same: "actions d' = actions d \<Longrightarrow> journal_advances d d'"
  unfolding journal_advances_def by (metis row_advances_refl)

lemma journal_advances_update:
  assumes "\<And>r. r \<in> set (actions d) \<Longrightarrow> p r \<Longrightarrow> row_advances r (f r)"
    and "actions d' = update_where p f (actions d)"
  shows "journal_advances d d'"
  unfolding journal_advances_def
proof
  fix r assume r: "r \<in> set (actions d)"
  let ?r' = "if p r then f r else r"
  have "?r' \<in> set (actions d')" using r by (auto simp: assms(2) set_update_where)
  moreover have "row_advances r ?r'" using assms(1) [OF r] by simp
  ultimately show "\<exists>r' \<in> set (actions d'). row_advances r r'" by blast
qed

section \<open>The invariant\<close>

definition receipt_of :: "db \<Rightarrow> nat \<Rightarrow> string \<Rightarrow> bool" where
  "receipt_of d e q \<longleftrightarrow>
     (\<exists>ev \<in> set (events d). ev_id ev = e \<and> ev_quest ev = q \<and> ev_type ev = ''ToolCommitted'')"

definition action_row_ok :: "db \<Rightarrow> action_row \<Rightarrow> bool" where
  "action_row_ok d r \<longleftrightarrow>
     a_quest r \<in> q_id ` set (quests d) \<and>
     (a_status r = ActCommitted \<longrightarrow> a_result r \<noteq> None) \<and>
     (\<forall>e. a_event r = Some e \<longrightarrow> a_status r = ActCommitted \<and> receipt_of d e (a_quest r))"

definition links_unique :: "action_row list \<Rightarrow> bool" where
  "links_unique rs \<longleftrightarrow>
     (\<forall>r \<in> set rs. \<forall>r' \<in> set rs. \<forall>e. a_event r = Some e \<longrightarrow> a_event r' = Some e \<longrightarrow> a_id r = a_id r')"

lemma links_uniqueD:
  "links_unique rs \<Longrightarrow> r \<in> set rs \<Longrightarrow> r' \<in> set rs \<Longrightarrow> a_event r = Some e \<Longrightarrow>
   a_event r' = Some e \<Longrightarrow> a_id r = a_id r'"
  unfolding links_unique_def by blast

lemma links_unique_map:
  assumes "\<And>r. a_id (f r) = a_id r" "\<And>r. a_event (f r) = a_event r"
  shows "links_unique (map f rs) = links_unique rs"
  by (simp add: links_unique_def assms)

lemma links_unique_snoc:
  assumes "links_unique rs" and "a_event r = None"
  shows "links_unique (rs @ [r])"
  unfolding links_unique_def
proof (intro ballI allI impI)
  fix x y e assume "x \<in> set (rs @ [r])" "y \<in> set (rs @ [r])"
    and ev: "a_event x = Some e" "a_event y = Some e"
  then have "x \<in> set rs" "y \<in> set rs" using assms(2) by auto
  then show "a_id x = a_id y" using links_uniqueD [OF assms(1)] ev by blast
qed

definition observation_ok :: "db \<Rightarrow> observation_row \<Rightarrow> bool" where
  "observation_ok d ob \<longleftrightarrow>
     (\<exists>r \<in> set (actions d). a_id r = ob_action ob \<and> a_quest r = ob_quest ob \<and>
        a_status r = ActCommitted \<and> a_event r = Some (ob_event ob)) \<and>
     \<not> bad_relative_path (ob_path ob) \<and> is_sha256 (ob_after ob) \<and> 0 \<le> ob_size ob"

definition journal_ok :: "db \<Rightarrow> bool" where
  "journal_ok d \<longleftrightarrow>
     distinct (map a_id (actions d)) \<and>
     distinct (map (\<lambda>r. (a_quest r, a_key r)) (actions d)) \<and>
     (\<forall>r \<in> set (actions d). action_row_ok d r) \<and> links_unique (actions d) \<and>
     distinct (map ob_action (observations d)) \<and> distinct (map ob_id (observations d)) \<and>
     (\<forall>ob \<in> set (observations d). observation_ok d ob)"

lemma journal_okD:
  assumes "journal_ok d"
  shows "r \<in> set (actions d) \<Longrightarrow> action_row_ok d r"
    and "ob \<in> set (observations d) \<Longrightarrow> observation_ok d ob"
    and "links_unique (actions d)"
  using assms by (simp_all add: journal_ok_def)

lemma find_quest_id: "find_quest d qid = Some q \<Longrightarrow> qid \<in> q_id ` set (quests d)"
  using find_quest_in by (metis image_eqI)

lemma journal_ok_empty: "journal_ok empty_db"
  by (simp add: journal_ok_def empty_db_def links_unique_def)

text \<open>More events and more Quests do not break it.\<close>

lemma journal_ok_grow:
  assumes "journal_ok d" and "actions d' = actions d" "observations d' = observations d"
    and "set (events d) \<subseteq> set (events d')"
    and "q_id ` set (quests d) \<subseteq> q_id ` set (quests d')"
  shows "journal_ok d'"
proof -
  have "receipt_of d' e q" if "receipt_of d e q" for e q
    using that assms(4) by (auto simp: receipt_of_def)
  then have "action_row_ok d' r" if "action_row_ok d r" for r
    using that assms(5) by (auto simp: action_row_ok_def)
  moreover have "observation_ok d' ob = observation_ok d ob" for ob
    using assms(2) by (simp add: observation_ok_def)
  ultimately show ?thesis using assms(1-3) by (simp add: journal_ok_def)
qed

lemma append_locked_frame:
  assumes "append_locked sha qid ty patch expected schema now d = Inr (ev, d')"
  shows "actions d' = actions d \<and> observations d' = observations d \<and>
    events d' = events d @ [ev] \<and> map q_id (quests d') = map q_id (quests d)"
proof -
  have "map q_id (update_where p (\<lambda>r. r\<lparr>q_state := s, q_version := v, q_status := st,
      q_updated := now\<rparr>) rs) = map q_id rs" for p s v st and rs :: "quest_row list"
    by (induction rs) auto
  then show ?thesis using append_locked_Inr [OF assms] by auto
qed

lemma append_locked_journal_ok:
  assumes "append_locked sha qid ty patch expected schema now d = Inr (ev, d')" and "journal_ok d"
  shows "journal_ok d'"
proof -
  have "q_id ` set (quests d') = q_id ` set (quests d)"
    using append_locked_frame [OF assms(1)] by (metis list.set_map)
  then show ?thesis
    using append_locked_frame [OF assms(1)] by (intro journal_ok_grow [OF assms(2)]) auto
qed

interpretation action_status: keyed_table a_id
    "\<lambda>(status, res, err, now). transition_row status res err now"
  by unfold_locales (auto simp: transition_row_def)

interpretation action_link: keyed_table a_id "\<lambda>e r. r\<lparr>a_event := Some e\<rparr>"
  by unfold_locales simp

lemma find_action_in:
  "find_action d aid = Some row \<Longrightarrow> row \<in> set (actions d) \<and> a_id row = aid"
  unfolding find_action_def by (rule select_one_Some_in)

lemma journal_row_unique:
  assumes "journal_ok d" and "find_action d aid = Some row" and "r \<in> set (actions d)"
    and "a_id r = aid"
  shows "r = row"
  using action_link.select_key_distinct [of "actions d" r] assms
  by (auto simp: journal_ok_def find_action_def)

text \<open>
  The update of one row: what the new row has to satisfy for the invariant to survive.
\<close>

lemma journal_ok_update:
  assumes ok: "journal_ok d" and row: "find_action d aid = Some row"
    and d': "d' = d\<lparr>actions := update_where (\<lambda>r. a_id r = aid) f (actions d)\<rparr>"
    and keep: "\<And>r. a_id (f r) = a_id r \<and> a_quest (f r) = a_quest r \<and> a_key (f r) = a_key r"
    and new: "action_row_ok d (f row)"
    and link: "\<And>r e. r \<in> set (actions d) \<Longrightarrow> a_event r = Some e \<Longrightarrow>
      a_event (f row) = Some e \<Longrightarrow> r = row"
    and obs: "a_event row \<noteq> None \<Longrightarrow> a_status (f row) = a_status row \<and> a_event (f row) = a_event row"
  shows "journal_ok d'"
proof -
  let ?as = "actions d" and ?as' = "update_where (\<lambda>r. a_id r = aid) f (actions d)"
  have fr: "f r = f row" if "r \<in> set ?as" "a_id r = aid" for r
    using journal_row_unique [OF ok row that] by simp
  have ids: "map a_id ?as' = map a_id ?as" "map (\<lambda>r. (a_quest r, a_key r)) ?as' =
      map (\<lambda>r. (a_quest r, a_key r)) ?as"
    using keep by (auto simp: update_where_def)
  have rows: "r' \<in> set ?as' \<longleftrightarrow> (r' \<in> set ?as \<and> a_id r' \<noteq> aid) \<or> r' = f row" for r'
  proof -
    have "?as' = map (\<lambda>r. if a_id r = aid then f row else r) ?as"
      using fr by (auto simp: update_where_def)
    then show ?thesis using find_action_in [OF row] by auto
  qed
  have rowok: "\<forall>r \<in> set ?as'. action_row_ok d r"
    using ok new by (auto simp: rows journal_ok_def)
  have "links_unique ?as'"
    unfolding links_unique_def
  proof (intro ballI allI impI)
    fix r r' e assume r: "r \<in> set ?as'" and r': "r' \<in> set ?as'"
      and ev: "a_event r = Some e" "a_event r' = Some e"
    have lu: "links_unique ?as" using ok by (simp add: journal_ok_def)
    have kr: "a_id (f row) = aid" "a_id row = aid" using keep find_action_in [OF row] by auto
    have old_new: "a_id x = aid" if "x \<in> set ?as" "a_event x = Some e" "a_event (f row) = Some e" for x
      using link [OF that] kr by simp
    consider "r \<in> set ?as \<and> r' \<in> set ?as" | "r \<in> set ?as" "r' = f row" | "r = f row" "r' \<in> set ?as"
      | "r = f row" "r' = f row"
      using r r' rows by blast
    then show "a_id r = a_id r'"
    proof cases
      case 1
      then show ?thesis using links_uniqueD [OF lu] ev by blast
    next
      case 2
      then show ?thesis using old_new [of r] ev kr by simp
    next
      case 3
      then show ?thesis using old_new [of r'] ev kr by simp
    next
      case 4
      then show ?thesis by simp
    qed
  qed
  moreover have "observation_ok d' ob" if "ob \<in> set (observations d)" for ob
  proof -
    obtain r where r: "r \<in> set ?as" "a_id r = ob_action ob" "a_quest r = ob_quest ob"
        "a_status r = ActCommitted" "a_event r = Some (ob_event ob)"
      and rest: "\<not> bad_relative_path (ob_path ob) \<and> is_sha256 (ob_after ob) \<and> 0 \<le> ob_size ob"
      using journal_okD(2) [OF ok \<open>ob \<in> set (observations d)\<close>] unfolding observation_ok_def by blast
    show ?thesis
    proof (cases "a_id r = aid")
      case True
      then have "r = row" using journal_row_unique [OF ok row r(1)] by simp
      with r obs keep have "a_id (f row) = ob_action ob" "a_quest (f row) = ob_quest ob"
        "a_status (f row) = ActCommitted" "a_event (f row) = Some (ob_event ob)" by auto
      then show ?thesis using rest rows d' by (auto simp: observation_ok_def)
    next
      case False
      then have "r \<in> set ?as'" using r rows by simp
      then show ?thesis using r rest d' unfolding observation_ok_def by auto
    qed
  qed
  moreover have "action_row_ok d' r = action_row_ok d r" for r
    by (simp add: action_row_ok_def receipt_of_def d')
  ultimately show ?thesis using ok ids rowok by (simp add: journal_ok_def d')
qed

section \<open>Every operation keeps the invariant\<close>

lemma prepare_action_cases:
  assumes "prepare_action aid qid mid key tool h args v pre now d = Inr (row, d')"
  obtains (replayed) "d' = d" "row \<in> set (actions d)" "a_quest row = qid" "a_key row = key"
      "a_args_hash row = h" "a_tool row = tool"
  | (fresh) q where "find_quest d qid = Some q" "q_version q = v" "find_action d aid = None"
      "select_one (\<lambda>r. a_quest r = qid \<and> a_key r = key) (actions d) = None"
      "row = \<lparr>a_id = aid, a_quest = qid, a_milestone = mid, a_key = key, a_tool = tool,
         a_args_hash = h, a_args = args, a_pre_effect = pre, a_expected = v,
         a_status = ActPrepared, a_result = None, a_error = None, a_created = now,
         a_updated = now, a_event = None\<rparr>"
      "d' = d\<lparr>actions := actions d @ [row]\<rparr>"
proof -
  obtain q where q: "find_quest d qid = Some q"
    using assms by (cases "find_quest d qid") (auto simp: prepare_action_def)
  show thesis
  proof (cases "select_one (\<lambda>r. a_quest r = qid \<and> a_key r = key) (actions d)")
    case None
    then show thesis using assms q fresh by (auto simp: prepare_action_def Let_def split: if_splits)
  next
    case (Some r)
    from select_one_Some_in [OF this] show thesis
      using assms q Some replayed by (auto simp: prepare_action_def split: if_splits)
  qed
qed

lemma prepare_action_journal_ok:
  assumes ok: "journal_ok d"
    and prep: "prepare_action aid qid mid key tool h args v pre now d = Inr (row, d')"
  shows "journal_ok d'"
  using prep
proof (cases rule: prepare_action_cases)
  case replayed
  then show ?thesis using ok by simp
next
  case (fresh q)
  have row: "a_id row = aid" "a_quest row = qid" "a_key row = key" "a_status row = ActPrepared"
      "a_event row = None"
    by (simp_all add: fresh(5))
  have new: "aid \<notin> a_id ` set (actions d)"
      "(qid, key) \<notin> (\<lambda>r. (a_quest r, a_key r)) ` set (actions d)"
    using fresh(3,4) by (auto simp: find_action_def select_one_None_iff)
  have "action_row_ok d' r = action_row_ok d r" for r
    by (simp add: action_row_ok_def receipt_of_def fresh(6))
  moreover have "action_row_ok d row"
    using row find_quest_id [OF fresh(1)] by (simp add: action_row_ok_def)
  moreover have "observation_ok d' ob" if "observation_ok d ob" for ob
    using that by (auto simp: observation_ok_def fresh(6))
  moreover have "links_unique (actions d @ [row])"
    using journal_okD(3) [OF ok] row(5) by (rule links_unique_snoc)
  moreover have "distinct (map a_id (actions d @ [row]))"
    "distinct (map (\<lambda>r. (a_quest r, a_key r)) (actions d @ [row]))"
    using ok new row unfolding journal_ok_def by auto
  moreover have "actions d' = actions d @ [row]" "observations d' = observations d"
    by (simp_all add: fresh(6))
  ultimately show ?thesis using ok unfolding journal_ok_def by auto
qed

lemma transition_action_cases:
  assumes "transition_action aid from st res err now d = Inr (row', d')"
  obtains (same) "d' = d" "find_action d aid = Some row'" "a_status row' = st"
  | (moved) row where "find_action d aid = Some row" "a_status row \<in> set from" "a_status row \<noteq> st"
      "row' = transition_row st res err now row"
      "d' = d\<lparr>actions := update_where (\<lambda>r. a_id r = aid) (transition_row st res err now) (actions d)\<rparr>"
  using assms by (auto simp: transition_action_def split: option.splits if_splits)

lemma transition_action_journal_ok:
  assumes ok: "journal_ok d"
    and tr: "transition_action aid from st res err now d = Inr (row', d')"
    and st: "ActCommitted \<notin> set from" "st = ActCommitted \<Longrightarrow> res \<noteq> None"
  shows "journal_ok d'"
  using tr
proof (cases rule: transition_action_cases)
  case same
  then show ?thesis using ok by simp
next
  case (moved row)
  have rok: "action_row_ok d row"
    using journal_okD(1) [OF ok] find_action_in [OF moved(1)] by simp
  have "a_status row \<noteq> ActCommitted" using moved(2) st(1) by auto
  with rok have "a_event row = None" by (cases "a_event row") (auto simp: action_row_ok_def)
  show ?thesis
    by (rule journal_ok_update [OF ok moved(1) moved(5)])
      (use rok \<open>a_event row = None\<close> st in \<open>auto simp: transition_row_def action_row_ok_def\<close>)
qed

lemma transition_action_advances:
  assumes ok: "journal_ok d"
    and tr: "transition_action aid from st res err now d = Inr (row', d')"
    and edge: "\<And>s. s \<in> set from \<Longrightarrow> action_edge s st"
  shows "journal_advances d d'"
  using tr
proof (cases rule: transition_action_cases)
  case same
  then show ?thesis by (simp add: journal_advances_same)
next
  case (moved row)
  show ?thesis
  proof (rule journal_advances_update)
    fix r assume r: "r \<in> set (actions d)" "a_id r = aid"
    then have "r = row" using journal_row_unique [OF ok moved(1)] by simp
    then show "row_advances r (transition_row st res err now r)"
      using edge [OF moved(2)] action_edge_terminal
      by (auto simp: row_advances_def transition_row_def)
  qed (simp add: moved(5))
qed

lemma startup_journal_ok:
  assumes ok: "journal_ok d" and st: "mark_dispatched_actions_unknown now d = (n, d')"
  shows "journal_ok d'"
proof -
  define g :: "action_row \<Rightarrow> action_row" where "g = (\<lambda>r. if a_status r = ActDispatched then
      r\<lparr>a_status := ActUnknownEffect, a_error := Some interrupted_error, a_updated := now\<rparr> else r)"
  have g: "a_id (g r) = a_id r" "a_quest (g r) = a_quest r" "a_key (g r) = a_key r"
    "a_event (g r) = a_event r" "a_result (g r) = a_result r"
    "a_status (g r) = ActCommitted \<longleftrightarrow> a_status r = ActCommitted" for r
    by (simp_all add: g_def)
  have d': "d' = d\<lparr>actions := map g (actions d)\<rparr>"
    using st by (simp add: mark_dispatched_actions_unknown_def update_where_def g_def)
  have "links_unique (map g (actions d))"
    using journal_okD(3) [OF ok] g by (subst links_unique_map)
  moreover have "observation_ok d' ob" if "observation_ok d ob" for ob
    using that g by (fastforce simp: observation_ok_def d')
  moreover have "action_row_ok d' (g r)" if "action_row_ok d r" for r
    using that by (auto simp: action_row_ok_def receipt_of_def d' g)
  ultimately show ?thesis using ok by (simp add: journal_ok_def d' comp_def g)
qed

lemma startup_advances:
  assumes "mark_dispatched_actions_unknown now d = (n, d')"
  shows "journal_advances d d'"
  by (rule journal_advances_update
      [where p = "\<lambda>r. a_status r = ActDispatched" and
        f = "\<lambda>r. r\<lparr>a_status := ActUnknownEffect, a_error := Some interrupted_error, a_updated := now\<rparr>"])
    (use assms in \<open>auto simp: mark_dispatched_actions_unknown_def row_advances_def
      intro: action_edge.intros\<close>)

section \<open>The commit\<close>

lemma update_where_twice:
  "(\<And>r. p r \<Longrightarrow> p (g r)) \<Longrightarrow>
   update_where p f (update_where p g rs) = update_where p (\<lambda>r. f (g r)) rs"
  by (induction rs) auto

lemma link_action_journal_ok:
  assumes ok: "journal_ok d" and row: "find_action d aid = Some row"
    and st: "a_status row = ActCommitted" "a_event row = None" "receipt_of d e (a_quest row)"
    and link: "link_action aid e d = Inr d'"
  shows "journal_ok d'"
proof -
  have d': "d' = d\<lparr>actions := update_where (\<lambda>r. a_id r = aid) (\<lambda>r. r\<lparr>a_event := Some e\<rparr>) (actions d)\<rparr>"
    and free: "\<forall>r \<in> set (actions d). a_id r \<noteq> aid \<longrightarrow> a_event r \<noteq> Some e"
    using link by (auto simp: link_action_def split: if_splits)
  have rok: "action_row_ok d row" using journal_okD(1) [OF ok] find_action_in [OF row] by simp
  show ?thesis
  proof (rule journal_ok_update [OF ok row d'])
    show "action_row_ok d (row\<lparr>a_event := Some e\<rparr>)"
      using rok st by (simp add: action_row_ok_def)
    show "r = row" if "r \<in> set (actions d)" "a_event r = Some e'"
      "a_event (row\<lparr>a_event := Some e\<rparr>) = Some e'" for r e'
      using that free journal_row_unique [OF ok row] by auto
  qed (use st in auto)
qed

lemma insert_observation_journal_ok:
  assumes ok: "journal_ok d" and ins: "insert_observation ob aid qid ev now d = Inr d'"
  shows "journal_ok d'"
proof -
  define row where "row = observation_row_of ob aid qid (the ev) now"
  obtain r where d': "d' = d\<lparr>observations := observations d @ [row]\<rparr>"
    and good: "\<not> bad_observation ob ev" and r: "find_action d aid = Some r"
      "a_quest r = qid" "a_status r = ActCommitted" "a_event r = ev"
    and free: "\<forall>x \<in> set (observations d). ob_id x \<noteq> ob_id row \<and> ob_action x \<noteq> aid"
    using ins by (auto simp: insert_observation_def row_def Let_def split: if_splits option.splits)
  have "ev \<noteq> None" using good by (simp add: bad_observation_def)
  have cols: "ob_action row = aid" "ob_quest row = qid" "ob_event row = the ev"
    by (simp_all add: row_def observation_row_of_def)
  have "\<not> bad_relative_path (ob_path row)" "is_sha256 (ob_after row)" "0 \<le> ob_size row"
    using good
    by (auto simp: bad_observation_def row_def observation_row_of_def dict_get_or_def
        split: option.splits json.splits)
  then have "observation_ok d row"
    using r find_action_in [OF r(1)] \<open>ev \<noteq> None\<close> cols by (auto simp: observation_ok_def)
  moreover have "observation_ok d' x = observation_ok d x" for x
    by (simp add: observation_ok_def d')
  moreover have "action_row_ok d' x = action_row_ok d x" for x
    by (simp add: action_row_ok_def receipt_of_def d')
  moreover have "actions d' = actions d" "observations d' = observations d @ [row]"
    by (simp_all add: d')
  ultimately show ?thesis using ok free cols by (auto simp: journal_ok_def)
qed

lemma receipt_event_Inr:
  assumes "receipt_event sha row res now d = Inr (ev, d')"
  obtains q where "find_quest d (a_quest row) = Some q"
    "append_locked sha (a_quest row) ''ToolCommitted''
       [(''last_receipt'', JObj (receipt_json row res))] (q_version q) EVENT_SCHEMA_VERSION now d =
     Inr (ev, d')"
    "ev = new_event sha d q ''ToolCommitted'' [(''last_receipt'', JObj (receipt_json row res))] now"
proof -
  obtain q where q: "find_quest d (a_quest row) = Some q" and
    app: "append_locked sha (a_quest row) ''ToolCommitted''
       [(''last_receipt'', JObj (receipt_json row res))] (q_version q) EVENT_SCHEMA_VERSION now d =
     Inr (ev, d')"
    using assms by (auto simp: receipt_event_def split: option.splits)
  then show thesis using append_locked_Inr [OF app] that by auto
qed

text \<open>The row a commit leaves.\<close>

definition committed_row :: "dict \<Rightarrow> nat \<Rightarrow> string \<Rightarrow> action_row \<Rightarrow> action_row" where
  "committed_row res e now r = (transition_row ActCommitted (Some res) None now r)\<lparr>a_event := Some e\<rparr>"

lemma commit_cases:
  assumes "commit_action_with_event sha aid res ob now now' d = Inr (row', d')"
  obtains (replayed) stored where "d' = d" "find_action d aid = Some row'"
      "a_status row' = ActCommitted" "a_event row' \<noteq> None" "a_result row' = Some stored"
      "canon (JObj stored) = canon (JObj res)"
  | (committed) row ev d1 d2 d3 where "find_action d aid = Some row"
      "a_status row \<in> {ActDispatched, ActUnknownEffect}"
      "d1 = d\<lparr>actions := update_where (\<lambda>r. a_id r = aid)
                   (transition_row ActCommitted (Some res) None now) (actions d)\<rparr>"
      "receipt_event sha row res now d1 = Inr (ev, d2)"
      "link_action aid (ev_id ev) d2 = Inr d3"
      "d' = d3 \<or> (\<exists>o'. ob = Some o' \<and>
         insert_observation o' aid (a_quest row) (Some (ev_id ev)) now' d3 = Inr d')"
      "find_action d' aid = Some row'"
proof -
  obtain row where row: "find_action d aid = Some row"
    using assms by (cases "find_action d aid") (auto simp: commit_action_with_event_def)
  show thesis
  proof (cases "a_status row = ActCommitted")
    case True
    then show thesis using assms row replayed
      by (auto simp: commit_action_with_event_def split: option.splits if_splits)
  next
    case False
    let ?d1 = "d\<lparr>actions := update_where (\<lambda>r. a_id r = aid)
                   (transition_row ActCommitted (Some res) None now) (actions d)\<rparr>"
    have st: "a_status row \<in> {ActDispatched, ActUnknownEffect}"
      using assms row False by (auto simp: commit_action_with_event_def split: if_splits)
    obtain ev d2 d3 where "receipt_event sha row res now ?d1 = Inr (ev, d2)"
      "link_action aid (ev_id ev) d2 = Inr d3"
      "d' = d3 \<or> (\<exists>o'. ob = Some o' \<and>
         insert_observation o' aid (a_quest row) (Some (ev_id ev)) now' d3 = Inr d')"
      "find_action d' aid = Some row'"
      using assms row False st
      by (auto simp: commit_action_with_event_def Let_def result_simps split: option.splits)
    then show thesis using committed [OF row st refl] by blast
  qed
qed

lemma find_action_update:
  assumes "find_action d aid = Some row" and "\<And>r. a_id (f r) = a_id r"
    and "actions d' = update_where (\<lambda>r. a_id r = aid) f (actions d)"
  shows "find_action d' aid = Some (f row)"
proof -
  have "select_one (\<lambda>r. a_id r = aid) (update_where (\<lambda>r. a_id r = aid) f rs) = Some (f row)"
    if "select_one (\<lambda>r. a_id r = aid) rs = Some row" for rs
    using that by (induction rs) (auto simp: assms(2) split: if_splits)
  then show ?thesis using assms(1,3) by (simp add: find_action_def)
qed

lemma insert_observation_frame:
  "insert_observation ob aid qid ev now d = Inr d' \<Longrightarrow>
   actions d' = actions d \<and> events d' = events d \<and> quests d' = quests d \<and>
   next_event d' = next_event d \<and> checkpoints d' = checkpoints d"
  by (auto simp: insert_observation_def Let_def split: if_splits option.splits)

lemma link_action_frame:
  "link_action aid e d = Inr d' \<Longrightarrow>
   actions d' = update_where (\<lambda>r. a_id r = aid) (\<lambda>r. r\<lparr>a_event := Some e\<rparr>) (actions d) \<and>
   observations d' = observations d \<and> events d' = events d \<and> quests d' = quests d \<and>
   next_event d' = next_event d \<and> checkpoints d' = checkpoints d"
  by (auto simp: link_action_def split: if_splits)

text \<open>What a first commit does: one event, one row, nothing else in the journal.\<close>

lemma commit_effect:
  assumes ok: "journal_ok d" and lok: "ledger_ok sha d"
    and com: "commit_action_with_event sha aid res ob now now' d = Inr (row', d')"
    and row: "find_action d aid = Some row" and open_row: "a_status row \<noteq> ActCommitted"
  shows "\<exists>q ev. find_quest d (a_quest row) = Some q \<and>
    ev = new_event sha d q ''ToolCommitted'' [(''last_receipt'', JObj (receipt_json row res))] now \<and>
    events d' = events d @ [ev] \<and>
    quests d' = update_where (\<lambda>r. q_id r = a_quest row)
      (advanced [(''last_receipt'', JObj (receipt_json row res))] now) (quests d) \<and>
    actions d' = update_where (\<lambda>r. a_id r = aid) (committed_row res (ev_id ev) now) (actions d) \<and>
    row' = committed_row res (ev_id ev) now row \<and>
    a_status row \<in> {ActDispatched, ActUnknownEffect} \<and> journal_ok d' \<and> ledger_ok sha d'"
  using com
proof (cases rule: commit_cases)
  case (replayed stored)
  then show ?thesis using row open_row by simp
next
  case (committed row0 ev d1 d2 d3)
  let ?patch = "[(''last_receipt'', JObj (receipt_json row res))]"
  have r0: "row0 = row" using committed(1) row by simp
  have rok: "action_row_ok d row" using journal_okD(1) [OF ok] find_action_in [OF row] by simp
  then have none: "a_event row = None" using open_row by (cases "a_event row") (auto simp: action_row_ok_def)
  have j1: "journal_ok d1"
    by (rule journal_ok_update [OF ok row committed(3)])
      (use rok none in \<open>auto simp: transition_row_def action_row_ok_def\<close>)
  have l1: "ledger_ok sha d1"
    using lok by (subst ledger_ok_cong [of _ d]) (simp_all add: committed(3))
  obtain q where q: "find_quest d1 (a_quest row) = Some q"
    and app: "append_locked sha (a_quest row) ''ToolCommitted'' ?patch (q_version q)
        EVENT_SCHEMA_VERSION now d1 = Inr (ev, d2)"
    and ev: "ev = new_event sha d1 q ''ToolCommitted'' ?patch now"
    using receipt_event_Inr [OF committed(4)] r0 by auto
  have dist: "distinct (map q_id (quests d1))" using l1 by (simp add: ledger_ok_def)
  have d2: "d2 = d1\<lparr>events := events d1 @ [ev], next_event := next_event d1 + 1,
      quests := update_where (\<lambda>r. q_id r = a_quest row) (advanced ?patch now) (quests d1)\<rparr>"
    using append_locked_db [OF dist app] by blast
  have j2: "journal_ok d2" by (rule append_locked_journal_ok [OF app j1])
  have l2: "ledger_ok sha d2" by (rule append_locked_ledger_ok [OF l1 _ app]) simp
  have row2: "find_action d2 aid = Some (transition_row ActCommitted (Some res) None now row)"
    by (rule find_action_update [OF row]) (simp_all add: d2 committed(3) transition_row_def [abs_def])
  have qq: "q_id q = a_quest row" using find_quest_in [OF q] by simp
  then have rec: "receipt_of d2 (ev_id ev) (a_quest row)"
    by (auto simp: receipt_of_def d2 ev new_event_def)
  have j3: "journal_ok d3"
    by (rule link_action_journal_ok [OF j2 row2 _ _ _ committed(5)])
      (use rec none in \<open>simp_all add: transition_row_def\<close>)
  have f3: "actions d' = actions d3 \<and> events d' = events d3 \<and> quests d' = quests d3 \<and>
      next_event d' = next_event d3 \<and> checkpoints d' = checkpoints d3"
    using committed(6) insert_observation_frame by blast
  have j4: "journal_ok d'" using committed(6) insert_observation_journal_ok [OF j3] j3 by blast
  have l4: "ledger_ok sha d'"
    using l2 link_action_frame [OF committed(5)] f3 by (subst ledger_ok_cong [of _ d2]) simp_all
  have acts: "actions d' = update_where (\<lambda>r. a_id r = aid) (committed_row res (ev_id ev) now) (actions d)"
    using f3 link_action_frame [OF committed(5)]
    by (simp add: d2 committed(3) committed_row_def [abs_def] update_where_twice
        transition_row_def [abs_def])
  have "find_action d' aid = Some (committed_row res (ev_id ev) now row)"
    by (rule find_action_update [OF row _ acts]) (simp add: committed_row_def transition_row_def)
  then have row': "row' = committed_row res (ev_id ev) now row" using committed(7) by simp
  have "find_quest d (a_quest row) = Some q" using q by (simp add: find_quest_def committed(3))
  moreover have "ev = new_event sha d q ''ToolCommitted'' ?patch now"
    unfolding ev by (simp add: new_event_def committed(3))
  moreover have "events d' = events d @ [ev]" "quests d' = update_where
      (\<lambda>r. q_id r = a_quest row) (advanced ?patch now) (quests d)"
    using f3 link_action_frame [OF committed(5)] by (simp_all add: d2 committed(3))
  ultimately show ?thesis using acts row' committed(2) r0 j4 l4 by blast
qed

end
