(* ===== verification/Records.thy ===== *)
theory Records
  imports Event_Store
begin

text \<open>
  The write-once records of \<^verbatim>\<open>V1Storage\<close> (evidence, verification results, progress entries,
  decisions) and the two transactions that record a change of plan: \<^verbatim>\<open>store_plan_version\<close> and
  \<^verbatim>\<open>apply_decision\<close>.
\<close>

section \<open>Records\<close>

datatype record_table = Evidence | Verification | Progress | Decision

fun table_name :: "record_table \<Rightarrow> string" where
  "table_name Evidence = ''v1_evidence''"
| "table_name Verification = ''v1_verification_results''"
| "table_name Progress = ''v1_progress_entries''"
| "table_name Decision = ''v1_decisions''"

fun rows_of :: "record_table \<Rightarrow> db \<Rightarrow> data_row list" where
  "rows_of Evidence d = evidence_rows d"
| "rows_of Verification d = verification_rows d"
| "rows_of Progress d = progress_rows d"
| "rows_of Decision d = decision_rows d"

fun add_row :: "record_table \<Rightarrow> data_row \<Rightarrow> db \<Rightarrow> db" where
  "add_row Evidence r d = d\<lparr>evidence_rows := evidence_rows d @ [r]\<rparr>"
| "add_row Verification r d = d\<lparr>verification_rows := verification_rows d @ [r]\<rparr>"
| "add_row Progress r d = d\<lparr>progress_rows := progress_rows d @ [r]\<rparr>"
| "add_row Decision r d = d\<lparr>decision_rows := decision_rows d @ [r]\<rparr>"

text \<open>\<^verbatim>\<open>INSERT\<close>: the identifier is the primary key, the Quest a foreign key.\<close>

definition insert_record ::
    "record_table \<Rightarrow> string \<Rightarrow> string \<Rightarrow> dict \<Rightarrow> string \<Rightarrow> db \<Rightarrow> db result" where
  "insert_record t i qid data now d =
     (if (\<exists>r \<in> set (rows_of t d). r_id r = i) \<or> find_quest d qid = None
      then Inl (IntegrityError (table_name t))
      else Inr (add_row t \<lparr>r_id = i, r_quest = qid, r_data = data, r_created = now\<rparr> d))"

definition record_data ::
    "record_table \<Rightarrow> string \<Rightarrow> string \<Rightarrow> dict \<Rightarrow> string \<Rightarrow> db \<Rightarrow>
     ((string \<times> string \<times> dict) \<times> db) result" where
  "record_data t i qid data now d =
     (case insert_record t i qid data now d of
        Inr d' \<Rightarrow> Inr ((i, qid, data), d')
      | Inl _ \<Rightarrow>
          (case select_one (\<lambda>r. r_id r = i) (rows_of t d) of
             None \<Rightarrow> Inl (ValueError (table_name t @ '' record conflict''))
           | Some existing \<Rightarrow>
               if r_quest existing \<noteq> qid \<or> canon (JObj (r_data existing)) \<noteq> canon (JObj data)
               then Inl (ValueError (table_name t @ '' record conflict''))
               else Inr ((i, qid, data), d)))"

definition list_records :: "record_table \<Rightarrow> db \<Rightarrow> string \<Rightarrow> dict list" where
  "list_records t d qid =
     map (\<lambda>r. dict_set ''created_at'' (JStr (r_created r))
            (fold (\<lambda>(k, v). dict_set k v) (r_data r)
               [(''id'', JStr (r_id r)), (''quest_id'', JStr qid)]))
       (sort_key (\<lambda>r. (r_created r, r_id r)) (filter (\<lambda>r. r_quest r = qid) (rows_of t d)))"

definition append_evidence where
  "append_evidence qid i data now d = record_data Evidence i qid data now d"

definition append_verification_result where
  "append_verification_result qid i data now d = record_data Verification i qid data now d"

definition append_progress where
  "append_progress qid i data now d = record_data Progress i qid data now d"

definition append_decision where
  "append_decision qid i data now d = record_data Decision i qid data now d"

section \<open>A new plan keeps the completed milestones\<close>

definition same_work :: "milestone \<Rightarrow> milestone \<Rightarrow> bool" where
  "same_work old new \<longleftrightarrow>
     m_tool old = m_tool new \<and> canon (JObj (m_args old)) = canon (JObj (m_args new)) \<and>
     m_criteria old = m_criteria new"

definition carry_over :: "milestone \<Rightarrow> milestone list \<Rightarrow> milestone list" where
  "carry_over old ms =
     map (\<lambda>m. if m_id m = m_id old
              then m\<lparr>m_status := Completed, m_evidence := m_evidence old\<rparr> else m) ms"

fun merge_completed :: "string \<Rightarrow> milestone list \<Rightarrow> milestone list \<Rightarrow> milestone list result" where
  "merge_completed missing [] ms = Inr ms"
| "merge_completed missing (old # olds) ms =
     (case find (\<lambda>m. m_id m = m_id old) ms of
        None \<Rightarrow> Inl (ValueError missing)
      | Some new \<Rightarrow>
          if \<not> same_work old new
          then Inl (ValueError ''replan cannot modify a completed milestone'')
          else merge_completed missing olds (carry_over old ms))"

definition state_milestones :: "dict \<Rightarrow> milestone list" where
  "state_milestones s =
     map milestone_of_json (as_list (dict_get_or s ''milestones'' (JList [])))"

definition completed_milestones :: "dict \<Rightarrow> milestone list" where
  "completed_milestones s = filter (\<lambda>m. m_status m = Completed) (state_milestones s)"

text \<open>\<^verbatim>\<open>{item["id"]: item for item in ...}\<close>\<close>

definition by_id :: "milestone list \<Rightarrow> milestone list" where
  "by_id ms = map snd (fold (\<lambda>m. AList.update (m_id m) m) ms [])"

definition store_plan_version ::
    "(json \<Rightarrow> string) \<Rightarrow> string \<Rightarrow> plan \<Rightarrow> nat \<Rightarrow> string \<Rightarrow> string \<Rightarrow> db \<Rightarrow> (event_row \<times> db) result"
where
  "store_plan_version sha qid p expected now now' d =
     andThen (validate_plan (pl_milestones p)) (\<lambda>milestones.
     andThen (require_quest d qid) (\<lambda>current.
     andThen (merge_completed ''replan cannot remove a completed milestone''
                (by_id (completed_milestones current)) milestones) (\<lambda>milestones.
     case find_quest d qid of
       None \<Rightarrow> Inl (ValueError ''state version conflict'')
     | Some row \<Rightarrow>
         if q_version row \<noteq> expected then Inl (ValueError ''state version conflict'')
         else andThen (insert_plan qid p milestones now d) (\<lambda>d1.
           append_locked sha qid ''PlanReplanned''
             [(''plan_id'', JStr (pl_id p)), (''plan_version'', JInt (pl_version p)),
              (''plan_metadata'', JObj (pl_metadata p)),
              (''milestones'', milestones_json milestones), (''status'', JStr ''running'')]
             expected EVENT_SCHEMA_VERSION now' d1))))"

section \<open>A decision of the user\<close>

definition decision_conflict :: "'a result \<Rightarrow> 'a result" where
  "decision_conflict r =
     (case r of Inl (IntegrityError _) \<Rightarrow> Inl (ValueError ''decision conflict'') | _ \<Rightarrow> r)"

text \<open>The \<^verbatim>\<open>modify\<close> branch: the milestones of the new plan, or no plan for the other kinds.\<close>

definition decision_milestones ::
    "string \<Rightarrow> dict \<Rightarrow> dict option \<Rightarrow> plan option \<Rightarrow> milestone list option result" where
  "decision_milestones kind state contract p =
     (if kind \<noteq> ''modify'' then Inr None
      else case (contract, p) of
        (Some _, Some p') \<Rightarrow>
          andThen (validate_plan (pl_milestones p')) (\<lambda>milestones.
          andThen (merge_completed ''replan cannot modify a completed milestone''
                     (completed_milestones state) milestones) (\<lambda>ms. Inr (Some ms)))
      | _ \<Rightarrow> Inl (ValueError ''modified contract and plan are required''))"

definition approval_mismatch :: "string \<Rightarrow> dict \<Rightarrow> dict \<Rightarrow> bool" where
  "approval_mismatch kind state data \<longleftrightarrow>
     kind = ''approve'' \<and>
     canon (dict_get_or (as_dict (dict_get_or data ''contract_patch'' (JObj []))) ''action_id'' JNull) \<noteq>
     canon (dict_get_or (as_dict (dict_get_or state ''pending_approval'' JNull)) ''action_id'' JNull)"

text \<open>The rows of the new contract and plan.\<close>

fun adopt_plan ::
    "string \<Rightarrow> milestone list option \<Rightarrow> dict option \<Rightarrow> plan option \<Rightarrow> string \<Rightarrow> db \<Rightarrow> db result" where
  "adopt_plan qid (Some ms) (Some c) (Some p) now d =
     andThen (insert_contract qid c now d) (insert_plan qid p ms now)"
| "adopt_plan qid _ _ _ now d = Inr d"

definition apply_decision ::
    "(json \<Rightarrow> string) \<Rightarrow> string \<Rightarrow> string \<Rightarrow> dict \<Rightarrow> nat \<Rightarrow> string \<Rightarrow> (string \<times> dict) list \<Rightarrow>
     dict option \<Rightarrow> plan option \<Rightarrow> string \<Rightarrow> db \<Rightarrow> (dict \<times> db) result" where
  "apply_decision sha qid did data expected kind es contract p now d =
     (case find_quest d qid of
        None \<Rightarrow> Inl (KeyError qid)
      | Some row \<Rightarrow>
          if q_version row \<noteq> expected then Inl (ValueError ''state version conflict'')
          else if q_status row \<noteq> JStr ''waiting_user''
          then Inl (ValueError ''decision not requested'')
          else if approval_mismatch kind (q_state row) data
          then Inl (ValueError ''approval target mismatch'')
          else andThen (decision_milestones kind (q_state row) contract p) (\<lambda>milestones.
            andThen (decision_conflict
              (andThen (insert_record Decision did qid data now d) (\<lambda>d1.
               andThen (adopt_plan qid milestones contract p now d1) (\<lambda>d3.
               append_all sha qid es expected now d3)))) (\<lambda>(evs, d4).
            andThen (require_quest d4 qid) (\<lambda>s. Inr (s, d4)))))"

end
