(* ===== verification/Provenance.thy ===== *)
theory Provenance
  imports Actions
begin

text \<open>
  The provenance classifier of \<^verbatim>\<open>backend/app/v1/provenance.py\<close>: a pure function of the ledgers (JSON
  values, none of them trusted) that says how an artifact of the manifest came to be. Every malformed
  input has its own \<^verbatim>\<open>unrecoverable_*\<close> status; an observed chain of writes is claimed only when it
  leads from the baseline to the artifact without a gap.
\<close>

section \<open>Results\<close>

record provenance_result =
  ps_status :: string
  ps_storage :: string
  ps_hash :: "string option"
  ps_action :: "string option"
  ps_event :: "int option"
  ps_reason :: string

definition storage_status :: "string \<Rightarrow> string" where
  "storage_status status =
     (if status = ''legacy_unobserved'' then ''legacy_unobserved''
      else if starts_with status ''unrecoverable_'' then ''unrecoverable'' else ''shadow'')"

definition status_result ::
    "string \<Rightarrow> string option \<Rightarrow> string \<Rightarrow> string option \<Rightarrow> int option \<Rightarrow> provenance_result" where
  "status_result status digest why action event =
     \<lparr>ps_status = status, ps_storage = storage_status status, ps_hash = digest, ps_action = action,
      ps_event = event, ps_reason = why\<rparr>"

text \<open>An early return of the classifier.\<close>

type_synonym 'a stage = "provenance_result + 'a"

definition early :: "string \<Rightarrow> string \<Rightarrow> string \<Rightarrow> 'a stage" where
  "early digest status why = Inl (status_result status (Some digest) why None None)"

section \<open>Reading untrusted values\<close>

fun mapping_of :: "json \<Rightarrow> dict option" where
  "mapping_of (JObj d) = Some d"
| "mapping_of _ = None"

fun sequence_of :: "json \<Rightarrow> json list option" where
  "sequence_of (JList xs) = Some xs"
| "sequence_of _ = None"

fun sha_of :: "json \<Rightarrow> string option" where
  "sha_of (JStr s) = (if is_sha256 s then Some s else None)"
| "sha_of _ = None"

fun size_of :: "json \<Rightarrow> int option" where
  "size_of (JInt n) = (if 0 \<le> n then Some n else None)"
| "size_of _ = None"

fun name_of :: "json \<Rightarrow> string option" where
  "name_of (JStr s) = (if s = [] then None else Some s)"
| "name_of _ = None"

fun int_of :: "json \<Rightarrow> int option" where
  "int_of (JInt n) = Some n"
| "int_of _ = None"

text \<open>Python's \<^verbatim>\<open>==\<close> of a value and an integer: \<^verbatim>\<open>True == 1\<close> and \<^verbatim>\<open>1.0 == 1\<close>.\<close>

fun equals_int :: "json \<Rightarrow> int \<Rightarrow> bool" where
  "equals_int (JInt m) n \<longleftrightarrow> m = n"
| "equals_int (JBool b) n \<longleftrightarrow> (if b then 1 else 0) = n"
| "equals_int (JFloat x) n \<longleftrightarrow> x = of_int n"
| "equals_int _ n \<longleftrightarrow> False"

text \<open>A value that cannot be a member of a set, so that \<^verbatim>\<open>in\<close> raises \<^verbatim>\<open>TypeError\<close>.\<close>

fun unhashable :: "json \<Rightarrow> bool" where
  "unhashable (JList _) \<longleftrightarrow> True"
| "unhashable (JObj _) \<longleftrightarrow> True"
| "unhashable _ \<longleftrightarrow> False"

definition read :: "dict \<Rightarrow> string \<Rightarrow> json" where
  "read d k = dict_get_or d k JNull"

fun first_value :: "dict \<Rightarrow> string list \<Rightarrow> json" where
  "first_value d [] = JNull"
| "first_value d (k # ks) = (if read d k \<noteq> JNull then read d k else first_value d ks)"

definition safe_relative :: "string \<Rightarrow> bool" where
  "safe_relative p \<longleftrightarrow> CHR 0x00 \<notin> set p \<and> \<not> bad_relative_path p"

fun safe_path :: "json \<Rightarrow> bool" where
  "safe_path (JStr p) \<longleftrightarrow> safe_relative p"
| "safe_path _ \<longleftrightarrow> False"

definition path_from :: "dict \<Rightarrow> string option" where
  "path_from d =
     (case List.map_filter (dict_get d) [''relative_path'', ''path''] of
        [] \<Rightarrow> None
      | c # cs \<Rightarrow> if list_all safe_path (c # cs) \<and> list_all (\<lambda>x. x = c) cs then Some (as_str c) else None)"

definition artifact_values :: "dict \<Rightarrow> (string \<times> string \<times> int) option" where
  "artifact_values d =
     (case (path_from d, sha_of (first_value d [''sha256'', ''artifact_hash'', ''hash'']),
            size_of (first_value d [''size'', ''size_bytes'', ''after_size_bytes''])) of
        (Some p, Some h, Some n) \<Rightarrow> Some (p, h, n)
      | _ \<Rightarrow> None)"

fun entries_by_path ::
    "(string \<times> string \<times> int) list \<Rightarrow> json list \<Rightarrow> (string \<times> string \<times> int) list option" where
  "entries_by_path acc [] = Some acc"
| "entries_by_path acc (raw # rest) =
     (case mapping_of raw of
        None \<Rightarrow> None
      | Some e \<Rightarrow>
          (case (path_from e, sha_of (read e ''sha256''), size_of (read e ''size'')) of
             (Some p, Some h, Some n) \<Rightarrow>
               if map_of acc p \<noteq> None then None else entries_by_path (acc @ [(p, h, n)]) rest
           | _ \<Rightarrow> None))"

definition action_path :: "dict \<Rightarrow> string option" where
  "action_path a = (case mapping_of (read a ''arguments'') of None \<Rightarrow> None | Some args \<Rightarrow> path_from args)"

section \<open>The snapshots\<close>

definition incomplete_suffix :: "json \<Rightarrow> string list \<Rightarrow> string" where
  "incomplete_suffix status known =
     (case status of JStr s \<Rightarrow> if s \<in> set known then s else ''invalid'' | _ \<Rightarrow> ''invalid'')"

definition final_stage :: "dict \<Rightarrow> json list \<Rightarrow> string \<Rightarrow> string \<Rightarrow> int \<Rightarrow> unit stage" where
  "final_stage final entries path digest nbytes =
     (if read final ''status'' \<noteq> JStr ''complete''
      then early digest (''unrecoverable_final_'' @ incomplete_suffix (read final ''status'')
             [''unstable'', ''unsupported'', ''limit_exceeded'', ''legacy_unobserved'', ''unrecoverable''])
             ''final_snapshot_not_complete''
      else case entries_by_path [] entries of
        None \<Rightarrow> early digest ''unrecoverable_final_entries'' ''invalid_final_entries''
      | Some index \<Rightarrow>
          (case map_of index path of
             None \<Rightarrow> early digest ''unrecoverable_final_missing'' ''artifact_missing_from_final''
           | Some (h, n) \<Rightarrow>
               if h \<noteq> digest then early digest ''unrecoverable_final_hash_mismatch'' ''final_hash_mismatch''
               else if n \<noteq> nbytes
               then early digest ''unrecoverable_final_size_mismatch'' ''final_size_mismatch''
               else Inr ()))"

text \<open>The Quest of the baseline and the baseline's entry for the path.\<close>

definition baseline_stage ::
    "dict option \<Rightarrow> json list \<Rightarrow> dict \<Rightarrow> string \<Rightarrow> string \<Rightarrow> (string \<times> (string \<times> int) option) stage" where
  "baseline_stage baseline entries final path digest =
     (case baseline of
        None \<Rightarrow> early digest ''legacy_unobserved'' ''baseline_missing''
      | Some b \<Rightarrow>
          if read b ''status'' = JStr ''legacy_unobserved''
          then early digest ''legacy_unobserved'' ''baseline_legacy''
          else if read b ''status'' \<noteq> JStr ''complete''
          then early digest (''unrecoverable_baseline_'' @ incomplete_suffix (read b ''status'')
                 [''unstable'', ''unsupported'', ''limit_exceeded'', ''unrecoverable''])
                 ''baseline_snapshot_not_complete''
          else case name_of (read b ''quest_id'') of
            None \<Rightarrow> early digest ''unrecoverable_snapshot_binding'' ''snapshot_quest_mismatch''
          | Some quest \<Rightarrow>
              if read final ''quest_id'' \<noteq> JStr quest
              then early digest ''unrecoverable_snapshot_binding'' ''snapshot_quest_mismatch''
              else case entries_by_path [] entries of
                None \<Rightarrow> early digest ''unrecoverable_baseline_entries'' ''invalid_baseline_entries''
              | Some index \<Rightarrow> Inr (quest, map_of index path))"

section \<open>The actions and their observations\<close>

definition unresolved_states :: "string list" where
  "unresolved_states = [''prepared'', ''dispatched'', ''unknown_effect'']"

fun relevant_actions :: "string \<Rightarrow> string \<Rightarrow> json list \<Rightarrow> dict list stage" where
  "relevant_actions digest path [] = Inr []"
| "relevant_actions digest path (raw # rest) =
     (case mapping_of raw of
        None \<Rightarrow> early digest ''unrecoverable_invalid_actions'' ''invalid_action''
      | Some a \<Rightarrow>
          if read a ''tool_name'' \<noteq> JStr ''write_file'' then relevant_actions digest path rest
          else case action_path a of
            None \<Rightarrow> early digest ''unrecoverable_invalid_actions'' ''invalid_action_path''
          | Some p \<Rightarrow>
              if p \<noteq> path then relevant_actions digest path rest
              else if unhashable (read a ''status'')
              then early digest ''unrecoverable_invalid_input'' ''invalid_input''
              else if read a ''status'' \<in> JStr ` set unresolved_states
              then early digest ''unrecoverable_unresolved_effect'' ''unresolved_effect''
              else if read a ''status'' = JStr ''committed''
              then andThen (relevant_actions digest path rest) (\<lambda>as. Inr (a # as))
              else relevant_actions digest path rest)"

fun index_observations ::
    "string \<Rightarrow> (string \<times> dict) list \<Rightarrow> json list \<Rightarrow> (string \<times> dict) list stage" where
  "index_observations digest acc [] = Inr acc"
| "index_observations digest acc (raw # rest) =
     (case mapping_of raw of
        None \<Rightarrow> early digest ''unrecoverable_invalid_observations'' ''invalid_observation''
      | Some ob \<Rightarrow>
          (case name_of (read ob ''action_id'') of
             None \<Rightarrow> early digest ''unrecoverable_invalid_observations'' ''invalid_observation''
           | Some aid \<Rightarrow>
               if map_of acc aid \<noteq> None
               then early digest ''unrecoverable_duplicate_observation'' ''duplicate_observation''
               else index_observations digest (acc @ [(aid, ob)]) rest))"

text \<open>One write of the chain: the event that committed it, the action and its observation.\<close>

record write_step =
  sp_sequence :: int
  sp_action_id :: string
  sp_action :: dict
  sp_observation :: dict

fun bind_actions :: "string \<Rightarrow> (string \<times> dict) list \<Rightarrow> dict list \<Rightarrow> write_step list stage" where
  "bind_actions digest index [] = Inr []"
| "bind_actions digest index (a # as) =
     (case name_of (read a ''action_id'') of
        None \<Rightarrow> early digest ''unrecoverable_action_binding'' ''invalid_action_binding''
      | Some aid \<Rightarrow>
          (case map_of index aid of
             None \<Rightarrow> early digest ''unrecoverable_missing_observation'' ''missing_observation''
           | Some ob \<Rightarrow>
               (case int_of (read ob ''committed_event_sequence'') of
                  None \<Rightarrow> early digest ''unrecoverable_observation_binding'' ''invalid_committed_event_sequence''
                | Some n \<Rightarrow>
                    if n \<le> 0
                    then early digest ''unrecoverable_observation_binding'' ''invalid_committed_event_sequence''
                    else andThen (bind_actions digest index as) (\<lambda>ss. Inr
                      (\<lparr>sp_sequence = n, sp_action_id = aid, sp_action = a, sp_observation = ob\<rparr> # ss)))))"

definition ordered_steps :: "string \<Rightarrow> (string \<times> dict) list \<Rightarrow> dict list \<Rightarrow> write_step list stage" where
  "ordered_steps digest index as =
     andThen (bind_actions digest index as) (\<lambda>ss.
       let ordered = sort_key (\<lambda>s. (sp_sequence s, sp_action_id s)) ss
       in if \<not> distinct (map sp_sequence ordered)
          then early digest ''unrecoverable_event_binding'' ''duplicate_committed_event_sequence''
          else Inr ordered)"

section \<open>The chain of writes\<close>

record chain_state =
  cs_hash :: "string option"
  cs_size :: "int option"
  cs_changed :: bool
  cs_action :: "string option"
  cs_event :: "int option"

definition chain_start :: "(string \<times> int) option \<Rightarrow> chain_state" where
  "chain_start baseline =
     \<lparr>cs_hash = map_option fst baseline, cs_size = map_option snd baseline, cs_changed = False,
      cs_action = None, cs_event = None\<rparr>"

definition observation_bound :: "string \<Rightarrow> string \<Rightarrow> string \<Rightarrow> int \<Rightarrow> dict \<Rightarrow> bool" where
  "observation_bound quest path aid event ob \<longleftrightarrow>
     read ob ''status'' = JStr ''observed'' \<and> read ob ''quest_id'' = JStr quest \<and>
     read ob ''action_id'' = JStr aid \<and> equals_int (read ob ''committed_event_id'') event \<and>
     path_from ob = Some path \<and>
     (read ob ''before_sha256'' = JNull \<or> sha_of (read ob ''before_sha256'') \<noteq> None) \<and>
     sha_of (read ob ''after_sha256'') \<noteq> None \<and> size_of (read ob ''after_size_bytes'') \<noteq> None"

definition expected_kind :: "string option \<Rightarrow> int option \<Rightarrow> string option \<Rightarrow> int option \<Rightarrow> string" where
  "expected_kind hash nbytes after after_size =
     (if hash = None then ''created''
      else if hash = after \<and> nbytes = after_size then ''unchanged'' else ''modified'')"

definition chain_step ::
    "string \<Rightarrow> string \<Rightarrow> string \<Rightarrow> (string \<times> int) option \<Rightarrow> write_step \<Rightarrow> chain_state \<Rightarrow> chain_state stage"
where
  "chain_step digest quest path baseline s c =
     (let ob = sp_observation s; after = sha_of (read ob ''after_sha256'');
          after_size = size_of (read ob ''after_size_bytes'')
      in case int_of (read (sp_action s) ''committed_event_id'') of
           None \<Rightarrow> early digest ''unrecoverable_action_binding'' ''invalid_action_binding''
         | Some event \<Rightarrow>
             if read (sp_action s) ''quest_id'' \<noteq> JStr quest
             then early digest ''unrecoverable_action_binding'' ''invalid_action_binding''
             else if \<not> observation_bound quest path (sp_action_id s) event ob
             then early digest ''unrecoverable_observation_binding'' ''invalid_observation_binding''
             else if sha_of (read ob ''before_sha256'') \<noteq> cs_hash c
             then early digest ''unrecoverable_chain_break'' ''before_hash_mismatch''
             else if read ob ''change_kind'' \<noteq> JStr (expected_kind (cs_hash c) (cs_size c) after after_size)
             then early digest ''unrecoverable_chain_break'' ''change_kind_mismatch''
             else Inr \<lparr>cs_hash = after, cs_size = after_size,
               cs_changed = (cs_changed c \<or> (case baseline of Some b \<Rightarrow> after \<noteq> Some (fst b) | None \<Rightarrow> False)),
               cs_action = Some (sp_action_id s), cs_event = Some event\<rparr>)"

fun chain_run ::
    "string \<Rightarrow> string \<Rightarrow> string \<Rightarrow> (string \<times> int) option \<Rightarrow> write_step list \<Rightarrow> chain_state \<Rightarrow>
     chain_state stage" where
  "chain_run digest quest path baseline [] c = Inr c"
| "chain_run digest quest path baseline (s # ss) c =
     andThen (chain_step digest quest path baseline s c) (chain_run digest quest path baseline ss)"

definition observed_status :: "(string \<times> int) option \<Rightarrow> write_step list \<Rightarrow> chain_state \<Rightarrow> string" where
  "observed_status baseline ss c =
     (case baseline of
        None \<Rightarrow> ''shadow_observed_created''
      | Some b \<Rightarrow>
          if cs_hash c = Some (fst b) \<and> cs_changed c then ''shadow_observed_restored''
          else if list_all (\<lambda>s. read (sp_observation s) ''change_kind'' = JStr ''unchanged'') ss
          then ''shadow_observed_unchanged'' else ''shadow_observed_modified'')"

definition chain_result ::
    "string \<Rightarrow> int \<Rightarrow> (string \<times> int) option \<Rightarrow> write_step list \<Rightarrow> chain_state \<Rightarrow> provenance_result" where
  "chain_result digest nbytes baseline ss c =
     (if cs_hash c \<noteq> Some digest \<or> cs_size c \<noteq> Some nbytes
      then status_result ''unrecoverable_chain_terminal_mismatch'' (Some digest) ''chain_terminal_mismatch''
             (cs_action c) (cs_event c)
      else status_result (observed_status baseline ss c) (Some digest) ''observed_chain_complete''
             (cs_action c) (cs_event c))"

definition unobserved_result :: "string \<Rightarrow> int \<Rightarrow> (string \<times> int) option \<Rightarrow> provenance_result" where
  "unobserved_result digest nbytes baseline =
     status_result
       (case baseline of
          None \<Rightarrow> ''shadow_unobserved_created''
        | Some (h, n) \<Rightarrow> if h = digest \<and> n = nbytes then ''shadow_existing_unchanged'' else ''shadow_external_drift'')
       (Some digest) ''no_observed_action'' None None"

text \<open>What the writes of the Quest say, once the snapshots are accepted.\<close>

definition writes_stage ::
    "string \<Rightarrow> string \<Rightarrow> int \<Rightarrow> json list \<Rightarrow> json list \<Rightarrow> string \<times> (string \<times> int) option \<Rightarrow>
     provenance_result stage" where
  "writes_stage path digest nbytes acts obs = (\<lambda>(quest, baseline).
     andThen (relevant_actions digest path acts) (\<lambda>relevant.
       if relevant = [] then Inr (unobserved_result digest nbytes baseline)
       else andThen (index_observations digest [] obs) (\<lambda>index.
            andThen (ordered_steps digest index relevant) (\<lambda>ss.
            andThen (chain_run digest quest path baseline ss (chain_start baseline)) (\<lambda>c.
              Inr (chain_result digest nbytes baseline ss c))))))"

fun stage_result :: "provenance_result stage \<Rightarrow> provenance_result" where
  "stage_result (Inl r) = r"
| "stage_result (Inr r) = r"

definition classify_artifact_provenance ::
    "json \<Rightarrow> json \<Rightarrow> json \<Rightarrow> json \<Rightarrow> json \<Rightarrow> json \<Rightarrow> json \<Rightarrow> provenance_result" where
  "classify_artifact_provenance artifact baseline bentries final fentries writes seen =
     (case (mapping_of artifact, mapping_of final, sequence_of bentries, sequence_of fentries,
            sequence_of writes, sequence_of seen) of
        (Some a, Some f, Some bs, Some fs, Some acts, Some obs) \<Rightarrow>
          (case artifact_values a of
             None \<Rightarrow> status_result ''unrecoverable_invalid_artifact'' None ''invalid_artifact'' None None
           | Some (path, digest, nbytes) \<Rightarrow> stage_result
               (andThen (final_stage f fs path digest nbytes) (\<lambda>_.
                andThen (baseline_stage (mapping_of baseline) bs f path digest)
                  (writes_stage path digest nbytes acts obs))))
      | _ \<Rightarrow> status_result ''unrecoverable_invalid_input'' None ''invalid_input'' None None)"

definition claims_observed :: "provenance_result \<Rightarrow> bool" where
  "claims_observed r \<longleftrightarrow> starts_with (ps_status r) ''shadow_observed_''"

end
