(* ===== verification/Leases.thy ===== *)
theory Leases
  imports Event_Store
begin

text \<open>
  The execution leases and the resource leases of \<^verbatim>\<open>V1Storage\<close>. \<open>clock\<close> is the value of
  \<^verbatim>\<open>time.time()\<close>; a lease is live while its expiry is after the clock. Times are exact
  rationals, so the rounding of the sum of two floats is not modelled.
\<close>

definition find_lease :: "db \<Rightarrow> string \<Rightarrow> lease_row option" where
  "find_lease d qid = select_one (\<lambda>l. l_quest l = qid) (leases d)"

text \<open>\<^verbatim>\<open>DELETE\<close> then \<^verbatim>\<open>INSERT\<close>, the Quest being a foreign key.\<close>

definition put_lease :: "string \<Rightarrow> string \<Rightarrow> rat \<Rightarrow> db \<Rightarrow> db result" where
  "put_lease qid owner expires d =
     (if find_quest d qid = None then Inl (IntegrityError ''v1_leases'')
      else Inr (d\<lparr>leases := filter (\<lambda>l. l_quest l \<noteq> qid) (leases d) @
             [\<lparr>l_quest = qid, l_owner = owner, l_expires = expires\<rparr>]\<rparr>))"

definition acquire_lease :: "string \<Rightarrow> string \<Rightarrow> rat \<Rightarrow> rat \<Rightarrow> db \<Rightarrow> (bool \<times> db) result" where
  "acquire_lease qid owner ttl clock d =
     (if ttl \<le> 0 then Inl (ValueError ''lease ttl must be positive'')
      else case find_lease d qid of
        Some l \<Rightarrow> if clock < l_expires l then Inr (False, d)
                  else andThen (put_lease qid owner (clock + ttl) d) (\<lambda>d'. Inr (True, d'))
      | None \<Rightarrow> andThen (put_lease qid owner (clock + ttl) d) (\<lambda>d'. Inr (True, d')))"

definition active_statuses :: "json list" where
  "active_statuses = map JStr
     [''planned'', ''recovering'', ''running'', ''verifying'', ''replanning'']"

definition admission_patch :: "dict \<Rightarrow> string \<Rightarrow> dict" where
  "admission_patch state admitted_at =
     [(''status'', JStr ''running''), (''error'', JNull)] @
     (if dict_get_or state ''started_at'' JNull = JNull
      then [(''started_at'', JStr admitted_at)] else [])"

definition admit_execution ::
    "(json \<Rightarrow> string) \<Rightarrow> string \<Rightarrow> string \<Rightarrow> rat \<Rightarrow> nat \<Rightarrow> string \<Rightarrow> rat \<Rightarrow> string \<Rightarrow> db \<Rightarrow>
     (event_row option \<times> db) result" where
  "admit_execution sha qid owner ttl expected admitted_at clock now d =
     (if ttl \<le> 0 \<or> owner = [] \<or> admitted_at = []
      then Inl (ValueError ''execution admission is invalid'')
      else case find_quest d qid of
        None \<Rightarrow> Inl (KeyError qid)
      | Some row \<Rightarrow>
          if q_version row \<noteq> expected then Inl (ValueError ''state version conflict'')
          else if dict_get_or (q_state row) ''status'' JNull \<notin> set active_statuses
          then Inl (ValueError ''quest is not active'')
          else if (case find_lease d qid of
                     Some l \<Rightarrow> clock < l_expires l \<and> l_owner l \<noteq> owner | None \<Rightarrow> False)
          then Inr (None, d)
          else andThen (put_lease qid owner (clock + ttl) d) (\<lambda>d1.
            andThen (append_locked sha qid ''ExecutionAdmitted''
                       (admission_patch (q_state row) admitted_at)
                       expected EVENT_SCHEMA_VERSION now d1) (\<lambda>(ev, d2).
            Inr (Some ev, d2))))"

definition renew_lease :: "string \<Rightarrow> string \<Rightarrow> rat \<Rightarrow> rat \<Rightarrow> db \<Rightarrow> (bool \<times> db) result" where
  "renew_lease qid owner ttl clock d =
     (if ttl \<le> 0 \<or> owner = [] then Inl (ValueError ''lease renewal is invalid'')
      else
        let hit = (\<lambda>l. l_quest l = qid \<and> l_owner l = owner \<and> clock < l_expires l)
        in Inr (length (filter hit (leases d)) = 1,
                d\<lparr>leases := update_where hit (\<lambda>l. l\<lparr>l_expires := clock + ttl\<rparr>) (leases d)\<rparr>))"

definition release_lease :: "string \<Rightarrow> string \<Rightarrow> db \<Rightarrow> bool \<times> db" where
  "release_lease qid owner d =
     (let hit = (\<lambda>l. l_quest l = qid \<and> l_owner l = owner)
      in (filter hit (leases d) \<noteq> [], d\<lparr>leases := filter (\<lambda>l. \<not> hit l) (leases d)\<rparr>))"

section \<open>Resource leases\<close>

definition find_resource_lease :: "db \<Rightarrow> string \<Rightarrow> resource_lease_row option" where
  "find_resource_lease d key = select_one (\<lambda>l. rl_key l = key) (resource_leases d)"

definition put_resource_lease :: "string \<Rightarrow> string \<Rightarrow> string \<Rightarrow> rat \<Rightarrow> db \<Rightarrow> db result" where
  "put_resource_lease key qid owner expires d =
     (if find_quest d qid = None then Inl (IntegrityError ''v1_resource_leases'')
      else Inr (d\<lparr>resource_leases := filter (\<lambda>l. rl_key l \<noteq> key) (resource_leases d) @
             [\<lparr>rl_key = key, rl_quest = qid, rl_owner = owner, rl_expires = expires\<rparr>]\<rparr>))"

definition acquire_resource_lease ::
    "string \<Rightarrow> string \<Rightarrow> string \<Rightarrow> rat \<Rightarrow> rat \<Rightarrow> db \<Rightarrow> (bool \<times> db) result" where
  "acquire_resource_lease key qid owner ttl clock d =
     (if ttl \<le> 0 then Inl (ValueError ''lease ttl must be positive'')
      else case find_resource_lease d key of
        Some l \<Rightarrow> if clock < rl_expires l then Inr (rl_quest l = qid \<and> rl_owner l = owner, d)
                  else andThen (put_resource_lease key qid owner (clock + ttl) d)
                         (\<lambda>d'. Inr (True, d'))
      | None \<Rightarrow> andThen (put_resource_lease key qid owner (clock + ttl) d)
                  (\<lambda>d'. Inr (True, d')))"

definition release_resource_lease :: "string \<Rightarrow> string \<Rightarrow> string \<Rightarrow> db \<Rightarrow> bool \<times> db" where
  "release_resource_lease key qid owner d =
     (let hit = (\<lambda>l. rl_key l = key \<and> rl_quest l = qid \<and> rl_owner l = owner)
      in (filter hit (resource_leases d) \<noteq> [],
          d\<lparr>resource_leases := filter (\<lambda>l. \<not> hit l) (resource_leases d)\<rparr>))"

definition clear_runtime_leases_on_startup :: "db \<Rightarrow> (nat \<times> nat) \<times> db" where
  "clear_runtime_leases_on_startup d =
     ((length (leases d), length (resource_leases d)), d\<lparr>leases := [], resource_leases := []\<rparr>)"

end
