(* ===== verification/Json_Text.thy ===== *)
theory Json_Text
  imports Json "HOL-Library.Sublist"
begin

text \<open>
  The text \<^verbatim>\<open>json.dumps(value, sort_keys=True, separators=(",", ":"), ensure_ascii=False)\<close> of a
  value, as the bytes of its UTF-8 encoding (a string of the model is the list of its bytes). The
  representation of a float is a parameter \<open>fl\<close>.
\<close>

definition digit :: "nat \<Rightarrow> char" where
  "digit n = char_of (48 + n)"

fun nat_text :: "nat \<Rightarrow> string" where
  "nat_text n = (if n < 10 then [digit n] else nat_text (n div 10) @ [digit (n mod 10)])"

declare nat_text.simps [simp del]

definition int_text :: "int \<Rightarrow> string" where
  "int_text n = (if n < 0 then CHR ''-'' # nat_text (nat (- n)) else nat_text (nat n))"

definition hex_digit :: "nat \<Rightarrow> char" where
  "hex_digit n = ''0123456789abcdef'' ! n"

definition escape_char :: "char \<Rightarrow> string" where
  "escape_char c =
     (let n = of_char c :: nat; bs = char_of (92 :: nat)
      in if n = 34 then [bs, c] else if n = 92 then [bs, c]
         else if n = 10 then [bs, CHR ''n''] else if n = 13 then [bs, CHR ''r'']
         else if n = 9 then [bs, CHR ''t''] else if n = 8 then [bs, CHR ''b'']
         else if n = 12 then [bs, CHR ''f'']
         else if n < 32 then [bs] @ ''u00'' @ [hex_digit (n div 16), hex_digit (n mod 16)]
         else [c])"

definition quoted :: "string \<Rightarrow> string" where
  "quoted s = (let q = char_of (34 :: nat) in [q] @ concat (map escape_char s) @ [q])"

fun join :: "string \<Rightarrow> string list \<Rightarrow> string" where
  "join sep [] = []"
| "join sep [x] = x"
| "join sep (x # y # xs) = x @ sep @ join sep (y # xs)"

fun value_text :: "(rat \<Rightarrow> string) \<Rightarrow> json \<Rightarrow> string" where
  "value_text fl JNull = ''null''"
| "value_text fl (JBool b) = (if b then ''true'' else ''false'')"
| "value_text fl (JInt n) = int_text n"
| "value_text fl (JFloat x) = fl x"
| "value_text fl (JStr s) = quoted s"
| "value_text fl (JList xs) = ''['' @ join '','' (map (value_text fl) xs) @ '']''"
| "value_text fl (JObj d) =
     ''{'' @ join '','' (map (\<lambda>(k, v). quoted k @ '':'' @ value_text fl v) d) @ ''}''"

definition json_text :: "(rat \<Rightarrow> string) \<Rightarrow> json \<Rightarrow> string" where
  "json_text fl v = value_text fl (canon v)"

end
