(* ===== verification/Sandbox.thy ===== *)
theory Sandbox
  imports Json_Text
begin

text \<open>
  The file sandbox of \<^verbatim>\<open>backend/app/tools.py\<close> (class \<^verbatim>\<open>Sandbox\<close>) on a file system with symbolic
  links. A file system maps absolute paths (the list of their components) to nodes; \<open>realpath\<close> is
  \<^verbatim>\<open>Path.resolve(strict=False)\<close> on POSIX, with a bound \<open>sb_links\<close> on the links one resolution
  follows. An operation is a function of the state that returns its outcome (the exception it
  raises, or its value) and the new state; state changes made before an exception stay.
\<close>

section \<open>Exceptions and effects\<close>

text \<open>
  \<^verbatim>\<open>ToolError\<close> with its code, message and details, \<^verbatim>\<open>InjectedFault\<close> with its point, \<^verbatim>\<open>AppError\<close>
  with its code, message and HTTP status, any other exception with its class and message.
\<close>

datatype exc =
    ToolExc string string dict
  | InjectedFault string
  | AppExc string string nat
  | OtherExc string string

type_synonym 'a outcome = "exc + 'a"
type_synonym ('s, 'a) act = "'s \<Rightarrow> 'a outcome \<times> 's"

definition act_return :: "'a \<Rightarrow> ('s, 'a) act" where
  "act_return x s = (Inr x, s)"

definition act_raise :: "exc \<Rightarrow> ('s, 'a) act" where
  "act_raise e s = (Inl e, s)"

definition act_bind :: "('s, 'a) act \<Rightarrow> ('a \<Rightarrow> ('s, 'b) act) \<Rightarrow> ('s, 'b) act" where
  "act_bind m f s = (case m s of (Inl e, s') \<Rightarrow> (Inl e, s') | (Inr x, s') \<Rightarrow> f x s')"

lemma act_bind_Inr_iff [result_simps]:
  "act_bind m f s = (Inr y, s') \<longleftrightarrow> (\<exists>x s1. m s = (Inr x, s1) \<and> f x s1 = (Inr y, s'))"
  by (auto simp: act_bind_def split: prod.splits sum.splits)

lemma act_bind_return [simp]: "act_bind (act_return x) f = f x"
  by (rule ext) (simp add: act_bind_def act_return_def)

lemma act_bind_raise [simp]: "act_bind (act_raise e) f = act_raise e"
  by (rule ext) (simp add: act_bind_def act_raise_def)

lemma act_return_iff [simp]: "act_return x s = (r, s') \<longleftrightarrow> r = Inr x \<and> s' = s"
  by (auto simp: act_return_def)

lemma act_raise_iff [simp]: "act_raise e s = (r, s') \<longleftrightarrow> r = Inl e \<and> s' = s"
  by (auto simp: act_raise_def)

section \<open>The file system\<close>

type_synonym path = "string list"

datatype node = RegFile string | Directory | Link string | Special

type_synonym fs = "path \<rightharpoonup> node"

text \<open>\<^verbatim>\<open>Path(s)\<close>: the components, without the empty ones and the dots.\<close>

definition path_parts :: "string \<Rightarrow> path" where
  "path_parts s = filter (\<lambda>c. c \<noteq> [] \<and> c \<noteq> ''.'') (py_split (CHR ''/'') s)"

definition is_absolute :: "string \<Rightarrow> bool" where
  "is_absolute s \<longleftrightarrow> starts_with s ''/''"

definition as_posix :: "path \<Rightarrow> string" where
  "as_posix p = join ''/'' p"

function realpath :: "fs \<Rightarrow> nat \<Rightarrow> path \<Rightarrow> string list \<Rightarrow> path option" where
  "realpath w n p [] = Some p"
| "realpath w n p (c # cs) =
     (if c = [] \<or> c = ''.'' then realpath w n p cs
      else if c = ''..'' then realpath w n (butlast p) cs
      else case w (p @ [c]) of
        Some (Link t) \<Rightarrow>
          (case n of 0 \<Rightarrow> None
           | Suc n' \<Rightarrow> realpath w n' (if is_absolute t then [] else p) (py_split (CHR ''/'') t @ cs))
      | _ \<Rightarrow> realpath w n (p @ [c]) cs)"
  by pat_completeness auto
termination
  by (relation "measures [\<lambda>(w, n, p, cs). n, \<lambda>(w, n, p, cs). length cs]") auto

text \<open>A path none of whose non-empty prefixes is a symbolic link.\<close>

definition no_links :: "fs \<Rightarrow> path \<Rightarrow> bool" where
  "no_links w p \<longleftrightarrow> (\<forall>k t. 0 < k \<longrightarrow> k \<le> length p \<longrightarrow> w (take k p) \<noteq> Some (Link t))"

lemma no_links_Nil [simp]: "no_links w []"
  by (simp add: no_links_def)

lemma no_links_butlast: "no_links w p \<Longrightarrow> no_links w (butlast p)"
  by (auto simp: no_links_def butlast_conv_take min_def split: if_splits)

lemma no_links_snoc: "no_links w (p @ [c]) \<longleftrightarrow> no_links w p \<and> (\<forall>t. w (p @ [c]) \<noteq> Some (Link t))"
  by (auto simp: no_links_def le_Suc_eq)

lemma realpath_skip: "c = [] \<or> c = ''.'' \<Longrightarrow> realpath w n p (c # cs) = realpath w n p cs"
  by auto

lemma realpath_up: "realpath w n p (''..'' # cs) = realpath w n (butlast p) cs"
  by simp

lemma realpath_name:
  assumes "c \<noteq> []" "c \<noteq> ''.''" "c \<noteq> ''..''" "\<forall>t. w (p @ [c]) \<noteq> Some (Link t)"
  shows "realpath w n p (c # cs) = realpath w n (p @ [c]) cs"
  using assms by (auto split: option.splits node.splits)

lemma realpath_link:
  assumes "c \<noteq> []" "c \<noteq> ''.''" "c \<noteq> ''..''" "w (p @ [c]) = Some (Link t)"
  shows "realpath w n p (c # cs) = (case n of 0 \<Rightarrow> None
    | Suc n' \<Rightarrow> realpath w n' (if is_absolute t then [] else p) (py_split (CHR ''/'') t @ cs))"
  using assms by (simp del: py_split.simps)

declare realpath.simps(2) [simp del]

text \<open>The five ways one component is consumed.\<close>

lemma realpath_cases [consumes 1, case_names skip up name link]:
  assumes "realpath w n p (c # cs) = Some q"
  obtains "c = [] \<or> c = ''.''" "realpath w n p cs = Some q"
  | "c = ''..''" "realpath w n (butlast p) cs = Some q"
  | "c \<noteq> []" "c \<noteq> ''.''" "c \<noteq> ''..''" "\<forall>t. w (p @ [c]) \<noteq> Some (Link t)"
    "realpath w n (p @ [c]) cs = Some q"
  | t n' where "c \<noteq> []" "c \<noteq> ''.''" "c \<noteq> ''..''" "w (p @ [c]) = Some (Link t)" "n = Suc n'"
    "realpath w n' (if is_absolute t then [] else p) (py_split (CHR ''/'') t @ cs) = Some q"
proof -
  consider "c = [] \<or> c = ''.''" | "c = ''..''"
    | "c \<noteq> []" "c \<noteq> ''.''" "c \<noteq> ''..''" "\<forall>t. w (p @ [c]) \<noteq> Some (Link t)"
    | t where "c \<noteq> []" "c \<noteq> ''.''" "c \<noteq> ''..''" "w (p @ [c]) = Some (Link t)" by blast
  then show ?thesis
  proof cases
    case 1
    then show ?thesis using assms that(1) realpath_skip by metis
  next
    case 2
    then show ?thesis using assms that(2) by (simp add: realpath_up)
  next
    case 3
    then show ?thesis using assms that(3) realpath_name by metis
  next
    case 4
    then show ?thesis using assms that(4) realpath_link [of c w p t, OF 4] by (cases n) auto
  qed
qed

text \<open>Induction over a successful resolution.\<close>

lemma realpath_induct [consumes 1, case_names nil skip up name link]:
  assumes "realpath w n p cs = Some q"
    and "\<And>n. P n q []"
    and "\<And>n p c cs. c = [] \<or> c = ''.'' \<Longrightarrow> realpath w n p cs = Some q \<Longrightarrow> P n p cs \<Longrightarrow> P n p (c # cs)"
    and "\<And>n p cs. realpath w n (butlast p) cs = Some q \<Longrightarrow> P n (butlast p) cs \<Longrightarrow> P n p (''..'' # cs)"
    and "\<And>n p c cs. c \<noteq> [] \<Longrightarrow> c \<noteq> ''.'' \<Longrightarrow> c \<noteq> ''..'' \<Longrightarrow> \<forall>t. w (p @ [c]) \<noteq> Some (Link t) \<Longrightarrow>
      realpath w n (p @ [c]) cs = Some q \<Longrightarrow> P n (p @ [c]) cs \<Longrightarrow> P n p (c # cs)"
    and "\<And>n p c cs t. c \<noteq> [] \<Longrightarrow> c \<noteq> ''.'' \<Longrightarrow> c \<noteq> ''..'' \<Longrightarrow> w (p @ [c]) = Some (Link t) \<Longrightarrow>
      realpath w n (if is_absolute t then [] else p) (py_split (CHR ''/'') t @ cs) = Some q \<Longrightarrow>
      P n (if is_absolute t then [] else p) (py_split (CHR ''/'') t @ cs) \<Longrightarrow> P (Suc n) p (c # cs)"
  shows "P n p cs"
proof -
  have "realpath w n p cs = Some q \<Longrightarrow> P n p cs"
  proof (induction n arbitrary: p cs rule: less_induct)
    case outer: (less n)
    from outer.prems show ?case
    proof (induction cs arbitrary: p)
      case Nil
      then show ?case using assms(2) by simp
    next
      case (Cons c cs)
      from Cons.prems show ?case
      proof (cases rule: realpath_cases)
        case skip
        then show ?thesis using assms(3) Cons.IH by blast
      next
        case up
        then show ?thesis using assms(4) Cons.IH by blast
      next
        case name
        then show ?thesis using assms(5) Cons.IH by blast
      next
        case (link t n')
        then show ?thesis using assms(6) outer.IH by (simp del: if_split)
      qed
    qed
  qed
  then show ?thesis using assms(1) by blast
qed

lemma realpath_no_links:
  "realpath w n p cs = Some q \<Longrightarrow> no_links w p \<Longrightarrow> no_links w q"
  by (induction rule: realpath_induct) (auto simp: no_links_butlast no_links_snoc split: if_splits)

text \<open>More links may be followed without changing a resolution that succeeds.\<close>

lemma realpath_mono:
  assumes "realpath w n p cs = Some q" and "n \<le> m"
  shows "realpath w m p cs = Some q"
proof -
  have "\<forall>m \<ge> n. realpath w m p cs = Some q"
    using assms(1)
  proof (induction rule: realpath_induct)
    case (link n p c cs t)
    then show ?case
      using realpath_link [of c w p t, OF link(1-4)] by (auto simp: Suc_le_eq gr0_conv_Suc split: nat.splits)
  qed (simp_all add: realpath_skip realpath_up realpath_name)
  then show ?thesis using assms(2) by blast
qed

section \<open>Resolving a path\<close>

record sandbox =
  sb_root :: path
  sb_max_bytes :: nat
  sb_links :: nat

definition nul :: char where
  "nul = CHR 0x00"

definition is_within :: "path \<Rightarrow> path \<Rightarrow> bool" where
  "is_within candidate parent \<longleftrightarrow> prefix parent candidate"

definition symlink_loop :: exc where
  "symlink_loop = OtherExc ''RuntimeError'' ''Symlink loop''"

text \<open>\<^verbatim>\<open>mkdir(parents=True, exist_ok=True)\<close> of a path that was resolved.\<close>

fun mkdir_walk :: "path \<Rightarrow> string list \<Rightarrow> fs \<Rightarrow> fs outcome" where
  "mkdir_walk p [] w = Inr w"
| "mkdir_walk p (c # cs) w =
     (case w (p @ [c]) of
        None \<Rightarrow> mkdir_walk (p @ [c]) cs (w(p @ [c] \<mapsto> Directory))
      | Some Directory \<Rightarrow> mkdir_walk (p @ [c]) cs w
      | Some _ \<Rightarrow> Inl (OtherExc (if cs = [] then ''FileExistsError'' else ''NotADirectoryError'') []))"

definition mkdirs :: "path \<Rightarrow> (fs, unit) act" where
  "mkdirs p w = (case mkdir_walk [] p w of Inl e \<Rightarrow> (Inl e, w) | Inr w' \<Rightarrow> (Inr (), w'))"

definition workspace_path :: "sandbox \<Rightarrow> string \<Rightarrow> bool \<Rightarrow> (fs, path) act" where
  "workspace_path sb ws create w =
     (if ws = [] \<or> nul \<in> set ws
      then (Inl (ToolExc ''INVALID_PATH'' ''Workspace path is empty or invalid'' []), w)
      else if is_absolute ws
      then (Inl (ToolExc ''PATH_OUTSIDE_SANDBOX''
              ''Workspace must be a relative path inside the sandbox''
              [(''workspace'', JStr ws)]), w)
      else case realpath w (sb_links sb) [] (sb_root sb @ path_parts ws) of
        None \<Rightarrow> (Inl symlink_loop, w)
      | Some resolved \<Rightarrow>
          if \<not> is_within resolved (sb_root sb)
          then (Inl (ToolExc ''PATH_OUTSIDE_SANDBOX''
                  ''Workspace resolves outside the configured sandbox''
                  [(''workspace'', JStr ws)]), w)
          else if create then act_bind (mkdirs resolved) (\<lambda>_. act_return resolved) w
          else (Inr resolved, w))"

definition sandbox_resolve ::
    "sandbox \<Rightarrow> string \<Rightarrow> string \<Rightarrow> bool \<Rightarrow> bool \<Rightarrow> bool \<Rightarrow> (fs, path) act" where
  "sandbox_resolve sb ws rel must_exist expect_directory create_workspace =
     act_bind (workspace_path sb ws create_workspace) (\<lambda>workspace_root w.
       if nul \<in> set rel then (Inl (ToolExc ''INVALID_PATH'' ''Path is invalid'' []), w)
       else if is_absolute rel
       then (Inl (ToolExc ''PATH_OUTSIDE_WORKSPACE''
               ''Tool paths must be relative to the Quest workspace''
               [(''path'', JStr rel)]), w)
       else case realpath w (sb_links sb) [] (workspace_root @ path_parts rel) of
         None \<Rightarrow> (Inl symlink_loop, w)
       | Some candidate \<Rightarrow>
           if \<not> is_within candidate workspace_root
           then (Inl (ToolExc ''PATH_OUTSIDE_WORKSPACE''
                   ''Tool path resolves outside the Quest workspace''
                   [(''path'', JStr rel)]), w)
           else if must_exist \<and> w candidate = None
           then (Inl (ToolExc ''PATH_NOT_FOUND'' ''Requested path does not exist''
                   [(''path'', JStr rel)]), w)
           else if expect_directory \<and> w candidate \<noteq> None \<and> w candidate \<noteq> Some Directory
           then (Inl (ToolExc ''NOT_A_DIRECTORY'' ''Requested path is not a directory''
                   [(''path'', JStr rel)]), w)
           else (Inr candidate, w))"

definition display_path :: "sandbox \<Rightarrow> string \<Rightarrow> path \<Rightarrow> (fs, string) act" where
  "display_path sb ws p =
     act_bind (workspace_path sb ws False) (\<lambda>workspace_root.
       if is_within p workspace_root
       then (let rest = drop (length workspace_root) p
             in act_return (if rest = [] then ''.'' else as_posix rest))
       else act_raise (OtherExc ''ValueError'' []))"

end
