(* ===== verification/Tools.thy ===== *)
theory Tools
  imports Sandbox
begin

text \<open>
  The file tools of \<^verbatim>\<open>backend/app/tools.py\<close>: \<^verbatim>\<open>_write_file\<close>, \<^verbatim>\<open>_read_file\<close> and \<^verbatim>\<open>_check_markdown\<close>
  on the sandbox, with Python's text handling (UTF-8 decoding, universal newlines, line splitting)
  written out, and the registry that dispatches a call to a tool by name.
\<close>

section \<open>Text\<close>

text \<open>The code points of a UTF-8 text, \<open>None\<close> where \<^verbatim>\<open>bytes.decode\<close> raises \<^verbatim>\<open>UnicodeDecodeError\<close>.\<close>

definition byte :: "char \<Rightarrow> nat" where
  "byte c = of_char c"

definition cont :: "char \<Rightarrow> bool" where
  "cont c \<longleftrightarrow> 128 \<le> byte c \<and> byte c < 192"

fun utf8_decode :: "string \<Rightarrow> nat list option" where
  "utf8_decode [] = Some []"
| "utf8_decode (a # r) =
     (if byte a < 128 then map_option ((#) (byte a)) (utf8_decode r)
      else if 194 \<le> byte a \<and> byte a < 224 then
        (case r of b # r' \<Rightarrow>
           if cont b then map_option ((#) ((byte a - 192) * 64 + (byte b - 128))) (utf8_decode r')
           else None
         | _ \<Rightarrow> None)
      else if 224 \<le> byte a \<and> byte a < 240 then
        (case r of b # c # r' \<Rightarrow>
           (let v = (byte a - 224) * 4096 + (byte b - 128) * 64 + (byte c - 128)
            in if cont b \<and> cont c \<and> 2048 \<le> v \<and> \<not> (55296 \<le> v \<and> v < 57344)
               then map_option ((#) v) (utf8_decode r') else None)
         | _ \<Rightarrow> None)
      else if 240 \<le> byte a \<and> byte a < 245 then
        (case r of b # c # d # r' \<Rightarrow>
           (let v = (byte a - 240) * 262144 + (byte b - 128) * 4096 + (byte c - 128) * 64 + (byte d - 128)
            in if cont b \<and> cont c \<and> cont d \<and> 65536 \<le> v \<and> v < 1114112
               then map_option ((#) v) (utf8_decode r') else None)
         | _ \<Rightarrow> None)
      else None)"

text \<open>\<^verbatim>\<open>str.isspace\<close> of a code point, and the blank test \<^verbatim>\<open>not s.strip()\<close>.\<close>

definition is_space :: "nat \<Rightarrow> bool" where
  "is_space n \<longleftrightarrow> (9 \<le> n \<and> n \<le> 13) \<or> (28 \<le> n \<and> n \<le> 32) \<or>
     n \<in> {133, 160, 5760, 8232, 8233, 8239, 8287, 12288} \<or> (8192 \<le> n \<and> n \<le> 8202)"

definition points :: "string \<Rightarrow> nat list" where
  "points s = (case utf8_decode s of Some ps \<Rightarrow> ps | None \<Rightarrow> [])"

definition is_blank :: "string \<Rightarrow> bool" where
  "is_blank s = list_all is_space (points s)"

text \<open>Universal newlines: \<^verbatim>\<open>\r\n\<close> and \<^verbatim>\<open>\r\<close> are read as \<^verbatim>\<open>\n\<close>.\<close>

fun read_newlines :: "string \<Rightarrow> string" where
  "read_newlines [] = []"
| "read_newlines (c # cs) =
     (if byte c = 13 then
        char_of (10 :: nat) #
          read_newlines (if cs \<noteq> [] \<and> byte (hd cs) = 10 then tl cs else cs)
      else c # read_newlines cs)"

definition line_break :: "nat \<Rightarrow> bool" where
  "line_break n \<longleftrightarrow> (10 \<le> n \<and> n \<le> 13) \<or> (28 \<le> n \<and> n \<le> 30) \<or> n \<in> {133, 8232, 8233}"

text \<open>\<^verbatim>\<open>str.splitlines()\<close>, with the current line read so far (reversed).\<close>

fun split_lines :: "nat list \<Rightarrow> nat list \<Rightarrow> nat list list" where
  "split_lines acc [] = (if acc = [] then [] else [rev acc])"
| "split_lines acc (x # xs) =
     (if line_break x then
        rev acc # split_lines [] (if x = 13 \<and> xs \<noteq> [] \<and> hd xs = 10 then tl xs else xs)
      else split_lines (x # acc) xs)"

definition text_lines :: "string \<Rightarrow> nat list list" where
  "text_lines s = split_lines [] (points s)"

text \<open>A line that opens or closes a Markdown code fence.\<close>

definition is_fence :: "nat list \<Rightarrow> bool" where
  "is_fence line =
     (let l = take 3 (dropWhile is_space line) in l = [96, 96, 96] \<or> l = [126, 126, 126])"

definition fence_count :: "string \<Rightarrow> nat" where
  "fence_count s = length (filter is_fence (text_lines s))"

section \<open>Arguments\<close>

definition required_string :: "dict \<Rightarrow> string \<Rightarrow> (fs, string) act" where
  "required_string args name =
     (case dict_get args name of
        Some (JStr v) \<Rightarrow>
          if is_blank v
          then act_raise (ToolExc ''INVALID_TOOL_ARGUMENTS'' ([CHR 0x27] @ name @ [CHR 0x27] @
                 '' must be a non-empty string'') [(''argument'', JStr name)])
          else act_return v
      | _ \<Rightarrow> act_raise (ToolExc ''INVALID_TOOL_ARGUMENTS'' ([CHR 0x27] @ name @ [CHR 0x27] @
                 '' must be a non-empty string'') [(''argument'', JStr name)]))"

section \<open>Reading\<close>

record read_result =
  rr_path :: string
  rr_content :: string
  rr_size :: nat
  rr_lines :: nat

definition read_file :: "sandbox \<Rightarrow> string \<Rightarrow> dict \<Rightarrow> (fs, read_result) act" where
  "read_file sb ws args =
     act_bind (required_string args ''path'') (\<lambda>rel.
     act_bind (sandbox_resolve sb ws rel True False True) (\<lambda>p w.
       case w p of
         Some (RegFile bytes) \<Rightarrow>
           if length bytes > sb_max_bytes sb
           then (Inl (ToolExc ''FILE_TOO_LARGE'' ''File exceeds the configured read limit''
                   [(''path'', JStr rel), (''size_bytes'', JInt (int (length bytes))),
                    (''limit'', JInt (int (sb_max_bytes sb)))]), w)
           else if utf8_decode bytes = None
           then (Inl (ToolExc ''INVALID_TEXT_ENCODING'' ''Only UTF-8 text files can be read''
                   [(''path'', JStr rel)]), w)
           else act_bind (display_path sb ws p) (\<lambda>shown. act_return
                  \<lparr>rr_path = shown, rr_content = read_newlines bytes, rr_size = length bytes,
                   rr_lines = length (text_lines (read_newlines bytes))\<rparr>) w
       | _ \<Rightarrow> (Inl (ToolExc ''NOT_A_FILE'' ''Requested path is not a file'' [(''path'', JStr rel)]), w)))"

definition read_file_json :: "read_result \<Rightarrow> dict" where
  "read_file_json r =
     [(''path'', JStr (rr_path r)), (''content'', JStr (rr_content r)),
      (''size_bytes'', JInt (int (rr_size r))), (''line_count'', JInt (int (rr_lines r)))]"

section \<open>Writing\<close>

text \<open>\<^verbatim>\<open>Path.suffix\<close> of a file name.\<close>

definition name_suffix :: "string \<Rightarrow> string" where
  "name_suffix name =
     (let ext = rev (takeWhile (\<lambda>c. c \<noteq> CHR ''.'') (rev name))
      in if ext \<noteq> [] \<and> length ext + 1 < length name then CHR ''.'' # ext else [])"

definition path_suffix :: "path \<Rightarrow> string" where
  "path_suffix p = (if p = [] then [] else name_suffix (last p))"

definition allowed_write_suffixes :: "string list" where
  "allowed_write_suffixes = [''.json'', ''.md'', ''.py'', ''.toml'', ''.txt'', ''.yaml'', ''.yml'']"

text \<open>The temporary file beside the target is gone again when the tool returns or raises.\<close>

definition replace_file :: "path \<Rightarrow> string \<Rightarrow> (fs, unit) act" where
  "replace_file p content w =
     (if w p = Some Directory then (Inl (OtherExc ''IsADirectoryError'' []), w)
      else (Inr (), w(p \<mapsto> RegFile content)))"

definition write_file :: "sandbox \<Rightarrow> string \<Rightarrow> dict \<Rightarrow> (fs, dict) act" where
  "write_file sb ws args =
     act_bind (required_string args ''path'') (\<lambda>rel.
     case dict_get args ''content'' of
       Some (JStr content) \<Rightarrow>
         act_bind (sandbox_resolve sb ws rel False False True) (\<lambda>p.
           if str_lower (path_suffix p) \<notin> set allowed_write_suffixes
           then act_raise (ToolExc ''FILE_TYPE_NOT_ALLOWED''
                  ''The requested file extension is not writable by this sandbox''
                  [(''path'', JStr rel),
                   (''allowed_extensions'', JList (map JStr allowed_write_suffixes))])
           else if length content > sb_max_bytes sb
           then act_raise (ToolExc ''FILE_TOO_LARGE'' ''Content exceeds the configured write limit''
                  [(''size_bytes'', JInt (int (length content))),
                   (''limit'', JInt (int (sb_max_bytes sb)))])
           else (case dict_get_or args ''overwrite'' (JBool True) of
             JBool overwrite \<Rightarrow> (\<lambda>w.
               let existed = w p \<noteq> None
               in if existed \<and> \<not> overwrite
                  then (Inl (ToolExc ''FILE_ALREADY_EXISTS''
                          ''File exists and overwrite is disabled'' [(''path'', JStr rel)]), w)
                  else act_bind (mkdirs (butlast p)) (\<lambda>_.
                       act_bind (replace_file p content) (\<lambda>_.
                       act_bind (display_path sb ws p) (\<lambda>shown. act_return
                         [(''path'', JStr shown), (''size_bytes'', JInt (int (length content))),
                          (''created'', JBool (\<not> existed))]))) w)
           | _ \<Rightarrow> act_raise (ToolExc ''INVALID_TOOL_ARGUMENTS''
                    ([CHR 0x27] @ ''overwrite'' @ [CHR 0x27] @ '' must be a boolean'') [])))
     | _ \<Rightarrow> act_raise (ToolExc ''INVALID_TOOL_ARGUMENTS''
              ([CHR 0x27] @ ''content'' @ [CHR 0x27] @ '' must be a string'') []))"

section \<open>Checking Markdown\<close>

record markdown_report =
  mr_path :: string
  mr_lines :: nat
  mr_warnings :: "string list"

definition markdown_problems :: "string \<Rightarrow> string list" where
  "markdown_problems content =
     (if is_blank content then [''document is empty''] else []) @
     (if fence_count content mod 2 \<noteq> 0 then [''code fence is not closed''] else [])"

definition check_markdown :: "sandbox \<Rightarrow> string \<Rightarrow> dict \<Rightarrow> (fs, markdown_report) act" where
  "check_markdown sb ws args =
     act_bind (required_string args ''path'') (\<lambda>rel.
     act_bind (read_file sb ws [(''path'', JStr rel)]) (\<lambda>r.
       let problems = markdown_problems (rr_content r)
       in if problems \<noteq> []
          then act_raise (ToolExc ''MARKDOWN_INVALID'' ''Markdown validation failed''
                 [(''path'', JStr rel), (''problems'', JList (map JStr problems))])
          else act_return
            \<lparr>mr_path = rr_path r, mr_lines = rr_lines r,
             mr_warnings = (if \<exists>l \<in> set (text_lines (rr_content r)). take 2 l = [35, 32] then []
               else [''document has no level-one heading''])\<rparr>))"

definition markdown_json :: "markdown_report \<Rightarrow> dict" where
  "markdown_json r =
     [(''path'', JStr (mr_path r)), (''valid'', JBool True),
      (''line_count'', JInt (int (mr_lines r))),
      (''warnings'', JList (map JStr (mr_warnings r)))]"

section \<open>The registry\<close>

text \<open>
  A tool maps the workspace and its arguments to a JSON value (or an exception) and may change the
  file system. The registry keeps the tools by name, in the order of their registration.
\<close>

type_synonym tool = "string \<Rightarrow> dict \<Rightarrow> (fs, json) act"
type_synonym registry = "(string \<times> tool) list"

definition register_tool :: "string \<Rightarrow> tool \<Rightarrow> registry \<Rightarrow> registry outcome" where
  "register_tool name tool reg =
     (if map_of reg name \<noteq> None
      then Inl (OtherExc ''ValueError'' (''Tool '' @ [CHR 0x27] @ name @ [CHR 0x27] @
        '' is already registered''))
      else Inr (reg @ [(name, tool)]))"

definition tool_names :: "registry \<Rightarrow> string list" where
  "tool_names reg = sort (map fst reg)"

definition registry_execute :: "registry \<Rightarrow> string \<Rightarrow> tool" where
  "registry_execute reg name ws args =
     (case map_of reg name of
        None \<Rightarrow> act_raise (ToolExc ''TOOL_NOT_FOUND''
          (''Tool '' @ [CHR 0x27] @ name @ [CHR 0x27] @ '' is not registered'')
          [(''available_tools'', JList (map JStr (tool_names reg)))])
      | Some tool \<Rightarrow> tool ws args)"

text \<open>The file tools as registered by \<^verbatim>\<open>build_default_registry\<close>.\<close>

definition act_json :: "('a \<Rightarrow> dict) \<Rightarrow> (fs, 'a) act \<Rightarrow> (fs, json) act" where
  "act_json f m = act_bind m (\<lambda>x. act_return (JObj (f x)))"

definition file_tools :: "sandbox \<Rightarrow> registry" where
  "file_tools sb =
     [(''read_file'', \<lambda>ws args. act_json read_file_json (read_file sb ws args)),
      (''write_file'', \<lambda>ws args. act_json id (write_file sb ws args)),
      (''check_markdown'', \<lambda>ws args. act_json markdown_json (check_markdown sb ws args))]"

end
