(* ===== verification/Snapshots.thy ===== *)
theory Snapshots
  imports Provenance Leases Tools
begin

text \<open>
  Workspace snapshots and artifact provenance in \<^verbatim>\<open>V1Storage\<close>: a baseline before the first tool, a
  final snapshot with the request of a review, and one provenance row per artifact of the manifest,
  all of them immutable. \<open>clock\<close> is \<^verbatim>\<open>time.time()\<close>, \<open>now\<close> and \<open>now'\<close> are values of \<^verbatim>\<open>utc_now()\<close>.
\<close>

section \<open>A snapshot as the scanner returns it\<close>

record workspace_entry =
  we_path :: string
  we_type :: string
  we_size :: int
  we_sha :: string

record workspace_snapshot =
  ws_workspace :: string
  ws_policy :: string
  ws_status :: string
  ws_entries :: "workspace_entry list"
  ws_root :: "string option"
  ws_count :: int
  ws_total :: int

definition snapshot_statuses :: "string list" where
  "snapshot_statuses = [''complete'', ''unstable'', ''unsupported'', ''limit_exceeded'',
     ''legacy_unobserved'', ''unrecoverable'']"

definition entry_json :: "workspace_entry \<Rightarrow> json" where
  "entry_json e = JObj [(''relative_path'', JStr (we_path e)), (''file_type'', JStr (we_type e)),
     (''size'', JInt (we_size e)), (''sha256'', JStr (we_sha e))]"

text \<open>
  \<^verbatim>\<open>json.dumps(payload, ensure_ascii=False).encode('utf-8')\<close>. A file name is a sequence of bytes;
  Python reads one that is not UTF-8 as a string with surrogates, which the encoder refuses.
\<close>

fun encodable :: "json \<Rightarrow> bool" where
  "encodable (JStr s) \<longleftrightarrow> utf8_decode s \<noteq> None"
| "encodable (JList xs) \<longleftrightarrow> list_all encodable xs"
| "encodable (JObj kvs) \<longleftrightarrow> list_all (\<lambda>(k, v). utf8_decode k \<noteq> None \<and> encodable v) kvs"
| "encodable _ \<longleftrightarrow> True"

definition root_payload :: "string \<Rightarrow> workspace_entry list \<Rightarrow> json" where
  "root_payload policy entries =
     JObj [(''policy_version'', JStr policy), (''entries'', JList (map entry_json entries))]"

definition root_hash :: "(json \<Rightarrow> string) \<Rightarrow> string \<Rightarrow> workspace_entry list \<Rightarrow> string result" where
  "root_hash sha policy entries =
     (if encodable (root_payload policy entries) then Inr (stable_hash sha (root_payload policy entries))
      else Inl (ValueError ''UnicodeEncodeError''))"

definition total_size :: "workspace_entry list \<Rightarrow> int" where
  "total_size es = sum_list (map we_size es)"

text \<open>The entry as it is checked, one after the other, and then the list as a whole.\<close>

definition check_entry :: "workspace_entry \<Rightarrow> unit result" where
  "check_entry e =
     (if bad_relative_path (we_path e) then Inl (ValueError ''workspace snapshot path is invalid'')
      else if we_type e \<noteq> ''regular'' \<or> \<not> is_sha256 (we_sha e)
      then Inl (ValueError ''workspace snapshot entry is invalid'')
      else if we_size e < 0 then Inl (ValueError ''workspace snapshot entry size is invalid'')
      else Inr ())"

fun check_entries :: "workspace_entry list \<Rightarrow> unit result" where
  "check_entries [] = Inr ()"
| "check_entries (e # es) = andThen (check_entry e) (\<lambda>_. check_entries es)"

definition normalise_snapshot ::
    "(json \<Rightarrow> string) \<Rightarrow> workspace_snapshot \<Rightarrow> workspace_snapshot result" where
  "normalise_snapshot sha ws =
     (if ws_status ws \<notin> set snapshot_statuses then Inl (ValueError ''invalid workspace snapshot status'')
      else if ws_workspace ws = [] \<or> ws_policy ws = [] \<or> CHR 0x00 \<in> set (ws_workspace ws)
      then Inl (ValueError ''workspace snapshot binding is invalid'')
      else if (case ws_root ws of Some h \<Rightarrow> \<not> is_sha256 h | None \<Rightarrow> False)
      then Inl (ValueError ''workspace snapshot root hash is invalid'')
      else andThen (check_entries (ws_entries ws)) (\<lambda>_.
        let entries = sort_key we_path (ws_entries ws)
        in if \<not> distinct (map we_path entries)
           then Inl (ValueError ''workspace snapshot paths must be unique'')
           else if ws_count ws < 0 then Inl (ValueError ''workspace snapshot file count is invalid'')
           else if ws_total ws < 0 then Inl (ValueError ''workspace snapshot total bytes is invalid'')
           else if ws_status ws = ''complete'' then
             andThen (root_hash sha (ws_policy ws) entries) (\<lambda>expected.
               if ws_root ws \<noteq> Some expected \<or>
                  ws_count ws \<noteq> int (length entries) \<or> ws_total ws \<noteq> total_size entries
               then Inl (ValueError ''complete workspace snapshot is inconsistent'')
               else Inr (ws\<lparr>ws_entries := entries\<rparr>))
           else if entries \<noteq> [] \<or> ws_root ws \<noteq> None \<or> ws_count ws \<noteq> 0 \<or> ws_total ws \<noteq> 0
           then Inl (ValueError ''incomplete workspace snapshot must not contain entries'')
           else Inr (ws\<lparr>ws_entries := entries\<rparr>)))"

section \<open>Storing snapshots\<close>

definition quest_workspace :: "quest_row \<Rightarrow> string" where
  "quest_workspace row = as_str (dict_get_or (q_state row) ''workspace'' (JStr []))"

definition snapshot_row_of ::
    "string \<Rightarrow> string \<Rightarrow> string \<Rightarrow> workspace_snapshot \<Rightarrow> nat option \<Rightarrow> nat option \<Rightarrow> string \<Rightarrow> snapshot_row" where
  "snapshot_row_of i qid kind ws version sequence now =
     \<lparr>sn_id = i, sn_quest = qid, sn_kind = kind, sn_policy = ws_policy ws,
      sn_workspace = ws_workspace ws, sn_root = ws_root ws, sn_count = ws_count ws,
      sn_total = ws_total ws, sn_status = ws_status ws, sn_version = version,
      sn_sequence = sequence, sn_created = now\<rparr>"

definition entry_row_of :: "string \<Rightarrow> workspace_entry \<Rightarrow> snapshot_entry_row" where
  "entry_row_of i e = \<lparr>se_snapshot = i, se_path = we_path e, se_type = we_type e,
     se_size = we_size e, se_sha = we_sha e\<rparr>"

text \<open>The primary key, and the unique index that allows one baseline per Quest.\<close>

definition insert_workspace_snapshot ::
    "(json \<Rightarrow> string) \<Rightarrow> string \<Rightarrow> string \<Rightarrow> string \<Rightarrow> workspace_snapshot \<Rightarrow> nat option \<Rightarrow> nat option \<Rightarrow>
     string \<Rightarrow> db \<Rightarrow> (snapshot_row \<times> db) result" where
  "insert_workspace_snapshot sha i qid kind ws version sequence now d =
     (if i = [] \<or> kind \<notin> {''baseline'', ''final''}
      then Inl (ValueError ''workspace snapshot binding is invalid'')
      else andThen (normalise_snapshot sha ws) (\<lambda>ws'.
        case find_quest d qid of
          None \<Rightarrow> Inl (KeyError qid)
        | Some quest \<Rightarrow>
            if ws_workspace ws' \<noteq> quest_workspace quest
            then Inl (ValueError ''workspace snapshot does not match quest workspace'')
            else if (\<exists>r \<in> set (snapshots d). sn_id r = i \<or>
                       (kind = ''baseline'' \<and> sn_kind r = ''baseline'' \<and> sn_quest r = qid))
            then Inl (IntegrityError ''v1_workspace_snapshots'')
            else
              let row = snapshot_row_of i qid kind ws' version sequence now
              in Inr (row, d\<lparr>snapshots := snapshots d @ [row],
                   snapshot_entries := snapshot_entries d @ map (entry_row_of i) (ws_entries ws')\<rparr>)))"

definition get_workspace_snapshot :: "db \<Rightarrow> string \<Rightarrow> snapshot_row option" where
  "get_workspace_snapshot d i = select_one (\<lambda>r. sn_id r = i) (snapshots d)"

definition get_baseline_snapshot :: "db \<Rightarrow> string \<Rightarrow> snapshot_row option" where
  "get_baseline_snapshot d qid =
     select_one (\<lambda>r. sn_quest r = qid \<and> sn_kind r = ''baseline'') (snapshots d)"

definition list_workspace_snapshots :: "db \<Rightarrow> string \<Rightarrow> snapshot_row list" where
  "list_workspace_snapshots d qid =
     sort_key (\<lambda>r. (sn_created r, sn_id r)) (filter (\<lambda>r. sn_quest r = qid) (snapshots d))"

definition list_workspace_snapshot_entries :: "db \<Rightarrow> string \<Rightarrow> snapshot_entry_row list" where
  "list_workspace_snapshot_entries d i =
     sort_key se_path (filter (\<lambda>e. se_snapshot e = i) (snapshot_entries d))"

definition holds_live_lease :: "db \<Rightarrow> string \<Rightarrow> string \<Rightarrow> rat \<Rightarrow> bool" where
  "holds_live_lease d qid owner clock \<longleftrightarrow>
     (case find_lease d qid of Some l \<Rightarrow> clock < l_expires l \<and> l_owner l = owner | None \<Rightarrow> False)"

definition require_execution_admitted_event :: "db \<Rightarrow> string \<Rightarrow> nat \<Rightarrow> nat option \<Rightarrow> unit result" where
  "require_execution_admitted_event d qid expected sequence =
     (case sequence of
        None \<Rightarrow> Inl (ValueError ''baseline snapshot event sequence is invalid'')
      | Some n \<Rightarrow>
          if n = 0 then Inl (ValueError ''baseline snapshot event sequence is invalid'')
          else case select_one (\<lambda>e. ev_quest e = qid \<and> ev_sequence e = n) (events d) of
            None \<Rightarrow> Inl (ValueError ''baseline snapshot execution admission is invalid'')
          | Some e \<Rightarrow>
              if ev_type e \<noteq> ''ExecutionAdmitted'' \<or> ev_after e \<noteq> expected
              then Inl (ValueError ''baseline snapshot execution admission is invalid'')
              else Inr ())"

definition save_baseline_snapshot ::
    "(json \<Rightarrow> string) \<Rightarrow> string \<Rightarrow> string \<Rightarrow> string \<Rightarrow> nat \<Rightarrow> workspace_snapshot \<Rightarrow> nat option \<Rightarrow> rat \<Rightarrow>
     string \<Rightarrow> db \<Rightarrow> (snapshot_row \<times> db) result" where
  "save_baseline_snapshot sha i qid owner expected ws sequence clock now d =
     (case find_quest d qid of
        None \<Rightarrow> Inl (KeyError qid)
      | Some quest \<Rightarrow>
          if q_version quest \<noteq> expected then Inl (ValueError ''state version conflict'')
          else if \<not> holds_live_lease d qid owner clock
          then Inl (ValueError ''live execution lease is not held by owner'')
          else if \<exists>a \<in> set (actions d). a_quest a = qid
          then Inl (ValueError ''baseline snapshot must precede every tool action'')
          else if get_baseline_snapshot d qid \<noteq> None
          then Inl (ValueError ''baseline snapshot already exists for quest'')
          else andThen (require_execution_admitted_event d qid expected sequence) (\<lambda>_.
            insert_workspace_snapshot sha i qid ''baseline'' ws (Some expected) sequence now d))"

definition save_final_snapshot ::
    "(json \<Rightarrow> string) \<Rightarrow> string \<Rightarrow> string \<Rightarrow> workspace_snapshot \<Rightarrow> nat option \<Rightarrow> nat option \<Rightarrow> string \<Rightarrow> db \<Rightarrow>
     (snapshot_row \<times> db) result" where
  "save_final_snapshot sha i qid ws version sequence now d =
     (if find_quest d qid = None then Inl (KeyError qid)
      else insert_workspace_snapshot sha i qid ''final'' ws version sequence now d)"

definition record_legacy_unobserved_baseline ::
    "(json \<Rightarrow> string) \<Rightarrow> string \<Rightarrow> string \<Rightarrow> string \<Rightarrow> nat \<Rightarrow> nat option \<Rightarrow> rat \<Rightarrow> string \<Rightarrow> db \<Rightarrow>
     (snapshot_row \<times> db) result" where
  "record_legacy_unobserved_baseline sha i qid owner expected sequence clock now d =
     (case find_quest d qid of
        None \<Rightarrow> Inl (KeyError qid)
      | Some quest \<Rightarrow>
          if q_version quest \<noteq> expected then Inl (ValueError ''state version conflict'')
          else if \<not> holds_live_lease d qid owner clock
          then Inl (ValueError ''live execution lease is not held by owner'')
          else if get_baseline_snapshot d qid \<noteq> None
          then Inl (ValueError ''baseline snapshot already exists for quest'')
          else if \<not> (\<exists>a \<in> set (actions d). a_quest a = qid)
          then Inl (ValueError ''legacy baseline requires an existing tool action'')
          else andThen (require_execution_admitted_event d qid expected sequence) (\<lambda>_.
            insert_workspace_snapshot sha i qid ''baseline''
              \<lparr>ws_workspace = quest_workspace quest, ws_policy = ''legacy-unobserved-v1'',
               ws_status = ''legacy_unobserved'', ws_entries = [], ws_root = None, ws_count = 0,
               ws_total = 0\<rparr> (Some expected) sequence now d))"

section \<open>What the classifier reads\<close>

definition opt_str :: "string option \<Rightarrow> json" where
  "opt_str x = (case x of None \<Rightarrow> JNull | Some s \<Rightarrow> JStr s)"

definition opt_nat :: "nat option \<Rightarrow> json" where
  "opt_nat x = (case x of None \<Rightarrow> JNull | Some n \<Rightarrow> JInt (int n))"

definition opt_obj :: "dict option \<Rightarrow> json" where
  "opt_obj x = (case x of None \<Rightarrow> JNull | Some d \<Rightarrow> JObj d)"

definition snapshot_json :: "snapshot_row \<Rightarrow> dict" where
  "snapshot_json r =
     [(''snapshot_id'', JStr (sn_id r)), (''quest_id'', JStr (sn_quest r)), (''kind'', JStr (sn_kind r)),
      (''policy_version'', JStr (sn_policy r)), (''workspace'', JStr (sn_workspace r)),
      (''root_hash'', opt_str (sn_root r)), (''file_count'', JInt (sn_count r)),
      (''total_bytes'', JInt (sn_total r)), (''status'', JStr (sn_status r)),
      (''state_version'', opt_nat (sn_version r)), (''event_sequence'', opt_nat (sn_sequence r)),
      (''created_at'', JStr (sn_created r))]"

definition entry_row_json :: "snapshot_entry_row \<Rightarrow> json" where
  "entry_row_json e = JObj [(''relative_path'', JStr (se_path e)), (''file_type'', JStr (se_type e)),
     (''size'', JInt (se_size e)), (''sha256'', JStr (se_sha e))]"

definition action_json :: "action_row \<Rightarrow> json" where
  "action_json r = JObj
     [(''action_id'', JStr (a_id r)), (''quest_id'', JStr (a_quest r)),
      (''milestone_id'', JStr (a_milestone r)), (''idempotency_key'', JStr (a_key r)),
      (''tool_name'', JStr (a_tool r)), (''arguments_hash'', JStr (a_args_hash r)),
      (''arguments'', JObj (a_args r)), (''pre_effect_hash'', opt_str (a_pre_effect r)),
      (''expected_state_version'', JInt (int (a_expected r))),
      (''status'', JStr (receipt_name (a_status r))), (''result'', opt_obj (a_result r)),
      (''error'', opt_obj (a_error r)), (''committed_event_id'', opt_nat (a_event r)),
      (''created_at'', JStr (a_created r)), (''updated_at'', JStr (a_updated r))]"

definition list_tool_actions :: "db \<Rightarrow> string \<Rightarrow> action_row list" where
  "list_tool_actions d qid =
     sort_key (\<lambda>r. (a_created r, a_id r)) (filter (\<lambda>r. a_quest r = qid) (actions d))"

definition observation_json :: "observation_row \<Rightarrow> nat \<Rightarrow> json" where
  "observation_json r sequence = JObj
     [(''observation_id'', JStr (ob_id r)), (''quest_id'', JStr (ob_quest r)),
      (''action_id'', JStr (ob_action r)), (''committed_event_id'', JInt (int (ob_event r))),
      (''relative_path'', JStr (ob_path r)), (''before_sha256'', opt_str (ob_before r)),
      (''after_sha256'', JStr (ob_after r)), (''after_size_bytes'', JInt (ob_size r)),
      (''change_kind'', JStr (ob_kind r)), (''status'', JStr (ob_status r)),
      (''created_at'', JStr (ob_created r)), (''committed_event_sequence'', JInt (int sequence))]"

text \<open>The join of the observations with their actions and events.\<close>

definition observation_join :: "db \<Rightarrow> string \<Rightarrow> (observation_row \<times> nat) list" where
  "observation_join d qid = concat (map (\<lambda>o'. concat (map (\<lambda>a. List.map_filter (\<lambda>e.
       if ev_id e = ob_event o' \<and> ev_quest e = qid \<and> ev_type e = ''ToolCommitted''
       then Some (o', ev_sequence e) else None) (events d))
     (filter (\<lambda>a. a_id a = ob_action o' \<and> a_quest a = qid) (actions d))))
     (filter (\<lambda>o'. ob_quest o' = qid) (observations d)))"

definition list_tool_file_observations :: "db \<Rightarrow> string \<Rightarrow> json list" where
  "list_tool_file_observations d qid = map (\<lambda>(o', n). observation_json o' n)
     (sort_key (\<lambda>(o', n). (n, ob_id o')) (observation_join d qid))"

end
