(* ===== verification/Reviews.thy ===== *)
theory Reviews
  imports Event_Store
begin

text \<open>
  The user's decision on the frozen artifacts of a Quest (\<^verbatim>\<open>v1_artifact_reviews\<close>): it is recorded
  once, with its first event, and a discard is completed later by a second event.
\<close>

definition find_review :: "db \<Rightarrow> string \<Rightarrow> review_row option" where
  "find_review d qid = select_one (\<lambda>r. rv_quest r = qid) (reviews d)"

definition begin_artifact_review ::
    "(json \<Rightarrow> string) \<Rightarrow> string \<Rightarrow> string \<Rightarrow> string \<Rightarrow> string \<Rightarrow> string \<Rightarrow> string option \<Rightarrow> nat \<Rightarrow>
     string \<Rightarrow> dict \<Rightarrow> (string \<times> dict) option \<Rightarrow> string \<Rightarrow> db \<Rightarrow>
     ((review_row \<times> event_row option) \<times> db) result" where
  "begin_artifact_review sha qid rid manifest key decision note expected ty patch final now d =
     (case find_review d qid of
        Some receipt \<Rightarrow> Inr ((receipt, None), d)
      | None \<Rightarrow>
          if find_quest d qid = None then Inl (IntegrityError ''v1_artifact_reviews'')
          else
            let row = \<lparr>rv_quest = qid, rv_id = rid, rv_manifest = manifest, rv_key = key,
                  rv_decision = decision, rv_note = note, rv_created = now, rv_completed = None\<rparr>;
                d1 = d\<lparr>reviews := reviews d @ [row]\<rparr>
            in andThen (append_locked sha qid ty patch expected EVENT_SCHEMA_VERSION now d1)
                 (\<lambda>(ev, d2).
               andThen (case final of
                          None \<Rightarrow> Inr d2
                        | Some (final_ty, final_patch) \<Rightarrow>
                            andThen (append_locked sha qid final_ty final_patch (expected + 1)
                                       EVENT_SCHEMA_VERSION now d2) (\<lambda>(_, d3). Inr d3))
                 (\<lambda>d4. Inr ((row, Some ev), d4))))"

definition discard_patch :: "string \<Rightarrow> dict" where
  "discard_patch now =
     [(''status'', JStr ''failed''), (''artifact_disposition'', JStr ''discarded''),
      (''finished_at'', JStr now),
      (''error'', JObj [(''code'', JStr ''USER_DISCARDED_ARTIFACTS''),
                        (''message'', JStr ''User discarded frozen artifacts'')])]"

text \<open>The result is the event, or the state when the discard was completed before.\<close>

definition finalize_artifact_discard ::
    "(json \<Rightarrow> string) \<Rightarrow> string \<Rightarrow> nat \<Rightarrow> string \<Rightarrow> db \<Rightarrow> ((event_row + dict) \<times> db) result" where
  "finalize_artifact_discard sha qid expected now d =
     (case find_review d qid of
        None \<Rightarrow> Inl (ValueError ''artifact discard decision was not recorded'')
      | Some receipt \<Rightarrow>
          if rv_decision receipt \<noteq> ''discard''
          then Inl (ValueError ''artifact discard decision was not recorded'')
          else if rv_completed receipt \<noteq> None then
            (case find_quest d qid of
               None \<Rightarrow> Inl (KeyError qid)
             | Some row \<Rightarrow> Inr (Inr (q_state row), d))
          else andThen (append_locked sha qid ''ArtifactDiscarded'' (discard_patch now)
                          expected EVENT_SCHEMA_VERSION now d) (\<lambda>(ev, d1).
            Inr (Inl ev, d1\<lparr>reviews := update_where (\<lambda>r. rv_quest r = qid)
                              (\<lambda>r. r\<lparr>rv_completed := Some now\<rparr>) (reviews d1)\<rparr>)))"

end
