(* ===== verification/Provenance_Store.thy ===== *)
theory Provenance_Store
  imports Snapshots Reviews Json_Text
begin

text \<open>
  \<^verbatim>\<open>request_artifact_review_with_provenance\<close>: the final snapshot, one provenance row per artifact of
  the manifest and the event that asks the user to review, in one transaction. The manifest and the
  provenance come from the caller as JSON objects, and every link between them and the tables is
  checked before anything is stored.
\<close>

section \<open>The statuses that may be stored\<close>

definition shadow_statuses :: "string list" where
  "shadow_statuses = [''shadow_observed_created'', ''shadow_observed_modified'',
     ''shadow_observed_unchanged'', ''shadow_observed_restored'', ''shadow_existing_unchanged'',
     ''shadow_external_drift'', ''shadow_unobserved_created'']"

definition unrecoverable_statuses :: "string list" where
  "unrecoverable_statuses = [''unrecoverable_invalid_input'', ''unrecoverable_invalid_artifact'',
     ''unrecoverable_final_unstable'', ''unrecoverable_final_unsupported'',
     ''unrecoverable_final_limit_exceeded'', ''unrecoverable_final_legacy_unobserved'',
     ''unrecoverable_final_unrecoverable'', ''unrecoverable_final_invalid'',
     ''unrecoverable_final_entries'', ''unrecoverable_final_missing'',
     ''unrecoverable_final_hash_mismatch'', ''unrecoverable_final_size_mismatch'',
     ''unrecoverable_baseline_unstable'', ''unrecoverable_baseline_unsupported'',
     ''unrecoverable_baseline_limit_exceeded'', ''unrecoverable_baseline_unrecoverable'',
     ''unrecoverable_baseline_invalid'', ''unrecoverable_snapshot_binding'',
     ''unrecoverable_baseline_entries'', ''unrecoverable_invalid_actions'',
     ''unrecoverable_unresolved_effect'', ''unrecoverable_invalid_observations'',
     ''unrecoverable_duplicate_observation'', ''unrecoverable_event_binding'',
     ''unrecoverable_action_binding'', ''unrecoverable_missing_observation'',
     ''unrecoverable_observation_binding'', ''unrecoverable_chain_break'',
     ''unrecoverable_chain_terminal_mismatch'']"

definition status_mapping_ok :: "string \<Rightarrow> string \<Rightarrow> bool" where
  "status_mapping_ok status prov \<longleftrightarrow>
     (status = ''shadow'' \<longrightarrow> prov \<in> set shadow_statuses) \<and>
     (status = ''legacy_unobserved'' \<longrightarrow> prov = ''legacy_unobserved'') \<and>
     (status = ''unrecoverable'' \<longrightarrow> prov \<in> set unrecoverable_statuses)"

definition claims_action :: "string \<Rightarrow> bool" where
  "claims_action prov \<longleftrightarrow> starts_with prov ''shadow_observed_''"

section \<open>One provenance row\<close>

definition event_with_id :: "db \<Rightarrow> int \<Rightarrow> event_row option" where
  "event_with_id d n = select_one (\<lambda>e. int (ev_id e) = n) (events d)"

text \<open>The receipt of an observed write: a committed action, its event, and the observation of the file.\<close>

definition observed_receipt_ok :: "db \<Rightarrow> string \<Rightarrow> string \<Rightarrow> int \<Rightarrow> json \<Rightarrow> string \<Rightarrow> bool" where
  "observed_receipt_ok d qid aid event path digest \<longleftrightarrow>
     (case find_action d aid of
        Some a \<Rightarrow> a_quest a = qid \<and> a_status a = ActCommitted \<and> map_option int (a_event a) = Some event
      | None \<Rightarrow> False) \<and>
     (case event_with_id d event of
        Some e \<Rightarrow> ev_quest e = qid \<and> ev_type e = ''ToolCommitted'' | None \<Rightarrow> False) \<and>
     (\<exists>o' \<in> set (observations d). ob_quest o' = qid \<and> ob_action o' = aid \<and> int (ob_event o') = event \<and>
        JStr (ob_path o') = path \<and> ob_after o' = digest)"

definition snapshot_of :: "db \<Rightarrow> string \<Rightarrow> string \<Rightarrow> string \<Rightarrow> snapshot_row option" where
  "snapshot_of d i qid kind =
     (case get_workspace_snapshot d i of
        Some r \<Rightarrow> if sn_quest r = qid \<and> sn_kind r = kind then Some r else None | None \<Rightarrow> None)"

definition evidence_of :: "db \<Rightarrow> string \<Rightarrow> string \<Rightarrow> bool" where
  "evidence_of d i qid \<longleftrightarrow>
     (case select_one (\<lambda>r. r_id r = i) (evidence_rows d) of Some r \<Rightarrow> r_quest r = qid | None \<Rightarrow> False)"

text \<open>The checks that relate the claimed status to the snapshots and the receipt.\<close>

definition check_claim ::
    "db \<Rightarrow> string \<Rightarrow> dict \<Rightarrow> string \<Rightarrow> string \<Rightarrow> string \<Rightarrow> snapshot_row \<Rightarrow> snapshot_row \<Rightarrow> unit result" where
  "check_claim d qid item status prov digest baseline final =
     (if status = ''shadow'' \<and> (sn_status baseline \<noteq> ''complete'' \<or> sn_status final \<noteq> ''complete'')
      then Inl (ValueError ''shadow artifact provenance requires complete snapshots'')
      else if status = ''legacy_unobserved'' \<and> sn_status baseline \<noteq> ''legacy_unobserved''
      then Inl (ValueError ''legacy artifact provenance requires legacy baseline'')
      else andThen
        (if claims_action prov then
           (case (status = ''shadow'', name_of (read item ''action_id''),
                  int_of (read item ''committed_event_id'')) of
              (True, Some aid, Some event) \<Rightarrow>
                if observed_receipt_ok d qid aid event (read item ''path'') digest then Inr ()
                else Inl (ValueError ''observed artifact provenance receipt is invalid'')
            | _ \<Rightarrow> Inl (ValueError ''observed artifact provenance requires action receipt''))
         else if read item ''action_id'' \<noteq> JNull \<or> read item ''committed_event_id'' \<noteq> JNull
         then Inl (ValueError ''non-observed artifact provenance must not claim an action'')
         else Inr ()) (\<lambda>_.
        if sn_status final \<noteq> ''complete'' \<and> status \<noteq> ''unrecoverable''
        then Inl (ValueError ''incomplete final snapshot requires unrecoverable provenance'')
        else Inr ()))"

definition provenance_row_of ::
    "string \<Rightarrow> dict \<Rightarrow> string \<Rightarrow> string \<Rightarrow> provenance_row" where
  "provenance_row_of qid item final_id now =
     \<lparr>pr_id = as_str (read item ''provenance_id''), pr_artifact = as_str (read item ''artifact_id''),
      pr_quest = qid, pr_baseline = as_str (read item ''baseline_snapshot_id''), pr_final = final_id,
      pr_action = name_of (read item ''action_id''),
      pr_event = map_option nat (int_of (read item ''committed_event_id'')),
      pr_evidence = as_str (read item ''evidence_id''), pr_hash = as_str (read item ''artifact_hash''),
      pr_status = as_str (read item ''status''), pr_created = now\<rparr>"

definition provenance_fields :: "string list" where
  "provenance_fields = [''provenance_id'', ''artifact_id'', ''status'', ''provenance_status'',
     ''baseline_snapshot_id'', ''evidence_id'', ''artifact_hash'']"

definition insert_artifact_provenance ::
    "string \<Rightarrow> dict \<Rightarrow> string \<Rightarrow> string \<Rightarrow> db \<Rightarrow> db result" where
  "insert_artifact_provenance qid item final_id now d =
     (let status = as_str (read item ''status''); prov = as_str (read item ''provenance_status'');
          digest = as_str (read item ''artifact_hash'')
      in if \<not> list_all (\<lambda>k. name_of (read item k) \<noteq> None) provenance_fields \<or>
            status \<notin> {''shadow'', ''legacy_unobserved'', ''unrecoverable''} \<or> \<not> is_sha256 digest
         then Inl (ValueError ''artifact provenance is invalid'')
         else if read item ''provenance_mode'' \<noteq> JStr ''compatibility_shadow''
         then Inl (ValueError ''artifact provenance mode is invalid'')
         else if \<not> status_mapping_ok status prov
         then Inl (ValueError ''artifact provenance status mapping is invalid'')
         else case (find_quest d qid,
                    snapshot_of d (as_str (read item ''baseline_snapshot_id'')) qid ''baseline'',
                    snapshot_of d final_id qid ''final'') of
           (Some quest, Some baseline, Some final) \<Rightarrow>
             if \<not> evidence_of d (as_str (read item ''evidence_id'')) qid
             then Inl (ValueError ''artifact provenance cross-quest binding is invalid'')
             else if sn_workspace baseline \<noteq> quest_workspace quest \<or> sn_workspace final \<noteq> quest_workspace quest
             then Inl (ValueError ''artifact provenance workspace binding is invalid'')
             else andThen (check_claim d qid item status prov digest baseline final) (\<lambda>_.
               let row = provenance_row_of qid item final_id now
               in if \<exists>r \<in> set (provenances d). pr_id r = pr_id row \<or>
                       (pr_artifact r = pr_artifact row \<and> pr_quest r = qid)
                  then Inl (IntegrityError ''v1_artifact_provenance'')
                  else Inr (d\<lparr>provenances := provenances d @ [row]\<rparr>))
         | _ \<Rightarrow> Inl (ValueError ''artifact provenance cross-quest binding is invalid''))"

definition get_artifact_provenance :: "db \<Rightarrow> string \<Rightarrow> provenance_row option" where
  "get_artifact_provenance d i = select_one (\<lambda>r. pr_id r = i) (provenances d)"

definition list_artifact_provenance :: "db \<Rightarrow> string \<Rightarrow> provenance_row list" where
  "list_artifact_provenance d qid =
     sort_key (\<lambda>r. (pr_artifact r, pr_id r)) (filter (\<lambda>r. pr_quest r = qid) (provenances d))"

section \<open>The manifest\<close>

definition named :: "json list \<Rightarrow> bool" where
  "named vs \<longleftrightarrow> list_all (\<lambda>v. name_of v \<noteq> None) vs \<and> distinct vs"

fun safe_manifest_path :: "json \<Rightarrow> bool" where
  "safe_manifest_path (JStr p) \<longleftrightarrow> \<not> bad_relative_path p"
| "safe_manifest_path _ \<longleftrightarrow> False"

definition manifest_hash :: "(json \<Rightarrow> string) \<Rightarrow> dict list \<Rightarrow> string" where
  "manifest_hash sha manifest = stable_hash sha (JList (map JObj manifest))"

text \<open>\<^verbatim>\<open>_SHA256_HEX.fullmatch(str(v))\<close>\<close>

fun prints_sha256 :: "json \<Rightarrow> bool" where
  "prints_sha256 (JStr s) \<longleftrightarrow> is_sha256 s"
| "prints_sha256 (JInt n) \<longleftrightarrow> is_sha256 (int_text n)"
| "prints_sha256 _ \<longleftrightarrow> False"

definition check_identities :: "dict list \<Rightarrow> dict list \<Rightarrow> unit result" where
  "check_identities manifest provenance =
     (let artifact_ids = map (\<lambda>i. read i ''artifact_id'') manifest;
          provenance_ids = map (\<lambda>i. read i ''provenance_id'') provenance;
          paths = map (\<lambda>i. read i ''path'') manifest;
          manifest_provenance_ids = map (\<lambda>i. read i ''provenance_id'') manifest;
          claimed = map (\<lambda>i. read i ''artifact_id'') provenance
      in if \<not> named artifact_ids \<or> \<not> named provenance_ids
         then Inl (ValueError ''artifact/provenance identity is invalid'')
         else if list_ex unhashable claimed then Inl (TypeError ''unhashable type'')
         else if set claimed \<noteq> set artifact_ids \<or> \<not> list_all safe_manifest_path paths \<or>
                 \<not> distinct paths \<or> \<not> named manifest_provenance_ids
         then Inl (ValueError ''artifact/provenance identity is invalid'')
         else Inr ())"

definition manifest_item_ok :: "string \<Rightarrow> dict \<Rightarrow> bool" where
  "manifest_item_ok final_id item \<longleftrightarrow>
     prints_sha256 (read item ''hash'') \<and> size_of (read item ''size'') \<noteq> None \<and>
     name_of (read item ''evidence_id'') \<noteq> None \<and>
     read item ''provenance_mode'' = JStr ''compatibility_shadow'' \<and>
     read item ''final_snapshot_id'' = JStr final_id \<and>
     name_of (read item ''baseline_snapshot_id'') \<noteq> None \<and>
     (case read item ''provenance_status'' of JStr s \<Rightarrow> True | _ \<Rightarrow> False)"

text \<open>How an item of the manifest differs from a complete final snapshot.\<close>

definition final_mismatch :: "snapshot_entry_row list \<Rightarrow> dict \<Rightarrow> string option" where
  "final_mismatch entries item =
     (case find (\<lambda>e. JStr (se_path e) = read item ''path'') entries of
        None \<Rightarrow> Some ''unrecoverable_final_missing''
      | Some e \<Rightarrow>
          if JStr (se_sha e) \<noteq> read item ''hash'' then Some ''unrecoverable_final_hash_mismatch''
          else if JInt (se_size e) \<noteq> read item ''size'' then Some ''unrecoverable_final_size_mismatch''
          else None)"

definition item_by_artifact :: "dict list \<Rightarrow> json \<Rightarrow> dict option" where
  "item_by_artifact items aid = find (\<lambda>i. read i ''artifact_id'' = aid) items"

definition check_manifest_item ::
    "db \<Rightarrow> string \<Rightarrow> snapshot_row \<Rightarrow> dict list \<Rightarrow> dict \<Rightarrow> unit result" where
  "check_manifest_item d final_id final provenance item =
     (if \<not> manifest_item_ok final_id item then Inl (ValueError ''artifact manifest item is invalid'')
      else if sn_status final \<noteq> ''complete'' then Inr ()
      else case final_mismatch (list_workspace_snapshot_entries d final_id) item of
        None \<Rightarrow> Inr ()
      | Some mismatch \<Rightarrow>
          if read item ''provenance_status'' = JStr mismatch \<and>
             (case item_by_artifact provenance (read item ''artifact_id'') of
                Some p \<Rightarrow> read p ''status'' = JStr ''unrecoverable'' \<and>
                  read p ''provenance_status'' = JStr mismatch
              | None \<Rightarrow> False)
          then Inr ()
          else Inl (ValueError ''artifact manifest does not match final snapshot''))"

fun check_all :: "('a \<Rightarrow> unit result) \<Rightarrow> 'a list \<Rightarrow> unit result" where
  "check_all f [] = Inr ()"
| "check_all f (x # xs) = andThen (f x) (\<lambda>_. check_all f xs)"

definition shared_fields :: "(string \<times> string) list" where
  "shared_fields = [(''provenance_id'', ''provenance_id''), (''artifact_hash'', ''hash''),
     (''evidence_id'', ''evidence_id''), (''path'', ''path''),
     (''provenance_status'', ''provenance_status''), (''provenance_mode'', ''provenance_mode''),
     (''baseline_snapshot_id'', ''baseline_snapshot_id''),
     (''final_snapshot_id'', ''final_snapshot_id'')]"

fun insert_provenances ::
    "string \<Rightarrow> dict list \<Rightarrow> string \<Rightarrow> string \<Rightarrow> dict list \<Rightarrow> db \<Rightarrow> db result" where
  "insert_provenances qid manifest final_id now [] d = Inr d"
| "insert_provenances qid manifest final_id now (item # items) d =
     (case item_by_artifact manifest (read item ''artifact_id'') of
        None \<Rightarrow> Inl (KeyError (as_str (read item ''artifact_id'')))
      | Some m \<Rightarrow>
          if \<not> list_all (\<lambda>(k, k'). read item k = read m k') shared_fields
          then Inl (ValueError ''artifact provenance does not match manifest'')
          else andThen (insert_artifact_provenance qid item final_id now d)
                 (insert_provenances qid manifest final_id now items))"

definition review_patch :: "string \<Rightarrow> string \<Rightarrow> dict list \<Rightarrow> string \<Rightarrow> dict" where
  "review_patch review_id digest manifest now =
     [(''status'', JStr ''waiting_user''), (''artifact_manifest'', JList (map JObj manifest)),
      (''artifact_disposition'', JStr ''pending''),
      (''pending_artifact_review'', JObj
        [(''review_id'', JStr review_id), (''manifest_hash'', JStr digest),
         (''requested_at'', JStr now), (''item_count'', JInt (int (length manifest)))])]"

definition request_artifact_review_with_provenance ::
    "(json \<Rightarrow> string) \<Rightarrow> string \<Rightarrow> string \<Rightarrow> string \<Rightarrow> dict list \<Rightarrow> string \<Rightarrow> string \<Rightarrow>
     workspace_snapshot \<Rightarrow> dict list \<Rightarrow> nat \<Rightarrow> rat \<Rightarrow> string \<Rightarrow> string \<Rightarrow> db \<Rightarrow> (event_row \<times> db) result" where
  "request_artifact_review_with_provenance sha qid owner review_id manifest digest final_id ws
     provenance expected clock now now' d =
     (if owner = [] \<or> review_id = [] \<or> \<not> is_sha256 digest \<or> manifest = [] \<or>
         manifest_hash sha manifest \<noteq> digest \<or> length manifest \<noteq> length provenance
      then Inl (ValueError ''artifact manifest binding is invalid'')
      else andThen (check_identities manifest provenance) (\<lambda>_.
        case find_quest d qid of
          None \<Rightarrow> Inl (KeyError qid)
        | Some quest \<Rightarrow>
            if q_version quest \<noteq> expected then Inl (ValueError ''state version conflict'')
            else if \<not> holds_live_lease d qid owner clock
            then Inl (ValueError ''live execution lease is not held by owner'')
            else if \<exists>e \<in> set (events d). ev_quest e = qid \<and> ev_type e = ''ArtifactReviewRequested''
            then Inl (ValueError ''artifact review was already requested'')
            else andThen (insert_workspace_snapshot sha final_id qid ''final'' ws (Some expected)
                     (Some (expected + 1)) now' d) (\<lambda>(final, d1).
              andThen (check_all (check_manifest_item d1 final_id final provenance) manifest) (\<lambda>_.
              andThen (insert_provenances qid manifest final_id now' provenance d1) (\<lambda>d2.
              append_locked sha qid ''ArtifactReviewRequested''
                (review_patch review_id digest manifest now) expected EVENT_SCHEMA_VERSION now d2)))))"

end
