(* ===== verification/Legacy_Import.thy ===== *)
theory Legacy_Import
  imports Event_Store
begin

text \<open>
  The explicit import of Quests of the old database (\<^verbatim>\<open>V1Storage.import_legacy\<close>): one transaction for
  each source record, a projection at version 0 and one \<^verbatim>\<open>LegacyStateImported\<close> event. \<open>rp\<close> is Python's
  \<^verbatim>\<open>str\<close> of a value that is not a string and \<open>fl\<close> its reading of a decimal numeral.
\<close>

section \<open>Python's conversions\<close>

fun py_str :: "(json \<Rightarrow> string) \<Rightarrow> json \<Rightarrow> string" where
  "py_str rp (JStr s) = s"
| "py_str rp v = rp v"

fun py_float :: "(string \<Rightarrow> rat option) \<Rightarrow> json \<Rightarrow> rat result" where
  "py_float fl (JInt n) = Inr (of_int n)"
| "py_float fl (JFloat x) = Inr x"
| "py_float fl (JBool b) = Inr (if b then 1 else 0)"
| "py_float fl (JStr s) = (case fl s of None \<Rightarrow> Inl (ValueError ''float'') | Some x \<Rightarrow> Inr x)"
| "py_float fl JNull = Inl (TypeError ''float'')"
| "py_float fl (JList xs) = Inl (TypeError ''float'')"
| "py_float fl (JObj d) = Inl (TypeError ''float'')"

text \<open>\<^verbatim>\<open>str(old.get("id") or old.get("quest_id") or "")\<close>\<close>

definition legacy_id :: "(json \<Rightarrow> string) \<Rightarrow> dict \<Rightarrow> string" where
  "legacy_id rp old =
     (let i = dict_get_or old ''id'' JNull; q = dict_get_or old ''quest_id'' JNull
      in if truthy i then py_str rp i else if truthy q then py_str rp q else [])"

definition legacy_recovery :: "(json \<Rightarrow> string) \<Rightarrow> dict \<Rightarrow> bool" where
  "legacy_recovery rp old \<longleftrightarrow>
     py_str rp (dict_get_or old ''status'' (JStr ''failed'')) \<in> {''running'', ''verifying'', ''recovering''}"

definition legacy_status :: "(json \<Rightarrow> string) \<Rightarrow> dict \<Rightarrow> string" where
  "legacy_status rp old =
     (if legacy_recovery rp old then ''paused''
      else py_str rp (dict_get_or old ''status'' (JStr ''failed'')))"

definition legacy_state ::
    "(json \<Rightarrow> string) \<Rightarrow> (json \<Rightarrow> string) \<Rightarrow> dict \<Rightarrow> rat \<Rightarrow> string \<Rightarrow> dict" where
  "legacy_state sha rp old progress now =
     [(''id'', JStr (legacy_id rp old)),
      (''goal'', JStr (py_str rp (dict_get_or old ''goal'' (JStr ''Legacy Quest'')))),
      (''workspace'', JStr (py_str rp (dict_get_or old ''workspace'' (JStr [])))),
      (''status'', JStr (legacy_status rp old)), (''state_version'', JInt 0), (''plan_version'', JInt 0),
      (''contract'', JNull), (''milestones'', dict_get_or old ''milestones'' (JList [])),
      (''current_milestone_id'', JNull), (''progress'', JFloat progress), (''route'', json_strs [''legacy'']),
      (''budget_usage'', JObj []), (''pause_requested'', JBool False),
      (''recovery_required'', JBool (legacy_recovery rp old)), (''artifact_review_required'', JBool False),
      (''artifact_disposition'', JStr ''not_applicable''), (''pending_artifact_review'', JNull),
      (''legacy_unverified'', JBool True), (''legacy_snapshot_hash'', JStr (stable_hash sha (JObj old))),
      (''error'', dict_get_or old ''error'' JNull),
      (''created_at'', JStr (py_str rp (dict_get_or old ''created_at'' (JStr now)))),
      (''updated_at'', JStr now), (''started_at'', dict_get_or old ''started_at'' JNull),
      (''finished_at'', dict_get_or old ''finished_at'' JNull)]"

section \<open>The import\<close>

text \<open>The body of the loop: whether the record was imported, and the database after it.\<close>

definition import_legacy_quest ::
    "(json \<Rightarrow> string) \<Rightarrow> (json \<Rightarrow> string) \<Rightarrow> (string \<Rightarrow> rat option) \<Rightarrow> dict \<Rightarrow> string \<Rightarrow> db \<Rightarrow>
     (bool \<times> db) result" where
  "import_legacy_quest sha rp fl old now d =
     (let qid = legacy_id rp old
      in if qid = [] \<or> get_quest d qid \<noteq> None then Inr (False, d)
         else andThen (py_float fl (dict_get_or old ''progress'' (JFloat 0))) (\<lambda>progress.
           let d1 = d\<lparr>quests := quests d @
                 [\<lparr>q_id = qid, q_state = [], q_version = 0, q_status = JStr (legacy_status rp old),
                   q_created = py_str rp (dict_get_or old ''created_at'' (JStr now)), q_updated = now\<rparr>]\<rparr>
           in andThen (append_locked sha qid ''LegacyStateImported'' (legacy_state sha rp old progress now)
                0 EVENT_SCHEMA_VERSION now d1) (\<lambda>(ev, d2). Inr (True, d2))))"

text \<open>
  The loop. A record whose conversion raises ends the import; the records before it stay imported.
  \<open>now n\<close> is \<^verbatim>\<open>utc_now()\<close> at the n-th record.
\<close>

fun import_legacy ::
    "(json \<Rightarrow> string) \<Rightarrow> (json \<Rightarrow> string) \<Rightarrow> (string \<Rightarrow> rat option) \<Rightarrow> (nat \<Rightarrow> string) \<Rightarrow> dict list \<Rightarrow> nat \<Rightarrow>
     db \<Rightarrow> nat result \<times> db" where
  "import_legacy sha rp fl now [] imported d = (Inr imported, d)"
| "import_legacy sha rp fl now (old # olds) imported d =
     (case import_legacy_quest sha rp fl old (now (length olds)) d of
        Inl e \<Rightarrow> (Inl e, d)
      | Inr (b, d') \<Rightarrow> import_legacy sha rp fl now olds (if b then imported + 1 else imported) d')"

lemma legacy_state_distinct: "distinct (map fst (legacy_state sha rp old progress now))"
  by (simp add: legacy_state_def)

text \<open>An imported Quest is at version 1; importing its record again does nothing.\<close>

lemma import_legacy_quest_cases:
  assumes "import_legacy_quest sha rp fl old now d = Inr (b, d')"
  obtains (skipped) "\<not> b" "d' = d" "legacy_id rp old = [] \<or> find_quest d (legacy_id rp old) \<noteq> None"
  | (imported) progress ev d1 where "b" "find_quest d (legacy_id rp old) = None"
      "d1 = d\<lparr>quests := quests d @ [\<lparr>q_id = legacy_id rp old, q_state = [], q_version = 0,
         q_status = JStr (legacy_status rp old),
         q_created = py_str rp (dict_get_or old ''created_at'' (JStr now)), q_updated = now\<rparr>]\<rparr>"
      "append_locked sha (legacy_id rp old) ''LegacyStateImported'' (legacy_state sha rp old progress now)
         0 EVENT_SCHEMA_VERSION now d1 = Inr (ev, d')"
  using assms
  by (auto simp: import_legacy_quest_def Let_def get_quest_def result_simps split: if_splits)

end
