(* ===== verification/Store_Run.thy ===== *)
theory Store_Run
  imports Action_Journal Records Provenance_Store Legacy_Import
begin

text \<open>
  The whole store as a transition system: a rule for every transaction of \<^verbatim>\<open>V1Storage\<close> that changes
  the tables of \<open>db\<close>, in any order and with any arguments. (The journal of the model calls has its
  own relation in \<open>Model_Properties\<close>; the benchmark tables are not part of \<open>db\<close>.) An import of several
  old Quests is one step for each of them. \<open>store_ok\<close> collects the invariants of the parts; it holds
  initially and every step keeps it. \<open>orphans\<close> are the committed actions without a receipt event:
  only \<open>commit_action\<close>, which no caller of the sources uses, adds one.
\<close>

section \<open>Frames\<close>

definition same_core :: "db \<Rightarrow> db \<Rightarrow> bool" where
  "same_core d d' \<longleftrightarrow>
     quests d' = quests d \<and> events d' = events d \<and> next_event d' = next_event d \<and>
     checkpoints d' = checkpoints d \<and> actions d' = actions d \<and> observations d' = observations d"

definition orphan :: "action_row \<Rightarrow> bool" where
  "orphan r \<longleftrightarrow> a_status r = ActCommitted \<and> a_event r = None"

definition orphans :: "db \<Rightarrow> string set" where
  "orphans d = a_id ` {r \<in> set (actions d). orphan r}"

definition leases_ok :: "db \<Rightarrow> bool" where
  "leases_ok d \<longleftrightarrow> distinct (map l_quest (leases d)) \<and> distinct (map rl_key (resource_leases d))"

definition store_ok :: "(json \<Rightarrow> string) \<Rightarrow> db \<Rightarrow> bool" where
  "store_ok sha d \<longleftrightarrow> ledger_ok sha d \<and> journal_ok d"

lemma store_ok_empty: "store_ok sha empty_db"
  by (simp add: store_ok_def ledger_ok_empty journal_ok_empty)

lemma same_core_refl [simp]: "same_core d d"
  by (simp add: same_core_def)

lemma same_core_trans: "same_core d d' \<Longrightarrow> same_core d' d'' \<Longrightarrow> same_core d d''"
  by (simp add: same_core_def)

lemma same_core_store_ok: "same_core d d' \<Longrightarrow> store_ok sha d \<Longrightarrow> store_ok sha d'"
  using ledger_ok_cong [of d' d] journal_ok_grow [of d d']
  by (simp add: same_core_def store_ok_def)

text \<open>
  The effect of an operation on the log and on the journal: events are only appended, rows of the
  journal only advance. An operation that also makes no orphan \<open>grows\<close> the store.
\<close>

definition extends :: "db \<Rightarrow> db \<Rightarrow> bool" where
  "extends d d' \<longleftrightarrow> (\<exists>es. events d' = events d @ es) \<and> journal_advances d d'"

definition grows :: "db \<Rightarrow> db \<Rightarrow> bool" where
  "grows d d' \<longleftrightarrow> extends d d' \<and> orphans d' \<subseteq> orphans d"

lemma orphans_same: "actions d' = actions d \<Longrightarrow> orphans d' = orphans d"
  by (simp add: orphans_def)

lemma grows_same: "(\<exists>es. events d' = events d @ es) \<Longrightarrow> actions d' = actions d \<Longrightarrow> grows d d'"
  unfolding grows_def extends_def using journal_advances_same orphans_same by blast

lemma same_core_grows: "same_core d d' \<Longrightarrow> grows d d'"
  by (simp add: same_core_def grows_same)

lemma append_locked_step:
  assumes "append_locked sha qid ty patch v schema now d = Inr (ev, d')"
    and "distinct (map fst patch)" and "store_ok sha d"
  shows "store_ok sha d' \<and> grows d d'"
  using assms append_locked_ledger_ok [OF _ assms(2,1)] append_locked_journal_ok [OF assms(1)]
    append_locked_frame [OF assms(1)]
  by (simp add: store_ok_def grows_same)

lemma grows_same_actions:
  "grows d d' \<Longrightarrow> grows d' d'' \<Longrightarrow> actions d' = actions d \<Longrightarrow> grows d d''"
  by (auto simp: grows_def extends_def journal_advances_def orphans_def)

lemma append_all_step:
  assumes "append_all sha qid es v now d = Inr (evs, d')"
    and "\<forall>(ty, patch) \<in> set es. distinct (map fst patch)" and "store_ok sha d"
  shows "store_ok sha d' \<and> grows d d' \<and> actions d' = actions d"
  using assms
proof (induction es arbitrary: v d evs)
  case Nil
  then show ?case by (simp add: same_core_grows)
next
  case (Cons e es)
  obtain ty patch where e: "e = (ty, patch)" by (cases e)
  with Cons.prems(1) obtain ev d1 evs1
    where app: "append_locked sha qid ty patch v EVENT_SCHEMA_VERSION now d = Inr (ev, d1)"
      and rest: "append_all sha qid es (v + 1) now d1 = Inr (evs1, d')"
    by (auto split: sum.splits prod.splits)
  have s1: "store_ok sha d1 \<and> grows d d1" "actions d1 = actions d"
    using append_locked_step [OF app _ Cons.prems(3)] Cons.prems(2) e append_locked_frame [OF app]
    by auto
  then show ?case using Cons.IH [OF rest _] Cons.prems(2) grows_same_actions by fastforce
qed

text \<open>Operations of the form: change tables outside the core, then append.\<close>

lemma frame_then_append:
  assumes "same_core d d1" and "append_locked sha qid ty patch v schema now d1 = Inr (ev, d')"
    and "distinct (map fst patch)" and "store_ok sha d"
  shows "store_ok sha d' \<and> grows d d'"
  using append_locked_step [OF assms(2,3) same_core_store_ok [OF assms(1,4)]]
    grows_same_actions [OF same_core_grows [OF assms(1)]] assms(1)
  by (simp add: same_core_def)

lemma insert_contract_core: "insert_contract qid c now d = Inr d' \<Longrightarrow> same_core d d'"
  by (auto simp: insert_contract_def Let_def same_core_def split: if_splits)

lemma insert_plan_core: "insert_plan qid p ms now d = Inr d' \<Longrightarrow> same_core d d'"
  by (auto simp: insert_plan_def Let_def same_core_def split: if_splits)

lemma insert_record_core: "insert_record t i qid data now d = Inr d' \<Longrightarrow> same_core d d'"
  by (cases t) (auto simp: insert_record_def same_core_def split: if_splits)

lemma record_data_core: "record_data t i qid data now d = Inr (r, d') \<Longrightarrow> same_core d d'"
  by (auto simp: record_data_def insert_record_core split: sum.splits option.splits if_splits)

lemma put_lease_core: "put_lease qid owner t d = Inr d' \<Longrightarrow> same_core d d'"
  by (auto simp: put_lease_def same_core_def split: if_splits)

lemma put_resource_lease_core: "put_resource_lease k qid owner t d = Inr d' \<Longrightarrow> same_core d d'"
  by (auto simp: put_resource_lease_def same_core_def split: if_splits)

lemma acquire_lease_core: "acquire_lease qid owner ttl c d = Inr (b, d') \<Longrightarrow> same_core d d'"
  by (auto simp: acquire_lease_def result_simps put_lease_core split: if_splits option.splits)

lemma acquire_resource_lease_core:
  "acquire_resource_lease k qid owner ttl c d = Inr (b, d') \<Longrightarrow> same_core d d'"
  by (auto simp: acquire_resource_lease_def result_simps put_resource_lease_core
      split: if_splits option.splits)

lemma renew_lease_core: "renew_lease qid owner ttl c d = Inr (b, d') \<Longrightarrow> same_core d d'"
  by (auto simp: renew_lease_def Let_def same_core_def split: if_splits)

lemma insert_workspace_snapshot_core:
  "insert_workspace_snapshot sha i qid kind ws v sq now d = Inr (row, d') \<Longrightarrow> same_core d d'"
  by (auto simp: insert_workspace_snapshot_def Let_def same_core_def result_simps
      split: if_splits option.splits)

lemma save_baseline_core:
  "save_baseline_snapshot sha i qid owner v ws sq clock now d = Inr (row, d') \<Longrightarrow> same_core d d'"
  by (auto simp: save_baseline_snapshot_def result_simps insert_workspace_snapshot_core
      split: option.splits if_splits)

lemma legacy_baseline_core:
  "record_legacy_unobserved_baseline sha i qid owner v sq clock now d = Inr (row, d') \<Longrightarrow> same_core d d'"
  by (auto simp: record_legacy_unobserved_baseline_def result_simps insert_workspace_snapshot_core
      split: option.splits if_splits)

lemma save_final_core:
  "save_final_snapshot sha i qid ws v sq now d = Inr (row, d') \<Longrightarrow> same_core d d'"
  by (auto simp: save_final_snapshot_def insert_workspace_snapshot_core split: if_splits)

lemma insert_artifact_provenance_core:
  "insert_artifact_provenance qid item fid now d = Inr d' \<Longrightarrow> same_core d d'"
  by (auto simp: insert_artifact_provenance_def Let_def same_core_def result_simps
      split: option.splits if_splits)

lemma insert_provenances_core:
  "insert_provenances qid man fid now items d = Inr d' \<Longrightarrow> same_core d d'"
  by (induction qid man fid now items d rule: insert_provenances.induct)
    (auto simp: result_simps intro: same_core_trans dest!: insert_artifact_provenance_core
      split: option.splits if_splits)

lemma request_review_cases:
  assumes "request_artifact_review_with_provenance sha qid owner rid man dig i ws prov v clock now now' d =
    Inr (ev, d')"
  obtains quest fin d1 d2 where "find_quest d qid = Some quest" "q_version quest = v"
    "holds_live_lease d qid owner clock" "length man = length prov" "check_identities man prov = Inr ()"
    "insert_workspace_snapshot sha i qid ''final'' ws (Some v) (Some (v + 1)) now' d = Inr (fin, d1)"
    "check_all (check_manifest_item d1 i fin prov) man = Inr ()"
    "insert_provenances qid man i now' prov d1 = Inr d2"
    "append_locked sha qid ''ArtifactReviewRequested'' (review_patch rid dig man now) v
       EVENT_SCHEMA_VERSION now d2 = Inr (ev, d')"
  using assms
  by (auto simp: request_artifact_review_with_provenance_def result_simps split: option.splits if_splits)

section \<open>The step relation\<close>

inductive store_step :: "(json \<Rightarrow> string) \<Rightarrow> db \<Rightarrow> db \<Rightarrow> bool" for sha where
  draft: "create_draft sha qid contract p ws route st now d = Inr (s, d') \<Longrightarrow> store_step sha d d'"
| import_old: "import_legacy_quest sha rp flo old now d = Inr (b, d') \<Longrightarrow> store_step sha d d'"
| append: "append_event sha qid ty patch v schema now d = Inr (ev, d') \<Longrightarrow>
    distinct (map fst patch) \<Longrightarrow> store_step sha d d'"
| group: "append_events sha qid es v now d = Inr (evs, d') \<Longrightarrow>
    \<forall>(ty, patch) \<in> set es. distinct (map fst patch) \<Longrightarrow> store_step sha d d'"
| contract: "store_contract_version sha qid c v ty st now d = Inr (ev, d') \<Longrightarrow> store_step sha d d'"
| plan: "store_plan_version sha qid p v now now' d = Inr (ev, d') \<Longrightarrow> store_step sha d d'"
| decide: "apply_decision sha qid i data v kind es c p now d = Inr (s, d') \<Longrightarrow>
    \<forall>(ty, patch) \<in> set es. distinct (map fst patch) \<Longrightarrow> store_step sha d d'"
| checkpoint: "save_checkpoint sha qid now d = Inr (r, d') \<Longrightarrow> store_step sha d d'"
| prepare: "prepare_action aid qid mid key tool h args v pre now d = Inr (row, d') \<Longrightarrow>
    store_step sha d d'"
| dispatch: "mark_action_dispatched aid now d = Inr (row, d') \<Longrightarrow> store_step sha d d'"
| commit: "commit_action_with_event sha aid res ob now now' d = Inr (row, d') \<Longrightarrow>
    store_step sha d d'"
| commit_only: "commit_action aid res now d = Inr (row, d') \<Longrightarrow> store_step sha d d'"
| fail: "fail_action aid err now d = Inr (row, d') \<Longrightarrow> store_step sha d d'"
| unknown: "mark_action_unknown aid err' now d = Inr (row, d') \<Longrightarrow> store_step sha d d'"
| repair: "repair_committed_action_events sha mentions now d = Inr d' \<Longrightarrow> store_step sha d d'"
| startup: "mark_dispatched_actions_unknown now d = (n, d') \<Longrightarrow> store_step sha d d'"
| observe: "append_tool_file_observation oid qid aid path e b a n k st now d = Inr d' \<Longrightarrow>
    store_step sha d d'"
| entry: "record_data t i qid data now d = Inr (r, d') \<Longrightarrow> store_step sha d d'"
| acquire: "acquire_lease qid owner ttl clock d = Inr (b, d') \<Longrightarrow> store_step sha d d'"
| admit: "admit_execution sha qid owner ttl v adm clock now d = Inr (r, d') \<Longrightarrow> store_step sha d d'"
| renew: "renew_lease qid owner ttl clock d = Inr (b, d') \<Longrightarrow> store_step sha d d'"
| release: "release_lease qid owner d = (b, d') \<Longrightarrow> store_step sha d d'"
| acquire_resource: "acquire_resource_lease key qid owner ttl clock d = Inr (b, d') \<Longrightarrow>
    store_step sha d d'"
| release_resource: "release_resource_lease key qid owner d = (b, d') \<Longrightarrow> store_step sha d d'"
| clear: "clear_runtime_leases_on_startup d = (n, d') \<Longrightarrow> store_step sha d d'"
| review: "begin_artifact_review sha qid rid man key dec note v ty patch final now d = Inr (r, d') \<Longrightarrow>
    distinct (map fst patch) \<Longrightarrow> (\<forall>ty' p'. final = Some (ty', p') \<longrightarrow> distinct (map fst p')) \<Longrightarrow>
    store_step sha d d'"
| discard: "finalize_artifact_discard sha qid v now d = Inr (r, d') \<Longrightarrow> store_step sha d d'"
| baseline: "save_baseline_snapshot sha i qid owner v ws sq clock now d = Inr (row, d') \<Longrightarrow>
    store_step sha d d'"
| legacy: "record_legacy_unobserved_baseline sha i qid owner v sq clock now d = Inr (row, d') \<Longrightarrow>
    store_step sha d d'"
| final: "save_final_snapshot sha i qid ws v' sq now d = Inr (row, d') \<Longrightarrow> store_step sha d d'"
| freeze: "request_artifact_review_with_provenance sha qid owner rid man dig i ws prov v clock now now' d =
      Inr (ev, d') \<Longrightarrow> store_step sha d d'"

inductive reachable :: "(json \<Rightarrow> string) \<Rightarrow> db \<Rightarrow> bool" for sha where
  start: "reachable sha empty_db"
| step: "reachable sha d \<Longrightarrow> store_step sha d d' \<Longrightarrow> reachable sha d'"

section \<open>Every step keeps the invariant\<close>

lemma create_draft_step:
  assumes cd: "create_draft sha qid contract p ws route st now d = Inr (s, d')" and ok: "store_ok sha d"
  shows "store_ok sha d' \<and> grows d d'"
proof -
  let ?row = "\<lparr>q_id = qid, q_state = [], q_version = 0, q_status = JStr st, q_created = now,
      q_updated = now\<rparr>"
  let ?d1 = "d\<lparr>quests := quests d @ [?row]\<rparr>"
  obtain ms d2 d3 ev where fresh: "find_quest d qid = None"
    and d2: "insert_contract qid contract now ?d1 = Inr d2"
    and d3: "insert_plan qid p ms now d2 = Inr d3"
    and app: "append_locked sha qid ''QuestDrafted'' (initial_state qid contract p ms ws route st now)
      0 EVENT_SCHEMA_VERSION now d3 = Inr (ev, d')"
    using cd by (auto simp: create_draft_def Let_def result_simps split: sum.splits if_splits)
  have "ledger_ok sha ?d1" using ledger_ok_new_quest [OF _ fresh] ok by (simp add: store_ok_def)
  moreover have "journal_ok ?d1"
    by (rule journal_ok_grow [of d]) (use ok in \<open>auto simp: store_ok_def\<close>)
  ultimately have ok1: "store_ok sha ?d1" using ok by (simp add: store_ok_def)
  have core: "same_core ?d1 d3"
    by (rule same_core_trans [OF insert_contract_core [OF d2] insert_plan_core [OF d3]])
  have "store_ok sha d' \<and> grows ?d1 d'"
    by (rule frame_then_append [OF core app initial_state_distinct ok1])
  then show ?thesis by (simp add: grows_def extends_def journal_advances_def orphans_def)
qed

lemma import_legacy_step:
  assumes im: "import_legacy_quest sha rp flo old now d = Inr (b, d')" and ok: "store_ok sha d"
  shows "store_ok sha d' \<and> grows d d'"
  using im
proof (cases rule: import_legacy_quest_cases)
  case skipped
  then show ?thesis using ok same_core_grows by simp
next
  case (imported progress ev d1)
  have "ledger_ok sha d1" using ledger_ok_new_quest [OF _ imported(2)] ok by (simp add: store_ok_def imported(3))
  moreover have "journal_ok d1"
    by (rule journal_ok_grow [of d]) (use ok in \<open>auto simp: store_ok_def imported(3)\<close>)
  ultimately have ok1: "store_ok sha d1" by (simp add: store_ok_def)
  have "grows d d1" by (rule grows_same) (simp_all add: imported(3))
  moreover have "store_ok sha d' \<and> grows d1 d'"
    by (rule append_locked_step [OF imported(4) legacy_state_distinct ok1])
  ultimately show ?thesis by (auto simp: grows_def extends_def journal_advances_def orphans_def imported(3))
qed

lemma store_contract_step:
  assumes sc: "store_contract_version sha qid c v ty st now d = Inr (ev, d')" and ok: "store_ok sha d"
  shows "store_ok sha d' \<and> grows d d'"
proof -
  let ?patch = "[(''contract'', JObj c), (''goal'', dict_get_or c ''goal'' (JStr [])),
      (''status'', JStr st), (''error'', JNull)]"
  obtain d1 where d1: "insert_contract qid c now d = Inr d1"
    and app: "append_locked sha qid ty ?patch v EVENT_SCHEMA_VERSION now d1 = Inr (ev, d')"
    using sc by (auto simp: store_contract_version_def result_simps split: option.splits if_splits)
  show ?thesis by (rule frame_then_append [OF insert_contract_core [OF d1] app _ ok]) simp
qed

lemma store_plan_cases:
  assumes "store_plan_version sha qid p v now now' d = Inr (ev, d')"
  obtains s ms ms' row d1 where "validate_plan (pl_milestones p) = Inr ms"
    "find_quest d qid = Some row" "q_version row = v" "s = q_state row"
    "merge_completed ''replan cannot remove a completed milestone''
       (by_id (completed_milestones s)) ms = Inr ms'"
    "insert_plan qid p ms' now d = Inr d1"
    "append_locked sha qid ''PlanReplanned''
       [(''plan_id'', JStr (pl_id p)), (''plan_version'', JInt (pl_version p)),
        (''plan_metadata'', JObj (pl_metadata p)), (''milestones'', milestones_json ms'),
        (''status'', JStr ''running'')] v EVENT_SCHEMA_VERSION now' d1 = Inr (ev, d')"
  using assms
  by (auto simp: store_plan_version_def require_quest_def get_quest_def result_simps
      split: option.splits if_splits)

lemma store_plan_step:
  assumes sp: "store_plan_version sha qid p v now now' d = Inr (ev, d')" and ok: "store_ok sha d"
  shows "store_ok sha d' \<and> grows d d'"
  using sp
proof (cases rule: store_plan_cases)
  case (1 s ms ms' row d1)
  show ?thesis by (rule frame_then_append [OF insert_plan_core [OF 1(6)] 1(7) _ ok]) simp
qed

lemma decision_conflict_Inr: "decision_conflict r = Inr x \<longleftrightarrow> r = Inr x"
  by (cases r) (auto simp: decision_conflict_def split: py_error.splits)

lemma adopt_plan_core: "adopt_plan qid ms c p now d = Inr d' \<Longrightarrow> same_core d d'"
  by (induction qid ms c p now d rule: adopt_plan.induct)
    (auto simp: result_simps intro: same_core_trans dest!: insert_contract_core insert_plan_core)

lemma apply_decision_cases:
  assumes "apply_decision sha qid i data v kind es c p now d = Inr (s, d')"
  obtains row ms d1 evs where "find_quest d qid = Some row" "q_version row = v"
    "q_status row = JStr ''waiting_user''" "\<not> approval_mismatch kind (q_state row) data"
    "decision_milestones kind (q_state row) c p = Inr ms" "same_core d d1"
    "append_all sha qid es v now d1 = Inr (evs, d')" "get_quest d' qid = Some s"
proof -
  obtain row ms where row: "find_quest d qid = Some row" "q_version row = v"
      "q_status row = JStr ''waiting_user''" "\<not> approval_mismatch kind (q_state row) data"
      "decision_milestones kind (q_state row) c p = Inr ms"
    using assms by (auto simp: apply_decision_def result_simps split: option.splits if_splits)
  then obtain d0 d1 evs where d0: "insert_record Decision i qid data now d = Inr d0"
    and d1: "adopt_plan qid ms c p now d0 = Inr d1"
    and app: "append_all sha qid es v now d1 = Inr (evs, d')"
    and s: "get_quest d' qid = Some s"
    using assms
    by (auto simp: apply_decision_def result_simps decision_conflict_Inr require_quest_def
        split: option.splits)
  have "same_core d0 d1" by (rule adopt_plan_core [OF d1])
  then have "same_core d d1" using insert_record_core [OF d0] same_core_trans by blast
  with row app s that show thesis by blast
qed

lemma apply_decision_step:
  assumes ad: "apply_decision sha qid i data v kind es c p now d = Inr (s, d')"
    and es: "\<forall>(ty, patch) \<in> set es. distinct (map fst patch)" and ok: "store_ok sha d"
  shows "store_ok sha d' \<and> grows d d'"
  using ad
proof (cases rule: apply_decision_cases)
  case (1 row ms d1 evs)
  have "store_ok sha d' \<and> grows d1 d' \<and> actions d' = actions d1"
    by (rule append_all_step [OF 1(7) es same_core_store_ok [OF 1(6) ok]])
  moreover have "actions d1 = actions d" using 1(6) by (simp add: same_core_def)
  ultimately show ?thesis using grows_same_actions [OF same_core_grows [OF 1(6)]] by simp
qed

lemma ledger_frame:
  "ledger_ok sha d \<Longrightarrow> quests d' = quests d \<Longrightarrow> events d' = events d \<Longrightarrow>
   next_event d' = next_event d \<Longrightarrow> checkpoints d' = checkpoints d \<Longrightarrow> ledger_ok sha d'"
  using ledger_ok_cong by blast

lemma transition_extends:
  assumes tr: "transition_action aid from st res err now d = Inr (row', d')" and ok: "store_ok sha d"
    and edges: "ActCommitted \<notin> set from" "st = ActCommitted \<Longrightarrow> res \<noteq> None"
      "\<And>s. s \<in> set from \<Longrightarrow> action_edge s st"
  shows "store_ok sha d' \<and> extends d d'"
proof -
  have j: "journal_ok d" and l: "ledger_ok sha d" using ok by (auto simp: store_ok_def)
  have j': "journal_ok d'" by (rule transition_action_journal_ok [OF j tr edges(1,2)])
  have a: "journal_advances d d'" by (rule transition_action_advances [OF j tr edges(3)])
  have core: "quests d' = quests d" "events d' = events d" "next_event d' = next_event d"
    "checkpoints d' = checkpoints d"
    using tr by (cases rule: transition_action_cases; simp)+
  have "ledger_ok sha d'" by (rule ledger_frame [OF l core])
  with j' a core show ?thesis by (simp add: store_ok_def extends_def)
qed

lemma transition_step:
  assumes tr: "transition_action aid from st res err now d = Inr (row', d')" and ok: "store_ok sha d"
    and edges: "ActCommitted \<notin> set from" "st \<noteq> ActCommitted" "\<And>s. s \<in> set from \<Longrightarrow> action_edge s st"
  shows "store_ok sha d' \<and> grows d d'"
proof -
  have "store_ok sha d' \<and> extends d d'"
    by (rule transition_extends [OF tr ok edges(1) _ edges(3)]) (use edges(2) in simp_all)
  moreover have "orphans d' \<subseteq> orphans d"
    using tr
  proof (cases rule: transition_action_cases)
    case (moved row)
    show ?thesis
      using edges(2)
      by (auto simp: orphans_def orphan_def moved(5) set_update_where transition_row_def split: if_splits)
  qed simp
  ultimately show ?thesis by (simp add: grows_def)
qed

lemma commit_only_step:
  assumes "commit_action aid res now d = Inr (row, d')" and "store_ok sha d"
  shows "store_ok sha d' \<and> extends d d'"
  using transition_extends [OF assms(1) [unfolded commit_action_def] assms(2)]
  by (simp add: action_edge.intros) (auto intro: action_edge.intros)

text \<open>The repair gives each orphan its event, an existing one or a new one; no status changes.\<close>

definition only_links :: "db \<Rightarrow> db \<Rightarrow> bool" where
  "only_links d d' \<longleftrightarrow> (\<exists>es. events d' = events d @ es) \<and>
     (\<forall>r \<in> set (actions d). \<exists>r' \<in> set (actions d'). row_advances r r' \<and> a_status r' = a_status r)"

lemma only_links_same:
  "(\<exists>es. events d' = events d @ es) \<Longrightarrow> actions d' = actions d \<Longrightarrow> only_links d d'"
  by (auto simp: only_links_def intro: row_advances_refl)

lemma only_links_extends: "only_links d d' \<Longrightarrow> extends d d'"
  unfolding only_links_def extends_def journal_advances_def by blast

lemma only_links_trans:
  assumes "only_links d d'" and "only_links d' d''"
  shows "only_links d d''"
proof -
  have row: "row_advances r r' \<Longrightarrow> a_status r' = a_status r \<Longrightarrow> row_advances r' r'' \<Longrightarrow>
      a_status r'' = a_status r' \<Longrightarrow> row_advances r r'' \<and> a_status r'' = a_status r" for r r' r''
    by (auto simp: row_advances_def)
  have "\<exists>es. events d'' = events d @ es" using assms unfolding only_links_def by auto
  moreover have "\<exists>r'' \<in> set (actions d''). row_advances r r'' \<and> a_status r'' = a_status r"
    if "r \<in> set (actions d)" for r
    using assms that row unfolding only_links_def by meson
  ultimately show ?thesis by (simp add: only_links_def)
qed

lemma link_orphan_step:
  assumes ok: "store_ok sha d" and row: "find_action d aid = Some row" "orphan row"
    and e: "receipt_of d e (a_quest row)" and link: "link_action aid e d = Inr d'"
  shows "store_ok sha d' \<and> only_links d d' \<and> orphans d' = orphans d - {aid} \<and>
    actions d' = update_where (\<lambda>r. a_id r = aid) (\<lambda>r. r\<lparr>a_event := Some e\<rparr>) (actions d)"
proof -
  let ?f = "\<lambda>r :: action_row. r\<lparr>a_event := Some e\<rparr>"
  have j: "journal_ok d" and l: "ledger_ok sha d" using ok by (auto simp: store_ok_def)
  have st: "a_status row = ActCommitted" "a_event row = None" using row(2) by (auto simp: orphan_def)
  have d': "d' = d\<lparr>actions := update_where (\<lambda>r. a_id r = aid) ?f (actions d)\<rparr>"
    using link by (auto simp: link_action_def split: if_splits)
  have "journal_ok d'" by (rule link_action_journal_ok [OF j row(1) st e link])
  moreover have "ledger_ok sha d'" by (rule ledger_frame [OF l]) (simp_all add: d')
  moreover have "only_links d d'"
    unfolding only_links_def
  proof (intro conjI ballI)
    fix r assume r: "r \<in> set (actions d)"
    let ?r' = "if a_id r = aid then ?f r else r"
    have "a_id r = aid \<Longrightarrow> r = row" using journal_row_unique [OF j row(1) r] by simp
    then have "row_advances r ?r' \<and> a_status ?r' = a_status r" using st by (auto simp: row_advances_def)
    moreover have "?r' \<in> set (actions d')" using r by (auto simp: d' set_update_where)
    ultimately show "\<exists>r' \<in> set (actions d'). row_advances r r' \<and> a_status r' = a_status r" by blast
  qed (simp add: d')
  moreover have "orphans d' = orphans d - {aid}"
  proof -
    have "filter orphan (update_where (\<lambda>r. a_id r = aid) ?f rs) = filter (\<lambda>r. orphan r \<and> a_id r \<noteq> aid) rs" for rs
      by (induction rs) (auto simp: orphan_def)
    then have "{r \<in> set (actions d'). orphan r} = {r \<in> set (actions d). orphan r \<and> a_id r \<noteq> aid}"
      unfolding d' by (simp add: flip: set_filter)
    then show ?thesis by (auto simp: orphans_def)
  qed
  ultimately show ?thesis using d' by (auto simp: store_ok_def)
qed

lemma repair_rows_step:
  assumes "repair_rows sha mentions rows now d = Inr d'" and "store_ok sha d"
    and "distinct (map a_id rows)" and "\<forall>r \<in> set rows. orphan r \<and> find_action d (a_id r) = Some r"
  shows "store_ok sha d' \<and> only_links d d' \<and> orphans d' = orphans d - a_id ` set rows \<and>
    map a_id (actions d') = map a_id (actions d) \<and> map a_status (actions d') = map a_status (actions d)"
  using assms
proof (induction sha mentions rows now d rule: repair_rows.induct)
  case (1 sha mentions now d)
  then show ?case by (simp add: only_links_same)
next
  case (2 sha mentions row rows now d)
  obtain e d1 d2 where ev: "store_ok sha d1" "only_links d d1" "actions d1 = actions d"
      "receipt_of d1 e (a_quest row)"
    and link: "link_action (a_id row) e d1 = Inr d2"
    and rest: "repair_rows sha mentions rows now d2 = Inr d'"
  proof (cases "filter (\<lambda>e. ev_quest e = a_quest row \<and> ev_type e = ''ToolCommitted'' \<and>
      mentions (ev_payload e) (a_id row)) (events d)")
    case (Cons ev evs)
    then have "ev \<in> set (filter (\<lambda>e. ev_quest e = a_quest row \<and> ev_type e = ''ToolCommitted'' \<and>
        mentions (ev_payload e) (a_id row)) (events d))" by simp
    then have "receipt_of d (ev_id ev) (a_quest row)" by (auto simp: receipt_of_def)
    moreover have "only_links d d" by (simp add: only_links_same)
    ultimately show thesis using that [of d "ev_id ev"] 2(2,3) Cons by (auto simp: result_simps)
  next
    case Nil
    then obtain res ev d1 d2 where app: "receipt_event sha row res now d = Inr (ev, d1)"
        "link_action (a_id row) (ev_id ev) d1 = Inr d2" "repair_rows sha mentions rows now d2 = Inr d'"
      using 2(2) by (auto simp: result_simps split: option.splits)
    from receipt_event_Inr [OF app(1)] obtain q where
      al: "append_locked sha (a_quest row) ''ToolCommitted''
        [(''last_receipt'', JObj (receipt_json row res))] (q_version q) EVENT_SCHEMA_VERSION now d = Inr (ev, d1)"
      and evq: "ev = new_event sha d q ''ToolCommitted'' [(''last_receipt'', JObj (receipt_json row res))] now"
      and q: "find_quest d (a_quest row) = Some q" by metis
    have "store_ok sha d1 \<and> grows d d1" by (rule append_locked_step [OF al _ 2(3)]) simp
    moreover have "actions d1 = actions d" "events d1 = events d @ [ev]" using append_locked_frame [OF al] by auto
    moreover from this have "only_links d d1" by (simp add: only_links_same)
    moreover have "ev_quest ev = a_quest row" "ev_type ev = ''ToolCommitted''"
      using find_quest_in [OF q] by (simp_all add: evq new_event_def)
    ultimately have "receipt_of d1 (ev_id ev) (a_quest row)" by (auto simp: receipt_of_def)
    then show thesis using that [OF _ _ _ _ app(2,3)] \<open>store_ok sha d1 \<and> grows d d1\<close>
        \<open>only_links d d1\<close> \<open>actions d1 = actions d\<close> by blast
  qed
  have row: "find_action d1 (a_id row) = Some row" "orphan row"
    using 2(5) ev(3) by (auto simp: find_action_def)
  have l: "store_ok sha d2" "only_links d1 d2" "orphans d2 = orphans d1 - {a_id row}"
    and acts: "actions d2 = update_where (\<lambda>r. a_id r = a_id row) (\<lambda>r. r\<lparr>a_event := Some e\<rparr>) (actions d1)"
    using link_orphan_step [OF ev(1) row ev(4) link] by blast+
  have "find_action d2 (a_id r) = Some r" if "r \<in> set rows" for r
  proof -
    have "a_id r \<noteq> a_id row" using 2(4) that by (force simp: image_iff)
    then show ?thesis using 2(5) that ev(3) acts
      by (simp add: find_action_def action_link.select_update_other)
  qed
  then have IH: "store_ok sha d'" "only_links d2 d'" "orphans d' = orphans d2 - a_id ` set rows"
    "map a_id (actions d') = map a_id (actions d2)" "map a_status (actions d') = map a_status (actions d2)"
    using "2.IH" [OF rest l(1)] 2(4,5) by auto
  have keep: "map a_id (actions d2) = map a_id (actions d)" "map a_status (actions d2) = map a_status (actions d)"
    unfolding acts ev(3) by (simp_all add: update_where_def)
  have "orphans d1 = orphans d" using ev(3) by (rule orphans_same)
  then have "orphans d' = orphans d - a_id ` set (row # rows)" using IH(3) l(3) by auto
  moreover have "only_links d d'" using ev(2) l(2) IH(2) only_links_trans by blast
  ultimately show ?case using IH keep by simp
qed

lemma repair_step:
  assumes "repair_committed_action_events sha mentions now d = Inr d'" and ok: "store_ok sha d"
  shows "store_ok sha d' \<and> grows d d' \<and> orphans d' = {} \<and>
    map a_id (actions d') = map a_id (actions d) \<and> map a_status (actions d') = map a_status (actions d)"
proof -
  let ?rows = "filter (\<lambda>r. a_status r = ActCommitted \<and> a_event r = None) (actions d)"
  have dist: "distinct (map a_id (actions d))" using ok by (simp add: store_ok_def journal_ok_def)
  then have "distinct (map a_id ?rows)" by (simp add: distinct_map_filter)
  moreover have "\<forall>r \<in> set ?rows. orphan r \<and> find_action d (a_id r) = Some r"
    using action_link.select_key_distinct [OF dist] by (auto simp: orphan_def find_action_def)
  moreover have "a_id ` set ?rows = orphans d" by (auto simp: orphans_def orphan_def)
  ultimately show ?thesis
    using repair_rows_step [OF assms(1) [unfolded repair_committed_action_events_def] ok] only_links_extends
    by (auto simp: grows_def)
qed

lemma commit_step:
  assumes com: "commit_action_with_event sha aid res ob now now' d = Inr (row', d')"
    and ok: "store_ok sha d"
  shows "store_ok sha d' \<and> grows d d'"
proof -
  have j: "journal_ok d" and l: "ledger_ok sha d" using ok by (auto simp: store_ok_def)
  obtain row where row: "find_action d aid = Some row"
    using com by (cases "find_action d aid") (auto simp: commit_action_with_event_def)
  show ?thesis
  proof (cases "a_status row = ActCommitted")
    case True
    then have "d' = d" using com row
      by (auto simp: commit_action_with_event_def split: option.splits if_splits)
    then show ?thesis using ok same_core_grows by simp
  next
    case False
    from commit_effect [OF j l com row this] obtain ev where
      ev: "events d' = events d @ [ev]" "journal_ok d'" "ledger_ok sha d'"
        "a_status row \<in> {ActDispatched, ActUnknownEffect}"
      and acts: "actions d' =
        update_where (\<lambda>r. a_id r = aid) (committed_row res (ev_id ev) now) (actions d)"
      by blast
    have "journal_advances d d'"
    proof (rule journal_advances_update [OF _ acts])
      fix r assume "r \<in> set (actions d)" "a_id r = aid"
      then have "r = row" using journal_row_unique [OF j row] by simp
      moreover have "a_event row = None"
        using journal_okD(1) [OF j] find_action_in [OF row] False
        by (cases "a_event row") (auto simp: action_row_ok_def)
      ultimately show "row_advances r (committed_row res (ev_id ev) now r)"
        using ev(4) by (auto simp: row_advances_def committed_row_def transition_row_def
            intro: action_edge.intros)
    qed
    moreover have "orphans d' \<subseteq> orphans d"
      by (auto simp: orphans_def orphan_def acts set_update_where committed_row_def)
    ultimately show ?thesis using ev by (simp add: store_ok_def grows_def extends_def)
  qed
qed

lemma prepare_step:
  assumes prep: "prepare_action aid qid mid key tool h args v pre now d = Inr (row, d')"
    and ok: "store_ok sha d"
  shows "store_ok sha d' \<and> grows d d'"
proof -
  have j': "journal_ok d'" using prepare_action_journal_ok [OF _ prep] ok by (simp add: store_ok_def)
  show ?thesis
    using prep
  proof (cases rule: prepare_action_cases)
    case replayed
    then show ?thesis using ok same_core_grows by simp
  next
    case (fresh q)
    have "ledger_ok sha d'" by (rule ledger_frame) (use ok in \<open>auto simp: store_ok_def fresh(6)\<close>)
    moreover have "orphans d' \<subseteq> orphans d" by (auto simp: orphans_def orphan_def fresh(5,6))
    moreover have "journal_advances d d'"
      unfolding journal_advances_def
    proof
      fix r assume "r \<in> set (actions d)"
      then show "\<exists>r' \<in> set (actions d'). row_advances r r'"
        by (intro bexI [of _ r]) (simp_all add: fresh(6))
    qed
    ultimately show ?thesis using j' by (simp add: store_ok_def grows_def extends_def fresh(6))
  qed
qed

lemma startup_step:
  assumes st: "mark_dispatched_actions_unknown now d = (n, d')" and ok: "store_ok sha d"
  shows "store_ok sha d' \<and> grows d d'"
proof -
  have "journal_ok d'" using startup_journal_ok [OF _ st] ok by (simp add: store_ok_def)
  moreover have "ledger_ok sha d'"
    by (rule ledger_frame [of _ d])
      (use st ok in \<open>auto simp: mark_dispatched_actions_unknown_def store_ok_def\<close>)
  moreover have "orphans d' \<subseteq> orphans d"
    using st by (auto simp: mark_dispatched_actions_unknown_def orphans_def orphan_def set_update_where)
  moreover have "events d' = events d" using st by (auto simp: mark_dispatched_actions_unknown_def)
  ultimately show ?thesis using startup_advances [OF st] by (simp add: store_ok_def grows_def extends_def)
qed

lemma checkpoint_step:
  assumes sc: "save_checkpoint sha qid now d = Inr (r, d')" and ok: "store_ok sha d"
  shows "store_ok sha d' \<and> grows d d'"
proof -
  have "ledger_ok sha d'" using save_checkpoint_ledger_ok [OF _ sc] ok by (simp add: store_ok_def)
  moreover have f: "quests d' = quests d" "events d' = events d" "actions d' = actions d"
    "observations d' = observations d"
    using sc by (auto simp: save_checkpoint_def Let_def split: option.splits if_splits)
  moreover have "journal_ok d'"
    by (rule journal_ok_grow [of d]) (use ok f in \<open>auto simp: store_ok_def\<close>)
  ultimately show ?thesis using ok
    by (simp add: store_ok_def grows_same)
qed

lemma observe_step:
  assumes "append_tool_file_observation oid qid aid path e b a n k st now d = Inr d'"
    and ok: "store_ok sha d"
  shows "store_ok sha d' \<and> grows d d'"
proof -
  obtain ob where ins: "insert_observation ob aid qid (Some e) now d = Inr d'"
    using assms(1)
    by (auto simp: append_tool_file_observation_def split: option.splits if_splits)
  have f: "quests d' = quests d" "events d' = events d" "actions d' = actions d"
    "next_event d' = next_event d" "checkpoints d' = checkpoints d"
    using insert_observation_frame [OF ins] by auto
  moreover have "journal_ok d'"
    using insert_observation_journal_ok [OF _ ins] ok by (simp add: store_ok_def)
  moreover have "ledger_ok sha d'"
    by (rule ledger_frame [of _ d]) (use ok f in \<open>simp_all add: store_ok_def\<close>)
  ultimately show ?thesis using ok
    by (simp add: store_ok_def grows_same)
qed

lemma admit_step:
  assumes ad: "admit_execution sha qid owner ttl v adm clock now d = Inr (r, d')" and ok: "store_ok sha d"
  shows "store_ok sha d' \<and> grows d d'"
proof (cases r)
  case None
  then have "d' = d"
    using ad by (auto simp: admit_execution_def result_simps split: option.splits if_splits)
  then show ?thesis using ok same_core_grows by simp
next
  case (Some ev)
  obtain row where row: "find_quest d qid = Some row"
    using ad Some by (auto simp: admit_execution_def split: option.splits if_splits)
  obtain d1 where d1: "put_lease qid owner (clock + ttl) d = Inr d1"
    and app: "append_locked sha qid ''ExecutionAdmitted'' (admission_patch (q_state row) adm) v
      EVENT_SCHEMA_VERSION now d1 = Inr (ev, d')"
    using ad Some row by (auto simp: admit_execution_def result_simps split: if_splits)
  show ?thesis
    by (rule frame_then_append [OF put_lease_core [OF d1] app _ ok]) (simp add: admission_patch_def)
qed

lemma review_step:
  assumes br: "begin_artifact_review sha qid rid man key dec note v ty patch final now d = Inr (r, d')"
    and dist: "distinct (map fst patch)" "\<forall>ty' p'. final = Some (ty', p') \<longrightarrow> distinct (map fst p')"
    and ok: "store_ok sha d"
  shows "store_ok sha d' \<and> grows d d'"
proof (cases "find_review d qid")
  case (Some x)
  then show ?thesis using br ok same_core_grows by (simp add: begin_artifact_review_def)
next
  case None
  let ?d1 = "d\<lparr>reviews := reviews d @ [\<lparr>rv_quest = qid, rv_id = rid, rv_manifest = man, rv_key = key,
      rv_decision = dec, rv_note = note, rv_created = now, rv_completed = None\<rparr>]\<rparr>"
  obtain ev d2 where app: "append_locked sha qid ty patch v EVENT_SCHEMA_VERSION now ?d1 = Inr (ev, d2)"
    and rest: "d' = d2 \<or> (\<exists>ty' p' ev'. final = Some (ty', p') \<and>
      append_locked sha qid ty' p' (v + 1) EVENT_SCHEMA_VERSION now d2 = Inr (ev', d'))"
    using br None
    by (auto simp: begin_artifact_review_def Let_def result_simps split: if_splits option.splits)
  have core: "same_core d ?d1" by (simp add: same_core_def)
  have s2: "store_ok sha d2 \<and> grows d d2" by (rule frame_then_append [OF core app dist(1) ok])
  have a2: "actions d2 = actions d" using append_locked_frame [OF app] by simp
  show ?thesis
    using rest
  proof
    assume "d' = d2"
    then show ?thesis using s2 by simp
  next
    assume "\<exists>ty' p' ev'. final = Some (ty', p') \<and>
      append_locked sha qid ty' p' (v + 1) EVENT_SCHEMA_VERSION now d2 = Inr (ev', d')"
    then obtain ty' p' ev' where f: "final = Some (ty', p')"
      and app': "append_locked sha qid ty' p' (v + 1) EVENT_SCHEMA_VERSION now d2 = Inr (ev', d')"
      by blast
    have "distinct (map fst p')" using dist(2) f by blast
    then have "store_ok sha d' \<and> grows d2 d'" using append_locked_step [OF app'] s2 by blast
    then show ?thesis using grows_same_actions [of d d2 d'] s2 a2 by blast
  qed
qed

lemma discard_step:
  assumes fd: "finalize_artifact_discard sha qid v now d = Inr (r, d')" and ok: "store_ok sha d"
  shows "store_ok sha d' \<and> grows d d'"
proof (cases "d' = d")
  case True
  then show ?thesis using ok same_core_grows by simp
next
  case False
  obtain ev d1 where app: "append_locked sha qid ''ArtifactDiscarded'' (discard_patch now) v
      EVENT_SCHEMA_VERSION now d = Inr (ev, d1)"
    and d': "d' = d1\<lparr>reviews := update_where (\<lambda>r. rv_quest r = qid)
                              (\<lambda>r. r\<lparr>rv_completed := Some now\<rparr>) (reviews d1)\<rparr>"
    using fd False
    by (auto simp: finalize_artifact_discard_def result_simps split: option.splits if_splits)
  have "store_ok sha d1 \<and> grows d d1"
    by (rule append_locked_step [OF app _ ok]) (simp add: discard_patch_def)
  moreover have "same_core d1 d'" by (simp add: d' same_core_def)
  ultimately show ?thesis
    using same_core_store_ok by (auto simp: same_core_def grows_def extends_def journal_advances_def orphans_def)
qed

lemma freeze_step:
  assumes rq: "request_artifact_review_with_provenance sha qid owner rid man dig i ws prov v clock now
    now' d = Inr (ev, d')" and ok: "store_ok sha d"
  shows "store_ok sha d' \<and> grows d d'"
  using rq
proof (cases rule: request_review_cases)
  case (1 quest fin d1 d2)
  have "same_core d d2"
    by (rule same_core_trans [OF insert_workspace_snapshot_core [OF 1(6)] insert_provenances_core [OF 1(8)]])
  then show ?thesis by (rule frame_then_append [OF _ 1(9) _ ok]) (simp add: review_patch_def)
qed

lemma same_core_step: "same_core d d' \<Longrightarrow> store_ok sha d \<Longrightarrow> store_ok sha d' \<and> grows d d'"
  using same_core_store_ok same_core_grows by blast

theorem store_step_cases:
  assumes "store_step sha d d'" and "store_ok sha d"
  shows "store_ok sha d' \<and> extends d d' \<and>
    (orphans d' \<subseteq> orphans d \<or> (\<exists>aid res now row. commit_action aid res now d = Inr (row, d')))"
proof -
  have g: "store_ok sha d' \<and> grows d d' \<Longrightarrow> ?thesis" by (simp add: grows_def)
  show ?thesis
    using assms(1)
  proof cases
    case (commit_only aid res now row)
    show ?thesis using commit_only_step [OF commit_only assms(2)] commit_only by blast
  next
    case (repair mentions now)
    show ?thesis using g repair_step [OF repair assms(2)] by blast
  next
    case (import_old rp flo old now b)
    show ?thesis by (rule g [OF import_legacy_step [OF import_old assms(2)]])
  next
    case (append qid ty patch v schema now ev)
    then show ?thesis using g append_locked_step assms(2) by (simp add: append_event_def)
  next
    case (group qid es v now evs)
    then show ?thesis using g append_all_step assms(2) unfolding append_events_def by blast
  next
    case (release qid owner b)
    then show ?thesis by (intro g same_core_step assms(2)) (auto simp: release_lease_def Let_def same_core_def)
  next
    case (release_resource key qid owner b)
    then show ?thesis
      by (intro g same_core_step assms(2)) (auto simp: release_resource_lease_def Let_def same_core_def)
  next
    case (clear n)
    then show ?thesis
      by (intro g same_core_step assms(2)) (auto simp: clear_runtime_leases_on_startup_def same_core_def)
  next
    case (dispatch aid now row)
    then show ?thesis
      by (intro g transition_step [OF _ assms(2)])
        (auto simp: mark_action_dispatched_def intro: action_edge.intros)
  next
    case (fail aid err now row)
    then show ?thesis
      by (intro g transition_step [OF _ assms(2)]) (auto simp: fail_action_def intro: action_edge.intros)
  next
    case (unknown aid err' now row)
    then show ?thesis
      by (intro g transition_step [OF _ assms(2)])
        (auto simp: mark_action_unknown_def intro: action_edge.intros)
  next
    case (draft qid contract p ws route st now s)
    show ?thesis by (rule g [OF create_draft_step [OF draft assms(2)]])
  next
    case (contract qid c v ty st now ev)
    show ?thesis by (rule g [OF store_contract_step [OF contract assms(2)]])
  next
    case (plan qid p v now now' ev)
    show ?thesis by (rule g [OF store_plan_step [OF plan assms(2)]])
  next
    case (decide qid i data v kind es c p now s)
    show ?thesis by (rule g [OF apply_decision_step [OF decide(1,2) assms(2)]])
  next
    case (checkpoint qid now r)
    show ?thesis by (rule g [OF checkpoint_step [OF checkpoint assms(2)]])
  next
    case (prepare aid qid mid key tool h args v pre now row)
    show ?thesis by (rule g [OF prepare_step [OF prepare assms(2)]])
  next
    case (commit aid res ob now now' row)
    show ?thesis by (rule g [OF commit_step [OF commit assms(2)]])
  next
    case (startup now n)
    show ?thesis by (rule g [OF startup_step [OF startup assms(2)]])
  next
    case (observe oid qid aid path e b a n k st now)
    show ?thesis by (rule g [OF observe_step [OF observe assms(2)]])
  next
    case (admit qid owner ttl v adm clock now r)
    show ?thesis by (rule g [OF admit_step [OF admit assms(2)]])
  next
    case (discard qid v now r)
    show ?thesis by (rule g [OF discard_step [OF discard assms(2)]])
  next
    case (review qid rid man key dec nt v ty patch final now r)
    show ?thesis by (rule g [OF review_step [OF review assms(2)]])
  next
    case (freeze qid owner rid man dig i ws prov v clock now now' ev)
    show ?thesis by (rule g [OF freeze_step [OF freeze assms(2)]])
  next
    case (baseline i qid owner v ws sq clock now row)
    show ?thesis by (rule g [OF same_core_step [OF save_baseline_core [OF baseline] assms(2)]])
  next
    case (legacy i qid owner v sq clock now row)
    show ?thesis by (rule g [OF same_core_step [OF legacy_baseline_core [OF legacy] assms(2)]])
  next
    case (final i qid ws v' sq now row)
    show ?thesis by (rule g [OF same_core_step [OF save_final_core [OF final] assms(2)]])
  next
    case (entry t i qid data now r)
    show ?thesis by (rule g [OF same_core_step [OF record_data_core [OF entry] assms(2)]])
  next
    case (acquire qid owner ttl clock b)
    show ?thesis by (rule g [OF same_core_step [OF acquire_lease_core [OF acquire] assms(2)]])
  next
    case (renew qid owner ttl clock b)
    show ?thesis by (rule g [OF same_core_step [OF renew_lease_core [OF renew] assms(2)]])
  next
    case (acquire_resource key qid owner ttl clock b)
    show ?thesis by (rule g [OF same_core_step [OF acquire_resource_lease_core [OF acquire_resource] assms(2)]])
  qed
qed

lemma store_step_ok: "store_step sha d d' \<Longrightarrow> store_ok sha d \<Longrightarrow> store_ok sha d' \<and> extends d d'"
  using store_step_cases by blast

lemma reachable_store_ok: "reachable sha d \<Longrightarrow> store_ok sha d"
  by (induction rule: reachable.induct) (use store_ok_empty store_step_ok in blast)+

end
