(* ===== verification/Store_Properties.thy ===== *)
theory Store_Properties
  imports Store_Run Plan_Progress
begin

text \<open>
  The properties of the store: event sourcing, optimistic concurrency, checkpoints, the journal of
  tool actions, leases, reviews and changes of plan. Each is a few steps over the lemmas of
  \<open>Ledger\<close>, \<open>Action_Journal\<close> and \<open>Store_Run\<close>.
\<close>

section \<open>A concrete reachable store\<close>

definition sha0 :: "json \<Rightarrow> string" where
  "sha0 v = ''digest''"

definition demo_plan_row :: plan where
  "demo_plan_row = \<lparr>pl_id = ''p'', pl_version = 1, pl_milestones = demo_plan, pl_metadata = []\<rparr>"

lemma reachable_ok:
  assumes "reachable sha d"
  shows "ledger_ok sha d" "journal_ok d"
  using reachable_store_ok [OF assms] by (auto simp: store_ok_def)

lemma find_quest_append:
  assumes "append_locked sha qid ty patch v schema now d = Inr (ev, d')" and "ledger_ok sha d"
  obtains row where "find_quest d qid = Some row" "q_version row = v"
    "find_quest d' qid = Some (advanced patch now row)"
    "ev = new_event sha d row ty patch now"
proof -
  have dist: "distinct (map q_id (quests d))" using assms(2) by (simp add: ledger_ok_def)
  obtain row where row: "find_quest d qid = Some row" "q_version row = v"
    and ev: "ev = new_event sha d row ty patch now"
    and d': "d' = d\<lparr>events := events d @ [ev], next_event := next_event d + 1,
           quests := update_where (\<lambda>r. q_id r = qid) (advanced patch now) (quests d)\<rparr>"
    using append_locked_db [OF dist assms(1)] by blast
  have "find_quest d' qid = Some (advanced patch now row)"
    using row(1) quest_table.select_update_same [of qid "(patch, now)" "quests d"]
    by (simp add: d' find_quest_def)
  with row ev that show thesis by blast
qed

lemma create_draft_succeeds:
  assumes ok: "store_ok sha d" and "validate_plan (pl_milestones p) = Inr ms"
    and fresh: "find_quest d qid = None" and "contracts d = []" and "plans d = []"
  shows "\<exists>s d'. create_draft sha qid c p ws route st now d = Inr (s, d') \<and>
    (\<exists>row. find_quest d' qid = Some row \<and> q_version row = 1 \<and> q_state row = s)"
proof -
  let ?row = "\<lparr>q_id = qid, q_state = [], q_version = 0, q_status = JStr st, q_created = now,
      q_updated = now\<rparr>"
  let ?d1 = "d\<lparr>quests := quests d @ [?row]\<rparr>"
  let ?patch = "initial_state qid c p ms ws route st now"
  obtain d2 where d2: "insert_contract qid c now ?d1 = Inr d2" "plans d2 = []"
    using assms(4,5) by (auto simp: insert_contract_def Let_def)
  obtain d3 where d3: "insert_plan qid p ms now d2 = Inr d3"
    using d2(2) by (auto simp: insert_plan_def Let_def)
  have "ledger_ok sha ?d1" using ledger_ok_new_quest [OF _ fresh] ok by (simp add: store_ok_def)
  then have ok3: "ledger_ok sha d3"
    using insert_contract_frame [OF d2(1)] insert_plan_frame [OF d3] by (metis ledger_ok_cong)
  have "find_quest ?d1 qid = Some ?row"
    using fresh by (simp add: find_quest_def select_one_append)
  then have q3: "find_quest d3 qid = Some ?row"
    using insert_contract_frame [OF d2(1)] insert_plan_frame [OF d3] by (simp add: find_quest_def)
  obtain ev d4 where app: "append_locked sha qid ''QuestDrafted'' ?patch 0 EVENT_SCHEMA_VERSION now d3 =
      Inr (ev, d4)"
    using append_locked_succeeds [OF ok3 q3, of "''QuestDrafted''" ?patch now] by auto
  obtain row where "find_quest d4 qid = Some (advanced ?patch now row)" "q_version row = 0"
    using find_quest_append [OF app ok3] by blast
  then show ?thesis
    using d2 d3 app assms(2) fresh
    by (simp add: create_draft_def Let_def require_quest_def get_quest_def advanced_def)
qed

lemma demo_draft:
  "\<exists>s d row. create_draft sha0 ''q1'' [] demo_plan_row None None ''planned'' ''t'' empty_db = Inr (s, d) \<and>
     reachable sha0 d \<and> find_quest d ''q1'' = Some row \<and> q_version row = 1 \<and> q_state row = s"
proof -
  obtain s d row where d: "create_draft sha0 ''q1'' [] demo_plan_row None None ''planned'' ''t'' empty_db = Inr (s, d)"
    "find_quest d ''q1'' = Some row" "q_version row = 1" "q_state row = s"
    using create_draft_succeeds [OF store_ok_empty, of demo_plan_row "map normal_milestone demo_plan"
        "''q1''" sha0 "[]" None None "''planned''" "''t''"]
      plan_graph_ok_validates [OF demo_plan_ok]
    by (auto simp: demo_plan_row_def find_quest_def empty_db_def)
  then show ?thesis using reachable.step [OF reachable.start store_step.draft [OF d(1)]] by blast
qed

lemma steps_reachable: "(store_step sha)\<^sup>*\<^sup>* d d' \<Longrightarrow> reachable sha d \<Longrightarrow> reachable sha d'"
  by (induction rule: rtranclp_induct) (auto intro: reachable.step)

lemma steps_grow:
  assumes "(store_step sha)\<^sup>*\<^sup>* d d'" and "reachable sha d"
  shows "\<exists>es. events d' = events d @ es"
  using assms
proof (induction rule: rtranclp_induct)
  case base
  then show ?case by simp
next
  case (step d1 d2)
  then have "extends d1 d2"
    using store_step_ok reachable_store_ok steps_reachable by blast
  then show ?case using step.IH [OF step.prems] by (auto simp: extends_def)
qed

text \<open>The row of an action along a run.\<close>

lemma row_step:
  assumes st: "store_step sha d d'" and re: "reachable sha d" and r: "find_action d aid = Some r"
  shows "\<exists>r'. find_action d' aid = Some r' \<and> row_advances r r'"
proof -
  have "journal_advances d d'" using store_step_ok [OF st reachable_store_ok [OF re]]
    by (simp add: extends_def)
  then obtain r' where r': "r' \<in> set (actions d')" "row_advances r r'"
    using find_action_in [OF r] unfolding journal_advances_def by blast
  have "distinct (map a_id (actions d'))"
    using reachable_ok(2) [OF reachable.step [OF re st]] by (simp add: journal_ok_def)
  then have "find_action d' (a_id r') = Some r'"
    using action_link.select_key_distinct r'(1) unfolding find_action_def by blast
  moreover have "a_id r' = aid" using r'(2) find_action_in [OF r] by (simp add: row_advances_def)
  ultimately show ?thesis using r'(2) by auto
qed

definition row_follows :: "action_row \<Rightarrow> action_row \<Rightarrow> bool" where
  "row_follows r r' \<longleftrightarrow>
     a_quest r' = a_quest r \<and> a_key r' = a_key r \<and> a_tool r' = a_tool r \<and>
     a_args_hash r' = a_args_hash r \<and> a_args r' = a_args r \<and>
     action_edge\<^sup>*\<^sup>* (a_status r) (a_status r') \<and>
     (a_status r = ActCommitted \<longrightarrow> a_result r' = a_result r) \<and>
     (a_event r \<noteq> None \<longrightarrow> a_event r' = a_event r)"

lemma row_run:
  assumes "(store_step sha)\<^sup>*\<^sup>* d d'" and "reachable sha d" and "find_action d aid = Some r"
  shows "\<exists>r'. find_action d' aid = Some r' \<and> row_follows r r'"
  using assms
proof (induction rule: rtranclp_induct)
  case base
  then show ?case by (auto simp: row_follows_def)
next
  case (step d1 d2)
  then obtain r1 where r1: "find_action d1 aid = Some r1" "row_follows r r1" by blast
  have re1: "reachable sha d1" using steps_reachable step.hyps(1) step.prems(1) by blast
  obtain r2 where r2: "find_action d2 aid = Some r2" "row_advances r1 r2"
    using row_step [OF step.hyps(2) re1 r1(1)] by blast
  have edge: "action_edge\<^sup>*\<^sup>* (a_status r1) (a_status r2)"
    using r2(2) by (auto simp: row_advances_def)
  have "a_status r1 = ActCommitted" if c: "a_status r = ActCommitted"
  proof -
    have "action_edge\<^sup>*\<^sup>* ActCommitted (a_status r1)" using r1(2) c by (simp add: row_follows_def)
    then show ?thesis by (cases rule: converse_rtranclpE) (auto elim: action_edge_from_committed)
  qed
  then have "row_follows r r2"
    using r1(2) r2(2) edge unfolding row_follows_def row_advances_def
    by (auto intro: rtranclp_trans)
  then show ?case using r2(1) by blast
qed

section \<open>Event sourcing\<close>

text \<open>
  Claim C1. The projection is the replay of the log: in every reachable database the state stored
  for a Quest is what replaying its events gives, from the start or from the latest checkpoint,
  and no replay fails its checksum.
\<close>

theorem projection_is_replay:
  assumes "reachable sha d" and "find_quest d qid = Some row"
  shows "replay sha d qid from_checkpoint = Inr (q_state row)"
  using replay_full [OF reachable_ok(1) [OF assms(1)] assms(2)]
    replay_suffix [OF reachable_ok(1) [OF assms(1)] assms(2)]
  by (cases from_checkpoint) auto

theorem projection_is_replay_witness:
  "\<exists>d row. find_quest d ''q1'' = Some row \<and> replay sha0 d ''q1'' True = Inr (q_state row)"
  using projection_is_replay demo_draft by blast

text \<open>
  Claim C2. Events have no gaps: in every reachable database the events of a Quest at version n are
  numbered 1 to n, in order, each leading from its predecessor's version to its own.
\<close>

theorem events_are_gapless:
  assumes "reachable sha d" and "find_quest d qid = Some row"
  shows "map ev_sequence (list_events d qid 0) = [1..<Suc (q_version row)] \<and>
    (\<forall>e \<in> set (list_events d qid 0). ev_after e = ev_sequence e \<and> ev_before e + 1 = ev_after e)"
proof -
  have l: "ledger_ok sha d" by (rule reachable_ok(1) [OF assms(1)])
  have q: "quest_ok sha d row" "q_id row = qid"
    using ledger_quest_ok [OF l assms(2)] find_quest_in [OF assms(2)] by auto
  then have eq: "list_events d qid 0 = quest_events d qid" using list_events_after [OF q(1), of 0] by simp
  have "\<forall>e \<in> set (quest_events d qid). event_ok e" using l by (simp add: ledger_ok_def quest_events_def)
  then show ?thesis using q by (auto simp: eq quest_ok_def event_ok_def)
qed

theorem events_are_gapless_witness:
  "\<exists>d. map ev_sequence (list_events d ''q1'' 0) = [1]"
proof -
  obtain d row where "reachable sha0 d" "find_quest d ''q1'' = Some row" "q_version row = 1"
    using demo_draft by blast
  then have "map ev_sequence (list_events d ''q1'' 0) = [1..<Suc 1]"
    using events_are_gapless [of sha0 d "''q1''" row] by simp
  then have "map ev_sequence (list_events d ''q1'' 0) = [1]" by simp
  then show ?thesis by (rule exI)
qed

text \<open>
  The log is append-only: whatever operations run, the events that were stored stay, in
  place and unchanged, and every operation only adds events at the end.
\<close>

lemma log_append_only:
  assumes "(store_step sha)\<^sup>*\<^sup>* d d'" and "reachable sha d"
  shows "\<exists>es. events d' = events d @ es"
  by (rule steps_grow [OF assms])

theorem log_append_only_witness:
  "\<exists>d es. (store_step sha0)\<^sup>*\<^sup>* empty_db d \<and> events d = events empty_db @ es \<and>
     find_quest d ''q1'' \<noteq> None"
proof -
  obtain s d row where "create_draft sha0 ''q1'' [] demo_plan_row None None ''planned'' ''t'' empty_db = Inr (s, d)"
    "find_quest d ''q1'' = Some row"
    using demo_draft by blast
  then have "(store_step sha0)\<^sup>*\<^sup>* empty_db d" using store_step.draft by blast
  then show ?thesis
    using log_append_only [OF _ reachable.start, of sha0 d] \<open>find_quest d ''q1'' = Some row\<close> by auto
qed

section \<open>Optimistic concurrency\<close>

text \<open>
  Claim C11. Of two writers that read the same version only one wins: after an append under version
  v succeeds, it has sequence v + 1, and any other append to that Quest under version v is refused
  with a state version conflict.
\<close>

theorem stale_append_refused:
  assumes "reachable sha d" and "append_event sha qid ty patch v schema now d = Inr (ev, d')"
  shows "ev_sequence ev = v + 1 \<and>
    append_event sha qid ty' patch' v EVENT_SCHEMA_VERSION now' d' =
      Inl (ValueError ''state version conflict'')"
proof -
  obtain row where row: "q_version row = v" "find_quest d' qid = Some (advanced patch now row)"
    "ev = new_event sha d row ty patch now"
    using find_quest_append [OF assms(2) [unfolded append_event_def]
        reachable_ok(1) [OF assms(1)]] by blast
  then show ?thesis
    using append_locked_conflict [OF row(2)]
    by (simp add: append_event_def new_event_def advanced_def Let_def)
qed

text \<open>
  Claim C23. A writer that is up to date always succeeds: in every reachable database an append to
  an existing Quest under its current version returns an event of the next version, whose state
  hash is the hash of the new projection.
\<close>

theorem current_append_succeeds:
  assumes "reachable sha d" and "find_quest d qid = Some row"
  shows "\<exists>ev d' row'. append_event sha qid ty patch (q_version row) EVENT_SCHEMA_VERSION now d =
      Inr (ev, d') \<and> ev_sequence ev = q_version row + 1 \<and> find_quest d' qid = Some row' \<and>
    q_version row' = q_version row + 1 \<and> ev_hash ev = stable_hash sha (JObj (q_state row'))"
proof -
  have l: "ledger_ok sha d" by (rule reachable_ok(1) [OF assms(1)])
  obtain d' where app: "append_locked sha qid ty patch (q_version row) EVENT_SCHEMA_VERSION now d =
      Inr (new_event sha d row ty patch now, d')"
    using append_locked_succeeds [OF l assms(2)] by blast
  then have "find_quest d' qid = Some (advanced patch now row)"
    using find_quest_append [OF app l] assms(2) by (metis option.inject)
  with app show ?thesis by (simp add: append_event_def new_event_def advanced_def Let_def)
qed

theorem current_append_succeeds_witness:
  "\<exists>d ev d'. append_event sha0 ''q1'' ''Note'' [] 1 EVENT_SCHEMA_VERSION ''t'' d = Inr (ev, d') \<and>
     ev_sequence ev = 2"
proof -
  obtain d row where "reachable sha0 d" "find_quest d ''q1'' = Some row" "q_version row = 1"
    using demo_draft by blast
  then show ?thesis using current_append_succeeds [of sha0 d "''q1''" row "''Note''" "[]" "''t''"]
    by fastforce
qed

theorem stale_append_refused_witness:
  "\<exists>d. append_event sha0 ''q1'' ''B'' [] 1 EVENT_SCHEMA_VERSION ''t'' d =
     Inl (ValueError ''state version conflict'') \<and> find_quest d ''q1'' \<noteq> None"
proof -
  obtain d row where d: "reachable sha0 d" "find_quest d ''q1'' = Some row" "q_version row = 1"
    using demo_draft by blast
  obtain d' where app: "append_locked sha0 ''q1'' ''A'' [] 1 EVENT_SCHEMA_VERSION ''t'' d =
      Inr (new_event sha0 d row ''A'' [] ''t'', d')"
    using append_locked_succeeds [OF reachable_ok(1) [OF d(1)] d(2), of "''A''" "[]" "''t''"] d(3)
    by auto
  have "find_quest d' ''q1'' \<noteq> None"
    using find_quest_append [OF app reachable_ok(1) [OF d(1)]] by auto
  then show ?thesis
    using stale_append_refused [OF d(1), of "''q1''" "''A''" "[]" 1 EVENT_SCHEMA_VERSION "''t''"
        _ d' "''B''" "[]" "''t''"] app by (auto simp: append_event_def)
qed

text \<open>
  A group of events is atomic and contiguous: if \<^verbatim>\<open>append_events\<close> succeeds on a Quest at
  version n, its events are numbered n + 1 to n + k in order and the Quest is at version n + k; if
  the expected version is stale, nothing is appended.
\<close>

lemma event_group_contiguous:
  assumes "reachable sha d" and "find_quest d qid = Some row"
    and "\<forall>(ty, patch) \<in> set es. distinct (map fst patch)"
    and "append_events sha qid es v now d = Inr (evs, d')"
  shows "map ev_sequence evs = [Suc v..<Suc (v + length es)] \<and>
    (\<exists>row'. find_quest d' qid = Some row' \<and> q_version row' = q_version row + length es) \<and>
    (es \<noteq> [] \<longrightarrow> v = q_version row)"
  using append_all_versions [OF reachable_ok(1) [OF assms(1)] assms(2)
      assms(4) [unfolded append_events_def] assms(3)] by blast

lemma append_all_succeeds:
  assumes "ledger_ok sha d" and "find_quest d qid = Some row"
    and "\<forall>(ty, patch) \<in> set es. distinct (map fst patch)"
  shows "\<exists>evs d'. append_all sha qid es (q_version row) now d = Inr (evs, d')"
  using assms
proof (induction es arbitrary: d row)
  case Nil
  then show ?case by simp
next
  case (Cons e es)
  obtain ty patch where e: "e = (ty, patch)" by (cases e)
  obtain d1 where app: "append_locked sha qid ty patch (q_version row) EVENT_SCHEMA_VERSION now d =
      Inr (new_event sha d row ty patch now, d1)"
    using append_locked_succeeds [OF Cons.prems(1,2)] by blast
  have "ledger_ok sha d1"
    using append_locked_ledger_ok [OF Cons.prems(1) _ app] Cons.prems(3) e by simp
  moreover have "find_quest d1 qid = Some (advanced patch now row)"
    using find_quest_append [OF app Cons.prems(1)] Cons.prems(2) by (metis option.inject)
  ultimately show ?case using Cons.IH [of d1 "advanced patch now row"] Cons.prems(3) app e
    by (auto simp: advanced_def Let_def)
qed

theorem event_group_contiguous_witness:
  "\<exists>d evs d'. append_events sha0 ''q1'' [(''A'', []), (''B'', [])] 1 ''t'' d = Inr (evs, d') \<and>
     map ev_sequence evs = [2, 3]"
proof -
  let ?es = "[(''A'', []), (''B'', [])] :: (string \<times> dict) list"
  obtain d row where d: "reachable sha0 d" "find_quest d ''q1'' = Some row" "q_version row = 1"
    using demo_draft by blast
  obtain evs d' where app: "append_events sha0 ''q1'' ?es 1 ''t'' d = Inr (evs, d')"
    using append_all_succeeds [OF reachable_ok(1) [OF d(1)] d(2), of ?es "''t''"] d(3)
    by (auto simp: append_events_def)
  have "\<forall>(ty, patch) \<in> set ?es. distinct (map fst patch)" by simp
  from event_group_contiguous [OF d(1,2) this app]
  have "map ev_sequence evs = [Suc 1..<Suc (1 + length ?es)]" by blast
  then have nums: "map ev_sequence evs = [2, 3]"
    by (simp add: upt_rec numeral_2_eq_2 numeral_3_eq_3)
  show ?thesis by (intro exI conjI) (rule app, rule nums)
qed

section \<open>Checkpoints\<close>

lemma checkpoint_okD:
  assumes "ledger_ok sha d" and "c \<in> set (checkpoints d)" and "find_quest d (ck_quest c) = Some row"
  shows "ck_version c \<le> q_version row" "ck_hash c = stable_hash sha (JObj (ck_state c))"
    "replay_loop sha [] (take (ck_version c) (list_events d (ck_quest c) 0)) = Inr (ck_state c)"
    "replay_loop sha (ck_state c) (list_events d (ck_quest c) (ck_version c)) = Inr (q_state row)"
    "ck_version c = q_version row \<Longrightarrow> ck_state c = q_state row"
proof -
  have ok: "checkpoint_ok sha d c" using assms(1,2) by (simp add: ledger_ok_def)
  then show "ck_version c \<le> q_version row" "ck_hash c = stable_hash sha (JObj (ck_state c))"
    using assms(3) by (auto simp: checkpoint_ok_def)
  have q: "quest_ok sha d row" "q_id row = ck_quest c"
    using ledger_quest_ok [OF assms(1,3)] find_quest_in [OF assms(3)] by auto
  have len: "length (quest_events d (ck_quest c)) = q_version row" using quest_ok_lengthD [OF q(1)] q(2) by simp
  have ev: "list_events d (ck_quest c) n = drop n (quest_events d (ck_quest c))" for n
    using list_events_after [OF q(1)] q(2) by simp
  have pre: "replay_loop sha [] (take (ck_version c) (quest_events d (ck_quest c))) = Inr (ck_state c)"
    using ok by (simp add: checkpoint_ok_def)
  then show "replay_loop sha [] (take (ck_version c) (list_events d (ck_quest c) 0)) = Inr (ck_state c)"
    by (simp add: ev)
  have "replay_loop sha [] (take (ck_version c) (quest_events d (ck_quest c)) @
      drop (ck_version c) (quest_events d (ck_quest c))) = Inr (q_state row)"
    using q by (simp add: quest_ok_def)
  with pre show post: "replay_loop sha (ck_state c) (list_events d (ck_quest c) (ck_version c)) = Inr (q_state row)"
    by (simp only: replay_loop_append andThen.simps ev)
  show "ck_state c = q_state row" if "ck_version c = q_version row"
    using post that len by (simp add: ev)
qed

lemma validate_version:
  assumes ok: "ledger_ok sha d"
  shows "validate_checkpoint sha d qid (Some v) =
    Inr (\<exists>c \<in> set (checkpoints d). ck_quest c = qid \<and> ck_version c = v)"
proof (cases "select_one (\<lambda>c. ck_quest c = qid \<and> ck_version c = v) (checkpoints d)")
  case None
  then have "\<not> (\<exists>c \<in> set (checkpoints d). ck_quest c = qid \<and> ck_version c = v)"
    by (auto simp: select_one_None_iff)
  then show ?thesis using None by (simp add: validate_checkpoint_def)
next
  case (Some c)
  then have c: "c \<in> set (checkpoints d)" "ck_quest c = qid" "ck_version c = v"
    using select_one_Some_in [OF Some] by auto
  then have "checkpoint_ok sha d c" using ok by (simp add: ledger_ok_def)
  then obtain row where row: "find_quest d qid = Some row" using c(2) by (auto simp: checkpoint_ok_def)
  have "stable_hash sha (JObj (ck_state c)) = ck_hash c" using checkpoint_okD(2) [OF ok c(1)] row c(2) by simp
  then show ?thesis using Some c row replay_full [OF ok row] replay_suffix [OF ok row]
    by (auto simp: validate_checkpoint_def get_quest_def)
qed

lemma validate_latest:
  assumes "ledger_ok sha d"
  shows "validate_checkpoint sha d qid None = Inr (has_checkpoint d qid)"
proof (cases "has_checkpoint d qid")
  case False
  then have "filter (\<lambda>c. ck_quest c = qid) (checkpoints d) = []"
    by (auto simp: has_checkpoint_def select_one_None_iff filter_empty_conv)
  then show ?thesis using False by (simp add: validate_checkpoint_def latest_checkpoint_def)
qed (simp add: validate_latest_checkpoint [OF assms])

lemma save_checkpoint_succeeds:
  assumes ok: "ledger_ok sha d" and row: "find_quest d qid = Some row"
  shows "\<exists>h d' c. save_checkpoint sha qid now d = Inr ((q_version row, h), d') \<and> c \<in> set (checkpoints d') \<and>
    ck_quest c = qid \<and> ck_version c = q_version row \<and> ck_state c = q_state row"
proof (cases "select_one (\<lambda>c. ck_quest c = qid \<and> ck_version c = q_version row) (checkpoints d)")
  case None
  then show ?thesis using row by (auto simp: save_checkpoint_def Let_def)
next
  case (Some c)
  then have c: "c \<in> set (checkpoints d)" "ck_quest c = qid" "ck_version c = q_version row"
    using select_one_Some_in [OF Some] by auto
  then have "ck_hash c = stable_hash sha (JObj (q_state row))" "ck_state c = q_state row"
    using checkpoint_okD(2,5) [OF ok c(1)] row by simp_all
  then show ?thesis using Some row c by (auto simp: save_checkpoint_def Let_def)
qed

text \<open>
  Claim C24. A checkpoint can be trusted: in every reachable database, whatever ran since it was
  saved, validating the latest checkpoint of a Quest, or the one at a given version, says true exactly
  when there is one. Every checkpoint of a Quest holds what replaying the log up to its version gives,
  and replaying the later events from it gives the projection. Saving a checkpoint of an existing
  Quest never finds a conflict and leaves one of the current version and state.
\<close>

theorem checkpoint_always_valid:
  assumes "reachable sha d"
  shows "validate_checkpoint sha d qid None = Inr (has_checkpoint d qid) \<and>
    validate_checkpoint sha d qid (Some v) =
      Inr (\<exists>c \<in> set (checkpoints d). ck_quest c = qid \<and> ck_version c = v) \<and>
    (\<forall>row. find_quest d qid = Some row \<longrightarrow>
       (\<forall>c \<in> set (checkpoints d). ck_quest c = qid \<longrightarrow>
          replay_loop sha [] (take (ck_version c) (list_events d qid 0)) = Inr (ck_state c) \<and>
          replay_loop sha (ck_state c) (list_events d qid (ck_version c)) = Inr (q_state row)) \<and>
       (\<exists>h d' c. save_checkpoint sha qid now d = Inr ((q_version row, h), d') \<and> c \<in> set (checkpoints d') \<and>
          ck_quest c = qid \<and> ck_version c = q_version row \<and> ck_state c = q_state row))"
proof -
  have l: "ledger_ok sha d" by (rule reachable_ok(1) [OF assms])
  show ?thesis
    using validate_latest [OF l] validate_version [OF l] checkpoint_okD(3,4) [OF l]
      save_checkpoint_succeeds [OF l] by blast
qed

text \<open>A checkpoint at version 1, and one more event.\<close>

theorem checkpoint_always_valid_witness:
  "\<exists>d row c. find_quest d ''q1'' = Some row \<and> q_version row = 2 \<and> c \<in> set (checkpoints d) \<and>
     ck_version c = 1 \<and> replay_loop sha0 (ck_state c) (list_events d ''q1'' 1) = Inr (q_state row) \<and>
     validate_checkpoint sha0 d ''q1'' None = Inr True"
proof -
  obtain d row where d: "reachable sha0 d" "find_quest d ''q1'' = Some row" "q_version row = 1"
    using demo_draft by blast
  obtain h d1 c where d1: "save_checkpoint sha0 ''q1'' ''t'' d = Inr ((1, h), d1)" "c \<in> set (checkpoints d1)"
      "ck_quest c = ''q1''" "ck_version c = 1"
    using checkpoint_always_valid [OF d(1), of "''q1''" _ "''t''"] d(2,3) by force
  have r1: "reachable sha0 d1" by (rule reachable.step [OF d(1) store_step.checkpoint [OF d1(1)]])
  have "quests d1 = quests d"
    using d1(1) by (auto simp: save_checkpoint_def Let_def split: option.splits if_splits)
  then have q1: "find_quest d1 ''q1'' = Some row" using d(2) by (simp add: find_quest_def)
  obtain d2 where app: "append_locked sha0 ''q1'' ''Note'' [] 1 EVENT_SCHEMA_VERSION ''t'' d1 =
      Inr (new_event sha0 d1 row ''Note'' [] ''t'', d2)"
    using append_locked_succeeds [OF reachable_ok(1) [OF r1] q1, of "''Note''" "[]" "''t''"] d(3) by auto
  have r2: "reachable sha0 d2"
    by (rule reachable.step [OF r1 store_step.append [OF app [folded append_event_def]]]) simp
  obtain row1 where row1: "q_version row1 = 1" "find_quest d2 ''q1'' = Some (advanced [] ''t'' row1)"
    using find_quest_append [OF app reachable_ok(1) [OF r1]] by blast
  define row2 where "row2 = advanced [] ''t'' row1"
  have row2: "find_quest d2 ''q1'' = Some row2" "q_version row2 = 2"
    using row1 by (simp_all add: row2_def advanced_def Let_def)
  have "checkpoints d2 = checkpoints d1" using append_locked_Inr [OF app] by auto
  then have c2: "c \<in> set (checkpoints d2)" using d1(2) by simp
  then have "has_checkpoint d2 ''q1''" using d1(3) by (auto simp: has_checkpoint_def select_one_None_iff)
  moreover have "replay_loop sha0 (ck_state c) (list_events d2 ''q1'' (ck_version c)) = Inr (q_state row2)"
    and "validate_checkpoint sha0 d2 ''q1'' None = Inr (has_checkpoint d2 ''q1'')"
    using checkpoint_always_valid [OF r2, of "''q1''" 1 "''t''"] row2(1) c2 d1(3) by blast+
  ultimately show ?thesis using row2 c2 d1(4) by (intro exI [of _ d2] exI [of _ row2] exI [of _ c]) simp
qed

section \<open>The journal of tool actions\<close>


text \<open>An action in every status, for the witnesses.\<close>

lemma demo_empty_journal:
  "\<exists>d row. reachable sha0 d \<and> find_quest d ''q1'' = Some row \<and> q_version row = 1 \<and> actions d = []"
proof -
  obtain s d row where cd: "create_draft sha0 ''q1'' [] demo_plan_row None None ''planned'' ''t'' empty_db =
      Inr (s, d)" and d: "reachable sha0 d" "find_quest d ''q1'' = Some row" "q_version row = 1"
    using demo_draft by blast
  have "insert_contract q c n x = Inr y \<Longrightarrow> actions y = actions x"
    "insert_plan q p ms n x = Inr y \<Longrightarrow> actions y = actions x" for q c n p ms and x y :: db
    using insert_contract_core insert_plan_core by (auto simp: same_core_def)
  then have "actions d = []"
    using cd append_locked_frame
    by (fastforce simp: create_draft_def Let_def result_simps empty_db_def
        split: sum.splits if_splits)
  then show ?thesis using d by blast
qed

lemma demo_prepared:
  "\<exists>d row r. reachable sha0 d \<and> find_quest d ''q1'' = Some row \<and> q_version row = 1 \<and>
     find_action d ''a1'' = Some r \<and> a_status r = ActPrepared \<and> a_quest r = ''q1'' \<and>
     a_key r = ''k1'' \<and> a_tool r = ''write_file'' \<and> a_args_hash r = ''h'' \<and>
     actions d = [r] \<and> a_event r = None"
proof -
  obtain d row where d: "reachable sha0 d" "find_quest d ''q1'' = Some row" "q_version row = 1"
    "actions d = []"
    using demo_empty_journal by blast
  then obtain r d' where p: "prepare_action ''a1'' ''q1'' ''m'' ''k1'' ''write_file'' ''h'' [] 1 None ''t'' d =
      Inr (r, d')" and r: "find_action d' ''a1'' = Some r" "a_status r = ActPrepared" "a_quest r = ''q1''"
      "a_key r = ''k1''" "a_tool r = ''write_file''" "a_args_hash r = ''h''"
      "actions d' = [r]" "a_event r = None"
      and q: "quests d' = quests d"
    by (auto simp: prepare_action_def find_action_def Let_def)
  have "reachable sha0 d'" using reachable.step [OF d(1) store_step.prepare [OF p]] .
  moreover have "find_quest d' ''q1'' = Some row" using d(2) q by (simp add: find_quest_def)
  ultimately show ?thesis using r d(3) by blast
qed

lemma demo_dispatched:
  "\<exists>d d' r r'. reachable sha0 d \<and> mark_action_dispatched ''a1'' ''t'' d = Inr (r', d') \<and>
     find_action d ''a1'' = Some r \<and> a_status r = ActPrepared \<and>
     reachable sha0 d' \<and> find_action d' ''a1'' = Some r' \<and> a_status r' = ActDispatched \<and>
     a_quest r' = ''q1'' \<and> (\<exists>row. find_quest d' ''q1'' = Some row) \<and> actions d' = [r'] \<and>
     a_event r' = None"
proof -
  obtain d row r where d: "reachable sha0 d" "find_quest d ''q1'' = Some row"
    "find_action d ''a1'' = Some r" "a_status r = ActPrepared" "a_quest r = ''q1''" "actions d = [r]"
    "a_event r = None"
    using demo_prepared by blast
  let ?f = "transition_row ActDispatched None None ''t''"
  let ?d' = "d\<lparr>actions := update_where (\<lambda>r. a_id r = ''a1'') ?f (actions d)\<rparr>"
  have m: "mark_action_dispatched ''a1'' ''t'' d = Inr (?f r, ?d')"
    using d by (simp add: mark_action_dispatched_def transition_action_def)
  have "find_action ?d' ''a1'' = Some (?f r)"
    by (rule find_action_update [OF d(3)]) (simp_all add: transition_row_def [abs_def])
  moreover have "reachable sha0 ?d'" by (rule reachable.step [OF d(1) store_step.dispatch [OF m]])
  moreover have "find_quest ?d' ''q1'' = Some row" using d(2) by (simp add: find_quest_def)
  moreover have "actions ?d' = [?f r]" using d(3,6) find_action_in [OF d(3)] by simp
  ultimately show ?thesis using m d by (auto simp: transition_row_def)
qed


text \<open>
  Preparing an action is idempotent: once a key of a Quest is used, preparing again with
  the same tool and arguments (under any action id, any version) returns the stored action and
  changes nothing, and with another tool or other arguments it is refused.
\<close>

lemma prepare_is_idempotent:
  assumes "reachable sha d"
    and "prepare_action aid qid mid key tool h args v pre now d = Inr (row, d')"
  shows "prepare_action aid' qid mid' key tool' h' args' v' pre' now' d' =
    (if h' = h \<and> tool' = tool then Inr (row, d')
     else Inl (ValueError ''idempotency key conflict''))"
proof -
  have j: "journal_ok d'" by (rule prepare_action_journal_ok [OF reachable_ok(2) [OF assms(1)] assms(2)])
  obtain q where q: "find_quest d qid = Some q"
    using assms(2) by (cases "find_quest d qid") (auto simp: prepare_action_def)
  have row: "row \<in> set (actions d')" "a_quest row = qid" "a_key row = key" "a_args_hash row = h"
    "a_tool row = tool" "quests d' = quests d"
    using assms(2) by (cases rule: prepare_action_cases; auto)+
  have "select_one (\<lambda>r. a_quest r = qid \<and> a_key r = key) rs = Some row"
    if "row \<in> set rs" "distinct (map (\<lambda>r. (a_quest r, a_key r)) rs)" for rs
    using that row(2,3) by (induction rs) (auto simp: image_iff)
  then have "select_one (\<lambda>r. a_quest r = qid \<and> a_key r = key) (actions d') = Some row"
    using j row(1) by (simp add: journal_ok_def)
  then show ?thesis using q row by (auto simp: prepare_action_def find_quest_def)
qed

lemma prepare_is_idempotent_witness:
  "\<exists>d. prepare_action ''a2'' ''q1'' ''m'' ''k1'' ''read_file'' ''h'' [] 9 None ''u'' d =
     Inl (ValueError ''idempotency key conflict'')"
proof -
  obtain d row r where d: "reachable sha0 d" "find_quest d ''q1'' = Some row"
    "find_action d ''a1'' = Some r" "a_quest r = ''q1''" "a_key r = ''k1''" "a_args_hash r = ''h''"
    "a_tool r = ''write_file''"
    using demo_prepared by blast
  have "select_one (\<lambda>r. a_quest r = ''q1'' \<and> a_key r = ''k1'') (actions d) \<noteq> None"
    using find_action_in [OF d(3)] d(4,5) by (auto simp: select_one_None_iff)
  then obtain x where x: "select_one (\<lambda>r. a_quest r = ''q1'' \<and> a_key r = ''k1'') (actions d) = Some x"
    by blast
  have "prepare_action ''a1'' ''q1'' ''m'' ''k1'' (a_tool x) (a_args_hash x) [] 1 None ''t'' d = Inr (x, d)"
    using x d(2) by (simp add: prepare_action_def)
  from prepare_is_idempotent [OF d(1) this, of "''a2''" "''m''" "''read_file''" "''h''" "[]" 9 None "''u''"]
  have eq: "a_tool x \<noteq> ''read_file'' \<Longrightarrow> ?thesis" by auto
  have "x = r"
    using reachable_ok(2) [OF d(1)] select_one_Some_in [OF x] find_action_in [OF d(3)] d(4,5)
      eq_key_imp_eq_value [of "map (\<lambda>r. ((a_quest r, a_key r), r)) (actions d)"]
    by (auto simp: journal_ok_def comp_def image_iff)
  then show ?thesis using eq d(7) by simp
qed

lemma length_filter_distinct:
  "distinct xs \<Longrightarrow> filter (\<lambda>e. 1 < length (filter (\<lambda>e'. e' = e) xs)) ys = []"
proof -
  assume "distinct xs"
  then have "length (filter (\<lambda>e'. e' = e) xs) \<le> 1" for e
    by (induction xs) (auto simp: filter_empty_conv)
  then show ?thesis by (simp add: filter_empty_conv not_less)
qed

lemma linked_distinct:
  assumes "links_unique rs" and "distinct (map a_id rs)"
  shows "distinct [e. r \<leftarrow> rs, e \<leftarrow> (case a_event r of None \<Rightarrow> [] | Some e \<Rightarrow> [e])]"
  using assms
proof (induction rs)
  case Nil
  then show ?case by simp
next
  case (Cons r rs)
  have rest: "links_unique rs"
    using Cons.prems(1) unfolding links_unique_def by (meson list.set_intros(2))
  show ?case
  proof (cases "a_event r")
    case None
    then show ?thesis using Cons rest by simp
  next
    case (Some e)
    have free: "a_event r' \<noteq> Some e" if "r' \<in> set rs" for r'
      using links_uniqueD [OF Cons.prems(1), of r r' e] Some that Cons.prems(2) by force
    have "e \<notin> set [e. r \<leftarrow> rs, e \<leftarrow> (case a_event r of None \<Rightarrow> [] | Some e \<Rightarrow> [e])]"
      using free by (fastforce split: option.splits)
    then show ?thesis using Cons rest Some by simp
  qed
qed

lemma summary_counts:
  assumes "journal_ok d"
  shows "action_recovery_summary d =
    (length (filter (\<lambda>r. a_status r = ActCommitted) (actions d)) - card (orphans d), card (orphans d), 0) \<and>
    card (orphans d) \<le> length (filter (\<lambda>r. a_status r = ActCommitted) (actions d))"
proof -
  have dist: "distinct (map a_id (actions d))" using assms by (simp add: journal_ok_def)
  have "orphans d = set (map a_id (filter (\<lambda>r. a_status r = ActCommitted \<and> a_event r = None) (actions d)))"
    by (auto simp: orphans_def orphan_def)
  moreover have "distinct (map a_id (filter (\<lambda>r. a_status r = ActCommitted \<and> a_event r = None) (actions d)))"
    using dist by (rule distinct_map_filter)
  ultimately have card: "card (orphans d) =
      length (filter (\<lambda>r. a_status r = ActCommitted \<and> a_event r = None) (actions d))"
    using distinct_card by fastforce
  have split: "length (filter (\<lambda>r. a_status r = ActCommitted) rs) =
      length (filter (\<lambda>r. a_status r = ActCommitted \<and> a_event r \<noteq> None) rs) +
      length (filter (\<lambda>r. a_status r = ActCommitted \<and> a_event r = None) rs)" for rs :: "action_row list"
    by (induction rs) auto
  have dis: "distinct [e. r \<leftarrow> actions d, e \<leftarrow> (case a_event r of None \<Rightarrow> [] | Some e \<Rightarrow> [e])]"
    using linked_distinct assms by (simp add: journal_ok_def)
  show ?thesis
    by (simp only: action_recovery_summary_def Let_def length_filter_distinct [OF dis] list.size card split) simp
qed

lemma committed_count:
  fixes as as' :: "action_row list"
  assumes "map a_status as' = map a_status as"
  shows "length (filter (\<lambda>r. a_status r = ActCommitted) as') = length (filter (\<lambda>r. a_status r = ActCommitted) as)"
proof -
  have "length (filter (\<lambda>r. a_status r = ActCommitted) xs) =
      length (filter (\<lambda>s. s = ActCommitted) (map a_status xs))" for xs :: "action_row list"
    by (induction xs) auto
  from this [of as] this [of as'] show ?thesis using assms by simp
qed

text \<open>
  The repair goes through when the match is exact, that is, when \<open>mentions\<close> holds of a receipt and the
  action it names only, and the actions that are linked already are named by their events.
\<close>

definition names_action :: "json \<Rightarrow> string \<Rightarrow> bool" where
  "names_action payload aid \<longleftrightarrow>
     as_dict (dict_get_or (as_dict (dict_get_or (as_dict payload) ''patch'' JNull)) ''last_receipt'' JNull) \<noteq> [] \<and>
     dict_get_or (as_dict (dict_get_or (as_dict (dict_get_or (as_dict payload) ''patch'' JNull)) ''last_receipt'' JNull))
       ''action_id'' JNull = JStr aid"

definition links_named :: "db \<Rightarrow> bool" where
  "links_named d \<longleftrightarrow>
     (\<forall>r \<in> set (actions d). \<forall>e \<in> set (events d). a_event r = Some (ev_id e) \<longrightarrow> names_action (ev_payload e) (a_id r))"

lemma receipt_event_succeeds:
  assumes ok: "store_ok sha d" and row: "row \<in> set (actions d)"
  shows "\<exists>ev d'. receipt_event sha row res now d = Inr (ev, d') \<and> store_ok sha d' \<and> actions d' = actions d \<and>
    events d' = events d @ [ev] \<and> receipt_of d' (ev_id ev) (a_quest row) \<and> names_action (ev_payload ev) (a_id row) \<and>
    (\<forall>r \<in> set (actions d). a_event r \<noteq> Some (ev_id ev))"
proof -
  have j: "journal_ok d" and l: "ledger_ok sha d" using ok by (auto simp: store_ok_def)
  have "action_row_ok d row" by (rule journal_okD(1) [OF j row])
  then obtain q where q: "find_quest d (a_quest row) = Some q"
    by (cases "find_quest d (a_quest row)") (auto simp: action_row_ok_def find_quest_def select_one_None_iff)
  let ?patch = "[(''last_receipt'', JObj (receipt_json row res))]"
  define ev where "ev = new_event sha d q ''ToolCommitted'' ?patch now"
  obtain d' where app: "append_locked sha (a_quest row) ''ToolCommitted'' ?patch (q_version q)
      EVENT_SCHEMA_VERSION now d = Inr (ev, d')"
    unfolding ev_def using append_locked_succeeds [OF l q] by blast
  have free: "a_event r \<noteq> Some (ev_id ev)" if "r \<in> set (actions d)" for r
  proof
    assume "a_event r = Some (ev_id ev)"
    then have "receipt_of d (next_event d) (a_quest r)"
      using journal_okD(1) [OF j that] by (simp add: action_row_ok_def ev_def new_event_def)
    then show False using l by (auto simp: receipt_of_def ledger_ok_def)
  qed
  have "store_ok sha d'" using append_locked_step [OF app _ ok] by simp
  moreover have "actions d' = actions d" "events d' = events d @ [ev]" using append_locked_frame [OF app] by auto
  moreover have "receipt_of d' (ev_id ev) (a_quest row)"
    using append_locked_frame [OF app] find_quest_in [OF q] by (auto simp: receipt_of_def ev_def new_event_def)
  moreover have "names_action (ev_payload ev) (a_id row)"
    by (simp add: names_action_def ev_def new_event_def event_patch_def receipt_json_def dict_get_or_def dict_set_def)
  ultimately show ?thesis using q app free by (auto simp: receipt_event_def)
qed

lemma repair_rows_succeed:
  assumes "store_ok sha d" and "links_named d" and "distinct (map a_id rows)"
    and "\<forall>r \<in> set rows. orphan r \<and> find_action d (a_id r) = Some r"
  shows "\<exists>d'. repair_rows sha names_action rows now d = Inr d'"
  using assms
proof (induction rows arbitrary: d)
  case Nil
  then show ?case by simp
next
  case (Cons row rows)
  let ?es = "filter (\<lambda>e. ev_quest e = a_quest row \<and> ev_type e = ''ToolCommitted'' \<and>
      names_action (ev_payload e) (a_id row)) (events d)"
  have row: "orphan row" "find_action d (a_id row) = Some row" "row \<in> set (actions d)"
    using Cons.prems(4) find_action_in by auto
  have j: "journal_ok d" using Cons.prems(1) by (simp add: store_ok_def)
  obtain res where res: "a_result row = Some res"
    using journal_okD(1) [OF j row(3)] row(1) by (auto simp: action_row_ok_def orphan_def)
  obtain ev d1 where d1: "store_ok sha d1" "actions d1 = actions d" "ev \<in> set (events d1)"
      "receipt_of d1 (ev_id ev) (a_quest row)" "names_action (ev_payload ev) (a_id row)"
      "\<forall>r \<in> set (actions d). a_event r = Some (ev_id ev) \<longrightarrow> a_id r = a_id row"
      "links_named d1"
    and run: "repair_rows sha names_action (row # rows) now d =
      andThen (link_action (a_id row) (ev_id ev) d1) (repair_rows sha names_action rows now)"
  proof (cases ?es)
    case (Cons ev evs)
    then have "ev \<in> set ?es" by simp
    then have ev: "ev \<in> set (events d)" "ev_quest ev = a_quest row" "ev_type ev = ''ToolCommitted''"
      "names_action (ev_payload ev) (a_id row)" by auto
    show thesis
    proof (rule that [of d ev])
      show "\<forall>r \<in> set (actions d). a_event r = Some (ev_id ev) \<longrightarrow> a_id r = a_id row"
        using ev \<open>links_named d\<close> by (auto simp: links_named_def names_action_def)
    qed (use ev Cons Cons.prems in \<open>auto simp: receipt_of_def\<close>)
  next
    case Nil
    obtain ev d1 where r: "receipt_event sha row res now d = Inr (ev, d1)" "store_ok sha d1" "actions d1 = actions d"
      "events d1 = events d @ [ev]" "receipt_of d1 (ev_id ev) (a_quest row)" "names_action (ev_payload ev) (a_id row)"
      "\<forall>r \<in> set (actions d). a_event r \<noteq> Some (ev_id ev)"
      using receipt_event_succeeds [OF Cons.prems(1) row(3)] by blast
    show thesis
    proof (rule that [of d1 ev])
      show "links_named d1" using Cons.prems(2) r(3,4,7) by (auto simp: links_named_def)
    qed (use r Nil res in \<open>auto simp: andThen_assoc\<close>)
  qed
  have "\<not> (\<exists>r \<in> set (actions d1). a_id r \<noteq> a_id row \<and> a_event r = Some (ev_id ev))" using d1(2,6) by auto
  then obtain d2 where link: "link_action (a_id row) (ev_id ev) d1 = Inr d2" by (simp add: link_action_def)
  have row1: "find_action d1 (a_id row) = Some row" using row(2) d1(2) by (simp add: find_action_def)
  have d2: "store_ok sha d2"
      "actions d2 = update_where (\<lambda>r. a_id r = a_id row) (\<lambda>r. r\<lparr>a_event := Some (ev_id ev)\<rparr>) (actions d1)"
    using link_orphan_step [OF d1(1) row1 row(1) d1(4) link] by blast+
  have events2: "events d2 = events d1" using link by (auto simp: link_action_def split: if_splits)
  have uniq: "e = ev" if "e \<in> set (events d1)" "ev_id e = ev_id ev" for e
    using that d1(1,3) by (auto simp: store_ok_def ledger_ok_def distinct_map inj_on_def)
  have "links_named d2"
    using d1(5,7) uniq by (auto simp: links_named_def d2(2) events2 set_update_where split: if_splits)
  moreover have "find_action d2 (a_id r) = Some r" if "r \<in> set rows" for r
  proof -
    have "a_id r \<noteq> a_id row" using Cons.prems(3) that by (force simp: image_iff)
    then show ?thesis using Cons.prems(4) that d1(2) d2(2)
      by (simp add: find_action_def action_link.select_update_other)
  qed
  ultimately have "\<exists>d'. repair_rows sha names_action rows now d2 = Inr d'"
    using Cons.IH [OF d2(1)] Cons.prems(3,4) by auto
  then show ?case using run link by simp
qed

lemma repair_succeeds:
  assumes "store_ok sha d" and "links_named d"
  shows "\<exists>d'. repair_committed_action_events sha names_action now d = Inr d'"
proof -
  have dist: "distinct (map a_id (actions d))" using assms(1) by (simp add: store_ok_def journal_ok_def)
  show ?thesis
    unfolding repair_committed_action_events_def
    using action_link.select_key_distinct [OF dist]
    by (intro repair_rows_succeed [OF assms]) (auto simp: orphan_def find_action_def distinct_map_filter [OF dist])
qed



lemma commit_succeeds:
  assumes ok: "store_ok sha d" and row: "find_action d aid = Some row"
    and st: "a_status row \<in> {ActDispatched, ActUnknownEffect}"
  shows "\<exists>row' d'. commit_action_with_event sha aid res None now now' d = Inr (row', d')"
proof -
  have j: "journal_ok d" and l: "ledger_ok sha d" using ok by (auto simp: store_ok_def)
  let ?f = "transition_row ActCommitted (Some res) None now"
  let ?d1 = "d\<lparr>actions := update_where (\<lambda>r. a_id r = aid) ?f (actions d)\<rparr>"
  have l1: "ledger_ok sha ?d1" by (rule ledger_frame [OF l]) simp_all
  have rok: "action_row_ok d row" using journal_okD(1) [OF j] find_action_in [OF row] by simp
  then obtain q where "q \<in> set (quests d)" "q_id q = a_quest row" by (auto simp: action_row_ok_def)
  then obtain q' where q: "find_quest ?d1 (a_quest row) = Some q'"
    by (cases "find_quest ?d1 (a_quest row)") (auto simp: find_quest_def select_one_None_iff)
  let ?patch = "[(''last_receipt'', JObj (receipt_json row res))]"
  define ev where "ev = new_event sha ?d1 q' ''ToolCommitted'' ?patch now"
  have evid: "ev_id ev = next_event d" by (simp add: ev_def new_event_def)
  obtain d2 where app: "append_locked sha (a_quest row) ''ToolCommitted'' ?patch (q_version q')
      EVENT_SCHEMA_VERSION now ?d1 = Inr (ev, d2)"
    unfolding ev_def using append_locked_succeeds [OF l1 q] by blast
  have acts: "actions d2 = actions ?d1" using append_locked_frame [OF app] by simp
  have "a_event r \<noteq> Some (ev_id ev)" if "r \<in> set (actions d)" for r
  proof
    assume "a_event r = Some (ev_id ev)"
    then have "receipt_of d (next_event d) (a_quest r)"
      using journal_okD(1) [OF j that] by (simp add: action_row_ok_def evid)
    then show False using l by (auto simp: receipt_of_def ledger_ok_def)
  qed
  then have "\<forall>r \<in> set (actions d2). a_id r \<noteq> aid \<longrightarrow> a_event r \<noteq> Some (ev_id ev)"
    unfolding acts by (auto simp: set_update_where transition_row_def split: if_splits)
  then obtain d3 where d3: "link_action aid (ev_id ev) d2 = Inr d3"
    by (cases "link_action aid (ev_id ev) d2") (auto simp: link_action_def split: if_splits)
  have "find_action ?d1 aid = Some (?f row)"
    by (rule find_action_update [OF row]) (simp_all add: transition_row_def [abs_def])
  then have "find_action d2 aid = Some (?f row)" by (simp add: find_action_def acts)
  then have "find_action d3 aid = Some ((?f row)\<lparr>a_event := Some (ev_id ev)\<rparr>)"
    by (rule find_action_update) (use link_action_frame [OF d3] in simp_all)
  then show ?thesis
    using row st q app d3
    by (auto simp: commit_action_with_event_def receipt_event_def Let_def)
qed

lemma commit_again:
  assumes "find_action d aid = Some (committed_row res e now row)"
  shows "commit_action_with_event sha aid res' ob t t' d =
    (if canon (JObj res') = canon (JObj res) then Inr (committed_row res e now row, d)
     else Inl (ValueError ''committed action result conflict''))"
  using assms
  by (simp add: commit_action_with_event_def committed_row_def transition_row_def eq_commute)

text \<open>
  Claim C5. An effect is recorded exactly once: committing a dispatched or unknown action without
  an observation succeeds; it appends exactly one event, the receipt of that action with its result,
  moves that action alone to committed and links it to the event; committing it again with the same
  result changes nothing, and with another result it is refused.
\<close>

theorem commit_records_once:
  assumes "reachable sha d" and "find_action d aid = Some row"
    and "a_status row \<in> {ActDispatched, ActUnknownEffect}"
  shows "\<exists>q ev row' d'. commit_action_with_event sha aid res None now now' d = Inr (row', d') \<and>
    find_quest d (a_quest row) = Some q \<and> events d' = events d @ [ev] \<and>
    ev = new_event sha d q ''ToolCommitted'' [(''last_receipt'', JObj (receipt_json row res))] now \<and>
    actions d' = update_where (\<lambda>r. a_id r = aid) (committed_row res (ev_id ev) now) (actions d) \<and>
    (\<forall>res' ob t t'. commit_action_with_event sha aid res' ob t t' d' =
      (if canon (JObj res') = canon (JObj res) then Inr (row', d')
       else Inl (ValueError ''committed action result conflict'')))"
proof -
  have "a_status row \<noteq> ActCommitted" using assms(3) by auto
  obtain row' d' where com: "commit_action_with_event sha aid res None now now' d = Inr (row', d')"
    using commit_succeeds [OF reachable_store_ok [OF assms(1)] assms(2,3)] by blast
  from commit_effect [OF reachable_ok(2,1) [OF assms(1)] com assms(2) \<open>a_status row \<noteq> ActCommitted\<close>]
  obtain q ev where e: "find_quest d (a_quest row) = Some q"
    "ev = new_event sha d q ''ToolCommitted'' [(''last_receipt'', JObj (receipt_json row res))] now"
    "events d' = events d @ [ev]"
    "actions d' = update_where (\<lambda>r. a_id r = aid) (committed_row res (ev_id ev) now) (actions d)"
    "row' = committed_row res (ev_id ev) now row"
    by blast
  have "find_action d' aid = Some (committed_row res (ev_id ev) now row)"
    by (rule find_action_update [OF assms(2) _ e(4)]) (simp add: committed_row_def transition_row_def)
  from commit_again [OF this] show ?thesis using com e by blast
qed

theorem commit_records_once_witness:
  "\<exists>d d' ev row'. commit_action_with_event sha0 ''a1'' [] None ''t'' ''t'' d = Inr (row', d') \<and>
     events d' = events d @ [ev] \<and> ev_type ev = ''ToolCommitted''"
proof -
  obtain d r where d: "reachable sha0 d" "find_action d ''a1'' = Some r" "a_status r = ActDispatched"
    using demo_dispatched by blast
  then have "a_status r \<in> {ActDispatched, ActUnknownEffect}" by simp
  from commit_records_once [OF d(1,2) this, of "[]" "''t''" "''t''"] obtain q ev row' d'
    where "commit_action_with_event sha0 ''a1'' [] None ''t'' ''t'' d = Inr (row', d')"
      "events d' = events d @ [ev]" and ev: "ev = new_event sha0 d q ''ToolCommitted''
        [(''last_receipt'', JObj (receipt_json r []))] ''t''"
    by blast
  moreover have "ev_type ev = ''ToolCommitted''" by (simp add: ev new_event_def)
  ultimately show ?thesis by blast
qed

text \<open>
  Nothing is left dispatched after a restart: after the startup recovery no action is
  dispatched, each action that was dispatched has an unknown effect and every other one is
  unchanged, and exactly the actions with an unknown effect are listed as unresolved.
\<close>

lemma startup_leaves_nothing_dispatched:
  "(\<forall>r \<in> set (actions (snd (mark_dispatched_actions_unknown now d))). a_status r \<noteq> ActDispatched) \<and>
   filter (\<lambda>r. a_status r \<noteq> ActUnknownEffect) (actions (snd (mark_dispatched_actions_unknown now d))) =
     filter (\<lambda>r. a_status r \<notin> {ActDispatched, ActUnknownEffect}) (actions d) \<and>
   set (list_unresolved_actions (snd (mark_dispatched_actions_unknown now d)) qid) =
     {r \<in> set (actions (snd (mark_dispatched_actions_unknown now d))).
        a_quest r = qid \<and> a_status r = ActUnknownEffect}"
proof -
  let ?d' = "snd (mark_dispatched_actions_unknown now d)"
  have none: "\<forall>r \<in> set (actions ?d'). a_status r \<noteq> ActDispatched"
    by (auto simp: mark_dispatched_actions_unknown_def set_update_where)
  have "filter (\<lambda>r. a_status r \<noteq> ActUnknownEffect) (update_where (\<lambda>r. a_status r = ActDispatched)
      (\<lambda>r. r\<lparr>a_status := ActUnknownEffect, a_error := Some interrupted_error, a_updated := now\<rparr>) rs) =
    filter (\<lambda>r. a_status r \<notin> {ActDispatched, ActUnknownEffect}) rs" for rs :: "action_row list"
    by (induction rs) auto
  with none show ?thesis
    by (auto simp: mark_dispatched_actions_unknown_def list_unresolved_actions_def)
qed

lemma startup_leaves_nothing_dispatched_witness:
  "\<exists>d r. find_action d ''a1'' = Some r \<and> a_status r = ActDispatched \<and>
     (\<exists>x \<in> set (list_unresolved_actions (snd (mark_dispatched_actions_unknown ''u'' d)) ''q1'').
        a_status x = ActUnknownEffect)"
proof -
  obtain d r where d: "reachable sha0 d" "find_action d ''a1'' = Some r"
    "a_status r = ActDispatched" "a_quest r = ''q1''"
    using demo_dispatched by blast
  let ?d' = "snd (mark_dispatched_actions_unknown ''u'' d)"
  let ?r = "r\<lparr>a_status := ActUnknownEffect, a_error := Some interrupted_error, a_updated := ''u''\<rparr>"
  have "r \<in> set (actions d)" using find_action_in [OF d(2)] by simp
  then have "?r \<in> set (actions ?d')"
    using d(3) by (force simp: mark_dispatched_actions_unknown_def set_update_where)
  then have "?r \<in> {r \<in> set (actions ?d'). a_quest r = ''q1'' \<and> a_status r = ActUnknownEffect}"
    using d(4) by simp
  then have "?r \<in> set (list_unresolved_actions ?d' ''q1'')"
    using startup_leaves_nothing_dispatched [of "''u''" d "''q1''"] by blast
  then show ?thesis using d(2,3) by (intro exI conjI bexI [of _ ?r]) simp_all
qed

end
