(* ===== verification/Coordination.thy ===== *)
theory Coordination
  imports Store_Properties
begin

text \<open>
  The properties of leases, artifact reviews and changes of plan.
\<close>

section \<open>Leases\<close>

lemma select_one_filter:
  "select_one p rs = Some r \<Longrightarrow> q r \<Longrightarrow> select_one p (filter q rs) = Some r"
  by (induction rs) (auto split: if_splits)

lemma select_one_update_skip:
  "select_one p rs = Some r \<Longrightarrow> \<not> hit r \<Longrightarrow> (\<And>x. p (f x) = p x) \<Longrightarrow>
   select_one p (update_where hit f rs) = Some r"
  by (induction rs) (auto split: if_splits)

lemma find_lease_put_other:
  assumes "put_lease qid' owner e d = Inr d'" and "qid' \<noteq> qid" and "find_lease d qid = Some l"
  shows "find_lease d' qid = Some l"
proof -
  have "select_one (\<lambda>l. l_quest l = qid) (filter (\<lambda>l. l_quest l \<noteq> qid') (leases d)) = Some l"
    using assms(2,3) select_one_Some_in [of "\<lambda>l. l_quest l = qid" "leases d" l]
    by (intro select_one_filter) (auto simp: find_lease_def)
  then show ?thesis using assms(1)
    by (auto simp: put_lease_def find_lease_def select_one_append split: if_splits)
qed

lemma append_locked_leases:
  "append_locked sha qid ty patch v schema now d = Inr (ev, d') \<Longrightarrow> leases d' = leases d"
  by (drule append_locked_Inr) auto

text \<open>One operation on leases by \<open>owner\<close> at time \<open>clock\<close>, for any Quest.\<close>

inductive lease_op :: "(json \<Rightarrow> string) \<Rightarrow> string \<Rightarrow> rat \<Rightarrow> db \<Rightarrow> db \<Rightarrow> bool" for sha where
  acquire: "acquire_lease qid owner ttl clock d = Inr (b, d') \<Longrightarrow> lease_op sha owner clock d d'"
| admit: "admit_execution sha qid owner ttl v adm clock now d = Inr (r, d') \<Longrightarrow>
    lease_op sha owner clock d d'"
| renew: "renew_lease qid owner ttl clock d = Inr (b, d') \<Longrightarrow> lease_op sha owner clock d d'"
| release: "release_lease qid owner d = (b, d') \<Longrightarrow> lease_op sha owner clock d d'"

text \<open>A run of such operations by owners other than \<open>owner\<close>, all before \<open>deadline\<close>.\<close>

inductive others_run :: "(json \<Rightarrow> string) \<Rightarrow> string \<Rightarrow> rat \<Rightarrow> db \<Rightarrow> db \<Rightarrow> bool"
  for sha owner deadline where
  done_run: "others_run sha owner deadline d d"
| more: "others_run sha owner deadline d d1 \<Longrightarrow> lease_op sha other clock d1 d2 \<Longrightarrow>
    other \<noteq> owner \<Longrightarrow> clock < deadline \<Longrightarrow> others_run sha owner deadline d d2"

lemma lease_op_keeps:
  assumes "lease_op sha other clock d d'" and l: "find_lease d qid = Some l"
    and "other \<noteq> l_owner l" and "clock < l_expires l"
  shows "find_lease d' qid = Some l"
  using assms(1)
proof cases
  case (acquire q ttl b)
  show ?thesis
  proof (cases "q = qid")
    case True
    then show ?thesis using acquire l assms(4) by (auto simp: acquire_lease_def split: if_splits)
  next
    case False
    then show ?thesis
      using acquire l find_lease_put_other [OF _ False]
      by (auto simp: acquire_lease_def result_simps split: if_splits option.splits)
  qed
next
  case (admit q ttl v adm now r)
  show ?thesis
  proof (cases r)
    case None
    then have "d' = d"
      using admit by (auto simp: admit_execution_def result_simps split: option.splits if_splits)
    then show ?thesis using l by simp
  next
    case (Some ev)
    obtain row where row: "find_quest d q = Some row"
      using admit Some by (auto simp: admit_execution_def split: option.splits if_splits)
    obtain d1 where d1: "put_lease q other (clock + ttl) d = Inr d1"
      and app: "append_locked sha q ''ExecutionAdmitted'' (admission_patch (q_state row) adm) v
        EVENT_SCHEMA_VERSION now d1 = Inr (ev, d')"
      and free: "\<not> (\<exists>l. find_lease d q = Some l \<and> clock < l_expires l \<and> l_owner l \<noteq> other)"
      using admit Some row by (auto simp: admit_execution_def result_simps split: if_splits option.splits)
    have "q \<noteq> qid" using free l assms(3,4) by auto
    then have "find_lease d1 qid = Some l" using find_lease_put_other [OF d1] l by blast
    then show ?thesis using append_locked_leases [OF app] by (simp add: find_lease_def)
  qed
next
  case (renew q ttl b)
  then have d': "leases d' = update_where
      (\<lambda>l. l_quest l = q \<and> l_owner l = other \<and> clock < l_expires l)
      (\<lambda>l. l\<lparr>l_expires := clock + ttl\<rparr>) (leases d)"
    by (auto simp: renew_lease_def Let_def split: if_splits)
  show ?thesis
    using l assms(3) unfolding find_lease_def d' by (intro select_one_update_skip) auto
next
  case (release q b)
  then have d': "leases d' = filter (\<lambda>l. \<not> (l_quest l = q \<and> l_owner l = other)) (leases d)"
    by (auto simp: release_lease_def Let_def)
  show ?thesis using l assms(3) unfolding find_lease_def d' by (intro select_one_filter) auto
qed

lemma others_run_keeps:
  "others_run sha (l_owner l) (l_expires l) d d' \<Longrightarrow> find_lease d qid = Some l \<Longrightarrow>
   find_lease d' qid = Some l"
  by (induction rule: others_run.induct) (auto intro: lease_op_keeps)

text \<open>
  Claim C6. A live lease cannot be taken: while the lease of a Quest is live, whatever the other
  owners do with leases before it expires, its row stays as it is, every attempt to acquire it
  returns false and changes nothing, and no other owner is admitted to the Quest.
\<close>

theorem live_lease_is_exclusive:
  assumes "find_lease d qid = Some l" and "others_run sha (l_owner l) (l_expires l) d d'"
    and "clock < l_expires l" and "0 < ttl"
  shows "find_lease d' qid = Some l \<and> acquire_lease qid owner ttl clock d' = Inr (False, d') \<and>
    (owner \<noteq> l_owner l \<longrightarrow>
      (\<forall>ev d''. admit_execution sha qid owner ttl v adm clock now d' \<noteq> Inr (Some ev, d'')))"
proof -
  have l: "find_lease d' qid = Some l" by (rule others_run_keeps [OF assms(2,1)])
  then show ?thesis using assms(3,4)
    by (auto simp: acquire_lease_def admit_execution_def result_simps split: option.splits if_splits)
qed

theorem live_lease_is_exclusive_witness:
  "acquire_lease ''q'' ''b'' 5 3 (empty_db\<lparr>leases := [\<lparr>l_quest = ''q'', l_owner = ''a'', l_expires = 10\<rparr>]\<rparr>) =
     Inr (False, empty_db\<lparr>leases := [\<lparr>l_quest = ''q'', l_owner = ''a'', l_expires = 10\<rparr>]\<rparr>)"
  using live_lease_is_exclusive [of "empty_db\<lparr>leases := [\<lparr>l_quest = ''q'', l_owner = ''a'', l_expires = 10\<rparr>]\<rparr>"
      "''q''" "\<lparr>l_quest = ''q'', l_owner = ''a'', l_expires = 10\<rparr>" sha0 _ 3 5 "''b''"]
    others_run.done_run
  by (simp add: find_lease_def)

section \<open>Reviews\<close>

lemma append_locked_reviews:
  "append_locked sha qid ty patch v schema now d = Inr (ev, d') \<Longrightarrow> reviews d' = reviews d"
  by (drule append_locked_Inr) auto

text \<open>
  The first decision on the artifacts wins: once a review of a Quest is recorded, every
  later attempt, with any decision, returns the recorded one with no event and changes nothing; and
  a discard is completed by one event only, a second finalisation appends none.
\<close>

lemma first_review_wins:
  assumes "begin_artifact_review sha qid rid man key dec nt v ty patch final now d =
      Inr ((row, Some ev), d')"
    and "finalize_artifact_discard sha qid v' now' d' = Inr (r, d'')"
  shows "rv_decision row = dec \<and>
    begin_artifact_review sha qid rid' man' key' dec' nt' v'' ty' patch' final' t d' =
      Inr ((row, None), d') \<and>
    dec = ''discard'' \<and> (\<exists>ev. r = Inl ev) \<and>
    (\<forall>v3 t3. \<exists>s. finalize_artifact_discard sha qid v3 t3 d'' = Inr (Inr s, d''))"
proof -
  let ?row = "\<lparr>rv_quest = qid, rv_id = rid, rv_manifest = man, rv_key = key, rv_decision = dec,
      rv_note = nt, rv_created = now, rv_completed = None\<rparr>"
  let ?d1 = "d\<lparr>reviews := reviews d @ [?row]\<rparr>"
  have none: "find_review d qid = None" and row: "row = ?row"
    using assms(1) by (auto simp: begin_artifact_review_def Let_def result_simps
        split: option.splits if_splits)
  obtain ev1 d2 where app: "append_locked sha qid ty patch v EVENT_SCHEMA_VERSION now ?d1 = Inr (ev1, d2)"
    and rest: "d' = d2 \<or> (\<exists>ty' p' ev'. final = Some (ty', p') \<and>
      append_locked sha qid ty' p' (v + 1) EVENT_SCHEMA_VERSION now d2 = Inr (ev', d'))"
    using assms(1) none
    by (auto simp: begin_artifact_review_def Let_def result_simps split: if_splits option.splits)
  have rv: "reviews d' = reviews d @ [?row]"
    using append_locked_reviews [OF app] rest append_locked_reviews by auto
  then have found: "find_review d' qid = Some ?row"
    using none by (simp add: find_review_def select_one_append)
  obtain ev2 d3 where app2: "append_locked sha qid ''ArtifactDiscarded'' (discard_patch now') v'
      EVENT_SCHEMA_VERSION now' d' = Inr (ev2, d3)"
    and dec: "dec = ''discard''" and r: "r = Inl ev2"
    and d'': "d'' = d3\<lparr>reviews := update_where (\<lambda>r. rv_quest r = qid)
                              (\<lambda>r. r\<lparr>rv_completed := Some now'\<rparr>) (reviews d3)\<rparr>"
    using assms(2) found
    by (auto simp: finalize_artifact_discard_def result_simps split: if_splits)
  have "reviews d'' = update_where (\<lambda>r. rv_quest r = qid) (\<lambda>r. r\<lparr>rv_completed := Some now'\<rparr>) (reviews d')"
    using append_locked_reviews [OF app2] by (simp add: d'')
  moreover have "select_one (\<lambda>r. rv_quest r = qid)
      (update_where (\<lambda>r. rv_quest r = qid) (\<lambda>r. r\<lparr>rv_completed := Some now'\<rparr>) rs) =
    map_option (\<lambda>r. r\<lparr>rv_completed := Some now'\<rparr>) (select_one (\<lambda>r. rv_quest r = qid) rs)" for rs :: "review_row list"
    by (induction rs) auto
  ultimately have found2: "find_review d'' qid = Some (?row\<lparr>rv_completed := Some now'\<rparr>)"
    using found by (simp add: find_review_def)
  have "find_quest d3 qid \<noteq> None"
  proof -
    obtain q where "find_quest d' qid = Some q" using append_locked_Inr [OF app2] by blast
    then have "qid \<in> q_id ` set (quests d3)"
      using append_locked_frame [OF app2] find_quest_id by (metis list.set_map)
    then show ?thesis by (auto simp: find_quest_def select_one_None_iff)
  qed
  then have "find_quest d'' qid \<noteq> None" by (simp add: d'' find_quest_def)
  then show ?thesis using found found2 dec r
    by (auto simp: begin_artifact_review_def finalize_artifact_discard_def row)
qed

lemma first_review_wins_witness:
  "\<exists>d d' row. begin_artifact_review sha0 ''q1'' ''r2'' ''m'' ''k2'' ''keep'' None 7 ''X'' [] None ''t'' d =
     Inr ((row, None), d') \<and> rv_decision row = ''discard''"
proof -
  obtain d row where d: "reachable sha0 d" "find_quest d ''q1'' = Some row" "q_version row = 1"
    using demo_draft by blast
  let ?rev = "\<lparr>rv_quest = ''q1'', rv_id = ''r1'', rv_manifest = ''m'', rv_key = ''k'',
      rv_decision = ''discard'', rv_note = None, rv_created = ''t'', rv_completed = None\<rparr>"
  let ?d0 = "d\<lparr>reviews := []\<rparr>"
  let ?d1 = "d\<lparr>reviews := [?rev]\<rparr>"
  have l1: "ledger_ok sha0 ?d1" by (rule ledger_frame [OF reachable_ok(1) [OF d(1)]]) simp_all
  have q1: "find_quest ?d1 ''q1'' = Some row" using d(2) by (simp add: find_quest_def)
  obtain ev d2 where app: "append_locked sha0 ''q1'' ''Review'' [] 1 EVENT_SCHEMA_VERSION ''t'' ?d1 = Inr (ev, d2)"
    using append_locked_succeeds [OF l1 q1, of "''Review''" "[]" "''t''"] d(3) by auto
  have q0: "find_quest ?d0 ''q1'' = Some row" using d(2) by (simp add: find_quest_def)
  have b: "begin_artifact_review sha0 ''q1'' ''r1'' ''m'' ''k'' ''discard'' None 1 ''Review'' [] None ''t'' ?d0 =
      Inr ((?rev, Some ev), d2)"
    using app q0 by (simp add: begin_artifact_review_def find_review_def Let_def)
  have l2: "ledger_ok sha0 d2" by (rule append_locked_ledger_ok [OF l1 _ app]) simp
  have q2: "find_quest d2 ''q1'' = Some (advanced [] ''t'' row)"
    using find_quest_append [OF app l1] q1 by (metis option.inject)
  have "find_review d2 ''q1'' = Some ?rev"
    using append_locked_reviews [OF app] by (simp add: find_review_def)
  then obtain r d3 where f: "finalize_artifact_discard sha0 ''q1'' 2 ''t'' d2 = Inr (r, d3)"
    using append_locked_succeeds [OF l2 q2, of "''ArtifactDiscarded''" "discard_patch ''t''" "''t''"] d(3)
    by (auto simp: finalize_artifact_discard_def advanced_def Let_def numeral_2_eq_2)
  from first_review_wins [OF b f]
  have "begin_artifact_review sha0 ''q1'' ''r2'' ''m'' ''k2'' ''keep'' None 7 ''X'' [] None ''t'' d2 =
      Inr ((?rev, None), d2)"
    by blast
  then show ?thesis by (intro exI conjI) (assumption, simp)
qed

section \<open>Changes of plan\<close>

lemma merge_completed_keeps:
  assumes "merge_completed msg olds ms = Inr ms'" and "distinct (map m_id ms)"
    and "distinct (map m_id olds)"
  shows "map m_id ms' = map m_id ms \<and> map m_deps ms' = map m_deps ms \<and>
    (\<forall>old \<in> set olds. \<exists>new \<in> set ms'. m_id new = m_id old \<and> same_work old new \<and>
       m_status new = Completed \<and> m_evidence new = m_evidence old) \<and>
    (\<forall>m \<in> set ms. m_id m \<notin> m_id ` set olds \<longrightarrow> m \<in> set ms')"
  using assms
proof (induction msg olds ms arbitrary: ms' rule: merge_completed.induct)
  case (1 msg ms)
  then show ?case by simp
next
  case (2 msg old olds ms)
  obtain new where new: "find (\<lambda>m. m_id m = m_id old) ms = Some new" and sw: "same_work old new"
    and rest: "merge_completed msg olds (carry_over old ms) = Inr ms'"
    using "2.prems"(1) by (auto split: option.splits if_splits)
  have ids: "map m_id (carry_over old ms) = map m_id ms" "map m_deps (carry_over old ms) = map m_deps ms"
    by (auto simp: carry_over_def)
  have IH: "map m_id ms' = map m_id (carry_over old ms)" "map m_deps ms' = map m_deps (carry_over old ms)"
    "\<forall>o' \<in> set olds. \<exists>new \<in> set ms'. m_id new = m_id o' \<and> same_work o' new \<and>
       m_status new = Completed \<and> m_evidence new = m_evidence o'"
    "\<forall>m \<in> set (carry_over old ms). m_id m \<notin> m_id ` set olds \<longrightarrow> m \<in> set ms'"
    using "2.IH" [OF new _ rest] sw "2.prems"(2,3) ids by auto
  have n: "new \<in> set ms" "m_id new = m_id old"
    using new by (auto simp: find_Some_iff)
  let ?new = "new\<lparr>m_status := Completed, m_evidence := m_evidence old\<rparr>"
  have "?new \<in> set (carry_over old ms)" using n by (force simp: carry_over_def)
  then have "?new \<in> set ms'" using IH(4) n "2.prems"(3) by auto
  moreover have "same_work old ?new" using sw by (simp add: same_work_def)
  moreover have "m \<in> set (carry_over old ms)" if "m \<in> set ms" "m_id m \<noteq> m_id old" for m
    using that by (force simp: carry_over_def)
  ultimately show ?case using IH ids n by (auto intro!: bexI [of _ ?new])
qed

lemma by_id_keys:
  "map fst (fold (\<lambda>m. AList.update (m_id m) m) ms al) = map (m_id \<circ> snd) (fold (\<lambda>m. AList.update (m_id m) m) ms al)"
  if "map fst al = map (m_id \<circ> snd) al" for al :: "(string \<times> milestone) list"
  using that
proof (induction ms arbitrary: al)
  case Nil
  then show ?case by simp
next
  case (Cons m ms)
  have "map fst (AList.update (m_id m) m al) = map (m_id \<circ> snd) (AList.update (m_id m) m al)"
    using Cons.prems by (induction al) auto
  then show ?case using Cons.IH by simp
qed

lemma by_id_distinct: "distinct (map m_id (by_id ms))"
proof -
  have "distinct (map fst (fold (\<lambda>m. AList.update (m_id m) m) ms al))" if "distinct (map fst al)" for al
    using that by (induction ms arbitrary: al) (auto simp: distinct_update)
  from this [of "[]"] show ?thesis using by_id_keys [of "[]" ms] by (simp add: by_id_def comp_def)
qed

text \<open>
  Claim C22. A new plan cannot undo finished work: when \<^verbatim>\<open>store_plan_version\<close> accepts a plan, the
  stored milestones form a valid plan and contain every completed milestone of the current state
  with the same tool, arguments and acceptance criteria, completed, with its evidence.
\<close>

theorem new_plan_keeps_completed_work:
  assumes "store_plan_version sha qid p v now now' d = Inr (ev, d')"
    and "find_quest d qid = Some row"
  shows "\<exists>ms. plan_graph_ok ms \<and>
    ev_payload ev = JObj [(''patch'', JObj (event_patch
      [(''plan_id'', JStr (pl_id p)), (''plan_version'', JInt (pl_version p)),
       (''plan_metadata'', JObj (pl_metadata p)), (''milestones'', milestones_json ms),
       (''status'', JStr ''running'')] (Suc v) now'))] \<and>
    (\<forall>old \<in> set (by_id (completed_milestones (q_state row))).
       \<exists>new \<in> set ms. m_id new = m_id old \<and> same_work old new \<and>
         m_status new = Completed \<and> m_evidence new = m_evidence old)"
  using assms(1)
proof (cases rule: store_plan_cases)
  case (1 s ms ms' row' d1)
  have ms: "ms = map normal_milestone (pl_milestones p)" and ok: "plan_graph_ok (pl_milestones p)"
    using validate_plan_cases [OF 1(1)] by auto
  have okn: "plan_graph_ok ms" unfolding ms by (rule plan_graph_ok_normal [OF ok])
  then have "distinct (map m_id ms)" by (simp add: plan_graph_ok_def)
  from merge_completed_keeps [OF 1(5) this by_id_distinct]
  have k: "map m_id ms' = map m_id ms" "map m_deps ms' = map m_deps ms"
    "\<forall>old \<in> set (by_id (completed_milestones s)). \<exists>new \<in> set ms'. m_id new = m_id old \<and>
       same_work old new \<and> m_status new = Completed \<and> m_evidence new = m_evidence old"
    by blast+
  have "plan_graph_ok ms'" by (rule plan_graph_ok_cong [OF k(1,2) okn])
  moreover have "q_version row = v" "s = q_state row" using 1(2-4) assms(2) by auto
  moreover have "ev = new_event sha d1 row ''PlanReplanned''
      [(''plan_id'', JStr (pl_id p)), (''plan_version'', JInt (pl_version p)),
       (''plan_metadata'', JObj (pl_metadata p)), (''milestones'', milestones_json ms'),
       (''status'', JStr ''running'')] now'"
  proof -
    have "find_quest d1 qid = Some row"
      using insert_plan_core [OF 1(6)] assms(2) by (simp add: same_core_def find_quest_def)
    then show ?thesis using append_locked_Inr [OF 1(7)] by auto
  qed
  ultimately show ?thesis using k(3) by (auto simp: new_event_def)
qed

text \<open>A store and a plan that keeps the one completed milestone of the demo plan.\<close>

definition demo_replan :: plan where
  "demo_replan = \<lparr>pl_id = ''p'', pl_version = 2,
     pl_milestones = [demo_milestone ''a'' 1 [] Pending, demo_milestone ''c'' 2 [''a''] Pending],
     pl_metadata = []\<rparr>"

definition demo_store :: db where
  "demo_store = empty_db\<lparr>quests := [\<lparr>q_id = ''q1'',
     q_state = [(''milestones'', milestones_json [demo_milestone ''a'' 1 [] Completed])],
     q_version = 1, q_status = JStr ''running'', q_created = ''t'', q_updated = ''t''\<rparr>]\<rparr>"

theorem new_plan_keeps_completed_work_witness:
  "\<exists>ev d'. store_plan_version sha0 ''q1'' demo_replan 1 ''t'' ''t'' demo_store = Inr (ev, d') \<and>
     (\<exists>ms. plan_graph_ok ms \<and>
       (\<exists>new \<in> set ms. m_id new = ''a'' \<and> m_status new = Completed))"
proof -
  let ?row = "hd (quests demo_store)"
  have row: "find_quest demo_store ''q1'' = Some ?row"
    by (simp add: demo_store_def find_quest_def)
  have ok: "plan_graph_ok (pl_milestones demo_replan)"
    by (rule earlier_deps_graph_ok)
      (auto simp: demo_replan_def demo_milestone_def earlier_deps_def less_Suc_eq)
  have done_ms: "by_id (completed_milestones (q_state ?row)) = [demo_milestone ''a'' 1 [] Completed]"
    by (simp add: by_id_def completed_milestones_def state_milestones_def demo_store_def
        milestones_json_def demo_milestone_def milestone_of_json_def milestone_json_def
        dict_get_or_def json_strs_def Let_def)
  have norm: "map normal_milestone (pl_milestones demo_replan) = pl_milestones demo_replan"
    by (simp add: demo_replan_def demo_milestone_def normal_milestone_def)
  obtain ms where ms: "merge_completed ''replan cannot remove a completed milestone''
      [demo_milestone ''a'' 1 [] Completed] (pl_milestones demo_replan) = Inr ms"
    by (simp add: demo_replan_def demo_milestone_def same_work_def carry_over_def)
  obtain ev d' where sp: "store_plan_version sha0 ''q1'' demo_replan 1 ''t'' ''t'' demo_store = Inr (ev, d')"
    using plan_graph_ok_validates [OF ok] row done_ms ms norm
    by (simp add: store_plan_version_def require_quest_def get_quest_def)
      (simp add: insert_plan_def Let_def demo_store_def empty_db_def append_locked_def find_quest_def)
  from new_plan_keeps_completed_work [OF sp row] done_ms
  show ?thesis using sp by (fastforce simp: demo_milestone_def)
qed

end
