(* ===== verification/Cost_Ledger.thy ===== *)
theory Cost_Ledger
  imports Schema
begin

text \<open>
  The cost ledger of the model calls in \<^verbatim>\<open>V1Storage\<close>: fixed provider profiles, quotes, accounts and
  reservations, in integer micro-CNY. A reservation is held when an attempt is prepared, becomes
  unknown with its attempt, and ends settled at the actual cost or released.
\<close>

record cost_profile =
  cp_account :: string
  cp_provider :: string
  cp_alias :: string
  cp_snapshot :: string
  cp_pricing :: string
  cp_fx :: int
  cp_input_rate :: int
  cp_output_rate :: int
  cp_reserve_rate :: int
  cp_max_call :: int
  cp_max_total :: int

definition openai_profile :: cost_profile where
  "openai_profile = \<lparr>cp_account = ''phase1c-openai-gpt5mini-cny-v1'', cp_provider = ''openai'',
     cp_alias = ''gpt-5-mini'', cp_snapshot = ''gpt-5-mini-2025-08-07'',
     cp_pricing = ''openai-2026-08-20'', cp_fx = 8000000, cp_input_rate = 2, cp_output_rate = 16,
     cp_reserve_rate = 16, cp_max_call = 500000, cp_max_total = 20000000\<rparr>"

definition qwen_profile :: cost_profile where
  "qwen_profile = \<lparr>cp_account = ''phase2-qwen-plus-cny-v1'', cp_provider = ''qwen'',
     cp_alias = ''qwen-plus'', cp_snapshot = ''qwen-plus'',
     cp_pricing = ''dashscope-beijing-2026-08-21'', cp_fx = 1, cp_input_rate = 1, cp_output_rate = 2,
     cp_reserve_rate = 8, cp_max_call = 500000, cp_max_total = 20000000\<rparr>"

definition cost_profile_for :: "string \<Rightarrow> string \<Rightarrow> cost_profile option" where
  "cost_profile_for provider model =
     (if provider = ''openai'' \<and> model = ''gpt-5-mini-2025-08-07'' then Some openai_profile
      else if provider = ''qwen'' \<and> model = ''qwen-plus'' then Some qwen_profile else None)"

record cost_quote =
  qt_account :: string
  qt_provider :: string
  qt_alias :: string
  qt_snapshot :: string
  qt_pricing :: string
  qt_fx :: int
  qt_input :: int
  qt_output :: int
  qt_reserved :: int

text \<open>The fields of a quote are typed here; the code checks their names and types at run time.\<close>

definition cost_reservation :: "int \<Rightarrow> int \<Rightarrow> string \<Rightarrow> string \<Rightarrow> cost_quote result" where
  "cost_reservation input output provider model =
     (case cost_profile_for provider model of
        None \<Rightarrow> Inl (ValueError ''model cost quote is not authorized for provider/model'')
      | Some p \<Rightarrow>
          if input < 0 \<or> output < 0
          then Inl (ValueError ''cost token estimates must be non-negative integers'')
          else Inr \<lparr>qt_account = cp_account p, qt_provider = cp_provider p, qt_alias = cp_alias p,
                 qt_snapshot = cp_snapshot p, qt_pricing = cp_pricing p, qt_fx = cp_fx p,
                 qt_input = input, qt_output = output,
                 qt_reserved = input * cp_input_rate p + output * cp_reserve_rate p\<rparr>)"

definition validated_cost_reservation :: "cost_quote \<Rightarrow> cost_quote result" where
  "validated_cost_reservation q =
     andThen (cost_reservation (qt_input q) (qt_output q) (qt_provider q) (qt_snapshot q))
       (\<lambda>expected.
          if q \<noteq> expected
          then Inl (ValueError ''cost reservation is not an authorized Phase 1C quote'')
          else case cost_profile_for (qt_provider expected) (qt_snapshot expected) of
            None \<Rightarrow> Inl (KeyError (qt_provider expected))
          | Some p \<Rightarrow>
              if cp_max_call p < qt_reserved expected
              then Inl (ValueError ''model cost per-call budget exceeded'') else Inr expected)"

definition find_account :: "db \<Rightarrow> string \<Rightarrow> cost_account_row option" where
  "find_account d i = select_one (\<lambda>a. ca_id a = i) (cost_accounts d)"

definition find_reservation :: "db \<Rightarrow> string \<Rightarrow> cost_reservation_row option" where
  "find_reservation d i = select_one (\<lambda>r. cr_attempt r = i) (cost_reservations d)"

definition profile_account :: "cost_profile \<Rightarrow> bool \<Rightarrow> cost_account_row" where
  "profile_account p breached = \<lparr>ca_id = cp_account p, ca_provider = cp_provider p,
     ca_alias = cp_alias p, ca_snapshot = cp_snapshot p, ca_pricing = cp_pricing p,
     ca_fx = cp_fx p, ca_max_call = cp_max_call p, ca_max_total = cp_max_total p,
     ca_breached = breached\<rparr>"

text \<open>\<^verbatim>\<open>INSERT ... ON CONFLICT DO NOTHING\<close>, then the check of the binding.\<close>

definition ensure_cost_account :: "cost_profile \<Rightarrow> db \<Rightarrow> db result" where
  "ensure_cost_account p d =
     (let d1 = (if find_account d (cp_account p) = None
                then d\<lparr>cost_accounts := cost_accounts d @ [profile_account p False]\<rparr> else d)
      in case find_account d1 (cp_account p) of
           None \<Rightarrow> Inl (RuntimeError ''model cost account binding mismatch'')
         | Some a \<Rightarrow>
             if a \<noteq> profile_account p (ca_breached a)
             then Inl (RuntimeError ''model cost account binding mismatch'') else Inr d1)"

definition settled_cost :: "cost_reservation_row \<Rightarrow> int" where
  "settled_cost r =
     (if cr_status r = Settled then (case cr_settled r of Some n \<Rightarrow> n | None \<Rightarrow> 0) else 0)"

definition held_cost :: "cost_reservation_row \<Rightarrow> int" where
  "held_cost r = (if cr_status r \<in> {Held, Unknown} then cr_reserved r else 0)"

definition cost_usage :: "db \<Rightarrow> string \<Rightarrow> int \<times> int" where
  "cost_usage d account =
     (let rows = filter (\<lambda>r. cr_account r = account) (cost_reservations d)
      in (sum_list (map settled_cost rows), sum_list (map held_cost rows)))"

definition reservation_of_quote :: "string \<Rightarrow> cost_quote \<Rightarrow> cost_reservation_row" where
  "reservation_of_quote attempt q = \<lparr>cr_attempt = attempt, cr_account = qt_account q,
     cr_provider = qt_provider q, cr_alias = qt_alias q, cr_snapshot = qt_snapshot q,
     cr_pricing = qt_pricing q, cr_fx = qt_fx q, cr_input = qt_input q, cr_output = qt_output q,
     cr_reserved = qt_reserved q, cr_settled = None, cr_status = Held\<rparr>"

text \<open>The stored reservation was made for this quote.\<close>

definition matches_quote :: "cost_reservation_row \<Rightarrow> cost_quote \<Rightarrow> bool" where
  "matches_quote r q \<longleftrightarrow>
     r\<lparr>cr_settled := None, cr_status := Held\<rparr> = reservation_of_quote (cr_attempt r) q"

definition reserve_cost :: "string \<Rightarrow> cost_quote \<Rightarrow> db \<Rightarrow> db result" where
  "reserve_cost attempt q0 d =
     andThen (validated_cost_reservation q0) (\<lambda>q.
     case cost_profile_for (qt_provider q) (qt_snapshot q) of
       None \<Rightarrow> Inl (KeyError (qt_provider q))
     | Some p \<Rightarrow>
         andThen (ensure_cost_account p d) (\<lambda>d1.
         case find_reservation d1 attempt of
           Some r \<Rightarrow>
             if \<not> matches_quote r q
             then Inl (ValueError ''model cost reservation idempotency conflict'') else Inr d1
         | None \<Rightarrow>
             (case find_account d1 (qt_account q) of
                None \<Rightarrow> Inl (ValueError ''model cost account is breached'')
              | Some a \<Rightarrow>
                  if ca_breached a then Inl (ValueError ''model cost account is breached'')
                  else
                    let (settled, held) = cost_usage d1 (qt_account q)
                    in if cp_max_total p < settled + held + qt_reserved q
                       then Inl (ValueError ''model cost total budget exceeded'')
                       else Inr (d1\<lparr>cost_reservations := cost_reservations d1 @
                                     [reservation_of_quote attempt q]\<rparr>))))"

definition settle_cost :: "string \<Rightarrow> int \<Rightarrow> int \<Rightarrow> db \<Rightarrow> db result" where
  "settle_cost attempt input output d =
     (case find_reservation d attempt of
        None \<Rightarrow> Inr d
      | Some r \<Rightarrow>
          if cr_status r = Settled then Inr d
          else if cr_status r \<notin> {Held, Unknown}
          then Inl (ValueError ''released model cost reservation cannot settle'')
          else case cost_profile_for (cr_provider r) (cr_snapshot r) of
            None \<Rightarrow> Inl (RuntimeError ''model cost reservation profile is unknown'')
          | Some p \<Rightarrow>
              let actual = input * cp_input_rate p + output * cp_output_rate p;
                  d1 = d\<lparr>cost_reservations := update_where (\<lambda>r. cr_attempt r = attempt)
                         (\<lambda>r. r\<lparr>cr_status := Settled, cr_settled := Some actual\<rparr>)
                         (cost_reservations d)\<rparr>
              in Inr (if cr_reserved r < actual
                      then d1\<lparr>cost_accounts := update_where (\<lambda>a. ca_id a = cr_account r)
                             (\<lambda>a. a\<lparr>ca_breached := True\<rparr>) (cost_accounts d1)\<rparr>
                      else d1))"

text \<open>The updates of a reservation that is held, by a condition on its attempt.\<close>

definition release_held :: "(string \<Rightarrow> bool) \<Rightarrow> db \<Rightarrow> db" where
  "release_held attempts d = d\<lparr>cost_reservations :=
     update_where (\<lambda>r. attempts (cr_attempt r) \<and> cr_status r = Held)
       (\<lambda>r. r\<lparr>cr_status := Released, cr_settled := Some 0\<rparr>) (cost_reservations d)\<rparr>"

definition suspend_held :: "(string \<Rightarrow> bool) \<Rightarrow> db \<Rightarrow> db" where
  "suspend_held attempts d = d\<lparr>cost_reservations :=
     update_where (\<lambda>r. attempts (cr_attempt r) \<and> cr_status r = Held)
       (\<lambda>r. r\<lparr>cr_status := Unknown\<rparr>) (cost_reservations d)\<rparr>"

definition release_cost :: "string \<Rightarrow> db \<Rightarrow> db" where
  "release_cost attempt d = release_held (\<lambda>a. a = attempt) d"

record cost_report =
  rep_account :: string
  rep_settled :: int
  rep_held :: int
  rep_max_total :: int
  rep_available :: int
  rep_breached :: bool

definition model_cost_usage :: "db \<Rightarrow> string \<Rightarrow> string \<Rightarrow> cost_report result" where
  "model_cost_usage d provider model =
     (case cost_profile_for provider model of
        None \<Rightarrow> Inl (ValueError ''model cost profile is not authorized'')
      | Some p \<Rightarrow>
          (case find_account d (cp_account p) of
             None \<Rightarrow> Inr \<lparr>rep_account = cp_account p, rep_settled = 0, rep_held = 0,
               rep_max_total = cp_max_total p, rep_available = cp_max_total p, rep_breached = False\<rparr>
           | Some a \<Rightarrow>
               let (settled, held) = cost_usage d (cp_account p)
               in Inr \<lparr>rep_account = cp_account p, rep_settled = settled, rep_held = held,
                    rep_max_total = ca_max_total a,
                    rep_available = ca_max_total a - settled - held,
                    rep_breached = ca_breached a\<rparr>))"

end
