(* ===== verification/Model_Calls.thy ===== *)
theory Model_Calls
  imports Event_Store Cost_Ledger Json_Text
begin

text \<open>
  The journal of model calls in \<^verbatim>\<open>V1Storage\<close>: a call is bound to the contract and plan of its Quest
  at one state version, has at most three attempts, and is won by the first attempt that succeeds
  while the binding is still current. Tokens and cost are reserved when an attempt is prepared.
\<close>

section \<open>Public summaries\<close>

definition summary_key :: "string \<Rightarrow> string" where
  "summary_key k = map (\<lambda>c. if c = CHR ''-'' then CHR ''_'' else c) (str_lower k)"

definition forbidden_parts :: "string list" where
  "forbidden_parts = [''api_key'', ''apikey'', ''authorization'', ''password'', ''secret'',
     ''token'', ''credential'']"

definition public_counters :: "string list" where
  "public_counters = [''input_tokens'', ''output_tokens'', ''total_tokens'', ''reserved_tokens'',
     ''settled_tokens'', ''max_tokens'']"

definition forbidden_key :: "bool \<Rightarrow> string \<Rightarrow> bool" where
  "forbidden_key allow k \<longleftrightarrow>
     (let n = summary_key k
      in (\<not> allow \<or> n \<notin> set public_counters) \<and> (\<exists>part \<in> set forbidden_parts. sublist part n))"

fun has_secret :: "bool \<Rightarrow> json \<Rightarrow> bool" where
  "has_secret allow (JObj d) =
     list_ex (\<lambda>(k, v). forbidden_key allow k \<or> has_secret allow v) d"
| "has_secret allow (JList xs) = list_ex (has_secret allow) xs"
| "has_secret allow _ = False"

definition model_summary ::
    "(rat \<Rightarrow> string) \<Rightarrow> dict \<Rightarrow> string \<Rightarrow> nat \<Rightarrow> bool \<Rightarrow> dict result" where
  "model_summary fl v label max_bytes allow =
     (if has_secret allow (JObj v) then Inl (ValueError (label @ '' must not contain secrets''))
      else if max_bytes < length (json_text fl (JObj v))
      then Inl (ValueError (label @ '' is too large''))
      else Inr v)"

text \<open>A summary that may be absent, with the default bounds.\<close>

definition optional_summary ::
    "(rat \<Rightarrow> string) \<Rightarrow> dict option \<Rightarrow> string \<Rightarrow> dict option result" where
  "optional_summary fl v label =
     (case v of None \<Rightarrow> Inr None
      | Some x \<Rightarrow> andThen (model_summary fl x label 8192 True) (\<lambda>y. Inr (Some y)))"

definition require_model_hash :: "string \<Rightarrow> string \<Rightarrow> string result" where
  "require_model_hash v label =
     (if is_sha256 v then Inr v
      else Inl (ValueError (label @ '' must be a lowercase SHA-256 hash'')))"

section \<open>The binding of a Quest\<close>

record model_binding =
  b_quest :: string
  b_version :: nat
  b_contract :: string
  b_contract_version :: int
  b_contract_hash :: string
  b_plan :: string
  b_plan_version :: int
  b_plan_hash :: string
  b_max_tokens :: int

definition plan_json :: "plan \<Rightarrow> json" where
  "plan_json p = JObj [(''id'', JStr (pl_id p)), (''version'', JInt (pl_version p)),
     (''milestones'', milestones_json (pl_milestones p)), (''metadata'', JObj (pl_metadata p))]"

definition model_binding_of :: "(json \<Rightarrow> string) \<Rightarrow> db \<Rightarrow> string \<Rightarrow> model_binding result" where
  "model_binding_of sha d qid =
     (case find_quest d qid of
        None \<Rightarrow> Inl (KeyError qid)
      | Some row \<Rightarrow>
          let state = q_state row;
              contract = as_dict (dict_get_or state ''contract'' JNull);
              plan_id = as_str (dict_get_or state ''plan_id'' JNull);
              plan_version = as_int (dict_get_or state ''plan_version'' JNull);
              budget = as_dict (dict_get_or contract ''budget'' JNull);
              cid = dict_get_or contract ''id'' JNull;
              cver = as_int (dict_get_or contract ''version'' JNull)
          in case select_one (\<lambda>r. pv_id r = plan_id \<and> pv_version r = plan_version) (plans d) of
               None \<Rightarrow> Inl (ValueError ''quest has no current contract/plan binding'')
             | Some plan_row \<Rightarrow>
                 if contract = [] \<or> plan_id = [] \<or> plan_version \<le> 0
                 then Inl (ValueError ''quest has no current contract/plan binding'')
                 else Inr \<lparr>b_quest = qid, b_version = q_version row,
                   b_contract = (if truthy cid then as_str cid else ''contract_'' @ qid),
                   b_contract_version = (if cver = 0 then 1 else cver),
                   b_contract_hash = stable_hash sha (JObj contract), b_plan = plan_id,
                   b_plan_version = plan_version,
                   b_plan_hash = stable_hash sha (plan_json (pv_plan plan_row)),
                   b_max_tokens = as_int (dict_get_or budget ''max_tokens'' (JInt 20000))\<rparr>)"

definition find_call :: "db \<Rightarrow> string \<Rightarrow> model_call_row option" where
  "find_call d i = select_one (\<lambda>c. mc_id c = i) (model_calls d)"

definition find_attempt :: "db \<Rightarrow> string \<Rightarrow> model_attempt_row option" where
  "find_attempt d i = select_one (\<lambda>a. ma_id a = i) (model_attempts d)"

text \<open>The call still has the binding it was made under.\<close>

definition binding_current :: "model_binding \<Rightarrow> model_call_row \<Rightarrow> bool" where
  "binding_current b c \<longleftrightarrow>
     b_version b = mc_expected c \<and> b_contract b = mc_contract c \<and>
     b_contract_version b = mc_contract_version c \<and> b_contract_hash b = mc_contract_hash c \<and>
     b_plan b = mc_plan c \<and> b_plan_version b = mc_plan_version c \<and> b_plan_hash b = mc_plan_hash c"

section \<open>Tokens\<close>

definition quest_attempts :: "db \<Rightarrow> string \<Rightarrow> model_attempt_row list" where
  "quest_attempts d qid =
     filter (\<lambda>a. map_option mc_quest (find_call d (ma_call a)) = Some qid) (model_attempts d)"

definition held_tokens :: "model_attempt_row \<Rightarrow> int" where
  "held_tokens a =
     (if ma_status a \<in> {Prepared, Dispatched, UnknownOutcome} then ma_reserved a else 0)"

definition model_usage :: "db \<Rightarrow> string \<Rightarrow> int \<times> int" where
  "model_usage d qid =
     (sum_list (map ma_settled (quest_attempts d qid)),
      sum_list (map held_tokens (quest_attempts d qid)))"

section \<open>Inserting rows\<close>

definition MODEL_MAX_ATTEMPTS :: nat where
  "MODEL_MAX_ATTEMPTS = 3"

definition insert_call :: "model_call_row \<Rightarrow> db \<Rightarrow> db result" where
  "insert_call c d =
     (if (\<exists>x \<in> set (model_calls d). mc_id x = mc_id c \<or>
            mc_quest x = mc_quest c \<and> mc_key x = mc_key c) \<or>
         mc_request_schema c \<le> 0 \<or> mc_candidate_schema c \<le> 0 \<or> mc_contract_version c \<le> 0 \<or>
         mc_plan_version c \<le> 0 \<or> mc_max_tokens c < 0
      then Inl (IntegrityError ''v1_model_calls'')
      else Inr (d\<lparr>model_calls := model_calls d @ [c]\<rparr>))"

definition insert_attempt :: "model_attempt_row \<Rightarrow> db \<Rightarrow> db result" where
  "insert_attempt a d =
     (if \<exists>x \<in> set (model_attempts d). ma_id x = ma_id a \<or> ma_token x = ma_token a \<or>
            ma_call x = ma_call a \<and> ma_no x = ma_no a
      then Inl (IntegrityError ''v1_model_attempts'')
      else Inr (d\<lparr>model_attempts := model_attempts d @ [a]\<rparr>))"

definition fresh_attempt ::
    "string \<Rightarrow> string \<Rightarrow> nat \<Rightarrow> string \<Rightarrow> string \<Rightarrow> string \<Rightarrow> dict \<Rightarrow> int \<Rightarrow> model_attempt_row" where
  "fresh_attempt aid cid n token adapter model parameters reserved =
     \<lparr>ma_id = aid, ma_call = cid, ma_no = n, ma_token = token, ma_adapter = adapter,
      ma_model = model, ma_parameters = parameters, ma_status = Prepared, ma_validation = VPending,
      ma_reserved = reserved, ma_settled = 0, ma_input = 0, ma_output = 0, ma_candidate = None,
      ma_candidate_hash = None, ma_response_hash = None, ma_usage = None, ma_cost = None,
      ma_error = None\<rparr>"

definition reserve_optional :: "string \<Rightarrow> cost_quote option \<Rightarrow> db \<Rightarrow> db result" where
  "reserve_optional aid q d = (case q of None \<Rightarrow> Inr d | Some q' \<Rightarrow> reserve_cost aid q' d)"

definition validate_optional :: "cost_quote option \<Rightarrow> cost_quote option result" where
  "validate_optional q =
     (case q of None \<Rightarrow> Inr None
      | Some q' \<Rightarrow> andThen (validated_cost_reservation q') (\<lambda>x. Inr (Some x)))"

section \<open>Preparing a call\<close>

record model_request =
  mq_call :: string
  mq_quest :: string
  mq_purpose :: string
  mq_key :: string
  mq_input_hash :: string
  mq_prompt :: string
  mq_request_schema :: int
  mq_candidate_schema :: int
  mq_adapter :: string
  mq_model :: string
  mq_parameters :: dict
  mq_reserved :: int
  mq_expected :: "nat option"
  mq_token :: "string option"
  mq_cost :: "cost_quote option"

type_synonym call_view = "model_call_row \<times> model_attempt_row list"

definition get_model_call :: "db \<Rightarrow> string \<Rightarrow> call_view option" where
  "get_model_call d i =
     map_option (\<lambda>c. (c, sort_key ma_no (filter (\<lambda>a. ma_call a = i) (model_attempts d)))) (find_call d i)"

definition request_token :: "model_request \<Rightarrow> string" where
  "request_token rq =
     (case mq_token rq of
        Some t \<Rightarrow> if t \<noteq> [] then t else ''dispatch_'' @ mq_call rq @ ''_1''
      | None \<Rightarrow> ''dispatch_'' @ mq_call rq @ ''_1'')"

definition call_of_request :: "model_request \<Rightarrow> model_binding \<Rightarrow> string \<Rightarrow> model_call_row" where
  "call_of_request rq b now =
     \<lparr>mc_id = mq_call rq, mc_quest = mq_quest rq, mc_purpose = mq_purpose rq, mc_key = mq_key rq,
      mc_request_schema = mq_request_schema rq, mc_candidate_schema = mq_candidate_schema rq,
      mc_input_hash = mq_input_hash rq, mc_prompt = mq_prompt rq, mc_contract = b_contract b,
      mc_contract_version = b_contract_version b, mc_contract_hash = b_contract_hash b,
      mc_plan = b_plan b, mc_plan_version = b_plan_version b, mc_plan_hash = b_plan_hash b,
      mc_expected = b_version b, mc_max_tokens = b_max_tokens b, mc_status = Prepared,
      mc_winner = None, mc_created = now\<rparr>"

text \<open>The replay of a request that was prepared before.\<close>

definition replay_prepared ::
    "(rat \<Rightarrow> string) \<Rightarrow> model_request \<Rightarrow> cost_quote option \<Rightarrow> model_binding \<Rightarrow> model_call_row \<Rightarrow> db \<Rightarrow>
     call_view result" where
  "replay_prepared fl rq cost b existing d =
     (case select_one (\<lambda>a. ma_call a = mc_id existing \<and> ma_no a = 1) (model_attempts d) of
        None \<Rightarrow> Inl (ValueError ''model call idempotency conflict'')
      | Some a \<Rightarrow>
          if existing\<lparr>mc_status := Prepared, mc_winner := None\<rparr> \<noteq>
               call_of_request rq b (mc_created existing) \<or>
             ma_adapter a \<noteq> mq_adapter rq \<or> ma_model a \<noteq> mq_model rq \<or>
             json_text fl (JObj (ma_parameters a)) \<noteq> json_text fl (JObj (mq_parameters rq)) \<or>
             ma_reserved a \<noteq> mq_reserved rq \<or> ma_token a \<noteq> request_token rq
          then Inl (ValueError ''model call idempotency conflict'')
          else case (find_reservation d (ma_id a), cost) of
            (None, None) \<Rightarrow> Inr (existing, [a])
          | (Some r, Some q) \<Rightarrow>
              if \<not> matches_quote r q
              then Inl (ValueError ''model cost reservation idempotency conflict'')
              else Inr (existing, [a])
          | _ \<Rightarrow> Inl (ValueError ''model cost reservation idempotency conflict''))"

definition bad_request :: "model_request \<Rightarrow> bool" where
  "bad_request rq \<longleftrightarrow>
     mq_reserved rq < 0 \<or> [] \<in> set [mq_call rq, mq_purpose rq, mq_key rq, mq_input_hash rq,
       mq_prompt rq, mq_adapter rq, mq_model rq]"

definition prepare_model_call ::
    "(json \<Rightarrow> string) \<Rightarrow> (rat \<Rightarrow> string) \<Rightarrow> model_request \<Rightarrow> string \<Rightarrow> db \<Rightarrow> (call_view \<times> db) result"
where
  "prepare_model_call sha fl rq now d =
     (if bad_request rq
      then Inl (ValueError ''model call identifiers and reservation must be valid'')
      else andThen (require_model_hash (mq_input_hash rq) ''input hash'') (\<lambda>_.
        andThen (model_summary fl (mq_parameters rq) ''model parameters'' 8192 True) (\<lambda>parameters.
        andThen (validate_optional (mq_cost rq)) (\<lambda>cost.
        andThen (model_binding_of sha d (mq_quest rq)) (\<lambda>b.
        if mq_expected rq \<noteq> None \<and> mq_expected rq \<noteq> Some (b_version b)
        then Inl (ValueError ''state version conflict'')
        else case select_one (\<lambda>c. mc_quest c = mq_quest rq \<and> mc_key c = mq_key rq) (model_calls d) of
          Some existing \<Rightarrow>
            andThen (replay_prepared fl rq cost b existing d) (\<lambda>v. Inr (v, d))
        | None \<Rightarrow>
            let (settled, held) = model_usage d (mq_quest rq)
            in if b_max_tokens b < settled + held + mq_reserved rq
               then Inl (ValueError ''model token budget exceeded'')
               else
                 let c = call_of_request rq b now;
                     a = fresh_attempt (mq_call rq @ '':1'') (mq_call rq) 1 (request_token rq)
                           (mq_adapter rq) (mq_model rq) parameters (mq_reserved rq)
                 in andThen (insert_call c d) (\<lambda>d1.
                    andThen (insert_attempt a d1) (\<lambda>d2.
                    andThen (reserve_optional (ma_id a) cost d2) (\<lambda>d3.
                    case get_model_call d3 (mq_call rq) of
                      Some v \<Rightarrow> Inr (v, d3) | None \<Rightarrow> Inl (KeyError (mq_call rq))))))))))"

section \<open>Dispatching and settling an attempt\<close>

definition set_attempt :: "string \<Rightarrow> (model_attempt_row \<Rightarrow> model_attempt_row) \<Rightarrow> db \<Rightarrow> db" where
  "set_attempt i f d = d\<lparr>model_attempts := update_where (\<lambda>a. ma_id a = i) f (model_attempts d)\<rparr>"

definition set_call :: "(model_call_row \<Rightarrow> bool) \<Rightarrow> (model_call_row \<Rightarrow> model_call_row) \<Rightarrow> db \<Rightarrow> db" where
  "set_call p f d = d\<lparr>model_calls := update_where p f (model_calls d)\<rparr>"

definition mark_model_attempt_dispatched ::
    "string \<Rightarrow> db \<Rightarrow> (model_attempt_row \<times> db) result" where
  "mark_model_attempt_dispatched aid d =
     (case find_attempt d aid of
        None \<Rightarrow> Inl (KeyError aid)
      | Some a \<Rightarrow>
          if ma_status a = Dispatched then Inr (a, d)
          else if ma_status a \<noteq> Prepared then Inl (ValueError ''model attempt is not prepared'')
          else Inr (a\<lparr>ma_status := Dispatched\<rparr>,
            set_call (\<lambda>c. mc_id c = ma_call a) (\<lambda>c. c\<lparr>mc_status := Dispatched\<rparr>)
              (set_attempt aid (\<lambda>a. a\<lparr>ma_status := Dispatched\<rparr>) d)))"

record settlement =
  st_status :: attempt_status
  st_validation :: validation_status
  st_response :: "string option"
  st_candidate :: "dict option"
  st_input :: int
  st_output :: int
  st_usage :: "dict option"
  st_cost :: "dict option"
  st_error :: "dict option"
  st_current :: bool
  st_quest :: "string option"
  st_input_hash :: "string option"
  st_retain :: bool

text \<open>The candidate, its stored form and its hash.\<close>

definition clean_candidate ::
    "(json \<Rightarrow> string) \<Rightarrow> (rat \<Rightarrow> string) \<Rightarrow> settlement \<Rightarrow> (dict option \<times> string option) result" where
  "clean_candidate sha fl st =
     (case st_candidate st of
        None \<Rightarrow> Inr (None, None)
      | Some c \<Rightarrow>
          andThen (model_summary fl c ''model candidate'' 262144 False) (\<lambda>c'.
          andThen (require_model_hash (stable_hash sha (JObj c')) ''candidate hash'') (\<lambda>h.
          Inr (if st_retain st then Some c' else None, Some h))))"

definition final_validation ::
    "(json \<Rightarrow> string) \<Rightarrow> settlement \<Rightarrow> model_call_row \<Rightarrow> db \<Rightarrow> validation_status result" where
  "final_validation sha st call d =
     (if \<not> st_current st then Inr (st_validation st)
      else andThen (model_binding_of sha d (mc_quest call)) (\<lambda>b.
        Inr (if \<not> binding_current b call then VStale
             else if select_one (\<lambda>x. ma_call x = mc_id call \<and> ma_validation x = VCurrent)
                       (model_attempts d) = None
             then VCurrent else VConflict)))"

definition settled_row ::
    "settlement \<Rightarrow> dict option \<Rightarrow> string option \<Rightarrow> validation_status \<Rightarrow> model_attempt_row \<Rightarrow>
     model_attempt_row" where
  "settled_row st candidate candidate_hash v a =
     a\<lparr>ma_status := st_status st, ma_validation := v, ma_settled := st_input st + st_output st,
       ma_input := st_input st, ma_output := st_output st, ma_candidate := candidate,
       ma_candidate_hash := candidate_hash, ma_response_hash := st_response st,
       ma_usage := st_usage st, ma_cost := st_cost st, ma_error := st_error st\<rparr>"

definition settle_summaries :: "(rat \<Rightarrow> string) \<Rightarrow> settlement \<Rightarrow> unit result" where
  "settle_summaries fl st =
     andThen (optional_summary fl (st_usage st) ''model usage'') (\<lambda>_.
     andThen (optional_summary fl (st_cost st) ''model cost'') (\<lambda>_.
     andThen (optional_summary fl (st_error st) ''model error'') (\<lambda>_. Inr ())))"

definition settle_model_attempt ::
    "(json \<Rightarrow> string) \<Rightarrow> (rat \<Rightarrow> string) \<Rightarrow> string \<Rightarrow> settlement \<Rightarrow> db \<Rightarrow>
     (model_attempt_row \<times> db) result" where
  "settle_model_attempt sha fl aid st d =
     (if st_input st < 0 \<or> st_output st < 0
      then Inl (ValueError ''model token usage must be non-negative'')
      else andThen (clean_candidate sha fl st) (\<lambda>(candidate, candidate_hash).
        andThen (settle_summaries fl st) (\<lambda>_.
        case find_attempt d aid of
          None \<Rightarrow> Inl (KeyError aid)
        | Some a \<Rightarrow>
        (case find_call d (ma_call a) of
          None \<Rightarrow> Inl (KeyError aid)
        | Some call \<Rightarrow>
            if st_quest st \<noteq> None \<and> st_quest st \<noteq> Some (mc_quest call)
            then Inl (ValueError ''model callback quest binding conflict'')
            else if st_input_hash st \<noteq> None \<and> st_input_hash st \<noteq> Some (mc_input_hash call)
            then Inl (ValueError ''model callback input binding conflict'')
            else if ma_response_hash a \<noteq> None
            then (if st_response st = ma_response_hash a then Inr (a, d)
                  else Inl (ValueError ''model callback response conflict''))
            else if ma_status a \<notin> (if st_current st then {Dispatched} else {Prepared, Dispatched})
            then Inl (ValueError ''model attempt is already final'')
            else andThen (final_validation sha st call d) (\<lambda>v.
              let d1 = set_attempt aid (settled_row st candidate candidate_hash v) d
              in andThen (settle_cost aid (st_input st) (st_output st) d1) (\<lambda>d2.
                 Inr (settled_row st candidate candidate_hash v a,
                   if v = VCurrent
                   then set_call (\<lambda>c. mc_id c = ma_call a \<and> mc_winner c = None)
                          (\<lambda>c. c\<lparr>mc_status := st_status st, mc_winner := Some aid\<rparr>) d2
                   else set_call (\<lambda>c. mc_id c = ma_call a)
                          (\<lambda>c. c\<lparr>mc_status := st_status st\<rparr>) d2)))))))"

definition record_model_success ::
    "(json \<Rightarrow> string) \<Rightarrow> (rat \<Rightarrow> string) \<Rightarrow> string \<Rightarrow> string \<Rightarrow> string \<Rightarrow> string \<Rightarrow> dict \<Rightarrow> int \<Rightarrow> int \<Rightarrow>
     dict option \<Rightarrow> dict option \<Rightarrow> bool \<Rightarrow> db \<Rightarrow> (model_attempt_row \<times> db) result" where
  "record_model_success sha fl aid qid input_hash response candidate input output usage cost
     retain d =
     andThen (require_model_hash input_hash ''input hash'') (\<lambda>_.
     andThen (require_model_hash response ''response hash'') (\<lambda>_.
     settle_model_attempt sha fl aid
       \<lparr>st_status = Succeeded, st_validation = VPending, st_response = Some response,
        st_candidate = Some candidate, st_input = input, st_output = output, st_usage = usage,
        st_cost = cost, st_error = None, st_current = True, st_quest = Some qid,
        st_input_hash = Some input_hash, st_retain = retain\<rparr> d))"

definition record_model_failure ::
    "(json \<Rightarrow> string) \<Rightarrow> (rat \<Rightarrow> string) \<Rightarrow> string \<Rightarrow> dict \<Rightarrow> int \<Rightarrow> int \<Rightarrow> dict option \<Rightarrow>
     dict option \<Rightarrow> db \<Rightarrow> (model_attempt_row \<times> db) result" where
  "record_model_failure sha fl aid err input output usage cost d =
     settle_model_attempt sha fl aid
       \<lparr>st_status = AttemptFailed, st_validation = VInvalid, st_response = None,
        st_candidate = None, st_input = input, st_output = output, st_usage = usage,
        st_cost = cost, st_error = Some err, st_current = False, st_quest = None,
        st_input_hash = None, st_retain = True\<rparr> d"

definition mark_model_attempt_unknown ::
    "(rat \<Rightarrow> string) \<Rightarrow> string \<Rightarrow> dict option \<Rightarrow> db \<Rightarrow> (model_attempt_row \<times> db) result" where
  "mark_model_attempt_unknown fl aid err d =
     (case find_attempt d aid of
        None \<Rightarrow> Inl (KeyError aid)
      | Some a \<Rightarrow>
          if ma_status a = UnknownOutcome then Inr (a, d)
          else if ma_status a \<noteq> Dispatched
          then Inl (ValueError ''only dispatched model attempts may become unknown'')
          else
            let given = (case err of Some e \<Rightarrow> if e = [] then None else Some e | None \<Rightarrow> None)
            in andThen (optional_summary fl given ''model error'') (\<lambda>clean.
              let f = (\<lambda>a. a\<lparr>ma_status := UnknownOutcome, ma_error := clean\<rparr>)
              in Inr (f a, set_call (\<lambda>c. mc_id c = ma_call a) (\<lambda>c. c\<lparr>mc_status := UnknownOutcome\<rparr>)
                   (suspend_held (\<lambda>i. i = aid) (set_attempt aid f d)))))"

section \<open>Retrying and recovering\<close>

definition attempt_numbers :: "db \<Rightarrow> string \<Rightarrow> nat list" where
  "attempt_numbers d cid = map ma_no (filter (\<lambda>a. ma_call a = cid) (model_attempts d))"

definition retry_model_call ::
    "(json \<Rightarrow> string) \<Rightarrow> (rat \<Rightarrow> string) \<Rightarrow> string \<Rightarrow> string \<Rightarrow> string \<Rightarrow> string \<Rightarrow> string \<Rightarrow> dict \<Rightarrow>
     int \<Rightarrow> cost_quote option \<Rightarrow> db \<Rightarrow> (model_attempt_row \<times> db) result" where
  "retry_model_call sha fl cid aid token adapter model parameters reserved cost d =
     (if reserved < 0 \<or> [] \<in> set [aid, token, adapter, model]
      then Inl (ValueError ''retry identifiers and reservation must be valid'')
      else andThen (model_summary fl parameters ''model parameters'' 8192 True) (\<lambda>clean.
        andThen (validate_optional cost) (\<lambda>cost'.
        case find_call d cid of
          None \<Rightarrow> Inl (KeyError cid)
        | Some call \<Rightarrow>
            if mc_winner call \<noteq> None \<or> mc_status call \<notin> {AttemptFailed, UnknownOutcome}
            then Inl (ValueError ''terminal model call cannot be retried'')
            else andThen (model_binding_of sha d (mc_quest call)) (\<lambda>b.
              if \<not> binding_current b call
              then Inl (ValueError ''stale model call cannot be retried'')
              else
                let (settled, held) = model_usage d (mc_quest call);
                    number = fold max (attempt_numbers d cid) 0 + 1
                in if mc_max_tokens call < settled + held + reserved
                   then Inl (ValueError ''model token budget exceeded'')
                   else if MODEL_MAX_ATTEMPTS < number
                   then Inl (ValueError ''model retry limit exceeded'')
                   else
                     let a = fresh_attempt aid cid number token adapter model clean reserved
                     in andThen (insert_attempt a d) (\<lambda>d1.
                        andThen (reserve_optional aid cost' d1) (\<lambda>d2.
                        Inr (a, set_call (\<lambda>c. mc_id c = cid)
                                  (\<lambda>c. c\<lparr>mc_status := Prepared\<rparr>) d2)))))))"

definition list_model_calls :: "db \<Rightarrow> string \<Rightarrow> call_view list" where
  "list_model_calls d qid =
     concat (map (\<lambda>c. case get_model_call d (mc_id c) of None \<Rightarrow> [] | Some v \<Rightarrow> [v])
       (sort_key (\<lambda>c. (mc_created c, mc_id c)) (filter (\<lambda>c. mc_quest c = qid) (model_calls d))))"

definition model_token_usage ::
    "(json \<Rightarrow> string) \<Rightarrow> db \<Rightarrow> string \<Rightarrow> (int \<times> int \<times> int \<times> int) result" where
  "model_token_usage sha d qid =
     andThen (model_binding_of sha d qid) (\<lambda>b.
       let (settled, held) = model_usage d qid
       in Inr (settled, held, b_max_tokens b, b_max_tokens b - settled - held))"

definition cancelled_error :: dict where
  "cancelled_error = [(''code'', JStr ''PROCESS_INTERRUPTED''),
     (''message'', JStr ''Prepared model call was never dispatched'')]"

definition interrupted_call_error :: dict where
  "interrupted_call_error = [(''code'', JStr ''PROCESS_INTERRUPTED''),
     (''message'', JStr ''Dispatch outcome requires reconciliation'')]"

definition attempts_in :: "attempt_status \<Rightarrow> db \<Rightarrow> string \<Rightarrow> bool" where
  "attempts_in st d i \<longleftrightarrow> (\<exists>a \<in> set (model_attempts d). ma_id a = i \<and> ma_status a = st)"

definition cancel_row :: "model_attempt_row \<Rightarrow> model_attempt_row" where
  "cancel_row a = a\<lparr>ma_status := AttemptFailed, ma_validation := VCancelled, ma_settled := 0,
     ma_error := Some cancelled_error\<rparr>"

definition lose_row :: "model_attempt_row \<Rightarrow> model_attempt_row" where
  "lose_row a = a\<lparr>ma_status := UnknownOutcome, ma_error := Some interrupted_call_error\<rparr>"

definition update_attempts ::
    "attempt_status \<Rightarrow> (model_attempt_row \<Rightarrow> model_attempt_row) \<Rightarrow> db \<Rightarrow> db" where
  "update_attempts st f d =
     d\<lparr>model_attempts := update_where (\<lambda>a. ma_status a = st) f (model_attempts d)\<rparr>"

text \<open>The six updates of \<^verbatim>\<open>recover_model_calls\<close>, in order, and its two counts.\<close>

definition recover_model_calls :: "db \<Rightarrow> (nat \<times> nat) \<times> db" where
  "recover_model_calls d =
     (let d1 = release_held (attempts_in Prepared d) d;
          d2 = update_attempts Prepared cancel_row d1;
          d3 = suspend_held (attempts_in Dispatched d2) d2;
          d4 = update_attempts Dispatched lose_row d3;
          d5 = set_call (\<lambda>c. mc_winner c = None \<and> (\<exists>a \<in> set (model_attempts d4).
                 ma_call a = mc_id c \<and> ma_validation a = VCancelled))
                 (\<lambda>c. c\<lparr>mc_status := AttemptFailed\<rparr>) d4;
          d6 = set_call (\<lambda>c. mc_winner c = None \<and> (\<exists>a \<in> set (model_attempts d5).
                 ma_call a = mc_id c \<and> ma_status a = UnknownOutcome))
                 (\<lambda>c. c\<lparr>mc_status := UnknownOutcome\<rparr>) d5
      in ((length (filter (\<lambda>a. ma_status a = Prepared) (model_attempts d)),
           length (filter (\<lambda>a. ma_status a = Dispatched) (model_attempts d2))), d6))"

end
