(* ===== verification/Cost_Budget.thy ===== *)
theory Cost_Budget
  imports Cost_Ledger
begin

text \<open>
  The budget of the cost ledger: while an account is not breached, what is settled and what is held
  on it together stay within its limit, whatever is reserved, settled, suspended or released.
\<close>

section \<open>The invariant\<close>

definition row_cost :: "string \<Rightarrow> cost_reservation_row \<Rightarrow> int" where
  "row_cost acc r = (if cr_account r = acc then settled_cost r + held_cost r else 0)"

definition account_cost :: "db \<Rightarrow> string \<Rightarrow> int" where
  "account_cost d acc = sum_list (map (row_cost acc) (cost_reservations d))"

lemma cost_usage_sum: "cost_usage d acc = (s, h) \<Longrightarrow> s + h = account_cost d acc"
proof -
  have "sum_list (map settled_cost (filter (\<lambda>r. cr_account r = acc) rs)) +
      sum_list (map held_cost (filter (\<lambda>r. cr_account r = acc) rs)) = sum_list (map (row_cost acc) rs)" for rs
    by (induction rs) (auto simp: row_cost_def)
  then show "cost_usage d acc = (s, h) \<Longrightarrow> s + h = account_cost d acc"
    by (auto simp: cost_usage_def account_cost_def Let_def)
qed

definition reservation_ok :: "cost_reservation_row \<Rightarrow> bool" where
  "reservation_ok r \<longleftrightarrow>
     0 \<le> cr_reserved r \<and>
     (\<exists>p. cost_profile_for (cr_provider r) (cr_snapshot r) = Some p \<and> cp_account p = cr_account r) \<and>
     (cr_status r = Released \<longrightarrow> cr_settled r = Some 0)"

definition account_ok :: "db \<Rightarrow> cost_account_row \<Rightarrow> bool" where
  "account_ok d a \<longleftrightarrow> (\<not> ca_breached a \<longrightarrow> account_cost d (ca_id a) \<le> ca_max_total a)"

definition cost_ok :: "db \<Rightarrow> bool" where
  "cost_ok d \<longleftrightarrow>
     distinct (map cr_attempt (cost_reservations d)) \<and> distinct (map ca_id (cost_accounts d)) \<and>
     (\<forall>r \<in> set (cost_reservations d). reservation_ok r) \<and>
     (\<forall>a \<in> set (cost_accounts d). account_ok d a) \<and>
     (\<forall>r \<in> set (cost_reservations d). cr_account r \<in> ca_id ` set (cost_accounts d))"

lemma cost_ok_empty: "cost_ok empty_db"
  by (simp add: cost_ok_def empty_db_def)

lemma cost_ok_cong:
  "cost_reservations d' = cost_reservations d \<Longrightarrow> cost_accounts d' = cost_accounts d \<Longrightarrow>
   cost_ok d' = cost_ok d"
  by (simp add: cost_ok_def account_ok_def account_cost_def)

lemma profile_rates:
  "cost_profile_for x y = Some p \<Longrightarrow> 0 \<le> cp_input_rate p \<and> 0 \<le> cp_output_rate p \<and>
     cp_output_rate p \<le> cp_reserve_rate p \<and> 0 \<le> cp_max_total p \<and> cp_provider p = x \<and> cp_snapshot p = y"
  by (auto simp: cost_profile_for_def openai_profile_def qwen_profile_def split: if_splits)

lemma validated_quote:
  assumes "validated_cost_reservation q0 = Inr q"
  obtains p where "cost_profile_for (qt_provider q) (qt_snapshot q) = Some p" "q = q0"
    "cp_account p = qt_account q" "0 \<le> qt_reserved q" "qt_reserved q \<le> cp_max_call p"
    "qt_reserved q = qt_input q * cp_input_rate p + qt_output q * cp_reserve_rate p"
    "0 \<le> qt_input q" "0 \<le> qt_output q"
proof -
  obtain p where p: "cost_profile_for (qt_provider q0) (qt_snapshot q0) = Some p"
    using assms by (cases "cost_profile_for (qt_provider q0) (qt_snapshot q0)")
      (auto simp: validated_cost_reservation_def cost_reservation_def)
  have q0: "q0 = q" and neg: "0 \<le> qt_input q0" "0 \<le> qt_output q0"
    and eq: "q0 = \<lparr>qt_account = cp_account p, qt_provider = cp_provider p, qt_alias = cp_alias p,
      qt_snapshot = cp_snapshot p, qt_pricing = cp_pricing p, qt_fx = cp_fx p,
      qt_input = qt_input q0, qt_output = qt_output q0,
      qt_reserved = qt_input q0 * cp_input_rate p + qt_output q0 * cp_reserve_rate p\<rparr>"
    using assms p by (auto simp: validated_cost_reservation_def cost_reservation_def result_simps
        split: if_splits option.splits)
  have acc: "cp_account p = qt_account q" using arg_cong [OF eq, of qt_account] q0 by simp
  have res: "qt_reserved q = qt_input q * cp_input_rate p + qt_output q * cp_reserve_rate p"
    using arg_cong [OF eq, of qt_reserved] q0 by simp
  have p': "cost_profile_for (qt_provider q) (qt_snapshot q) = Some p" using p q0 by simp
  have "qt_reserved q \<le> cp_max_call p"
    using assms p' q0 profile_rates [OF p']
    by (auto simp: validated_cost_reservation_def cost_reservation_def result_simps
        split: if_splits option.splits)
  moreover have "0 \<le> qt_reserved q"
    using res neg q0 profile_rates [OF p'] by simp
  ultimately show thesis using that [OF p'] q0 acc res neg by simp
qed

section \<open>Updates that do not add cost\<close>

interpretation reservation_table: keyed_table cr_attempt
    "\<lambda>(st, n) r. r\<lparr>cr_status := st, cr_settled := n\<rparr>"
  by unfold_locales auto

interpretation account_table: keyed_table ca_id "\<lambda>b a. a\<lparr>ca_breached := b\<rparr>"
  by unfold_locales simp

lemma sum_update_le:
  fixes w :: "'r \<Rightarrow> int"
  assumes "\<And>r. r \<in> set rs \<Longrightarrow> p r \<Longrightarrow> w (f r) \<le> w r"
  shows "sum_list (map w (update_where p f rs)) \<le> sum_list (map w rs)"
  using assms by (induction rs) (auto intro!: add_mono)

lemma cost_ok_update:
  assumes ok: "cost_ok d"
    and d': "cost_reservations d' = update_where p f (cost_reservations d)"
      "cost_accounts d' = cost_accounts d"
    and keep: "\<And>r. cr_attempt (f r) = cr_attempt r \<and> cr_account (f r) = cr_account r"
    and row: "\<And>r. r \<in> set (cost_reservations d) \<Longrightarrow> p r \<Longrightarrow> reservation_ok r \<Longrightarrow> reservation_ok (f r)"
    and le: "\<And>r. r \<in> set (cost_reservations d) \<Longrightarrow> p r \<Longrightarrow> reservation_ok r \<Longrightarrow>
      settled_cost (f r) + held_cost (f r) \<le> settled_cost r + held_cost r"
  shows "cost_ok d'"
proof -
  let ?rs = "cost_reservations d"
  have ids: "map cr_attempt (update_where p f ?rs) = map cr_attempt ?rs"
    using keep by (auto simp: update_where_def)
  have "row_cost acc (f r) \<le> row_cost acc r" if "r \<in> set ?rs" "p r" for acc r
    using le [OF that] ok that keep by (auto simp: row_cost_def cost_ok_def)
  then have cost: "account_cost d' acc \<le> account_cost d acc" for acc
    unfolding account_cost_def d' by (intro sum_update_le) auto
  have "\<forall>r \<in> set (cost_reservations d'). reservation_ok r"
    using ok row by (auto simp: d' set_update_where cost_ok_def)
  moreover have "\<forall>a \<in> set (cost_accounts d'). account_ok d' a"
    using ok cost by (force simp: d' cost_ok_def account_ok_def intro: order_trans)
  moreover have "\<forall>r \<in> set (cost_reservations d'). cr_account r \<in> ca_id ` set (cost_accounts d')"
    using ok keep by (auto simp: d' set_update_where cost_ok_def)
  ultimately show ?thesis using ok ids by (simp add: d' cost_ok_def)
qed

lemma release_held_cost_ok: "cost_ok d \<Longrightarrow> cost_ok (release_held att d)"
  by (rule cost_ok_update [where p = "\<lambda>r. att (cr_attempt r) \<and> cr_status r = Held" and
        f = "\<lambda>r. r\<lparr>cr_status := Released, cr_settled := Some 0\<rparr>"])
    (auto simp: release_held_def reservation_ok_def settled_cost_def held_cost_def)

lemma suspend_held_cost_ok: "cost_ok d \<Longrightarrow> cost_ok (suspend_held att d)"
  by (rule cost_ok_update [where p = "\<lambda>r. att (cr_attempt r) \<and> cr_status r = Held" and
        f = "\<lambda>r. r\<lparr>cr_status := Unknown\<rparr>"])
    (auto simp: suspend_held_def reservation_ok_def settled_cost_def held_cost_def)

section \<open>Settling\<close>

lemma find_reservation_in:
  "find_reservation d i = Some r \<Longrightarrow> r \<in> set (cost_reservations d) \<and> cr_attempt r = i"
  unfolding find_reservation_def by (rule select_one_Some_in)

lemma find_reservation_unique:
  assumes "cost_ok d" and "find_reservation d i = Some r" and "x \<in> set (cost_reservations d)"
    and "cr_attempt x = i"
  shows "x = r"
  using assms reservation_table.select_key_distinct [of "cost_reservations d" x]
  by (auto simp: cost_ok_def find_reservation_def)

text \<open>An account becomes breached: its own bound no longer matters.\<close>

lemma cost_ok_breach:
  assumes "distinct (map cr_attempt (cost_reservations d))" "distinct (map ca_id (cost_accounts d))"
    and "\<forall>r \<in> set (cost_reservations d). reservation_ok r"
    and "\<forall>a \<in> set (cost_accounts d). ca_id a \<noteq> acc \<longrightarrow> account_ok d a"
    and "\<forall>r \<in> set (cost_reservations d). cr_account r \<in> ca_id ` set (cost_accounts d)"
  shows "cost_ok (d\<lparr>cost_accounts := update_where (\<lambda>a. ca_id a = acc) (\<lambda>a. a\<lparr>ca_breached := True\<rparr>)
      (cost_accounts d)\<rparr>)"
proof -
  let ?as = "update_where (\<lambda>a. ca_id a = acc) (\<lambda>a. a\<lparr>ca_breached := True\<rparr>) (cost_accounts d)"
  let ?d = "d\<lparr>cost_accounts := ?as\<rparr>"
  have ids: "map ca_id ?as = map ca_id (cost_accounts d)"
    by (rule account_table.keys_update_where)
  then have "ca_id ` set ?as = ca_id ` set (cost_accounts d)" by (metis list.set_map)
  moreover have "account_ok ?d a" if "a \<in> set ?as" for a
    using that assms(4) by (auto simp: set_update_where account_ok_def account_cost_def split: if_splits)
  ultimately show ?thesis using assms(1-3,5) ids by (simp add: cost_ok_def)
qed

lemma settle_cost_ok:
  assumes ok: "cost_ok d" and st: "settle_cost att i n d = Inr d'"
  shows "cost_ok d'"
proof (cases "find_reservation d att")
  case None
  then show ?thesis using ok st by (simp add: settle_cost_def)
next
  case (Some r)
  show ?thesis
  proof (cases "cr_status r = Settled")
    case True
    then show ?thesis using ok st Some by (simp add: settle_cost_def)
  next
    case False
    then obtain p where p: "cost_profile_for (cr_provider r) (cr_snapshot r) = Some p"
      and live: "cr_status r \<in> {Held, Unknown}"
      using st Some by (auto simp: settle_cost_def split: option.splits if_splits)
    define actual where "actual = i * cp_input_rate p + n * cp_output_rate p"
    define d1 where "d1 = d\<lparr>cost_reservations := update_where (\<lambda>r. cr_attempt r = att)
      (\<lambda>r. r\<lparr>cr_status := Settled, cr_settled := Some actual\<rparr>) (cost_reservations d)\<rparr>"
    have d': "d' = (if cr_reserved r < actual
        then d1\<lparr>cost_accounts := update_where (\<lambda>a. ca_id a = cr_account r)
               (\<lambda>a. a\<lparr>ca_breached := True\<rparr>) (cost_accounts d1)\<rparr> else d1)"
      using st Some False live p by (auto simp: settle_cost_def Let_def actual_def d1_def)
    have same: "x = r" if "x \<in> set (cost_reservations d)" "cr_attempt x = att" for x
      by (rule find_reservation_unique [OF ok Some that])
    show ?thesis
    proof (cases "cr_reserved r < actual")
      case False
      have "cost_ok d1"
      proof (rule cost_ok_update [OF ok])
        show "cost_reservations d1 = update_where (\<lambda>r. cr_attempt r = att)
          (\<lambda>r. r\<lparr>cr_status := Settled, cr_settled := Some actual\<rparr>) (cost_reservations d)"
          "cost_accounts d1 = cost_accounts d"
          by (simp_all add: d1_def)
      qed (use False same live in \<open>auto simp: reservation_ok_def settled_cost_def held_cost_def\<close>)
      then show ?thesis using False d' by simp
    next
      case True
      have dis: "distinct (map cr_attempt (cost_reservations d1))"
        using ok reservation_table.keys_update_where
          [of "\<lambda>r. cr_attempt r = att" "(Settled, Some actual)" "cost_reservations d"]
        by (simp add: d1_def cost_ok_def)
      have rows: "\<forall>x \<in> set (cost_reservations d1). reservation_ok x \<and> cr_account x \<in> ca_id ` set (cost_accounts d1)"
        using ok by (auto simp: d1_def set_update_where cost_ok_def reservation_ok_def)
      have "account_cost d1 acc = account_cost d acc" if "acc \<noteq> cr_account r" for acc
      proof -
        have "map (row_cost acc) (cost_reservations d1) = map (row_cost acc) (cost_reservations d)"
          using same that by (auto simp: d1_def update_where_def row_cost_def)
        then show ?thesis by (simp add: account_cost_def)
      qed
      then have "\<forall>a \<in> set (cost_accounts d1). ca_id a \<noteq> cr_account r \<longrightarrow> account_ok d1 a"
        using ok by (auto simp: d1_def cost_ok_def account_ok_def)
      then have "cost_ok (d1\<lparr>cost_accounts := update_where (\<lambda>a. ca_id a = cr_account r)
               (\<lambda>a. a\<lparr>ca_breached := True\<rparr>) (cost_accounts d1)\<rparr>)"
        using cost_ok_breach [OF dis _ _ _ _] rows ok by (auto simp: d1_def cost_ok_def)
      then show ?thesis using True d' by simp
    qed
  qed
qed

section \<open>Reserving\<close>

lemma find_account_in: "find_account d i = Some a \<Longrightarrow> a \<in> set (cost_accounts d) \<and> ca_id a = i"
  unfolding find_account_def by (rule select_one_Some_in)

lemma ensure_cost_account_ok:
  assumes ok: "cost_ok d" and en: "ensure_cost_account p d = Inr d'" and "0 \<le> cp_max_total p"
  obtains a where "cost_ok d'" "find_account d' (cp_account p) = Some a" "ca_max_total a = cp_max_total p"
    "cost_reservations d' = cost_reservations d"
proof -
  obtain a where a: "find_account d' (cp_account p) = Some a" "a = profile_account p (ca_breached a)"
    and d': "d' = (if find_account d (cp_account p) = None
                then d\<lparr>cost_accounts := cost_accounts d @ [profile_account p False]\<rparr> else d)"
    using en by (auto simp: ensure_cost_account_def Let_def split: option.splits if_splits)
  have max: "ca_max_total a = cp_max_total p" using arg_cong [OF a(2), of ca_max_total]
    by (simp add: profile_account_def)
  have "cost_ok d'"
  proof (cases "find_account d (cp_account p)")
    case (Some x)
    then show ?thesis using ok d' by simp
  next
    case None
    then have fresh: "cp_account p \<notin> ca_id ` set (cost_accounts d)"
      by (auto simp: find_account_def select_one_None_iff)
    then have "\<forall>r \<in> set (cost_reservations d). cr_account r \<noteq> cp_account p"
      using ok unfolding cost_ok_def by metis
    moreover have "sum_list (map (row_cost acc) rs) = 0" if "\<forall>r \<in> set rs. cr_account r \<noteq> acc" for acc rs
      using that by (induction rs) (auto simp: row_cost_def)
    ultimately have "account_cost d (cp_account p) = 0" unfolding account_cost_def by blast
    moreover have "account_cost d' acc = account_cost d acc" for acc
      by (simp add: d' account_cost_def)
    ultimately show ?thesis
      using ok None fresh assms(3) by (auto simp: d' cost_ok_def account_ok_def profile_account_def)
  qed
  then show thesis using that [OF _ a(1) max] d' by simp
qed

lemma reserve_cost_cases:
  assumes "reserve_cost att q0 d = Inr d'"
  obtains q p d1 where "validated_cost_reservation q0 = Inr q"
    "cost_profile_for (qt_provider q) (qt_snapshot q) = Some p" "ensure_cost_account p d = Inr d1"
    "(\<exists>r. find_reservation d1 att = Some r \<and> d' = d1) \<or>
     (\<exists>a. find_reservation d1 att = None \<and> find_account d1 (qt_account q) = Some a \<and>
        \<not> ca_breached a \<and> account_cost d1 (qt_account q) + qt_reserved q \<le> cp_max_total p \<and>
        d' = d1\<lparr>cost_reservations := cost_reservations d1 @ [reservation_of_quote att q]\<rparr>)"
proof -
  obtain q where q: "validated_cost_reservation q0 = Inr q"
    using assms by (cases "validated_cost_reservation q0") (auto simp: reserve_cost_def)
  then obtain p where p: "cost_profile_for (qt_provider q) (qt_snapshot q) = Some p"
    by (rule validated_quote)
  obtain d1 where d1: "ensure_cost_account p d = Inr d1"
    using assms q p by (cases "ensure_cost_account p d") (auto simp: reserve_cost_def)
  obtain s h where u: "cost_usage d1 (qt_account q) = (s, h)" by fastforce
  have "(\<exists>r. find_reservation d1 att = Some r \<and> d' = d1) \<or>
     (\<exists>a. find_reservation d1 att = None \<and> find_account d1 (qt_account q) = Some a \<and>
        \<not> ca_breached a \<and> s + h + qt_reserved q \<le> cp_max_total p \<and>
        d' = d1\<lparr>cost_reservations := cost_reservations d1 @ [reservation_of_quote att q]\<rparr>)"
    using assms q p d1 u
    by (auto simp: reserve_cost_def split: option.splits if_splits)
  then show thesis using that [OF q p d1] cost_usage_sum [OF u] by simp
qed

lemma reserve_cost_ok:
  assumes ok: "cost_ok d" and rc: "reserve_cost att q0 d = Inr d'"
  shows "cost_ok d'"
  using rc
proof (cases rule: reserve_cost_cases)
  case (1 q p d1)
  have pr: "0 \<le> cp_max_total p" using profile_rates [OF 1(2)] by simp
  have qr: "0 \<le> qt_reserved q" "cp_account p = qt_account q"
    using 1(2) by (auto intro: validated_quote [OF 1(1)])
  obtain a where a: "cost_ok d1" "find_account d1 (qt_account q) = Some a"
    "ca_max_total a = cp_max_total p"
    using ensure_cost_account_ok [OF ok 1(3) pr] qr(2) by metis
  show ?thesis
  proof (cases "d' = d1")
    case True
    then show ?thesis using a by simp
  next
    case False
    let ?r = "reservation_of_quote att q"
    have fresh: "find_reservation d1 att = None"
      and room: "account_cost d1 (qt_account q) + qt_reserved q \<le> cp_max_total p"
      and d': "d' = d1\<lparr>cost_reservations := cost_reservations d1 @ [?r]\<rparr>"
      using 1(4) False by auto
    have new: "att \<notin> cr_attempt ` set (cost_reservations d1)"
      using fresh by (auto simp: find_reservation_def select_one_None_iff)
    have cost: "account_cost d' acc = account_cost d1 acc + (if acc = qt_account q then qt_reserved q else 0)" for acc
      by (auto simp: account_cost_def d' row_cost_def reservation_of_quote_def settled_cost_def held_cost_def)
    have "x = a" if "x \<in> set (cost_accounts d1)" "ca_id x = qt_account q" for x
      using account_table.select_key_distinct [of "cost_accounts d1" x] a that
      by (auto simp: cost_ok_def find_account_def)
    then have "\<forall>x \<in> set (cost_accounts d1). account_ok d' x"
      using a room cost by (auto simp: cost_ok_def account_ok_def)
    moreover have "reservation_ok ?r"
      using qr 1(2) by (simp add: reservation_ok_def reservation_of_quote_def)
    moreover have "cr_account ?r \<in> ca_id ` set (cost_accounts d1)"
      using find_account_in [OF a(2)] by (metis imageI reservation_of_quote_def
          cost_reservation_row.select_convs(2))
    ultimately show ?thesis
      using a new by (auto simp: d' cost_ok_def reservation_of_quote_def)
  qed
qed

end
