(* ===== verification/Model_Journal.thy ===== *)
theory Model_Journal
  imports Model_Calls Cost_Budget
begin

text \<open>
  What the journal of model calls guarantees: one winner per call, at most three attempts, final
  outcomes stay final, and the cost ledger stays within its budget.
\<close>

section \<open>The invariant\<close>

definition winner_ok :: "db \<Rightarrow> model_call_row \<Rightarrow> bool" where
  "winner_ok d c \<longleftrightarrow>
     (\<forall>a \<in> set (model_attempts d). ma_call a = mc_id c \<longrightarrow>
        (ma_validation a = VCurrent \<longleftrightarrow> mc_winner c = Some (ma_id a))) \<and>
     (\<forall>w. mc_winner c = Some w \<longrightarrow> (\<exists>a \<in> set (model_attempts d). ma_call a = mc_id c \<and> ma_id a = w))"

definition attempt_ok :: "db \<Rightarrow> model_attempt_row \<Rightarrow> bool" where
  "attempt_ok d a \<longleftrightarrow>
     ma_call a \<in> mc_id ` set (model_calls d) \<and> 1 \<le> ma_no a \<and> ma_no a \<le> MODEL_MAX_ATTEMPTS \<and>
     0 \<le> ma_reserved a \<and>
     (ma_status a \<in> {Prepared, Dispatched, UnknownOutcome} \<longrightarrow>
        ma_settled a = 0 \<and> ma_validation a = VPending \<and> ma_response_hash a = None) \<and>
     (ma_validation a = VCurrent \<longrightarrow> ma_status a = Succeeded)"

definition calls_ok :: "db \<Rightarrow> bool" where
  "calls_ok d \<longleftrightarrow>
     distinct (map mc_id (model_calls d)) \<and> distinct (map ma_id (model_attempts d)) \<and>
     distinct (map (\<lambda>a. (ma_call a, ma_no a)) (model_attempts d)) \<and>
     (\<forall>a \<in> set (model_attempts d). attempt_ok d a) \<and>
     (\<forall>c \<in> set (model_calls d). winner_ok d c)"

lemma calls_ok_empty: "calls_ok empty_db"
  by (simp add: calls_ok_def empty_db_def)

lemma calls_ok_cong:
  "model_calls d' = model_calls d \<Longrightarrow> model_attempts d' = model_attempts d \<Longrightarrow>
   calls_ok d' = calls_ok d"
  by (simp add: calls_ok_def attempt_ok_def winner_ok_def)

interpretation call_table: keyed_table mc_id "\<lambda>(st, w) c. c\<lparr>mc_status := st, mc_winner := w\<rparr>"
  by unfold_locales auto

interpretation attempt_table: keyed_table ma_id
    "\<lambda>(st, c, h, v) a. settled_row st c h v a"
  by unfold_locales (auto simp: settled_row_def)

lemma find_attempt_in: "find_attempt d i = Some a \<Longrightarrow> a \<in> set (model_attempts d) \<and> ma_id a = i"
  unfolding find_attempt_def by (rule select_one_Some_in)

lemma find_call_in: "find_call d i = Some c \<Longrightarrow> c \<in> set (model_calls d) \<and> mc_id c = i"
  unfolding find_call_def by (rule select_one_Some_in)

lemma attempt_unique:
  assumes "calls_ok d" and "find_attempt d i = Some a" and "x \<in> set (model_attempts d)" "ma_id x = i"
  shows "x = a"
  using assms attempt_table.select_key_distinct [of "model_attempts d" x]
  by (auto simp: calls_ok_def find_attempt_def)

lemma call_unique:
  assumes "calls_ok d" and "find_call d i = Some c" and "x \<in> set (model_calls d)" "mc_id x = i"
  shows "x = c"
  using assms call_table.select_key_distinct [of "model_calls d" x]
  by (auto simp: calls_ok_def find_call_def)

text \<open>
  The general update: the attempts by \<open>f\<close>, which keeps the keys, and the calls by \<open>g\<close>, which
  keeps the key; what the rows have to satisfy afterwards.
\<close>

lemma calls_ok_map:
  assumes ok: "calls_ok d"
    and d': "model_attempts d' = map f (model_attempts d)" "model_calls d' = map g (model_calls d)"
    and keys: "\<And>a. ma_id (f a) = ma_id a \<and> ma_call (f a) = ma_call a \<and> ma_no (f a) = ma_no a"
      "\<And>c. mc_id (g c) = mc_id c"
    and row: "\<And>a. a \<in> set (model_attempts d) \<Longrightarrow> attempt_ok d a \<Longrightarrow> attempt_ok d (f a)"
    and win: "\<And>c a. c \<in> set (model_calls d) \<Longrightarrow> a \<in> set (model_attempts d) \<Longrightarrow> ma_call a = mc_id c \<Longrightarrow>
      (ma_validation (f a) = VCurrent \<longleftrightarrow> mc_winner (g c) = Some (ma_id a))"
    and ex: "\<And>c w. c \<in> set (model_calls d) \<Longrightarrow> mc_winner (g c) = Some w \<Longrightarrow>
      \<exists>a \<in> set (model_attempts d). ma_call a = mc_id c \<and> ma_id a = w"
  shows "calls_ok d'"
proof -
  have ids: "map ma_id (model_attempts d') = map ma_id (model_attempts d)"
    "map (\<lambda>a. (ma_call a, ma_no a)) (model_attempts d') =
      map (\<lambda>a. (ma_call a, ma_no a)) (model_attempts d)"
    "map mc_id (model_calls d') = map mc_id (model_calls d)"
    using keys by (simp_all add: d')
  have "mc_id ` set (model_calls d') = mc_id ` set (model_calls d)"
    using ids(3) by (metis list.set_map)
  then have "attempt_ok d' a = attempt_ok d a" for a by (simp add: attempt_ok_def)
  then have "\<forall>a \<in> set (model_attempts d'). attempt_ok d' a"
    using ok row by (auto simp: d' calls_ok_def)
  moreover have "\<forall>c \<in> set (model_calls d'). winner_ok d' c"
    using win ex keys by (fastforce simp: d' winner_ok_def)
  ultimately show ?thesis using ok by (simp only: calls_ok_def ids)
qed

lemma update_where_map: "update_where p f xs = map (\<lambda>x. if p x then f x else x) xs"
  by (simp add: update_where_def)

lemma calls_okD:
  assumes "calls_ok d"
  shows "a \<in> set (model_attempts d) \<Longrightarrow> attempt_ok d a"
    and "c \<in> set (model_calls d) \<Longrightarrow> a \<in> set (model_attempts d) \<Longrightarrow> ma_call a = mc_id c \<Longrightarrow>
      (ma_validation a = VCurrent \<longleftrightarrow> mc_winner c = Some (ma_id a))"
    and "c \<in> set (model_calls d) \<Longrightarrow> mc_winner c = Some w \<Longrightarrow>
      \<exists>a \<in> set (model_attempts d). ma_call a = mc_id c \<and> ma_id a = w"
  using assms unfolding calls_ok_def winner_ok_def by blast+

section \<open>Dispatch, loss and recovery\<close>

lemma dispatch_calls_ok:
  assumes ok: "calls_ok d" and m: "mark_model_attempt_dispatched aid d = Inr (a', d')"
  shows "calls_ok d' \<and> cost_reservations d' = cost_reservations d \<and> cost_accounts d' = cost_accounts d"
proof (cases "d' = d")
  case True
  then show ?thesis using ok by simp
next
  case False
  obtain a where a: "find_attempt d aid = Some a" "ma_status a = Prepared"
    and d': "d' = set_call (\<lambda>c. mc_id c = ma_call a) (\<lambda>c. c\<lparr>mc_status := Dispatched\<rparr>)
              (set_attempt aid (\<lambda>a. a\<lparr>ma_status := Dispatched\<rparr>) d)"
    using m False by (auto simp: mark_model_attempt_dispatched_def split: option.splits if_splits)
  let ?f = "\<lambda>x. if ma_id x = aid then x\<lparr>ma_status := Dispatched\<rparr> else x"
  let ?g = "\<lambda>c. if mc_id c = ma_call a then c\<lparr>mc_status := Dispatched\<rparr> else c"
  have "calls_ok d'"
  proof (rule calls_ok_map [OF ok, where f = ?f and g = ?g])
    show "model_attempts d' = map ?f (model_attempts d)" "model_calls d' = map ?g (model_calls d)"
      by (simp_all add: d' set_call_def set_attempt_def update_where_map)
    show "attempt_ok d (?f x)" if "x \<in> set (model_attempts d)" "attempt_ok d x" for x
    proof (cases "ma_id x = aid")
      case True
      then have "x = a" using attempt_unique [OF ok a(1) that(1)] by simp
      then show ?thesis using that(2) a(2) by (simp add: attempt_ok_def)
    qed (use that in simp)
    show "ma_validation (?f x) = VCurrent \<longleftrightarrow> mc_winner (?g c) = Some (ma_id x)"
      if "c \<in> set (model_calls d)" "x \<in> set (model_attempts d)" "ma_call x = mc_id c" for c x
      using calls_okD(2) [OF ok that] by simp
    show "\<exists>x \<in> set (model_attempts d). ma_call x = mc_id c \<and> ma_id x = w"
      if "c \<in> set (model_calls d)" "mc_winner (?g c) = Some w" for c w
      using calls_okD(3) [OF ok that(1)] that(2) by (simp split: if_splits)
  qed auto
  then show ?thesis by (simp add: d' set_call_def set_attempt_def)
qed

lemma unknown_calls_ok:
  assumes ok: "calls_ok d" and m: "mark_model_attempt_unknown fl aid err d = Inr (a', d')"
  shows "calls_ok d' \<and> (cost_ok d \<longrightarrow> cost_ok d')"
proof (cases "d' = d")
  case True
  then show ?thesis using ok by simp
next
  case False
  obtain a clean where a: "find_attempt d aid = Some a" "ma_status a = Dispatched"
    and d': "d' = set_call (\<lambda>c. mc_id c = ma_call a) (\<lambda>c. c\<lparr>mc_status := UnknownOutcome\<rparr>)
              (suspend_held (\<lambda>i. i = aid)
                (set_attempt aid (\<lambda>a. a\<lparr>ma_status := UnknownOutcome, ma_error := clean\<rparr>) d))"
    using m False
    by (auto simp: mark_model_attempt_unknown_def Let_def result_simps split: option.splits if_splits)
  let ?f = "\<lambda>x. if ma_id x = aid then x\<lparr>ma_status := UnknownOutcome, ma_error := clean\<rparr> else x"
  let ?g = "\<lambda>c. if mc_id c = ma_call a then c\<lparr>mc_status := UnknownOutcome\<rparr> else c"
  have "calls_ok d'"
  proof (rule calls_ok_map [OF ok, where f = ?f and g = ?g])
    show "model_attempts d' = map ?f (model_attempts d)" "model_calls d' = map ?g (model_calls d)"
      by (simp_all add: d' set_call_def set_attempt_def suspend_held_def update_where_map)
    show "attempt_ok d (?f x)" if "x \<in> set (model_attempts d)" "attempt_ok d x" for x
    proof (cases "ma_id x = aid")
      case True
      then have "x = a" using attempt_unique [OF ok a(1) that(1)] by simp
      then show ?thesis using that(2) a(2) by (simp add: attempt_ok_def)
    qed (use that in simp)
    show "ma_validation (?f x) = VCurrent \<longleftrightarrow> mc_winner (?g c) = Some (ma_id x)"
      if "c \<in> set (model_calls d)" "x \<in> set (model_attempts d)" "ma_call x = mc_id c" for c x
      using calls_okD(2) [OF ok that] by simp
    show "\<exists>x \<in> set (model_attempts d). ma_call x = mc_id c \<and> ma_id x = w"
      if "c \<in> set (model_calls d)" "mc_winner (?g c) = Some w" for c w
      using calls_okD(3) [OF ok that(1)] that(2) by (simp split: if_splits)
  qed auto
  moreover have "cost_ok d'" if "cost_ok d"
  proof -
    have "cost_ok (suspend_held (\<lambda>i. i = aid) d)" by (rule suspend_held_cost_ok [OF that])
    then show ?thesis
      by (subst cost_ok_cong [of _ "suspend_held (\<lambda>i. i = aid) d"])
        (simp_all add: d' set_call_def set_attempt_def suspend_held_def)
  qed
  ultimately show ?thesis by blast
qed

lemma recover_calls_ok:
  assumes ok: "calls_ok d" and m: "recover_model_calls d = (n, d')"
  shows "calls_ok d' \<and> (cost_ok d \<longrightarrow> cost_ok d')"
proof -
  define d1 where "d1 = release_held (attempts_in Prepared d) d"
  define d2 where "d2 = update_attempts Prepared cancel_row d1"
  define d3 where "d3 = suspend_held (attempts_in Dispatched d2) d2"
  define d4 where "d4 = update_attempts Dispatched lose_row d3"
  define p5 :: "model_call_row \<Rightarrow> bool" where "p5 = (\<lambda>c. mc_winner c = None \<and> (\<exists>a \<in> set (model_attempts d4).
     ma_call a = mc_id c \<and> ma_validation a = VCancelled))"
  define d5 where "d5 = set_call p5 (\<lambda>c. c\<lparr>mc_status := AttemptFailed\<rparr>) d4"
  define p6 :: "model_call_row \<Rightarrow> bool" where "p6 = (\<lambda>c. mc_winner c = None \<and> (\<exists>a \<in> set (model_attempts d5).
     ma_call a = mc_id c \<and> ma_status a = UnknownOutcome))"
  have d': "d' = set_call p6 (\<lambda>c. c\<lparr>mc_status := UnknownOutcome\<rparr>) d5"
    using m by (simp add: recover_model_calls_def Let_def d1_def d2_def d3_def d4_def d5_def p5_def p6_def)
  define f :: "model_attempt_row \<Rightarrow> model_attempt_row" where
    "f = (\<lambda>x. if ma_status x = Dispatched then lose_row x else x) \<circ>
         (\<lambda>x. if ma_status x = Prepared then cancel_row x else x)"
  define g :: "model_call_row \<Rightarrow> model_call_row" where
    "g = (\<lambda>c. if p6 c then c\<lparr>mc_status := UnknownOutcome\<rparr> else c) \<circ>
         (\<lambda>c. if p5 c then c\<lparr>mc_status := AttemptFailed\<rparr> else c)"
  have "calls_ok d'"
  proof (rule calls_ok_map [OF ok, where f = f and g = g])
    show "model_attempts d' = map f (model_attempts d)" "model_calls d' = map g (model_calls d)"
      by (simp_all add: d' d5_def d4_def d3_def d2_def d1_def f_def g_def set_call_def
          update_attempts_def suspend_held_def release_held_def update_where_map)
    show "attempt_ok d (f x)" if "attempt_ok d x" for x
      using that by (cases "ma_status x") (simp_all add: attempt_ok_def f_def lose_row_def cancel_row_def)
    show "ma_validation (f x) = VCurrent \<longleftrightarrow> mc_winner (g c) = Some (ma_id x)"
      if "c \<in> set (model_calls d)" "x \<in> set (model_attempts d)" "ma_call x = mc_id c" for c x
    proof -
      have "mc_winner (g c) = mc_winner c" by (simp add: g_def)
      moreover have "ma_status x = Prepared \<Longrightarrow> ma_validation x = VPending"
        using calls_okD(1) [OF ok that(2)] unfolding attempt_ok_def by blast
      then have "ma_validation (f x) = VCurrent \<longleftrightarrow> ma_validation x = VCurrent"
        by (cases "ma_status x") (simp_all add: f_def lose_row_def cancel_row_def)
      ultimately show ?thesis using calls_okD(2) [OF ok that] by simp
    qed
    show "\<exists>x \<in> set (model_attempts d). ma_call x = mc_id c \<and> ma_id x = w"
      if "c \<in> set (model_calls d)" "mc_winner (g c) = Some w" for c w
      using calls_okD(3) [OF ok that(1)] that(2) by (simp add: g_def split: if_splits)
  qed (auto simp: f_def g_def lose_row_def cancel_row_def)
  moreover have "cost_ok d'" if c: "cost_ok d"
  proof -
    have "cost_ok d1" unfolding d1_def by (rule release_held_cost_ok [OF c])
    then have "cost_ok d2" by (subst cost_ok_cong [of _ d1]) (simp_all add: d2_def update_attempts_def)
    then have "cost_ok d3" unfolding d3_def by (rule suspend_held_cost_ok)
    then show ?thesis
      by (subst cost_ok_cong [of _ d3]) (simp_all add: d' d5_def d4_def set_call_def update_attempts_def)
  qed
  ultimately show ?thesis by blast
qed

section \<open>Settling an attempt\<close>

lemma settle_cost_tables:
  "settle_cost i n m d = Inr d' \<Longrightarrow> model_calls d' = model_calls d \<and> model_attempts d' = model_attempts d"
  by (auto simp: settle_cost_def Let_def split: option.splits if_splits)

lemma settle_cases:
  assumes "settle_model_attempt sha fl aid st d = Inr (a', d')"
  obtains (replayed) "d' = d" "find_attempt d aid = Some a'" "ma_response_hash a' \<noteq> None"
      "st_response st = ma_response_hash a'"
  | (settled) a call cand h v d2 where "find_attempt d aid = Some a" "find_call d (ma_call a) = Some call"
      "ma_response_hash a = None"
      "ma_status a \<in> (if st_current st then {Dispatched} else {Prepared, Dispatched})"
      "final_validation sha st call d = Inr v" "a' = settled_row st cand h v a"
      "settle_cost aid (st_input st) (st_output st) (set_attempt aid (settled_row st cand h v) d) = Inr d2"
      "d' = (if v = VCurrent
             then set_call (\<lambda>c. mc_id c = ma_call a \<and> mc_winner c = None)
                    (\<lambda>c. c\<lparr>mc_status := st_status st, mc_winner := Some aid\<rparr>) d2
             else set_call (\<lambda>c. mc_id c = ma_call a) (\<lambda>c. c\<lparr>mc_status := st_status st\<rparr>) d2)"
      "0 \<le> st_input st" "0 \<le> st_output st"
proof -
  have nonneg: "0 \<le> st_input st" "0 \<le> st_output st"
    using assms by (auto simp: settle_model_attempt_def split: if_splits)
  obtain cand h where ch: "clean_candidate sha fl st = Inr (cand, h)"
    using assms by (cases "clean_candidate sha fl st") (auto simp: settle_model_attempt_def split: if_splits)
  have ss: "settle_summaries fl st = Inr ()"
    using assms ch by (cases "settle_summaries fl st") (auto simp: settle_model_attempt_def split: if_splits)
  obtain a where a: "find_attempt d aid = Some a"
    using assms ch ss by (cases "find_attempt d aid") (auto simp: settle_model_attempt_def split: if_splits)
  obtain call where call: "find_call d (ma_call a) = Some call"
    using assms ch ss a by (cases "find_call d (ma_call a)") (auto simp: settle_model_attempt_def split: if_splits)
  show thesis
  proof (cases "ma_response_hash a = None")
    case False
    then have "st_response st = ma_response_hash a" "a' = a" "d' = d"
      using assms ch ss a call by (simp_all add: settle_model_attempt_def split: if_splits)
    then show thesis using a False replayed by simp
  next
    case True
    have st: "ma_status a \<in> (if st_current st then {Dispatched} else {Prepared, Dispatched})"
      using assms ch ss a call True by (auto simp: settle_model_attempt_def split: if_splits)
    obtain v where v: "final_validation sha st call d = Inr v"
      using assms ch ss a call True st by (cases "final_validation sha st call d")
        (auto simp: settle_model_attempt_def split: if_splits)
    let ?d1 = "set_attempt aid (settled_row st cand h v) d"
    obtain d2 where d2: "settle_cost aid (st_input st) (st_output st) ?d1 = Inr d2"
      using assms ch ss a call True st v
      by (cases "settle_cost aid (st_input st) (st_output st) ?d1")
        (auto simp: settle_model_attempt_def Let_def split: if_splits)
    show thesis
      by (rule settled [OF a call True st v _ d2 _ nonneg])
        (use assms ch ss a call True st v d2 in \<open>auto simp: settle_model_attempt_def Let_def split: if_splits\<close>)
  qed
qed

lemma final_validation_cases:
  assumes "final_validation sha st call d = Inr v"
  shows "(st_current st \<longrightarrow> v \<in> {VCurrent, VStale, VConflict}) \<and> (\<not> st_current st \<longrightarrow> v = st_validation st) \<and>
    (v = VCurrent \<and> st_current st \<longrightarrow> (\<forall>x \<in> set (model_attempts d). ma_call x = mc_id call \<longrightarrow> ma_validation x \<noteq> VCurrent))"
  using assms by (auto simp: final_validation_def result_simps select_one_None_iff split: if_splits)

text \<open>The settlements the code makes: a validated success or an invalid failure.\<close>

definition proper_settlement :: "settlement \<Rightarrow> bool" where
  "proper_settlement st \<longleftrightarrow>
     (if st_current st then st_status st = Succeeded
      else st_status st = AttemptFailed \<and> st_validation st = VInvalid)"

lemma settle_calls_ok:
  assumes ok: "calls_ok d" and m: "settle_model_attempt sha fl aid st d = Inr (a', d')"
    and proper: "proper_settlement st"
  shows "calls_ok d' \<and> (cost_ok d \<longrightarrow> cost_ok d')"
  using m
proof (cases rule: settle_cases)
  case replayed
  then show ?thesis using ok by simp
next
  case (settled a call cand h v d2)
  let ?d1 = "set_attempt aid (settled_row st cand h v) d"
  let ?f = "\<lambda>x. if ma_id x = aid then settled_row st cand h v x else x"
  define g :: "model_call_row \<Rightarrow> model_call_row" where
    "g = (\<lambda>c. if v = VCurrent
      then (if mc_id c = ma_call a \<and> mc_winner c = None
            then c\<lparr>mc_status := st_status st, mc_winner := Some aid\<rparr> else c)
      else (if mc_id c = ma_call a then c\<lparr>mc_status := st_status st\<rparr> else c))"
  have tabs: "model_calls d2 = model_calls d" "model_attempts d2 = map ?f (model_attempts d)"
    using settle_cost_tables [OF settled(7)] by (simp_all add: set_attempt_def update_where_map)
  have aok: "attempt_ok d a" using calls_okD(1) [OF ok] find_attempt_in [OF settled(1)] by simp
  have pend: "ma_validation a = VPending"
  proof -
    have "ma_status a \<in> {Prepared, Dispatched}" using settled(4) by (simp split: if_splits)
    then show ?thesis using aok unfolding attempt_ok_def by blast
  qed
  have fv: "v = VCurrent \<Longrightarrow> st_current st \<and>
      (\<forall>x \<in> set (model_attempts d). ma_call x = ma_call a \<longrightarrow> ma_validation x \<noteq> VCurrent)"
    using final_validation_cases [OF settled(5)] proper find_call_in [OF settled(2)]
    by (auto simp: proper_settlement_def split: if_splits)
  have "calls_ok d'"
  proof (rule calls_ok_map [OF ok, where f = ?f and g = g])
    show "model_attempts d' = map ?f (model_attempts d)"
      using settled(8) tabs by (simp add: set_call_def)
    show "model_calls d' = map g (model_calls d)"
      using settled(8) tabs by (simp add: set_call_def update_where_map g_def)
    show "attempt_ok d (?f x)" if "x \<in> set (model_attempts d)" "attempt_ok d x" for x
    proof (cases "ma_id x = aid")
      case True
      have "st_status st \<in> {Succeeded, AttemptFailed}" "v = VCurrent \<Longrightarrow> st_status st = Succeeded"
        using proper fv by (auto simp: proper_settlement_def split: if_splits)
      then show ?thesis using that(2) True by (auto simp: attempt_ok_def settled_row_def)
    qed (use that in simp)
    show "ma_validation (?f x) = VCurrent \<longleftrightarrow> mc_winner (g c) = Some (ma_id x)"
      if x: "c \<in> set (model_calls d)" "x \<in> set (model_attempts d)" "ma_call x = mc_id c" for c x
    proof (cases "mc_id c = ma_call a")
      case False
      then have "ma_id x \<noteq> aid" using attempt_unique [OF ok settled(1) x(2)] x(3) by auto
      then show ?thesis using False calls_okD(2) [OF ok x] by (simp add: g_def)
    next
      case True
      have ca: "ma_call a = mc_id c" "a \<in> set (model_attempts d)" "ma_id a = aid"
        using True find_attempt_in [OF settled(1)] by auto
      have w: "mc_winner c \<noteq> Some aid" using calls_okD(2) [OF ok x(1) ca(2,1)] pend ca(3) by auto
      show ?thesis
      proof (cases "v = VCurrent")
        case False
        then have "mc_winner (g c) = mc_winner c" by (simp add: g_def)
        then show ?thesis
          using False w calls_okD(2) [OF ok x] by (auto simp: settled_row_def)
      next
        case v: True
        have none: "\<forall>y \<in> set (model_attempts d). ma_call y = mc_id c \<longrightarrow> mc_winner c \<noteq> Some (ma_id y)"
          using fv [OF v] calls_okD(2) [OF ok x(1)] True by auto
        show ?thesis
        proof (cases "mc_winner c = None")
          case True
          then show ?thesis using v \<open>mc_id c = ma_call a\<close> none x calls_okD(2) [OF ok x]
            by (auto simp: g_def settled_row_def)
        next
          case False
          then obtain w where "mc_winner c = Some w" by blast
          then show ?thesis using calls_okD(3) [OF ok x(1)] none by blast
        qed
      qed
    qed
    show "\<exists>x \<in> set (model_attempts d). ma_call x = mc_id c \<and> ma_id x = w"
      if c: "c \<in> set (model_calls d)" "mc_winner (g c) = Some w" for c w
    proof (cases "mc_winner c = Some w")
      case True
      then show ?thesis using calls_okD(3) [OF ok c(1)] by blast
    next
      case False
      then have "w = aid" "mc_id c = ma_call a" using c(2) by (auto simp: g_def split: if_splits)
      then show ?thesis using find_attempt_in [OF settled(1)] by auto
    qed
  qed (auto simp: settled_row_def g_def)
  moreover have "cost_ok d'" if "cost_ok d"
  proof -
    have "cost_ok ?d1" using that by (subst cost_ok_cong [of _ d]) (simp_all add: set_attempt_def)
    then have "cost_ok d2" using settle_cost_ok settled(7) by blast
    then show ?thesis using settled(8) by (subst cost_ok_cong [of _ d2]) (simp_all add: set_call_def)
  qed
  ultimately show ?thesis by blast
qed

section \<open>Preparing and retrying\<close>

lemma reserve_cost_tables:
  "reserve_cost i q d = Inr d' \<Longrightarrow> model_calls d' = model_calls d \<and> model_attempts d' = model_attempts d"
  by (erule reserve_cost_cases)
    (auto simp: ensure_cost_account_def Let_def split: option.splits if_splits)

lemma reserve_optional_ok:
  assumes "reserve_optional i q d = Inr d'"
  shows "model_calls d' = model_calls d \<and> model_attempts d' = model_attempts d \<and>
    (cost_ok d \<longrightarrow> cost_ok d')"
  using assms reserve_cost_tables reserve_cost_ok
  by (auto simp: reserve_optional_def split: option.splits)

lemma insert_attempt_calls_ok:
  assumes ok: "calls_ok d" and ins: "insert_attempt a d = Inr d'"
    and a: "a = fresh_attempt aid cid n token adapter model parameters reserved" "0 \<le> reserved"
      "1 \<le> n" "n \<le> MODEL_MAX_ATTEMPTS" "cid \<in> mc_id ` set (model_calls d)"
  shows "calls_ok d'"
proof -
  have d': "model_attempts d' = model_attempts d @ [a]" "model_calls d' = model_calls d"
    and fresh: "\<forall>x \<in> set (model_attempts d). ma_id x \<noteq> ma_id a \<and>
      (ma_call x, ma_no x) \<noteq> (ma_call a, ma_no a)"
    using ins by (auto simp: insert_attempt_def split: if_splits)
  have row: "attempt_ok d a"
    using a by (simp add: attempt_ok_def fresh_attempt_def)
  have same: "attempt_ok d' x = attempt_ok d x" for x by (simp add: attempt_ok_def d')
  have "ma_validation a = VPending" by (simp add: a fresh_attempt_def)
  moreover have "mc_winner c \<noteq> Some (ma_id a)" if "c \<in> set (model_calls d)" for c
    using calls_okD(3) [OF ok that] fresh by blast
  ultimately have "winner_ok d' c" if "c \<in> set (model_calls d)" for c
    using that ok unfolding calls_ok_def winner_ok_def d' by auto
  moreover have "distinct (map ma_id (model_attempts d @ [a]))"
    "distinct (map (\<lambda>a. (ma_call a, ma_no a)) (model_attempts d @ [a]))"
    using ok fresh unfolding calls_ok_def by auto
  ultimately show ?thesis using ok row same unfolding calls_ok_def d' by simp
qed

lemma insert_call_calls_ok:
  assumes ok: "calls_ok d" and ins: "insert_call c d = Inr d'" and "mc_winner c = None"
  shows "calls_ok d'"
proof -
  have eq: "d' = d\<lparr>model_calls := model_calls d @ [c]\<rparr>"
    and new: "\<forall>x \<in> set (model_calls d). mc_id x \<noteq> mc_id c"
    using ins by (simp_all add: insert_call_def split: if_splits)
  have d': "model_calls d' = model_calls d @ [c]" "model_attempts d' = model_attempts d"
    by (simp_all add: eq)
  have fresh: "mc_id c \<notin> mc_id ` set (model_calls d)" using new by (metis imageE)
  have att: "attempt_ok d' a" if "attempt_ok d a" for a
  proof -
    have "mc_id ` set (model_calls d) \<subseteq> mc_id ` set (model_calls d')" by (simp add: d' subset_insertI)
    then show ?thesis using that unfolding attempt_ok_def by (meson subsetD)
  qed
  have win: "winner_ok d' x = winner_ok d x" for x unfolding winner_ok_def d' by (rule refl)
  have "winner_ok d c"
  proof -
    have "ma_call a \<noteq> mc_id c" if "a \<in> set (model_attempts d)" for a
      using calls_okD(1) [OF ok that] fresh unfolding attempt_ok_def by metis
    then show ?thesis using assms(3) by (simp add: winner_ok_def)
  qed
  then have "\<forall>x \<in> set (model_calls d'). winner_ok d' x" "\<forall>a \<in> set (model_attempts d'). attempt_ok d' a"
    using ok att win by (auto simp: d' calls_ok_def)
  moreover have "distinct (map mc_id (model_calls d'))"
    using ok fresh by (simp add: d' calls_ok_def)
  ultimately show ?thesis using ok d'(2) by (simp add: calls_ok_def)
qed

lemma prepare_call_cases:
  assumes "prepare_model_call sha fl rq now d = Inr (view, d')"
  obtains (replayed) c where "d' = d" "fst view = c"
      "select_one (\<lambda>c. mc_quest c = mq_quest rq \<and> mc_key c = mq_key rq) (model_calls d) = Some c"
  | (fresh) b parameters cost d1 d2 where "model_binding_of sha d (mq_quest rq) = Inr b"
      "0 \<le> mq_reserved rq"
      "fst (model_usage d (mq_quest rq)) + snd (model_usage d (mq_quest rq)) + mq_reserved rq \<le> b_max_tokens b"
      "insert_call (call_of_request rq b now) d = Inr d1"
      "insert_attempt (fresh_attempt (mq_call rq @ '':1'') (mq_call rq) 1 (request_token rq)
         (mq_adapter rq) (mq_model rq) parameters (mq_reserved rq)) d1 = Inr d2"
      "reserve_optional (mq_call rq @ '':1'') cost d2 = Inr d'"
      "select_one (\<lambda>c. mc_quest c = mq_quest rq \<and> mc_key c = mq_key rq) (model_calls d) = None"
      "get_model_call d' (mq_call rq) = Some view"
proof -
  have good: "\<not> bad_request rq" using assms by (auto simp: prepare_model_call_def split: if_splits)
  obtain x parameters cost b where pre: "require_model_hash (mq_input_hash rq) ''input hash'' = Inr x"
    "model_summary fl (mq_parameters rq) ''model parameters'' 8192 True = Inr parameters"
    "validate_optional (mq_cost rq) = Inr cost" "model_binding_of sha d (mq_quest rq) = Inr b"
    "\<not> (mq_expected rq \<noteq> None \<and> mq_expected rq \<noteq> Some (b_version b))"
    using assms good by (auto simp: prepare_model_call_def result_simps split: if_splits)
  show thesis
  proof (cases "select_one (\<lambda>c. mc_quest c = mq_quest rq \<and> mc_key c = mq_key rq) (model_calls d)")
    case (Some existing)
    then have "d' = d \<and> fst view = existing"
      using assms good pre
      by (auto simp: prepare_model_call_def replay_prepared_def result_simps split: option.splits if_splits)
    then show thesis using replayed Some by simp
  next
    case None
    obtain s h where u: "model_usage d (mq_quest rq) = (s, h)" by fastforce
    let ?a = "fresh_attempt (mq_call rq @ '':1'') (mq_call rq) 1 (request_token rq)
      (mq_adapter rq) (mq_model rq) parameters (mq_reserved rq)"
    have room: "s + h + mq_reserved rq \<le> b_max_tokens b"
      using assms good pre None u by (auto simp: prepare_model_call_def split: if_splits)
    obtain d1 d2 where "insert_call (call_of_request rq b now) d = Inr d1"
      "insert_attempt ?a d1 = Inr d2" "reserve_optional (mq_call rq @ '':1'') cost d2 = Inr d'"
      "get_model_call d' (mq_call rq) = Some view"
      using assms good pre None u room
      by (auto simp: prepare_model_call_def result_simps Let_def fresh_attempt_def
          split: if_splits option.splits)
    then show thesis using fresh pre(4) good room u None by (simp add: bad_request_def)
  qed
qed

lemma prepare_calls_ok:
  assumes ok: "calls_ok d" and m: "prepare_model_call sha fl rq now d = Inr (view, d')"
  shows "calls_ok d' \<and> (cost_ok d \<longrightarrow> cost_ok d')"
  using m
proof (cases rule: prepare_call_cases)
  case (replayed c)
  then show ?thesis using ok by simp
next
  case (fresh b parameters cost d1 d2)
  have c1: "calls_ok d1" by (rule insert_call_calls_ok [OF ok fresh(4)]) (simp add: call_of_request_def)
  have in1: "mq_call rq \<in> mc_id ` set (model_calls d1)"
    using fresh(4) by (auto simp: insert_call_def call_of_request_def split: if_splits)
  have "calls_ok d2"
    by (rule insert_attempt_calls_ok [OF c1 fresh(5) refl fresh(2) _ _ in1])
      (simp_all add: MODEL_MAX_ATTEMPTS_def)
  moreover have "cost_ok d2" if "cost_ok d"
    using that fresh(4,5)
    by (subst cost_ok_cong [of _ d]) (auto simp: insert_call_def insert_attempt_def split: if_splits)
  ultimately show ?thesis
    using reserve_optional_ok [OF fresh(6)] calls_ok_cong by blast
qed

lemma retry_cases:
  assumes "retry_model_call sha fl cid aid token adapter model parameters reserved cost d = Inr (a, d')"
  obtains call b clean cost' d1 d2 where "find_call d cid = Some call" "mc_winner call = None"
    "mc_status call \<in> {AttemptFailed, UnknownOutcome}" "model_binding_of sha d (mc_quest call) = Inr b"
    "binding_current b call" "0 \<le> reserved"
    "fst (model_usage d (mc_quest call)) + snd (model_usage d (mc_quest call)) + reserved \<le> mc_max_tokens call"
    "a = fresh_attempt aid cid (fold max (attempt_numbers d cid) 0 + 1) token adapter model clean reserved"
    "fold max (attempt_numbers d cid) 0 + 1 \<le> MODEL_MAX_ATTEMPTS"
    "insert_attempt a d = Inr d1" "reserve_optional aid cost' d1 = Inr d2"
    "d' = set_call (\<lambda>c. mc_id c = cid) (\<lambda>c. c\<lparr>mc_status := Prepared\<rparr>) d2"
proof -
  have good: "\<not> (reserved < 0 \<or> [] \<in> set [aid, token, adapter, model])"
    using assms unfolding retry_model_call_def by (metis Inl_Inr_False)
  obtain clean where clean: "model_summary fl parameters ''model parameters'' 8192 True = Inr clean"
    using assms good unfolding retry_model_call_def
    by (cases "model_summary fl parameters ''model parameters'' 8192 True") simp_all
  obtain cost' where "validate_optional cost = Inr cost'"
    using assms good clean unfolding retry_model_call_def by (cases "validate_optional cost") simp_all
  note pre = good clean this
  obtain call where call: "find_call d cid = Some call"
    using assms pre by (cases "find_call d cid") (auto simp: retry_model_call_def)
  have open_call: "mc_winner call = None \<and> mc_status call \<in> {AttemptFailed, UnknownOutcome}"
    using assms pre call by (auto simp: retry_model_call_def split: if_splits)
  then obtain b where b: "model_binding_of sha d (mc_quest call) = Inr b"
    using assms pre call by (cases "model_binding_of sha d (mc_quest call)") (auto simp: retry_model_call_def)
  obtain s h where u: "model_usage d (mc_quest call) = (s, h)" by fastforce
  have cur: "binding_current b call" and room: "s + h + reserved \<le> mc_max_tokens call"
    and num: "fold max (attempt_numbers d cid) 0 + 1 \<le> MODEL_MAX_ATTEMPTS"
    using assms pre call open_call b u by (auto simp: retry_model_call_def Let_def split: if_splits)
  let ?a = "fresh_attempt aid cid (fold max (attempt_numbers d cid) 0 + 1) token adapter model clean reserved"
  obtain d1 d2 where "insert_attempt ?a d = Inr d1" "reserve_optional aid cost' d1 = Inr d2" "a = ?a"
    "d' = set_call (\<lambda>c. mc_id c = cid) (\<lambda>c. c\<lparr>mc_status := Prepared\<rparr>) d2"
    using assms pre call open_call b u cur room num
    by (auto simp: retry_model_call_def Let_def result_simps)
  then show thesis using that [OF call _ _ b cur] open_call pre(1) room u num by simp
qed

lemma retry_calls_ok:
  assumes ok: "calls_ok d"
    and m: "retry_model_call sha fl cid aid token adapter model parameters reserved cost d = Inr (a, d')"
  shows "calls_ok d' \<and> (cost_ok d \<longrightarrow> cost_ok d')"
  using m
proof (cases rule: retry_cases)
  case (1 call b clean cost' d1 d2)
  have cin: "cid \<in> mc_id ` set (model_calls d)" using find_call_in [OF 1(1)] by auto
  have c1: "calls_ok d1"
    by (rule insert_attempt_calls_ok [OF ok 1(10,8,6) _ 1(9) cin]) simp
  have c2: "calls_ok d2" using reserve_optional_ok [OF 1(11)] c1 calls_ok_cong by blast
  have "calls_ok d'"
    by (rule calls_ok_map [OF c2, where f = "\<lambda>x. x" and g = "\<lambda>c. if mc_id c = cid then c\<lparr>mc_status := Prepared\<rparr> else c"])
      (use calls_okD [OF c2] in \<open>auto simp: 1(12) set_call_def update_where_map split: if_splits\<close>)
  moreover have "cost_ok d1" if "cost_ok d"
    using that 1(10) by (subst cost_ok_cong [of _ d]) (auto simp: insert_attempt_def split: if_splits)
  then have "cost_ok d2" if "cost_ok d" using that reserve_optional_ok [OF 1(11)] by blast
  then have "cost_ok d'" if "cost_ok d"
    using that by (subst cost_ok_cong [of _ d2]) (simp_all add: 1(12) set_call_def)
  ultimately show ?thesis by blast
qed

end
