(* ===== verification/Model_Properties.thy ===== *)
theory Model_Properties
  imports Model_Journal
begin

text \<open>
  The journal of model calls as a transition system, and its properties: the cost budget, the
  winner of a call, the bound on retries, the token admission and the recovery after a restart.
\<close>

inductive model_step :: "(json \<Rightarrow> string) \<Rightarrow> (rat \<Rightarrow> string) \<Rightarrow> db \<Rightarrow> db \<Rightarrow> bool" for sha fl where
  prepare: "prepare_model_call sha fl rq now d = Inr (v, d') \<Longrightarrow> model_step sha fl d d'"
| dispatch: "mark_model_attempt_dispatched aid d = Inr (a, d') \<Longrightarrow> model_step sha fl d d'"
| success: "record_model_success sha fl aid qid ih rh cand i n us co retain d = Inr (a, d') \<Longrightarrow>
    model_step sha fl d d'"
| failure: "record_model_failure sha fl aid err i n us co d = Inr (a, d') \<Longrightarrow> model_step sha fl d d'"
| unknown: "mark_model_attempt_unknown fl aid err' d = Inr (a, d') \<Longrightarrow> model_step sha fl d d'"
| retry: "retry_model_call sha fl cid aid token adapter model parameters reserved cost d = Inr (a, d') \<Longrightarrow>
    model_step sha fl d d'"
| recover: "recover_model_calls d = (n, d') \<Longrightarrow> model_step sha fl d d'"
| other: "model_calls d' = model_calls d \<Longrightarrow> model_attempts d' = model_attempts d \<Longrightarrow>
    cost_accounts d' = cost_accounts d \<Longrightarrow> cost_reservations d' = cost_reservations d \<Longrightarrow>
    model_step sha fl d d'"

text \<open>\<open>other\<close> is any operation on the other tables: appending events, leases, tool actions, ...\<close>

inductive model_reachable :: "(json \<Rightarrow> string) \<Rightarrow> (rat \<Rightarrow> string) \<Rightarrow> db \<Rightarrow> bool" for sha fl where
  start: "model_reachable sha fl empty_db"
| step: "model_reachable sha fl d \<Longrightarrow> model_step sha fl d d' \<Longrightarrow> model_reachable sha fl d'"

lemma success_calls_ok:
  assumes "calls_ok d" and "record_model_success sha fl aid qid ih rh cand i n us co retain d = Inr (a, d')"
  shows "calls_ok d' \<and> (cost_ok d \<longrightarrow> cost_ok d')"
  using assms(2) unfolding record_model_success_def result_simps
  by (elim exE conjE) (rule settle_calls_ok [OF assms(1)], assumption, simp add: proper_settlement_def)

lemma failure_calls_ok:
  assumes "calls_ok d" and "record_model_failure sha fl aid err i n us co d = Inr (a, d')"
  shows "calls_ok d' \<and> (cost_ok d \<longrightarrow> cost_ok d')"
  using assms(2) unfolding record_model_failure_def
  by (rule settle_calls_ok [OF assms(1)]) (simp add: proper_settlement_def)

lemma model_step_ok:
  assumes "model_step sha fl d d'" and "calls_ok d \<and> cost_ok d"
  shows "calls_ok d' \<and> cost_ok d'"
  using assms(1)
proof cases
  case (prepare rq now v)
  then show ?thesis using prepare_calls_ok assms(2) by blast
next
  case (dispatch aid a)
  then show ?thesis using dispatch_calls_ok cost_ok_cong assms(2) by blast
next
  case (success aid qid ih rh cand i n us co retain a)
  then show ?thesis using success_calls_ok assms(2) by blast
next
  case (failure aid err i n us co a)
  then show ?thesis using failure_calls_ok assms(2) by blast
next
  case (unknown aid err' a)
  then show ?thesis using unknown_calls_ok assms(2) by blast
next
  case (retry cid aid token adapter model parameters reserved cost a)
  then show ?thesis using retry_calls_ok assms(2) by blast
next
  case (recover n)
  then show ?thesis using recover_calls_ok assms(2) by blast
next
  case other
  then show ?thesis using calls_ok_cong cost_ok_cong assms(2) by blast
qed

lemma model_reachable_ok: "model_reachable sha fl d \<Longrightarrow> calls_ok d \<and> cost_ok d"
  by (induction rule: model_reachable.induct)
    (use calls_ok_empty cost_ok_empty model_step_ok in blast)+

section \<open>Cost\<close>

text \<open>
  Claim C7. The cost budget holds: in every reachable database, for each authorised provider, what
  is settled and what is held on its account stay within the account's limit unless the account is
  breached, and the reported available amount is never negative then.
\<close>

theorem cost_within_budget:
  assumes "model_reachable sha fl d" and "model_cost_usage d provider model = Inr rep"
    and "\<not> rep_breached rep"
  shows "rep_settled rep + rep_held rep \<le> rep_max_total rep \<and> 0 \<le> rep_available rep \<and>
    rep_settled rep + rep_held rep + rep_available rep = rep_max_total rep"
proof -
  have ok: "cost_ok d" using model_reachable_ok [OF assms(1)] by blast
  obtain p where p: "cost_profile_for provider model = Some p"
    using assms(2) by (auto simp: model_cost_usage_def split: option.splits)
  obtain s h where u: "cost_usage d (cp_account p) = (s, h)" by fastforce
  show ?thesis
  proof (cases "find_account d (cp_account p)")
    case None
    then show ?thesis using assms(2) p profile_rates [OF p] by (auto simp: model_cost_usage_def)
  next
    case (Some a)
    then have rep: "rep = \<lparr>rep_account = cp_account p, rep_settled = s, rep_held = h,
        rep_max_total = ca_max_total a, rep_available = ca_max_total a - s - h,
        rep_breached = ca_breached a\<rparr>"
      using assms(2) p u by (simp add: model_cost_usage_def)
    have "account_ok d a" using ok find_account_in [OF Some] by (simp add: cost_ok_def)
    then have "s + h \<le> ca_max_total a"
      using assms(3) rep cost_usage_sum [OF u] find_account_in [OF Some] by (simp add: account_ok_def)
    then show ?thesis by (simp add: rep)
  qed
qed

theorem cost_within_budget_witness:
  "\<exists>rep. model_cost_usage empty_db ''qwen'' ''qwen-plus'' = Inr rep \<and>
     rep_settled rep + rep_held rep + rep_available rep = rep_max_total rep"
proof -
  obtain rep where rep: "model_cost_usage empty_db ''qwen'' ''qwen-plus'' = Inr rep" "\<not> rep_breached rep"
    by (simp add: model_cost_usage_def cost_profile_for_def find_account_def empty_db_def)
  from cost_within_budget [OF model_reachable.start [of sha fl for sha fl] rep] rep show ?thesis by blast
qed

text \<open>
  A provider that keeps to its quote cannot breach the account: after a reservation for
  a quote of i input and n output tokens, settling any usage within those bounds succeeds, never
  charges more than was reserved and leaves every account as it was.
\<close>

lemma quoted_usage_never_breaches:
  assumes "find_reservation d att = None" and "reserve_cost att q d = Inr d1"
    and "0 \<le> i" "i \<le> qt_input q" "0 \<le> n" "n \<le> qt_output q"
  shows "\<exists>d2 r actual. settle_cost att i n d1 = Inr d2 \<and> cost_accounts d2 = cost_accounts d1 \<and>
    find_reservation d2 att = Some r \<and> cr_status r = Settled \<and> cr_settled r = Some actual \<and>
    actual \<le> qt_reserved q"
  using assms(2)
proof (cases rule: reserve_cost_cases)
  case (1 q' p d0)
  have q': "q' = q" "cost_profile_for (qt_provider q) (qt_snapshot q) = Some p"
    "qt_reserved q = qt_input q * cp_input_rate p + qt_output q * cp_reserve_rate p"
    using 1(2) by (auto intro: validated_quote [OF 1(1)])
  have "cost_reservations d0 = cost_reservations d"
    using 1(3) by (auto simp: ensure_cost_account_def Let_def split: option.splits if_splits)
  then have none: "find_reservation d0 att = None" using assms(1) by (simp add: find_reservation_def)
  let ?r = "reservation_of_quote att q"
  have d1: "d1 = d0\<lparr>cost_reservations := cost_reservations d0 @ [?r]\<rparr>"
    using 1(4) none q'(1) by auto
  have found: "find_reservation d1 att = Some ?r"
    using none by (simp add: d1 find_reservation_def select_one_append reservation_of_quote_def)
  let ?actual = "i * cp_input_rate p + n * cp_output_rate p"
  have rates: "0 \<le> cp_input_rate p" "0 \<le> cp_output_rate p" "cp_output_rate p \<le> cp_reserve_rate p"
    using profile_rates [OF q'(2)] by auto
  have "i * cp_input_rate p \<le> qt_input q * cp_input_rate p"
    using assms(4) rates(1) by (rule mult_right_mono)
  moreover have "n * cp_output_rate p \<le> qt_output q * cp_reserve_rate p"
    using assms(5,6) rates by (intro mult_mono) auto
  ultimately have le: "?actual \<le> qt_reserved q" unfolding q'(3) by (rule add_mono)
  have "settle_cost att i n d1 = Inr (d1\<lparr>cost_reservations := update_where (\<lambda>r. cr_attempt r = att)
      (\<lambda>r. r\<lparr>cr_status := Settled, cr_settled := Some ?actual\<rparr>) (cost_reservations d1)\<rparr>)"
    using found q'(2) le by (simp add: settle_cost_def reservation_of_quote_def Let_def)
  moreover have "select_one (\<lambda>r. cr_attempt r = att) (update_where (\<lambda>r. cr_attempt r = att)
      (\<lambda>r. r\<lparr>cr_status := Settled, cr_settled := Some ?actual\<rparr>) (cost_reservations d1)) =
    Some (?r\<lparr>cr_status := Settled, cr_settled := Some ?actual\<rparr>)"
    using found reservation_table.select_update_same [of att "(Settled, Some ?actual)" "cost_reservations d1"]
    by (simp add: find_reservation_def)
  ultimately show ?thesis using le by (simp add: find_reservation_def)
qed

definition demo_quote :: cost_quote where
  "demo_quote = \<lparr>qt_account = ''phase2-qwen-plus-cny-v1'', qt_provider = ''qwen'',
     qt_alias = ''qwen-plus'', qt_snapshot = ''qwen-plus'',
     qt_pricing = ''dashscope-beijing-2026-08-21'', qt_fx = 1, qt_input = 100, qt_output = 50,
     qt_reserved = 500\<rparr>"

lemma demo_reserved: "\<exists>d. reserve_cost ''c:1'' demo_quote empty_db = Inr d"
  by (simp add: reserve_cost_def validated_cost_reservation_def cost_reservation_def
      cost_profile_for_def qwen_profile_def demo_quote_def ensure_cost_account_def
      find_account_def find_reservation_def empty_db_def profile_account_def cost_usage_def Let_def)

lemma quoted_usage_never_breaches_witness:
  "\<exists>d d2 r. settle_cost ''c:1'' 80 50 d = Inr d2 \<and> cost_accounts d2 = cost_accounts d \<and>
     find_reservation d2 ''c:1'' = Some r \<and> cr_status r = Settled"
proof -
  obtain d where d: "reserve_cost ''c:1'' demo_quote empty_db = Inr d" using demo_reserved by blast
  have "find_reservation empty_db ''c:1'' = None" by (simp add: find_reservation_def empty_db_def)
  from quoted_usage_never_breaches [OF this d, of 80 50] show ?thesis
    by (auto simp: demo_quote_def)
qed

text \<open>
  A breached account takes no new reservation, and no single reservation is above the
  per-call limit of its provider.
\<close>

lemma breached_account_refuses:
  assumes "find_reservation d att = None" and "find_account d (qt_account q) = Some a"
    and "reserve_cost att q d = Inr d1"
  shows "\<not> ca_breached a \<and> (\<exists>p. cost_profile_for (qt_provider q) (qt_snapshot q) = Some p \<and>
    qt_reserved q \<le> cp_max_call p \<and> account_cost d1 (qt_account q) \<le> cp_max_total p)"
  using assms(3)
proof (cases rule: reserve_cost_cases)
  case (1 q' p d0)
  have q': "q' = q" "cp_account p = qt_account q" "qt_reserved q \<le> cp_max_call p"
    using 1(2) by (auto intro: validated_quote [OF 1(1)])
  have "d0 = d" using 1(3) assms(2) q'(2) by (auto simp: ensure_cost_account_def Let_def split: if_splits)
  then show ?thesis using 1(2,4) assms(1,2) q'
    by (auto simp: account_cost_def row_cost_def reservation_of_quote_def settled_cost_def held_cost_def)
qed

theorem breached_account_refuses_witness:
  "\<not> ca_breached (profile_account qwen_profile False) \<and>
   (\<exists>p. cost_profile_for ''qwen'' ''qwen-plus'' = Some p \<and> 500 \<le> cp_max_call p)"
proof -
  let ?d = "empty_db\<lparr>cost_accounts := [profile_account qwen_profile False]\<rparr>"
  obtain d1 where "reserve_cost ''c:1'' demo_quote ?d = Inr d1"
    by (simp add: reserve_cost_def validated_cost_reservation_def cost_reservation_def
      cost_profile_for_def qwen_profile_def demo_quote_def ensure_cost_account_def
      find_account_def find_reservation_def empty_db_def profile_account_def cost_usage_def Let_def)
  moreover have "find_reservation ?d ''c:1'' = None" by (simp add: find_reservation_def empty_db_def)
  moreover have "find_account ?d (qt_account demo_quote) = Some (profile_account qwen_profile False)"
    by (simp add: find_account_def demo_quote_def profile_account_def qwen_profile_def)
  ultimately show ?thesis using breached_account_refuses [of ?d "''c:1''" demo_quote]
    by (auto simp: demo_quote_def)
qed

section \<open>Winners and retries\<close>

lemma filter_key_unique:
  assumes "distinct (map ma_id xs)" and "a \<in> set xs" and "ma_call a = i" and "ma_id a = w"
  shows "filter (\<lambda>x. ma_call x = i \<and> ma_id x = w) xs = [a]"
  using assms
proof (induction xs)
  case (Cons x xs)
  show ?case
  proof (cases "x = a")
    case True
    then have "filter (\<lambda>x. ma_call x = i \<and> ma_id x = w) xs = []"
      using Cons.prems(1,4) by (auto simp: filter_empty_conv image_iff)
    then show ?thesis using True Cons.prems(3,4) by simp
  next
    case False
    then have "ma_id x \<noteq> w" using Cons.prems(1,2,4) by (auto simp: image_iff)
    then show ?thesis using Cons.IH Cons.prems False by simp
  qed
qed simp

lemma attempts_bounded:
  assumes "calls_ok d"
  shows "length (filter (\<lambda>a. ma_call a = i) (model_attempts d)) \<le> MODEL_MAX_ATTEMPTS"
proof -
  let ?as = "filter (\<lambda>a. ma_call a = i) (model_attempts d)"
  have "distinct (map (\<lambda>a. (ma_call a, ma_no a)) (model_attempts d))" using assms by (simp add: calls_ok_def)
  then have "distinct (map (\<lambda>a. (ma_call a, ma_no a)) ?as)" by (rule distinct_map_filter)
  then have "distinct (map ma_no ?as)" by (auto simp: distinct_map inj_on_def)
  moreover have "set (map ma_no ?as) \<subseteq> {1..MODEL_MAX_ATTEMPTS}"
    using calls_okD(1) [OF assms] by (auto simp: attempt_ok_def)
  ultimately have "length (map ma_no ?as) \<le> card {1..MODEL_MAX_ATTEMPTS}"
    by (metis card_mono distinct_card finite_atLeastAtMost)
  then show ?thesis by simp
qed

text \<open>
  Claim C17. A call has at most one winner and at most three attempts: in every reachable database
  the attempts of a call that are validated as current are exactly its winning attempt (a call has at
  most one of them, and a call with a winner has it), which succeeded, and a call never has more than
  \<^verbatim>\<open>MODEL_MAX_ATTEMPTS\<close> attempts.
\<close>

theorem one_winner_and_bounded_attempts:
  assumes "model_reachable sha fl d" and "c \<in> set (model_calls d)"
  shows "(\<forall>a \<in> set (model_attempts d). ma_call a = mc_id c \<longrightarrow>
      (ma_validation a = VCurrent \<longleftrightarrow> mc_winner c = Some (ma_id a))) \<and>
    (\<forall>w. mc_winner c = Some w \<longrightarrow> (\<exists>a. ma_id a = w \<and> ma_status a = Succeeded \<and>
      filter (\<lambda>a. ma_call a = mc_id c \<and> ma_validation a = VCurrent) (model_attempts d) = [a])) \<and>
    (mc_winner c = None \<longrightarrow>
      filter (\<lambda>a. ma_call a = mc_id c \<and> ma_validation a = VCurrent) (model_attempts d) = []) \<and>
    length (filter (\<lambda>a. ma_call a = mc_id c) (model_attempts d)) \<le> MODEL_MAX_ATTEMPTS"
proof (intro conjI allI impI)
  have ok: "calls_ok d" using model_reachable_ok [OF assms(1)] by blast
  note win = calls_okD(2) [OF ok assms(2)]
  show "\<forall>a \<in> set (model_attempts d). ma_call a = mc_id c \<longrightarrow>
      (ma_validation a = VCurrent \<longleftrightarrow> mc_winner c = Some (ma_id a))"
    using win by blast
  show "filter (\<lambda>a. ma_call a = mc_id c \<and> ma_validation a = VCurrent) (model_attempts d) = []"
    if "mc_winner c = None"
    using win that by (auto simp: filter_empty_conv)
  show "\<exists>a. ma_id a = w \<and> ma_status a = Succeeded \<and>
      filter (\<lambda>a. ma_call a = mc_id c \<and> ma_validation a = VCurrent) (model_attempts d) = [a]"
    if w: "mc_winner c = Some w" for w
  proof -
    obtain a where a: "a \<in> set (model_attempts d)" "ma_call a = mc_id c" "ma_id a = w"
      using calls_okD(3) [OF ok assms(2) w] by blast
    have ids: "distinct (map ma_id (model_attempts d))" using ok by (simp add: calls_ok_def)
    have "filter (\<lambda>a. ma_call a = mc_id c \<and> ma_validation a = VCurrent) (model_attempts d) =
        filter (\<lambda>x. ma_call x = mc_id c \<and> ma_id x = w) (model_attempts d)"
      using win w by (intro filter_cong) auto
    also have "\<dots> = [a]" by (rule filter_key_unique [OF ids a])
    finally have "filter (\<lambda>a. ma_call a = mc_id c \<and> ma_validation a = VCurrent) (model_attempts d) = [a]" .
    moreover have "ma_status a = Succeeded"
      using calls_okD(1) [OF ok a(1)] win [OF a(1,2)] w a(3) by (simp add: attempt_ok_def)
    ultimately show ?thesis using a(3) by blast
  qed
  show "length (filter (\<lambda>a. ma_call a = mc_id c) (model_attempts d)) \<le> MODEL_MAX_ATTEMPTS"
    by (rule attempts_bounded [OF ok])
qed

text \<open>A Quest with a contract and a plan, and a request for a model call on it.\<close>

definition demo_bound :: db where
  "demo_bound = empty_db\<lparr>
     quests := [\<lparr>q_id = ''q'', q_state = [(''contract'', JObj [(''id'', JStr ''c'')]),
         (''plan_id'', JStr ''p''), (''plan_version'', JInt 1)], q_version = 4,
       q_status = JStr ''running'', q_created = ''t'', q_updated = ''t''\<rparr>],
     plans := [\<lparr>pv_id = ''p'', pv_version = 1, pv_quest = ''q'',
       pv_plan = \<lparr>pl_id = ''p'', pl_version = 1, pl_milestones = [], pl_metadata = []\<rparr>,
       pv_created = ''t''\<rparr>]\<rparr>"

definition demo_request :: model_request where
  "demo_request = \<lparr>mq_call = ''m'', mq_quest = ''q'', mq_purpose = ''plan'', mq_key = ''k'',
     mq_input_hash = replicate 64 (CHR ''a''), mq_prompt = ''v1'', mq_request_schema = 1,
     mq_candidate_schema = 1, mq_adapter = ''qwen'', mq_model = ''qwen-plus'', mq_parameters = [],
     mq_reserved = 150, mq_expected = Some 4, mq_token = None, mq_cost = Some demo_quote\<rparr>"

definition sha1 :: "json \<Rightarrow> string" where
  "sha1 v = ''digest''"

definition fl1 :: "rat \<Rightarrow> string" where
  "fl1 x = ''0.0''"

lemma demo_bound_reachable: "model_reachable sha1 fl1 demo_bound"
  by (rule model_reachable.step [OF model_reachable.start model_step.other])
    (simp_all add: demo_bound_def empty_db_def)

lemma demo_prepared_call:
  "\<exists>v d c. prepare_model_call sha1 fl1 demo_request ''t'' demo_bound = Inr (v, d) \<and>
     c \<in> set (model_calls d) \<and> mc_id c = ''m'' \<and> model_reachable sha1 fl1 d"
proof -
  have b: "model_binding_of sha1 demo_bound ''q'' = Inr \<lparr>b_quest = ''q'', b_version = 4,
      b_contract = ''c'', b_contract_version = 1, b_contract_hash = ''digest'', b_plan = ''p'',
      b_plan_version = 1, b_plan_hash = ''digest'', b_max_tokens = 20000\<rparr>"
    by (simp add: model_binding_of_def demo_bound_def find_quest_def dict_get_or_def Let_def
        stable_hash_def sha1_def)
  have v: "validated_cost_reservation demo_quote = Inr demo_quote"
    by (simp add: validated_cost_reservation_def cost_reservation_def cost_profile_for_def
        qwen_profile_def demo_quote_def)
  have h: "is_sha256 (replicate 64 (CHR ''a''))" by (simp add: is_sha256_def)
  have t: "model_summary fl1 [] ''model parameters'' 8192 True = Inr []"
    by (simp add: model_summary_def json_text_def)
  obtain v' d where prep: "prepare_model_call sha1 fl1 demo_request ''t'' demo_bound = Inr (v', d)"
    "model_calls d \<noteq> [] \<and> mc_id (hd (model_calls d)) = ''m''"
    using b v h t
    by (simp add: prepare_model_call_def demo_request_def bad_request_def require_model_hash_def
        validate_optional_def model_usage_def quest_attempts_def demo_bound_def empty_db_def
        insert_call_def call_of_request_def insert_attempt_def fresh_attempt_def request_token_def
        reserve_optional_def reserve_cost_def cost_profile_for_def qwen_profile_def
        demo_quote_def ensure_cost_account_def find_account_def find_reservation_def
        profile_account_def cost_usage_def get_model_call_def find_call_def Let_def)
  then have "hd (model_calls d) \<in> set (model_calls d)" by simp
  moreover have "model_reachable sha1 fl1 d"
    by (rule model_reachable.step [OF demo_bound_reachable model_step.prepare [OF prep(1)]])
  ultimately show ?thesis using prep by blast
qed

theorem one_winner_and_bounded_attempts_witness:
  "\<exists>d :: db. model_calls d \<noteq> [] \<and>
     length (filter (\<lambda>a. ma_call a = ''m'') (model_attempts d)) \<le> MODEL_MAX_ATTEMPTS"
proof -
  obtain d c where d: "c \<in> set (model_calls d)" "mc_id c = ''m''" "model_reachable sha1 fl1 d"
    using demo_prepared_call by blast
  have "model_calls d \<noteq> []" using d(1) by (cases "model_calls d") simp_all
  moreover have "length (filter (\<lambda>a. ma_call a = ''m'') (model_attempts d)) \<le> MODEL_MAX_ATTEMPTS"
    using one_winner_and_bounded_attempts [OF d(3,1)] unfolding d(2) by (elim conjE)
  ultimately show ?thesis by (intro exI [of _ d] conjI)
qed

section \<open>Tokens\<close>

lemma quest_attempts_extend:
  assumes ok: "calls_ok d" and c: "model_calls d' = model_calls d @ cs"
    and a: "model_attempts d' = model_attempts d @ as"
    and "find_call d' cid = Some c" "mc_quest c = qid" "\<forall>x \<in> set as. ma_call x = cid"
  shows "quest_attempts d' qid = quest_attempts d qid @ as"
proof -
  have "find_call d' (ma_call x) = find_call d (ma_call x)" if "x \<in> set (model_attempts d)" for x
  proof -
    have "ma_call x \<in> mc_id ` set (model_calls d)"
      using calls_okD(1) [OF ok that] by (simp add: attempt_ok_def)
    then have "find_call d (ma_call x) \<noteq> None" by (auto simp: find_call_def select_one_None_iff)
    then show ?thesis by (auto simp: find_call_def c select_one_append)
  qed
  then have "filter (\<lambda>x. map_option mc_quest (find_call d' (ma_call x)) = Some qid) (model_attempts d) =
      quest_attempts d qid"
    unfolding quest_attempts_def by (intro filter_cong) auto
  moreover have "filter (\<lambda>x. map_option mc_quest (find_call d' (ma_call x)) = Some qid) as = as"
    using assms(4-6) by (simp add: filter_id_conv)
  ultimately show ?thesis unfolding quest_attempts_def a by simp
qed

text \<open>
  Claim C20. Admission respects the token budget: a request under a key that the Quest has not used is
  recorded as a new call with one prepared attempt, the tokens settled on the Quest stay and the tokens
  held grow by exactly the reservation, and both together stay within the budget of its contract; a
  request under a key in use changes nothing and returns the call that is recorded under it.
\<close>

theorem token_admission_within_budget:
  assumes "model_reachable sha fl d" and "prepare_model_call sha fl rq now d = Inr (v, d')"
    and "model_binding_of sha d (mq_quest rq) = Inr b"
  shows "if \<exists>c \<in> set (model_calls d). mc_quest c = mq_quest rq \<and> mc_key c = mq_key rq
    then d' = d \<and> fst v \<in> set (model_calls d) \<and> mc_quest (fst v) = mq_quest rq \<and> mc_key (fst v) = mq_key rq
    else (\<exists>a. v = (call_of_request rq b now, [a]) \<and>
      model_calls d' = model_calls d @ [call_of_request rq b now] \<and>
      model_attempts d' = model_attempts d @ [a] \<and> ma_call a = mq_call rq \<and>
      ma_status a = Prepared \<and> ma_reserved a = mq_reserved rq) \<and>
    fst (model_usage d' (mq_quest rq)) = fst (model_usage d (mq_quest rq)) \<and>
    snd (model_usage d' (mq_quest rq)) = snd (model_usage d (mq_quest rq)) + mq_reserved rq \<and>
    fst (model_usage d' (mq_quest rq)) + snd (model_usage d' (mq_quest rq)) \<le> b_max_tokens b"
  using assms(2)
proof (cases rule: prepare_call_cases)
  case (replayed c)
  from select_one_Some_in [OF replayed(3)] replayed(1,2) show ?thesis by auto
next
  case (fresh b' parameters cost d1 d2)
  have ok: "calls_ok d" using model_reachable_ok [OF assms(1)] by blast
  have b': "b' = b" using fresh(1) assms(3) by simp
  let ?c = "call_of_request rq b now"
  let ?a = "fresh_attempt (mq_call rq @ '':1'') (mq_call rq) 1 (request_token rq)
     (mq_adapter rq) (mq_model rq) parameters (mq_reserved rq)"
  have calls: "model_calls d' = model_calls d @ [?c]" and atts: "model_attempts d' = model_attempts d @ [?a]"
    and new: "\<forall>x \<in> set (model_calls d). mc_id x \<noteq> mq_call rq"
    using reserve_optional_ok [OF fresh(6)] fresh(4,5) b'
    by (auto simp: insert_call_def insert_attempt_def call_of_request_def split: if_splits)
  have found: "find_call d' (mq_call rq) = Some ?c"
  proof -
    have "select_one (\<lambda>c. mc_id c = mq_call rq) (model_calls d) = None"
      using new by (simp add: select_one_None_iff)
    then show ?thesis by (simp add: find_call_def calls select_one_append call_of_request_def)
  qed
  have "ma_call a \<noteq> mq_call rq" if "a \<in> set (model_attempts d)" for a
    using calls_okD(1) [OF ok that] new by (auto simp: attempt_ok_def)
  then have "filter (\<lambda>a. ma_call a = mq_call rq) (model_attempts d') = [?a]"
    by (simp add: atts filter_empty_conv fresh_attempt_def)
  then have view: "v = (?c, [?a])" using fresh(8) found by (simp add: get_model_call_def)
  have "quest_attempts d' (mq_quest rq) = quest_attempts d (mq_quest rq) @ [?a]"
    using found by (intro quest_attempts_extend [OF ok calls atts]) (auto simp: call_of_request_def fresh_attempt_def)
  then have "fst (model_usage d' (mq_quest rq)) = fst (model_usage d (mq_quest rq))"
    "snd (model_usage d' (mq_quest rq)) = snd (model_usage d (mq_quest rq)) + mq_reserved rq"
    by (simp_all add: model_usage_def fresh_attempt_def held_tokens_def)
  note usage = this
  have "\<not> (\<exists>c \<in> set (model_calls d). mc_quest c = mq_quest rq \<and> mc_key c = mq_key rq)"
    using fresh(7) by (auto simp: select_one_None_iff)
  then show ?thesis using usage fresh(3) b' view calls atts
    by (simp only: if_False if_True) (simp add: fresh_attempt_def)
qed

theorem token_admission_within_budget_witness:
  "\<exists>v d b. prepare_model_call sha1 fl1 demo_request ''t'' demo_bound = Inr (v, d) \<and>
     model_calls d = [call_of_request demo_request b ''t''] \<and>
     snd (model_usage d ''q'') = 150 \<and> fst (model_usage d ''q'') + snd (model_usage d ''q'') \<le> b_max_tokens b"
proof -
  obtain v d where prep: "prepare_model_call sha1 fl1 demo_request ''t'' demo_bound = Inr (v, d)"
    using demo_prepared_call by blast
  obtain b where b: "model_binding_of sha1 demo_bound (mq_quest demo_request) = Inr b"
    by (simp add: model_binding_of_def demo_bound_def demo_request_def find_quest_def
        dict_get_or_def Let_def)
  have calls: "model_calls demo_bound = []" and q: "mq_quest demo_request = ''q''" "mq_reserved demo_request = 150"
    and usage: "model_usage demo_bound ''q'' = (0, 0)"
    by (simp_all add: demo_bound_def empty_db_def demo_request_def model_usage_def quest_attempts_def)
  from token_admission_within_budget [OF demo_bound_reachable prep b]
  have "model_calls d = [call_of_request demo_request b ''t''] \<and> snd (model_usage d ''q'') = 150 \<and>
      fst (model_usage d ''q'') + snd (model_usage d ''q'') \<le> b_max_tokens b"
    by (auto simp: calls q usage)
  then show ?thesis using prep by blast
qed

section \<open>Recovery\<close>

text \<open>
  Claim C19. The restart resolves every open attempt: after the recovery no attempt is prepared or
  dispatched and no reservation of such an attempt is still held; an attempt that was never
  dispatched has failed with nothing settled and its reservation released, an attempt that was
  dispatched has an unknown outcome and keeps its tokens and its cost held.
\<close>

theorem recovery_resolves_open_attempts:
  assumes "model_reachable sha fl d" and "recover_model_calls d = (n, d')"
  shows "(\<forall>a \<in> set (model_attempts d'). ma_status a \<notin> {Prepared, Dispatched}) \<and>
    (\<forall>a \<in> set (model_attempts d). \<exists>a' \<in> set (model_attempts d'). ma_id a' = ma_id a \<and>
       (ma_status a = Prepared \<longrightarrow> ma_status a' = AttemptFailed \<and> ma_settled a' = 0) \<and>
       (ma_status a = Dispatched \<longrightarrow> ma_status a' = UnknownOutcome \<and> held_tokens a' = ma_reserved a) \<and>
       (ma_status a \<notin> {Prepared, Dispatched} \<longrightarrow> a' = a)) \<and>
    (\<forall>a \<in> set (model_attempts d). \<forall>r. find_reservation d (ma_id a) = Some r \<and> cr_status r = Held \<longrightarrow>
       (\<exists>r'. find_reservation d' (ma_id a) = Some r' \<and>
         (ma_status a = Prepared \<longrightarrow> cr_status r' = Released \<and> held_cost r' = 0) \<and>
         (ma_status a = Dispatched \<longrightarrow> cr_status r' = Unknown \<and> held_cost r' = held_cost r)))"
proof -
  have ok: "calls_ok d" using model_reachable_ok [OF assms(1)] by blast
  let ?f = "\<lambda>a. if ma_status a = Prepared then cancel_row a
    else if ma_status a = Dispatched then lose_row a else a"
  define rel :: "cost_reservation_row \<Rightarrow> cost_reservation_row" where "rel = (\<lambda>r. if attempts_in Prepared d (cr_attempt r) \<and> cr_status r = Held
    then r\<lparr>cr_status := Released, cr_settled := Some 0\<rparr> else r)"
  define sus :: "cost_reservation_row \<Rightarrow> cost_reservation_row" where "sus = (\<lambda>r. if attempts_in Dispatched d (cr_attempt r) \<and> cr_status r = Held
    then r\<lparr>cr_status := Unknown\<rparr> else r)"
  have disp: "attempts_in Dispatched (update_attempts Prepared cancel_row (release_held P d)) =
      attempts_in Dispatched d" for P
    by (auto simp: attempts_in_def update_attempts_def release_held_def set_update_where cancel_row_def
        intro!: ext) force+
  have atts: "model_attempts d' = map ?f (model_attempts d)"
    using assms(2) by (auto simp: recover_model_calls_def Let_def set_call_def update_attempts_def
        suspend_held_def release_held_def update_where_map cancel_row_def lose_row_def)
  have res: "cost_reservations d' = map (sus \<circ> rel) (cost_reservations d)"
    using assms(2) disp
    by (auto simp: recover_model_calls_def Let_def set_call_def suspend_held_def update_where_map
        sus_def rel_def update_attempts_def release_held_def)
  have att: "attempts_in st d (ma_id a) \<longleftrightarrow> ma_status a = st" if "a \<in> set (model_attempts d)" for a st
  proof -
    have "x = a" if "x \<in> set (model_attempts d)" "ma_id x = ma_id a" for x
      using ok \<open>a \<in> set (model_attempts d)\<close> that unfolding calls_ok_def
      by (meson distinct_map inj_onD)
    then show ?thesis using that by (auto simp: attempts_in_def)
  qed
  have find: "find_reservation d' i = map_option (sus \<circ> rel) (find_reservation d i)" for i
  proof -
    have "cr_attempt ((sus \<circ> rel) r) = cr_attempt r" for r by (simp add: sus_def rel_def)
    then have "select_one (\<lambda>r. cr_attempt r = i) (map (sus \<circ> rel) rs) =
        map_option (sus \<circ> rel) (select_one (\<lambda>r. cr_attempt r = i) rs)" for rs
      by (induction rs) auto
    then show ?thesis by (simp add: find_reservation_def res)
  qed
  have "\<forall>a \<in> set (model_attempts d'). ma_status a \<notin> {Prepared, Dispatched}"
    by (auto simp: atts cancel_row_def lose_row_def)
  moreover have "\<exists>a' \<in> set (model_attempts d'). ma_id a' = ma_id a \<and>
       (ma_status a = Prepared \<longrightarrow> ma_status a' = AttemptFailed \<and> ma_settled a' = 0) \<and>
       (ma_status a = Dispatched \<longrightarrow> ma_status a' = UnknownOutcome \<and> held_tokens a' = ma_reserved a) \<and>
       (ma_status a \<notin> {Prepared, Dispatched} \<longrightarrow> a' = a)" if "a \<in> set (model_attempts d)" for a
    by (rule bexI [of _ "?f a"])
      (use that in \<open>auto simp: atts cancel_row_def lose_row_def held_tokens_def\<close>)
  moreover have "\<exists>r'. find_reservation d' (ma_id a) = Some r' \<and>
         (ma_status a = Prepared \<longrightarrow> cr_status r' = Released \<and> held_cost r' = 0) \<and>
         (ma_status a = Dispatched \<longrightarrow> cr_status r' = Unknown \<and> held_cost r' = held_cost r)"
    if a: "a \<in> set (model_attempts d)" and r: "find_reservation d (ma_id a) = Some r" "cr_status r = Held"
    for a r
  proof -
    have "cr_attempt r = ma_id a" using find_reservation_in [OF r(1)] by simp
    then show ?thesis
      using att [OF a] r by (auto simp: find sus_def rel_def held_cost_def)
  qed
  ultimately show ?thesis by blast
qed

theorem recovery_resolves_open_attempts_witness:
  "\<exists>d :: db. model_calls d \<noteq> [] \<and>
     (\<forall>a \<in> set (model_attempts (snd (recover_model_calls d))). ma_status a \<notin> {Prepared, Dispatched})"
proof -
  obtain d c where d: "c \<in> set (model_calls d)" "model_reachable sha1 fl1 d"
    using demo_prepared_call by blast
  from recovery_resolves_open_attempts [OF d(2), of "fst (recover_model_calls d)"
      "snd (recover_model_calls d)"] d(1)
  show ?thesis by (auto intro!: exI [of _ d])
qed

end
