(* ===== verification/Gateway.thy ===== *)
theory Gateway
  imports Actions Tools
begin

text \<open>
  The tool gateway \<^verbatim>\<open>backend/app/v1/gateway.py\<close>: authorisation, idempotent preparation, dispatch,
  reconciliation of an effect whose receipt is missing, and the observation of a written file. The
  store behind the gateway (\<^verbatim>\<open>GatewayStore\<close>) is a record of its operations, the tools a registry, the
  digest of bytes a parameter \<open>bsha\<close>, and the answers of the operating system to the calls of one
  observation (which other processes may influence) are an input \<open>ios\<close>.
\<close>

section \<open>Constants\<close>

definition READ_ONLY_TOOLS :: "string list" where
  "READ_ONLY_TOOLS = [''list_directory'', ''read_file'', ''check_markdown'', ''check_python_syntax'']"

definition KNOWN_NO_EFFECT_ERRORS :: "string list" where
  "KNOWN_NO_EFFECT_ERRORS =
     [''FILE_ALREADY_EXISTS'', ''FILE_TOO_LARGE'', ''FILE_TYPE_NOT_ALLOWED'', ''INVALID_PATH'',
      ''INVALID_TOOL_ARGUMENTS'', ''PATH_OUTSIDE_SANDBOX'', ''PATH_OUTSIDE_WORKSPACE'']"

section \<open>The store and the state\<close>

record 's gateway_store =
  gs_prepare :: "string \<Rightarrow> string \<Rightarrow> string \<Rightarrow> string \<Rightarrow> string \<Rightarrow> string \<Rightarrow> dict \<Rightarrow> nat \<Rightarrow>
    string option \<Rightarrow> 's \<Rightarrow> (action_row \<times> 's) result"
  gs_dispatched :: "string \<Rightarrow> 's \<Rightarrow> (action_row \<times> 's) result"
  gs_commit :: "string \<Rightarrow> dict \<Rightarrow> dict option \<Rightarrow> 's \<Rightarrow> (action_row \<times> 's) result"
  gs_fail :: "string \<Rightarrow> dict \<Rightarrow> 's \<Rightarrow> (action_row \<times> 's) result"
  gs_unknown :: "string \<Rightarrow> dict option \<Rightarrow> 's \<Rightarrow> (action_row \<times> 's) result"

record 's gw_state =
  st_store :: 's
  st_fs :: fs
  st_faults :: "string list"

record gateway =
  gw_registry :: registry
  gw_sandbox :: sandbox
  gw_allowlist :: "string list"
  gw_high_risk :: "string list"
  gw_read_only :: "string list"

text \<open>The exceptions of the storage as exceptions of the gateway.\<close>

fun exc_of :: "py_error \<Rightarrow> exc" where
  "exc_of (ValueError m) = OtherExc ''ValueError'' m"
| "exc_of (KeyError m) = OtherExc ''KeyError'' m"
| "exc_of (TypeError m) = OtherExc ''TypeError'' m"
| "exc_of (RuntimeError m) = OtherExc ''RuntimeError'' m"
| "exc_of (IntegrityError m) = OtherExc ''IntegrityError'' m"
| "exc_of (BudgetExceeded m) = OtherExc ''BudgetExceeded'' m"
| "exc_of StopIteration = OtherExc ''StopIteration'' []"
| "exc_of (AppError c n) = AppExc c [] n"
| "exc_of (ToolError c) = ToolExc c [] []"

fun exc_type :: "exc \<Rightarrow> string" where
  "exc_type (ToolExc c m d) = ''ToolError''"
| "exc_type (InjectedFault p) = ''InjectedFault''"
| "exc_type (AppExc c m n) = ''AppError''"
| "exc_type (OtherExc t m) = t"

definition on_fs :: "(fs, 'a) act \<Rightarrow> ('s gw_state, 'a) act" where
  "on_fs m s = (case m (st_fs s) of (r, w) \<Rightarrow> (r, s\<lparr>st_fs := w\<rparr>))"

definition on_store :: "('s \<Rightarrow> ('a \<times> 's) result) \<Rightarrow> ('s gw_state, 'a) act" where
  "on_store f s =
     (case f (st_store s) of
        Inl e \<Rightarrow> (Inl (exc_of e), s)
      | Inr (x, d) \<Rightarrow> (Inr x, s\<lparr>st_store := d\<rparr>))"

text \<open>\<^verbatim>\<open>FaultInjector.hit\<close>: every point fires once.\<close>

definition hit_fault :: "string \<Rightarrow> ('s gw_state, unit) act" where
  "hit_fault point s =
     (if point \<in> set (st_faults s)
      then (Inl (InjectedFault point), s\<lparr>st_faults := filter (\<lambda>p. p \<noteq> point) (st_faults s)\<rparr>)
      else (Inr (), s))"

section \<open>Receipts\<close>

record receipt =
  rc_action :: string
  rc_key :: string
  rc_status :: receipt_status
  rc_result :: "dict option"
  rc_error :: "dict option"

definition receipt_of_row :: "action_row \<Rightarrow> receipt" where
  "receipt_of_row r = \<lparr>rc_action = a_id r, rc_key = a_key r, rc_status = a_status r,
     rc_result = a_result r, rc_error = a_error r\<rparr>"

definition error_dict :: "string \<Rightarrow> string \<Rightarrow> dict" where
  "error_dict code msg = [(''code'', JStr code), (''message'', JStr msg)]"

text \<open>\<^verbatim>\<open>ToolError.as_dict\<close>; no tool of the sources sets \<^verbatim>\<open>retryable\<close>.\<close>

definition tool_error_dict :: "string \<Rightarrow> string \<Rightarrow> dict \<Rightarrow> dict" where
  "tool_error_dict code msg details =
     error_dict code msg @ [(''details'', JObj details), (''retryable'', JBool False)]"

definition interrupted_dict :: "exc \<Rightarrow> dict" where
  "interrupted_dict e =
     error_dict ''TOOL_EXECUTION_INTERRUPTED'' ''Tool outcome is ambiguous'' @
     [(''details'', JObj [(''exception_type'', JStr (exc_type e))])]"

section \<open>Observing a written file\<close>

record file_meta =
  fm_mode :: nat
  fm_size :: int
  fm_mtime :: int
  fm_ctime :: int
  fm_ino :: int
  fm_dev :: int
  fm_attributes :: nat

definition same_file :: "file_meta \<Rightarrow> file_meta \<Rightarrow> bool" where
  "same_file a b \<longleftrightarrow> fm_mode a = fm_mode b \<and> fm_size a = fm_size b \<and> fm_mtime a = fm_mtime b \<and>
     fm_ctime a = fm_ctime b \<and> fm_ino a = fm_ino b \<and> fm_dev a = fm_dev b"

definition same_opened_regular_file :: "file_meta \<Rightarrow> file_meta \<Rightarrow> bool" where
  "same_opened_regular_file a b \<longleftrightarrow> fm_mode a = fm_mode b \<and> fm_size a = fm_size b \<and>
     fm_mtime a = fm_mtime b \<and> fm_ino a = fm_ino b \<and> fm_dev a = fm_dev b"

text \<open>\<^verbatim>\<open>S_ISREG\<close> and \<^verbatim>\<open>S_ISLNK\<close> read the four file-type bits of the mode; \<^verbatim>\<open>0x0400\<close> marks a reparse point.\<close>

definition safe_regular_metadata :: "file_meta \<Rightarrow> bool" where
  "safe_regular_metadata m \<longleftrightarrow>
     (fm_mode m div 4096) mod 16 = 8 \<and> (fm_mode m div 4096) mod 16 \<noteq> 10 \<and>
     (fm_attributes m div 1024) mod 2 = 0"

text \<open>The answers to the system calls of one attempt, \<open>None\<close> or \<open>False\<close> for an \<^verbatim>\<open>OSError\<close>.\<close>

record observe_io =
  io_lstat :: "file_meta option"
  io_open :: bool
  io_fstat :: "file_meta option"
  io_reads :: "string option list"
  io_fstat_after :: "file_meta option"
  io_lstat_after :: "file_meta option"
  io_close :: bool

text \<open>\<^verbatim>\<open>os.read\<close> returns at most the bytes asked for; the empty answer is the end of the file.\<close>

fun read_loop :: "nat \<Rightarrow> string option list \<Rightarrow> string option" where
  "read_loop n [] = Some []"
| "read_loop n (None # rs) = (if n = 0 then Some [] else None)"
| "read_loop n (Some c # rs) =
     (if n = 0 \<or> c = [] then Some []
      else map_option (\<lambda>rest. take n c @ rest) (read_loop (n - length (take n c)) rs))"

datatype attempt = Unsafe | Again | Payload string

definition observe_attempt :: "nat \<Rightarrow> observe_io \<Rightarrow> attempt" where
  "observe_attempt expected_length io =
     (case io_lstat io of
        None \<Rightarrow> Again
      | Some prior \<Rightarrow>
          if \<not> safe_regular_metadata prior then Unsafe
          else if \<not> io_open io then Again
          else case io_fstat io of
            None \<Rightarrow> Again
          | Some opened_before \<Rightarrow>
              if \<not> safe_regular_metadata opened_before \<or>
                 \<not> same_opened_regular_file prior opened_before then Again
              else case (read_loop (expected_length + 1) (io_reads io), io_fstat_after io,
                         io_lstat_after io) of
                (Some payload, Some opened_after, Some after) \<Rightarrow>
                  if \<not> io_close io then Again
                  else if safe_regular_metadata opened_after \<and> safe_regular_metadata after \<and>
                    same_file opened_before opened_after \<and> same_file prior after \<and>
                    same_opened_regular_file after opened_after
                  then Payload payload else Again
              | _ \<Rightarrow> Again)"

fun observe_loop :: "nat \<Rightarrow> observe_io list \<Rightarrow> string option" where
  "observe_loop n [] = None"
| "observe_loop n (io # ios) =
     (case observe_attempt n io of
        Unsafe \<Rightarrow> None | Again \<Rightarrow> observe_loop n ios | Payload p \<Rightarrow> Some p)"

definition change_kind :: "string option \<Rightarrow> string \<Rightarrow> string" where
  "change_kind prior after_hash =
     (if prior = Some ''absent'' then ''created''
      else if (case prior of Some h \<Rightarrow> is_sha256 h \<and> h = after_hash | None \<Rightarrow> False)
      then ''unchanged''
      else ''modified'')"

definition before_digest :: "string option \<Rightarrow> json" where
  "before_digest prior =
     (case prior of Some h \<Rightarrow> if is_sha256 h then JStr h else JNull | None \<Rightarrow> JNull)"

definition unsafe_observation :: "string \<Rightarrow> dict \<Rightarrow> exc" where
  "unsafe_observation msg details = ToolExc ''UNSAFE_FILE_OBSERVATION'' msg details"

definition write_file_observation ::
    "gateway \<Rightarrow> (json \<Rightarrow> string) \<Rightarrow> (string \<Rightarrow> string) \<Rightarrow> observe_io \<times> observe_io \<Rightarrow> action_row \<Rightarrow>
     string \<Rightarrow> dict \<Rightarrow> (fs, dict option) act" where
  "write_file_observation gw sha bsha ios row ws args =
     (if a_tool row \<noteq> ''write_file'' then act_return None
      else case (dict_get args ''path'', dict_get args ''content'') of
        (Some (JStr rel), Some (JStr content)) \<Rightarrow>
          act_bind (sandbox_resolve (gw_sandbox gw) ws rel True False False) (\<lambda>p.
            case observe_loop (length content) [fst ios, snd ios] of
              None \<Rightarrow> act_raise (unsafe_observation
                ''Written file is missing, unsafe, or unstable for observation'' [(''path'', JStr rel)])
            | Some payload \<Rightarrow>
                if bsha payload \<noteq> bsha content
                then act_raise (ToolExc ''POST_WRITE_HASH_MISMATCH''
                  ''Written file bytes do not match the requested content'' [(''path'', JStr rel)])
                else act_bind (display_path (gw_sandbox gw) ws p) (\<lambda>shown. act_return (Some
                  [(''observation_id'', JStr (stable_hash sha
                      (JObj [(''action_id'', JStr (a_id row)), (''schema'', JInt 1)]))),
                   (''relative_path'', JStr shown),
                   (''before_sha256'', before_digest (a_pre_effect row)),
                   (''after_sha256'', JStr (bsha payload)),
                   (''after_size_bytes'', JInt (int (length payload))),
                   (''change_kind'', JStr (change_kind (a_pre_effect row) (bsha payload))),
                   (''status'', JStr ''observed'')])))
      | (Some (JStr rel), _) \<Rightarrow>
          act_raise (unsafe_observation ''Write content cannot be observed'' [])
      | _ \<Rightarrow> act_raise (unsafe_observation ''Write path cannot be observed'' []))"

section \<open>Authorisation and the state before a write\<close>

definition authorize :: "gateway \<Rightarrow> string \<Rightarrow> bool \<Rightarrow> unit outcome" where
  "authorize gw tool approved =
     (if tool \<notin> set (gw_allowlist gw)
      then Inl (AppExc ''TOOL_NOT_ALLOWED''
             (''Tool '' @ [CHR 0x27] @ tool @ [CHR 0x27] @ '' is not allowlisted'') 403)
      else if tool \<in> set (gw_high_risk gw) \<and> \<not> approved
      then Inl (AppExc ''APPROVAL_REQUIRED''
             (''Tool '' @ [CHR 0x27] @ tool @ [CHR 0x27] @ '' requires explicit approval'') 403)
      else Inr ())"

definition pre_effect_hash ::
    "gateway \<Rightarrow> (string \<Rightarrow> string) \<Rightarrow> string \<Rightarrow> string \<Rightarrow> dict \<Rightarrow> (fs, string option) act" where
  "pre_effect_hash gw bsha ws tool args =
     (if tool \<noteq> ''write_file'' then act_return None
      else case dict_get args ''path'' of
        Some (JStr rel) \<Rightarrow>
          act_bind (sandbox_resolve (gw_sandbox gw) ws rel False False True) (\<lambda>p w.
            (Inr (Some (case w p of
               None \<Rightarrow> ''absent''
             | Some (RegFile bytes) \<Rightarrow> bsha bytes
             | Some _ \<Rightarrow> ''not_file'')), w))
      | _ \<Rightarrow> act_return None)"

section \<open>Committing and reconciling\<close>

definition commit_receipt ::
    "'s gateway_store \<Rightarrow> action_row \<Rightarrow> dict \<Rightarrow> dict option \<Rightarrow> ('s gw_state, receipt) act" where
  "commit_receipt st row res observation =
     act_bind (on_store (gs_commit st (a_id row) res observation))
       (\<lambda>r. act_return (receipt_of_row r))"

definition fail_receipt :: "'s gateway_store \<Rightarrow> string \<Rightarrow> dict \<Rightarrow> ('s gw_state, receipt) act" where
  "fail_receipt st aid err =
     act_bind (on_store (gs_fail st aid err)) (\<lambda>r. act_return (receipt_of_row r))"

definition unknown_receipt :: "'s gateway_store \<Rightarrow> string \<Rightarrow> dict \<Rightarrow> ('s gw_state, receipt) act" where
  "unknown_receipt st aid err =
     act_bind (on_store (gs_unknown st aid (Some err))) (\<lambda>r. act_return (receipt_of_row r))"

definition commit_reconciled ::
    "gateway \<Rightarrow> 's gateway_store \<Rightarrow> action_row \<Rightarrow> string \<Rightarrow> string \<Rightarrow> path \<Rightarrow> dict option \<Rightarrow>
     ('s gw_state, receipt option \<times> bool) act" where
  "commit_reconciled gw st row ws content p observation =
     act_bind (on_fs (display_path (gw_sandbox gw) ws p)) (\<lambda>shown.
     act_bind (commit_receipt st row
       [(''path'', JStr shown), (''size_bytes'', JInt (int (length content))),
        (''created'', JBool (a_pre_effect row = Some ''absent'')),
        (''reconciled'', JBool True)] observation) (\<lambda>rc.
     act_return (Some rc, False)))"

text \<open>The file holds the content: observe it (a \<^verbatim>\<open>ToolError\<close> of the observation is no reconciliation).\<close>

definition reconcile_written ::
    "gateway \<Rightarrow> 's gateway_store \<Rightarrow> (json \<Rightarrow> string) \<Rightarrow> (string \<Rightarrow> string) \<Rightarrow> observe_io \<times> observe_io \<Rightarrow>
     action_row \<Rightarrow> string \<Rightarrow> dict \<Rightarrow> string \<Rightarrow> path \<Rightarrow> ('s gw_state, receipt option \<times> bool) act" where
  "reconcile_written gw st sha bsha ios row ws args content p s =
     (case on_fs (write_file_observation gw sha bsha ios row ws args) s of
        (Inl (ToolExc c m d), s1) \<Rightarrow> (Inr (None, False), s1)
      | (Inl e, s1) \<Rightarrow> (Inl e, s1)
      | (Inr observation, s1) \<Rightarrow> commit_reconciled gw st row ws content p observation s1)"

definition reconcile_at ::
    "gateway \<Rightarrow> 's gateway_store \<Rightarrow> (json \<Rightarrow> string) \<Rightarrow> (string \<Rightarrow> string) \<Rightarrow> observe_io \<times> observe_io \<Rightarrow>
     action_row \<Rightarrow> string \<Rightarrow> dict \<Rightarrow> string \<Rightarrow> path \<Rightarrow> ('s gw_state, receipt option \<times> bool) act" where
  "reconcile_at gw st sha bsha ios row ws args content p s =
     (case st_fs s p of
        None \<Rightarrow> act_return (None, a_pre_effect row = Some ''absent'')
      | Some (RegFile bytes) \<Rightarrow>
          if bsha bytes \<noteq> bsha content then act_return (None, False)
          else if dict_get_or args ''overwrite'' (JBool True) = JBool False \<and>
            a_pre_effect row \<noteq> Some ''absent'' then act_return (None, False)
          else reconcile_written gw st sha bsha ios row ws args content p
      | Some _ \<Rightarrow> act_return (None, False)) s"

definition reconcile ::
    "gateway \<Rightarrow> 's gateway_store \<Rightarrow> (json \<Rightarrow> string) \<Rightarrow> (string \<Rightarrow> string) \<Rightarrow> observe_io \<times> observe_io \<Rightarrow>
     action_row \<Rightarrow> string \<Rightarrow> dict \<Rightarrow> ('s gw_state, receipt option \<times> bool) act" where
  "reconcile gw st sha bsha ios row ws args =
     (if a_tool row \<in> set (gw_read_only gw) then act_return (None, True)
      else if a_tool row \<noteq> ''write_file'' then act_return (None, False)
      else case (dict_get args ''content'', dict_get args ''path'') of
        (Some (JStr content), Some (JStr rel)) \<Rightarrow>
          act_bind (on_fs (sandbox_resolve (gw_sandbox gw) ws rel False False True))
            (reconcile_at gw st sha bsha ios row ws args content)
      | _ \<Rightarrow> act_return (None, False))"

section \<open>Dispatching\<close>

text \<open>The body of the \<^verbatim>\<open>try\<close> block: run the tool, observe, commit.\<close>

definition attempt_tool ::
    "gateway \<Rightarrow> 's gateway_store \<Rightarrow> (json \<Rightarrow> string) \<Rightarrow> (string \<Rightarrow> string) \<Rightarrow> observe_io \<times> observe_io \<Rightarrow>
     action_row \<Rightarrow> string \<Rightarrow> string \<Rightarrow> dict \<Rightarrow> ('s gw_state, receipt) act" where
  "attempt_tool gw st sha bsha ios row ws tool args =
     act_bind (on_fs (registry_execute (gw_registry gw) tool ws args)) (\<lambda>res.
     act_bind (hit_fault ''after_effect_before_receipt'') (\<lambda>_ s.
       let (res', s') =
         (if ''malformed_result'' \<in> set (st_faults s)
          then (JNull, s\<lparr>st_faults := filter (\<lambda>p. p \<noteq> ''malformed_result'') (st_faults s)\<rparr>)
          else (res, s))
       in case res' of
            JObj d \<Rightarrow>
              act_bind (on_fs (write_file_observation gw sha bsha ios row ws args)) (\<lambda>observation.
                commit_receipt st row d observation) s'
          | _ \<Rightarrow> (Inl (ToolExc ''MALFORMED_RESULT'' ''Tool returned a non-object result'' []), s')))"

text \<open>The \<^verbatim>\<open>except\<close> clauses.\<close>

fun handle_failure ::
    "gateway \<Rightarrow> 's gateway_store \<Rightarrow> string \<Rightarrow> string \<Rightarrow> exc \<Rightarrow> ('s gw_state, receipt) act" where
  "handle_failure gw st aid tool (InjectedFault p) =
     unknown_receipt st aid (error_dict ''UNKNOWN_EFFECT'' (''fault injected: '' @ p))"
| "handle_failure gw st aid tool (ToolExc c m d) =
     (if tool \<in> set (gw_read_only gw) \<or> c \<in> set KNOWN_NO_EFFECT_ERRORS
      then fail_receipt st aid (tool_error_dict c m d)
      else unknown_receipt st aid (tool_error_dict c m d))"
| "handle_failure gw st aid tool e =
     (if tool \<in> set (gw_read_only gw) then fail_receipt st aid (interrupted_dict e)
      else unknown_receipt st aid (interrupted_dict e))"

definition dispatch ::
    "gateway \<Rightarrow> 's gateway_store \<Rightarrow> (json \<Rightarrow> string) \<Rightarrow> (string \<Rightarrow> string) \<Rightarrow> observe_io \<times> observe_io \<Rightarrow>
     action_row \<Rightarrow> string \<Rightarrow> string \<Rightarrow> dict \<Rightarrow> ('s gw_state, receipt) act" where
  "dispatch gw st sha bsha ios row ws tool args s =
     (case hit_fault ''before_dispatch'' s of
        (Inl _, s1) \<Rightarrow>
          fail_receipt st (a_id row)
            (error_dict ''DISPATCH_FAILED'' ''fault injected: before_dispatch'') s1
      | (Inr _, s1) \<Rightarrow>
          act_bind (if a_status row = ActPrepared
              then act_bind (on_store (gs_dispatched st (a_id row))) (\<lambda>_. act_return ())
              else act_return ())
            (\<lambda>_ s2. case attempt_tool gw st sha bsha ios row ws tool args s2 of
               (Inr rc, s3) \<Rightarrow> (Inr rc, s3)
             | (Inl e, s3) \<Rightarrow> handle_failure gw st (a_id row) tool e s3) s1)"

section \<open>Executing a call\<close>

text \<open>\<^verbatim>\<open>ValueError\<close> of \<^verbatim>\<open>prepare_action\<close> as an \<^verbatim>\<open>AppError\<close> with status 409.\<close>

definition prepare_conflict :: "exc \<Rightarrow> exc" where
  "prepare_conflict e =
     (case e of
        OtherExc t m \<Rightarrow>
          if t = ''ValueError''
          then AppExc (if sublist ''idempotency'' m then ''IDEMPOTENCY_CONFLICT''
                       else ''STATE_VERSION_CONFLICT'') m 409
          else e
      | _ \<Rightarrow> e)"

definition act_catch :: "('s, 'a) act \<Rightarrow> (exc \<Rightarrow> exc) \<Rightarrow> ('s, 'a) act" where
  "act_catch m f s = (case m s of (Inl e, s') \<Rightarrow> (Inl (f e), s') | (Inr x, s') \<Rightarrow> (Inr x, s'))"

record gateway_call =
  gc_action :: string
  gc_quest :: string
  gc_milestone :: string
  gc_key :: string
  gc_version :: nat
  gc_workspace :: string
  gc_tool :: string
  gc_arguments :: json
  gc_approved :: bool

definition continue_call ::
    "gateway \<Rightarrow> 's gateway_store \<Rightarrow> (json \<Rightarrow> string) \<Rightarrow> (string \<Rightarrow> string) \<Rightarrow> observe_io \<times> observe_io \<Rightarrow>
     gateway_call \<Rightarrow> dict \<Rightarrow> action_row \<Rightarrow> ('s gw_state, receipt) act" where
  "continue_call gw st sha bsha ios c args row =
     (if a_args_hash row \<noteq> stable_hash sha (JObj args) \<or> a_tool row \<noteq> gc_tool c
      then act_raise (AppExc ''IDEMPOTENCY_CONFLICT''
             ''Idempotency key was used with a different request'' 409)
      else if a_status row \<in> {ActCommitted, ActFailed} then act_return (receipt_of_row row)
      else if a_status row \<in> {ActDispatched, ActUnknownEffect}
      then act_bind (reconcile gw st sha bsha ios row (gc_workspace c) args) (\<lambda>(reconciled, safe_retry).
             case reconciled of
               Some rc \<Rightarrow> act_return rc
             | None \<Rightarrow>
                 if safe_retry then dispatch gw st sha bsha ios row (gc_workspace c) (gc_tool c) args
                 else if a_status row = ActDispatched
                 then unknown_receipt st (a_id row)
                   (error_dict ''UNKNOWN_EFFECT'' ''Tool effect could not be reconciled'')
                 else act_return (receipt_of_row row))
      else dispatch gw st sha bsha ios row (gc_workspace c) (gc_tool c) args)"

definition execute ::
    "gateway \<Rightarrow> 's gateway_store \<Rightarrow> (json \<Rightarrow> string) \<Rightarrow> (string \<Rightarrow> string) \<Rightarrow> observe_io \<times> observe_io \<Rightarrow>
     gateway_call \<Rightarrow> ('s gw_state, receipt) act" where
  "execute gw st sha bsha ios c =
     (case authorize gw (gc_tool c) (gc_approved c) of
        Inl e \<Rightarrow> act_raise e
      | Inr _ \<Rightarrow>
          (case gc_arguments c of
             JObj args \<Rightarrow>
               act_bind (on_fs (pre_effect_hash gw bsha (gc_workspace c) (gc_tool c) args)) (\<lambda>pre.
               act_bind (act_catch (on_store (gs_prepare st (gc_action c) (gc_quest c)
                 (gc_milestone c) (gc_key c) (gc_tool c) (stable_hash sha (JObj args)) args
                 (gc_version c) pre)) prepare_conflict)
               (continue_call gw st sha bsha ios c args))
           | _ \<Rightarrow> act_raise (AppExc ''INVALID_TOOL_ARGUMENTS'' ''Tool arguments must be an object'' 400)))"

section \<open>The storage as the gateway's store\<close>

definition v1_store :: "(json \<Rightarrow> string) \<Rightarrow> string \<Rightarrow> string \<Rightarrow> db gateway_store" where
  "v1_store sha now now' =
     \<lparr>gs_prepare = \<lambda>aid qid mid key tool h args v pre d. prepare_action aid qid mid key tool h args v pre now d,
      gs_dispatched = \<lambda>aid d. mark_action_dispatched aid now d,
      gs_commit = \<lambda>aid res ob d. commit_action_with_event sha aid res ob now now' d,
      gs_fail = \<lambda>aid err d. fail_action aid err now d,
      gs_unknown = \<lambda>aid err d. mark_action_unknown aid err now d\<rparr>"

end
