(* ===== verification/Gateway_Contract.thy ===== *)
theory Gateway_Contract
  imports Gateway Store_Properties
begin

text \<open>
  The contract between the gateway and its store: what the gateway relies on is stated as the locale
  \<open>action_store\<close>, its lemmas are proved once against that interface, and the tool-action journal of
  \<^verbatim>\<open>V1Storage\<close> is shown to satisfy it.
\<close>

section \<open>What does not depend on the registry\<close>

lemma other_registry [simp]:
  "gw_sandbox (gw\<lparr>gw_registry := reg\<rparr>) = gw_sandbox gw"
  "gw_allowlist (gw\<lparr>gw_registry := reg\<rparr>) = gw_allowlist gw"
  "gw_high_risk (gw\<lparr>gw_registry := reg\<rparr>) = gw_high_risk gw"
  "gw_read_only (gw\<lparr>gw_registry := reg\<rparr>) = gw_read_only gw"
  by simp_all

lemma authorize_registry [simp]: "authorize (gw\<lparr>gw_registry := reg\<rparr>) = authorize gw"
  by (intro ext) (simp only: authorize_def other_registry)

lemma pre_effect_registry [simp]: "pre_effect_hash (gw\<lparr>gw_registry := reg\<rparr>) = pre_effect_hash gw"
  unfolding pre_effect_hash_def [abs_def] other_registry ..

lemma observation_registry [simp]:
  "write_file_observation (gw\<lparr>gw_registry := reg\<rparr>) = write_file_observation gw"
  unfolding write_file_observation_def [abs_def] other_registry ..

lemma commit_reconciled_registry:
  "commit_reconciled (gw\<lparr>gw_registry := reg\<rparr>) = commit_reconciled gw"
  unfolding commit_reconciled_def [abs_def] other_registry ..

lemma reconcile_written_registry:
  "reconcile_written (gw\<lparr>gw_registry := reg\<rparr>) = reconcile_written gw"
  unfolding reconcile_written_def [abs_def] observation_registry commit_reconciled_registry ..

lemma reconcile_at_registry: "reconcile_at (gw\<lparr>gw_registry := reg\<rparr>) = reconcile_at gw"
  unfolding reconcile_at_def [abs_def] reconcile_written_registry ..

lemma reconcile_registry [simp]: "reconcile (gw\<lparr>gw_registry := reg\<rparr>) = reconcile gw"
  unfolding reconcile_def [abs_def] other_registry reconcile_at_registry ..

lemma dispatch_fault_registry:
  "''before_dispatch'' \<in> set (st_faults s) \<Longrightarrow>
   dispatch (gw\<lparr>gw_registry := reg\<rparr>) st sha bsha ios row ws tool args s =
   dispatch gw st sha bsha ios row ws tool args s"
  by (simp add: dispatch_def hit_fault_def)

text \<open>\<open>may_rerun\<close>: the reconciliation found it safe to run the tool of an open action again.\<close>

definition may_rerun :: "gateway \<Rightarrow> gateway_call \<Rightarrow> dict \<Rightarrow> action_row \<Rightarrow> 's gw_state \<Rightarrow> bool" where
  "may_rerun gw c args row s \<longleftrightarrow>
     gc_tool c \<in> set (gw_read_only gw) \<or>
     (gc_tool c = ''write_file'' \<and> a_pre_effect row = Some ''absent'' \<and>
       (\<exists>rel p w. dict_get args ''path'' = Some (JStr rel) \<and>
          sandbox_resolve (gw_sandbox gw) (gc_workspace c) rel False False True (st_fs s) = (Inr p, w) \<and>
          w p = None))"

lemma reconcile_at_safe:
  "reconcile_at gw st sha bsha ios row ws args content p s = (Inr (None, True), s') \<Longrightarrow>
   st_fs s p = None \<and> a_pre_effect row = Some ''absent''"
  by (auto simp: reconcile_at_def reconcile_written_def commit_reconciled_def result_simps
      split: option.splits node.splits if_splits prod.splits sum.splits exc.splits)

lemma reconcile_safe:
  assumes "reconcile gw st sha bsha ios row ws args s = (Inr (None, True), s')"
  shows "a_tool row \<in> set (gw_read_only gw) \<or>
     (a_tool row = ''write_file'' \<and> a_pre_effect row = Some ''absent'' \<and>
       (\<exists>rel p w. dict_get args ''path'' = Some (JStr rel) \<and>
          sandbox_resolve (gw_sandbox gw) ws rel False False True (st_fs s) = (Inr p, w) \<and> w p = None))"
proof (cases "a_tool row \<in> set (gw_read_only gw)")
  case False
  then have tool: "a_tool row = ''write_file''"
    using assms by (auto simp: reconcile_def split: if_splits)
  obtain content rel where args: "dict_get args ''content'' = Some (JStr content)"
    "dict_get args ''path'' = Some (JStr rel)"
    using assms False tool by (auto simp: reconcile_def split: option.splits json.splits)
  then have "act_bind (on_fs (sandbox_resolve (gw_sandbox gw) ws rel False False True))
      (reconcile_at gw st sha bsha ios row ws args content) s = (Inr (None, True), s')"
    using assms False tool by (simp add: reconcile_def)
  then obtain p s1 where 1: "on_fs (sandbox_resolve (gw_sandbox gw) ws rel False False True) s = (Inr p, s1)"
    "reconcile_at gw st sha bsha ios row ws args content p s1 = (Inr (None, True), s')"
    by (auto simp: act_bind_Inr_iff)
  obtain w where "sandbox_resolve (gw_sandbox gw) ws rel False False True (st_fs s) = (Inr p, w)"
    "s1 = s\<lparr>st_fs := w\<rparr>"
    using 1(1) by (auto simp: on_fs_def split: prod.splits)
  then show ?thesis using reconcile_at_safe [OF 1(2)] tool args(2) by auto
qed simp

lemma continue_depends:
  assumes "continue_call gw st sha bsha ios c args row s \<noteq>
    continue_call (gw\<lparr>gw_registry := reg\<rparr>) st sha bsha ios c args row s"
  shows "a_args_hash row = stable_hash sha (JObj args) \<and> a_tool row = gc_tool c \<and>
    ((a_status row = ActPrepared \<and> ''before_dispatch'' \<notin> set (st_faults s)) \<or>
     (a_status row \<in> {ActDispatched, ActUnknownEffect} \<and> may_rerun gw c args row s))"
proof -
  have 1: "a_args_hash row = stable_hash sha (JObj args)"
    by (rule ccontr) (use assms in \<open>simp add: continue_call_def\<close>)
  have 2: "a_tool row = gc_tool c"
    by (rule ccontr) (use assms in \<open>simp add: continue_call_def\<close>)
  have 3: "a_status row \<notin> {ActCommitted, ActFailed}"
    using assms 1 2 by (auto simp: continue_call_def)
  note req = 1 2 3
  show ?thesis
  proof (cases "a_status row = ActPrepared")
    case True
    then have "dispatch gw st sha bsha ios row (gc_workspace c) (gc_tool c) args s \<noteq>
        dispatch (gw\<lparr>gw_registry := reg\<rparr>) st sha bsha ios row (gc_workspace c) (gc_tool c) args s"
      using assms req by (simp add: continue_call_def)
    then show ?thesis using True req dispatch_fault_registry by metis
  next
    case False
    then have opened: "a_status row \<in> {ActDispatched, ActUnknownEffect}"
      using req(3) by (cases "a_status row") auto
    obtain r s1 where rec: "reconcile gw st sha bsha ios row (gc_workspace c) args s = (r, s1)"
      by (cases "reconcile gw st sha bsha ios row (gc_workspace c) args s") auto
    have "r = Inr (None, True)"
    proof (rule ccontr)
      assume no: "r \<noteq> Inr (None, True)"
      have "continue_call gw st sha bsha ios c args row s =
          continue_call (gw\<lparr>gw_registry := reg\<rparr>) st sha bsha ios c args row s"
        using rec no req opened
        by (auto simp: continue_call_def act_bind_def split: sum.splits option.splits)
      then show False using assms by contradiction
    qed
    then show ?thesis
      using reconcile_safe [of gw st sha bsha ios row "gc_workspace c" args s s1] rec req opened
      by (simp add: may_rerun_def)
  qed
qed

text \<open>A call that gets past the preparation runs as its continuation.\<close>

definition prepared_as ::
    "gateway \<Rightarrow> 's gateway_store \<Rightarrow> (json \<Rightarrow> string) \<Rightarrow> (string \<Rightarrow> string) \<Rightarrow> gateway_call \<Rightarrow> dict \<Rightarrow>
     action_row \<Rightarrow> 's gw_state \<Rightarrow> 's gw_state \<Rightarrow> bool" where
  "prepared_as gw st sha bsha c args row s s1 \<longleftrightarrow>
     gc_arguments c = JObj args \<and> gc_tool c \<in> set (gw_allowlist gw) \<and>
     (gc_tool c \<in> set (gw_high_risk gw) \<longrightarrow> gc_approved c) \<and>
     (\<exists>pre w d. pre_effect_hash gw bsha (gc_workspace c) (gc_tool c) args (st_fs s) = (Inr pre, w) \<and>
        gs_prepare st (gc_action c) (gc_quest c) (gc_milestone c) (gc_key c) (gc_tool c)
          (stable_hash sha (JObj args)) args (gc_version c) pre (st_store s) = Inr (row, d) \<and>
        s1 = s\<lparr>st_fs := w, st_store := d\<rparr>)"

lemma execute_prepared:
  assumes "prepared_as gw st sha bsha c args row s s1"
  shows "execute gw st sha bsha ios c s = continue_call gw st sha bsha ios c args row s1"
  using assms
  by (auto simp: prepared_as_def execute_def authorize_def act_bind_def act_catch_def on_fs_def
      on_store_def)

lemma execute_refused:
  assumes "\<nexists>args row s1. prepared_as gw st sha bsha c args row s s1"
  shows "\<exists>e w. \<forall>reg. execute (gw\<lparr>gw_registry := reg\<rparr>) st sha bsha ios c s = (Inl e, s\<lparr>st_fs := w\<rparr>)"
proof -
  consider "\<exists>e. authorize gw (gc_tool c) (gc_approved c) = Inl e"
    | "authorize gw (gc_tool c) (gc_approved c) = Inr ()" "\<nexists>args. gc_arguments c = JObj args"
    | args where "authorize gw (gc_tool c) (gc_approved c) = Inr ()" "gc_arguments c = JObj args"
    by (cases "authorize gw (gc_tool c) (gc_approved c)") auto
  then show ?thesis
  proof cases
    case 1
    then obtain e where "authorize gw (gc_tool c) (gc_approved c) = Inl e" by blast
    then have "\<forall>reg. execute (gw\<lparr>gw_registry := reg\<rparr>) st sha bsha ios c s = (Inl e, s\<lparr>st_fs := st_fs s\<rparr>)"
      by (simp add: execute_def act_raise_def)
    then show ?thesis by blast
  next
    case 2
    then have "\<forall>reg. execute (gw\<lparr>gw_registry := reg\<rparr>) st sha bsha ios c s =
        (Inl (AppExc ''INVALID_TOOL_ARGUMENTS'' ''Tool arguments must be an object'' 400),
         s\<lparr>st_fs := st_fs s\<rparr>)"
      by (cases "gc_arguments c") (simp_all add: execute_def act_raise_def)
    then show ?thesis by blast
  next
    case (3 args)
    obtain r w where pre: "pre_effect_hash gw bsha (gc_workspace c) (gc_tool c) args (st_fs s) = (r, w)"
      by (cases "pre_effect_hash gw bsha (gc_workspace c) (gc_tool c) args (st_fs s)") auto
    show ?thesis
    proof (cases r)
      case (Inl e)
      then show ?thesis using 3 pre by (auto simp: execute_def act_bind_def on_fs_def)
    next
      case (Inr p)
      have "\<exists>e. gs_prepare st (gc_action c) (gc_quest c) (gc_milestone c) (gc_key c) (gc_tool c)
          (stable_hash sha (JObj args)) args (gc_version c) p (st_store s) = Inl e"
      proof (cases "gs_prepare st (gc_action c) (gc_quest c) (gc_milestone c) (gc_key c) (gc_tool c)
          (stable_hash sha (JObj args)) args (gc_version c) p (st_store s)")
        case (Inr x)
        then have "prepared_as gw st sha bsha c args (fst x) s (s\<lparr>st_fs := w, st_store := snd x\<rparr>)"
          using 3 pre \<open>r = Inr p\<close>
          by (cases x) (auto simp: prepared_as_def authorize_def split: if_splits)
        then show ?thesis using assms by blast
      qed simp
      then show ?thesis using 3 pre Inr
        by (auto simp: execute_def act_bind_def on_fs_def on_store_def act_catch_def)
    qed
  qed
qed

lemma execute_differs:
  assumes "execute gw st sha bsha ios c s \<noteq> execute (gw\<lparr>gw_registry := reg\<rparr>) st sha bsha ios c s"
  shows "\<exists>args row s1. prepared_as gw st sha bsha c args row s s1"
proof (rule ccontr)
  assume "\<not> ?thesis"
  then obtain e w where *: "\<forall>reg. execute (gw\<lparr>gw_registry := reg\<rparr>) st sha bsha ios c s = (Inl e, s\<lparr>st_fs := w\<rparr>)"
    using execute_refused by blast
  have "execute (gw\<lparr>gw_registry := gw_registry gw\<rparr>) st sha bsha ios c s = (Inl e, s\<lparr>st_fs := w\<rparr>)"
    using * ..
  then show False using assms * by simp
qed

lemma execute_returns:
  assumes "execute gw st sha bsha ios c s = (Inr rc, s')"
  shows "\<exists>args row s1. prepared_as gw st sha bsha c args row s s1"
proof (rule ccontr)
  assume "\<not> ?thesis"
  then obtain e w where *: "\<forall>reg. execute (gw\<lparr>gw_registry := reg\<rparr>) st sha bsha ios c s = (Inl e, s\<lparr>st_fs := w\<rparr>)"
    using execute_refused by blast
  have "execute (gw\<lparr>gw_registry := gw_registry gw\<rparr>) st sha bsha ios c s = (Inl e, s\<lparr>st_fs := w\<rparr>)"
    using * ..
  then show False using assms by simp
qed

section \<open>The contract of the store\<close>

lemma edges_not_prepared:
  "action_edge\<^sup>*\<^sup>* a b \<Longrightarrow> a \<noteq> ActPrepared \<Longrightarrow> b \<noteq> ActPrepared"
  by (induction rule: rtranclp_induct) (auto dest: action_edge_terminal)

text \<open>\<open>moves\<close>: from a good store an action only leads to a later one.\<close>

definition moves :: "('s \<Rightarrow> bool) \<Rightarrow> ('s \<Rightarrow> 's \<Rightarrow> bool) \<Rightarrow> ('s gw_state, 'a) act \<Rightarrow> bool" where
  "moves good later m \<longleftrightarrow>
     (\<forall>s r s'. good (st_store s) \<longrightarrow> m s = (r, s') \<longrightarrow> later (st_store s) (st_store s'))"

lemma movesD: "moves good later m \<Longrightarrow> good (st_store s) \<Longrightarrow> m s = (r, s') \<Longrightarrow> later (st_store s) (st_store s')"
  by (simp add: moves_def)

text \<open>\<open>settled\<close>: the receipt is that of the stored action, and the action is resolved.\<close>

definition settled :: "('s \<Rightarrow> string \<Rightarrow> action_row option) \<Rightarrow> 's \<Rightarrow> string \<Rightarrow> receipt \<Rightarrow> bool" where
  "settled row d i rc \<longleftrightarrow>
     (\<exists>r. row d i = Some r \<and> rc = receipt_of_row r \<and>
        a_status r \<in> {ActCommitted, ActFailed, ActUnknownEffect})"

lemma reconcile_at_none:
  "reconcile_at gw st sha bsha ios row ws args content p s = (Inr (None, b), s') \<Longrightarrow>
   st_store s' = st_store s"
  by (auto simp: reconcile_at_def reconcile_written_def commit_reconciled_def result_simps on_fs_def
      split: option.splits node.splits if_splits prod.splits sum.splits exc.splits)

lemma reconcile_none:
  assumes "reconcile gw st sha bsha ios row ws args s = (Inr (None, b), s')"
  shows "st_store s' = st_store s"
proof (cases "a_tool row \<in> set (gw_read_only gw) \<or> a_tool row \<noteq> ''write_file''")
  case True
  then show ?thesis using assms by (auto simp: reconcile_def split: if_splits)
next
  case False
  then have "s' = s \<or> (\<exists>content rel. act_bind (on_fs (sandbox_resolve (gw_sandbox gw) ws rel False False True))
      (reconcile_at gw st sha bsha ios row ws args content) s = (Inr (None, b), s'))"
    using assms by (auto simp: reconcile_def split: option.splits json.splits)
  then show ?thesis
  proof (elim disjE exE)
    fix content rel
    assume "act_bind (on_fs (sandbox_resolve (gw_sandbox gw) ws rel False False True))
      (reconcile_at gw st sha bsha ios row ws args content) s = (Inr (None, b), s')"
    then obtain p s1 where "on_fs (sandbox_resolve (gw_sandbox gw) ws rel False False True) s = (Inr p, s1)"
      "reconcile_at gw st sha bsha ios row ws args content p s1 = (Inr (None, b), s')"
      by (auto simp: act_bind_Inr_iff)
    then show ?thesis using reconcile_at_none by (fastforce simp: on_fs_def split: prod.splits)
  qed simp
qed

lemma on_fs_store: "on_fs m s = (r, s') \<Longrightarrow> st_store s' = st_store s"
  by (auto simp: on_fs_def split: prod.splits)

lemma commit_reconciled_some:
  assumes "commit_reconciled gw st row ws content p ob s = (Inr (Some rc, b), s')"
  shows "\<exists>s2 res. st_store s2 = st_store s \<and> commit_receipt st row res ob s2 = (Inr rc, s')"
proof -
  obtain shown s2 rc' s3 where "on_fs (display_path (gw_sandbox gw) ws p) s = (Inr shown, s2)"
    "commit_receipt st row
       [(''path'', JStr shown), (''size_bytes'', JInt (int (length content))),
        (''created'', JBool (a_pre_effect row = Some ''absent'')),
        (''reconciled'', JBool True)] ob s2 = (Inr rc', s3)" "rc' = rc" "s3 = s'"
    using assms by (auto simp: commit_reconciled_def act_bind_Inr_iff)
  then show ?thesis using on_fs_store by blast
qed

lemma reconcile_at_some:
  assumes run: "reconcile_at gw st sha bsha ios row ws args content p s = (Inr (Some rc, b), s')"
  shows "\<exists>s2 res ob. st_store s2 = st_store s \<and> commit_receipt st row res ob s2 = (Inr rc, s')"
proof -
  have w: "reconcile_written gw st sha bsha ios row ws args content p s = (Inr (Some rc, b), s')"
    using run by (auto simp: reconcile_at_def split: option.splits node.splits if_splits)
  obtain r1 s1 where ob: "on_fs (write_file_observation gw sha bsha ios row ws args) s = (r1, s1)"
    by (cases "on_fs (write_file_observation gw sha bsha ios row ws args) s") auto
  show ?thesis
  proof (cases r1)
    case (Inl e)
    then show ?thesis using w ob by (cases e) (auto simp: reconcile_written_def)
  next
    case (Inr x)
    then have "commit_reconciled gw st row ws content p x s1 = (Inr (Some rc, b), s')"
      using w ob by (simp add: reconcile_written_def)
    then show ?thesis using commit_reconciled_some on_fs_store [OF ob] by metis
  qed
qed

text \<open>
  What the gateway relies on. \<open>row\<close> looks an action up, \<open>good\<close> is the invariant of the store,
  \<open>later d d'\<close> says that \<open>d'\<close> may have come of \<open>d\<close> by any operations, also of others.
\<close>

locale action_store =
  fixes st :: "'s gateway_store"
    and good :: "'s \<Rightarrow> bool"
    and row :: "'s \<Rightarrow> string \<Rightarrow> action_row option"
    and later :: "'s \<Rightarrow> 's \<Rightarrow> bool"
  assumes later_refl: "later d d"
    and later_trans: "later d d' \<Longrightarrow> later d' d'' \<Longrightarrow> later d d''"
    and good_later: "good d \<Longrightarrow> later d d' \<Longrightarrow> good d'"
    and row_later: "good d \<Longrightarrow> later d d' \<Longrightarrow> row d i = Some r \<Longrightarrow>
      \<exists>r'. row d' i = Some r' \<and> row_follows r r'"
    and row_id: "row d i = Some r \<Longrightarrow> a_id r = i"
    and prepare_later: "good d \<Longrightarrow> gs_prepare st aid qid mid key tool h args v pre d = Inr (r, d') \<Longrightarrow>
      later d d' \<and> row d' (a_id r) = Some r \<and> a_quest r = qid \<and> a_key r = key"
    and prepare_known: "good d \<Longrightarrow> row d i = Some r \<Longrightarrow>
      gs_prepare st aid (a_quest r) mid (a_key r) tool h args v pre d = Inr (r', d') \<Longrightarrow> r' = r \<and> d' = d"
    and dispatch_prepared: "good d \<Longrightarrow> row d i = Some r \<Longrightarrow> a_status r = ActPrepared \<Longrightarrow>
      \<exists>r' d'. gs_dispatched st i d = Inr (r', d') \<and> row d' i = Some r' \<and> a_status r' = ActDispatched"
    and dispatched_later: "good d \<Longrightarrow> gs_dispatched st i d = Inr (r, d') \<Longrightarrow> later d d'"
    and commit_later: "good d \<Longrightarrow> gs_commit st i res ob d = Inr (r, d') \<Longrightarrow>
      later d d' \<and> row d' i = Some r \<and> a_status r = ActCommitted"
    and fail_later: "good d \<Longrightarrow> gs_fail st i err d = Inr (r, d') \<Longrightarrow>
      later d d' \<and> row d' i = Some r \<and> a_status r = ActFailed"
    and unknown_later: "good d \<Longrightarrow> gs_unknown st i err' d = Inr (r, d') \<Longrightarrow>
      later d d' \<and> row d' i = Some r \<and> a_status r = ActUnknownEffect"
begin

lemma moves_return: "moves good later (act_return x)"
  by (simp add: moves_def later_refl)

lemma moves_raise: "moves good later (act_raise e)"
  by (simp add: moves_def later_refl)

lemma moves_bind:
  assumes "moves good later m" and "\<And>x. moves good later (f x)"
  shows "moves good later (act_bind m f)"
  unfolding moves_def
proof (intro allI impI)
  fix s r s' assume g: "good (st_store s)" and run: "act_bind m f s = (r, s')"
  obtain r1 s1 where m: "m s = (r1, s1)" by (cases "m s") auto
  have l: "later (st_store s) (st_store s1)" using movesD [OF assms(1) g m] .
  show "later (st_store s) (st_store s')"
  proof (cases r1)
    case (Inl e)
    then show ?thesis using run m l by (simp add: act_bind_def)
  next
    case (Inr x)
    then have "f x s1 = (r, s')" using run m by (simp add: act_bind_def)
    then show ?thesis using movesD [OF assms(2) good_later [OF g l]] l later_trans by blast
  qed
qed

lemma moves_fs: "moves good later (on_fs m)"
  by (auto simp: moves_def on_fs_def later_refl split: prod.splits)

lemma moves_store:
  assumes "\<And>d x d'. good d \<Longrightarrow> f d = Inr (x, d') \<Longrightarrow> later d d'"
  shows "moves good later (on_store f)"
  using assms by (auto simp: moves_def on_store_def later_refl split: sum.splits)

lemma moves_state: "(\<And>s0. moves good later (m s0)) \<Longrightarrow> moves good later (\<lambda>s. m s s)"
  by (simp add: moves_def)

lemma moves_pure: "(\<And>s. st_store (snd (m s)) = st_store s) \<Longrightarrow> moves good later m"
  by (auto simp: moves_def) (metis later_refl snd_conv)

lemma moves_hit: "moves good later (hit_fault p)"
  by (rule moves_pure) (simp add: hit_fault_def)

lemma moves_if: "moves good later a \<Longrightarrow> moves good later b \<Longrightarrow> moves good later (if P then a else b)"
  by simp

lemma moves_commit: "moves good later (commit_receipt st r res ob)"
  unfolding commit_receipt_def
  by (intro moves_bind moves_store moves_return) (use commit_later in blast)

lemma moves_fail: "moves good later (fail_receipt st i err)"
  unfolding fail_receipt_def
  by (intro moves_bind moves_store moves_return) (use fail_later in blast)

lemma moves_unknown: "moves good later (unknown_receipt st i err)"
  unfolding unknown_receipt_def
  by (intro moves_bind moves_store moves_return) (use unknown_later in blast)

lemmas moves_rules = moves_bind moves_return moves_raise moves_fs moves_hit moves_if
  moves_commit moves_fail moves_unknown

lemma moves_handle: "moves good later (handle_failure gw st i tool e)"
  by (cases e) (simp_all add: moves_fail moves_unknown)

lemma moves_attempt: "moves good later (attempt_tool gw st sha bsha ios r ws tool args)"
  unfolding attempt_tool_def
proof (intro moves_rules)
  fix res :: json
  let ?drop = "\<lambda>s. s\<lparr>st_faults := filter (\<lambda>p. p \<noteq> ''malformed_result'') (st_faults s)\<rparr>"
  let ?commit = "\<lambda>d. act_bind (on_fs (write_file_observation gw sha bsha ios r ws args))
    (commit_receipt st r d)"
  have c: "moves good later (?commit d)" for d by (intro moves_rules)
  show "moves good later (\<lambda>s. let (res', s') =
         (if ''malformed_result'' \<in> set (st_faults s) then (JNull, ?drop s) else (res, s))
       in case res' of JObj d \<Rightarrow> ?commit d s'
          | _ \<Rightarrow> (Inl (ToolExc ''MALFORMED_RESULT'' ''Tool returned a non-object result'' []), s'))"
    unfolding moves_def
    by (auto simp: later_refl dest: movesD [OF c] split: json.splits if_splits)
qed

lemma moves_reconcile: "moves good later (reconcile gw st sha bsha ios r ws args)"
proof -
  have commit: "moves good later (commit_reconciled gw st r ws content p ob)" for content p ob
    unfolding commit_reconciled_def by (intro moves_rules)
  have written: "moves good later (reconcile_written gw st sha bsha ios r ws args content p)" for content p
    unfolding moves_def
  proof (intro allI impI)
    fix s x s'
    assume g: "good (st_store s)"
      and run: "reconcile_written gw st sha bsha ios r ws args content p s = (x, s')"
    obtain r1 s1 where ob: "on_fs (write_file_observation gw sha bsha ios r ws args) s = (r1, s1)"
      by (cases "on_fs (write_file_observation gw sha bsha ios r ws args) s") auto
    have same: "st_store s1 = st_store s" using ob by (auto simp: on_fs_def split: prod.splits)
    show "later (st_store s) (st_store s')"
    proof (cases r1)
      case (Inl e)
      then show ?thesis using run ob same by (cases e) (auto simp: reconcile_written_def later_refl)
    next
      case (Inr observation)
      then have "commit_reconciled gw st r ws content p observation s1 = (x, s')"
        using run ob by (simp add: reconcile_written_def)
      from movesD [OF commit _ this] g same show ?thesis by simp
    qed
  qed
  have "moves good later (reconcile_at gw st sha bsha ios r ws args content p)" for content p
  proof -
    have "moves good later (\<lambda>s. (case st_fs s0 p of
        None \<Rightarrow> act_return (None, a_pre_effect r = Some ''absent'')
      | Some (RegFile bytes) \<Rightarrow>
          if bsha bytes \<noteq> bsha content then act_return (None, False)
          else if dict_get_or args ''overwrite'' (JBool True) = JBool False \<and>
            a_pre_effect r \<noteq> Some ''absent'' then act_return (None, False)
          else reconcile_written gw st sha bsha ios r ws args content p
      | Some _ \<Rightarrow> act_return (None, False)) s)" for s0 :: "'s gw_state"
      by (auto split: option.splits node.splits intro: moves_return written)
    then show ?thesis unfolding reconcile_at_def [abs_def] by (rule moves_state)
  qed
  then show ?thesis
    unfolding reconcile_def
    by (intro moves_if moves_return) (auto split: option.splits json.splits intro: moves_rules)
qed

lemma moves_try: "moves good later (\<lambda>s. case attempt_tool gw st sha bsha ios r ws tool args s of
    (Inr rc, s3) \<Rightarrow> (Inr rc, s3) | (Inl e, s3) \<Rightarrow> handle_failure gw st (a_id r) tool e s3)"
  unfolding moves_def
proof (intro allI impI)
  fix s x s'
  assume g: "good (st_store s)" and run: "(case attempt_tool gw st sha bsha ios r ws tool args s of
    (Inr rc, s3) \<Rightarrow> (Inr rc, s3) | (Inl e, s3) \<Rightarrow> handle_failure gw st (a_id r) tool e s3) = (x, s')"
  obtain r1 s1 where a: "attempt_tool gw st sha bsha ios r ws tool args s = (r1, s1)"
    by (cases "attempt_tool gw st sha bsha ios r ws tool args s") auto
  have l: "later (st_store s) (st_store s1)" using movesD [OF moves_attempt g a] .
  show "later (st_store s) (st_store s')"
  proof (cases r1)
    case (Inl e)
    then have "handle_failure gw st (a_id r) tool e s1 = (x, s')" using run a by simp
    from movesD [OF moves_handle good_later [OF g l] this] l show ?thesis by (rule later_trans [rotated])
  next
    case (Inr rc)
    then show ?thesis using run a l by simp
  qed
qed

lemma moves_dispatch: "moves good later (dispatch gw st sha bsha ios r ws tool args)"
proof -
  have mark: "moves good later (if a_status r = ActPrepared
      then act_bind (on_store (gs_dispatched st (a_id r))) (\<lambda>_. act_return ()) else act_return ())"
    by (intro moves_rules moves_store) (use dispatched_later in blast)
  show ?thesis
    unfolding moves_def
  proof (intro allI impI)
    fix s x s'
    assume g: "good (st_store s)" and d: "dispatch gw st sha bsha ios r ws tool args s = (x, s')"
    obtain r1 s1 where h: "hit_fault ''before_dispatch'' s = (r1, s1)"
      by (cases "hit_fault ''before_dispatch'' s") auto
    have same: "st_store s1 = st_store s" using h by (auto simp: hit_fault_def split: if_splits)
    show "later (st_store s) (st_store s')"
    proof (cases r1)
      case (Inl e)
      then show ?thesis
        using d h g same movesD [OF moves_fail, of s1 "a_id r" _ x s'] by (simp add: dispatch_def)
    next
      case (Inr u)
      then have "act_bind (if a_status r = ActPrepared
          then act_bind (on_store (gs_dispatched st (a_id r))) (\<lambda>_. act_return ()) else act_return ())
        (\<lambda>_ s. case attempt_tool gw st sha bsha ios r ws tool args s of
          (Inr rc, s3) \<Rightarrow> (Inr rc, s3) | (Inl e, s3) \<Rightarrow> handle_failure gw st (a_id r) tool e s3) s1 = (x, s')"
        using d h by (simp add: dispatch_def)
      from movesD [OF moves_bind [OF mark moves_try] _ this] g same show ?thesis by simp
    qed
  qed
qed

lemma moves_continue: "moves good later (continue_call gw st sha bsha ios c args r)"
  unfolding continue_call_def
  by (intro moves_if moves_raise moves_return moves_dispatch moves_bind [OF moves_reconcile])
    (auto split: option.splits intro: moves_return moves_dispatch moves_unknown)

lemma moves_execute: "moves good later (execute gw st sha bsha ios c)"
  unfolding moves_def
proof (intro allI impI)
  fix s x s' assume g: "good (st_store s)" and ex: "execute gw st sha bsha ios c s = (x, s')"
  show "later (st_store s) (st_store s')"
  proof (cases "\<exists>args r s1. prepared_as gw st sha bsha c args r s s1")
    case True
    then obtain args r s1 where p: "prepared_as gw st sha bsha c args r s s1" by blast
    then have l: "later (st_store s) (st_store s1)"
      using prepare_later [OF g] by (fastforce simp: prepared_as_def)
    have "continue_call gw st sha bsha ios c args r s1 = (x, s')"
      using ex execute_prepared [OF p, of ios] by simp
    from movesD [OF moves_continue good_later [OF g l] this] l show ?thesis by (rule later_trans [rotated])
  next
    case False
    then obtain e w where "\<forall>reg. execute (gw\<lparr>gw_registry := reg\<rparr>) st sha bsha ios c s = (Inl e, s\<lparr>st_fs := w\<rparr>)"
      using execute_refused by blast
    then have "execute (gw\<lparr>gw_registry := gw_registry gw\<rparr>) st sha bsha ios c s = (Inl e, s\<lparr>st_fs := w\<rparr>)" ..
    then show ?thesis using ex by (auto simp: later_refl)
  qed
qed

lemma settled_row:
  "row d i = Some r \<Longrightarrow> a_status r \<in> {ActCommitted, ActFailed, ActUnknownEffect} \<Longrightarrow>
   settled row d i (receipt_of_row r)"
  by (auto simp: settled_def)

lemma commit_settled:
  assumes "good (st_store s)" "commit_receipt st r res ob s = (Inr rc, s')"
  shows "settled row (st_store s') (a_id r) rc"
proof -
  obtain x d where "gs_commit st (a_id r) res ob (st_store s) = Inr (x, d)"
    "rc = receipt_of_row x" "st_store s' = d"
    using assms(2) by (auto simp: commit_receipt_def act_bind_Inr_iff on_store_def split: sum.splits)
  then show ?thesis using commit_later [OF assms(1)] settled_row by fastforce
qed

lemma fail_settled:
  assumes "good (st_store s)" "fail_receipt st i err s = (Inr rc, s')"
  shows "settled row (st_store s') (i) rc"
proof -
  obtain x d where "gs_fail st i err (st_store s) = Inr (x, d)"
    "rc = receipt_of_row x" "st_store s' = d"
    using assms(2) by (auto simp: fail_receipt_def act_bind_Inr_iff on_store_def split: sum.splits)
  then show ?thesis using fail_later [OF assms(1)] settled_row by fastforce
qed

lemma unknown_settled:
  assumes "good (st_store s)" "unknown_receipt st i err s = (Inr rc, s')"
  shows "settled row (st_store s') (i) rc"
proof -
  obtain x d where "gs_unknown st i (Some err) (st_store s) = Inr (x, d)"
    "rc = receipt_of_row x" "st_store s' = d"
    using assms(2) by (auto simp: unknown_receipt_def act_bind_Inr_iff on_store_def split: sum.splits)
  then show ?thesis using unknown_later [OF assms(1)] settled_row by fastforce
qed

lemma handle_settled:
  assumes "good (st_store s)" "handle_failure gw st i tool e s = (Inr rc, s')"
  shows "settled row (st_store s') (i) rc"
  using assms(2) fail_settled [OF assms(1)] unknown_settled [OF assms(1)]
  by (cases e) (auto split: if_splits)

lemma attempt_settled:
  assumes "good (st_store s)" "attempt_tool gw st sha bsha ios r ws tool args s = (Inr rc, s')"
  shows "settled row (st_store s') (a_id r) rc"
proof -
  obtain d ob s1 where "commit_receipt st r d ob s1 = (Inr rc, s')" "st_store s1 = st_store s"
    using assms(2)
    by (auto simp: attempt_tool_def act_bind_Inr_iff Let_def on_fs_def hit_fault_def
        split: if_splits json.splits prod.splits)
  then show ?thesis using commit_settled assms(1) by metis
qed

lemma dispatch_settled:
  assumes g: "good (st_store s)" and run: "dispatch gw st sha bsha ios r ws tool args s = (Inr rc, s')"
  shows "settled row (st_store s') (a_id r) rc"
proof (cases "hit_fault ''before_dispatch'' s")
  case (Pair r1 s1)
  then have g1: "good (st_store s1)" using g by (auto simp: hit_fault_def split: if_splits)
  show ?thesis
  proof (cases r1)
    case (Inl e)
    then show ?thesis using run Pair fail_settled [OF g1] by (simp add: dispatch_def)
  next
    case (Inr u)
    let ?mark = "if a_status r = ActPrepared
      then act_bind (on_store (gs_dispatched st (a_id r))) (\<lambda>_. act_return ()) else act_return ()"
    obtain x s2 where mark: "?mark s1 = (Inr x, s2)"
      and body: "(case attempt_tool gw st sha bsha ios r ws tool args s2 of
        (Inr rc, s3) \<Rightarrow> (Inr rc, s3) | (Inl e, s3) \<Rightarrow> handle_failure gw st (a_id r) tool e s3) = (Inr rc, s')"
      using run Pair Inr by (auto simp: dispatch_def act_bind_Inr_iff)
    have "moves good later ?mark"
      by (intro moves_rules moves_store) (use dispatched_later in blast)
    then have g2: "good (st_store s2)" using movesD g1 mark good_later by blast
    obtain r3 s3 where a: "attempt_tool gw st sha bsha ios r ws tool args s2 = (r3, s3)"
      by (cases "attempt_tool gw st sha bsha ios r ws tool args s2") auto
    have g3: "good (st_store s3)" using movesD [OF moves_attempt g2 a] good_later g2 by blast
    show ?thesis
    proof (cases r3)
      case (Inl e)
      then show ?thesis using body a handle_settled [OF g3] by simp
    next
      case (Inr rc')
      then show ?thesis using body a attempt_settled [OF g2] by simp
    qed
  qed
qed

lemma reconcile_settled:
  assumes g: "good (st_store s)"
    and run: "reconcile gw st sha bsha ios r ws args s = (Inr (Some rc, b), s')"
  shows "settled row (st_store s') (a_id r) rc"
proof -
  have "\<exists>content rel. act_bind (on_fs (sandbox_resolve (gw_sandbox gw) ws rel False False True))
      (reconcile_at gw st sha bsha ios r ws args content) s = (Inr (Some rc, b), s')"
    using run by (auto simp: reconcile_def split: if_splits option.splits json.splits)
  then obtain content p s1 where "reconcile_at gw st sha bsha ios r ws args content p s1 = (Inr (Some rc, b), s')"
    "st_store s1 = st_store s"
    using on_fs_store by (fastforce simp: act_bind_Inr_iff)
  then obtain s2 res ob where "st_store s2 = st_store s" "commit_receipt st r res ob s2 = (Inr rc, s')"
    using reconcile_at_some by metis
  then show ?thesis using commit_settled g by metis
qed

lemma continue_settled:
  assumes g: "good (st_store s)" and r: "row (st_store s) (a_id r) = Some r"
    and run: "continue_call gw st sha bsha ios c args r s = (Inr rc, s')"
  shows "settled row (st_store s') (a_id r) rc"
proof -
  consider "a_status r \<in> {ActCommitted, ActFailed}" "rc = receipt_of_row r" "s' = s"
    | "a_status r \<in> {ActDispatched, ActUnknownEffect}"
      "act_bind (reconcile gw st sha bsha ios r (gc_workspace c) args) (\<lambda>(reconciled, safe_retry).
         case reconciled of
           Some rc \<Rightarrow> act_return rc
         | None \<Rightarrow>
             if safe_retry then dispatch gw st sha bsha ios r (gc_workspace c) (gc_tool c) args
             else if a_status r = ActDispatched
             then unknown_receipt st (a_id r)
               (error_dict ''UNKNOWN_EFFECT'' ''Tool effect could not be reconciled'')
             else act_return (receipt_of_row r)) s = (Inr rc, s')"
    | "dispatch gw st sha bsha ios r (gc_workspace c) (gc_tool c) args s = (Inr rc, s')"
    using run by (auto simp: continue_call_def split: if_splits)
  then show ?thesis
  proof cases
    case 1
    then show ?thesis using settled_row [OF r] by auto
  next
    case 2
    then obtain rec safe s1 where rec: "reconcile gw st sha bsha ios r (gc_workspace c) args s = (Inr (rec, safe), s1)"
      and rest: "(case rec of
           Some rc \<Rightarrow> act_return rc
         | None \<Rightarrow>
             if safe then dispatch gw st sha bsha ios r (gc_workspace c) (gc_tool c) args
             else if a_status r = ActDispatched
             then unknown_receipt st (a_id r)
               (error_dict ''UNKNOWN_EFFECT'' ''Tool effect could not be reconciled'')
             else act_return (receipt_of_row r)) s1 = (Inr rc, s')"
      by (auto simp: act_bind_Inr_iff)
    show ?thesis
    proof (cases rec)
      case None
      have same: "st_store s1 = st_store s" using reconcile_none rec None by blast
      then have g1: "good (st_store s1)" and r1: "row (st_store s1) (a_id r) = Some r" using g r by auto
      show ?thesis
        using rest None 2(1) dispatch_settled [OF g1] unknown_settled [OF g1] settled_row [OF r1]
        by (auto split: if_splits)
    next
      case (Some rc')
      then show ?thesis using rest rec reconcile_settled [OF g] by auto
    qed
  next
    case 3
    then show ?thesis by (rule dispatch_settled [OF g])
  qed
qed

lemma execute_settled:
  assumes g: "good (st_store s)" and run: "execute gw st sha bsha ios c s = (Inr rc, s')"
  shows "\<exists>args r s1. prepared_as gw st sha bsha c args r s s1 \<and> later (st_store s) (st_store s1) \<and>
    row (st_store s1) (a_id r) = Some r \<and> a_quest r = gc_quest c \<and> a_key r = gc_key c \<and>
    later (st_store s1) (st_store s') \<and> good (st_store s') \<and> settled row (st_store s') (a_id r) rc"
proof -
  obtain args r s1 where p: "prepared_as gw st sha bsha c args r s s1"
    using execute_returns [OF run] by blast
  then have r: "later (st_store s) (st_store s1)" "row (st_store s1) (a_id r) = Some r"
    "a_quest r = gc_quest c" "a_key r = gc_key c"
    using prepare_later [OF g] by (fastforce simp: prepared_as_def)+
  have g1: "good (st_store s1)" using good_later [OF g r(1)] .
  have c: "continue_call gw st sha bsha ios c args r s1 = (Inr rc, s')"
    using run execute_prepared [OF p, of ios] by simp
  have l: "later (st_store s1) (st_store s')" using movesD [OF moves_continue g1 c] .
  have "settled row (st_store s') (a_id r) rc" by (rule continue_settled [OF g1 r(2) c])
  then show ?thesis using p r l good_later [OF g1 l] by blast
qed

text \<open>Once the tool of a call may have run, the action has left its first state.\<close>

lemma execute_uses:
  assumes g: "good (st_store s)"
    and ran: "execute gw st sha bsha ios c s \<noteq> execute (gw\<lparr>gw_registry := reg\<rparr>) st sha bsha ios c s"
    and run: "execute gw st sha bsha ios c s = (x, s')"
  shows "\<exists>i r. row (st_store s') i = Some r \<and> a_quest r = gc_quest c \<and> a_key r = gc_key c \<and>
    a_status r \<noteq> ActPrepared"
proof -
  obtain args r s1 where p: "prepared_as gw st sha bsha c args r s s1"
    using execute_differs [OF ran] by blast
  then have p': "prepared_as (gw\<lparr>gw_registry := reg\<rparr>) st sha bsha c args r s s1"
    by (simp add: prepared_as_def)
  have r: "row (st_store s1) (a_id r) = Some r" "a_quest r = gc_quest c" "a_key r = gc_key c"
    "later (st_store s) (st_store s1)"
    using p prepare_later [OF g] by (fastforce simp: prepared_as_def)+
  have g1: "good (st_store s1)" using good_later [OF g r(4)] .
  have c: "continue_call gw st sha bsha ios c args r s1 = (x, s')"
    using run execute_prepared [OF p, of ios] by simp
  have differ: "continue_call gw st sha bsha ios c args r s1 \<noteq>
      continue_call (gw\<lparr>gw_registry := reg\<rparr>) st sha bsha ios c args r s1"
    using ran execute_prepared [OF p, of ios] execute_prepared [OF p', of ios] by simp
  note dep = continue_depends [OF differ]
  have "\<exists>d r1. good d \<and> later d (st_store s') \<and> row d (a_id r) = Some r1 \<and> a_status r1 \<noteq> ActPrepared \<and>
      a_quest r1 = gc_quest c \<and> a_key r1 = gc_key c"
  proof (cases "a_status r = ActPrepared")
    case False
    then show ?thesis using g1 r(1-3) movesD [OF moves_continue g1 c] by blast
  next
    case True
    then have nofault: "''before_dispatch'' \<notin> set (st_faults s1)" using dep by auto
    obtain r1 d1 where d1: "gs_dispatched st (a_id r) (st_store s1) = Inr (r1, d1)"
      "row d1 (a_id r) = Some r1" "a_status r1 = ActDispatched"
      using dispatch_prepared [OF g1 r(1) True] by blast
    have l1: "later (st_store s1) d1" using dispatched_later [OF g1 d1(1)] .
    let ?s2 = "s1\<lparr>st_store := d1\<rparr>"
    have tr: "(case attempt_tool gw st sha bsha ios r (gc_workspace c) (gc_tool c) args ?s2 of
        (Inr rc, s3) \<Rightarrow> (Inr rc, s3)
      | (Inl e, s3) \<Rightarrow> handle_failure gw st (a_id r) (gc_tool c) e s3) = (x, s')"
      using c dep True nofault d1(1)
      by (simp add: continue_call_def dispatch_def hit_fault_def act_bind_def on_store_def act_return_def)
    have l2: "later d1 (st_store s')"
      using movesD [OF moves_try _ tr] good_later [OF g1 l1] by simp
    obtain r1' where "row d1 (a_id r) = Some r1'" "row_follows r r1'"
      using row_later [OF g1 l1 r(1)] by blast
    then show ?thesis
      using l2 d1 r(2,3) good_later [OF g1 l1] by (auto simp: row_follows_def)
  qed
  then obtain d r1 where d: "good d" "later d (st_store s')" "row d (a_id r) = Some r1"
    "a_status r1 \<noteq> ActPrepared" "a_quest r1 = gc_quest c" "a_key r1 = gc_key c" by blast
  obtain r2 where r2: "row (st_store s') (a_id r) = Some r2" "row_follows r1 r2"
    using row_later [OF d(1-3)] by blast
  then show ?thesis using d(4-6) edges_not_prepared by (fastforce simp: row_follows_def)
qed

text \<open>And then only a reconciliation that finds it safe runs the tool again.\<close>

lemma execute_again:
  assumes g: "good (st_store s)" and r: "row (st_store s) i = Some r"
    and key: "a_quest r = gc_quest c" "a_key r = gc_key c" and used: "a_status r \<noteq> ActPrepared"
    and tool: "gc_tool c \<notin> set (gw_read_only gw)" "gc_tool c \<noteq> ''write_file''"
  shows "execute gw st sha bsha ios c s = execute (gw\<lparr>gw_registry := reg\<rparr>) st sha bsha ios c s"
proof (rule ccontr)
  assume ran: "\<not> ?thesis"
  obtain args r0 s1 where p: "prepared_as gw st sha bsha c args r0 s s1"
    using execute_differs [OF ran] by blast
  then have p': "prepared_as (gw\<lparr>gw_registry := reg\<rparr>) st sha bsha c args r0 s s1"
    by (simp add: prepared_as_def)
  have "r0 = r" using p prepare_known [OF g r] key by (auto simp: prepared_as_def)
  moreover have "continue_call gw st sha bsha ios c args r0 s1 \<noteq>
      continue_call (gw\<lparr>gw_registry := reg\<rparr>) st sha bsha ios c args r0 s1"
    using ran execute_prepared [OF p, of ios] execute_prepared [OF p', of ios] by simp
  ultimately show False using continue_depends used tool by (fastforce simp: may_rerun_def)
qed

end

end
