(* ===== verification/Tool_Files.thy ===== *)
theory Tool_Files
  imports Tools
begin

text \<open>
  What the file tools do to the file system: a resolved path lies in the workspace inside the root
  and crosses no symbolic link, a write replaces exactly one file there and creates directories
  above it, a refused write leaves every file alone, and reading gives back what was written.
\<close>

section \<open>File systems with the same links resolve alike\<close>

definition same_links :: "fs \<Rightarrow> fs \<Rightarrow> bool" where
  "same_links w w' \<longleftrightarrow> (\<forall>q t. w q = Some (Link t) \<longleftrightarrow> w' q = Some (Link t))"

lemma same_links_refl [simp]: "same_links w w"
  by (simp add: same_links_def)

lemma same_links_trans: "same_links w w' \<Longrightarrow> same_links w' w'' \<Longrightarrow> same_links w w''"
  by (simp add: same_links_def)

lemma same_links_sym: "same_links w w' \<Longrightarrow> same_links w' w"
  by (simp add: same_links_def)

lemma realpath_Some_same_links:
  assumes "realpath w n p cs = Some q" and "same_links w w'"
  shows "realpath w' n p cs = Some q"
  using assms(1)
proof (induction rule: realpath_induct)
  case (link n p c cs t)
  then show ?case
    using assms(2) realpath_link [of c w' p t] by (simp add: same_links_def)
next
  case (name n p c cs)
  then show ?case
    using assms(2) realpath_name [of c w' p] by (simp add: same_links_def)
qed (simp_all add: realpath_skip realpath_up)

lemma realpath_same_links:
  assumes "same_links w w'"
  shows "realpath w' n p cs = realpath w n p cs"
  using realpath_Some_same_links [OF _ assms] realpath_Some_same_links [OF _ same_links_sym [OF assms]]
  by (metis option.exhaust)

section \<open>Directories made on the way\<close>

text \<open>\<open>w'\<close> is \<open>w\<close> with some missing directories created, all of them above or at \<open>p\<close>.\<close>

definition dirs_added :: "path \<Rightarrow> fs \<Rightarrow> fs \<Rightarrow> bool" where
  "dirs_added p w w' \<longleftrightarrow>
     (\<forall>q. w' q = w q \<or> (w q = None \<and> w' q = Some Directory \<and> prefix q p))"

lemma dirs_added_refl [simp]: "dirs_added p w w"
  by (simp add: dirs_added_def)

lemma dirs_added_links: "dirs_added p w w' \<Longrightarrow> same_links w w'"
  unfolding dirs_added_def same_links_def
  by (intro allI) (metis node.distinct(7) option.distinct(1) option.inject)

lemma dirs_added_prefix: "dirs_added p w w' \<Longrightarrow> prefix p p' \<Longrightarrow> dirs_added p' w w'"
  unfolding dirs_added_def using prefix_order.trans by blast

lemma dirs_added_trans: "dirs_added p w w' \<Longrightarrow> dirs_added p w' w'' \<Longrightarrow> dirs_added p w w''"
  unfolding dirs_added_def by metis

lemma mkdir_walk_added: "mkdir_walk p cs w = Inr w' \<Longrightarrow> dirs_added (p @ cs) w w'"
proof (induction p cs w rule: mkdir_walk.induct)
  case (1 p w)
  then show ?case by simp
next
  case (2 p c cs w)
  show ?case
  proof (cases "w (p @ [c])")
    case None
    then have "dirs_added (p @ c # cs) (w(p @ [c] \<mapsto> Directory)) w'"
      using 2(1) [OF None] 2(3) by (simp del: fun_upd_apply)
    moreover have "dirs_added (p @ c # cs) w (w(p @ [c] \<mapsto> Directory))"
      using None by (auto simp: dirs_added_def)
    ultimately show ?thesis by (rule dirs_added_trans [rotated])
  next
    case (Some x)
    then show ?thesis using 2 by (cases x) auto
  qed
qed

lemma mkdirs_added: "mkdirs p w = (r, w') \<Longrightarrow> dirs_added p w w'"
  using mkdir_walk_added [of "[]" p w] by (auto simp: mkdirs_def split: sum.splits)

lemma workspace_path_result:
  assumes "workspace_path sb ws create w = (r, w')"
  shows "(\<forall>p. r = Inr p \<longrightarrow> prefix (sb_root sb) p \<and> no_links w' p \<and> dirs_added p w w' \<and>
      realpath w (sb_links sb) [] (sb_root sb @ path_parts ws) = Some p) \<and>
    (\<exists>p. dirs_added p w w' \<and> (w' = w \<or> prefix (sb_root sb) p)) \<and> (\<not> create \<longrightarrow> w' = w)"
proof -
  let ?p = "realpath w (sb_links sb) [] (sb_root sb @ path_parts ws)"
  consider "w' = w" "\<exists>e. r = Inl e"
    | p where "?p = Some p" "prefix (sb_root sb) p" "\<not> create" "r = Inr p" "w' = w"
    | p where "?p = Some p" "prefix (sb_root sb) p" "create"
      "act_bind (mkdirs p) (\<lambda>_. act_return p) w = (r, w')"
  proof (cases "\<exists>p. ?p = Some p \<and> prefix (sb_root sb) p \<and> \<not> (ws = [] \<or> nul \<in> set ws) \<and> \<not> is_absolute ws")
    case True
    then obtain p where p: "?p = Some p" "prefix (sb_root sb) p"
      "\<not> (ws = [] \<or> nul \<in> set ws)" "\<not> is_absolute ws" by blast
    show ?thesis
    proof (cases create)
      case c: True
      have "act_bind (mkdirs p) (\<lambda>_. act_return p) w = (r, w')"
        using assms p c unfolding workspace_path_def is_within_def by simp
      then show ?thesis using that(3) p c by blast
    next
      case c: False
      have "r = Inr p \<and> w' = w" using assms p c unfolding workspace_path_def is_within_def by simp
      then show ?thesis using that(2) p c by blast
    qed
  next
    case False
    then have "\<exists>e. workspace_path sb ws create w = (Inl e, w)"
      by (cases ?p) (auto simp: workspace_path_def is_within_def)
    then show ?thesis using that(1) assms by auto
  qed
  then show ?thesis
  proof cases
    case 1
    then show ?thesis using dirs_added_refl by blast
  next
    case 2
    then show ?thesis using realpath_no_links [OF 2(1)] dirs_added_refl by auto
  next
    case (3 p)
    obtain r1 where m: "mkdirs p w = (r1, w')" "r = (case r1 of Inl e \<Rightarrow> Inl e | Inr _ \<Rightarrow> Inr p)"
      using 3(4) by (auto simp: act_bind_def act_return_def split: prod.splits sum.splits)
    have d: "dirs_added p w w'" by (rule mkdirs_added [OF m(1)])
    have "realpath w' (sb_links sb) [] (sb_root sb @ path_parts ws) = Some p"
      using 3(1) realpath_same_links [OF dirs_added_links [OF d]] by simp
    then have "no_links w' p" by (rule realpath_no_links) simp
    then show ?thesis using 3(1-3) m(2) d by (auto split: sum.splits)
  qed
qed

lemma workspace_path_same_links:
  assumes "workspace_path sb ws create w = (Inr p, w1)" and "same_links w w'"
  shows "workspace_path sb ws False w' = (Inr p, w')"
proof -
  have "realpath w' (sb_links sb) [] (sb_root sb @ path_parts ws) = Some p"
    "prefix (sb_root sb) p"
    using workspace_path_result [OF assms(1)] realpath_same_links [OF assms(2)] by auto
  moreover have "ws \<noteq> []" "nul \<notin> set ws" "\<not> is_absolute ws"
    using assms(1) unfolding workspace_path_def by (auto split: if_splits)
  ultimately show ?thesis by (simp add: workspace_path_def is_within_def)
qed

lemma mkdir_walk_made: "mkdir_walk p cs w = Inr w' \<Longrightarrow> 0 < k \<Longrightarrow> k \<le> length cs \<Longrightarrow>
    w' (p @ take k cs) = Some Directory"
proof (induction p cs w arbitrary: k rule: mkdir_walk.induct)
  case (1 p w)
  then show ?case by simp
next
  case (2 p c cs w)
  obtain w1 where w1: "mkdir_walk (p @ [c]) cs w1 = Inr w'" "w1 (p @ [c]) = Some Directory"
    "\<And>k. 0 < k \<Longrightarrow> k \<le> length cs \<Longrightarrow> w' ((p @ [c]) @ take k cs) = Some Directory"
  proof (cases "w (p @ [c])")
    case None
    then show ?thesis
      using 2(1) [OF None] 2(3) that [of "w(p @ [c] \<mapsto> Directory)"] by (simp del: fun_upd_apply) simp
  next
    case (Some x)
    show ?thesis
    proof (cases "x = Directory")
      case True
      then show ?thesis using 2(2) [OF Some True] 2(3) that [of w] Some by simp
    next
      case False
      then show ?thesis using 2(3) Some by (cases x) simp_all
    qed
  qed
  show ?case
  proof (cases k)
    case 0
    then show ?thesis using 2 by simp
  next
    case (Suc k')
    then show ?thesis
    proof (cases k')
      case 0
      have "dirs_added ((p @ [c]) @ cs) w1 w'" by (rule mkdir_walk_added [OF w1(1)])
      then have "w' (p @ [c]) = Some Directory" using w1(2) unfolding dirs_added_def by (metis option.distinct(1))
      then show ?thesis using Suc 0 by simp
    next
      case (Suc n)
      then show ?thesis using w1(3) [of k'] \<open>k = Suc k'\<close> 2(5) by simp
    qed
  qed
qed

lemma mkdir_walk_id:
  "(\<And>k. 0 < k \<Longrightarrow> k \<le> length cs \<Longrightarrow> w (p @ take k cs) = Some Directory) \<Longrightarrow> mkdir_walk p cs w = Inr w"
proof (induction cs arbitrary: p)
  case Nil
  then show ?case by simp
next
  case (Cons c cs)
  have "w (p @ [c]) = Some Directory" using Cons.prems [of 1] by simp
  moreover have "mkdir_walk (p @ [c]) cs w = Inr w"
    by (rule Cons.IH) (use Cons.prems [of "Suc k" for k] in simp)
  ultimately show ?case by simp
qed

lemma workspace_path_created:
  assumes "workspace_path sb ws True w = (Inr base, w1)" "0 < k" "k \<le> length base"
  shows "w1 (take k base) = Some Directory"
proof -
  have "realpath w (sb_links sb) [] (sb_root sb @ path_parts ws) = Some base"
    using workspace_path_result [OF assms(1)] by blast
  then have "mkdir_walk [] base w = Inr w1"
    using assms(1) unfolding workspace_path_def
    by (auto simp: mkdirs_def act_bind_def act_return_def split: if_splits sum.splits)
  then show ?thesis using mkdir_walk_made [of "[]" base w w1 k] assms(2,3) by simp
qed

lemma workspace_path_exists:
  assumes "workspace_path sb ws True w = (Inr base, w1)" and "same_links w w'"
    and "\<And>k. 0 < k \<Longrightarrow> k \<le> length base \<Longrightarrow> w' (take k base) = Some Directory"
  shows "workspace_path sb ws True w' = (Inr base, w')"
proof -
  have "mkdir_walk [] base w' = Inr w'" by (rule mkdir_walk_id) (simp add: assms(3))
  then have "mkdirs base w' = (Inr (), w')" by (simp add: mkdirs_def)
  moreover have "realpath w' (sb_links sb) [] (sb_root sb @ path_parts ws) = Some base"
    "prefix (sb_root sb) base"
    using workspace_path_result [OF assms(1)] realpath_same_links [OF assms(2)] by auto
  moreover have "ws \<noteq> []" "nul \<notin> set ws" "\<not> is_absolute ws"
    using assms(1) unfolding workspace_path_def by (auto split: if_splits)
  ultimately show ?thesis by (simp add: workspace_path_def is_within_def act_bind_def act_return_def)
qed

section \<open>Resolved paths\<close>

lemma sandbox_resolve_result:
  assumes "sandbox_resolve sb ws rel me ed cw w = (Inr p, w')"
  obtains base where "workspace_path sb ws cw w = (Inr base, w')" "prefix (sb_root sb) base"
    "prefix base p" "no_links w' p" "dirs_added base w w'" "me \<longrightarrow> w' p \<noteq> None"
    "nul \<notin> set rel" "\<not> is_absolute rel"
    "realpath w' (sb_links sb) [] (base @ path_parts rel) = Some p"
proof -
  obtain base w1 where 1: "workspace_path sb ws cw w = (Inr base, w1)"
    "(if nul \<in> set rel then (Inl (ToolExc ''INVALID_PATH'' ''Path is invalid'' []), w1)
       else if is_absolute rel
       then (Inl (ToolExc ''PATH_OUTSIDE_WORKSPACE''
               ''Tool paths must be relative to the Quest workspace''
               [(''path'', JStr rel)]), w1)
       else case realpath w1 (sb_links sb) [] (base @ path_parts rel) of
         None \<Rightarrow> (Inl symlink_loop, w1)
       | Some candidate \<Rightarrow>
           if \<not> is_within candidate base
           then (Inl (ToolExc ''PATH_OUTSIDE_WORKSPACE''
                   ''Tool path resolves outside the Quest workspace''
                   [(''path'', JStr rel)]), w1)
           else if me \<and> w1 candidate = None
           then (Inl (ToolExc ''PATH_NOT_FOUND'' ''Requested path does not exist''
                   [(''path'', JStr rel)]), w1)
           else if ed \<and> w1 candidate \<noteq> None \<and> w1 candidate \<noteq> Some Directory
           then (Inl (ToolExc ''NOT_A_DIRECTORY'' ''Requested path is not a directory''
                   [(''path'', JStr rel)]), w1)
           else (Inr candidate, w1)) = (Inr p, w')"
    using assms unfolding sandbox_resolve_def act_bind_Inr_iff by blast
  then have "nul \<notin> set rel" "\<not> is_absolute rel" "w1 = w'" "is_within p base" "me \<longrightarrow> w' p \<noteq> None"
    "realpath w' (sb_links sb) [] (base @ path_parts rel) = Some p"
    by (simp_all split: if_splits option.splits)
  then show ?thesis
    using that 1(1) workspace_path_result [OF 1(1)] realpath_no_links [of w' "sb_links sb" "[]"]
    by (auto simp: is_within_def)
qed

lemma sandbox_resolve_dirs:
  assumes "sandbox_resolve sb ws rel me ed cw w = (r, w')"
  shows "\<exists>q. dirs_added q w w'"
proof (cases "workspace_path sb ws cw w")
  case (Pair r1 w1)
  then have "w' = w1"
    using assms by (auto simp: sandbox_resolve_def act_bind_def split: sum.splits if_splits option.splits)
  then show ?thesis using workspace_path_result [OF Pair] by blast
qed

section \<open>Writing and reading\<close>

lemma required_string_Inr:
  "required_string args name w = (Inr v, w') \<longleftrightarrow>
     dict_get args name = Some (JStr v) \<and> \<not> is_blank v \<and> w' = w"
  by (auto simp: required_string_def split: option.splits json.splits)

lemma required_string_state: "required_string args name w = (r, w') \<Longrightarrow> w' = w"
  by (auto simp: required_string_def split: option.splits json.splits if_splits)

lemma display_path_same_links:
  assumes "workspace_path sb ws create w = (Inr base, w1)" and "same_links w w'" and "prefix base p"
  shows "display_path sb ws p w' =
    (Inr (if p = base then ''.'' else as_posix (drop (length base) p)), w')"
  using workspace_path_same_links [OF assms(1,2)] assms(3)
  by (auto simp: display_path_def act_bind_def is_within_def Let_def act_return_def prefix_def)

text \<open>What \<^verbatim>\<open>_write_file\<close> does once its arguments are accepted, and the ways it is refused.\<close>

lemma write_file_cases:
  assumes "write_file sb ws args w = (r, w')"
  obtains (refused) e q where "r = Inl e" "dirs_added q w w'"
  | (written) rel content base p overwrite w1 w2 where
      "required_string args ''path'' w = (Inr rel, w)"
      "dict_get args ''content'' = Some (JStr content)"
      "sandbox_resolve sb ws rel False False True w = (Inr p, w1)"
      "workspace_path sb ws True w = (Inr base, w1)" "prefix (sb_root sb) base" "prefix base p"
      "str_lower (path_suffix p) \<in> set allowed_write_suffixes"
      "length content \<le> sb_max_bytes sb"
      "dict_get_or args ''overwrite'' (JBool True) = JBool overwrite" "w1 p = None \<or> overwrite"
      "mkdirs (butlast p) w1 = (Inr (), w2)" "w2 p \<noteq> Some Directory" "dirs_added p w w2"
      "w' = w2(p \<mapsto> RegFile content)" "no_links w' p" "same_links w w'"
      "r = Inr [(''path'', JStr (if p = base then ''.'' else as_posix (drop (length base) p))),
        (''size_bytes'', JInt (int (length content))), (''created'', JBool (w1 p = None))]"
proof (cases "required_string args ''path'' w")
  case (Pair r0 w0)
  have w0: "w0 = w" by (rule required_string_state [OF Pair])
  note run = assms [unfolded write_file_def act_bind_def [of "required_string _ _"] Pair w0, simplified]
  show ?thesis
  proof (cases "\<exists>rel content. r0 = Inr rel \<and> dict_get args ''content'' = Some (JStr content)")
    case False
    then have "(\<exists>e. r = Inl e) \<and> w' = w"
      using run by (auto split: sum.splits option.splits json.splits)
    then show ?thesis using refused dirs_added_refl by blast
  next
    case True
    then obtain rel content where a: "r0 = Inr rel" "dict_get args ''content'' = Some (JStr content)"
      by blast
    obtain r1 w1 where res: "sandbox_resolve sb ws rel False False True w = (r1, w1)"
      by (cases "sandbox_resolve sb ws rel False False True w") auto
    obtain q where q: "dirs_added q w w1" using sandbox_resolve_dirs [OF res] by blast
    show ?thesis
    proof (cases r1)
      case (Inl e)
      then have "r = Inl e \<and> w' = w1" using run a res by (simp add: act_bind_def)
      then show ?thesis using refused q by blast
    next
      case (Inr p)
      obtain base where base: "workspace_path sb ws True w = (Inr base, w1)"
        "prefix (sb_root sb) base" "prefix base p" "no_links w1 p" "dirs_added base w w1"
        using sandbox_resolve_result [OF res [unfolded Inr]] by metis
      show ?thesis
      proof (cases "str_lower (path_suffix p) \<in> set allowed_write_suffixes \<and>
          length content \<le> sb_max_bytes sb \<and>
          (\<exists>ov. dict_get_or args ''overwrite'' (JBool True) = JBool ov \<and> (w1 p = None \<or> ov))")
        case False
        then have "(\<exists>e. r = Inl e) \<and> w' = w1"
          using run a res Inr
          by (auto simp: act_bind_def act_raise_def Let_def split: json.splits if_splits)
        then show ?thesis using refused q by blast
      next
        case True
        then obtain ov where ok: "str_lower (path_suffix p) \<in> set allowed_write_suffixes"
          "length content \<le> sb_max_bytes sb" "dict_get_or args ''overwrite'' (JBool True) = JBool ov"
          "w1 p = None \<or> ov" by blast
        obtain r2 w2 where mk: "mkdirs (butlast p) w1 = (r2, w2)" by (cases "mkdirs (butlast p) w1") auto
        have d2: "dirs_added p w w2"
          using dirs_added_trans [OF dirs_added_prefix [OF base(5,3)]]
            dirs_added_prefix [OF mkdirs_added [OF mk] prefixeq_butlast] by blast
        show ?thesis
        proof (cases "r2 = Inr () \<and> w2 p \<noteq> Some Directory")
          case False
          then have "(\<exists>e. r = Inl e) \<and> w' = w2"
            using run a res Inr ok mk
            by (auto simp: act_bind_def replace_file_def Let_def split: sum.splits if_splits)
          then show ?thesis using refused d2 by blast
        next
          case go: True
          let ?w = "w2(p \<mapsto> RegFile content)"
          have "p \<noteq> []" using ok(1) by (auto simp: path_suffix_def str_lower_def allowed_write_suffixes_def)
          then have nl: "no_links w2 p"
            using base(4) mkdirs_added [OF mk] dirs_added_links [of "butlast p" w1 w2]
            by (auto simp: no_links_def same_links_def)
          then have "w2 p \<noteq> Some (Link t)" for t
            using \<open>p \<noteq> []\<close> by (auto simp: no_links_def dest: spec [of _ "length p"])
          then have same: "same_links w ?w"
            using dirs_added_links [OF d2] by (auto simp: same_links_def)
          have nl': "no_links ?w p" using nl by (simp add: no_links_def)
          have "r = Inr [(''path'', JStr (if p = base then ''.'' else as_posix (drop (length base) p))),
              (''size_bytes'', JInt (int (length content))), (''created'', JBool (w1 p = None))] \<and> w' = ?w"
            using run a res Inr ok mk go display_path_same_links [OF base(1) same base(3)]
            by (auto simp: act_bind_def replace_file_def Let_def act_return_def)
          moreover have "required_string args ''path'' w = (Inr rel, w)" using Pair w0 a(1) by simp
          ultimately show ?thesis
            using written [OF _ a(2) res [unfolded Inr] base(1-3) ok] mk go d2 nl' same by blast
        qed
      qed
    qed
  qed
qed

section \<open>Properties\<close>

text \<open>
  Claim C31. The sandbox confines paths: whatever symbolic links there are, a path that \<^verbatim>\<open>resolve\<close>
  returns lies in the workspace, inside the root, and no component of it is a symbolic link, so that
  working at it cannot leave the sandbox; all that resolving changes is to create missing directories
  above or at the workspace.
\<close>

theorem sandbox_confines_paths:
  assumes "sandbox_resolve sb ws rel must_exist expect_directory create w = (Inr p, w')"
  shows "\<exists>base. realpath w (sb_links sb) [] (sb_root sb @ path_parts ws) = Some base \<and>
    prefix (sb_root sb) base \<and> prefix base p \<and> no_links w' p \<and>
    (\<forall>q. w' q = w q \<or> (w q = None \<and> w' q = Some Directory \<and> prefix q base))"
proof -
  obtain base where "workspace_path sb ws create w = (Inr base, w')" "prefix (sb_root sb) base"
    "prefix base p" "no_links w' p" "dirs_added base w w'"
    using sandbox_resolve_result [OF assms] by metis
  then show ?thesis using workspace_path_result by (fastforce simp: dirs_added_def)
qed

text \<open>A sandbox at \<^verbatim>\<open>/s\<close> whose workspace \<^verbatim>\<open>w\<close> holds a link into itself and a link out of it.\<close>

definition demo_fs :: fs where
  "demo_fs = [[''s''] \<mapsto> Directory, [''s'', ''w''] \<mapsto> Directory, [''s'', ''w'', ''d''] \<mapsto> Directory,
     [''s'', ''w'', ''in''] \<mapsto> Link ''d'', [''s'', ''w'', ''out''] \<mapsto> Link ''/etc'']"

definition demo_sandbox :: sandbox where
  "demo_sandbox = \<lparr>sb_root = [''s''], sb_max_bytes = 100, sb_links = 8\<rparr>"

lemma demo_resolve:
  "sandbox_resolve demo_sandbox ''w'' ''in/a.md'' False False True demo_fs =
     (Inr [''s'', ''w'', ''d'', ''a.md''], demo_fs)"
  by (simp add: sandbox_resolve_def workspace_path_def demo_sandbox_def demo_fs_def path_parts_def
      is_absolute_def starts_with_def realpath.simps nul_def is_within_def mkdirs_def act_bind_def
      act_return_def)

theorem sandbox_confines_paths_witness:
  "sandbox_resolve demo_sandbox ''w'' ''in/a.md'' False False True demo_fs =
     (Inr [''s'', ''w'', ''d'', ''a.md''], demo_fs) \<and>
   no_links demo_fs [''s'', ''w'', ''d'', ''a.md'']"
  using sandbox_confines_paths [OF demo_resolve] demo_resolve by blast

text \<open>
  Claim C32. A write touches one file: when \<^verbatim>\<open>_write_file\<close> succeeds, exactly one path gets new
  content, inside the root and across no symbolic link, with an allowed extension and within the size
  limit; apart from it only missing directories above it are created. When it is refused, every file
  and directory is as before and at most directories were created. A write that must not overwrite
  leaves everything that exists alone.
\<close>

theorem write_file_touches_one_file:
  assumes "write_file sb ws args w = (r, w')"
  shows "(\<forall>res. r = Inr res \<longrightarrow> (\<exists>p content. dict_get args ''content'' = Some (JStr content) \<and>
      w' p = Some (RegFile content) \<and> prefix (sb_root sb) p \<and> no_links w' p \<and>
      str_lower (path_suffix p) \<in> set allowed_write_suffixes \<and> length content \<le> sb_max_bytes sb \<and>
      (\<forall>q. q \<noteq> p \<longrightarrow> w' q = w q \<or> (w q = None \<and> w' q = Some Directory \<and> prefix q p)))) \<and>
    (\<forall>e. r = Inl e \<longrightarrow> (\<forall>q. w' q = w q \<or> (w q = None \<and> w' q = Some Directory))) \<and>
    (dict_get args ''overwrite'' = Some (JBool False) \<longrightarrow> (\<forall>q. w q \<noteq> None \<longrightarrow> w' q = w q))"
  using assms
proof (cases rule: write_file_cases)
  case (refused e q)
  then show ?thesis unfolding dirs_added_def by fastforce
next
  case (written rel content base p overwrite w1 w2)
  have frame: "w' q = w q \<or> (w q = None \<and> w' q = Some Directory \<and> prefix q p)" if "q \<noteq> p" for q
    using that written(13,14) by (auto simp: dirs_added_def)
  have "w' p = Some (RegFile content)" by (simp add: written(14))
  moreover have "prefix (sb_root sb) p" using written(5,6) by (rule prefix_order.trans)
  ultimately have new: "\<exists>p content. dict_get args ''content'' = Some (JStr content) \<and>
      w' p = Some (RegFile content) \<and> prefix (sb_root sb) p \<and> no_links w' p \<and>
      str_lower (path_suffix p) \<in> set allowed_write_suffixes \<and> length content \<le> sb_max_bytes sb \<and>
      (\<forall>q. q \<noteq> p \<longrightarrow> w' q = w q \<or> (w q = None \<and> w' q = Some Directory \<and> prefix q p))"
    using written(2,7,8,15) frame by blast
  have "w p = None" if "dict_get args ''overwrite'' = Some (JBool False)"
  proof -
    have "w1 p = None" using that written(9,10) by (simp add: dict_get_or_def)
    moreover have "dirs_added base w w1"
      using sandbox_resolve_result [OF written(3)] written(4) by (metis Inr_inject Pair_inject)
    ultimately show ?thesis unfolding dirs_added_def by (metis option.distinct(1))
  qed
  then have "w' q = w q" if "dict_get args ''overwrite'' = Some (JBool False)" "w q \<noteq> None" for q
    using that frame [of q] by (cases "q = p") auto
  then show ?thesis using new written(17) by blast
qed

lemma demo_display: "display_path demo_sandbox ''w'' [''s'', ''w'', ''d'', ''a.md'']
      (demo_fs([''s'', ''w'', ''d'', ''a.md''] \<mapsto> RegFile ''hi'')) =
      (Inr ''d/a.md'', demo_fs([''s'', ''w'', ''d'', ''a.md''] \<mapsto> RegFile ''hi''))"
  by (simp add: display_path_def workspace_path_def demo_sandbox_def demo_fs_def path_parts_def
        is_absolute_def starts_with_def realpath.simps nul_def is_within_def act_bind_def
        act_return_def as_posix_def)

lemma demo_write:
  "write_file demo_sandbox ''w'' [(''path'', JStr ''in/a.md''), (''content'', JStr ''hi'')] demo_fs =
     (Inr [(''path'', JStr ''d/a.md''), (''size_bytes'', JInt 2), (''created'', JBool True)],
      demo_fs([''s'', ''w'', ''d'', ''a.md''] \<mapsto> RegFile ''hi''))"
proof -
  have "required_string [(''path'', JStr ''in/a.md''), (''content'', JStr ''hi'')] ''path'' demo_fs =
      (Inr ''in/a.md'', demo_fs)"
    by (simp add: required_string_Inr is_blank_def points_def byte_def is_space_def)
  moreover have "mkdirs [''s'', ''w'', ''d''] demo_fs = (Inr (), demo_fs)"
    by (simp add: mkdirs_def demo_fs_def)
  moreover note demo_display
  moreover have "str_lower (path_suffix [''s'', ''w'', ''d'', ''a.md'']) = ''.md''"
    by (simp add: path_suffix_def name_suffix_def str_lower_def char_lower_def)
  moreover have "demo_fs [''s'', ''w'', ''d'', ''a.md''] = None" by (simp add: demo_fs_def)
  ultimately show ?thesis
    by (simp add: write_file_def act_bind_def demo_resolve allowed_write_suffixes_def
        dict_get_or_def replace_file_def act_return_def) (simp add: demo_sandbox_def)
qed

theorem write_file_touches_one_file_witness:
  "\<exists>p w'. snd (write_file demo_sandbox ''w'' [(''path'', JStr ''in/a.md''), (''content'', JStr ''hi'')] demo_fs) = w' \<and>
     w' p = Some (RegFile ''hi'') \<and> prefix [''s''] p \<and>
     (\<forall>q. q \<noteq> p \<longrightarrow> w' q = demo_fs q \<or> (demo_fs q = None \<and> w' q = Some Directory))"
  using write_file_touches_one_file [OF demo_write] demo_write
  by (fastforce simp: demo_sandbox_def)

text \<open>
  What was written is read back: after \<^verbatim>\<open>_write_file\<close> of a UTF-8 text, \<^verbatim>\<open>_read_file\<close> of the
  same path succeeds, shows the same path and the written size, and returns the text with its line
  endings read as newlines.
\<close>

lemma write_read_roundtrip:
  assumes "write_file sb ws args w = (Inr res, w')"
    and "dict_get args ''content'' = Some (JStr content)" and "utf8_decode content \<noteq> None"
  shows "\<exists>r. read_file sb ws args w' = (Inr r, w') \<and> rr_content r = read_newlines content \<and>
    rr_size r = length content \<and> dict_get res ''path'' = Some (JStr (rr_path r))"
  using assms(1)
proof (cases rule: write_file_cases)
  case refused
  then show ?thesis by simp
next
  case (written rel c base p overwrite w1 w2)
  have c: "c = content" using written(2) assms(2) by simp
  have added: "dirs_added base w w1" and rel: "nul \<notin> set rel" "\<not> is_absolute rel"
    and real: "realpath w1 (sb_links sb) [] (base @ path_parts rel) = Some p"
    using sandbox_resolve_result [OF written(3)] written(4) by (metis Inr_inject Pair_inject)+
  have path: "required_string args ''path'' w' = (Inr rel, w')"
    using written(1) by (simp add: required_string_Inr)
  have same: "same_links w w'" "same_links w1 w'"
    using written(16) same_links_trans [OF same_links_sym [OF dirs_added_links [OF added]]] by auto
  have d: "dirs_added (butlast p) w1 w2" by (rule mkdirs_added [OF written(11)])
  have dir: "w' (take k base) = Some Directory" if "0 < k" "k \<le> length base" for k
  proof -
    have "w2 (take k base) = Some Directory"
      using workspace_path_created [OF written(4) that] d unfolding dirs_added_def by (metis option.distinct(1))
    then show ?thesis using written(12) by (auto simp: written(14))
  qed
  have ws: "workspace_path sb ws True w' = (Inr base, w')"
    by (rule workspace_path_exists [OF written(4) same(1) dir])
  have "realpath w' (sb_links sb) [] (base @ path_parts rel) = Some p"
    using real realpath_same_links [OF same(2)] by simp
  moreover have stored: "w' p = Some (RegFile content)" by (simp add: written(14) c)
  ultimately have "sandbox_resolve sb ws rel True False True w' = (Inr p, w')"
    using ws rel written(6) by (simp add: sandbox_resolve_def act_bind_def is_within_def)
  then show ?thesis
    using path stored written(8,17) assms(3) display_path_same_links [OF ws same_links_refl written(6)]
    by (simp add: read_file_def act_bind_def act_return_def c)
qed

lemma write_read_roundtrip_witness:
  "\<exists>w' r. snd (write_file demo_sandbox ''w'' [(''path'', JStr ''in/a.md''), (''content'', JStr ''hi'')] demo_fs) = w' \<and>
     read_file demo_sandbox ''w'' [(''path'', JStr ''in/a.md''), (''content'', JStr ''hi'')] w' = (Inr r, w') \<and>
     rr_content r = ''hi'' \<and> rr_path r = ''d/a.md''"
proof -
  have "utf8_decode ''hi'' \<noteq> None" by (simp add: byte_def)
  moreover have "read_newlines ''hi'' = ''hi''" by (simp add: byte_def)
  ultimately show ?thesis using write_read_roundtrip [OF demo_write, of "''hi''"] demo_write by auto
qed

end
