(* ===== verification/Gateway_Properties.thy ===== *)
theory Gateway_Properties
  imports Gateway_Contract Tool_Files
begin

text \<open>
  \<^verbatim>\<open>V1Storage\<close> keeps the gateway's contract, and what follows for the tools: a tool runs only when it
  is permitted, at most once for an effect that cannot be reconciled, every receipt is that of a
  resolved action, and an observation is only made of a file that held still.
\<close>

section \<open>The storage keeps the contract\<close>

lemma transition_result:
  assumes "transition_action aid from status res err now d = Inr (r, d')"
  shows "find_action d' aid = Some r \<and> a_status r = status"
  using assms
proof (cases rule: transition_action_cases)
  case same
  then show ?thesis by simp
next
  case (moved row)
  have "find_action d' aid = Some (transition_row status res err now row)"
    using find_action_update [OF moved(1), of "transition_row status res err now" d'] moved(5)
    by (simp add: transition_row_def)
  then show ?thesis using moved(4) by (simp add: transition_row_def)
qed

lemma find_action_of_member:
  assumes "journal_ok d" and "r \<in> set (actions d)"
  shows "find_action d (a_id r) = Some r"
  using assms action_link.select_key_distinct unfolding find_action_def journal_ok_def by blast

lemma prepare_result:
  assumes "reachable sha d" and "prepare_action aid qid mid key tool h args v pre now d = Inr (r, d')"
  shows "find_action d' (a_id r) = Some r \<and> a_quest r = qid \<and> a_key r = key"
proof -
  have "r \<in> set (actions d')" "a_quest r = qid" "a_key r = key"
    using assms(2) by (cases rule: prepare_action_cases; simp)+
  then show ?thesis
    using find_action_of_member prepare_action_journal_ok [OF reachable_ok(2) [OF assms(1)] assms(2)] by blast
qed

lemma prepare_existing:
  assumes "reachable sha d" and r: "find_action d i = Some r"
    and prep: "prepare_action aid (a_quest r) mid (a_key r) tool h args v pre now d = Inr (r', d')"
  shows "r' = r \<and> d' = d"
proof -
  have j: "journal_ok d" using reachable_ok(2) [OF assms(1)] .
  have mem: "r \<in> set (actions d)" using find_action_in [OF r] by simp
  from prep show ?thesis
  proof (cases rule: prepare_action_cases)
    case replayed
    have "inj_on (\<lambda>r. (a_quest r, a_key r)) (set (actions d))"
      using j by (simp add: journal_ok_def distinct_map)
    then show ?thesis using replayed mem by (auto dest: inj_onD)
  next
    case (fresh q)
    then show ?thesis using mem by (auto simp: select_one_None_iff)
  qed
qed

lemma commit_result:
  assumes re: "reachable sha d" and com: "commit_action_with_event sha aid res ob now now' d = Inr (r, d')"
  shows "find_action d' aid = Some r \<and> a_status r = ActCommitted"
  using com
proof (cases rule: commit_cases)
  case replayed
  then show ?thesis by simp
next
  case (committed row ev d1 d2 d3)
  have "a_status row \<noteq> ActCommitted" using committed(2) by auto
  from commit_effect [OF reachable_ok(2) [OF re] reachable_ok(1) [OF re] com committed(1) this]
  show ?thesis using committed(7) by (auto simp: committed_row_def transition_row_def)
qed

lemma fail_result: "fail_action i err now d = Inr (r, d') \<Longrightarrow>
    find_action d' i = Some r \<and> a_status r = ActFailed"
  unfolding fail_action_def by (rule transition_result)

lemma unknown_result: "mark_action_unknown i err now d = Inr (r, d') \<Longrightarrow>
    find_action d' i = Some r \<and> a_status r = ActUnknownEffect"
  unfolding mark_action_unknown_def by (rule transition_result)

text \<open>What the calls of the gateway do to the store: operations that leave no receipt without its event.\<close>

definition receipted :: "(json \<Rightarrow> string) \<Rightarrow> db \<Rightarrow> db \<Rightarrow> bool" where
  "receipted sha d d' \<longleftrightarrow> (store_step sha)\<^sup>*\<^sup>* d d' \<and> orphans d' \<subseteq> orphans d"

lemma receipted_step:
  "store_step sha d d' \<Longrightarrow> store_ok sha d' \<and> grows d d' \<Longrightarrow> receipted sha d d'"
  by (auto simp: receipted_def grows_def)

lemma receipted_steps: "receipted sha d d' \<Longrightarrow> (store_step sha)\<^sup>*\<^sup>* d d'"
  by (simp add: receipted_def)

lemma v1_receipted:
  assumes "reachable sha d"
  shows "prepare_action aid qid mid key tool h args v pre now d = Inr (r, d') \<Longrightarrow> receipted sha d d'"
    and "mark_action_dispatched aid now d = Inr (r, d') \<Longrightarrow> receipted sha d d'"
    and "commit_action_with_event sha aid res ob now now' d = Inr (r, d') \<Longrightarrow> receipted sha d d'"
    and "fail_action aid err now d = Inr (r, d') \<Longrightarrow> receipted sha d d'"
    and "mark_action_unknown aid err' now d = Inr (r, d') \<Longrightarrow> receipted sha d d'"
proof -
  have ok: "store_ok sha d" by (rule reachable_store_ok [OF assms])
  show "prepare_action aid qid mid key tool h args v pre now d = Inr (r, d') \<Longrightarrow> receipted sha d d'"
    by (rule receipted_step, erule store_step.prepare, erule prepare_step, rule ok)
  show "commit_action_with_event sha aid res ob now now' d = Inr (r, d') \<Longrightarrow> receipted sha d d'"
    by (rule receipted_step, erule store_step.commit, erule commit_step, rule ok)
  show "mark_action_dispatched aid now d = Inr (r, d') \<Longrightarrow> receipted sha d d'"
    by (rule receipted_step, erule store_step.dispatch, unfold mark_action_dispatched_def, erule transition_step [OF _ ok])
      (auto intro: action_edge.intros)
  show "fail_action aid err now d = Inr (r, d') \<Longrightarrow> receipted sha d d'"
    by (rule receipted_step, erule store_step.fail, unfold fail_action_def, erule transition_step [OF _ ok])
      (auto intro: action_edge.intros)
  show "mark_action_unknown aid err' now d = Inr (r, d') \<Longrightarrow> receipted sha d d'"
    by (rule receipted_step, erule store_step.unknown, unfold mark_action_unknown_def, erule transition_step [OF _ ok])
      (auto intro: action_edge.intros)
qed

interpretation v1: action_store "v1_store sha now now'" "reachable sha" find_action "receipted sha"
  for sha now now'
proof unfold_locales
  fix d i r assume "reachable sha d" "find_action d i = Some r" "a_status r = ActPrepared"
  then have "mark_action_dispatched i now d = Inr (transition_row ActDispatched None None now r,
      d\<lparr>actions := update_where (\<lambda>r. a_id r = i) (transition_row ActDispatched None None now) (actions d)\<rparr>)"
    by (simp add: mark_action_dispatched_def transition_action_def)
  then show "\<exists>r' d'. gs_dispatched (v1_store sha now now') i d = Inr (r', d') \<and>
      find_action d' i = Some r' \<and> a_status r' = ActDispatched"
    using transition_result by (fastforce simp: v1_store_def mark_action_dispatched_def)
next
  show "receipted sha d d' \<Longrightarrow> receipted sha d' d'' \<Longrightarrow> receipted sha d d''" for d d' d''
    by (auto simp: receipted_def)
qed (auto simp: v1_store_def receipted_def [of _ d d for d]
  intro: steps_reachable row_run receipted_steps v1_receipted
  dest: find_action_in prepare_result prepare_existing commit_result fail_result unknown_result)

section \<open>A concrete call\<close>

definition demo_meta :: file_meta where
  "demo_meta = \<lparr>fm_mode = 33188, fm_size = 2, fm_mtime = 7, fm_ctime = 7, fm_ino = 5, fm_dev = 1,
     fm_attributes = 0\<rparr>"

definition demo_io :: observe_io where
  "demo_io = \<lparr>io_lstat = Some demo_meta, io_open = True, io_fstat = Some demo_meta,
     io_reads = [Some ''hi'', Some []], io_fstat_after = Some demo_meta,
     io_lstat_after = Some demo_meta, io_close = True\<rparr>"

definition send_error :: exc where
  "send_error = ToolExc ''SEND_FAILED'' ''no answer'' []"

definition demo_gateway :: gateway where
  "demo_gateway = \<lparr>gw_registry = [(''send'', \<lambda>ws args. act_raise send_error)],
     gw_sandbox = demo_sandbox, gw_allowlist = [''send''], gw_high_risk = [],
     gw_read_only = READ_ONLY_TOOLS\<rparr>"

definition demo_call :: "nat \<Rightarrow> gateway_call" where
  "demo_call v = \<lparr>gc_action = ''a9'', gc_quest = ''q1'', gc_milestone = ''m'', gc_key = ''k9'',
     gc_version = v, gc_workspace = ''w'', gc_tool = ''send'', gc_arguments = JObj [],
     gc_approved = False\<rparr>"

definition demo_state :: "db \<Rightarrow> db gw_state" where
  "demo_state d = \<lparr>st_store = d, st_fs = demo_fs, st_faults = []\<rparr>"

lemma demo_execute:
  assumes q: "find_quest d ''q1'' = Some row" and fresh: "find_action d ''a9'' = None"
    "select_one (\<lambda>r. a_quest r = ''q1'' \<and> a_key r = ''k9'') (actions d) = None"
    and tool: "map_of reg ''send'' = Some (\<lambda>ws args. act_raise (ToolExc c m []))"
    and c: "c \<notin> set KNOWN_NO_EFFECT_ERRORS"
  shows "\<exists>rc s'. execute (demo_gateway\<lparr>gw_registry := reg\<rparr>) (v1_store sha0 ''t'' ''t'') sha0 id (demo_io, demo_io)
      (demo_call (q_version row)) (demo_state d) = (Inr rc, s') \<and>
    rc_status rc = ActUnknownEffect \<and> rc_error rc = Some (tool_error_dict c m [])"
proof -
  let ?r = "\<lparr>a_id = ''a9'', a_quest = ''q1'', a_milestone = ''m'', a_key = ''k9'', a_tool = ''send'',
    a_args_hash = ''digest'', a_args = [], a_pre_effect = None, a_expected = q_version row,
    a_status = ActPrepared, a_result = None, a_error = None, a_created = ''t'', a_updated = ''t'',
    a_event = None\<rparr>"
  let ?d1 = "d\<lparr>actions := actions d @ [?r]\<rparr>"
  have prep: "prepare_action ''a9'' ''q1'' ''m'' ''k9'' ''send'' ''digest'' [] (q_version row) None ''t'' d =
      Inr (?r, ?d1)"
    using q fresh by (simp add: prepare_action_def Let_def)
  have find: "find_action ?d1 ''a9'' = Some ?r"
    using fresh(1) by (simp add: find_action_def select_one_append)
  let ?f = "transition_row ActDispatched None None ''t''"
  let ?d2 = "?d1\<lparr>actions := update_where (\<lambda>r. a_id r = ''a9'') ?f (actions ?d1)\<rparr>"
  have disp: "mark_action_dispatched ''a9'' ''t'' ?d1 = Inr (?f ?r, ?d2)"
    using find by (simp add: mark_action_dispatched_def transition_action_def)
  have find2: "find_action ?d2 ''a9'' = Some (?f ?r)"
    using find_action_update [OF find, of ?f ?d2] by (simp add: transition_row_def)
  let ?e = "tool_error_dict c m []"
  obtain d3 where unk: "mark_action_unknown ''a9'' (Some ?e) ''t'' ?d2 =
      Inr (transition_row ActUnknownEffect None (Some ?e) ''t'' (?f ?r), d3)"
    using find2 by (simp add: mark_action_unknown_def transition_action_def transition_row_def)
  have "execute (demo_gateway\<lparr>gw_registry := reg\<rparr>) (v1_store sha0 ''t'' ''t'') sha0 id (demo_io, demo_io)
      (demo_call (q_version row)) (demo_state d) =
    (Inr (receipt_of_row (transition_row ActUnknownEffect None (Some ?e) ''t'' (?f ?r))),
     (demo_state d)\<lparr>st_store := d3\<rparr>)"
    using prep disp unk tool c
    by (simp add: execute_def authorize_def demo_gateway_def demo_call_def demo_state_def act_bind_def
        on_fs_def on_store_def act_catch_def act_return_def act_raise_def pre_effect_hash_def
        v1_store_def continue_call_def dispatch_def hit_fault_def attempt_tool_def registry_execute_def
        unknown_receipt_def READ_ONLY_TOOLS_def stable_hash_def sha0_def)
  then show ?thesis by (simp add: receipt_of_row_def transition_row_def)
qed

section \<open>Properties\<close>

text \<open>
  Claim C29. A tool runs only when it may: if the outcome of a call depends on the registered tools at
  all, then the tool is on the allowlist, it is approved if it is a high-risk tool, and the action the
  store prepared for this very request is either not dispatched yet, or open and found safe to run
  again: a read-only tool, or a write of a file that was absent before and still is.
\<close>

theorem tool_runs_only_when_permitted:
  assumes "execute gw st sha bsha ios c s \<noteq> execute (gw\<lparr>gw_registry := reg\<rparr>) st sha bsha ios c s"
  shows "gc_tool c \<in> set (gw_allowlist gw) \<and> (gc_tool c \<in> set (gw_high_risk gw) \<longrightarrow> gc_approved c) \<and>
    (\<exists>args row s1. prepared_as gw st sha bsha c args row s s1 \<and>
       a_tool row = gc_tool c \<and> a_args_hash row = stable_hash sha (JObj args) \<and>
       (a_status row = ActPrepared \<or>
        (a_status row \<in> {ActDispatched, ActUnknownEffect} \<and> may_rerun gw c args row s1)))"
proof -
  obtain args row s1 where p: "prepared_as gw st sha bsha c args row s s1"
    using execute_differs [OF assms] by blast
  then have p': "prepared_as (gw\<lparr>gw_registry := reg\<rparr>) st sha bsha c args row s s1"
    by (simp add: prepared_as_def)
  have "continue_call gw st sha bsha ios c args row s1 \<noteq>
      continue_call (gw\<lparr>gw_registry := reg\<rparr>) st sha bsha ios c args row s1"
    using assms execute_prepared [OF p, of ios] execute_prepared [OF p', of ios] by simp
  from continue_depends [OF this] show ?thesis using p by (auto simp: prepared_as_def)
qed

text \<open>The demonstration call on a reachable store, and the same call with another tool.\<close>

definition other_tools :: registry where
  "other_tools = [(''send'', \<lambda>ws args. act_raise (ToolExc ''OTHER'' [] []))]"

lemma demo_call_runs:
  "\<exists>d v rc s. reachable sha0 d \<and>
     execute demo_gateway (v1_store sha0 ''t'' ''t'') sha0 id (demo_io, demo_io) (demo_call v) (demo_state d) =
       (Inr rc, s) \<and> rc_status rc = ActUnknownEffect \<and>
     execute demo_gateway (v1_store sha0 ''t'' ''t'') sha0 id (demo_io, demo_io) (demo_call v) (demo_state d) \<noteq>
       execute (demo_gateway\<lparr>gw_registry := other_tools\<rparr>) (v1_store sha0 ''t'' ''t'') sha0 id
         (demo_io, demo_io) (demo_call v) (demo_state d)"
proof -
  obtain d row where d: "reachable sha0 d" "find_quest d ''q1'' = Some row" "actions d = []"
    using demo_empty_journal by blast
  then have fresh: "find_action d ''a9'' = None"
    "select_one (\<lambda>r. a_quest r = ''q1'' \<and> a_key r = ''k9'') (actions d) = None"
    by (simp_all add: find_action_def)
  let ?send = "[(''send'', \<lambda>ws args. act_raise (ToolExc ''SEND_FAILED'' ''no answer'' []))] :: registry"
  have gw: "demo_gateway\<lparr>gw_registry := ?send\<rparr> = demo_gateway"
    by (simp add: demo_gateway_def send_error_def)
  obtain rc s1 where 1: "execute demo_gateway (v1_store sha0 ''t'' ''t'') sha0 id (demo_io, demo_io)
      (demo_call (q_version row)) (demo_state d) = (Inr rc, s1)" "rc_status rc = ActUnknownEffect"
    "rc_error rc = Some (tool_error_dict ''SEND_FAILED'' ''no answer'' [])"
    using demo_execute [OF d(2) fresh, of ?send "''SEND_FAILED''" "''no answer''"] unfolding gw
    by (auto simp: KNOWN_NO_EFFECT_ERRORS_def)
  obtain rc' s2 where 2: "execute (demo_gateway\<lparr>gw_registry := other_tools\<rparr>)
      (v1_store sha0 ''t'' ''t'') sha0 id (demo_io, demo_io) (demo_call (q_version row)) (demo_state d) = (Inr rc', s2)"
    "rc_error rc' = Some (tool_error_dict ''OTHER'' [] [])"
    using demo_execute [OF d(2) fresh, of other_tools "''OTHER''" "[]"]
    by (auto simp: KNOWN_NO_EFFECT_ERRORS_def other_tools_def)
  have "rc \<noteq> rc'" using 1(3) 2(2) by (auto simp: tool_error_dict_def error_dict_def)
  then show ?thesis using d(1) 1(1,2) 2(1) by (intro exI [of _ d] exI [of _ "q_version row"]) auto
qed

theorem tool_runs_only_when_permitted_witness:
  "\<exists>d v args row s1. prepared_as demo_gateway (v1_store sha0 ''t'' ''t'') sha0 id (demo_call v) args row
       (demo_state d) s1 \<and> a_status row \<in> {ActPrepared, ActDispatched, ActUnknownEffect}"
proof -
  obtain d v where "execute demo_gateway (v1_store sha0 ''t'' ''t'') sha0 id (demo_io, demo_io) (demo_call v) (demo_state d) \<noteq>
       execute (demo_gateway\<lparr>gw_registry := other_tools\<rparr>) (v1_store sha0 ''t'' ''t'') sha0 id
         (demo_io, demo_io) (demo_call v) (demo_state d)"
    using demo_call_runs by blast
  from tool_runs_only_when_permitted [OF this] show ?thesis by blast
qed

text \<open>
  Claim C9. An effect happens at most once: let a call of a tool that is neither read-only nor the file
  writer reach its tool (its outcome depends on the registered tools). Then, whatever the call
  returned and whatever operations run on the store afterwards, every later call under the same key of
  the Quest leaves the tools alone: its outcome is the same for any registry.
\<close>

theorem effect_at_most_once:
  assumes "reachable sha (st_store s)"
    and "execute gw (v1_store sha now now') sha bsha ios c s \<noteq>
      execute (gw\<lparr>gw_registry := reg\<rparr>) (v1_store sha now now') sha bsha ios c s"
    and "execute gw (v1_store sha now now') sha bsha ios c s = (x, s')"
    and "(store_step sha)\<^sup>*\<^sup>* (st_store s') (st_store s2)"
    and "gc_quest c2 = gc_quest c" "gc_key c2 = gc_key c"
    and "gc_tool c2 \<notin> set (gw_read_only gw)" "gc_tool c2 \<noteq> ''write_file''"
  shows "execute gw (v1_store sha t t') sha bsha ios2 c2 s2 =
    execute (gw\<lparr>gw_registry := reg2\<rparr>) (v1_store sha t t') sha bsha ios2 c2 s2"
proof -
  obtain i r where r: "find_action (st_store s') i = Some r" "a_quest r = gc_quest c"
    "a_key r = gc_key c" "a_status r \<noteq> ActPrepared"
    using v1.execute_uses [OF assms(1-3)] by blast
  have re: "reachable sha (st_store s')"
    using v1.moves_execute movesD assms(1,3) steps_reachable receipted_steps by blast
  obtain r2 where r2: "find_action (st_store s2) i = Some r2" "row_follows r r2"
    using row_run [OF assms(4) re r(1)] by blast
  then have "a_quest r2 = gc_quest c2" "a_key r2 = gc_key c2" "a_status r2 \<noteq> ActPrepared"
    using r assms(5,6) edges_not_prepared by (auto simp: row_follows_def)
  then show ?thesis
    using v1.execute_again [OF steps_reachable [OF assms(4) re] r2(1)] assms(7,8) by blast
qed

theorem effect_at_most_once_witness:
  "\<exists>v s2 reg. execute demo_gateway (v1_store sha0 ''t'' ''t'') sha0 id (demo_io, demo_io) (demo_call v) s2 =
     execute (demo_gateway\<lparr>gw_registry := []\<rparr>) (v1_store sha0 ''t'' ''t'') sha0 id
       (demo_io, demo_io) (demo_call v) s2"
proof -
  obtain d v rc s where d: "reachable sha0 (st_store (demo_state d))"
    "execute demo_gateway (v1_store sha0 ''t'' ''t'') sha0 id (demo_io, demo_io) (demo_call v) (demo_state d) \<noteq>
       execute (demo_gateway\<lparr>gw_registry := other_tools\<rparr>) (v1_store sha0 ''t'' ''t'') sha0 id
         (demo_io, demo_io) (demo_call v) (demo_state d)"
    "execute demo_gateway (v1_store sha0 ''t'' ''t'') sha0 id (demo_io, demo_io) (demo_call v) (demo_state d) =
       (Inr rc, s)"
    using demo_call_runs by (auto simp: demo_state_def)
  have "gc_tool (demo_call v) \<notin> set (gw_read_only demo_gateway)" "gc_tool (demo_call v) \<noteq> ''write_file''"
    by (simp_all add: demo_call_def demo_gateway_def READ_ONLY_TOOLS_def)
  from effect_at_most_once [OF d rtranclp.rtrancl_refl refl refl this, of "''t''" "''t''" "(demo_io, demo_io)" "[]"]
  show ?thesis by blast
qed



lemma read_loop_bound: "read_loop n rs = Some p \<Longrightarrow> length p \<le> n"
proof (induction n rs arbitrary: p rule: read_loop.induct)
  case (3 n c rs)
  show ?case
  proof (cases "n = 0 \<or> c = []")
    case True
    then show ?thesis using 3(2) by simp
  next
    case False
    then obtain rest where "read_loop (n - length (take n c)) rs = Some rest" "p = take n c @ rest"
      using 3(2) by auto
    then show ?thesis using 3(1) [OF False, of rest] by auto
  qed
qed (auto split: if_splits)

lemma observe_attempt_payload:
  assumes "observe_attempt n io = Payload p"
  shows "\<exists>m m1 m2 m3. io_lstat io = Some m \<and> io_fstat io = Some m1 \<and> io_fstat_after io = Some m2 \<and>
    io_lstat_after io = Some m3 \<and> safe_regular_metadata m \<and> safe_regular_metadata m1 \<and>
    safe_regular_metadata m2 \<and> safe_regular_metadata m3 \<and>
    same_file m m3 \<and> same_file m1 m2 \<and> same_opened_regular_file m m1 \<and>
    read_loop (n + 1) (io_reads io) = Some p"
  using assms by (auto simp: observe_attempt_def split: option.splits if_splits)

lemma observe_loop_two:
  "observe_loop n [a, b] = Some p \<Longrightarrow> \<exists>io \<in> {a, b}. observe_attempt n io = Payload p"
  by (auto split: attempt.splits)

lemma resolve_unchanged: "sandbox_resolve sb ws rel me ed False w = (r, w') \<Longrightarrow> w' = w"
proof -
  assume run: "sandbox_resolve sb ws rel me ed False w = (r, w')"
  obtain r1 w1 where ws: "workspace_path sb ws False w = (r1, w1)" by (cases "workspace_path sb ws False w") auto
  have "w1 = w" using workspace_path_result [OF ws] by simp
  moreover have "w' = w1"
    using run ws by (auto simp: sandbox_resolve_def act_bind_def split: sum.splits if_splits option.splits)
  ultimately show ?thesis by simp
qed

lemma display_unchanged: "display_path sb ws p w = (r, w') \<Longrightarrow> w' = w"
proof -
  assume run: "display_path sb ws p w = (r, w')"
  obtain r1 w1 where ws: "workspace_path sb ws False w = (r1, w1)" by (cases "workspace_path sb ws False w") auto
  have "w1 = w" using workspace_path_result [OF ws] by simp
  moreover have "w' = w1"
    using run ws by (auto simp: display_path_def act_bind_def act_return_def act_raise_def Let_def
        split: sum.splits if_splits)
  ultimately show ?thesis by simp
qed

text \<open>All the bytes the reads of a descriptor give up to the end of the file, unless one fails.\<close>

fun read_to_end :: "string option list \<Rightarrow> string option" where
  "read_to_end [] = Some []"
| "read_to_end (None # rs) = None"
| "read_to_end (Some c # rs) = (if c = [] then Some [] else map_option (\<lambda>rest. c @ rest) (read_to_end rs))"

lemma read_loop_to_end: "read_loop n rs = Some p \<Longrightarrow> length p < n \<Longrightarrow> read_to_end rs = Some p"
proof (induction n rs arbitrary: p rule: read_loop.induct)
  case (3 n c rs)
  show ?case
  proof (cases "c = []")
    case True
    then show ?thesis using 3(2) by simp
  next
    case False
    then obtain rest where rest: "read_loop (n - length (take n c)) rs = Some rest" "p = take n c @ rest"
      using 3(2,3) by (auto split: if_splits)
    then have "take n c = c" "length rest < n - length (take n c)" using 3(3) by auto
    then show ?thesis using 3(1) [OF _ rest(1)] False rest 3(3) by auto
  qed
qed (auto split: if_splits)

text \<open>
  Claim C30. An observation is only made of a file that held still: when \<^verbatim>\<open>_write_file_observation\<close>
  returns an observation, one of at most two attempts read the file through a descriptor whose metadata,
  like the path's, was that of the same regular file before and after. What it read is the
  requested content, and it read the file to its end, unless another text has the same digest; the
  observation shows the digest and the number of the bytes read, and calls the change created when the file
  was absent before the write, unchanged when its digest before was the digest now, and modified otherwise. No
  observation is made for other tools.
\<close>

theorem observation_of_a_stable_file:
  assumes "write_file_observation gw sha bsha ios row ws args w = (Inr ob, w')"
  shows "w' = w \<and> (ob = None \<longleftrightarrow> a_tool row \<noteq> ''write_file'') \<and>
    (\<forall>d. ob = Some d \<longrightarrow> (\<exists>rel content io payload m m1 m2 m3.
      dict_get args ''path'' = Some (JStr rel) \<and> dict_get args ''content'' = Some (JStr content) \<and>
      io \<in> {fst ios, snd ios} \<and>
      read_loop (length content + 1) (io_reads io) = Some payload \<and> bsha payload = bsha content \<and>
      (payload = content \<longrightarrow> read_to_end (io_reads io) = Some content) \<and>
      io_lstat io = Some m \<and> io_fstat io = Some m1 \<and> io_fstat_after io = Some m2 \<and>
      io_lstat_after io = Some m3 \<and> safe_regular_metadata m \<and> safe_regular_metadata m1 \<and>
      safe_regular_metadata m2 \<and> safe_regular_metadata m3 \<and>
      same_file m m3 \<and> same_file m1 m2 \<and> same_opened_regular_file m m1 \<and>
      dict_get d ''after_sha256'' = Some (JStr (bsha content)) \<and>
      dict_get d ''after_size_bytes'' = Some (JInt (int (length payload))) \<and>
      dict_get d ''change_kind'' = Some (JStr (
        if a_pre_effect row = Some ''absent'' then ''created''
        else if is_sha256 (bsha content) \<and> a_pre_effect row = Some (bsha content) then ''unchanged''
        else ''modified''))))"
proof (cases "a_tool row = ''write_file''")
  case False
  then show ?thesis using assms by (auto simp: write_file_observation_def)
next
  case True
  obtain rel content where args: "dict_get args ''path'' = Some (JStr rel)"
    "dict_get args ''content'' = Some (JStr content)"
    using assms True by (auto simp: write_file_observation_def split: option.splits json.splits)
  obtain p w1 where res: "sandbox_resolve (gw_sandbox gw) ws rel True False False w = (Inr p, w1)"
    and rest: "(case observe_loop (length content) [fst ios, snd ios] of
              None \<Rightarrow> act_raise (unsafe_observation
                ''Written file is missing, unsafe, or unstable for observation'' [(''path'', JStr rel)])
            | Some payload \<Rightarrow>
                if bsha payload \<noteq> bsha content
                then act_raise (ToolExc ''POST_WRITE_HASH_MISMATCH''
                  ''Written file bytes do not match the requested content'' [(''path'', JStr rel)])
                else act_bind (display_path (gw_sandbox gw) ws p) (\<lambda>shown. act_return (Some
                  [(''observation_id'', JStr (stable_hash sha
                      (JObj [(''action_id'', JStr (a_id row)), (''schema'', JInt 1)]))),
                   (''relative_path'', JStr shown),
                   (''before_sha256'', before_digest (a_pre_effect row)),
                   (''after_sha256'', JStr (bsha payload)),
                   (''after_size_bytes'', JInt (int (length payload))),
                   (''change_kind'', JStr (change_kind (a_pre_effect row) (bsha payload))),
                   (''status'', JStr ''observed'')]))) w1 = (Inr ob, w')"
    using assms True args by (auto simp: write_file_observation_def act_bind_Inr_iff)
  obtain payload where p: "observe_loop (length content) [fst ios, snd ios] = Some payload"
    "bsha payload = bsha content"
    using rest by (auto split: option.splits if_splits)
  obtain shown where shown: "display_path (gw_sandbox gw) ws p w1 = (Inr shown, w')"
    and ob: "ob = Some
        [(''observation_id'', JStr (stable_hash sha (JObj [(''action_id'', JStr (a_id row)), (''schema'', JInt 1)]))),
         (''relative_path'', JStr shown), (''before_sha256'', before_digest (a_pre_effect row)),
         (''after_sha256'', JStr (bsha payload)), (''after_size_bytes'', JInt (int (length payload))),
         (''change_kind'', JStr (change_kind (a_pre_effect row) (bsha payload))),
         (''status'', JStr ''observed'')]"
    using rest p by (auto simp: act_bind_Inr_iff)
  have "w' = w" using resolve_unchanged [OF res] display_unchanged [OF shown] by simp
  moreover obtain io where io: "io \<in> {fst ios, snd ios}" "observe_attempt (length content) io = Payload payload"
    using observe_loop_two [OF p(1)] by blast
  moreover have "payload = content \<longrightarrow> read_to_end (io_reads io) = Some content"
    using observe_attempt_payload [OF io(2)] read_loop_to_end by force
  moreover have "change_kind (a_pre_effect row) (bsha payload) =
      (if a_pre_effect row = Some ''absent'' then ''created''
       else if is_sha256 (bsha content) \<and> a_pre_effect row = Some (bsha content) then ''unchanged''
       else ''modified'')"
    by (auto simp: change_kind_def p(2) split: option.splits)
  then have "dict_get (the ob) ''after_sha256'' = Some (JStr (bsha content))"
    "dict_get (the ob) ''after_size_bytes'' = Some (JInt (int (length payload)))"
    "dict_get (the ob) ''change_kind'' = Some (JStr (if a_pre_effect row = Some ''absent'' then ''created''
       else if is_sha256 (bsha content) \<and> a_pre_effect row = Some (bsha content) then ''unchanged''
       else ''modified''))"
    by (simp_all add: ob p(2))
  ultimately show ?thesis
    using True args p(2) ob observe_attempt_payload [OF io(2)] by (metis option.distinct(1) option.sel)
qed

text \<open>The demonstration workspace after the write, and the action of the write.\<close>

definition demo_row :: action_row where
  "demo_row = \<lparr>a_id = ''a'', a_quest = ''q1'', a_milestone = ''m'', a_key = ''k'', a_tool = ''write_file'',
     a_args_hash = ''h'', a_args = [], a_pre_effect = Some ''absent'', a_expected = 1,
     a_status = ActDispatched, a_result = None, a_error = None, a_created = ''t'', a_updated = ''t'',
     a_event = None\<rparr>"

lemma demo_observation:
  "\<exists>d. write_file_observation demo_gateway sha0 id (demo_io, demo_io) demo_row ''w''
     [(''path'', JStr ''in/a.md''), (''content'', JStr ''hi'')]
     (demo_fs([''s'', ''w'', ''d'', ''a.md''] \<mapsto> RegFile ''hi'')) =
     (Inr (Some d), demo_fs([''s'', ''w'', ''d'', ''a.md''] \<mapsto> RegFile ''hi''))"
proof -
  have "observe_attempt 2 demo_io = Payload ''hi''"
    by (simp add: observe_attempt_def demo_io_def demo_meta_def safe_regular_metadata_def
        same_opened_regular_file_def same_file_def take_Cons')
  then have "observe_loop (length ''hi'') [demo_io, demo_io] = Some ''hi''"
    by (simp add: numeral_2_eq_2)
  moreover have "sandbox_resolve demo_sandbox ''w'' ''in/a.md'' True False False
      (demo_fs([''s'', ''w'', ''d'', ''a.md''] \<mapsto> RegFile ''hi'')) =
    (Inr [''s'', ''w'', ''d'', ''a.md''], demo_fs([''s'', ''w'', ''d'', ''a.md''] \<mapsto> RegFile ''hi''))"
    by (simp add: sandbox_resolve_def workspace_path_def demo_sandbox_def demo_fs_def path_parts_def
        is_absolute_def starts_with_def realpath.simps nul_def is_within_def act_bind_def)
  moreover have "display_path demo_sandbox ''w'' [''s'', ''w'', ''d'', ''a.md'']
      (demo_fs([''s'', ''w'', ''d'', ''a.md''] \<mapsto> RegFile ''hi'')) =
      (Inr ''d/a.md'', demo_fs([''s'', ''w'', ''d'', ''a.md''] \<mapsto> RegFile ''hi''))"
    by (rule demo_display)
  ultimately show ?thesis
    by (simp add: write_file_observation_def demo_row_def demo_gateway_def act_bind_def act_return_def)
qed

theorem observation_of_a_stable_file_witness:
  "\<exists>d w. write_file_observation demo_gateway sha0 id (demo_io, demo_io) demo_row ''w''
     [(''path'', JStr ''in/a.md''), (''content'', JStr ''hi'')] w = (Inr (Some d), w) \<and>
   read_to_end (io_reads demo_io) = Some ''hi'' \<and> dict_get d ''after_sha256'' = Some (JStr ''hi'') \<and>
   dict_get d ''after_size_bytes'' = Some (JInt 2) \<and> dict_get d ''change_kind'' = Some (JStr ''created'')"
proof -
  let ?w = "demo_fs([''s'', ''w'', ''d'', ''a.md''] \<mapsto> RegFile ''hi'')"
  obtain d where d: "write_file_observation demo_gateway sha0 id (demo_io, demo_io) demo_row ''w''
     [(''path'', JStr ''in/a.md''), (''content'', JStr ''hi'')] ?w = (Inr (Some d), ?w)"
    using demo_observation by blast
  have "a_pre_effect demo_row = Some ''absent''" by (simp add: demo_row_def)
  from observation_of_a_stable_file [OF d] this
  have "read_to_end (io_reads demo_io) = Some ''hi'' \<and> dict_get d ''after_sha256'' = Some (JStr ''hi'') \<and>
      dict_get d ''after_size_bytes'' = Some (JInt 2) \<and> dict_get d ''change_kind'' = Some (JStr ''created'')"
    by auto
  with d show ?thesis by blast
qed

end
