(* ===== verification/Provenance_Ledger.thy ===== *)
theory Provenance_Ledger
  imports Store_Properties
begin

text \<open>
  The invariants of the snapshot and provenance tables in every reachable store: a complete snapshot
  holds exactly what its root hash says, a Quest has at most one baseline, and a provenance row is
  backed by the snapshots and the receipt it claims.
\<close>

section \<open>What the other operations leave alone\<close>

definition same_shadow :: "db \<Rightarrow> db \<Rightarrow> bool" where
  "same_shadow d d' \<longleftrightarrow> snapshots d' = snapshots d \<and> snapshot_entries d' = snapshot_entries d \<and>
     provenances d' = provenances d \<and> set (observations d) \<subseteq> set (observations d')"

lemma same_shadow_refl [simp]: "same_shadow d d"
  by (simp add: same_shadow_def)

lemma same_shadow_trans: "same_shadow d d' \<Longrightarrow> same_shadow d' d'' \<Longrightarrow> same_shadow d d''"
  by (auto simp: same_shadow_def)

lemma append_locked_shadow:
  "append_locked sha qid ty patch v schema now d = Inr (ev, d') \<Longrightarrow> same_shadow d d'"
  by (auto simp: append_locked_def Let_def same_shadow_def split: if_splits option.splits sum.splits)

lemma append_all_shadow:
  "append_all sha qid es v now d = Inr (evs, d') \<Longrightarrow> same_shadow d d'"
proof (induction sha qid es v now d arbitrary: evs rule: append_all.induct)
  case (2 sha qid ty patch es v now d)
  then show ?case
    by (auto split: sum.splits prod.splits dest!: append_locked_shadow intro: same_shadow_trans)
qed simp

lemma insert_contract_shadow: "insert_contract qid c now d = Inr d' \<Longrightarrow> same_shadow d d'"
  by (auto simp: insert_contract_def Let_def same_shadow_def split: if_splits)

lemma insert_plan_shadow: "insert_plan qid p ms now d = Inr d' \<Longrightarrow> same_shadow d d'"
  by (auto simp: insert_plan_def Let_def same_shadow_def split: if_splits)

lemma insert_record_shadow: "insert_record t i qid data now d = Inr d' \<Longrightarrow> same_shadow d d'"
  by (cases t) (auto simp: insert_record_def same_shadow_def split: if_splits)

lemma record_data_shadow: "record_data t i qid data now d = Inr (r, d') \<Longrightarrow> same_shadow d d'"
  by (auto simp: record_data_def insert_record_shadow split: sum.splits option.splits if_splits)

lemma put_lease_shadow: "put_lease qid owner t d = Inr d' \<Longrightarrow> same_shadow d d'"
  by (auto simp: put_lease_def same_shadow_def split: if_splits)

lemma adopt_plan_shadow: "adopt_plan qid ms c p now d = Inr d' \<Longrightarrow> same_shadow d d'"
  by (induction qid ms c p now d rule: adopt_plan.induct)
    (auto simp: result_simps intro: same_shadow_trans dest!: insert_contract_shadow insert_plan_shadow)

lemma transition_action_shadow:
  "transition_action aid from st res err now d = Inr (row, d') \<Longrightarrow> same_shadow d d'"
  by (auto simp: transition_action_def same_shadow_def split: option.splits if_splits)

lemma insert_observation_shadow:
  "insert_observation ob aid qid e now d = Inr d' \<Longrightarrow> same_shadow d d'"
  by (auto simp: insert_observation_def Let_def same_shadow_def split: option.splits if_splits)

lemma receipt_event_shadow: "receipt_event sha row res now d = Inr (ev, d') \<Longrightarrow> same_shadow d d'"
  by (auto simp: receipt_event_def dest!: append_locked_shadow split: option.splits)

lemma link_action_shadow: "link_action aid e d = Inr d' \<Longrightarrow> same_shadow d d'"
  by (auto simp: link_action_def same_shadow_def split: if_splits)

lemma commit_shadow:
  assumes "commit_action_with_event sha aid res ob now now' d = Inr (row, d')"
  shows "same_shadow d d'"
  using assms
proof (cases rule: commit_cases)
  case replayed
  then show ?thesis by simp
next
  case (committed row0 ev d1 d2 d3)
  have "same_shadow d d1" by (simp add: committed(3) same_shadow_def)
  moreover have "same_shadow d1 d2" by (rule receipt_event_shadow [OF committed(4)])
  moreover have "same_shadow d2 d3" by (rule link_action_shadow [OF committed(5)])
  moreover have "same_shadow d3 d'" using committed(6) insert_observation_shadow by auto
  ultimately show ?thesis using same_shadow_trans by blast
qed

lemma create_draft_shadow:
  assumes "create_draft sha qid contract p ws route st now d = Inr (s, d')"
  shows "same_shadow d d'"
proof -
  let ?d1 = "d\<lparr>quests := quests d @ [\<lparr>q_id = qid, q_state = [], q_version = 0, q_status = JStr st,
      q_created = now, q_updated = now\<rparr>]\<rparr>"
  obtain ms d2 d3 ev where "insert_contract qid contract now ?d1 = Inr d2"
    "insert_plan qid p ms now d2 = Inr d3"
    "append_locked sha qid ''QuestDrafted'' (initial_state qid contract p ms ws route st now)
      0 EVENT_SCHEMA_VERSION now d3 = Inr (ev, d')"
    using assms by (auto simp: create_draft_def Let_def result_simps split: sum.splits if_splits)
  then have "same_shadow ?d1 d'"
    using insert_contract_shadow insert_plan_shadow append_locked_shadow same_shadow_trans by meson
  then show ?thesis by (simp add: same_shadow_def)
qed

lemma review_shadow:
  assumes "begin_artifact_review sha qid rid man key dec nt v ty patch final now d = Inr (r, d')"
  shows "same_shadow d d'"
proof (cases "find_review d qid")
  case (Some x)
  then show ?thesis using assms by (simp add: begin_artifact_review_def)
next
  case None
  let ?d1 = "d\<lparr>reviews := reviews d @ [\<lparr>rv_quest = qid, rv_id = rid, rv_manifest = man, rv_key = key,
      rv_decision = dec, rv_note = nt, rv_created = now, rv_completed = None\<rparr>]\<rparr>"
  obtain ev d2 where "append_locked sha qid ty patch v EVENT_SCHEMA_VERSION now ?d1 = Inr (ev, d2)"
    and "d' = d2 \<or> (\<exists>v' ty' p' ev'. append_locked sha qid ty' p' v' EVENT_SCHEMA_VERSION now d2 = Inr (ev', d'))"
    using assms None
    by (fastforce simp: begin_artifact_review_def Let_def result_simps split: if_splits option.splits)
  then have "same_shadow ?d1 d2" "same_shadow d2 d'" using append_locked_shadow by auto
  then have "same_shadow ?d1 d'" by (rule same_shadow_trans)
  then show ?thesis by (simp add: same_shadow_def)
qed

lemma discard_shadow: "finalize_artifact_discard sha qid v now d = Inr (r, d') \<Longrightarrow> same_shadow d d'"
  by (auto simp: finalize_artifact_discard_def result_simps same_shadow_def
      dest!: append_locked_shadow split: option.splits if_splits)

lemma apply_decision_shadow:
  assumes "apply_decision sha qid i data v kind es c p now d = Inr (s, d')"
  shows "same_shadow d d'"
  using assms
  by (auto simp: apply_decision_def result_simps decision_conflict_Inr split: option.splits if_splits
      dest!: insert_record_shadow adopt_plan_shadow append_all_shadow intro: same_shadow_trans)

lemma import_legacy_shadow: "import_legacy_quest sha rp flo old now d = Inr (b, d') \<Longrightarrow> same_shadow d d'"
  by (auto simp: import_legacy_quest_def Let_def result_simps same_shadow_def
      dest!: append_locked_shadow split: if_splits)

lemma repair_rows_shadow: "repair_rows sha mentions rows now d = Inr d' \<Longrightarrow> same_shadow d d'"
proof (induction sha mentions rows now d rule: repair_rows.induct)
  case (2 sha mentions row rows now d)
  show ?case
    using 2(2) "2.IH"
    by (auto simp: result_simps receipt_event_def split: list.splits option.splits
        dest!: link_action_shadow append_locked_shadow intro: same_shadow_trans)
qed simp

text \<open>A step leaves the tables alone, or stores a snapshot, or freezes the artifacts of a Quest.\<close>

lemma shadow_step:
  assumes "store_step sha d d'"
  obtains (other) "same_shadow d d'"
  | (snapshot) i qid kind ws v sq now row where
      "insert_workspace_snapshot sha i qid kind ws v sq now d = Inr (row, d')"
  | (freeze) qid rid man dig i ws prov v now now' fin d1 d2 ev where
      "insert_workspace_snapshot sha i qid ''final'' ws (Some v) (Some (v + 1)) now' d = Inr (fin, d1)"
      "check_all (check_manifest_item d1 i fin prov) man = Inr ()"
      "insert_provenances qid man i now' prov d1 = Inr d2"
      "append_locked sha qid ''ArtifactReviewRequested'' (review_patch rid dig man now) v
         EVENT_SCHEMA_VERSION now d2 = Inr (ev, d')"
  using assms
proof cases
  case (baseline i qid owner v ws sq clock now row)
  then have "insert_workspace_snapshot sha i qid ''baseline'' ws (Some v) sq now d = Inr (row, d')"
    by (auto simp: save_baseline_snapshot_def result_simps split: option.splits if_splits)
  then show thesis by (rule that(2))
next
  case (legacy i qid owner v sq clock now row)
  then have "\<exists>ws. insert_workspace_snapshot sha i qid ''baseline'' ws (Some v) sq now d = Inr (row, d')"
    by (auto simp: record_legacy_unobserved_baseline_def result_simps split: option.splits if_splits)
  then show thesis using that(2) by blast
next
  case (final i qid ws v' sq now row)
  then have "insert_workspace_snapshot sha i qid ''final'' ws v' sq now d = Inr (row, d')"
    by (auto simp: save_final_snapshot_def split: if_splits)
  then show thesis by (rule that(2))
next
  case (freeze qid owner rid man dig i ws prov v clock now now' ev)
  then show thesis using that(3) by (rule request_review_cases)
next
  case (commit_only aid res now row)
  then show thesis using that(1) transition_action_shadow unfolding commit_action_def by blast
next
  case (repair mentions now)
  then show thesis using that(1) repair_rows_shadow unfolding repair_committed_action_events_def by blast
next
  case (import_old rp flo old now b)
  then show thesis using that(1) import_legacy_shadow by blast
next
  case (draft qid contract p ws route st now s)
  then show thesis using that(1) create_draft_shadow by blast
next
  case (append qid ty patch v schema now ev)
  then show thesis using that(1) append_locked_shadow unfolding append_event_def by blast
next
  case (group qid es v now evs)
  then show thesis using that(1) append_all_shadow unfolding append_events_def by blast
next
  case (contract qid c v ty st now ev)
  then show thesis
    by (intro that(1)) (auto simp: store_contract_version_def result_simps split: option.splits if_splits
      dest!: insert_contract_shadow append_locked_shadow intro: same_shadow_trans)
next
  case (plan qid p v now now' ev)
  then show thesis
  proof (cases rule: store_plan_cases)
    case (1 s ms ms' row d1)
    then show thesis using that(1) insert_plan_shadow append_locked_shadow same_shadow_trans by blast
  qed
next
  case (decide qid i data v kind es c p now s)
  then show thesis using that(1) apply_decision_shadow by blast
next
  case (checkpoint qid now r)
  then show thesis
    by (intro that(1)) (auto simp: save_checkpoint_def Let_def same_shadow_def split: option.splits if_splits)
next
  case (prepare aid qid mid key tool h args v pre now row)
  then show thesis
    by (intro that(1)) (auto simp: prepare_action_def Let_def same_shadow_def split: option.splits if_splits)
next
  case (dispatch aid now row)
  then show thesis using that(1) transition_action_shadow unfolding mark_action_dispatched_def by blast
next
  case (commit aid res ob now now' row)
  then show thesis using that(1) commit_shadow by blast
next
  case (fail aid err now row)
  then show thesis using that(1) transition_action_shadow unfolding fail_action_def by blast
next
  case (unknown aid err' now row)
  then show thesis using that(1) transition_action_shadow unfolding mark_action_unknown_def by blast
next
  case (startup now n)
  then show thesis
    by (intro that(1)) (auto simp: mark_dispatched_actions_unknown_def same_shadow_def)
next
  case (observe oid qid aid path e b a n k st now)
  then show thesis
    by (intro that(1)) (auto simp: append_tool_file_observation_def dest!: insert_observation_shadow
      split: option.splits if_splits)
next
  case (entry t i qid data now r)
  then show thesis using that(1) record_data_shadow by blast
next
  case (acquire qid owner ttl clock b)
  then show thesis
    by (intro that(1)) (auto simp: acquire_lease_def result_simps dest!: put_lease_shadow
      split: if_splits option.splits)
next
  case (admit qid owner ttl v adm clock now r)
  then show thesis
    by (intro that(1)) (auto simp: admit_execution_def result_simps dest!: put_lease_shadow append_locked_shadow
      intro: same_shadow_trans split: if_splits option.splits)
next
  case (renew qid owner ttl clock b)
  then show thesis
    by (intro that(1)) (auto simp: renew_lease_def Let_def same_shadow_def split: if_splits)
next
  case (release qid owner b)
  then show thesis by (intro that(1)) (auto simp: release_lease_def Let_def same_shadow_def)
next
  case (acquire_resource key qid owner ttl clock b)
  then show thesis
    by (intro that(1)) (auto simp: acquire_resource_lease_def put_resource_lease_def result_simps
      same_shadow_def split: if_splits option.splits)
next
  case (release_resource key qid owner b)
  then show thesis by (intro that(1)) (auto simp: release_resource_lease_def Let_def same_shadow_def)
next
  case (clear n)
  then show thesis by (intro that(1)) (auto simp: clear_runtime_leases_on_startup_def same_shadow_def)
next
  case (review qid rid man key dec nt v ty patch final now r)
  then show thesis using that(1) review_shadow by blast
next
  case (discard qid v now r)
  then show thesis using that(1) discard_shadow by blast
qed

section \<open>The invariant\<close>

definition entry_of_row :: "snapshot_entry_row \<Rightarrow> workspace_entry" where
  "entry_of_row e = \<lparr>we_path = se_path e, we_type = se_type e, we_size = se_size e, we_sha = se_sha e\<rparr>"

definition entries_of :: "db \<Rightarrow> string \<Rightarrow> workspace_entry list" where
  "entries_of d i = map entry_of_row (filter (\<lambda>e. se_snapshot e = i) (snapshot_entries d))"

definition snapshot_ok :: "(json \<Rightarrow> string) \<Rightarrow> db \<Rightarrow> snapshot_row \<Rightarrow> bool" where
  "snapshot_ok sha d r \<longleftrightarrow>
     (let es = entries_of d (sn_id r)
      in sorted (map we_path es) \<and> distinct (map we_path es) \<and>
         (\<forall>e \<in> set es. check_entry e = Inr ()) \<and>
         (if sn_status r = ''complete''
          then map_option Inr (sn_root r) = Some (root_hash sha (sn_policy r) es) \<and> sn_count r = int (length es) \<and>
            sn_total r = total_size es
          else es = [] \<and> sn_root r = None \<and> sn_count r = 0 \<and> sn_total r = 0))"

definition provenance_ok :: "db \<Rightarrow> provenance_row \<Rightarrow> bool" where
  "provenance_ok d p \<longleftrightarrow>
     (\<exists>b \<in> set (snapshots d). \<exists>f \<in> set (snapshots d).
        sn_id b = pr_baseline p \<and> sn_kind b = ''baseline'' \<and> sn_quest b = pr_quest p \<and>
        sn_id f = pr_final p \<and> sn_kind f = ''final'' \<and> sn_quest f = pr_quest p \<and>
        (pr_status p = ''shadow'' \<longrightarrow> sn_status b = ''complete'' \<and> sn_status f = ''complete'')) \<and>
     (\<forall>aid. pr_action p = Some aid \<longrightarrow> pr_status p = ''shadow'' \<and>
        (\<exists>o' \<in> set (observations d). ob_action o' = aid \<and> ob_quest o' = pr_quest p \<and>
           Some (ob_event o') = pr_event p \<and> ob_after o' = pr_hash p))"

definition shadow_ok :: "(json \<Rightarrow> string) \<Rightarrow> db \<Rightarrow> bool" where
  "shadow_ok sha d \<longleftrightarrow> distinct (map sn_id (snapshots d)) \<and>
     distinct (map sn_quest (filter (\<lambda>r. sn_kind r = ''baseline'') (snapshots d))) \<and>
     (\<forall>r \<in> set (snapshots d). snapshot_ok sha d r) \<and>
     (\<forall>e \<in> set (snapshot_entries d). se_snapshot e \<in> sn_id ` set (snapshots d)) \<and>
     (\<forall>p \<in> set (provenances d). provenance_ok d p)"

lemma shadow_ok_empty: "shadow_ok sha empty_db"
  by (simp add: shadow_ok_def empty_db_def)

lemma same_shadow_ok: "same_shadow d d' \<Longrightarrow> shadow_ok sha d \<Longrightarrow> shadow_ok sha d'"
  unfolding shadow_ok_def snapshot_ok_def entries_of_def provenance_ok_def same_shadow_def
  by (auto simp: Let_def split: if_splits) blast+

lemma check_entries_all: "check_entries es = Inr () \<longleftrightarrow> (\<forall>e \<in> set es. check_entry e = Inr ())"
  by (induction es) (auto simp: result_simps)

lemma normalise_snapshot_Inr:
  assumes "normalise_snapshot sha ws = Inr ws'"
  shows "sorted (map we_path (ws_entries ws'))" "distinct (map we_path (ws_entries ws'))"
    "\<forall>e \<in> set (ws_entries ws'). check_entry e = Inr ()"
    "if ws_status ws' = ''complete''
     then map_option Inr (ws_root ws') = Some (root_hash sha (ws_policy ws') (ws_entries ws')) \<and>
       ws_count ws' = int (length (ws_entries ws')) \<and> ws_total ws' = total_size (ws_entries ws')
     else ws_entries ws' = [] \<and> ws_root ws' = None \<and> ws_count ws' = 0 \<and> ws_total ws' = 0"
proof -
  have "check_entries (ws_entries ws) = Inr ()"
    using assms by (auto simp: normalise_snapshot_def result_simps split: if_splits)
  then have all: "\<forall>e \<in> set (sort_key we_path (ws_entries ws)). check_entry e = Inr ()"
    by (simp add: check_entries_all)
  have body: "(let entries = sort_key we_path (ws_entries ws)
        in if \<not> distinct (map we_path entries)
           then Inl (ValueError ''workspace snapshot paths must be unique'')
           else if ws_count ws < 0 then Inl (ValueError ''workspace snapshot file count is invalid'')
           else if ws_total ws < 0 then Inl (ValueError ''workspace snapshot total bytes is invalid'')
           else if ws_status ws = ''complete'' then
             andThen (root_hash sha (ws_policy ws) entries) (\<lambda>expected.
               if ws_root ws \<noteq> Some expected \<or>
                  ws_count ws \<noteq> int (length entries) \<or> ws_total ws \<noteq> total_size entries
               then Inl (ValueError ''complete workspace snapshot is inconsistent'')
               else Inr (ws\<lparr>ws_entries := entries\<rparr>))
           else if entries \<noteq> [] \<or> ws_root ws \<noteq> None \<or> ws_count ws \<noteq> 0 \<or> ws_total ws \<noteq> 0
           then Inl (ValueError ''incomplete workspace snapshot must not contain entries'')
           else Inr (ws\<lparr>ws_entries := entries\<rparr>)) = Inr ws'"
    using assms \<open>check_entries (ws_entries ws) = Inr ()\<close>
    by (auto simp: normalise_snapshot_def split: if_splits)
  then have ws': "ws' = ws\<lparr>ws_entries := sort_key we_path (ws_entries ws)\<rparr>"
    and dist: "distinct (map we_path (sort_key we_path (ws_entries ws)))"
    unfolding Let_def by (auto simp: result_simps split: if_splits)
  show "sorted (map we_path (ws_entries ws'))" unfolding ws' by simp
  show "distinct (map we_path (ws_entries ws'))" unfolding ws' using dist by simp
  show "\<forall>e \<in> set (ws_entries ws'). check_entry e = Inr ()" unfolding ws' using all by simp
  show "if ws_status ws' = ''complete''
     then map_option Inr (ws_root ws') = Some (root_hash sha (ws_policy ws') (ws_entries ws')) \<and>
       ws_count ws' = int (length (ws_entries ws')) \<and> ws_total ws' = total_size (ws_entries ws')
     else ws_entries ws' = [] \<and> ws_root ws' = None \<and> ws_count ws' = 0 \<and> ws_total ws' = 0"
    using body dist unfolding ws' Let_def by (auto simp: result_simps split: if_splits)
qed

lemma insert_workspace_snapshot_cases:
  assumes "insert_workspace_snapshot sha i qid kind ws v sq now d = Inr (row, d')"
  obtains ws' where "normalise_snapshot sha ws = Inr ws'" "row = snapshot_row_of i qid kind ws' v sq now"
    "d' = d\<lparr>snapshots := snapshots d @ [row],
       snapshot_entries := snapshot_entries d @ map (entry_row_of i) (ws_entries ws')\<rparr>"
    "\<forall>r \<in> set (snapshots d). sn_id r \<noteq> i \<and>
       \<not> (kind = ''baseline'' \<and> sn_kind r = ''baseline'' \<and> sn_quest r = qid)"
    "kind = ''baseline'' \<or> kind = ''final''"
  using assms by (auto simp: insert_workspace_snapshot_def Let_def result_simps split: if_splits option.splits)

lemma entry_of_entry_row [simp]: "entry_of_row (entry_row_of i e) = e"
  by (simp add: entry_of_row_def entry_row_of_def)

lemma insert_workspace_snapshot_ok:
  assumes ins: "insert_workspace_snapshot sha i qid kind ws v sq now d = Inr (row, d')" and ok: "shadow_ok sha d"
  shows "shadow_ok sha d'"
  using ins
proof (cases rule: insert_workspace_snapshot_cases)
  case (1 ws')
  note n = normalise_snapshot_Inr [OF 1(1)]
  have none: "se_snapshot e \<noteq> i" if "e \<in> set (snapshot_entries d)" for e
    using that ok 1(4) unfolding shadow_ok_def by (metis imageE)
  have new: "entries_of d' i = ws_entries ws'"
  proof -
    have "filter (\<lambda>e. se_snapshot e = i) (snapshot_entries d) = []"
      using none by (auto simp: filter_empty_conv)
    moreover have "filter (\<lambda>e. se_snapshot e = i) (map (entry_row_of i) (ws_entries ws')) =
        map (entry_row_of i) (ws_entries ws')"
      by (simp add: filter_id_conv entry_row_of_def)
    ultimately show ?thesis by (simp add: entries_of_def 1(3) comp_def)
  qed
  have old: "entries_of d' j = entries_of d j" if "j \<noteq> i" for j
    using that by (simp add: entries_of_def 1(3) filter_empty_conv entry_row_of_def)
  have "snapshot_ok sha d' row"
    using n new by (simp add: snapshot_ok_def 1(2) snapshot_row_of_def Let_def)
  moreover have "snapshot_ok sha d' r" if "r \<in> set (snapshots d)" for r
    using that ok 1(4) old [of "sn_id r"] by (auto simp: shadow_ok_def snapshot_ok_def)
  moreover have "provenance_ok d' p" if "p \<in> set (provenances d)" for p
  proof -
    have "provenance_ok d p" using that ok by (simp add: shadow_ok_def)
    then show ?thesis unfolding provenance_ok_def by (simp add: 1(3)) blast
  qed
  ultimately show ?thesis
    using ok 1(4,5) unfolding shadow_ok_def
    by (auto simp: 1(2,3) snapshot_row_of_def entry_row_of_def)
qed

lemma insert_artifact_provenance_cases:
  assumes "insert_artifact_provenance qid item fid now d = Inr d'"
  obtains q b f where "find_quest d qid = Some q"
    "snapshot_of d (as_str (read item ''baseline_snapshot_id'')) qid ''baseline'' = Some b"
    "snapshot_of d fid qid ''final'' = Some f"
    "check_claim d qid item (as_str (read item ''status'')) (as_str (read item ''provenance_status''))
       (as_str (read item ''artifact_hash'')) b f = Inr ()"
    "d' = d\<lparr>provenances := provenances d @ [provenance_row_of qid item fid now]\<rparr>"
  using assms
  by (auto simp: insert_artifact_provenance_def Let_def result_simps split: if_splits option.splits)

lemma snapshot_of_Some:
  "snapshot_of d i qid kind = Some r \<Longrightarrow> r \<in> set (snapshots d) \<and> sn_id r = i \<and> sn_quest r = qid \<and> sn_kind r = kind"
  by (auto simp: snapshot_of_def get_workspace_snapshot_def dest: select_one_Some_in split: option.splits if_splits)

lemma int_of_Some': "int_of v = Some n \<longleftrightarrow> v = JInt n"
  by (cases v) auto

lemma check_claim_action:
  assumes "check_claim d qid item status prov digest b f = Inr ()" "name_of (read item ''action_id'') = Some aid"
  shows "status = ''shadow'' \<and> (\<exists>event. read item ''committed_event_id'' = JInt event \<and>
    observed_receipt_ok d qid aid event (read item ''path'') digest)"
proof -
  have "read item ''action_id'' \<noteq> JNull" using assms(2) by auto
  then show ?thesis
    using assms by (auto simp: check_claim_def result_simps int_of_Some' split: if_splits option.splits bool.splits)
qed

lemma insert_artifact_provenance_ok:
  assumes ins: "insert_artifact_provenance qid item fid now d = Inr d'" and ok: "shadow_ok sha d"
  shows "shadow_ok sha d'"
  using ins
proof (cases rule: insert_artifact_provenance_cases)
  case (1 q b f)
  let ?row = "provenance_row_of qid item fid now"
  have bf: "b \<in> set (snapshots d)" "f \<in> set (snapshots d)" "sn_id b = pr_baseline ?row"
    "sn_kind b = ''baseline''" "sn_quest b = pr_quest ?row" "sn_id f = pr_final ?row" "sn_kind f = ''final''"
    "sn_quest f = pr_quest ?row"
    using snapshot_of_Some [OF 1(2)] snapshot_of_Some [OF 1(3)] by (auto simp: provenance_row_of_def)
  have complete: "pr_status ?row = ''shadow'' \<longrightarrow> sn_status b = ''complete'' \<and> sn_status f = ''complete''"
    using 1(4) by (auto simp: check_claim_def provenance_row_of_def split: if_splits)
  have action: "pr_status ?row = ''shadow'' \<and> (\<exists>o' \<in> set (observations d). ob_action o' = aid \<and>
      ob_quest o' = pr_quest ?row \<and> Some (ob_event o') = pr_event ?row \<and> ob_after o' = pr_hash ?row)"
    if "pr_action ?row = Some aid" for aid
  proof -
    have "name_of (read item ''action_id'') = Some aid" using that by (simp add: provenance_row_of_def)
    from check_claim_action [OF 1(4) this] obtain event
      where e: "as_str (read item ''status'') = ''shadow''" "read item ''committed_event_id'' = JInt event"
        "observed_receipt_ok d qid aid event (read item ''path'') (as_str (read item ''artifact_hash''))"
      by blast
    then obtain o' where "o' \<in> set (observations d)" "ob_quest o' = qid" "ob_action o' = aid"
      "int (ob_event o') = event" "ob_after o' = as_str (read item ''artifact_hash'')"
      by (auto simp: observed_receipt_ok_def)
    then show ?thesis using e(1,2) by (auto simp: provenance_row_of_def)
  qed
  have "provenance_ok d ?row"
    unfolding provenance_ok_def using bf complete action by blast
  then show ?thesis
    using ok unfolding 1(5) shadow_ok_def snapshot_ok_def entries_of_def provenance_ok_def by simp
qed

lemma insert_provenances_ok:
  "insert_provenances qid man fid now items d = Inr d' \<Longrightarrow> shadow_ok sha d \<Longrightarrow> shadow_ok sha d'"
  by (induction qid man fid now items d rule: insert_provenances.induct)
    (auto simp: result_simps intro: insert_artifact_provenance_ok split: option.splits if_splits)

theorem store_step_shadow_ok:
  assumes "store_step sha d d'" and "shadow_ok sha d"
  shows "shadow_ok sha d'"
  using assms(1)
proof (cases rule: shadow_step)
  case other
  then show ?thesis using same_shadow_ok assms(2) by blast
next
  case (snapshot i qid kind ws v sq now row)
  then show ?thesis using insert_workspace_snapshot_ok assms(2) by blast
next
  case (freeze qid rid man dig i ws prov v now now' fin d1 d2 ev)
  have "shadow_ok sha d1" by (rule insert_workspace_snapshot_ok [OF freeze(1) assms(2)])
  then have "shadow_ok sha d2" by (rule insert_provenances_ok [OF freeze(3)])
  then show ?thesis using same_shadow_ok append_locked_shadow [OF freeze(4)] by blast
qed

lemma reachable_shadow_ok: "reachable sha d \<Longrightarrow> shadow_ok sha d"
  by (induction rule: reachable.induct) (use shadow_ok_empty store_step_shadow_ok in blast)+

section \<open>Properties\<close>

text \<open>
  Claim C34. Snapshots stay consistent: in every reachable store a Quest has at most one baseline, a
  complete snapshot has exactly the entries its root hash, its file count and its byte total were
  computed from, sorted by path, without duplicates and each with a safe relative path, and a
  snapshot with any other status has no entries and no root hash.
\<close>

theorem snapshots_are_consistent:
  assumes "reachable sha d" and "r \<in> set (snapshots d)"
  shows "sorted (map we_path (entries_of d (sn_id r))) \<and> distinct (map we_path (entries_of d (sn_id r))) \<and>
    (\<forall>e \<in> set (entries_of d (sn_id r)). \<not> bad_relative_path (we_path e) \<and> is_sha256 (we_sha e) \<and> 0 \<le> we_size e) \<and>
    (sn_status r = ''complete'' \<longrightarrow>
      (\<exists>h. root_hash sha (sn_policy r) (entries_of d (sn_id r)) = Inr h \<and> sn_root r = Some h) \<and>
      sn_count r = int (length (entries_of d (sn_id r))) \<and> sn_total r = total_size (entries_of d (sn_id r))) \<and>
    (sn_status r \<noteq> ''complete'' \<longrightarrow> entries_of d (sn_id r) = [] \<and> sn_root r = None) \<and>
    (\<forall>r' \<in> set (snapshots d). sn_kind r = ''baseline'' \<longrightarrow> sn_kind r' = ''baseline'' \<longrightarrow>
       sn_quest r' = sn_quest r \<longrightarrow> r' = r)"
proof -
  have ok: "shadow_ok sha d" by (rule reachable_shadow_ok [OF assms(1)])
  have entry: "check_entry e = Inr () \<Longrightarrow> \<not> bad_relative_path (we_path e) \<and> is_sha256 (we_sha e) \<and> 0 \<le> we_size e" for e
    by (auto simp: check_entry_def split: if_splits)
  have row: "snapshot_ok sha d r" using ok assms(2) by (simp add: shadow_ok_def)
  have "distinct (map sn_quest (filter (\<lambda>r. sn_kind r = ''baseline'') (snapshots d)))"
    using ok by (simp add: shadow_ok_def)
  then have "r' = r" if "r' \<in> set (snapshots d)" "sn_kind r = ''baseline''" "sn_kind r' = ''baseline''"
    "sn_quest r' = sn_quest r" for r'
    using that assms(2) by (auto simp: distinct_map inj_on_def)
  moreover have "map_option Inr x = Some y \<longleftrightarrow> (\<exists>h. y = Inr h \<and> x = Some h)" for x :: "string option" and y :: "string result"
    by (cases x) auto
  ultimately show ?thesis using row entry unfolding snapshot_ok_def Let_def by (simp split: if_splits)
qed

text \<open>
  Claim C33. A provenance row is backed: in every reachable store its baseline and final snapshot are
  snapshots of the same Quest, both complete when it has a \<^verbatim>\<open>shadow\<close> status, and when it names an
  action, that action is committed for the Quest, linked to a \<^verbatim>\<open>ToolCommitted\<close> event of its log, and
  has an observation of the digest the row claims.
\<close>

theorem provenance_rows_are_backed:
  assumes "reachable sha d" and "p \<in> set (provenances d)"
  shows "(\<exists>b \<in> set (snapshots d). \<exists>f \<in> set (snapshots d).
      sn_id b = pr_baseline p \<and> sn_kind b = ''baseline'' \<and> sn_quest b = pr_quest p \<and>
      sn_id f = pr_final p \<and> sn_kind f = ''final'' \<and> sn_quest f = pr_quest p \<and>
      (pr_status p = ''shadow'' \<longrightarrow> sn_status b = ''complete'' \<and> sn_status f = ''complete'')) \<and>
    (\<forall>aid. pr_action p = Some aid \<longrightarrow>
      (\<exists>a \<in> set (actions d). a_id a = aid \<and> a_quest a = pr_quest p \<and> a_status a = ActCommitted \<and>
         a_event a = pr_event p \<and>
         (\<exists>e \<in> set (events d). Some (ev_id e) = pr_event p \<and> ev_quest e = pr_quest p \<and>
            ev_type e = ''ToolCommitted'') \<and>
         (\<exists>o' \<in> set (observations d). ob_action o' = aid \<and> ob_after o' = pr_hash p)))"
proof -
  have ok: "provenance_ok d p"
    using reachable_shadow_ok [OF assms(1)] assms(2) by (simp add: shadow_ok_def)
  have j: "journal_ok d" using reachable_store_ok [OF assms(1)] by (simp add: store_ok_def)
  have "\<exists>a \<in> set (actions d). a_id a = aid \<and> a_quest a = pr_quest p \<and> a_status a = ActCommitted \<and>
         a_event a = pr_event p \<and>
         (\<exists>e \<in> set (events d). Some (ev_id e) = pr_event p \<and> ev_quest e = pr_quest p \<and>
            ev_type e = ''ToolCommitted'') \<and>
         (\<exists>o' \<in> set (observations d). ob_action o' = aid \<and> ob_after o' = pr_hash p)"
    if aid: "pr_action p = Some aid" for aid
  proof -
    obtain o' where o': "o' \<in> set (observations d)" "ob_action o' = aid" "ob_quest o' = pr_quest p"
      "Some (ob_event o') = pr_event p" "ob_after o' = pr_hash p"
      using ok aid by (auto simp: provenance_ok_def)
    obtain a where a: "a \<in> set (actions d)" "a_id a = aid" "a_quest a = pr_quest p"
      "a_status a = ActCommitted" "a_event a = pr_event p"
      using journal_okD(2) [OF j o'(1)] o'(2-4) by (auto simp: observation_ok_def)
    have "\<exists>e \<in> set (events d). Some (ev_id e) = pr_event p \<and> ev_quest e = pr_quest p \<and>
        ev_type e = ''ToolCommitted''"
      using journal_okD(1) [OF j a(1)] a(3-5) o'(4)
      by (auto simp: action_row_ok_def receipt_of_def split: option.splits) (metis (full_types))
    then show ?thesis using a o' by blast
  qed
  then show ?thesis using ok unfolding provenance_ok_def by blast
qed

text \<open>
  A run that ends with an observed provenance row: draft, admission, baseline, one write with its
  receipt and observation, the final verification's evidence, and the request of a review.
\<close>

definition sha64 :: "json \<Rightarrow> string" where
  "sha64 v = replicate 64 (CHR ''a'')"

definition report_digest :: string where
  "report_digest = replicate 64 (CHR ''b'')"

definition shared_item :: dict where
  "shared_item = [(''artifact_id'', JStr ''a''), (''path'', JStr ''r.md''), (''evidence_id'', JStr ''e''),
     (''provenance_id'', JStr ''p''), (''provenance_status'', JStr ''shadow_observed_created''),
     (''provenance_mode'', JStr ''compatibility_shadow''), (''baseline_snapshot_id'', JStr ''b''),
     (''final_snapshot_id'', JStr ''f'')]"

definition manifest_item :: dict where
  "manifest_item = shared_item @ [(''hash'', JStr report_digest), (''size'', JInt 4)]"

definition provenance_item :: dict where
  "provenance_item = shared_item @ [(''artifact_hash'', JStr report_digest), (''status'', JStr ''shadow''),
     (''action_id'', JStr ''w''), (''committed_event_id'', JInt 3)]"

definition report_observation :: dict where
  "report_observation = [(''observation_id'', JStr ''o''), (''relative_path'', JStr ''r.md''),
     (''before_sha256'', JNull), (''after_sha256'', JStr report_digest), (''after_size_bytes'', JInt 4),
     (''change_kind'', JStr ''created''), (''status'', JStr ''observed'')]"

definition demo_scan :: "workspace_entry list \<Rightarrow> workspace_snapshot" where
  "demo_scan es = \<lparr>ws_workspace = ''w'', ws_policy = ''v1'', ws_status = ''complete'', ws_entries = es,
     ws_root = Some (sha64 JNull), ws_count = int (length es), ws_total = total_size es\<rparr>"

definition demo_freeze :: "db result" where
  "demo_freeze =
     andThen (create_draft sha64 ''q'' [] demo_plan_row (Some ''w'') None ''planned'' ''t'' empty_db) (\<lambda>(s, d1).
     andThen (admit_execution sha64 ''q'' ''x'' 30 1 ''t'' 0 ''t'' d1) (\<lambda>(e, d2).
     andThen (save_baseline_snapshot sha64 ''b'' ''q'' ''x'' 2 (demo_scan []) (Some 2) 1 ''t'' d2) (\<lambda>(r, d3).
     andThen (prepare_action ''w'' ''q'' ''m'' ''k'' ''write_file'' ''h'' [] 2 None ''t'' d3) (\<lambda>(a, d4).
     andThen (mark_action_dispatched ''w'' ''t'' d4) (\<lambda>(a, d5).
     andThen (commit_action_with_event sha64 ''w'' [] (Some report_observation) ''t'' ''t'' d5) (\<lambda>(a, d6).
     andThen (record_data Evidence ''e'' ''q'' [] ''t'' d6) (\<lambda>(v, d7).
     andThen (request_artifact_review_with_provenance sha64 ''q'' ''x'' ''rv'' [manifest_item] (sha64 JNull) ''f''
       (demo_scan [\<lparr>we_path = ''r.md'', we_type = ''regular'', we_size = 4, we_sha = report_digest\<rparr>])
       [provenance_item] 3 2 ''t'' ''t'' d7) (\<lambda>(ev, d8). Inr d8))))))))"

lemma demo_freeze_result:
  "map_option (\<lambda>d. (map (\<lambda>p. (pr_id p, pr_action p)) (provenances d),
       map (\<lambda>r. (sn_id r, sn_root r)) (snapshots d))) (case demo_freeze of Inl e \<Rightarrow> None | Inr d \<Rightarrow> Some d) =
   Some ([(''p'', Some ''w'')], [(''b'', Some (sha64 JNull)), (''f'', Some (sha64 JNull))])"
  by code_simp

lemma andThen_pair_iff:
  "andThen r (\<lambda>(a, b). f a b) = Inr y \<longleftrightarrow> (\<exists>a b. r = Inr (a, b) \<and> f a b = Inr y)"
  by (cases r) auto

lemma demo_freeze_reachable:
  assumes "demo_freeze = Inr d8"
  shows "reachable sha64 d8"
proof -
  obtain x0 d1 x1 d2 x2 d3 x3 d4 x4 d5 x5 d6 x6 d7 x7 where
    1: "create_draft sha64 ''q'' [] demo_plan_row (Some ''w'') None ''planned'' ''t'' empty_db = Inr (x0, d1)"
    and 2: "admit_execution sha64 ''q'' ''x'' 30 1 ''t'' 0 ''t'' d1 = Inr (x1, d2)"
    and 3: "save_baseline_snapshot sha64 ''b'' ''q'' ''x'' 2 (demo_scan []) (Some 2) 1 ''t'' d2 = Inr (x2, d3)"
    and 4: "prepare_action ''w'' ''q'' ''m'' ''k'' ''write_file'' ''h'' [] 2 None ''t'' d3 = Inr (x3, d4)"
    and 5: "mark_action_dispatched ''w'' ''t'' d4 = Inr (x4, d5)"
    and 6: "commit_action_with_event sha64 ''w'' [] (Some report_observation) ''t'' ''t'' d5 = Inr (x5, d6)"
    and 7: "record_data Evidence ''e'' ''q'' [] ''t'' d6 = Inr (x6, d7)"
    and 8: "request_artifact_review_with_provenance sha64 ''q'' ''x'' ''rv'' [manifest_item] (sha64 JNull) ''f''
       (demo_scan [\<lparr>we_path = ''r.md'', we_type = ''regular'', we_size = 4, we_sha = report_digest\<rparr>])
       [provenance_item] 3 2 ''t'' ''t'' d7 = Inr (x7, d8)"
    using assms unfolding demo_freeze_def andThen_pair_iff by blast
  have "reachable sha64 d1" by (rule reachable.step [OF reachable.start store_step.draft [OF 1]])
  then have "reachable sha64 d2" by (rule reachable.step [OF _ store_step.admit [OF 2]])
  then have "reachable sha64 d3" by (rule reachable.step [OF _ store_step.baseline [OF 3]])
  then have "reachable sha64 d4" by (rule reachable.step [OF _ store_step.prepare [OF 4]])
  then have "reachable sha64 d5" by (rule reachable.step [OF _ store_step.dispatch [OF 5]])
  then have "reachable sha64 d6" by (rule reachable.step [OF _ store_step.commit [OF 6]])
  then have "reachable sha64 d7" by (rule reachable.step [OF _ store_step.entry [OF 7]])
  then show ?thesis by (rule reachable.step [OF _ store_step.freeze [OF 8]])
qed

lemma demo_frozen:
  "\<exists>d. reachable sha64 d \<and> map (\<lambda>p. (pr_id p, pr_action p)) (provenances d) = [(''p'', Some ''w'')] \<and>
     map (\<lambda>r. (sn_id r, sn_root r)) (snapshots d) = [(''b'', Some (sha64 JNull)), (''f'', Some (sha64 JNull))]"
proof (cases demo_freeze)
  case (Inl e)
  have False using demo_freeze_result unfolding Inl sum.case by simp
  then show ?thesis ..
next
  case (Inr d)
  note r = demo_freeze_result [unfolded Inr sum.case option.map option.inject prod.inject]
  show ?thesis
    using demo_freeze_reachable [OF Inr] conjunct1 [OF r] conjunct2 [OF r] by (intro exI conjI)
qed

theorem snapshots_are_consistent_witness:
  "\<exists>d r. reachable sha64 d \<and> r \<in> set (snapshots d) \<and> sn_id r = ''f'' \<and>
     sorted (map we_path (entries_of d (sn_id r))) \<and> distinct (map we_path (entries_of d (sn_id r)))"
proof -
  obtain d where d: "reachable sha64 d"
    "map (\<lambda>r. (sn_id r, sn_root r)) (snapshots d) = [(''b'', Some (sha64 JNull)), (''f'', Some (sha64 JNull))]"
    using demo_frozen by (elim exE conjE)
  have "(''f'', Some (sha64 JNull)) \<in> set (map (\<lambda>r. (sn_id r, sn_root r)) (snapshots d))"
    unfolding d(2) by simp
  then obtain r where r: "r \<in> set (snapshots d)" "sn_id r = ''f''" by auto
  have "sorted (map we_path (entries_of d (sn_id r))) \<and> distinct (map we_path (entries_of d (sn_id r)))"
    using snapshots_are_consistent [OF d(1) r(1)] by (elim conjE) (intro conjI)
  then show ?thesis using d(1) r by (intro exI conjI) auto
qed

theorem provenance_rows_are_backed_witness:
  "\<exists>d p. reachable sha64 d \<and> p \<in> set (provenances d) \<and> pr_action p = Some ''w'' \<and>
     (\<exists>a \<in> set (actions d). a_id a = ''w'' \<and> a_status a = ActCommitted)"
proof -
  obtain d where d: "reachable sha64 d"
    "map (\<lambda>p. (pr_id p, pr_action p)) (provenances d) = [(''p'', Some ''w'')]"
    using demo_frozen by (elim exE conjE)
  have "(''p'', Some ''w'') \<in> set (map (\<lambda>p. (pr_id p, pr_action p)) (provenances d))"
    unfolding d(2) by simp
  then obtain p where p: "p \<in> set (provenances d)" "pr_action p = Some ''w''" by auto
  obtain a where "a \<in> set (actions d)" "a_id a = ''w''" "a_status a = ActCommitted"
    using provenance_rows_are_backed [OF d(1) p(1), THEN conjunct2, THEN spec, THEN mp, OF p(2)] by (elim bexE conjE)
  then show ?thesis using d(1) p by (intro exI conjI bexI) auto
qed

end
