(* ===== verification/Provenance_Properties.thy ===== *)
theory Provenance_Properties
  imports Provenance "HOL-Library.Multiset"
begin

text \<open>
  What a provenance status is worth: an observed chain of writes is claimed only for a complete,
  linked chain from the baseline to the artifact, and the order in which the ledgers list actions and
  observations does not matter.
\<close>

section \<open>The stages as predicates\<close>

definition writes_path :: "string \<Rightarrow> json \<Rightarrow> bool" where
  "writes_path path raw \<longleftrightarrow>
     read (as_dict raw) ''tool_name'' = JStr ''write_file'' \<and> action_path (as_dict raw) = Some path"

definition action_ok :: "string \<Rightarrow> json \<Rightarrow> bool" where
  "action_ok path raw \<longleftrightarrow> mapping_of raw \<noteq> None \<and>
     (read (as_dict raw) ''tool_name'' = JStr ''write_file'' \<longrightarrow> action_path (as_dict raw) \<noteq> None) \<and>
     (writes_path path raw \<longrightarrow> \<not> unhashable (read (as_dict raw) ''status'') \<and>
        read (as_dict raw) ''status'' \<notin> JStr ` set unresolved_states)"

definition committed_write :: "string \<Rightarrow> json \<Rightarrow> bool" where
  "committed_write path raw \<longleftrightarrow>
     writes_path path raw \<and> read (as_dict raw) ''status'' = JStr ''committed''"

lemma early_not_Inr [simp]: "early d s r \<noteq> Inr x"
  by (simp add: early_def)

lemma mapping_as_dict: "mapping_of raw = Some d \<Longrightarrow> as_dict raw = d"
  by (cases raw) auto

lemma relevant_actions_iff:
  "relevant_actions digest path acts = Inr rel \<longleftrightarrow>
     (\<forall>raw \<in> set acts. action_ok path raw) \<and> rel = map as_dict (filter (committed_write path) acts)"
proof (induction acts arbitrary: rel)
  case Nil
  then show ?case by auto
next
  case (Cons raw acts)
  show ?case
  proof (cases "mapping_of raw")
    case None
    then show ?thesis by (simp add: action_ok_def)
  next
    case (Some a)
    have d: "as_dict raw = a" by (rule mapping_as_dict [OF Some])
    show ?thesis
    proof (cases "read a ''tool_name'' = JStr ''write_file''")
      case False
      then show ?thesis
        using Some d Cons.IH by (auto simp: action_ok_def committed_write_def writes_path_def)
    next
      case True
      then show ?thesis
        using Some d Cons.IH
        by (cases "action_path a")
          (auto simp: action_ok_def committed_write_def writes_path_def result_simps unresolved_states_def)
    qed
  qed
qed

definition observation_key :: "json \<Rightarrow> string" where
  "observation_key raw = as_str (read (as_dict raw) ''action_id'')"

definition observation_named :: "json \<Rightarrow> bool" where
  "observation_named raw \<longleftrightarrow> mapping_of raw \<noteq> None \<and> name_of (read (as_dict raw) ''action_id'') \<noteq> None"

definition observation_entry :: "json \<Rightarrow> string \<times> dict" where
  "observation_entry raw = (observation_key raw, as_dict raw)"

lemma int_of_Some: "int_of v = Some n \<longleftrightarrow> v = JInt n"
  by (cases v) auto

lemma name_of_Some: "name_of v = Some s \<longleftrightarrow> v = JStr s \<and> s \<noteq> []"
  by (cases v) auto

lemma index_observations_iff:
  assumes "distinct (map fst acc)"
  shows "index_observations digest acc obs = Inr idx \<longleftrightarrow>
     (\<forall>raw \<in> set obs. observation_named raw) \<and> idx = acc @ map observation_entry obs \<and>
     distinct (map fst idx)"
  using assms
proof (induction obs arbitrary: acc)
  case Nil
  then show ?case by auto
next
  case (Cons raw obs)
  show ?case
  proof (cases "observation_named raw")
    case False
    then show ?thesis by (auto simp: observation_named_def mapping_as_dict split: option.splits)
  next
    case True
    then obtain ob aid where ob: "mapping_of raw = Some ob" "read ob ''action_id'' = JStr aid" "aid \<noteq> []"
      by (auto simp: observation_named_def mapping_as_dict name_of_Some)
    have e: "observation_entry raw = (aid, ob)"
      using ob by (simp add: observation_entry_def observation_key_def mapping_as_dict)
    show ?thesis
    proof (cases "map_of acc aid = None")
      case False
      then have "aid \<in> fst ` set acc" by (simp add: map_of_eq_None_iff)
      then show ?thesis using False ob e by auto
    next
      case fresh: True
      then have "distinct (map fst (acc @ [(aid, ob)]))"
        using Cons.prems by (auto simp: map_of_eq_None_iff)
      then show ?thesis using Cons.IH [of "acc @ [(aid, ob)]"] fresh ob e True by auto
    qed
  qed
qed

definition step_of :: "(string \<times> dict) list \<Rightarrow> dict \<Rightarrow> write_step option" where
  "step_of index a =
     (case name_of (read a ''action_id'') of
        None \<Rightarrow> None
      | Some aid \<Rightarrow>
          (case map_of index aid of
             None \<Rightarrow> None
           | Some ob \<Rightarrow>
               (case int_of (read ob ''committed_event_sequence'') of
                  None \<Rightarrow> None
                | Some n \<Rightarrow> if n \<le> 0 then None else Some \<lparr>sp_sequence = n, sp_action_id = aid,
                    sp_action = a, sp_observation = ob\<rparr>)))"

lemma bind_actions_iff:
  "bind_actions digest index as = Inr ss \<longleftrightarrow> map (step_of index) as = map Some ss"
proof (induction as arbitrary: ss)
  case Nil
  then show ?case by auto
next
  case (Cons a as)
  have "bind_actions digest index (a # as) = Inr ss \<longleftrightarrow>
      (\<exists>s ss'. step_of index a = Some s \<and> bind_actions digest index as = Inr ss' \<and> ss = s # ss')"
    by (auto simp: step_of_def result_simps split: option.splits)
  then show ?case unfolding Cons.IH by (cases ss) auto
qed

lemma ordered_steps_iff:
  "ordered_steps digest index as = Inr ss \<longleftrightarrow>
     (\<exists>us. map (step_of index) as = map Some us \<and> distinct (map sp_sequence us) \<and>
        ss = sort_key (\<lambda>s. (sp_sequence s, sp_action_id s)) us)"
proof -
  have "distinct (map sp_sequence (sort_key f us)) \<longleftrightarrow> distinct (map sp_sequence us)" for f us
    by (metis mset_map mset_eq_imp_distinct_iff mset_sort)
  then show ?thesis by (auto simp: ordered_steps_def result_simps bind_actions_iff Let_def)
qed

section \<open>No early return claims a shadow status\<close>

lemma shadow_prefix [simp]:
  "\<not> starts_with (''unrecoverable_final_'' @ s) ''shadow_''"
  "\<not> starts_with (''unrecoverable_baseline_'' @ s) ''shadow_''"
  by (simp_all add: starts_with_def)

lemma final_stage_early: "final_stage f fs p d n = Inl r \<Longrightarrow> \<not> starts_with (ps_status r) ''shadow_''"
  by (auto simp: final_stage_def early_def status_result_def starts_with_def split: if_splits option.splits prod.splits)

lemma baseline_stage_early: "baseline_stage b bs f p d = Inl r \<Longrightarrow> \<not> starts_with (ps_status r) ''shadow_''"
  by (auto simp: baseline_stage_def early_def status_result_def starts_with_def split: if_splits option.splits)

lemma relevant_actions_early:
  "relevant_actions d p acts = Inl r \<Longrightarrow> \<not> starts_with (ps_status r) ''shadow_''"
  by (induction acts)
    (auto simp: early_def status_result_def starts_with_def result_simps split: if_splits option.splits)

lemma index_observations_early:
  "index_observations d acc obs = Inl r \<Longrightarrow> \<not> starts_with (ps_status r) ''shadow_''"
  by (induction obs arbitrary: acc)
    (auto simp: early_def status_result_def starts_with_def split: if_splits option.splits)

lemma bind_actions_early: "bind_actions d idx as = Inl r \<Longrightarrow> \<not> starts_with (ps_status r) ''shadow_''"
  by (induction as)
    (auto simp: early_def status_result_def starts_with_def result_simps split: if_splits option.splits)

lemma ordered_steps_early: "ordered_steps d idx as = Inl r \<Longrightarrow> \<not> starts_with (ps_status r) ''shadow_''"
  by (auto simp: ordered_steps_def Let_def early_def status_result_def starts_with_def result_simps
      dest: bind_actions_early split: if_splits)

lemma chain_step_early: "chain_step d q p b s c = Inl r \<Longrightarrow> \<not> starts_with (ps_status r) ''shadow_''"
  by (auto simp: chain_step_def Let_def early_def status_result_def starts_with_def
      split: if_splits option.splits)

lemma chain_run_early: "chain_run d q p b ss c = Inl r \<Longrightarrow> \<not> starts_with (ps_status r) ''shadow_''"
  by (induction ss arbitrary: c) (auto simp: result_simps dest: chain_step_early)

section \<open>The order of the ledgers does not matter\<close>

lemma relevant_actions_perm:
  assumes "relevant_actions digest path acts = Inr rel" and "mset acts' = mset acts"
  shows "\<exists>rel'. relevant_actions digest path acts' = Inr rel' \<and> mset rel' = mset rel"
proof -
  have "set acts' = set acts" using assms(2) by (rule mset_eq_setD)
  moreover have "mset (map as_dict (filter (committed_write path) acts')) =
      mset (map as_dict (filter (committed_write path) acts))"
    using assms(2) by simp
  ultimately show ?thesis using assms(1) unfolding relevant_actions_iff by auto
qed

lemma index_observations_perm:
  assumes "index_observations digest [] obs = Inr idx" and "mset obs' = mset obs"
  shows "\<exists>idx'. index_observations digest [] obs' = Inr idx' \<and> map_of idx' = map_of idx"
proof -
  have iff: "index_observations digest [] xs = Inr i \<longleftrightarrow>
      (\<forall>raw \<in> set xs. observation_named raw) \<and> i = map observation_entry xs \<and> distinct (map fst i)" for xs i
    using index_observations_iff [of "[]"] by simp
  have "mset (map fst (map observation_entry obs')) = mset (map fst (map observation_entry obs))"
    using assms(2) by simp
  then have "distinct (map fst (map observation_entry obs')) = distinct (map fst (map observation_entry obs))"
    by (rule mset_eq_imp_distinct_iff)
  moreover have same: "set obs' = set obs" using assms(2) by (rule mset_eq_setD)
  ultimately have "index_observations digest [] obs' = Inr (map observation_entry obs')"
    using assms(1) unfolding iff by auto
  moreover have "map_of (map observation_entry obs') = map_of idx"
    using calculation assms(1) same unfolding iff by (subst map_of_inject_set) auto
  ultimately show ?thesis by blast
qed

lemma ordered_steps_perm:
  assumes "ordered_steps digest idx rel = Inr ss" and "mset rel' = mset rel" and "map_of idx' = map_of idx"
  shows "ordered_steps digest idx' rel' = Inr ss"
proof -
  let ?f = "\<lambda>s. (sp_sequence s, sp_action_id s)"
  obtain us where us: "map (step_of idx) rel = map Some us" "distinct (map sp_sequence us)"
    "ss = sort_key ?f us"
    using assms(1) unfolding ordered_steps_iff by blast
  have step: "step_of idx' = step_of idx" unfolding step_of_def [abs_def] assms(3) ..
  have m: "mset (map (step_of idx) rel') = mset (map Some us)"
    using assms(2) us(1) by (metis mset_map)
  then have "set (map (step_of idx) rel') = set (map Some us)" by (rule mset_eq_setD)
  then have "\<forall>a \<in> set rel'. step_of idx a \<noteq> None" by auto
  then have us': "map (step_of idx) rel' = map Some (map (the \<circ> step_of idx) rel')" by auto
  let ?us' = "map (the \<circ> step_of idx) rel'"
  have "image_mset Some (mset ?us') = image_mset Some (mset us)" using m us' by (metis mset_map)
  then have "image_mset the (image_mset Some (mset ?us')) = image_mset the (image_mset Some (mset us))"
    by (rule arg_cong)
  then have eq: "mset ?us' = mset us" by (simp only: multiset.map_comp comp_def option.sel multiset.map_ident)
  then have "distinct (map sp_sequence ?us')"
    using us(2) by (metis mset_eq_imp_distinct_iff mset_map)
  moreover have "sort_key ?f ?us' = ss"
    unfolding us(3)
  proof (rule sort_key_inj_key_eq)
    show "mset ?us' = mset (sort_key ?f us)" using eq by simp
    have "inj_on sp_sequence (set ?us')"
      by (rule distinct_map [THEN iffD1, THEN conjunct2]) (rule calculation)
    then show "inj_on ?f (set ?us')" by (auto simp: inj_on_def)
    show "sorted (map ?f (sort_key ?f us))" by simp
  qed
  ultimately show ?thesis unfolding ordered_steps_iff step using us' by blast
qed

lemma writes_stage_perm:
  assumes "writes_stage path digest nbytes acts obs qb = r" and "starts_with (ps_status (stage_result r)) ''shadow_''"
    and "mset acts' = mset acts" and "mset obs' = mset obs"
  shows "writes_stage path digest nbytes acts' obs' qb = r"
proof -
  obtain quest baseline where qb: "qb = (quest, baseline)" by (cases qb)
  obtain rel where rel: "relevant_actions digest path acts = Inr rel"
    using assms(1,2) relevant_actions_early unfolding qb writes_stage_def
    by (cases "relevant_actions digest path acts") auto
  obtain rel' where rel': "relevant_actions digest path acts' = Inr rel'" "mset rel' = mset rel"
    using relevant_actions_perm [OF rel assms(3)] by blast
  show ?thesis
  proof (cases "rel = []")
    case True
    then show ?thesis using assms(1) rel rel' by (simp add: qb writes_stage_def)
  next
    case False
    then have ne: "rel' \<noteq> []" using rel'(2) by auto
    obtain idx where idx: "index_observations digest [] obs = Inr idx"
      using assms(1,2) index_observations_early rel False unfolding qb writes_stage_def
      by (cases "index_observations digest [] obs") auto
    obtain idx' where idx': "index_observations digest [] obs' = Inr idx'" "map_of idx' = map_of idx"
      using index_observations_perm [OF idx assms(4)] by blast
    obtain ss where ss: "ordered_steps digest idx rel = Inr ss"
      using assms(1,2) ordered_steps_early rel False idx unfolding qb writes_stage_def
      by (cases "ordered_steps digest idx rel") auto
    have "ordered_steps digest idx' rel' = Inr ss"
      by (rule ordered_steps_perm [OF ss rel'(2) idx'(2)])
    then show ?thesis using assms(1) rel rel'(1) False ne idx idx'(1) ss by (simp add: qb writes_stage_def)
  qed
qed

text \<open>The classifier, once the shape of its inputs is accepted.\<close>

definition classify_parts ::
    "dict \<Rightarrow> dict option \<Rightarrow> json list \<Rightarrow> dict \<Rightarrow> json list \<Rightarrow> json list \<Rightarrow> json list \<Rightarrow> provenance_result" where
  "classify_parts a b bs f fs acts obs =
     (case artifact_values a of
        None \<Rightarrow> status_result ''unrecoverable_invalid_artifact'' None ''invalid_artifact'' None None
      | Some (path, digest, nbytes) \<Rightarrow> stage_result
          (andThen (final_stage f fs path digest nbytes) (\<lambda>_.
           andThen (baseline_stage b bs f path digest) (writes_stage path digest nbytes acts obs))))"

lemma classify_shadow_parts:
  assumes "starts_with (ps_status (classify_artifact_provenance artifact baseline (JList bs) final (JList fs)
    (JList acts) (JList obs))) ''shadow_''"
  obtains a f path digest nbytes qb where "artifact = JObj a" "final = JObj f"
    "artifact_values a = Some (path, digest, nbytes)" "final_stage f fs path digest nbytes = Inr ()"
    "baseline_stage (mapping_of baseline) bs f path digest = Inr qb"
    "classify_artifact_provenance artifact baseline (JList bs) final (JList fs) (JList acts) (JList obs) =
       stage_result (writes_stage path digest nbytes acts obs qb)"
proof -
  let ?r = "classify_artifact_provenance artifact baseline (JList bs) final (JList fs) (JList acts) (JList obs)"
  have bad: "\<not> starts_with ''unrecoverable_invalid_input'' ''shadow_''"
    "\<not> starts_with ''unrecoverable_invalid_artifact'' ''shadow_''"
    by (simp_all add: starts_with_def)
  obtain a f where af: "mapping_of artifact = Some a" "mapping_of final = Some f"
    using assms bad
    by (auto simp: classify_artifact_provenance_def status_result_def split: option.splits)
  then have r: "?r = classify_parts a (mapping_of baseline) bs f fs acts obs"
    by (simp add: classify_artifact_provenance_def classify_parts_def)
  have obj: "artifact = JObj a" "final = JObj f"
    using af by (auto elim!: mapping_of.elims)
  obtain path digest nbytes where av: "artifact_values a = Some (path, digest, nbytes)"
    using assms bad unfolding r
    by (auto simp: classify_parts_def status_result_def split: option.splits)
  have fin: "final_stage f fs path digest nbytes = Inr ()"
    using assms final_stage_early unfolding r
    by (cases "final_stage f fs path digest nbytes") (auto simp: classify_parts_def av)
  obtain qb where base: "baseline_stage (mapping_of baseline) bs f path digest = Inr qb"
    using assms baseline_stage_early unfolding r
    by (cases "baseline_stage (mapping_of baseline) bs f path digest") (auto simp: classify_parts_def av fin)
  have "?r = stage_result (writes_stage path digest nbytes acts obs qb)"
    unfolding r by (simp add: classify_parts_def av fin base)
  then show thesis using that obj av fin base by blast
qed

section \<open>Properties\<close>

text \<open>
  Claim C36. The order in which the ledgers are read does not matter: when an artifact gets a
  \<^verbatim>\<open>shadow_*\<close> status, any reordering of the list of actions and of the list of observations gives the
  same status, reason and terminal action.
\<close>

theorem provenance_ignores_ledger_order:
  assumes "starts_with (ps_status (classify_artifact_provenance artifact baseline (JList bs) final (JList fs)
      (JList acts) (JList obs))) ''shadow_''"
    and "mset acts' = mset acts" and "mset obs' = mset obs"
  shows "classify_artifact_provenance artifact baseline (JList bs) final (JList fs) (JList acts') (JList obs') =
    classify_artifact_provenance artifact baseline (JList bs) final (JList fs) (JList acts) (JList obs)"
  using assms(1)
proof (rule classify_shadow_parts)
  fix a f path digest nbytes qb
  assume parts: "artifact = JObj a" "final = JObj f" "artifact_values a = Some (path, digest, nbytes)"
    "final_stage f fs path digest nbytes = Inr ()"
    "baseline_stage (mapping_of baseline) bs f path digest = Inr qb"
    and r: "classify_artifact_provenance artifact baseline (JList bs) final (JList fs) (JList acts) (JList obs) =
       stage_result (writes_stage path digest nbytes acts obs qb)"
  have "writes_stage path digest nbytes acts' obs' qb = writes_stage path digest nbytes acts obs qb"
    by (rule writes_stage_perm [OF refl _ assms(2,3)]) (use assms(1) r in simp)
  then show ?thesis unfolding r using parts by (simp add: classify_artifact_provenance_def)
qed

section \<open>An observed chain\<close>

text \<open>Every write starts from the content the one before it left.\<close>

fun linked :: "string option \<Rightarrow> dict list \<Rightarrow> string option \<Rightarrow> bool" where
  "linked h [] h' \<longleftrightarrow> h = h'"
| "linked h (ob # obs) h' \<longleftrightarrow>
     sha_of (read ob ''before_sha256'') = h \<and> linked (sha_of (read ob ''after_sha256'')) obs h'"

text \<open>
  An action of the ledger and the one observation of the ledger that names it: they name the same Quest,
  the same action and the same event, and the observation is of the path.
\<close>

definition bound_write :: "string \<Rightarrow> string \<Rightarrow> json list \<Rightarrow> dict \<times> dict \<Rightarrow> bool" where
  "bound_write quest path obs w \<longleftrightarrow> (\<exists>aid event n.
     read (fst w) ''action_id'' = JStr aid \<and> read (fst w) ''committed_event_id'' = JInt event \<and>
     read (fst w) ''quest_id'' = JStr quest \<and>
     filter (\<lambda>raw. read (as_dict raw) ''action_id'' = JStr aid) obs = [JObj (snd w)] \<and>
     read (snd w) ''quest_id'' = JStr quest \<and> equals_int (read (snd w) ''committed_event_id'') event \<and>
     read (snd w) ''committed_event_sequence'' = JInt n \<and> 0 < n \<and>
     read (snd w) ''status'' = JStr ''observed'' \<and> path_from (snd w) = Some path)"

definition write_order :: "dict \<times> dict \<Rightarrow> int" where
  "write_order w = as_int (read (snd w) ''committed_event_sequence'')"

lemma chain_step_Inr:
  assumes "chain_step digest quest path baseline s c = Inr c1"
  shows "\<exists>event. read (sp_action s) ''committed_event_id'' = JInt event \<and>
    read (sp_action s) ''quest_id'' = JStr quest \<and>
    observation_bound quest path (sp_action_id s) event (sp_observation s) \<and>
    sha_of (read (sp_observation s) ''before_sha256'') = cs_hash c \<and>
    cs_hash c1 = sha_of (read (sp_observation s) ''after_sha256'') \<and>
    cs_size c1 = size_of (read (sp_observation s) ''after_size_bytes'') \<and>
    cs_action c1 = Some (sp_action_id s) \<and> cs_event c1 = Some event"
proof (cases "int_of (read (sp_action s) ''committed_event_id'')")
  case None
  then show ?thesis using assms by (simp add: chain_step_def Let_def)
next
  case (Some event)
  have q: "read (sp_action s) ''quest_id'' = JStr quest"
    by (rule ccontr) (use assms Some in \<open>simp add: chain_step_def Let_def\<close>)
  moreover have "observation_bound quest path (sp_action_id s) event (sp_observation s)"
    by (rule ccontr) (use assms Some in \<open>simp add: chain_step_def Let_def split: if_splits\<close>)
  moreover have "sha_of (read (sp_observation s) ''before_sha256'') = cs_hash c"
    by (rule ccontr) (use assms Some calculation in \<open>simp add: chain_step_def Let_def split: if_splits\<close>)
  moreover have "cs_hash c1 = sha_of (read (sp_observation s) ''after_sha256'')"
    "cs_size c1 = size_of (read (sp_observation s) ''after_size_bytes'')"
    "cs_action c1 = Some (sp_action_id s)" "cs_event c1 = Some event"
    using assms Some calculation unfolding chain_step_def Let_def by (simp_all split: if_splits, auto)
  ultimately show ?thesis using Some by (simp add: int_of_Some)
qed

definition step_bound :: "string \<Rightarrow> string \<Rightarrow> write_step \<Rightarrow> int \<Rightarrow> bool" where
  "step_bound quest path s event \<longleftrightarrow>
     read (sp_action s) ''committed_event_id'' = JInt event \<and> read (sp_action s) ''quest_id'' = JStr quest \<and>
     observation_bound quest path (sp_action_id s) event (sp_observation s)"

lemma chain_run_linked:
  "chain_run digest quest path baseline ss c = Inr c' \<Longrightarrow>
     linked (cs_hash c) (map sp_observation ss) (cs_hash c') \<and>
     (ss \<noteq> [] \<longrightarrow> cs_action c' = Some (sp_action_id (last ss)) \<and>
        cs_size c' = size_of (read (sp_observation (last ss)) ''after_size_bytes'') \<and>
        (\<exists>event. cs_event c' = Some event \<and> step_bound quest path (last ss) event)) \<and>
     (\<forall>s \<in> set ss. \<exists>event. step_bound quest path s event)"
proof (induction ss arbitrary: c)
  case Nil
  then show ?case by simp
next
  case (Cons s ss)
  obtain c1 where 1: "chain_step digest quest path baseline s c = Inr c1"
    "chain_run digest quest path baseline ss c1 = Inr c'"
    using Cons.prems by (auto simp: result_simps)
  obtain event where e: "step_bound quest path s event"
    "sha_of (read (sp_observation s) ''before_sha256'') = cs_hash c"
    "cs_hash c1 = sha_of (read (sp_observation s) ''after_sha256'')"
    "cs_size c1 = size_of (read (sp_observation s) ''after_size_bytes'')"
    "cs_action c1 = Some (sp_action_id s)" "cs_event c1 = Some event"
    using chain_step_Inr [OF 1(1)] by (auto simp: step_bound_def)
  note ih = Cons.IH [OF 1(2)]
  show ?case
  proof (cases "ss = []")
    case True
    then show ?thesis using e 1(2) by auto
  qed (use ih e in auto)
qed

definition step_named :: "(string \<times> dict) list \<Rightarrow> write_step \<Rightarrow> bool" where
  "step_named idx s \<longleftrightarrow> map_of idx (sp_action_id s) = Some (sp_observation s) \<and>
     read (sp_action s) ''action_id'' = JStr (sp_action_id s) \<and>
     read (sp_observation s) ''committed_event_sequence'' = JInt (sp_sequence s) \<and> 0 < sp_sequence s"

lemma step_of_named: "step_of idx a = Some s \<Longrightarrow> sp_action s = a \<and> step_named idx s"
  by (auto simp: step_of_def step_named_def name_of_Some int_of_Some split: option.splits if_splits)

lemma steps_of_named:
  "list_all2 (\<lambda>a s. step_of idx a = Some s) rel us \<Longrightarrow> map sp_action us = rel \<and> (\<forall>s \<in> set us. step_named idx s)"
  by (induction rule: list_all2_induct) (simp_all add: step_of_named)

lemma ordered_steps_facts:
  assumes "ordered_steps digest idx rel = Inr ss"
  shows "sorted_wrt (<) (map sp_sequence ss) \<and> mset (map sp_action ss) = mset rel \<and>
    (\<forall>s \<in> set ss. step_named idx s)"
proof -
  let ?f = "\<lambda>s. (sp_sequence s, sp_action_id s)"
  obtain us where us: "map (step_of idx) rel = map Some us" "distinct (map sp_sequence us)"
    "ss = sort_key ?f us"
    using assms unfolding ordered_steps_iff by blast
  have "list_all2 (\<lambda>a s. step_of idx a = Some s) rel us"
    using us(1) by (auto simp: list_eq_iff_nth_eq list_all2_conv_all_nth)
  then have "map sp_action us = rel" and obs: "\<forall>s \<in> set us. step_named idx s"
    using steps_of_named by blast+
  moreover have "sorted (map sp_sequence ss)"
  proof -
    have "sorted (map ?f ss)" unfolding us(3) by simp
    then have "sorted_wrt (\<lambda>x y. ?f x \<le> ?f y) ss" by (simp only: sorted_map)
    then have "sorted_wrt (\<lambda>x y. sp_sequence x \<le> sp_sequence y) ss"
      by (rule sorted_wrt_mono_rel [rotated]) (auto simp: less_eq_prod_def)
    then show ?thesis by (simp only: sorted_map)
  qed
  moreover have "distinct (map sp_sequence ss)"
    using us(2,3) by (metis mset_eq_imp_distinct_iff mset_map mset_sort)
  ultimately show ?thesis
    using us(3) by (auto simp: strict_sorted_iff)
qed

text \<open>The writes of an ordered chain, as pairs of ledger entries.\<close>

definition writes_of :: "write_step list \<Rightarrow> (dict \<times> dict) list" where
  "writes_of ss = map (\<lambda>s. (sp_action s, sp_observation s)) ss"

lemma named_observation:
  assumes "index_observations digest [] obs = Inr idx" and "map_of idx aid = Some ob"
  shows "filter (\<lambda>raw. read (as_dict raw) ''action_id'' = JStr aid) obs = [JObj ob]"
proof -
  have idx: "idx = map observation_entry obs" "distinct (map fst idx)" "\<forall>raw \<in> set obs. observation_named raw"
    using assms(1) index_observations_iff [of "[]"] by auto
  have key: "read (as_dict raw) ''action_id'' = JStr aid \<longleftrightarrow> fst (observation_entry raw) = aid"
    if "raw \<in> set obs" for raw
    using idx(3) that
    by (auto simp: observation_entry_def observation_key_def observation_named_def name_of_Some)
  have obj: "raw = JObj (snd (observation_entry raw))" if "raw \<in> set obs" for raw
    using idx(3) that by (auto simp: observation_entry_def observation_named_def elim!: mapping_of.elims)
  have one: "filter (\<lambda>raw. fst (observation_entry raw) = aid) xs = [JObj ob]"
    if "map_of (map observation_entry xs) aid = Some ob" "distinct (map fst (map observation_entry xs))"
      "set xs \<subseteq> set obs" for xs
    using that
  proof (induction xs)
    case (Cons x xs)
    show ?case
    proof (cases "fst (observation_entry x) = aid")
      case True
      then have "filter (\<lambda>raw. fst (observation_entry raw) = aid) xs = []"
        using Cons.prems(2) by (auto simp: filter_empty_conv image_iff)
      moreover have "snd (observation_entry x) = ob"
        using True Cons.prems(1) by (cases "observation_entry x") simp
      ultimately show ?thesis using True obj [of x] Cons.prems(3) by simp
    next
      case False
      then show ?thesis using Cons by (cases "observation_entry x") auto
    qed
  qed simp
  have "filter (\<lambda>raw. read (as_dict raw) ''action_id'' = JStr aid) obs =
      filter (\<lambda>raw. fst (observation_entry raw) = aid) obs"
    using key by (intro filter_cong) auto
  then show ?thesis using one [of obs] assms(2) idx(1,2) by simp
qed

lemma final_stage_Inr:
  "final_stage f fs path digest nbytes = Inr u \<Longrightarrow>
     \<exists>index. read f ''status'' = JStr ''complete'' \<and> entries_by_path [] fs = Some index \<and>
       map_of index path = Some (digest, nbytes)"
  by (auto simp: final_stage_def split: option.splits if_splits)

lemma baseline_stage_Inr:
  "baseline_stage (mapping_of baseline) bs f path digest = Inr qb \<Longrightarrow>
     \<exists>b index. baseline = JObj b \<and> read b ''status'' = JStr ''complete'' \<and> read b ''quest_id'' = JStr (fst qb) \<and>
       read f ''quest_id'' = JStr (fst qb) \<and> entries_by_path [] bs = Some index \<and> snd qb = map_of index path"
  by (auto simp: baseline_stage_def name_of_Some elim!: mapping_of.elims split: option.splits if_splits)

lemma not_observed [simp]:
  "\<not> starts_with ''shadow_unobserved_created'' ''shadow_observed_''"
  "\<not> starts_with ''shadow_existing_unchanged'' ''shadow_observed_''"
  "\<not> starts_with ''shadow_external_drift'' ''shadow_observed_''"
  "\<not> starts_with ''unrecoverable_chain_terminal_mismatch'' ''shadow_observed_''"
  by (simp_all add: starts_with_def)

lemma observed_is_shadow: "starts_with s ''shadow_observed_'' \<Longrightarrow> starts_with s ''shadow_''"
proof -
  have "starts_with s p \<Longrightarrow> starts_with s (take n p)" for p n
    by (metis min.commute length_take starts_with_def take_take)
  from this [of "''shadow_observed_''" 7] show "starts_with s ''shadow_observed_'' \<Longrightarrow> starts_with s ''shadow_''"
    by simp
qed

lemma writes_stage_observed:
  assumes "starts_with (ps_status (stage_result (writes_stage path digest nbytes acts obs (quest, baseline))))
    ''shadow_observed_''"
  obtains rel idx ss c where "relevant_actions digest path acts = Inr rel" "rel \<noteq> []"
    "index_observations digest [] obs = Inr idx" "ordered_steps digest idx rel = Inr ss"
    "chain_run digest quest path baseline ss (chain_start baseline) = Inr c"
    "cs_hash c = Some digest" "cs_size c = Some nbytes"
    "stage_result (writes_stage path digest nbytes acts obs (quest, baseline)) =
       status_result (observed_status baseline ss c) (Some digest) ''observed_chain_complete''
         (cs_action c) (cs_event c)"
proof -
  let ?w = "writes_stage path digest nbytes acts obs (quest, baseline)"
  have sh: "starts_with (ps_status (stage_result ?w)) ''shadow_''"
    by (rule observed_is_shadow [OF assms])
  obtain rel where rel: "relevant_actions digest path acts = Inr rel"
    using sh relevant_actions_early unfolding writes_stage_def
    by (cases "relevant_actions digest path acts") auto
  have ne: "rel \<noteq> []"
  proof
    assume "rel = []"
    then have "?w = Inr (unobserved_result digest nbytes baseline)" using rel by (simp add: writes_stage_def)
    then show False
      using assms
      by (auto simp: unobserved_result_def status_result_def split: option.splits if_splits prod.splits)
  qed
  obtain idx where idx: "index_observations digest [] obs = Inr idx"
    using sh index_observations_early rel ne unfolding writes_stage_def
    by (cases "index_observations digest [] obs") auto
  obtain ss where ss: "ordered_steps digest idx rel = Inr ss"
    using sh ordered_steps_early rel ne idx unfolding writes_stage_def
    by (cases "ordered_steps digest idx rel") auto
  obtain c where c: "chain_run digest quest path baseline ss (chain_start baseline) = Inr c"
    using sh chain_run_early rel ne idx ss unfolding writes_stage_def
    by (cases "chain_run digest quest path baseline ss (chain_start baseline)") auto
  have w: "stage_result ?w = chain_result digest nbytes baseline ss c"
    using rel ne idx ss c by (simp add: writes_stage_def)
  have "cs_hash c = Some digest \<and> cs_size c = Some nbytes"
    by (rule ccontr) (use assms w in \<open>simp add: chain_result_def status_result_def\<close>)
  then show thesis using that rel ne idx ss c w by (simp add: chain_result_def)
qed

text \<open>
  Claim C35. An observed provenance is justified: when the classifier says \<^verbatim>\<open>shadow_observed_*\<close>, the
  snapshots are complete and of one Quest, the artifact's path, digest and size are an entry of the final
  snapshot, no write to the path is unresolved, and the committed writes to it, each paired with the only
  observation that names it (of the same Quest, action, event and path), form in the order of
  their events a chain that starts at the content the baseline had (none for a created file) and
  ends at the artifact's digest and size; the action and the event it names are those of the last write
  of that chain.
\<close>

theorem observed_provenance_is_justified:
  assumes "starts_with (ps_status (classify_artifact_provenance artifact baseline (JList bs) final (JList fs)
      (JList acts) (JList obs))) ''shadow_observed_''"
  shows "\<exists>a b f path digest nbytes quest findex bindex ws aid event.
    artifact = JObj a \<and> baseline = JObj b \<and> final = JObj f \<and>
    artifact_values a = Some (path, digest, nbytes) \<and>
    read f ''status'' = JStr ''complete'' \<and> read b ''status'' = JStr ''complete'' \<and>
    read f ''quest_id'' = JStr quest \<and> read b ''quest_id'' = JStr quest \<and>
    entries_by_path [] fs = Some findex \<and> map_of findex path = Some (digest, nbytes) \<and>
    entries_by_path [] bs = Some bindex \<and>
    (\<forall>raw \<in> set acts. action_ok path raw) \<and>
    mset (map (\<lambda>w. JObj (fst w)) ws) = mset (filter (committed_write path) acts) \<and>
    (\<forall>w \<in> set ws. bound_write quest path obs w) \<and>
    sorted_wrt (\<lambda>v w. write_order v < write_order w) ws \<and>
    linked (map_option fst (map_of bindex path)) (map snd ws) (Some digest) \<and>
    ws \<noteq> [] \<and> read (snd (last ws)) ''after_size_bytes'' = JInt nbytes \<and>
    read (fst (last ws)) ''action_id'' = JStr aid \<and> read (fst (last ws)) ''committed_event_id'' = JInt event \<and>
    ps_action (classify_artifact_provenance artifact baseline (JList bs) final (JList fs) (JList acts)
      (JList obs)) = Some aid \<and>
    ps_event (classify_artifact_provenance artifact baseline (JList bs) final (JList fs) (JList acts)
      (JList obs)) = Some event"
proof (rule classify_shadow_parts [OF observed_is_shadow [OF assms]])
  let ?r = "classify_artifact_provenance artifact baseline (JList bs) final (JList fs) (JList acts) (JList obs)"
  fix a f path digest nbytes qb
  assume parts: "artifact = JObj a" "final = JObj f" "artifact_values a = Some (path, digest, nbytes)"
    "final_stage f fs path digest nbytes = Inr ()"
    "baseline_stage (mapping_of baseline) bs f path digest = Inr qb"
    and r: "?r = stage_result (writes_stage path digest nbytes acts obs qb)"
  obtain quest base where qb: "qb = (quest, base)" by (cases qb)
  obtain rel idx ss c where ch: "relevant_actions digest path acts = Inr rel" "rel \<noteq> []"
    "index_observations digest [] obs = Inr idx" "ordered_steps digest idx rel = Inr ss"
    "chain_run digest quest path base ss (chain_start base) = Inr c" "cs_hash c = Some digest"
    "cs_size c = Some nbytes"
    "?r = status_result (observed_status base ss c) (Some digest) ''observed_chain_complete''
         (cs_action c) (cs_event c)"
    using assms unfolding r qb by (rule writes_stage_observed)
  obtain findex where f: "read f ''status'' = JStr ''complete''" "entries_by_path [] fs = Some findex"
    "map_of findex path = Some (digest, nbytes)"
    using final_stage_Inr [OF parts(4)] by blast
  obtain b bindex where b: "baseline = JObj b" "read b ''status'' = JStr ''complete''"
    "read b ''quest_id'' = JStr quest" "read f ''quest_id'' = JStr quest"
    "entries_by_path [] bs = Some bindex" "base = map_of bindex path"
    using baseline_stage_Inr [OF parts(5)] qb by auto
  note steps = ordered_steps_facts [OF ch(4)]
  have ne: "ss \<noteq> []" using steps ch(2) by auto
  note run = chain_run_linked [OF ch(5)]
  obtain event where last: "cs_action c = Some (sp_action_id (last ss))" "cs_event c = Some event"
    "size_of (read (sp_observation (last ss)) ''after_size_bytes'') = Some nbytes"
    "step_bound quest path (last ss) event"
    using run ne ch(7) by auto
  have in_last: "last ss \<in> set ss" using ne by simp
  have acts: "(\<forall>raw \<in> set acts. action_ok path raw) \<and> rel = map as_dict (filter (committed_write path) acts)"
    using ch(1) by (simp add: relevant_actions_iff)
  have bound: "bound_write quest path obs w" if w: "w \<in> set (writes_of ss)" for w
  proof -
    obtain s where s: "s \<in> set ss" "w = (sp_action s, sp_observation s)"
      using w by (auto simp: writes_of_def)
    obtain e where e: "step_bound quest path s e" using run s(1) by blast
    have "filter (\<lambda>raw. read (as_dict raw) ''action_id'' = JStr (sp_action_id s)) obs = [JObj (sp_observation s)]"
      by (rule named_observation [OF ch(3)]) (use steps s(1) in \<open>simp add: step_named_def\<close>)
    then show ?thesis
      using e steps s by (auto simp: bound_write_def step_bound_def observation_bound_def step_named_def)
  qed
  have writes: "mset (map (\<lambda>w. JObj (fst w)) (writes_of ss)) = mset (filter (committed_write path) acts)"
  proof -
    have "map (\<lambda>raw. JObj (as_dict raw)) (filter (committed_write path) acts) = filter (committed_write path) acts"
      using acts by (intro map_idI) (auto simp: action_ok_def elim!: mapping_of.elims)
    then have "mset (map JObj rel) = mset (filter (committed_write path) acts)"
      using acts by (simp add: comp_def)
    moreover have "mset (map JObj rel) = mset (map JObj (map sp_action ss))"
      using steps by (metis mset_map)
    ultimately show ?thesis by (simp add: writes_of_def comp_def)
  qed
  have order: "sorted_wrt (\<lambda>v w. write_order v < write_order w) (writes_of ss)"
  proof -
    have "map write_order (writes_of ss) = map sp_sequence ss"
      using steps by (auto simp: writes_of_def write_order_def step_named_def)
    then show ?thesis using steps by (metis sorted_wrt_map)
  qed
  have chain: "linked (map_option fst (map_of bindex path)) (map snd (writes_of ss)) (Some digest)"
    using run ch(6) b(6) by (simp add: writes_of_def comp_def chain_start_def)
  have size: "read (snd (last (writes_of ss))) ''after_size_bytes'' = JInt nbytes"
    using last(3) ne by (auto simp: writes_of_def last_map elim!: size_of.elims split: if_splits)
  have named: "read (fst (last (writes_of ss))) ''action_id'' = JStr (sp_action_id (last ss))"
    "read (fst (last (writes_of ss))) ''committed_event_id'' = JInt event"
    using steps in_last last(4) ne by (auto simp: writes_of_def last_map step_bound_def step_named_def)
  have "ps_action ?r = Some (sp_action_id (last ss))" "ps_event ?r = Some event" "writes_of ss \<noteq> []"
    using ch(8) last ne by (simp_all add: status_result_def writes_of_def)
  then show ?thesis
    using parts(1-3) f b(1-5) acts bound writes order chain size named
    by (intro exI conjI) (assumption | simp)+
qed

text \<open>A Quest that wrote \<^verbatim>\<open>a.md\<close> twice: the first write created it, the second one changed it.\<close>

definition digest_a :: string where "digest_a = replicate 64 (CHR ''a'')"
definition digest_b :: string where "digest_b = replicate 64 (CHR ''b'')"

definition demo_snapshot :: json where
  "demo_snapshot = JObj [(''status'', JStr ''complete''), (''quest_id'', JStr ''q'')]"

definition demo_entry :: json where
  "demo_entry = JObj [(''relative_path'', JStr ''a.md''), (''sha256'', JStr digest_b), (''size'', JInt 3)]"

definition demo_artifact :: json where
  "demo_artifact = JObj [(''path'', JStr ''a.md''), (''hash'', JStr digest_b), (''size'', JInt 3)]"

definition demo_write_action :: "string \<Rightarrow> int \<Rightarrow> json" where
  "demo_write_action aid event = JObj [(''action_id'', JStr aid), (''quest_id'', JStr ''q''),
     (''tool_name'', JStr ''write_file''), (''arguments'', JObj [(''path'', JStr ''a.md'')]),
     (''status'', JStr ''committed''), (''committed_event_id'', JInt event)]"

definition demo_observation :: "string \<Rightarrow> int \<Rightarrow> json \<Rightarrow> string \<Rightarrow> int \<Rightarrow> string \<Rightarrow> json" where
  "demo_observation aid event before after n kind = JObj [(''action_id'', JStr aid), (''quest_id'', JStr ''q''),
     (''committed_event_id'', JInt event), (''committed_event_sequence'', JInt event),
     (''relative_path'', JStr ''a.md''), (''before_sha256'', before), (''after_sha256'', JStr after),
     (''after_size_bytes'', JInt n), (''change_kind'', JStr kind), (''status'', JStr ''observed'')]"

definition demo_actions :: "json list" where
  "demo_actions = [demo_write_action ''w2'' 9, demo_write_action ''w1'' 5]"

definition demo_observations :: "json list" where
  "demo_observations =
     [demo_observation ''w1'' 5 JNull digest_a 2 ''created'',
      demo_observation ''w2'' 9 (JStr digest_a) digest_b 3 ''modified'']"

lemma digests [simp]: "is_sha256 digest_a" "is_sha256 digest_b" "digest_a \<noteq> digest_b"
  by (simp_all add: digest_a_def digest_b_def is_sha256_def)

lemma demo_path [simp]: "safe_relative ''a.md''"
  by (simp add: safe_relative_def bad_relative_path_def starts_with_def)

lemma demo_classified:
  "classify_artifact_provenance demo_artifact demo_snapshot (JList []) demo_snapshot (JList [demo_entry])
     (JList demo_actions) (JList demo_observations) =
   status_result ''shadow_observed_created'' (Some digest_b) ''observed_chain_complete'' (Some ''w2'') (Some 9)"
  by (simp add: classify_artifact_provenance_def demo_artifact_def demo_snapshot_def demo_entry_def
      artifact_values_def path_from_def List.map_filter_simps dict_get_def read_def dict_get_or_def
      final_stage_def baseline_stage_def writes_stage_def demo_actions_def demo_write_action_def
      action_path_def unresolved_states_def demo_observations_def demo_observation_def
      ordered_steps_def chain_start_def chain_step_def Let_def observation_bound_def expected_kind_def
      chain_result_def observed_status_def less_eq_prod_def image_iff)

lemma demo_observed: "starts_with (ps_status (status_result ''shadow_observed_created'' d w a e)) ''shadow_observed_''"
  by (simp add: status_result_def starts_with_def)

theorem observed_provenance_is_justified_witness:
  "\<exists>ws. mset (map (\<lambda>w. JObj (fst w)) ws) = mset demo_actions \<and>
    (\<forall>w \<in> set ws. bound_write ''q'' ''a.md'' demo_observations w) \<and>
    sorted_wrt (\<lambda>v w. write_order v < write_order w) ws \<and>
    linked None (map snd ws) (Some digest_b) \<and> read (fst (last ws)) ''action_id'' = JStr ''w2''"
proof -
  have shadow: "starts_with (ps_status (classify_artifact_provenance demo_artifact demo_snapshot (JList [])
      demo_snapshot (JList [demo_entry]) (JList demo_actions) (JList demo_observations))) ''shadow_observed_''"
    unfolding demo_classified by (rule demo_observed)
  obtain a b path digest nbytes quest bindex ws aid where ex: "demo_artifact = JObj a" "demo_snapshot = JObj b"
    "artifact_values a = Some (path, digest, nbytes)" "read b ''quest_id'' = JStr quest"
    "entries_by_path [] [] = Some bindex"
    "mset (map (\<lambda>w. JObj (fst w)) ws) = mset (filter (committed_write path) demo_actions)"
    "\<forall>w \<in> set ws. bound_write quest path demo_observations w"
    "sorted_wrt (\<lambda>v w. write_order v < write_order w) ws"
    "linked (map_option fst (map_of bindex path)) (map snd ws) (Some digest)"
    "read (fst (last ws)) ''action_id'' = JStr aid"
    "ps_action (classify_artifact_provenance demo_artifact demo_snapshot (JList []) demo_snapshot
      (JList [demo_entry]) (JList demo_actions) (JList demo_observations)) = Some aid"
    using observed_provenance_is_justified [OF shadow] by blast
  have "path = ''a.md''" "digest = digest_b" "quest = ''q''" "aid = ''w2''"
    using ex(1-4) ex(11) unfolding demo_classified
    by (auto simp: demo_artifact_def demo_snapshot_def artifact_values_def path_from_def List.map_filter_simps
        dict_get_def read_def dict_get_or_def status_result_def)
  moreover have "filter (committed_write ''a.md'') demo_actions = demo_actions"
    by (simp add: demo_actions_def demo_write_action_def committed_write_def writes_path_def action_path_def
        path_from_def List.map_filter_simps dict_get_def read_def dict_get_or_def)
  ultimately show ?thesis using ex(5-10) by (intro exI [of _ ws]) auto
qed

theorem provenance_ignores_ledger_order_witness:
  "classify_artifact_provenance demo_artifact demo_snapshot (JList []) demo_snapshot (JList [demo_entry])
     (JList (rev demo_actions)) (JList (rev demo_observations)) =
   status_result ''shadow_observed_created'' (Some digest_b) ''observed_chain_complete'' (Some ''w2'') (Some 9)"
proof -
  have shadow: "starts_with (ps_status (classify_artifact_provenance demo_artifact demo_snapshot (JList [])
      demo_snapshot (JList [demo_entry]) (JList demo_actions) (JList demo_observations))) ''shadow_''"
    unfolding demo_classified by (rule observed_is_shadow [OF demo_observed])
  show ?thesis
    using provenance_ignores_ledger_order [OF shadow, of "rev demo_actions" "rev demo_observations"]
    by (simp add: demo_classified)
qed

end
