(* ===== verification/Verifier.thy ===== *)
theory Verifier
  imports Tool_Files Planning
begin

text \<open>
  The deterministic verifier of \<^verbatim>\<open>backend/app/v1/verifier.py\<close>: a criterion is judged on the world as
  it is now, the verdict is recorded as evidence with the digest of what was read, and evidence from
  an earlier reading counts only while the digest is still the same.
\<close>

section \<open>Evidence and results\<close>

record evidence =
  evi_id :: string
  evi_quest :: "string option"
  evi_milestone :: "string option"
  evi_criterion :: string
  evi_criterion_version :: int
  evi_verifier :: string
  evi_verifier_version :: string
  evi_path :: "string option"
  evi_hash :: "string option"
  evi_attempt :: "string option"
  evi_sequence :: "int option"
  evi_passed :: bool
  evi_details :: dict
  evi_created :: "string option"

record verification_result =
  vr_id :: string
  vr_quest :: "string option"
  vr_milestone :: "string option"
  vr_criterion :: string
  vr_criterion_version :: int
  vr_verifier :: string
  vr_verifier_version :: string
  vr_passed :: bool
  vr_evidence :: evidence
  vr_reason :: "string option"
  vr_created :: "string option"

text \<open>
  What the verifier takes from the standard library: the digest of a canonical JSON value and of
  bytes, \<^verbatim>\<open>ast.parse\<close> (the message of its \<^verbatim>\<open>SyntaxError\<close>, if any), \<^verbatim>\<open>json.loads\<close> (its message or the
  value), the message of a \<^verbatim>\<open>UnicodeDecodeError\<close>, and \<^verbatim>\<open>str\<close> of an argument.
\<close>

record host =
  ho_sha :: "json \<Rightarrow> string"
  ho_bsha :: "string \<Rightarrow> string"
  ho_ast :: "string \<Rightarrow> string option"
  ho_loads :: "string \<Rightarrow> string + json"
  ho_decode_error :: "string \<Rightarrow> string"
  ho_str :: "json \<Rightarrow> string"

text \<open>The keyword arguments of \<^verbatim>\<open>verify\<close>.\<close>

record verify_context =
  vc_quest :: "string option"
  vc_milestone :: "string option"
  vc_version :: int
  vc_attempt :: "string option"
  vc_sequence :: "int option"

definition verifier_name :: string where
  "verifier_name = ''projecttown.deterministic''"

definition verifier_version :: string where
  "verifier_version = ''1.0''"

section \<open>Exceptions the verifier turns into a verdict\<close>

text \<open>\<^verbatim>\<open>str(exc)\<close>, and the test \<^verbatim>\<open>except (OSError, ToolError, UnicodeError, ValueError)\<close>.\<close>

fun exc_text :: "exc \<Rightarrow> string" where
  "exc_text (ToolExc c m d) = m"
| "exc_text (InjectedFault p) = p"
| "exc_text (AppExc c m n) = m"
| "exc_text (OtherExc c m) = m"

definition verdict_exceptions :: "string list" where
  "verdict_exceptions =
     [''OSError'', ''FileExistsError'', ''FileNotFoundError'', ''IsADirectoryError'',
      ''NotADirectoryError'', ''PermissionError'', ''UnicodeError'', ''UnicodeDecodeError'',
      ''ValueError'']"

fun verdict_exc :: "exc \<Rightarrow> bool" where
  "verdict_exc (ToolExc c m d) \<longleftrightarrow> True"
| "verdict_exc (OtherExc c m) \<longleftrightarrow> c \<in> set verdict_exceptions"
| "verdict_exc _ \<longleftrightarrow> False"

section \<open>Judging an artifact\<close>

record inspection =
  in_passed :: bool
  in_reason :: string
  in_hash :: "string option"
  in_details :: dict

text \<open>\<^verbatim>\<open>_normalize_path\<close>: \<^verbatim>\<open>lstrip("./")\<close> strips every leading dot and slash, not the prefix.\<close>

definition normalize_path :: "string \<Rightarrow> string" where
  "normalize_path p = dropWhile (\<lambda>c. c = CHR ''.'' \<or> c = CHR ''/'') (as_posix (path_parts p))"

definition rstrip_slash :: "string \<Rightarrow> string" where
  "rstrip_slash s = rev (dropWhile (\<lambda>c. c = CHR ''/'') (rev s))"

definition in_scope :: "string \<Rightarrow> string \<Rightarrow> bool" where
  "in_scope allowed p \<longleftrightarrow> p = allowed \<or> starts_with p (rstrip_slash allowed @ ''/'')"

definition outside_paths :: "acceptance_criterion \<Rightarrow> string list" where
  "outside_paths cr =
     sort (filter (\<lambda>p. \<not> (\<exists>a \<in> set (map normalize_path (c_allowed_paths cr)). in_scope a p))
       (remdups (map normalize_path (c_changed_paths cr))))"

definition diff_scope :: "host \<Rightarrow> acceptance_criterion \<Rightarrow> inspection" where
  "diff_scope ho cr =
     \<lparr>in_passed = (outside_paths cr = []),
      in_reason = (if outside_paths cr = [] then ''ok'' else ''changed paths outside allowed scope''),
      in_hash = Some (stable_hash (ho_sha ho)
        (JObj [(''allowed_paths'', json_strs (c_allowed_paths cr)),
               (''changed_paths'', json_strs (c_changed_paths cr))])),
      in_details = [(''outside_paths'', json_strs (outside_paths cr)),
        (''changed_count'',
         JInt (int (length (remdups (map normalize_path (c_changed_paths cr))))))]\<rparr>"

text \<open>A check returns its verdict and reason, or the message of the exception it raises.\<close>

definition check_markdown_artifact :: "host \<Rightarrow> node option \<Rightarrow> string + bool \<times> string" where
  "check_markdown_artifact ho n =
     (case n of
        Some (RegFile bytes) \<Rightarrow>
          if utf8_decode bytes = None then Inl (ho_decode_error ho bytes)
          else (let text = read_newlines bytes;
                    ok = (\<not> is_blank text \<and> even (fence_count text))
                in Inr (ok, if ok then ''ok'' else ''empty or unclosed markdown fence''))
      | _ \<Rightarrow> Inr (False, ''missing markdown artifact''))"

definition check_python_artifact :: "host \<Rightarrow> node option \<Rightarrow> string + bool \<times> string" where
  "check_python_artifact ho n =
     (case n of
        Some (RegFile bytes) \<Rightarrow>
          if utf8_decode bytes = None then Inr (False, ho_decode_error ho bytes)
          else (case ho_ast ho (read_newlines bytes) of
                  Some msg \<Rightarrow> Inr (False, msg)
                | None \<Rightarrow> Inr (True, ''ok''))
      | _ \<Rightarrow> Inr (False, ''missing python artifact''))"

definition missing_keys :: "json \<Rightarrow> string list \<Rightarrow> string list" where
  "missing_keys v required =
     filter (\<lambda>k. case v of JObj d \<Rightarrow> dict_get d k = None | _ \<Rightarrow> True) required"

definition check_json_artifact :: "host \<Rightarrow> node option \<Rightarrow> string list \<Rightarrow> string + bool \<times> string" where
  "check_json_artifact ho n required =
     (case n of
        Some (RegFile bytes) \<Rightarrow>
          if utf8_decode bytes = None then Inr (False, ho_decode_error ho bytes)
          else (case ho_loads ho (read_newlines bytes) of
                  Inl msg \<Rightarrow> Inr (False, msg)
                | Inr v \<Rightarrow>
                    let missing = missing_keys v required
                    in Inr (missing = [], if missing = [] then ''ok''
                         else ''missing required keys: '' @ join '', '' missing))
      | _ \<Rightarrow> Inr (False, ''missing json artifact''))"

definition judge_artifact :: "host \<Rightarrow> acceptance_criterion \<Rightarrow> node option \<Rightarrow> string + bool \<times> string" where
  "judge_artifact ho cr n =
     (case c_kind cr of
        FileExistsNonempty \<Rightarrow>
          let ok = (case n of Some (RegFile bytes) \<Rightarrow> bytes \<noteq> [] | _ \<Rightarrow> False)
          in Inr (ok, if ok then ''ok'' else ''missing or empty artifact'')
      | Markdown \<Rightarrow> check_markdown_artifact ho n
      | PythonSyntax \<Rightarrow> check_python_artifact ho n
      | JsonSchema \<Rightarrow> check_json_artifact ho n (c_required_keys cr)
      | DiffScope \<Rightarrow> Inr (False, []))"

definition verdict_of :: "string + bool \<times> string \<Rightarrow> string option \<Rightarrow> dict \<Rightarrow> inspection" where
  "verdict_of j digest details =
     \<lparr>in_passed = (case j of Inr (ok, _) \<Rightarrow> ok | Inl _ \<Rightarrow> False),
      in_reason = (case j of Inr (_, reason) \<Rightarrow> reason | Inl msg \<Rightarrow> msg),
      in_hash = digest, in_details = details\<rparr>"

definition inspect_node :: "host \<Rightarrow> sandbox \<Rightarrow> acceptance_criterion \<Rightarrow> node option \<Rightarrow> inspection" where
  "inspect_node ho sb cr n =
     (case n of
        Some (RegFile bytes) \<Rightarrow>
          let details = [(''size_bytes'', JInt (int (length bytes)))]
          in if length bytes > sb_max_bytes sb
             then verdict_of (Inl ''artifact exceeds verifier size limit'') None details
             else verdict_of (judge_artifact ho cr n) (Some (ho_bsha ho bytes)) details
      | _ \<Rightarrow> verdict_of (judge_artifact ho cr n) None [])"

definition inspect_artifact ::
    "host \<Rightarrow> sandbox \<Rightarrow> acceptance_criterion \<Rightarrow> string \<Rightarrow> (fs, inspection) act" where
  "inspect_artifact ho sb cr ws w =
     (if c_kind cr = DiffScope then (Inr (diff_scope ho cr), w)
      else case c_path cr of
        None \<Rightarrow> (Inr (verdict_of (Inl ''criterion path is required'') None []), w)
      | Some rel \<Rightarrow>
          if rel = [] then (Inr (verdict_of (Inl ''criterion path is required'') None []), w)
          else case sandbox_resolve sb ws rel False False True w of
            (Inl e, w') \<Rightarrow>
              (if verdict_exc e then Inr (verdict_of (Inl (exc_text e)) None []) else Inl e, w')
          | (Inr p, w') \<Rightarrow> (Inr (inspect_node ho sb cr (w' p)), w'))"

section \<open>Evidence\<close>

definition str_or_empty :: "string option \<Rightarrow> string" where
  "str_or_empty x = (case x of Some s \<Rightarrow> s | None \<Rightarrow> [])"

definition evidence_id ::
    "host \<Rightarrow> string option \<Rightarrow> string \<Rightarrow> string option \<Rightarrow> string option \<Rightarrow> int option \<Rightarrow> string" where
  "evidence_id ho quest criterion digest attempt sequence =
     take 24 (ho_bsha ho (join ''|''
       [str_or_empty quest, criterion, str_or_empty digest, str_or_empty attempt,
        case sequence of Some n \<Rightarrow> int_text n | None \<Rightarrow> []]))"

text \<open>The constraints of the model \<^verbatim>\<open>Evidence\<close> on its integers.\<close>

definition evidence_valid :: "int \<Rightarrow> int option \<Rightarrow> bool" where
  "evidence_valid version sequence \<longleftrightarrow> 1 \<le> version \<and> (\<forall>n \<in> set_option sequence. 1 \<le> n)"

definition same_source ::
    "evidence \<Rightarrow> evidence \<Rightarrow> string option \<Rightarrow> int option \<Rightarrow> bool" where
  "same_source previous current attempt sequence \<longleftrightarrow>
     evi_criterion previous = evi_criterion current \<and>
     evi_criterion_version previous = evi_criterion_version current \<and>
     evi_verifier previous = evi_verifier current \<and>
     evi_verifier_version previous = evi_verifier_version current \<and>
     evi_hash previous = evi_hash current \<and>
     evi_path previous = evi_path current \<and>
     (attempt \<noteq> None \<longrightarrow> evi_attempt previous = attempt) \<and>
     (sequence \<noteq> None \<longrightarrow> evi_sequence previous = sequence)"

definition current_evidence ::
    "host \<Rightarrow> acceptance_criterion \<Rightarrow> verify_context \<Rightarrow> inspection \<Rightarrow> evidence" where
  "current_evidence ho cr vc i =
     \<lparr>evi_id = evidence_id ho (vc_quest vc) (c_id cr) (in_hash i) (vc_attempt vc) (vc_sequence vc),
      evi_quest = vc_quest vc, evi_milestone = vc_milestone vc, evi_criterion = c_id cr,
      evi_criterion_version = vc_version vc, evi_verifier = verifier_name,
      evi_verifier_version = verifier_version, evi_path = c_path cr, evi_hash = in_hash i,
      evi_attempt = vc_attempt vc, evi_sequence = vc_sequence vc, evi_passed = in_passed i,
      evi_details = in_details i, evi_created = None\<rparr>"

definition verification_id :: "host \<Rightarrow> string \<Rightarrow> int \<Rightarrow> string \<Rightarrow> bool \<Rightarrow> string" where
  "verification_id ho criterion version evidence passed =
     take 24 (stable_hash (ho_sha ho)
       (JObj [(''criterion_id'', JStr criterion), (''criterion_version'', JInt version),
              (''evidence_id'', JStr evidence), (''passed'', JBool passed)]))"

definition result_of ::
    "host \<Rightarrow> acceptance_criterion \<Rightarrow> verify_context \<Rightarrow> evidence \<Rightarrow> bool \<Rightarrow> string \<Rightarrow> verification_result" where
  "result_of ho cr vc current passed reason =
     \<lparr>vr_id = verification_id ho (c_id cr) (vc_version vc) (evi_id current) passed,
      vr_quest = vc_quest vc, vr_milestone = vc_milestone vc, vr_criterion = c_id cr,
      vr_criterion_version = vc_version vc, vr_verifier = verifier_name,
      vr_verifier_version = verifier_version, vr_passed = passed, vr_evidence = current,
      vr_reason = (if reason = [] then None else Some reason), vr_created = None\<rparr>"

definition conclude ::
    "host \<Rightarrow> acceptance_criterion \<Rightarrow> verify_context \<Rightarrow> evidence option \<Rightarrow> inspection \<Rightarrow>
     verification_result" where
  "conclude ho cr vc evidence i =
     (let current = current_evidence ho cr vc i
      in case evidence of
           Some e \<Rightarrow>
             if same_source e current (vc_attempt vc) (vc_sequence vc)
             then result_of ho cr vc current (in_passed i) (in_reason i)
             else result_of ho cr vc (current\<lparr>evi_passed := False\<rparr>) False ''stale or tampered evidence''
         | None \<Rightarrow> result_of ho cr vc current (in_passed i) (in_reason i))"

definition verify ::
    "host \<Rightarrow> sandbox \<Rightarrow> acceptance_criterion \<Rightarrow> string \<Rightarrow> verify_context \<Rightarrow> evidence option \<Rightarrow>
     (fs, verification_result) act" where
  "verify ho sb cr ws vc evidence =
     act_bind (inspect_artifact ho sb cr ws) (\<lambda>i.
       if \<not> evidence_valid (vc_version vc) (vc_sequence vc)
       then act_raise (OtherExc ''ValidationError'' [])
       else act_return (conclude ho cr vc evidence i))"

text \<open>\<^verbatim>\<open>verify_all\<close>: one reading after the other.\<close>

fun verify_each ::
    "host \<Rightarrow> sandbox \<Rightarrow> acceptance_criterion list \<Rightarrow> string \<Rightarrow> verify_context \<Rightarrow> evidence option \<Rightarrow>
     (fs, verification_result list) act" where
  "verify_each ho sb [] ws vc evidence = act_return []"
| "verify_each ho sb (cr # crs) ws vc evidence =
     act_bind (verify ho sb cr ws vc evidence) (\<lambda>r.
     act_bind (verify_each ho sb crs ws vc evidence) (\<lambda>rs. act_return (r # rs)))"

definition required_passed :: "acceptance_criterion list \<Rightarrow> verification_result list \<Rightarrow> bool" where
  "required_passed crs rs \<longleftrightarrow> (\<forall>(cr, r) \<in> set (zip crs rs). c_required cr \<longrightarrow> vr_passed r)"

definition verify_all ::
    "host \<Rightarrow> sandbox \<Rightarrow> acceptance_criterion list \<Rightarrow> string \<Rightarrow> verify_context \<Rightarrow> evidence option \<Rightarrow>
     (fs, bool \<times> verification_result list) act" where
  "verify_all ho sb crs ws vc evidence =
     act_bind (verify_each ho sb crs ws vc evidence) (\<lambda>rs. act_return (required_passed crs rs, rs))"

section \<open>Repeating an observation\<close>

definition observable_tools :: "string list" where
  "observable_tools = [''list_directory'', ''read_file'', ''check_markdown'', ''check_python_syntax'']"

record observation_call =
  oc_criterion :: string
  oc_tool :: string
  oc_workspace :: string
  oc_arguments :: dict
  oc_quest :: string
  oc_milestone :: string
  oc_attempt :: string
  oc_sequence :: int

text \<open>\<^verbatim>\<open>arguments.get("path")\<close> as the artifact path: falsy values count as absent.\<close>

definition argument_path :: "host \<Rightarrow> dict \<Rightarrow> string option" where
  "argument_path ho args =
     (case dict_get args ''path'' of
        Some (JStr s) \<Rightarrow> if s = [] then None else Some s
      | Some v \<Rightarrow> if truthy v then Some (ho_str ho v) else None
      | None \<Rightarrow> None)"

definition tool_exc_json :: "string \<Rightarrow> string \<Rightarrow> dict \<Rightarrow> json" where
  "tool_exc_json code msg details =
     JObj [(''code'', JStr code), (''message'', JStr msg), (''details'', JObj details),
           (''retryable'', JBool False)]"

definition observation_result ::
    "host \<Rightarrow> observation_call \<Rightarrow> dict \<Rightarrow> bool \<Rightarrow> string \<Rightarrow> verification_result" where
  "observation_result ho oc result passed reason =
     (let digest = stable_hash (ho_sha ho) (JObj result);
          eid = evidence_id ho (Some (oc_quest oc)) (oc_criterion oc) (Some digest)
            (Some (oc_attempt oc)) (Some (oc_sequence oc))
      in \<lparr>vr_id = take 24 (stable_hash (ho_sha ho)
            (JObj [(''criterion_id'', JStr (oc_criterion oc)), (''evidence_id'', JStr eid),
                   (''passed'', JBool passed)])),
          vr_quest = Some (oc_quest oc), vr_milestone = Some (oc_milestone oc),
          vr_criterion = oc_criterion oc, vr_criterion_version = 1, vr_verifier = verifier_name,
          vr_verifier_version = verifier_version, vr_passed = passed,
          vr_evidence =
            \<lparr>evi_id = eid, evi_quest = Some (oc_quest oc), evi_milestone = Some (oc_milestone oc),
             evi_criterion = oc_criterion oc, evi_criterion_version = 1, evi_verifier = verifier_name,
             evi_verifier_version = verifier_version, evi_path = argument_path ho (oc_arguments oc),
             evi_hash = Some digest, evi_attempt = Some (oc_attempt oc),
             evi_sequence = Some (oc_sequence oc), evi_passed = passed,
             evi_details = [(''tool_name'', JStr (oc_tool oc)),
               (''result_keys'', json_strs (sort (map fst result)))],
             evi_created = None\<rparr>,
          vr_reason = Some reason, vr_created = None\<rparr>)"

text \<open>
  A tool returns an object (its declared type); for a value that is none, taking its sorted keys
  fails, which the model gives as the \<^verbatim>\<open>TypeError\<close> of a value without keys.
\<close>

definition verify_read_only_tool :: "host \<Rightarrow> registry option \<Rightarrow> observation_call \<Rightarrow>
    (fs, verification_result) act" where
  "verify_read_only_tool ho reg oc =
     (case reg of
        None \<Rightarrow> act_raise (OtherExc ''RuntimeError'' ''tool registry is required for tool observation'')
      | Some tools \<Rightarrow>
          if oc_tool oc \<notin> set observable_tools
          then act_raise (OtherExc ''ValueError'' ''only read-only tools can be re-run by the verifier'')
          else (\<lambda>w.
            let finish = (\<lambda>result passed reason w'.
              if oc_sequence oc < 1 then (Inl (OtherExc ''ValidationError'' []), w')
              else (Inr (observation_result ho oc result passed reason), w'))
            in case registry_execute tools (oc_tool oc) (oc_workspace oc) (oc_arguments oc) w of
              (Inr (JObj result), w') \<Rightarrow> finish result True ''ok'' w'
            | (Inr _, w') \<Rightarrow> (Inl (OtherExc ''TypeError'' []), w')
            | (Inl (ToolExc code msg details), w') \<Rightarrow>
                finish [(''error'', tool_exc_json code msg details)] False msg w'
            | (Inl e, w') \<Rightarrow> (Inl e, w')))"

end
