(* ===== verification/Verifier_Properties.thy ===== *)
theory Verifier_Properties
  imports Verifier
begin

text \<open>
  What a verdict means: the specification of every kind of criterion over the world as it is, the
  agreement of the verifier with it, and what evidence from an earlier reading is worth.
\<close>

section \<open>The scope of a change, by path components\<close>

lemma starts_with_Cons: "starts_with (x # xs) (y # ys) \<longleftrightarrow> x = y \<and> starts_with xs ys"
  by (auto simp: starts_with_def)

lemma py_split_ne [simp]: "py_split c s \<noteq> []"
  by (cases s) (auto split: list.splits)

lemma py_split_no_sep: "x \<in> set (py_split c s) \<Longrightarrow> c \<notin> set x"
proof (induction s arbitrary: x)
  case Nil
  then show ?case by simp
next
  case (Cons y s)
  obtain p ps where s: "py_split c s = p # ps" by (cases "py_split c s") auto
  then show ?case using Cons by (auto split: if_splits)
qed

lemma py_split_prefix:
  "prefix (py_split c a) (py_split c s) \<longleftrightarrow> s = a \<or> starts_with s (a @ [c])"
proof (induction a arbitrary: s)
  case Nil
  then show ?case
    by (cases s) (auto simp: starts_with_def split: list.splits)
next
  case (Cons x a)
  obtain p ps where a: "py_split c a = p # ps" by (cases "py_split c a") auto
  show ?case
  proof (cases s)
    case Nil
    then show ?thesis using a py_split_ne [of c a] by (auto simp: starts_with_def prefix_Nil)
  next
    case (Cons y s')
    obtain q qs where s': "py_split c s' = q # qs" by (cases "py_split c s'") auto
    show ?thesis
      using Cons.IH [of s'] Cons a s' by (auto simp: starts_with_Cons)
  qed
qed

lemma join_last:
  "xs \<noteq> [] \<Longrightarrow> last xs \<noteq> [] \<Longrightarrow> join sep xs \<noteq> [] \<and> last (join sep xs) = last (last xs)"
  by (induction sep xs rule: join.induct) auto

lemma path_parts_name: "c \<in> set (path_parts s) \<Longrightarrow> c \<noteq> [] \<and> CHR ''/'' \<notin> set c"
  by (auto simp: path_parts_def dest: py_split_no_sep)

lemma normalize_path_last: "normalize_path s \<noteq> [] \<Longrightarrow> last (normalize_path s) \<noteq> CHR ''/''"
proof -
  assume ne: "normalize_path s \<noteq> []"
  have "as_posix (path_parts s) \<noteq> []" using ne by (auto simp: normalize_path_def)
  then have p: "path_parts s \<noteq> []" by (auto simp: as_posix_def)
  then have l: "last (path_parts s) \<noteq> [] \<and> CHR ''/'' \<notin> set (last (path_parts s))"
    using path_parts_name last_in_set by blast
  have "last (normalize_path s) = last (as_posix (path_parts s))"
    using ne unfolding normalize_path_def
    by (metis append_Nil2 last_appendR takeWhile_dropWhile_id)
  then show ?thesis using join_last [OF p] l unfolding as_posix_def by (metis last_in_set)
qed

lemma rstrip_normal [simp]: "rstrip_slash (normalize_path s) = normalize_path s"
  using normalize_path_last [of s]
  by (cases "normalize_path s" rule: rev_cases) (auto simp: rstrip_slash_def)

lemma py_split_join:
  "xs \<noteq> [] \<Longrightarrow> \<forall>x \<in> set xs. c \<notin> set x \<Longrightarrow> py_split c (join [c] xs) = xs"
proof (induction "[c]" xs rule: join.induct)
  case (2 x)
  then show ?case
  proof (induction x)
    case (Cons a x)
    then show ?case by (auto split: list.splits)
  qed simp
next
  case (3 x y xs)
  have "py_split c (z @ c # r) = z # py_split c r" if "c \<notin> set z" for z r
    using that by (induction z) auto
  then show ?case using 3 by simp
qed simp

text \<open>
  What the code compares: the components of the two paths, without leading dots. A leading \<^verbatim>\<open>..\<close> and the
  dot of a hidden name are dropped like a \<^verbatim>\<open>./\<close>, and so is a leading slash.
\<close>

fun drop_dots :: "path \<Rightarrow> path" where
  "drop_dots [] = []"
| "drop_dots (c # cs) =
     (let c' = dropWhile (\<lambda>x. x = CHR ''.'') c in if c' = [] then drop_dots cs else c' # cs)"

definition bare :: "string \<Rightarrow> path" where
  "bare s = drop_dots (path_parts s)"

definition bare_within :: "string \<Rightarrow> string \<Rightarrow> bool" where
  "bare_within a p \<longleftrightarrow> (if bare a = [] then bare p = [] else prefix (bare a) (bare p))"

lemma drop_dots_join:
  "\<forall>c \<in> set cs. c \<noteq> [] \<and> CHR ''/'' \<notin> set c \<Longrightarrow>
     dropWhile (\<lambda>c. c = CHR ''.'' \<or> c = CHR ''/'') (join ''/'' cs) = join ''/'' (drop_dots cs)"
proof (induction "''/''" cs rule: join.induct)
  case (2 x)
  have "dropWhile (\<lambda>c. c = CHR ''.'' \<or> c = CHR ''/'') x = dropWhile (\<lambda>c. c = CHR ''.'') x"
    using 2 by (intro dropWhile_cong) auto
  then show ?case by (simp add: Let_def)
next
  case (3 x y xs)
  have x: "dropWhile (\<lambda>c. c = CHR ''.'' \<or> c = CHR ''/'') x = dropWhile (\<lambda>c. c = CHR ''.'') x"
    using 3(2) by (intro dropWhile_cong) auto
  have join_Cons: "z # zs \<noteq> [z] \<Longrightarrow> join ''/'' (z # zs) = z @ ''/'' @ join ''/'' zs" for z :: string and zs
    by (cases zs) simp_all
  show ?case
  proof (cases "dropWhile (\<lambda>c. c = CHR ''.'') x = []")
    case True
    then have "\<forall>c \<in> set x. c = CHR ''.'' \<or> c = CHR ''/''" by (auto simp: dropWhile_eq_Nil_conv)
    then have "dropWhile (\<lambda>c. c = CHR ''.'' \<or> c = CHR ''/'') (x @ ''/'' @ join ''/'' (y # xs)) =
        dropWhile (\<lambda>c. c = CHR ''.'' \<or> c = CHR ''/'') (join ''/'' (y # xs))"
      by (simp add: dropWhile_append2)
    then show ?thesis using 3 True by simp
  next
    case False
    then have "dropWhile (\<lambda>c. c = CHR ''.'' \<or> c = CHR ''/'') (x @ ''/'' @ join ''/'' (y # xs)) =
        dropWhile (\<lambda>c. c = CHR ''.'') x @ ''/'' @ join ''/'' (y # xs)"
      unfolding x [symmetric] by (auto simp: dropWhile_eq_Nil_conv dropWhile_append1)
    moreover have "drop_dots (x # y # xs) = dropWhile (\<lambda>c. c = CHR ''.'') x # y # xs"
      by (simp only: drop_dots.simps(2) [of x] Let_def False if_False)
    moreover have "join ''/'' (z # y # xs) = z @ ''/'' @ join ''/'' (y # xs)" for z by (rule join_Cons) simp
    ultimately show ?thesis by (simp only:)
  qed
qed simp

lemma drop_dots_names:
  "\<forall>c \<in> set cs. c \<noteq> [] \<and> CHR ''/'' \<notin> set c \<Longrightarrow> \<forall>c \<in> set (drop_dots cs). c \<noteq> [] \<and> CHR ''/'' \<notin> set c"
  by (induction cs) (auto simp: Let_def dest: set_dropWhileD)

lemma split_normal: "py_split (CHR ''/'') (normalize_path s) = (if bare s = [] then [[]] else bare s)"
proof -
  have n: "\<forall>c \<in> set (path_parts s). c \<noteq> [] \<and> CHR ''/'' \<notin> set c" using path_parts_name by blast
  have eq: "normalize_path s = join ''/'' (bare s)"
    using drop_dots_join [OF n] by (simp add: normalize_path_def as_posix_def bare_def)
  have "\<forall>c \<in> set (bare s). CHR ''/'' \<notin> set c" using drop_dots_names [OF n] by (simp add: bare_def)
  then show ?thesis using py_split_join [of "bare s" "CHR ''/''"] by (simp add: eq)
qed

lemma in_scope_bare: "in_scope (normalize_path a) (normalize_path p) \<longleftrightarrow> bare_within a p"
proof -
  have n: "\<forall>c \<in> set (bare p). c \<noteq> []" using drop_dots_names path_parts_name unfolding bare_def by blast
  have "in_scope (normalize_path a) (normalize_path p) \<longleftrightarrow>
      prefix (py_split (CHR ''/'') (normalize_path a)) (py_split (CHR ''/'') (normalize_path p))"
    by (simp add: in_scope_def py_split_prefix)
  also have "\<dots> \<longleftrightarrow> bare_within a p"
  proof (cases "bare a = []")
    case True
    then show ?thesis using n unfolding split_normal bare_within_def by (cases "bare p") auto
  next
    case False
    moreover have "\<forall>c \<in> set (bare a). c \<noteq> []" using drop_dots_names path_parts_name unfolding bare_def by blast
    ultimately show ?thesis unfolding split_normal bare_within_def by (cases "bare a") auto
  qed
  finally show ?thesis .
qed

definition scope_kept :: "acceptance_criterion \<Rightarrow> bool" where
  "scope_kept cr \<longleftrightarrow>
     (\<forall>p \<in> set (c_changed_paths cr). \<exists>a \<in> set (c_allowed_paths cr). bare_within a p)"

text \<open>
  A path that is relative and whose first component does not begin with a dot is compared as it is: then
  the changed path has to be the allowed one or below it.
\<close>

definition plain_path :: "string \<Rightarrow> bool" where
  "plain_path s \<longleftrightarrow> \<not> is_absolute s \<and> path_parts s \<noteq> [] \<and> \<not> starts_with (hd (path_parts s)) ''.''"

definition plain_scope :: "acceptance_criterion \<Rightarrow> bool" where
  "plain_scope cr \<longleftrightarrow> (\<forall>p \<in> set (c_changed_paths cr) \<union> set (c_allowed_paths cr). plain_path p)"

definition all_below :: "acceptance_criterion \<Rightarrow> bool" where
  "all_below cr \<longleftrightarrow>
     (\<forall>p \<in> set (c_changed_paths cr). \<exists>a \<in> set (c_allowed_paths cr). prefix (path_parts a) (path_parts p))"

lemma bare_plain: "plain_path s \<Longrightarrow> bare s = path_parts s"
proof -
  assume p: "plain_path s"
  then obtain c cs where c: "path_parts s = c # cs" by (cases "path_parts s") (auto simp: plain_path_def)
  then have "c \<noteq> []" using path_parts_name [of c s] by simp
  moreover have "hd c \<noteq> CHR ''.''" using p c \<open>c \<noteq> []\<close>
    by (cases c) (auto simp: plain_path_def starts_with_def)
  ultimately have "dropWhile (\<lambda>x. x = CHR ''.'') c = c" by (cases c) auto
  then show ?thesis using c \<open>c \<noteq> []\<close> by (simp add: bare_def)
qed

lemma scope_plain: "plain_scope cr \<Longrightarrow> scope_kept cr = all_below cr"
proof -
  assume pl: "plain_scope cr"
  have "bare_within a p = prefix (path_parts a) (path_parts p)"
    if "p \<in> set (c_changed_paths cr)" "a \<in> set (c_allowed_paths cr)" for a p
    using that pl bare_plain by (auto simp: plain_scope_def bare_within_def plain_path_def)
  then show ?thesis by (simp add: scope_kept_def all_below_def)
qed

lemma sort_empty: "sort xs = [] \<longleftrightarrow> xs = []"
  by (metis length_0_conv length_sort)

lemma outside_paths_empty: "outside_paths cr = [] \<longleftrightarrow> scope_kept cr"
proof -
  have "outside_paths cr = [] \<longleftrightarrow>
      filter (\<lambda>p. \<not> (\<exists>a \<in> set (map normalize_path (c_allowed_paths cr)). in_scope a p))
        (remdups (map normalize_path (c_changed_paths cr))) = []"
    unfolding outside_paths_def by (simp only: sort_empty)
  also have "\<dots> \<longleftrightarrow> scope_kept cr"
    unfolding filter_empty_conv scope_kept_def by (simp add: in_scope_bare)
  finally show ?thesis .
qed

section \<open>What a criterion asks of the world\<close>

definition content_meets :: "host \<Rightarrow> acceptance_criterion \<Rightarrow> string \<Rightarrow> bool" where
  "content_meets ho cr bytes \<longleftrightarrow>
     (case c_kind cr of
        FileExistsNonempty \<Rightarrow> bytes \<noteq> []
      | Markdown \<Rightarrow> utf8_decode bytes \<noteq> None \<and> \<not> is_blank (read_newlines bytes) \<and>
          even (fence_count (read_newlines bytes))
      | PythonSyntax \<Rightarrow> utf8_decode bytes \<noteq> None \<and> ho_ast ho (read_newlines bytes) = None
      | JsonSchema \<Rightarrow> utf8_decode bytes \<noteq> None \<and>
          (\<exists>v. ho_loads ho (read_newlines bytes) = Inr v \<and>
             (\<forall>k \<in> set (c_required_keys cr). \<exists>d x. v = JObj d \<and> dict_get d k = Some x))
      | DiffScope \<Rightarrow> False)"

text \<open>The file at a path of a workspace, as the sandbox resolves it now.\<close>

definition artifact_at :: "sandbox \<Rightarrow> string \<Rightarrow> string \<Rightarrow> fs \<Rightarrow> string option" where
  "artifact_at sb ws rel w =
     (case sandbox_resolve sb ws rel False False True w of
        (Inr p, w') \<Rightarrow> (case w' p of Some (RegFile bytes) \<Rightarrow> Some bytes | _ \<Rightarrow> None)
      | (Inl _, _) \<Rightarrow> None)"

definition criterion_meets ::
    "host \<Rightarrow> sandbox \<Rightarrow> string \<Rightarrow> acceptance_criterion \<Rightarrow> fs \<Rightarrow> bool" where
  "criterion_meets ho sb ws cr w \<longleftrightarrow>
     (if c_kind cr = DiffScope then scope_kept cr
      else \<exists>rel bytes. c_path cr = Some rel \<and> rel \<noteq> [] \<and> artifact_at sb ws rel w = Some bytes \<and>
        length bytes \<le> sb_max_bytes sb \<and> content_meets ho cr bytes)"

lemma missing_keys_empty:
  "missing_keys v ks = [] \<longleftrightarrow> (\<forall>k \<in> set ks. \<exists>d x. v = JObj d \<and> dict_get d k = Some x)"
  by (cases v) (auto simp: missing_keys_def filter_empty_conv)

lemma judge_artifact_meets:
  "(\<exists>reason. judge_artifact ho cr (Some (RegFile bytes)) = Inr (True, reason)) \<longleftrightarrow>
     content_meets ho cr bytes"
  by (cases "c_kind cr")
    (auto simp: judge_artifact_def content_meets_def check_markdown_artifact_def
      check_python_artifact_def check_json_artifact_def Let_def missing_keys_empty
      split: option.splits sum.splits)

lemma judge_no_file:
  "\<forall>bytes. n \<noteq> Some (RegFile bytes) \<Longrightarrow> judge_artifact ho cr n \<noteq> Inr (True, reason)"
  by (cases "c_kind cr")
    (auto simp: judge_artifact_def check_markdown_artifact_def check_python_artifact_def
      check_json_artifact_def Let_def split: option.splits node.splits)

lemma verdict_of_passed: "in_passed (verdict_of j h d) \<longleftrightarrow> (\<exists>reason. j = Inr (True, reason))"
  by (auto simp: verdict_of_def split: sum.splits)

lemma inspect_node_passed:
  "in_passed (inspect_node ho sb cr n) \<longleftrightarrow>
     (\<exists>bytes. n = Some (RegFile bytes) \<and> length bytes \<le> sb_max_bytes sb \<and> content_meets ho cr bytes)"
proof (cases "\<exists>bytes. n = Some (RegFile bytes)")
  case True
  then obtain bytes where "n = Some (RegFile bytes)" by blast
  then show ?thesis
    by (auto simp: inspect_node_def Let_def verdict_of_passed judge_artifact_meets [symmetric])
next
  case False
  then have "inspect_node ho sb cr n = verdict_of (judge_artifact ho cr n) None []"
    by (auto simp: inspect_node_def split: option.splits node.splits)
  then show ?thesis using False judge_no_file [of n] by (auto simp: verdict_of_passed)
qed

lemma inspect_passed:
  assumes "inspect_artifact ho sb cr ws w = (Inr i, w')"
  shows "in_passed i \<longleftrightarrow> criterion_meets ho sb ws cr w"
proof (cases "c_kind cr = DiffScope")
  case True
  then show ?thesis
    using assms by (auto simp: inspect_artifact_def criterion_meets_def diff_scope_def outside_paths_empty)
next
  case False
  have no: "\<not> in_passed (verdict_of (Inl m) h d)" for m h d by (simp add: verdict_of_passed)
  show ?thesis
  proof (cases "\<exists>rel. c_path cr = Some rel \<and> rel \<noteq> []")
    case rel: True
    then obtain rel where rel: "c_path cr = Some rel" "rel \<noteq> []" by blast
    obtain r w1 where res: "sandbox_resolve sb ws rel False False True w = (r, w1)" by fastforce
    show ?thesis
    proof (cases r)
      case (Inl e)
      then have "i = verdict_of (Inl (exc_text e)) None []"
        using assms False rel res by (simp add: inspect_artifact_def split: if_splits)
      then show ?thesis
        using Inl False rel res no by (simp add: criterion_meets_def artifact_at_def)
    next
      case (Inr p)
      then have "i = inspect_node ho sb cr (w1 p)"
        using assms False rel res by (auto simp: inspect_artifact_def)
      then show ?thesis
        using Inr False rel res
        by (auto simp: criterion_meets_def artifact_at_def inspect_node_passed
            split: option.splits node.splits)
    qed
  next
    case nopath: False
    then have "i = verdict_of (Inl ''criterion path is required'') None []"
      using assms False by (auto simp: inspect_artifact_def split: option.splits if_splits)
    then show ?thesis using nopath False no by (auto simp: criterion_meets_def)
  qed
qed

section \<open>Reading leaves the world as it is for the next reading\<close>

lemma workspace_path_failed: "workspace_path sb ws create w = (Inl e, w') \<Longrightarrow> w' = w"
  by (auto simp: workspace_path_def mkdirs_def act_bind_def act_return_def
      split: if_splits option.splits sum.splits)

lemma workspace_path_again:
  assumes "workspace_path sb ws True w = (r, w')"
  shows "workspace_path sb ws True w' = (r, w')"
proof (cases r)
  case (Inl e)
  then show ?thesis using workspace_path_failed assms by metis
next
  case (Inr base)
  then have made: "workspace_path sb ws True w = (Inr base, w')" using assms by simp
  have "\<exists>q. dirs_added q w w'" using workspace_path_result [OF made] by blast
  then have "same_links w w'" using dirs_added_links by blast
  then show ?thesis
    using workspace_path_exists [OF made] workspace_path_created [OF made] Inr by blast
qed

text \<open>\<open>settled\<close>: the workspace was created, or cannot be; \<open>settle\<close> is the world after that.\<close>

definition settle :: "sandbox \<Rightarrow> string \<Rightarrow> fs \<Rightarrow> fs" where
  "settle sb ws w = snd (workspace_path sb ws True w)"

lemma settle_settle [simp]: "settle sb ws (settle sb ws w) = settle sb ws w"
  unfolding settle_def
  by (cases "workspace_path sb ws True w") (simp add: workspace_path_again)

lemma sandbox_resolve_settle:
  "snd (sandbox_resolve sb ws rel me ed True w) = settle sb ws w"
  "sandbox_resolve sb ws rel me ed True (settle sb ws w) = sandbox_resolve sb ws rel me ed True w"
proof -
  obtain r w1 where 1: "workspace_path sb ws True w = (r, w1)" by fastforce
  then have 2: "settle sb ws w = w1" by (simp add: settle_def)
  show "snd (sandbox_resolve sb ws rel me ed True w) = settle sb ws w"
    using 1 2 by (cases r) (auto simp: sandbox_resolve_def act_bind_def split: option.splits)
  show "sandbox_resolve sb ws rel me ed True (settle sb ws w) = sandbox_resolve sb ws rel me ed True w"
    using 1 2 workspace_path_again [OF 1] by (simp add: sandbox_resolve_def act_bind_def)
qed

lemma artifact_at_settle [simp]: "artifact_at sb ws rel (settle sb ws w) = artifact_at sb ws rel w"
  by (simp add: artifact_at_def sandbox_resolve_settle)

lemma criterion_meets_settle [simp]:
  "criterion_meets ho sb ws cr (settle sb ws w) = criterion_meets ho sb ws cr w"
  by (simp add: criterion_meets_def)

lemma inspect_artifact_state:
  "snd (inspect_artifact ho sb cr ws w) = w \<or> snd (inspect_artifact ho sb cr ws w) = settle sb ws w"
proof -
  have "snd (inspect_artifact ho sb cr ws w) = snd (sandbox_resolve sb ws rel False False True w)"
    if "c_kind cr \<noteq> DiffScope" "c_path cr = Some rel" "rel \<noteq> []" for rel
    using that
    by (cases "sandbox_resolve sb ws rel False False True w") (auto simp: inspect_artifact_def split: sum.splits)
  then show ?thesis
    using sandbox_resolve_settle(1)
    by (cases "c_kind cr = DiffScope"; cases "c_path cr"; cases "c_path cr = Some []")
      (auto simp: inspect_artifact_def)
qed

lemma verify_cases:
  assumes "verify ho sb cr ws vc evidence w = (Inr r, w')"
  obtains i where "inspect_artifact ho sb cr ws w = (Inr i, w')" "r = conclude ho cr vc evidence i"
    "evidence_valid (vc_version vc) (vc_sequence vc)"
  using assms unfolding verify_def act_bind_Inr_iff by (auto split: if_splits)

lemma verify_state:
  assumes "verify ho sb cr ws vc evidence w = (Inr r, w')"
  shows "w' = w \<or> w' = settle sb ws w"
  using assms inspect_artifact_state [of ho sb cr ws w] by (auto elim!: verify_cases)

lemma conclude_fields:
  "vr_criterion (conclude ho cr vc evidence i) = c_id cr"
  "evi_passed (vr_evidence (conclude ho cr vc evidence i)) = vr_passed (conclude ho cr vc evidence i)"
  "evi_hash (vr_evidence (conclude ho cr vc evidence i)) = in_hash i"
  "vr_passed (conclude ho cr vc None i) = in_passed i"
  by (auto simp: conclude_def result_of_def current_evidence_def Let_def split: option.splits)

lemma conclude_with_evidence:
  "vr_passed (conclude ho cr vc (Some e) i) \<longleftrightarrow>
     in_passed i \<and> same_source e (current_evidence ho cr vc i) (vc_attempt vc) (vc_sequence vc)"
  by (simp add: conclude_def result_of_def Let_def)

lemma verify_each_sound:
  "verify_each ho sb crs ws vc evidence w = (Inr rs, w') \<Longrightarrow>
     list_all2 (\<lambda>cr r. vr_criterion r = c_id cr \<and>
       (evidence = None \<longrightarrow> vr_passed r = criterion_meets ho sb ws cr w)) crs rs \<and>
     (w' = w \<or> w' = settle sb ws w)"
proof (induction crs arbitrary: w rs)
  case Nil
  then show ?case by simp
next
  case (Cons cr crs)
  obtain r w1 rs' where 1: "verify ho sb cr ws vc evidence w = (Inr r, w1)"
    "verify_each ho sb crs ws vc evidence w1 = (Inr rs', w')" "rs = r # rs'"
    using Cons.prems by (auto simp: act_bind_Inr_iff)
  have here: "w1 = w \<or> w1 = settle sb ws w" by (rule verify_state [OF 1(1)])
  then have "criterion_meets ho sb ws c w1 = criterion_meets ho sb ws c w" for c by auto
  then have "list_all2 (\<lambda>cr r. vr_criterion r = c_id cr \<and>
      (evidence = None \<longrightarrow> vr_passed r = criterion_meets ho sb ws cr w)) crs rs'"
    and "w' = w1 \<or> w' = settle sb ws w1"
    using Cons.IH [OF 1(2)] by simp_all
  moreover have "vr_criterion r = c_id cr \<and> (evidence = None \<longrightarrow> vr_passed r = criterion_meets ho sb ws cr w)"
    using 1(1) inspect_passed conclude_fields by (auto elim!: verify_cases)
  ultimately show ?case using 1(3) here by auto
qed

lemma required_passed_all2:
  assumes "list_all2 (\<lambda>cr r. vr_passed r = P cr) crs rs"
  shows "required_passed crs rs \<longleftrightarrow> (\<forall>cr \<in> set crs. c_required cr \<longrightarrow> P cr)"
  using assms unfolding required_passed_def by (induction rule: list_all2_induct) auto

section \<open>Properties\<close>

lemma verify_all_sound:
  assumes "verify_all ho sb crs ws vc None w = (Inr (passed, rs), w')"
  shows "list_all2 (\<lambda>cr r. vr_criterion r = c_id cr \<and> vr_passed r = criterion_meets ho sb ws cr w) crs rs"
    and "passed \<longleftrightarrow> (\<forall>cr \<in> set crs. c_required cr \<longrightarrow> criterion_meets ho sb ws cr w)"
    and "w' = w \<or> w' = settle sb ws w"
proof -
  have 1: "verify_each ho sb crs ws vc None w = (Inr rs, w')" "passed = required_passed crs rs"
    using assms unfolding verify_all_def act_bind_Inr_iff by auto
  show all: "list_all2 (\<lambda>cr r. vr_criterion r = c_id cr \<and>
      vr_passed r = criterion_meets ho sb ws cr w) crs rs" and "w' = w \<or> w' = settle sb ws w"
    using verify_each_sound [OF 1(1)] by simp_all
  show "passed \<longleftrightarrow> (\<forall>cr \<in> set crs. c_required cr \<longrightarrow> criterion_meets ho sb ws cr w)"
    unfolding 1(2) by (rule required_passed_all2) (use all in \<open>auto elim: list_all2_mono\<close>)
qed


text \<open>
  Claim C40. Evidence is worth what the world still says: with evidence of an earlier reading, a file
  criterion passes only if the evidence is for this criterion, version, path, action attempt and
  event, the digest in it is that of the bytes the file holds now, and those bytes meet the
  criterion; if the digest distinguishes contents, evidence of other contents never passes.
\<close>

theorem stale_evidence_never_passes:
  assumes "verify ho sb cr ws vc (Some e) w = (Inr r, w')" and "vr_passed r"
    and "c_kind cr \<noteq> DiffScope"
  shows "\<exists>rel bytes. c_path cr = Some rel \<and> artifact_at sb ws rel w = Some bytes \<and>
    evi_hash e = Some (ho_bsha ho bytes) \<and> content_meets ho cr bytes \<and>
    evi_criterion e = c_id cr \<and> evi_criterion_version e = vc_version vc \<and> evi_path e = c_path cr \<and>
    (vc_attempt vc \<noteq> None \<longrightarrow> evi_attempt e = vc_attempt vc) \<and>
    (vc_sequence vc \<noteq> None \<longrightarrow> evi_sequence e = vc_sequence vc) \<and>
    (inj (ho_bsha ho) \<longrightarrow> (\<forall>old. evi_hash e = Some (ho_bsha ho old) \<longrightarrow> old = bytes))"
proof -
  obtain i where i: "inspect_artifact ho sb cr ws w = (Inr i, w')" "r = conclude ho cr vc (Some e) i"
    using assms(1) by (auto elim: verify_cases)
  have same: "in_passed i" "same_source e (current_evidence ho cr vc i) (vc_attempt vc) (vc_sequence vc)"
    using assms(2) i(2) by (simp_all add: conclude_with_evidence)
  obtain rel bytes where at: "c_path cr = Some rel" "rel \<noteq> []" "artifact_at sb ws rel w = Some bytes"
    "length bytes \<le> sb_max_bytes sb" "content_meets ho cr bytes"
    using same(1) inspect_passed [OF i(1)] assms(3) by (auto simp: criterion_meets_def)
  obtain p where "sandbox_resolve sb ws rel False False True w = (Inr p, w')" "w' p = Some (RegFile bytes)"
    "i = inspect_node ho sb cr (w' p)"
    using at(1-3) i(1) assms(3)
    by (auto simp: artifact_at_def inspect_artifact_def split: prod.splits sum.splits option.splits node.splits)
  then have "in_hash i = Some (ho_bsha ho bytes)"
    using at(4) by (simp add: inspect_node_def verdict_of_def Let_def)
  then show ?thesis
    using at same(2) by (auto simp: same_source_def current_evidence_def dest: injD)
qed

text \<open>A workspace with a report, a criterion on it that is required, and one on a missing file that is not.\<close>

definition report_fs :: fs where
  "report_fs = demo_fs([''s'', ''w'', ''d'', ''r.md''] \<mapsto> RegFile ''# hi'')"

definition demo_host :: host where
  "demo_host = \<lparr>ho_sha = (\<lambda>_. ''j''), ho_bsha = (\<lambda>b. b), ho_ast = (\<lambda>_. None),
     ho_loads = (\<lambda>_. Inl ''bad''), ho_decode_error = (\<lambda>_. ''bad''), ho_str = (\<lambda>_. ''x'')\<rparr>"

definition demo_criterion :: "criterion_kind \<Rightarrow> string \<Rightarrow> bool \<Rightarrow> acceptance_criterion" where
  "demo_criterion k path required = \<lparr>c_id = ''c'', c_kind = k, c_description = ''d'',
     c_path = Some path, c_required_keys = [], c_allowed_paths = [], c_changed_paths = [],
     c_required = required\<rparr>"

definition demo_context :: verify_context where
  "demo_context = \<lparr>vc_quest = Some ''q'', vc_milestone = None, vc_version = 1,
     vc_attempt = Some ''a'', vc_sequence = Some 3\<rparr>"

lemma report_resolve:
  "sandbox_resolve demo_sandbox ''w'' ''in/r.md'' False False True report_fs =
     (Inr [''s'', ''w'', ''d'', ''r.md''], report_fs)"
  "sandbox_resolve demo_sandbox ''w'' ''x.md'' False False True report_fs =
     (Inr [''s'', ''w'', ''x.md''], report_fs)"
  by (simp_all add: sandbox_resolve_def workspace_path_def demo_sandbox_def demo_fs_def report_fs_def
      path_parts_def is_absolute_def starts_with_def realpath.simps nul_def is_within_def mkdirs_def
      act_bind_def act_return_def)

lemma report_blank: "\<not> is_blank (read_newlines ''# hi'')" "fence_count (read_newlines ''# hi'') = 0"
    "utf8_decode ''# hi'' = Some [35, 32, 104, 105]"
  by (simp_all add: is_blank_def points_def byte_def is_space_def fence_count_def text_lines_def
      line_break_def is_fence_def)

lemma report_inspect:
  "inspect_artifact demo_host demo_sandbox (demo_criterion Markdown ''in/r.md'' True) ''w'' report_fs =
     (Inr \<lparr>in_passed = True, in_reason = ''ok'', in_hash = Some ''# hi'',
        in_details = [(''size_bytes'', JInt 4)]\<rparr>, report_fs)"
  by (simp add: inspect_artifact_def demo_criterion_def report_resolve)
    (simp add: report_fs_def demo_sandbox_def inspect_node_def verdict_of_def judge_artifact_def
      check_markdown_artifact_def report_blank demo_host_def del: utf8_decode.simps read_newlines.simps)

lemma missing_inspect:
  "inspect_artifact demo_host demo_sandbox (demo_criterion FileExistsNonempty ''x.md'' False) ''w'' report_fs =
     (Inr \<lparr>in_passed = False, in_reason = ''missing or empty artifact'', in_hash = None,
        in_details = []\<rparr>, report_fs)"
  by (simp add: inspect_artifact_def demo_criterion_def report_resolve inspect_node_def)
    (simp add: report_fs_def demo_fs_def verdict_of_def judge_artifact_def)

lemma demo_context_valid: "evidence_valid (vc_version demo_context) (vc_sequence demo_context)"
  by (simp add: demo_context_def evidence_valid_def)

definition demo_scope :: acceptance_criterion where
  "demo_scope = \<lparr>c_id = ''s'', c_kind = DiffScope, c_description = ''d'', c_path = None, c_required_keys = [],
     c_allowed_paths = [''docs''], c_changed_paths = [''docs/./a.md''], c_required = True\<rparr>"

lemma demo_scope_plain: "plain_scope demo_scope" "outside_paths demo_scope = []"
  by (simp_all add: plain_scope_def plain_path_def demo_scope_def is_absolute_def path_parts_def starts_with_def
      outside_paths_def in_scope_def normalize_path_def as_posix_def rstrip_slash_def)

lemma demo_verify_all:
  "\<exists>rs. verify_all demo_host demo_sandbox
     [demo_criterion Markdown ''in/r.md'' True, demo_criterion FileExistsNonempty ''x.md'' False, demo_scope]
     ''w'' demo_context None report_fs = (Inr (True, rs), report_fs)"
proof -
  have "inspect_artifact demo_host demo_sandbox demo_scope ''w'' report_fs = (Inr (diff_scope demo_host demo_scope), report_fs)"
    and "in_passed (diff_scope demo_host demo_scope)"
    using demo_scope_plain(2) by (simp_all add: inspect_artifact_def demo_scope_def diff_scope_def)
  then show ?thesis
    by (simp add: verify_all_def verify_def act_bind_def report_inspect missing_inspect
        demo_context_valid act_return_def required_passed_def conclude_fields)
      (simp add: demo_criterion_def)
qed


definition report_evidence :: evidence where
  "report_evidence = current_evidence demo_host (demo_criterion Markdown ''in/r.md'' True) demo_context
     \<lparr>in_passed = True, in_reason = ''ok'', in_hash = Some ''# hi'', in_details = []\<rparr>"

lemma report_verify:
  "\<exists>r. verify demo_host demo_sandbox (demo_criterion Markdown ''in/r.md'' True) ''w'' demo_context
     (Some report_evidence) report_fs = (Inr r, report_fs) \<and> vr_passed r"
  by (simp add: verify_def act_bind_def report_inspect demo_context_valid act_return_def
      conclude_with_evidence)
    (simp add: same_source_def report_evidence_def current_evidence_def)

theorem stale_evidence_never_passes_witness:
  "\<exists>r. verify demo_host demo_sandbox (demo_criterion Markdown ''in/r.md'' True) ''w'' demo_context
     (Some report_evidence) report_fs = (Inr r, report_fs) \<and> vr_passed r \<and>
     content_meets demo_host (demo_criterion Markdown ''in/r.md'' True) ''# hi'' \<and>
     evi_hash report_evidence = Some ''# hi''"
proof -
  obtain r where 1: "verify demo_host demo_sandbox (demo_criterion Markdown ''in/r.md'' True) ''w''
     demo_context (Some report_evidence) report_fs = (Inr r, report_fs)" "vr_passed r"
    using report_verify by blast
  have "c_kind (demo_criterion Markdown ''in/r.md'' True) \<noteq> DiffScope" by (simp add: demo_criterion_def)
  from stale_evidence_never_passes [OF 1 this] show ?thesis
    using 1 by (auto simp: report_evidence_def current_evidence_def demo_host_def)
qed

section \<open>Which exceptions escape\<close>

text \<open>Only a symbolic link loop, which is a \<^verbatim>\<open>RuntimeError\<close>, and a version or sequence below 1.\<close>

lemma workspace_path_raises:
  "workspace_path sb ws create w = (Inl e, w') \<Longrightarrow> verdict_exc e \<or> e = symlink_loop"
proof -
  have "mkdir_walk p cs w = Inl e \<Longrightarrow> verdict_exc e" for p cs w
    by (induction p cs w rule: mkdir_walk.induct)
      (auto simp: verdict_exceptions_def split: option.splits node.splits if_splits)
  then show "workspace_path sb ws create w = (Inl e, w') \<Longrightarrow> ?thesis"
    by (auto simp: workspace_path_def mkdirs_def act_bind_def act_return_def
        split: if_splits option.splits sum.splits)
qed

lemma sandbox_resolve_raises:
  "sandbox_resolve sb ws rel me ed cw w = (Inl e, w') \<Longrightarrow> verdict_exc e \<or> e = symlink_loop"
  using workspace_path_raises
  by (auto simp: sandbox_resolve_def act_bind_def split: prod.splits sum.splits if_splits option.splits)

lemma verify_raises:
  assumes "verify ho sb cr ws vc evidence w = (Inl e, w')"
  shows "e = symlink_loop \<or>
    (e = OtherExc ''ValidationError'' [] \<and> \<not> evidence_valid (vc_version vc) (vc_sequence vc))"
proof (cases "inspect_artifact ho sb cr ws w")
  case (Pair r w1)
  then show ?thesis
    using assms sandbox_resolve_raises
    by (fastforce simp: verify_def act_bind_def inspect_artifact_def act_raise_def act_return_def
        split: sum.splits if_splits option.splits prod.splits)
qed

text \<open>A path above the workspace is taken for the path of the same name inside it.\<close>

lemma normalize_path_parent: "normalize_path ''../notes.md'' = normalize_path ''notes.md''"
  by (simp add: normalize_path_def path_parts_def as_posix_def)

lemma diff_scope_parent:
  "in_passed (diff_scope ho \<lparr>c_id = ''c'', c_kind = DiffScope, c_description = ''d'', c_path = None,
     c_required_keys = [], c_allowed_paths = [''notes.md''], c_changed_paths = [''../notes.md''],
     c_required = True\<rparr>)"
  by (simp add: diff_scope_def outside_paths_def in_scope_def normalize_path_parent)

end
