(* ===== verification/Workspace_Scan.thy ===== *)
theory Workspace_Scan
  imports Snapshots Tool_Files
begin

text \<open>
  The read-only scan of a workspace (\<^verbatim>\<open>scan_workspace\<close> in \<^verbatim>\<open>backend/app/v1/provenance.py\<close>): a stack of
  directories, their children in order, and a status for everything that is not a plain tree of
  regular files within the limits. The listing of a directory and the comparisons of the file
  metadata before and after a read, which other processes may influence, are inputs \<open>scan_io\<close>.
\<close>

section \<open>Policies and the answers of the system\<close>

record scan_policy =
  po_version :: string
  po_max_files :: int
  po_max_file_bytes :: int
  po_max_total_bytes :: int

definition DEFAULT_POLICY :: scan_policy where
  "DEFAULT_POLICY = \<lparr>po_version = ''workspace-snapshot-v1'', po_max_files = 2000,
     po_max_file_bytes = 1048576, po_max_total_bytes = 67108864\<rparr>"

text \<open>
  \<open>si_list\<close>: the names \<^verbatim>\<open>os.scandir\<close> returns, \<open>None\<close> for an \<^verbatim>\<open>OSError\<close>. \<open>si_before\<close>, \<open>si_after\<close> and
  \<open>si_final\<close>: whether the directory is still the same file when it is popped, listed, and done.
  \<open>si_stable\<close>: whether \<^verbatim>\<open>read_stable_regular_file\<close> read a file that stayed the same.
\<close>

record scan_io =
  si_list :: "path \<Rightarrow> string list option"
  si_before :: "path \<Rightarrow> bool"
  si_after :: "path \<Rightarrow> bool"
  si_final :: "path \<Rightarrow> bool"
  si_stable :: "path \<Rightarrow> bool"

section \<open>The scan\<close>

record scan_state =
  sc_entries :: "workspace_entry list"
  sc_total :: int
  sc_pending :: "(path \<times> string) list"

definition child_path :: "string \<Rightarrow> string \<Rightarrow> string" where
  "child_path parent name = (if parent = [] then name else parent @ ''/'' @ name)"

definition scan_file ::
    "scan_io \<Rightarrow> (string \<Rightarrow> string) \<Rightarrow> scan_policy \<Rightarrow> path \<Rightarrow> string \<Rightarrow> string \<Rightarrow> scan_state \<Rightarrow>
     string + scan_state" where
  "scan_file io bsha po p rel bytes st =
     (let n = int (length bytes)
      in if po_max_files po \<le> int (length (sc_entries st)) then Inl ''limit_exceeded''
         else if po_max_file_bytes po < n then Inl ''limit_exceeded''
         else if po_max_total_bytes po < sc_total st + n then Inl ''limit_exceeded''
         else if \<not> si_stable io p then Inl ''unstable''
         else Inr (st\<lparr>sc_entries := sc_entries st @
                [\<lparr>we_path = rel, we_type = ''regular'', we_size = n, we_sha = bsha bytes\<rparr>],
              sc_total := sc_total st + n\<rparr>))"

fun scan_children ::
    "scan_io \<Rightarrow> (string \<Rightarrow> string) \<Rightarrow> scan_policy \<Rightarrow> fs \<Rightarrow> path \<Rightarrow> string \<Rightarrow> string list \<Rightarrow> scan_state \<Rightarrow>
     string + scan_state" where
  "scan_children io bsha po w p parent [] st = Inr st"
| "scan_children io bsha po w p parent (c # cs) st =
     (let rel = child_path parent c
      in if \<not> safe_relative rel then Inl ''unsupported''
         else case w (p @ [c]) of
           None \<Rightarrow> Inl ''unrecoverable''
         | Some (Link t) \<Rightarrow> Inl ''unsupported''
         | Some Special \<Rightarrow> Inl ''unsupported''
         | Some Directory \<Rightarrow>
             scan_children io bsha po w p parent cs (st\<lparr>sc_pending := (p @ [c], rel) # sc_pending st\<rparr>)
         | Some (RegFile bytes) \<Rightarrow>
             andThen (scan_file io bsha po (p @ [c]) rel bytes st)
               (scan_children io bsha po w p parent cs))"

definition scan_directory ::
    "scan_io \<Rightarrow> (string \<Rightarrow> string) \<Rightarrow> scan_policy \<Rightarrow> fs \<Rightarrow> path \<Rightarrow> string \<Rightarrow> scan_state \<Rightarrow>
     string + scan_state" where
  "scan_directory io bsha po w p parent st =
     (case w p of
        None \<Rightarrow> Inl ''unrecoverable''
      | Some Directory \<Rightarrow>
          if \<not> si_before io p then Inl ''unstable''
          else (case si_list io p of
             None \<Rightarrow> Inl ''unrecoverable''
           | Some names \<Rightarrow>
               if \<not> si_after io p then Inl ''unstable''
               else andThen (scan_children io bsha po w p parent (sort names) st) (\<lambda>st'.
                 if \<not> si_final io p then Inl ''unstable'' else Inr st'))
      | Some _ \<Rightarrow> Inl ''unsupported'')"

text \<open>\<^verbatim>\<open>while pending\<close>, with a bound on the number of directories.\<close>

fun scan_loop ::
    "nat \<Rightarrow> scan_io \<Rightarrow> (string \<Rightarrow> string) \<Rightarrow> scan_policy \<Rightarrow> fs \<Rightarrow> scan_state \<Rightarrow>
     (string + scan_state) option" where
  "scan_loop n io bsha po w st =
     (case sc_pending st of
        [] \<Rightarrow> Some (Inr st)
      | (p, parent) # rest \<Rightarrow>
          (case n of
             0 \<Rightarrow> None
           | Suc m \<Rightarrow>
               (case scan_directory io bsha po w p parent (st\<lparr>sc_pending := rest\<rparr>) of
                  Inl status \<Rightarrow> Some (Inl status)
                | Inr st' \<Rightarrow> scan_loop m io bsha po w st')))"

declare scan_loop.simps [simp del]

text \<open>The root hash of a complete scan raises when the name of a file is not UTF-8.\<close>

definition scan_result ::
    "(json \<Rightarrow> string) \<Rightarrow> string \<Rightarrow> scan_policy \<Rightarrow> string \<Rightarrow> workspace_entry list \<Rightarrow> int \<Rightarrow>
     workspace_snapshot outcome" where
  "scan_result sha ws po status entries nbytes =
     (let ordered = sort_key we_path entries
      in if status = ''complete'' then
           (case root_hash sha (po_version po) ordered of
              Inl e \<Rightarrow> Inl (OtherExc ''UnicodeEncodeError'' [])
            | Inr h \<Rightarrow> Inr \<lparr>ws_workspace = ws, ws_policy = po_version po, ws_status = status,
                ws_entries = ordered, ws_root = Some h, ws_count = int (length ordered), ws_total = nbytes\<rparr>)
         else Inr \<lparr>ws_workspace = ws, ws_policy = po_version po, ws_status = status,
                ws_entries = [], ws_root = None, ws_count = 0, ws_total = 0\<rparr>)"

definition scan_workspace ::
    "nat \<Rightarrow> scan_io \<Rightarrow> (json \<Rightarrow> string) \<Rightarrow> (string \<Rightarrow> string) \<Rightarrow> path \<Rightarrow> string \<Rightarrow> scan_policy \<Rightarrow> fs \<Rightarrow>
     workspace_snapshot outcome option" where
  "scan_workspace n io sha bsha base ws po w =
     (if ws = [] \<or> nul \<in> set ws then Some (scan_result sha ws po ''unsupported'' [] 0)
      else if po_max_files po < 0 \<or> po_max_file_bytes po < 0 \<or> po_max_total_bytes po < 0
      then Some (scan_result sha ws po ''unsupported'' [] 0)
      else case w base of
        None \<Rightarrow> Some (scan_result sha ws po ''unrecoverable'' [] 0)
      | Some Directory \<Rightarrow>
          (case scan_loop n io bsha po w
                  \<lparr>sc_entries = [], sc_total = 0, sc_pending = [(base, [])]\<rparr> of
             None \<Rightarrow> None
           | Some (Inl status) \<Rightarrow> Some (scan_result sha ws po status [] 0)
           | Some (Inr st) \<Rightarrow> Some (scan_result sha ws po ''complete'' (sc_entries st) (sc_total st)))
      | Some _ \<Rightarrow> Some (scan_result sha ws po ''unsupported'' [] 0))"

text \<open>A \<^verbatim>\<open>ToolError\<close> of the sandbox makes the workspace unsupported; other exceptions escape.\<close>

definition scan_sandbox_workspace ::
    "nat \<Rightarrow> scan_io \<Rightarrow> (json \<Rightarrow> string) \<Rightarrow> (string \<Rightarrow> string) \<Rightarrow> sandbox \<Rightarrow> string \<Rightarrow> scan_policy \<Rightarrow> fs \<Rightarrow>
     workspace_snapshot option outcome" where
  "scan_sandbox_workspace n io sha bsha sb ws po w =
     (case fst (workspace_path sb ws False w) of
        Inl (ToolExc c m d) \<Rightarrow> map_sum id Some (scan_result sha ws po ''unsupported'' [] 0)
      | Inl e \<Rightarrow> Inl e
      | Inr base \<Rightarrow>
          (case scan_workspace n io sha bsha base ws po w of
             None \<Rightarrow> Inr None
           | Some r \<Rightarrow> map_sum id Some r))"

section \<open>Termination\<close>

text \<open>The directories at or below a path.\<close>

definition dirs_below :: "fs \<Rightarrow> path \<Rightarrow> path set" where
  "dirs_below w p = {q. prefix p q \<and> w q = Some Directory}"

definition weight :: "fs \<Rightarrow> (path \<times> string) list \<Rightarrow> nat" where
  "weight w ps = sum_list (map (\<lambda>(p, _). card (dirs_below w p)) ps)"

text \<open>What reading the children adds to the stack.\<close>

fun pushed :: "fs \<Rightarrow> path \<Rightarrow> string \<Rightarrow> string list \<Rightarrow> (path \<times> string) list" where
  "pushed w p parent [] = []"
| "pushed w p parent (c # cs) = pushed w p parent cs @
     (if w (p @ [c]) = Some Directory then [(p @ [c], child_path parent c)] else [])"

lemma scan_file_pending: "scan_file io bsha po p rel bytes st = Inr st' \<Longrightarrow> sc_pending st' = sc_pending st"
  by (auto simp: scan_file_def Let_def split: if_splits)

lemma scan_children_pending:
  "scan_children io bsha po w p parent cs st = Inr st' \<Longrightarrow>
     sc_pending st' = pushed w p parent cs @ sc_pending st"
proof (induction cs arbitrary: st)
  case Nil
  then show ?case by simp
next
  case (Cons c cs)
  then show ?case
    by (auto simp: Let_def result_simps scan_file_pending split: if_splits option.splits node.splits)
qed

lemma pushed_set: "set (pushed w p parent cs) =
    (\<lambda>c. (p @ [c], child_path parent c)) ` {c \<in> set cs. w (p @ [c]) = Some Directory}"
  by (induction cs) auto

lemma pushed_weight:
  assumes "finite (dom w)" and "distinct cs" and "w p = Some Directory"
  shows "weight w (pushed w p parent cs) < card (dirs_below w p)"
proof -
  have fin: "finite (dirs_below w q)" for q
    by (rule finite_subset [OF _ assms(1)]) (auto simp: dirs_below_def)
  let ?D = "{c \<in> set cs. w (p @ [c]) = Some Directory}"
  have "weight w (pushed w p parent cs) = (\<Sum>c \<in> ?D. card (dirs_below w (p @ [c])))"
    using assms(2)
  proof (induction cs)
    case Nil
    then show ?case by (simp add: weight_def)
  next
    case (Cons c cs)
    let ?rest = "{x \<in> set cs. w (p @ [x]) = Some Directory}"
    show ?case
    proof (cases "w (p @ [c]) = Some Directory")
      case True
      then have "{x \<in> set (c # cs). w (p @ [x]) = Some Directory} = insert c ?rest" by auto
      then show ?thesis using Cons True by (simp add: weight_def)
    next
      case False
      then have "{x \<in> set (c # cs). w (p @ [x]) = Some Directory} = ?rest" by auto
      then show ?thesis using Cons False by (simp add: weight_def)
    qed
  qed
  also have "\<dots> = card (\<Union>c \<in> ?D. dirs_below w (p @ [c]))"
  proof (rule card_UN_disjoint [symmetric])
    show "\<forall>i \<in> ?D. \<forall>j \<in> ?D. i \<noteq> j \<longrightarrow> dirs_below w (p @ [i]) \<inter> dirs_below w (p @ [j]) = {}"
      by (auto simp: dirs_below_def prefix_def)
  qed (use fin in auto)
  also have "\<dots> < card (dirs_below w p)"
  proof (rule psubset_card_mono [OF fin])
    have "p \<notin> (\<Union>c \<in> ?D. dirs_below w (p @ [c]))" by (auto simp: dirs_below_def prefix_def)
    moreover have "p \<in> dirs_below w p" using assms(3) by (simp add: dirs_below_def)
    moreover have "(\<Union>c \<in> ?D. dirs_below w (p @ [c])) \<subseteq> dirs_below w p"
      by (auto simp: dirs_below_def prefix_def)
    ultimately show "(\<Union>c \<in> ?D. dirs_below w (p @ [c])) \<subset> dirs_below w p" by blast
  qed
  finally show ?thesis .
qed

text \<open>A listing: the names of a directory, each once.\<close>

definition lists_once :: "scan_io \<Rightarrow> bool" where
  "lists_once io \<longleftrightarrow> (\<forall>p names. si_list io p = Some names \<longrightarrow> distinct names)"

lemma scan_directory_weight:
  assumes "finite (dom w)" "lists_once io"
    and "scan_directory io bsha po w p parent st = Inr st'"
  shows "weight w (sc_pending st') < card (dirs_below w p) + weight w (sc_pending st)"
proof -
  obtain names where n: "w p = Some Directory" "si_list io p = Some names"
    "scan_children io bsha po w p parent (sort names) st = Inr st'"
    using assms(3) by (auto simp: scan_directory_def result_simps split: option.splits node.splits if_splits)
  have "distinct (sort names)" using assms(2) n(2) by (auto simp: lists_once_def)
  from pushed_weight [OF assms(1) this n(1)] scan_children_pending [OF n(3)]
  show ?thesis by (simp add: weight_def)
qed

lemma scan_loop_terminates:
  assumes "finite (dom w)" "lists_once io" "weight w (sc_pending st) < n"
  shows "scan_loop n io bsha po w st \<noteq> None"
  using assms(3)
proof (induction n arbitrary: st)
  case 0
  then show ?case by simp
next
  case (Suc n)
  show ?case
  proof (cases "sc_pending st")
    case Nil
    then show ?thesis by (simp add: scan_loop.simps)
  next
    case (Cons x rest)
    obtain p parent where x: "x = (p, parent)" by (cases x)
    let ?r = "scan_directory io bsha po w p parent (st\<lparr>sc_pending := rest\<rparr>)"
    show ?thesis
    proof (cases ?r)
      case (Inl s)
      then show ?thesis using Cons x by (simp add: scan_loop.simps)
    next
      case (Inr st')
      have "weight w (sc_pending st') < weight w (sc_pending st)"
        using scan_directory_weight [OF assms(1,2) Inr] Cons x by (simp add: weight_def)
      then have "scan_loop n io bsha po w st' \<noteq> None" using Suc by simp
      then show ?thesis using Inr Cons x by (simp add: scan_loop.simps)
    qed
  qed
qed

text \<open>The number of directories plus one is fuel enough.\<close>

lemma scan_workspace_returns:
  assumes "finite (dom w)" "lists_once io" "card (dirs_below w base) < n"
  shows "scan_workspace n io sha bsha base ws po w \<noteq> None"
proof -
  have "scan_loop n io bsha po w \<lparr>sc_entries = [], sc_total = 0, sc_pending = [(base, [])]\<rparr> \<noteq> None"
    by (rule scan_loop_terminates [OF assms(1,2)]) (simp add: weight_def assms(3))
  then show ?thesis
    by (auto simp: scan_workspace_def split: option.splits node.splits sum.splits)
qed

end
