(* ===== verification/Scan_Properties.thy ===== *)
theory Scan_Properties
  imports Workspace_Scan Verifier_Properties "HOL-Library.Multiset"
begin

text \<open>
  A complete scan is exact, and what the scanner returns is what the store accepts: the entries of a
  complete snapshot are the regular files below the workspace with their sizes and digests.
\<close>

section \<open>Names below a root\<close>

definition rel_name :: "path \<Rightarrow> path \<Rightarrow> string" where
  "rel_name base q = as_posix (drop (length base) q)"

lemma join_snoc: "join sep (xs @ [x]) = (if xs = [] then x else join sep xs @ sep @ x)"
  by (induction sep xs rule: join.induct) auto

lemma join_Nil_iff: "\<forall>x \<in> set xs. x \<noteq> [] \<Longrightarrow> join sep xs = [] \<longleftrightarrow> xs = []"
  by (induction sep xs rule: join.induct) auto

text \<open>Below \<open>base\<close> the file system is a tree of directories with proper names.\<close>

definition plain_tree :: "fs \<Rightarrow> path \<Rightarrow> bool" where
  "plain_tree w base \<longleftrightarrow>
     (\<forall>p c. prefix base p \<longrightarrow> w (p @ [c]) \<noteq> None \<longrightarrow>
        w p = Some Directory \<and> c \<noteq> [] \<and> CHR ''/'' \<notin> set c)"

definition lists_exactly :: "scan_io \<Rightarrow> fs \<Rightarrow> bool" where
  "lists_exactly io w \<longleftrightarrow>
     (\<forall>p names. si_list io p = Some names \<longrightarrow> distinct names \<and> set names = {c. w (p @ [c]) \<noteq> None})"

lemma plain_tree_names:
  assumes "plain_tree w base" "prefix base q" "w q \<noteq> None"
  shows "\<forall>c \<in> set (drop (length base) q). c \<noteq> [] \<and> CHR ''/'' \<notin> set c"
  using assms(2,3)
proof (induction q rule: rev_induct)
  case Nil
  then show ?case by simp
next
  case (snoc c q)
  show ?case
  proof (cases "base = q @ [c]")
    case False
    then have b: "prefix base q" using snoc.prems(1) by simp
    then have "w q = Some Directory" "c \<noteq> [] \<and> CHR ''/'' \<notin> set c"
      using assms(1) snoc.prems(2) unfolding plain_tree_def by blast+
    then show ?thesis using snoc.IH [OF b] prefix_length_le [OF b] by auto
  qed simp
qed

lemma rel_name_snoc:
  assumes "plain_tree w base" "prefix base p" "w p = Some Directory"
  shows "child_path (rel_name base p) c = rel_name base (p @ [c])"
proof -
  let ?xs = "drop (length base) p"
  have "\<forall>x \<in> set ?xs. x \<noteq> []" using plain_tree_names [OF assms(1,2)] assms(3) by auto
  then show ?thesis
    using prefix_length_le [OF assms(2)]
    by (simp add: child_path_def rel_name_def as_posix_def join_snoc join_Nil_iff)
qed

lemma rel_name_inj:
  assumes "plain_tree w base" "prefix base q" "w q \<noteq> None" "prefix base q'" "w q' \<noteq> None"
    and "rel_name base q = rel_name base q'"
  shows "q = q'"
proof -
  let ?d = "drop (length base) q" and ?d' = "drop (length base) q'"
  have n: "\<forall>x \<in> set ?d. x \<noteq> [] \<and> CHR ''/'' \<notin> set x" "\<forall>x \<in> set ?d'. x \<noteq> [] \<and> CHR ''/'' \<notin> set x"
    using plain_tree_names assms(1-5) by blast+
  have eq: "join ''/'' ?d = join ''/'' ?d'" using assms(6) by (simp add: rel_name_def as_posix_def)
  have "?d = ?d'"
  proof (cases "?d = []")
    case True
    then have "join ''/'' ?d' = []" using eq by simp
    then show ?thesis using True n(2) join_Nil_iff by metis
  next
    case False
    then have "?d' \<noteq> []" using eq n(1) join_Nil_iff join.simps(1) by metis
    then show ?thesis using False eq n py_split_join [of ?d] py_split_join [of ?d'] by metis
  qed
  then show ?thesis using assms(2,4) by (metis append_take_drop_id prefix_def append_eq_conv_conj)
qed

section \<open>What one directory contributes\<close>

definition bytes_at :: "fs \<Rightarrow> path \<Rightarrow> string" where
  "bytes_at w q = (case w q of Some (RegFile b) \<Rightarrow> b | _ \<Rightarrow> [])"

definition is_regular :: "fs \<Rightarrow> path \<Rightarrow> bool" where
  "is_regular w q \<longleftrightarrow> w q = Some (RegFile (bytes_at w q))"

lemma is_regular_iff: "is_regular w q \<longleftrightarrow> (\<exists>b. w q = Some (RegFile b))"
  by (auto simp: is_regular_def bytes_at_def)

definition file_entry :: "(string \<Rightarrow> string) \<Rightarrow> fs \<Rightarrow> path \<Rightarrow> path \<Rightarrow> workspace_entry" where
  "file_entry bsha w base q = \<lparr>we_path = rel_name base q, we_type = ''regular'',
     we_size = int (length (bytes_at w q)), we_sha = bsha (bytes_at w q)\<rparr>"

lemma scan_children_Inr:
  assumes "plain_tree w base" "prefix base p" "w p = Some Directory"
    and "scan_children io bsha po w p (rel_name base p) cs st = Inr st'"
  shows "sc_entries st' = sc_entries st @
      map (file_entry bsha w base) (map (\<lambda>c. p @ [c]) (filter (\<lambda>c. is_regular w (p @ [c])) cs)) \<and>
    (\<forall>c \<in> set cs. (w (p @ [c]) = Some Directory \<or> is_regular w (p @ [c])) \<and>
       safe_relative (rel_name base (p @ [c])))"
  using assms(4)
proof (induction cs arbitrary: st)
  case Nil
  then show ?case by simp
next
  case (Cons c cs)
  note rel = rel_name_snoc [OF assms(1-3), of c]
  have safe: "safe_relative (rel_name base (p @ [c]))"
    using Cons.prems rel by (auto simp: Let_def split: if_splits)
  consider (dir) "w (p @ [c]) = Some Directory"
      "scan_children io bsha po w p (rel_name base p) cs
         (st\<lparr>sc_pending := (p @ [c], rel_name base (p @ [c])) # sc_pending st\<rparr>) = Inr st'"
    | (regular) b st1 where "w (p @ [c]) = Some (RegFile b)"
      "scan_file io bsha po (p @ [c]) (rel_name base (p @ [c])) b st = Inr st1"
      "scan_children io bsha po w p (rel_name base p) cs st1 = Inr st'"
    using Cons.prems rel by (auto simp: Let_def result_simps split: if_splits option.splits node.splits)
  then show ?case
  proof cases
    case dir
    then show ?thesis using Cons.IH [OF dir(2)] safe by (simp add: is_regular_iff)
  next
    case (regular b st1)
    have "sc_entries st1 = sc_entries st @ [file_entry bsha w base (p @ [c])]"
      using regular(1,2) by (auto simp: scan_file_def Let_def file_entry_def bytes_at_def split: if_splits)
    then show ?thesis using Cons.IH [OF regular(3)] safe regular(1) by (simp add: is_regular_iff)
  qed
qed

section \<open>The invariant of the scan\<close>

definition regs :: "fs \<Rightarrow> path \<Rightarrow> path set" where
  "regs w p = {q. prefix p q \<and> is_regular w q}"

lemma plain_tree_above:
  assumes "plain_tree w base" "prefix base p" "w (p @ c # r) \<noteq> None"
  shows "w p = Some Directory \<and> w (p @ [c]) \<noteq> None \<and> (r \<noteq> [] \<longrightarrow> w (p @ [c]) = Some Directory)"
  using assms(2,3)
proof (induction r arbitrary: p c)
  case Nil
  then show ?case using assms(1) unfolding plain_tree_def by auto
next
  case (Cons d r)
  have b: "prefix base (p @ [c])" using Cons.prems(1) by (rule prefix_prefix)
  have "w (p @ [c]) = Some Directory" using Cons.IH [OF b, of d] Cons.prems(2) by simp
  then show ?case using assms(1) Cons.prems(1) unfolding plain_tree_def by auto
qed

lemma regs_directory:
  assumes tree: "plain_tree w base" "prefix base p" "w p = Some Directory"
    and all: "set cs = {c. w (p @ [c]) \<noteq> None}"
    and kinds: "\<forall>c \<in> set cs. w (p @ [c]) = Some Directory \<or> is_regular w (p @ [c])"
  shows "regs w p = (\<lambda>c. p @ [c]) ` {c \<in> set cs. is_regular w (p @ [c])} \<union>
    (\<Union>c \<in> {c \<in> set cs. w (p @ [c]) = Some Directory}. regs w (p @ [c]))"
proof (intro equalityI subsetI)
  fix q assume "q \<in> regs w p"
  then obtain s where q: "q = p @ s" "is_regular w q" by (auto simp: regs_def prefix_def)
  moreover have "s \<noteq> []" using q tree(3) by (auto simp: is_regular_iff)
  ultimately obtain c r where cr: "q = p @ c # r" "is_regular w q" by (cases s) auto
  then have "w (p @ c # r) \<noteq> None" by (simp add: is_regular_def)
  from plain_tree_above [OF tree(1,2) this] all
  have "c \<in> set cs" "r \<noteq> [] \<longrightarrow> w (p @ [c]) = Some Directory" by auto
  then show "q \<in> (\<lambda>c. p @ [c]) ` {c \<in> set cs. is_regular w (p @ [c])} \<union>
      (\<Union>c \<in> {c \<in> set cs. w (p @ [c]) = Some Directory}. regs w (p @ [c]))"
    using cr by (cases "r = []") (auto simp: regs_def prefix_def)
next
  fix q assume "q \<in> (\<lambda>c. p @ [c]) ` {c \<in> set cs. is_regular w (p @ [c])} \<union>
      (\<Union>c \<in> {c \<in> set cs. w (p @ [c]) = Some Directory}. regs w (p @ [c]))"
  then show "q \<in> regs w p" by (auto simp: regs_def prefix_def)
qed

definition scan_inv :: "(string \<Rightarrow> string) \<Rightarrow> fs \<Rightarrow> path \<Rightarrow> path list \<Rightarrow> scan_state \<Rightarrow> bool" where
  "scan_inv bsha w base qs st \<longleftrightarrow>
     sc_entries st = map (file_entry bsha w base) qs \<and> distinct qs \<and>
     sc_total st = total_size (sc_entries st) \<and>
     (\<forall>q \<in> set qs. safe_relative (rel_name base q)) \<and>
     (\<forall>(p, parent) \<in> set (sc_pending st). prefix base p \<and> parent = rel_name base p \<and> w p = Some Directory) \<and>
     distinct (map fst (sc_pending st)) \<and>
     (\<forall>p \<in> fst ` set (sc_pending st). \<forall>p' \<in> fst ` set (sc_pending st). prefix p p' \<longrightarrow> p = p') \<and>
     (\<forall>p \<in> fst ` set (sc_pending st). \<forall>q \<in> set qs. \<not> prefix p q) \<and>
     set qs \<union> (\<Union>p \<in> fst ` set (sc_pending st). regs w p) = regs w base"

lemma scan_children_total:
  "scan_children io bsha po w p parent cs st = Inr st' \<Longrightarrow> sc_total st = total_size (sc_entries st) \<Longrightarrow>
     sc_total st' = total_size (sc_entries st')"
proof (induction cs arbitrary: st)
  case Nil
  then show ?case by simp
next
  case (Cons c cs)
  have fileT: "scan_file io bsha po q rel b st = Inr st1 \<Longrightarrow> sc_total st1 = total_size (sc_entries st1)" for q rel b st1
    using Cons.prems(2) by (auto simp: scan_file_def Let_def total_size_def split: if_splits)
  show ?case
    using Cons.prems Cons.IH fileT
    by (auto simp: Let_def result_simps split: if_splits option.splits node.splits)
qed

lemma map_fst_pushed:
  "map fst (pushed w p parent cs) = rev (map (\<lambda>c. p @ [c]) (filter (\<lambda>c. w (p @ [c]) = Some Directory) cs))"
  by (induction cs) auto

lemma scan_inv_step:
  assumes tree: "plain_tree w base" and lists: "lists_exactly io w"
    and inv: "scan_inv bsha w base qs st" and pend: "sc_pending st = (p, parent) # rest"
    and scan: "scan_directory io bsha po w p parent (st\<lparr>sc_pending := rest\<rparr>) = Inr st'"
  shows "\<exists>qs'. scan_inv bsha w base qs' st'"
proof -
  have p: "prefix base p" "parent = rel_name base p" "w p = Some Directory"
    and eq: "regs w base = set qs \<union> (regs w p \<union> (\<Union>p \<in> fst ` set rest. regs w p))"
    and qs: "sc_entries st = map (file_entry bsha w base) qs" "distinct qs"
      "sc_total st = total_size (sc_entries st)" "\<forall>q \<in> set qs. safe_relative (rel_name base q)"
    and rest: "\<forall>(p, parent) \<in> set rest. prefix base p \<and> parent = rel_name base p \<and> w p = Some Directory"
      "distinct (map fst rest)" "p \<notin> fst ` set rest"
    and anti: "\<And>a b. a \<in> insert p (fst ` set rest) \<Longrightarrow> b \<in> insert p (fst ` set rest) \<Longrightarrow> prefix a b \<Longrightarrow> a = b"
    and fresh: "\<And>a q. a \<in> insert p (fst ` set rest) \<Longrightarrow> q \<in> set qs \<Longrightarrow> \<not> prefix a q"
    using inv pend by (auto simp: scan_inv_def)
  obtain names where n: "si_list io p = Some names"
    "scan_children io bsha po w p parent (sort names) (st\<lparr>sc_pending := rest\<rparr>) = Inr st'"
    using scan p(3) by (auto simp: scan_directory_def result_simps split: option.splits if_splits)
  let ?cs = "sort names"
  let ?new = "map (\<lambda>c. p @ [c]) (filter (\<lambda>c. is_regular w (p @ [c])) ?cs)"
  let ?dirs = "{c \<in> set ?cs. w (p @ [c]) = Some Directory}"
  have cs: "distinct ?cs" "set ?cs = {c. w (p @ [c]) \<noteq> None}"
    using lists n(1) unfolding lists_exactly_def by auto
  have ch: "sc_entries st' = map (file_entry bsha w base) (qs @ ?new)"
    "\<forall>c \<in> set ?cs. (w (p @ [c]) = Some Directory \<or> is_regular w (p @ [c])) \<and>
       safe_relative (rel_name base (p @ [c]))"
    using scan_children_Inr [OF tree p(1,3) n(2) [unfolded p(2)]] qs(1) by simp_all
  have pend': "sc_pending st' = pushed w p parent ?cs @ rest" using scan_children_pending [OF n(2)] by simp
  have fsts: "fst ` set (sc_pending st') = (\<lambda>c. p @ [c]) ` ?dirs \<union> fst ` set rest"
    unfolding pend' by (simp add: pushed_set image_Un image_image)
  have not_under: "\<not> prefix a (p @ [c])" if "a \<in> fst ` set rest" for a c
  proof
    assume "prefix a (p @ [c])"
    then have "a = p @ [c] \<or> prefix a p" by simp
    then show False
    proof
      assume "a = p @ [c]"
      then show False using anti [of p a] that rest(3) by auto
    next
      assume "prefix a p"
      then show False using anti [of a p] that rest(3) by auto
    qed
  qed
  have not_over: "\<not> prefix (p @ [c]) a" if "a \<in> fst ` set rest" for a c
    using anti [of p a] that rest(3) by (auto dest: append_prefixD)
  have "regs w p = set ?new \<union> (\<Union>c \<in> ?dirs. regs w (p @ [c]))"
    using regs_directory [OF tree p(1,3) cs(2)] ch(2) by auto
  then have 9: "set (qs @ ?new) \<union> (\<Union>p \<in> fst ` set (sc_pending st'). regs w p) = regs w base"
    unfolding fsts eq by auto
  have 2: "distinct (qs @ ?new)"
    using qs(2) cs(1) fresh [OF insertI1] by (auto simp: distinct_map inj_on_def simp del: prefix_snoc)
       (metis prefixI)
  have 3: "sc_total st' = total_size (sc_entries st')"
    using scan_children_total [OF n(2)] qs(3) by simp
  have 4: "\<forall>q \<in> set (qs @ ?new). safe_relative (rel_name base q)" using qs(4) ch(2) by auto
  have 5: "\<forall>(p, parent) \<in> set (sc_pending st'). prefix base p \<and> parent = rel_name base p \<and> w p = Some Directory"
    using rest(1) p(1) rel_name_snoc [OF tree p(1,3)] unfolding pend' p(2)
    by (auto simp: pushed_set intro: prefix_prefix)
  have 6: "distinct (map fst (sc_pending st'))"
  proof -
    have "distinct (map (\<lambda>c. p @ [c]) (filter (\<lambda>c. w (p @ [c]) = Some Directory) ?cs))"
      using cs(1) by (auto simp: distinct_map inj_on_def)
    moreover have "(p @ [c]) \<notin> fst ` set rest" for c using not_under [of "p @ [c]" c] by auto
    ultimately show ?thesis unfolding pend' map_append map_fst_pushed using rest(2) by auto
  qed
  have 7: "a = b" if "a \<in> fst ` set (sc_pending st')" "b \<in> fst ` set (sc_pending st')" "prefix a b" for a b
  proof -
    have cc: "prefix (p @ [c]) (p @ [c']) \<Longrightarrow> c = c'" for c c' by simp
    show ?thesis
      using that(1,2) unfolding fsts
    proof (elim UnE)
      assume "a \<in> (\<lambda>c. p @ [c]) ` ?dirs" "b \<in> (\<lambda>c. p @ [c]) ` ?dirs"
      then show ?thesis using that(3) cc by blast
    next
      assume "a \<in> (\<lambda>c. p @ [c]) ` ?dirs" "b \<in> fst ` set rest"
      then show ?thesis using that(3) not_over by blast
    next
      assume "a \<in> fst ` set rest" "b \<in> (\<lambda>c. p @ [c]) ` ?dirs"
      then show ?thesis using that(3) not_under by blast
    next
      assume "a \<in> fst ` set rest" "b \<in> fst ` set rest"
      then show ?thesis using that(3) anti by blast
    qed
  qed
  have 8: "\<not> prefix a q" if "a \<in> fst ` set (sc_pending st')" "q \<in> set (qs @ ?new)" for a q
  proof -
    have q: "q \<in> set qs \<or> (\<exists>c'. q = p @ [c'] \<and> is_regular w (p @ [c']))" using that(2) by auto
    from that(1) consider (new) c where "a = p @ [c]" "w (p @ [c]) = Some Directory" | (old) "a \<in> fst ` set rest"
      unfolding fsts by blast
    then show ?thesis
    proof cases
      case new
      have "\<not> prefix (p @ [c]) x" if "x \<in> set qs" for x
        using fresh [OF insertI1 that] by (auto dest: append_prefixD)
      then show ?thesis using q new by (auto simp: is_regular_iff)
    next
      case old
      then have "\<not> prefix a x" if "x \<in> set qs" for x using fresh that by blast
      then show ?thesis using q not_under [OF old] by blast
    qed
  qed
  show ?thesis
  proof (rule exI [of _ "qs @ ?new"], unfold scan_inv_def, intro conjI)
    show "\<forall>p \<in> fst ` set (sc_pending st'). \<forall>p' \<in> fst ` set (sc_pending st'). prefix p p' \<longrightarrow> p = p'"
      using 7 by blast
    show "\<forall>p \<in> fst ` set (sc_pending st'). \<forall>q \<in> set (qs @ ?new). \<not> prefix p q" using 8 by blast
  qed (fact ch(1) 2 3 4 5 6 9)+
qed

lemma scan_loop_inv:
  assumes tree: "plain_tree w base" and lists: "lists_exactly io w"
  shows "scan_inv bsha w base qs st \<Longrightarrow> scan_loop n io bsha po w st = Some (Inr st') \<Longrightarrow>
    \<exists>qs'. scan_inv bsha w base qs' st' \<and> sc_pending st' = []"
proof (induction n arbitrary: st qs)
  case 0
  then show ?case by (auto simp: scan_loop.simps split: list.splits)
next
  case (Suc n)
  show ?case
  proof (cases "sc_pending st")
    case Nil
    then show ?thesis using Suc.prems by (auto simp: scan_loop.simps)
  next
    case (Cons x rest)
    obtain p parent where x: "x = (p, parent)" by (cases x)
    obtain st1 where 1: "scan_directory io bsha po w p parent (st\<lparr>sc_pending := rest\<rparr>) = Inr st1"
      "scan_loop n io bsha po w st1 = Some (Inr st')"
      using Suc.prems(2) Cons x by (auto simp: scan_loop.simps split: sum.splits)
    obtain qs' where "scan_inv bsha w base qs' st1"
      using scan_inv_step [OF tree lists Suc.prems(1) Cons [unfolded x] 1(1)] by blast
    then show ?thesis using Suc.IH 1(2) by blast
  qed
qed

section \<open>What the scanner returns\<close>

definition scan_failure :: "string \<Rightarrow> bool" where
  "scan_failure s \<longleftrightarrow> s \<in> {''unsupported'', ''unstable'', ''limit_exceeded'', ''unrecoverable''}"

lemma scan_failures [simp, intro]:
  "scan_failure ''unsupported''" "scan_failure ''unstable''" "scan_failure ''limit_exceeded''"
  "scan_failure ''unrecoverable''"
  by (simp_all add: scan_failure_def)

lemma scan_children_status:
  "scan_children io bsha po w p parent cs st = Inl s \<Longrightarrow>
     scan_failure s"
proof (induction cs arbitrary: st)
  case Nil
  then show ?case by simp
next
  case (Cons c cs)
  have read: "scan_file io bsha po q rel b st = Inl s \<Longrightarrow> scan_failure s" for q rel b
    unfolding scan_file_def Let_def by (auto split: if_splits)
  show ?case
  proof (cases "safe_relative (child_path parent c)")
    case True
    show ?thesis
    proof (cases "w (p @ [c])")
      case None
      then show ?thesis using Cons.prems True by auto
    next
      case (Some node)
      then show ?thesis
        using Cons True read by (cases node) (auto simp: result_simps)
    qed
  qed (use Cons.prems in auto)
qed

lemma scan_loop_status:
  "scan_loop n io bsha po w st = Some (Inl s) \<Longrightarrow>
     scan_failure s"
proof (induction n arbitrary: st)
  case 0
  then show ?case by (auto simp: scan_loop.simps split: list.splits)
next
  case (Suc n)
  have "scan_directory io bsha po w p parent st' = Inl s \<Longrightarrow>
      scan_failure s" for p parent st'
    using scan_children_status
    by (fastforce simp: scan_directory_def result_simps split: option.splits node.splits if_splits)
  note directory = this
  obtain p parent rest where c: "sc_pending st = (p, parent) # rest"
    using Suc.prems by (cases "sc_pending st") (auto simp: scan_loop.simps)
  show ?case
  proof (cases "scan_directory io bsha po w p parent (st\<lparr>sc_pending := rest\<rparr>)")
    case (Inl s')
    then show ?thesis using Suc.prems c directory by (simp add: scan_loop.simps)
  next
    case (Inr st')
    then show ?thesis using Suc.prems c Suc.IH [of st'] by (simp add: scan_loop.simps)
  qed
qed

lemma scan_inv_start:
  "w base = Some Directory \<Longrightarrow>
     scan_inv bsha w base [] (\<lparr>sc_entries = [], sc_total = 0, sc_pending = [(base, [])]\<rparr> :: scan_state)"
  by (simp add: scan_inv_def total_size_def rel_name_def as_posix_def)

text \<open>The result is a complete scan of all regular files, or an incomplete one without entries.\<close>

lemma scan_workspace_cases:
  assumes tree: "plain_tree w base" and lists: "lists_exactly io w"
    and scan: "scan_workspace n io sha bsha base ws po w = Some result"
  obtains (complete) qs and st :: scan_state where "set qs = regs w base" "distinct qs"
      "sc_entries st = map (file_entry bsha w base) qs" "sc_total st = total_size (sc_entries st)"
      "\<forall>q \<in> set qs. safe_relative (rel_name base q)" "w base = Some Directory"
      "result = scan_result sha ws po ''complete'' (sc_entries st) (sc_total st)"
    | (incomplete) s where "scan_failure s"
      "result = scan_result sha ws po s [] 0"
proof -
  let ?st = "\<lparr>sc_entries = [], sc_total = 0, sc_pending = [(base, [])]\<rparr> :: scan_state"
  consider (inc) s where "scan_failure s"
      "result = scan_result sha ws po s [] 0"
    | (run) st where "w base = Some Directory" "scan_loop n io bsha po w ?st = Some (Inr (st :: scan_state))"
      "result = scan_result sha ws po ''complete'' (sc_entries st) (sc_total st)"
    using scan by (auto simp: scan_workspace_def dest: scan_loop_status
        split: if_splits option.splits node.splits sum.splits)
  then show thesis
  proof cases
    case inc
    then show ?thesis by (rule incomplete)
  next
    case (run st)
    obtain qs where "scan_inv bsha w base qs st" "sc_pending st = []"
      using scan_loop_inv [OF tree lists scan_inv_start, OF run(1,2)] by blast
    then show ?thesis using run by (intro complete [of qs st]) (simp_all add: scan_inv_def)
  qed
qed

lemma total_size_sort: "total_size (sort_key we_path es) = total_size es"
proof -
  have "sum_mset (mset (map we_size (sort_key we_path es))) = sum_mset (mset (map we_size es))"
    by (simp only: mset_map mset_sort)
  then show ?thesis by (simp only: total_size_def sum_mset_sum_list)
qed

lemma check_entries_iff: "check_entries es = Inr () \<longleftrightarrow> (\<forall>e \<in> set es. check_entry e = Inr ())"
  by (induction es) (auto simp: result_simps)

lemma paths_distinct:
  assumes "plain_tree w base" "set qs \<subseteq> regs w base" "distinct qs"
  shows "distinct (map we_path (map (file_entry bsha w base) qs))"
proof -
  have "inj_on (rel_name base) (regs w base)"
    by (intro inj_onI rel_name_inj [OF assms(1)]) (auto simp: regs_def is_regular_iff)
  then have "inj_on (rel_name base) (set qs)" using assms(2) by (rule inj_on_subset)
  moreover have paths: "map we_path (map (file_entry bsha w base) qs) = map (rel_name base) qs"
    by (simp add: file_entry_def)
  ultimately show ?thesis using assms(3) unfolding paths by (simp add: distinct_map)
qed

text \<open>What is encoded for the root hash: besides ASCII, the policy and the names of the files.\<close>

lemma ascii_decodes: "\<forall>c \<in> set s. byte c < 128 \<Longrightarrow> utf8_decode s \<noteq> None"
  by (induction s) auto

lemma sha256_decodes: "is_sha256 s \<Longrightarrow> utf8_decode s \<noteq> None"
proof -
  assume "is_sha256 s"
  moreover have "\<forall>c \<in> set ''0123456789abcdef''. byte c < 128" by (simp add: byte_def)
  ultimately show ?thesis unfolding is_sha256_def by (intro ascii_decodes) blast
qed

lemma keys_decode:
  "utf8_decode ''relative_path'' \<noteq> None" "utf8_decode ''file_type'' \<noteq> None" "utf8_decode ''size'' \<noteq> None"
  "utf8_decode ''sha256'' \<noteq> None" "utf8_decode ''policy_version'' \<noteq> None" "utf8_decode ''entries'' \<noteq> None"
  "utf8_decode ''regular'' \<noteq> None"
  by (rule ascii_decodes; simp add: byte_def)+

lemma root_encodable:
  assumes "\<forall>e \<in> set es. we_type e = ''regular'' \<and> is_sha256 (we_sha e)" and "utf8_decode policy \<noteq> None"
  shows "encodable (root_payload policy es) \<longleftrightarrow> (\<forall>e \<in> set es. utf8_decode (we_path e) \<noteq> None)"
proof -
  have "encodable (entry_json e) \<longleftrightarrow> utf8_decode (we_path e) \<noteq> None" if "e \<in> set es" for e
    using assms(1) that keys_decode sha256_decodes by (simp add: entry_json_def)
  then show ?thesis using assms(2) keys_decode by (simp add: root_payload_def list_all_iff)
qed

lemma scan_result_storable:
  assumes "ws \<noteq> []" "nul \<notin> set ws" "po_version po \<noteq> []" "\<And>j. is_sha256 (sha j)"
    and "\<forall>e \<in> set es. check_entry e = Inr ()" "distinct (map we_path es)"
    and "scan_result sha ws po ''complete'' es (total_size es) = Inr snap"
  shows "normalise_snapshot sha snap = Inr snap"
proof -
  have "0 \<le> we_size e" if "e \<in> set es" for e
    using assms(5) that by (force simp: check_entry_def split: if_splits)
  then have "0 \<le> total_size es" unfolding total_size_def by (intro sum_list_nonneg) auto
  moreover have "distinct (map we_path (sort_key we_path es))" using assms(6) by (simp add: distinct_map)
  moreover have "check_entries (sort_key we_path es) = Inr ()" using assms(5) by (simp add: check_entries_iff)
  moreover have "sort_key we_path (sort_key we_path es) = sort_key we_path es"
    by (rule sort_key_id_if_sorted) simp
  moreover from assms(7) have "encodable (root_payload (po_version po) (sort_key we_path es))"
    and "snap = \<lparr>ws_workspace = ws, ws_policy = po_version po, ws_status = ''complete'',
      ws_entries = sort_key we_path es,
      ws_root = Some (stable_hash sha (root_payload (po_version po) (sort_key we_path es))),
      ws_count = int (length (sort_key we_path es)), ws_total = total_size es\<rparr>"
    by (simp_all add: scan_result_def root_hash_def Let_def split: if_splits)
  ultimately show ?thesis
    using assms(1-4)
    by (simp add: normalise_snapshot_def snapshot_statuses_def root_hash_def stable_hash_def
        Let_def total_size_sort nul_def)
qed

lemma scan_result_raises:
  assumes "\<forall>e \<in> set es. we_type e = ''regular'' \<and> is_sha256 (we_sha e)" and "utf8_decode (po_version po) \<noteq> None"
  shows "scan_result sha ws po ''complete'' es n =
      Inl (OtherExc ''UnicodeEncodeError'' []) \<longleftrightarrow> (\<exists>e \<in> set es. utf8_decode (we_path e) = None)"
    and "scan_result sha ws po ''complete'' es n = Inl x \<Longrightarrow> x = OtherExc ''UnicodeEncodeError'' []"
  using root_encodable [of "sort_key we_path es" "po_version po"] assms
  by (auto simp: scan_result_def root_hash_def Let_def split: if_splits)


text \<open>
  Claim C37.
  A complete scan is exact: its entries are the regular files at or below the workspace, each once, with
  its path relative to the workspace, its size and the digest of its bytes, in the order of the paths;
  the counters are their number and the sum of their sizes.
\<close>

theorem complete_scan_is_exact:
  assumes "plain_tree w base" "lists_exactly io w"
    and "scan_workspace n io sha bsha base ws po w = Some (Inr snap)" "ws_status snap = ''complete''"
  shows "set (ws_entries snap) = file_entry bsha w base ` regs w base \<and>
    distinct (map we_path (ws_entries snap)) \<and> sorted (map we_path (ws_entries snap)) \<and>
    ws_count snap = int (card (regs w base)) \<and>
    ws_total snap = (\<Sum>q \<in> regs w base. int (length (bytes_at w q)))"
proof (cases rule: scan_workspace_cases [OF assms(1-3), case_names complete incomplete])
  case (complete qs st)
  have es: "ws_entries snap = sort_key we_path (sc_entries st)" "ws_count snap = int (length qs)"
    "ws_total snap = total_size (sc_entries st)"
    using complete(3,4,7) by (auto simp: scan_result_def Let_def split: sum.splits)
  have d: "distinct (map we_path (sc_entries st))"
    using paths_distinct [OF assms(1) _ complete(2)] complete(1,3) by simp
  have "total_size (sc_entries st) = (\<Sum>q \<leftarrow> qs. int (length (bytes_at w q)))"
    unfolding complete(3) total_size_def by (simp add: comp_def file_entry_def)
  then have "ws_total snap = (\<Sum>q \<in> regs w base. int (length (bytes_at w q)))"
    using es(3) complete(1,2) by (simp add: sum_list_distinct_conv_sum_set)
  moreover have "ws_count snap = int (card (regs w base))"
    using es(2) complete(1,2) distinct_card by fastforce
  moreover have "distinct (map we_path (ws_entries snap))" using d es(1) by (simp add: distinct_map)
  moreover have "set (ws_entries snap) = file_entry bsha w base ` regs w base"
    using es(1) complete(1,3) by simp
  moreover have "sorted (map we_path (ws_entries snap))" using es(1) by simp
  ultimately show ?thesis by blast
next
  case (incomplete s)
  then show ?thesis using assms(4) by (auto simp: scan_failure_def scan_result_def Let_def)
qed

section \<open>A workspace with two files\<close>

definition demo_tree :: fs where
  "demo_tree = (\<lambda>_. None)([''w''] \<mapsto> Directory, [''w'', ''b.md''] \<mapsto> RegFile ''xy'',
     [''w'', ''d''] \<mapsto> Directory, [''w'', ''d'', ''a.md''] \<mapsto> RegFile ''z'')"

definition demo_scan_io :: scan_io where
  "demo_scan_io = \<lparr>si_list = (\<lambda>p. if p = [''w''] then Some [''d'', ''b.md'']
        else if p = [''w'', ''d''] then Some [''a.md''] else None),
     si_before = (\<lambda>_. True), si_after = (\<lambda>_. True), si_final = (\<lambda>_. True), si_stable = (\<lambda>_. True)\<rparr>"

definition sha_zero :: "'a \<Rightarrow> string" where
  "sha_zero _ = replicate 64 CHR ''0''"

lemma sha_zero_is_sha256: "is_sha256 (sha_zero x)"
  by (simp add: is_sha256_def sha_zero_def)

lemma demo_tree_dom:
  "demo_tree p \<noteq> None \<longleftrightarrow> p \<in> {[''w''], [''w'', ''b.md''], [''w'', ''d''], [''w'', ''d'', ''a.md'']}"
  by (simp add: demo_tree_def)

lemma demo_tree_plain: "plain_tree demo_tree [''w'']"
  unfolding plain_tree_def demo_tree_dom
  by (auto simp: demo_tree_def append_eq_Cons_conv)

lemma demo_tree_lists: "lists_exactly demo_scan_io demo_tree"
  unfolding lists_exactly_def demo_tree_dom by (auto simp: demo_scan_io_def)

lemma demo_tree_fuel: "finite (dom demo_tree)" "card (dirs_below demo_tree [''w'']) < 3"
proof -
  have "dirs_below demo_tree [''w''] \<subseteq> {[''w''], [''w'', ''d'']}"
    by (auto simp: dirs_below_def demo_tree_def split: if_splits)
  from card_mono [OF _ this] show "card (dirs_below demo_tree [''w'']) < 3" by simp
  have "dom demo_tree = {[''w''], [''w'', ''b.md''], [''w'', ''d''], [''w'', ''d'', ''a.md'']}"
    using demo_tree_dom by (auto simp: dom_def)
  then show "finite (dom demo_tree)" by simp
qed

definition scan_status :: "workspace_snapshot outcome option \<Rightarrow> string option" where
  "scan_status r = (case r of Some (Inr snap) \<Rightarrow> Some (ws_status snap) | _ \<Rightarrow> None)"

lemma demo_scan_status:
  "scan_status (scan_workspace 3 demo_scan_io sha_zero sha_zero [''w''] ''w'' DEFAULT_POLICY demo_tree) =
     Some ''complete''"
  by code_simp

lemma demo_scan:
  "\<exists>snap. scan_workspace 3 demo_scan_io sha_zero sha_zero [''w''] ''w'' DEFAULT_POLICY demo_tree =
     Some (Inr snap) \<and> ws_status snap = ''complete''"
  using demo_scan_status by (auto simp: scan_status_def split: option.splits sum.splits)


definition odd_name :: string where
  "odd_name = [CHR 0xFF]"

definition odd_tree :: fs where
  "odd_tree = (\<lambda>_. None)([''w''] \<mapsto> Directory, [''w'', odd_name] \<mapsto> RegFile ''x'')"

definition odd_scan_io :: scan_io where
  "odd_scan_io = demo_scan_io\<lparr>si_list := (\<lambda>p. if p = [''w''] then Some [odd_name] else None)\<rparr>"

lemma non_utf8_name_raises:
  "scan_workspace 2 odd_scan_io sha_zero sha_zero [''w''] ''w'' DEFAULT_POLICY odd_tree =
     Some (Inl (OtherExc ''UnicodeEncodeError'' []))"
  by code_simp

lemma complete_scan_is_exact_witness:
  "\<exists>snap. scan_workspace 3 demo_scan_io sha_zero sha_zero [''w''] ''w'' DEFAULT_POLICY demo_tree = Some (Inr snap) \<and>
     set (ws_entries snap) = file_entry sha_zero demo_tree [''w''] ` regs demo_tree [''w'']"
proof -
  obtain snap where s: "scan_workspace 3 demo_scan_io sha_zero sha_zero [''w''] ''w'' DEFAULT_POLICY demo_tree =
      Some (Inr snap)" "ws_status snap = ''complete''" using demo_scan by blast
  from complete_scan_is_exact [OF demo_tree_plain demo_tree_lists s] s(1) show ?thesis by blast
qed

end
