(* ===== verification/Quest_World.thy ===== *)
theory Quest_World
  imports Gateway Verifier Workspace_Scan Store_Run Orchestration
begin

text \<open>
  The world of the Quest service (\<^verbatim>\<open>backend/app/v1/service.py\<close>): the database, the files, the message
  bus, and the environment that answers the clock, the identifiers and the flags set by other threads.
  Every call of the storage is one transaction. Between two calls other workers and users may change
  the database: \<open>en_others\<close> says what they did before the next call. An operation of the service is an
  action over the world; what was changed before an exception stays changed.
\<close>

named_theorems step_intros \<open>closure rules: an action changes the database by steps of the store\<close>

section \<open>The environment\<close>

text \<open>
  Each question takes the next tick, and the answer is a function of it. \<open>en_elapsed\<close>: the seconds since
  an ISO time stamp, \<open>None\<close> for the \<^verbatim>\<open>ValueError\<close> of \<^verbatim>\<open>fromisoformat\<close>. \<open>en_lost\<close>, \<open>en_closed\<close>, \<open>en_stuck\<close>: the
  event \<^verbatim>\<open>lease_lost\<close>, the flag \<^verbatim>\<open>_closed\<close>, and whether the heartbeat outlives its join. \<open>en_submit\<close>: whether
  the executor takes the job. The renewals of the heartbeat are among what others do.
\<close>

record environment =
  en_now :: "nat \<Rightarrow> string"
  en_clock :: "nat \<Rightarrow> rat"
  en_uuid :: "nat \<Rightarrow> string"
  en_elapsed :: "nat \<Rightarrow> string \<Rightarrow> rat option"
  en_lost :: "nat \<Rightarrow> bool"
  en_closed :: "nat \<Rightarrow> bool"
  en_stuck :: "nat \<Rightarrow> bool"
  en_submit :: "nat \<Rightarrow> bool"
  en_others :: "nat \<Rightarrow> db \<Rightarrow> db"
  en_observe :: "nat \<Rightarrow> observe_io \<times> observe_io"
  en_scan :: "nat \<Rightarrow> scan_io"

text \<open>
  The parts of a \<^verbatim>\<open>V1QuestService\<close>. \<open>sv_plan\<close>: the agent's answer to a goal and a template (goal,
  template and steps), with the validators of \<^verbatim>\<open>QuestCreate\<close>. \<open>sv_contract\<close>: \<^verbatim>\<open>pydantic\<close>'s validation of a
  \<^verbatim>\<open>GoalContract\<close>, its message or the validated object. \<open>sv_scan_bound\<close> bounds the directories of one scan.
\<close>

record service =
  sv_host :: host
  sv_sandbox :: sandbox
  sv_tools :: registry
  sv_gateway :: gateway
  sv_lease :: rat
  sv_threshold :: int
  sv_owner :: string
  sv_plan :: "string \<Rightarrow> string option \<Rightarrow> (string \<times> string \<times> plan_step list) outcome"
  sv_contract :: "dict \<Rightarrow> string + dict"
  sv_scan_bound :: nat

abbreviation sv_sha :: "service \<Rightarrow> json \<Rightarrow> string" where
  "sv_sha sv \<equiv> ho_sha (sv_host sv)"

record world =
  wd_gw :: "db gw_state"
  wd_bus :: message_bus
  wd_tick :: nat

definition wd_db :: "world \<Rightarrow> db" where
  "wd_db w = st_store (wd_gw w)"

definition wd_files :: "world \<Rightarrow> fs" where
  "wd_files w = st_fs (wd_gw w)"

definition with_db :: "db \<Rightarrow> world \<Rightarrow> world" where
  "with_db d w = w\<lparr>wd_gw := (wd_gw w)\<lparr>st_store := d\<rparr>, wd_tick := wd_tick w + 1\<rparr>"

section \<open>Actions\<close>

text \<open>One question to the environment, one transaction, one read, one operation on the files.\<close>

definition ask :: "(nat \<Rightarrow> 'a) \<Rightarrow> (world, 'a) act" where
  "ask f w = (Inr (f (wd_tick w)), w\<lparr>wd_tick := wd_tick w + 1\<rparr>)"

definition transact :: "environment \<Rightarrow> (nat \<Rightarrow> db \<Rightarrow> ('a \<times> db) result) \<Rightarrow> (world, 'a) act" where
  "transact en f w =
     (let t = wd_tick w; d = en_others en t (wd_db w)
      in case f t d of
           Inl e \<Rightarrow> (Inl (exc_of e), with_db d w)
         | Inr (x, d') \<Rightarrow> (Inr x, with_db d' w))"

definition query :: "environment \<Rightarrow> (db \<Rightarrow> 'a) \<Rightarrow> (world, 'a) act" where
  "query en g = transact en (\<lambda>t d. Inr (g d, d))"

definition on_files :: "(fs, 'a) act \<Rightarrow> (world, 'a) act" where
  "on_files m w = (case on_fs m (wd_gw w) of (r, g) \<Rightarrow> (r, w\<lparr>wd_gw := g\<rparr>))"

text \<open>An operation of the storage without an error case.\<close>

definition always :: "'a \<times> db \<Rightarrow> ('a \<times> db) result" where
  "always r = Inr r"

text \<open>\<^verbatim>\<open>try ... except\<close> and \<^verbatim>\<open>try ... finally\<close>.\<close>

definition act_try :: "('s, 'a) act \<Rightarrow> (exc \<Rightarrow> ('s, 'a) act) \<Rightarrow> ('s, 'a) act" where
  "act_try m f s = (case m s of (Inl e, s') \<Rightarrow> f e s' | (Inr x, s') \<Rightarrow> (Inr x, s'))"

definition act_finally :: "('s, 'a) act \<Rightarrow> ('s, 'b) act \<Rightarrow> ('s, 'a) act" where
  "act_finally m f s =
     (case m s of (r, s') \<Rightarrow> (case f s' of (Inl e, s'') \<Rightarrow> (Inl e, s'') | (Inr _, s'') \<Rightarrow> (r, s'')))"

text \<open>\<^verbatim>\<open>if lease_lost.is_set(): return x\<close>\<close>

definition unless_lost :: "environment \<Rightarrow> 'a \<Rightarrow> (world, 'a) act \<Rightarrow> (world, 'a) act" where
  "unless_lost en x m = act_bind (ask (en_lost en)) (\<lambda>lost. if lost then act_return x else m)"

fun act_each :: "('a \<Rightarrow> ('s, unit) act) \<Rightarrow> 'a list \<Rightarrow> ('s, unit) act" where
  "act_each f [] = act_return ()"
| "act_each f (x # xs) = act_bind (f x) (\<lambda>_. act_each f xs)"

text \<open>\<^verbatim>\<open>isinstance(exc, ValueError)\<close>; \<^verbatim>\<open>pydantic\<close>'s and \<^verbatim>\<open>json\<close>'s exceptions are subclasses of it.\<close>

definition value_errors :: "string list" where
  "value_errors = [''ValueError'', ''ValidationError'', ''UnicodeError'', ''UnicodeDecodeError'', ''UnicodeEncodeError'',
     ''JSONDecodeError'']"

fun is_value_error :: "exc \<Rightarrow> bool" where
  "is_value_error (OtherExc t m) \<longleftrightarrow> t \<in> set value_errors"
| "is_value_error _ \<longleftrightarrow> False"

fun is_app_error :: "exc \<Rightarrow> bool" where
  "is_app_error (AppExc c m n) \<longleftrightarrow> True"
| "is_app_error _ \<longleftrightarrow> False"

section \<open>The state of a Quest\<close>

text \<open>The state is the JSON object of the projection; a drafted Quest has every field read here.\<close>

definition state_version :: "dict \<Rightarrow> nat" where
  "state_version s = nat (as_int (read s ''state_version''))"

definition state_id :: "dict \<Rightarrow> string" where
  "state_id s = as_str (read s ''id'')"

definition state_workspace :: "dict \<Rightarrow> string" where
  "state_workspace s = as_str (read s ''workspace'')"

definition state_status :: "dict \<Rightarrow> string" where
  "state_status s = as_str (read s ''status'')"

definition state_budget :: "dict \<Rightarrow> dict" where
  "state_budget s = as_dict (read (as_dict (read s ''contract'')) ''budget'')"

definition state_usage :: "dict \<Rightarrow> dict" where
  "state_usage s = as_dict (read s ''budget_usage'')"

definition usage_of :: "dict \<Rightarrow> string \<Rightarrow> int" where
  "usage_of u k = as_int (dict_get_or u k (JInt 0))"

definition state_route :: "dict \<Rightarrow> string list" where
  "state_route s = map as_str (as_list (read s ''route''))"

definition contract_version :: "dict \<Rightarrow> int" where
  "contract_version s = as_int (read (as_dict (read s ''contract'')) ''version'')"

definition ACTIVE_STATUSES :: "string list" where
  "ACTIVE_STATUSES = [''running'', ''verifying'', ''replanning'', ''recovering'']"

definition TERMINAL_STATUSES :: "string list" where
  "TERMINAL_STATUSES = [''completed'', ''budget_exhausted'', ''failed'']"

text \<open>\<^verbatim>\<open>float(value)\<close> of a number.\<close>

fun as_rat :: "json \<Rightarrow> rat" where
  "as_rat (JInt n) = of_int n"
| "as_rat (JFloat x) = x"
| "as_rat _ = 0"

section \<open>Calls of the storage\<close>

definition service_get_quest :: "environment \<Rightarrow> string \<Rightarrow> (world, dict) act" where
  "service_get_quest en qid =
     act_bind (query en (\<lambda>d. get_quest d qid)) (\<lambda>r. case r of
       None \<Rightarrow> act_raise (AppExc ''QUEST_NOT_FOUND''
         (''Quest '' @ [CHR 0x27] @ qid @ [CHR 0x27] @ '' was not found'') 404)
     | Some s \<Rightarrow> act_return s)"

definition service_append_event :: "service \<Rightarrow> environment \<Rightarrow> string \<Rightarrow> string \<Rightarrow> dict \<Rightarrow> nat \<Rightarrow> (world, event_row) act" where
  "service_append_event sv en qid ty patch version =
     transact en (\<lambda>t. append_event (sv_sha sv) qid ty patch version EVENT_SCHEMA_VERSION (en_now en t))"

text \<open>The same, for a patch that asks \<^verbatim>\<open>utc_now()\<close> first.\<close>

definition append_now ::
    "service \<Rightarrow> environment \<Rightarrow> string \<Rightarrow> string \<Rightarrow> (string \<Rightarrow> dict) \<Rightarrow> nat \<Rightarrow> (world, event_row) act" where
  "append_now sv en qid ty patch version =
     act_bind (ask (en_now en)) (\<lambda>now. service_append_event sv en qid ty (patch now) version)"

definition checkpoint :: "service \<Rightarrow> environment \<Rightarrow> string \<Rightarrow> (world, unit) act" where
  "checkpoint sv en qid =
     act_bind (transact en (\<lambda>t. save_checkpoint (sv_sha sv) qid (en_now en t))) (\<lambda>_. act_return ())"

text \<open>The storage as the gateway sees it: others may change the database before each of its calls, too.\<close>

definition worker_store :: "(json \<Rightarrow> string) \<Rightarrow> environment \<Rightarrow> nat \<Rightarrow> db gateway_store" where
  "worker_store sha en t =
     \<lparr>gs_prepare = \<lambda>aid qid mid key tool h args v pre d.
        prepare_action aid qid mid key tool h args v pre (en_now en t) (en_others en t d),
      gs_dispatched = \<lambda>aid d. mark_action_dispatched aid (en_now en (t + 1)) (en_others en (t + 1) d),
      gs_commit = \<lambda>aid res ob d. commit_action_with_event sha aid res ob (en_now en (t + 2))
        (en_now en (t + 3)) (en_others en (t + 2) d),
      gs_fail = \<lambda>aid err d. fail_action aid err (en_now en (t + 2)) (en_others en (t + 2) d),
      gs_unknown = \<lambda>aid err d. mark_action_unknown aid err (en_now en (t + 2)) (en_others en (t + 2) d)\<rparr>"

definition gateway_execute :: "service \<Rightarrow> environment \<Rightarrow> gateway_call \<Rightarrow> (world, receipt) act" where
  "gateway_execute sv en c w =
     (let t = wd_tick w
      in case execute (sv_gateway sv) (worker_store (sv_sha sv) en t) (sv_sha sv) (ho_bsha (sv_host sv))
                (en_observe en t) c (wd_gw w) of
           (r, g) \<Rightarrow> (r, w\<lparr>wd_gw := g, wd_tick := t + 4\<rparr>))"

text \<open>A scan; a bound that is too small would be an exception of the model only.\<close>

definition scan :: "service \<Rightarrow> environment \<Rightarrow> string \<Rightarrow> (world, workspace_snapshot) act" where
  "scan sv en ws =
     act_bind (ask (en_scan en)) (\<lambda>io w.
       case scan_sandbox_workspace (sv_scan_bound sv) io (sv_sha sv) (ho_bsha (sv_host sv)) (sv_sandbox sv)
              ws DEFAULT_POLICY (wd_files w) of
         Inl e \<Rightarrow> (Inl e, w)
       | Inr None \<Rightarrow> (Inl (OtherExc ''ScanBound'' []), w)
       | Inr (Some snapshot) \<Rightarrow> (Inr snapshot, w))"

end
