(* ===== verification/Quest_Milestone.thy ===== *)
theory Quest_Milestone
  imports Quest_World
begin

text \<open>
  One milestone of a Quest: the budget check, the start, the call of its tool through the gateway, the
  verification of its criteria, the record of progress and the constrained replan
  (\<^verbatim>\<open>_budget_reason\<close>, \<^verbatim>\<open>_execute_milestone\<close>, \<^verbatim>\<open>_verify_milestone\<close>, \<^verbatim>\<open>_handle_replan\<close>,
  \<^verbatim>\<open>_record_progress_and_check_loop\<close> of \<^verbatim>\<open>v1/service.py\<close>). A result \<open>True\<close> lets the worker go on.
\<close>

section \<open>Data as the state keeps it\<close>

definition criterion_of_json :: "json \<Rightarrow> acceptance_criterion" where
  "criterion_of_json v =
     (let d = as_dict v; strs = (\<lambda>k. map as_str (as_list (dict_get_or d k (JList []))))
      in \<lparr>c_id = as_str (read d ''id''),
          c_kind = (let k = as_str (read d ''kind'') in
            if k = ''markdown'' then Markdown else if k = ''python_syntax'' then PythonSyntax
            else if k = ''json_schema'' then JsonSchema else if k = ''diff_scope'' then DiffScope
            else FileExistsNonempty),
          c_description = as_str (read d ''description''),
          c_path = (case read d ''path'' of JStr p \<Rightarrow> Some p | _ \<Rightarrow> None),
          c_required_keys = strs ''required_keys'', c_allowed_paths = strs ''allowed_paths'',
          c_changed_paths = strs ''changed_paths'',
          c_required = truthy (dict_get_or d ''required'' (JBool True))\<rparr>)"

definition state_criteria :: "dict \<Rightarrow> acceptance_criterion list" where
  "state_criteria s =
     map criterion_of_json (as_list (read (as_dict (read s ''contract'')) ''acceptance_criteria''))"

definition opt_int :: "int option \<Rightarrow> json" where
  "opt_int x = (case x of None \<Rightarrow> JNull | Some n \<Rightarrow> JInt n)"

definition evidence_json :: "evidence \<Rightarrow> dict" where
  "evidence_json e =
     [(''id'', JStr (evi_id e)), (''quest_id'', opt_str (evi_quest e)),
      (''milestone_id'', opt_str (evi_milestone e)), (''criterion_id'', JStr (evi_criterion e)),
      (''criterion_version'', JInt (evi_criterion_version e)), (''verifier'', JStr (evi_verifier e)),
      (''verifier_version'', JStr (evi_verifier_version e)), (''artifact_path'', opt_str (evi_path e)),
      (''artifact_hash'', opt_str (evi_hash e)), (''action_attempt'', opt_str (evi_attempt e)),
      (''source_event_sequence'', opt_int (evi_sequence e)), (''passed'', JBool (evi_passed e)),
      (''details'', JObj (evi_details e)), (''created_at'', opt_str (evi_created e))]"

definition result_json :: "verification_result \<Rightarrow> dict" where
  "result_json r =
     [(''id'', JStr (vr_id r)), (''quest_id'', opt_str (vr_quest r)),
      (''milestone_id'', opt_str (vr_milestone r)), (''criterion_id'', JStr (vr_criterion r)),
      (''criterion_version'', JInt (vr_criterion_version r)), (''verifier'', JStr (vr_verifier r)),
      (''verifier_version'', JStr (vr_verifier_version r)), (''passed'', JBool (vr_passed r)),
      (''evidence'', JObj (evidence_json (vr_evidence r))), (''reason'', opt_str (vr_reason r)),
      (''created_at'', opt_str (vr_created r))]"

definition receipt_dict :: "receipt \<Rightarrow> dict" where
  "receipt_dict r =
     [(''action_id'', JStr (rc_action r)), (''idempotency_key'', JStr (rc_key r)),
      (''status'', JStr (receipt_name (rc_status r))), (''result'', opt_obj (rc_result r)),
      (''error'', opt_obj (rc_error r))]"

text \<open>\<^verbatim>\<open>_updated_milestones\<close> on the dicts of the state, and \<^verbatim>\<open>_milestone\<close>.\<close>

definition update_dict :: "dict \<Rightarrow> dict \<Rightarrow> dict" where
  "update_dict d changes = fold (\<lambda>(k, v). dict_set k v) changes d"

fun change_milestone :: "json list \<Rightarrow> string \<Rightarrow> dict \<Rightarrow> json list option" where
  "change_milestone [] mid changes = None"
| "change_milestone (m # ms) mid changes =
     (if read (as_dict m) ''id'' = JStr mid then Some (JObj (update_dict (as_dict m) changes) # ms)
      else map_option ((#) m) (change_milestone ms mid changes))"

definition with_milestone :: "dict \<Rightarrow> string \<Rightarrow> dict \<Rightarrow> (json list \<Rightarrow> ('s, 'a) act) \<Rightarrow> ('s, 'a) act" where
  "with_milestone s mid changes k =
     (case change_milestone (as_list (read s ''milestones'')) mid changes of
        None \<Rightarrow> act_raise (OtherExc ''KeyError'' mid)
      | Some ms \<Rightarrow> k ms)"

definition find_milestone :: "dict \<Rightarrow> string \<Rightarrow> ('s, milestone) act" where
  "find_milestone s mid =
     (case find (\<lambda>m. m_id m = mid) (state_milestones s) of
        None \<Rightarrow> act_raise (OtherExc ''StopIteration'' [])
      | Some m \<Rightarrow> act_return m)"

section \<open>The budget\<close>

definition message_cost :: "dict \<Rightarrow> int" where
  "message_cost s = (if 1 < length (state_route s) then 2 else 0)"

definition time_reason :: "environment \<Rightarrow> dict \<Rightarrow> (world, string option) act" where
  "time_reason en s =
     (case read s ''started_at'' of
        JStr started \<Rightarrow>
          if started = [] then act_return None
          else act_bind (ask (\<lambda>t. en_elapsed en t started)) (\<lambda>elapsed. act_return (case elapsed of
            None \<Rightarrow> Some ''invalid runtime start timestamp''
          | Some x \<Rightarrow> if as_rat (read (state_budget s) ''max_seconds'') < x
                      then Some ''time budget exceeded'' else None))
      | _ \<Rightarrow> act_return None)"

definition budget_reason ::
    "service \<Rightarrow> environment \<Rightarrow> dict \<Rightarrow> milestone \<Rightarrow> (world, string option) act" where
  "budget_reason sv en s m =
     (let limit = (\<lambda>k. as_int (read (state_budget s) k));
          fresh = (m_status m = Pending);
          increment = (if fresh then 1 else 0)
      in if limit ''max_steps'' < usage_of (state_usage s) ''steps'' + increment
         then act_return (Some ''step budget exceeded'')
         else if limit ''max_tool_calls'' < usage_of (state_usage s) ''tool_calls'' + increment
         then act_return (Some ''tool-call budget exceeded'')
         else if limit ''max_messages'' <
                   usage_of (state_usage s) ''messages'' + (if fresh then message_cost s else 0)
         then act_return (Some ''message budget exceeded'')
         else act_bind (time_reason en s) (\<lambda>r. act_return (case r of
           Some x \<Rightarrow> Some x
         | None \<Rightarrow>
             if m_tool m \<notin> set (gw_allowlist (sv_gateway sv))
             then Some ''plan references a tool outside the configured allowlist'' else None)))"

section \<open>Approval\<close>

definition approves :: "string \<Rightarrow> dict \<Rightarrow> bool" where
  "approves aid d \<longleftrightarrow> read d ''kind'' = JStr ''approve'' \<and>
     read (as_dict (dict_get_or d ''contract_patch'' (JObj []))) ''action_id'' = JStr aid"

definition action_is_approved :: "environment \<Rightarrow> string \<Rightarrow> string \<Rightarrow> (world, bool) act" where
  "action_is_approved en qid aid =
     query en (\<lambda>d. list_ex (approves aid) (rev (list_records Decision d qid)))"

section \<open>Progress\<close>

definition state_evidence :: "dict \<Rightarrow> string list" where
  "state_evidence s = sort (remdups (concat (map m_evidence (state_milestones s))))"

definition progress_entry :: "(json \<Rightarrow> string) \<Rightarrow> dict \<Rightarrow> milestone \<Rightarrow> nat \<Rightarrow> dict" where
  "progress_entry sha s m sequence =
     [(''event_sequence'', JInt (int sequence)),
      (''action_signature'', JStr (stable_hash sha
         (JObj [(''tool_name'', JStr (m_tool m)), (''arguments'', JObj (m_args m))]))),
      (''world_state_hash'', JStr (stable_hash sha
         (JObj [(''evidence_ids'', json_strs (state_evidence s)), (''progress'', read s ''progress''),
                (''contract_version'', read (as_dict (read s ''contract'')) ''version'')]))),
      (''evidence_ids'', json_strs (state_evidence s)), (''progress'', read s ''progress'')]"

definition progress_history :: "db \<Rightarrow> string \<Rightarrow> observation list" where
  "progress_history d qid =
     map (\<lambda>p. (read p ''action_signature'', as_str (read p ''world_state_hash''),
               map as_str (as_list (read p ''evidence_ids''))))
       (sort_key (\<lambda>p. as_int (read p ''event_sequence'')) (list_records Progress d qid))"

definition loop_patch :: dict where
  "loop_patch = [(''status'', JStr ''waiting_user''),
     (''error'', JObj (error_dict ''LOOP_DETECTED'' ''Repeated actions produced no new WorldState or Evidence''))]"

definition record_progress_and_check_loop ::
    "service \<Rightarrow> environment \<Rightarrow> dict \<Rightarrow> milestone \<Rightarrow> nat \<Rightarrow> (world, bool) act" where
  "record_progress_and_check_loop sv en s m sequence =
     (let qid = state_id s
      in act_bind (transact en (\<lambda>t. append_progress qid
             (''progress_'' @ qid @ ''_'' @ int_text (int sequence))
             (progress_entry (sv_sha sv) s m sequence) (en_now en t))) (\<lambda>_.
         case watchdog_init (sv_threshold sv) of
           Inl e \<Rightarrow> act_raise (exc_of e)
         | Inr dog \<Rightarrow>
             act_bind (query en (\<lambda>d. progress_history d qid)) (\<lambda>history.
             case fst (watchdog_run (sv_sha sv) dog history None) of
               Some decision \<Rightarrow>
                 if triggered decision
                 then act_bind (service_get_quest en qid) (\<lambda>current.
                      act_bind (service_append_event sv en qid ''LoopDetected'' loop_patch (state_version current))
                        (\<lambda>_. act_return True))
                 else act_return False
             | None \<Rightarrow> act_return False)))"

section \<open>Verification\<close>

definition criteria_by_id :: "dict \<Rightarrow> string \<Rightarrow> acceptance_criterion option" where
  "criteria_by_id s i = find (\<lambda>c. c_id c = i) (rev (state_criteria s))"

fun verify_criteria ::
    "service \<Rightarrow> environment \<Rightarrow> dict \<Rightarrow> verify_context \<Rightarrow> string list \<Rightarrow>
     (world, verification_result list option) act" where
  "verify_criteria sv en s vc [] = act_return (Some [])"
| "verify_criteria sv en s vc (i # is) = unless_lost en None
     (case criteria_by_id s i of
        None \<Rightarrow> act_raise (OtherExc ''KeyError'' i)
      | Some cr \<Rightarrow>
          act_bind (on_files (verify (sv_host sv) (sv_sandbox sv) cr (state_workspace s) vc None)) (\<lambda>r.
          act_bind (verify_criteria sv en s vc is) (\<lambda>rs. act_return (map_option ((#) r) rs))))"

definition observation_of_milestone :: "dict \<Rightarrow> milestone \<Rightarrow> string \<Rightarrow> nat \<Rightarrow> observation_call" where
  "observation_of_milestone s m aid sequence =
     \<lparr>oc_criterion = ''observation:'' @ m_id m, oc_tool = m_tool m, oc_workspace = state_workspace s,
      oc_arguments = m_args m, oc_quest = state_id s, oc_milestone = m_id m, oc_attempt = aid,
      oc_sequence = int sequence\<rparr>"

text \<open>The evidence and the result of each criterion, \<open>False\<close> when the lease is lost in between.\<close>

fun store_results :: "environment \<Rightarrow> string \<Rightarrow> verification_result list \<Rightarrow> (world, bool) act" where
  "store_results en qid [] = act_return True"
| "store_results en qid (r # rs) = unless_lost en False
     (act_bind (transact en (\<lambda>t. append_evidence qid (evi_id (vr_evidence r))
        (evidence_json (vr_evidence r)) (en_now en t))) (\<lambda>_.
      act_bind (transact en (\<lambda>t. append_verification_result qid (vr_id r) (result_json r) (en_now en t)))
        (\<lambda>_. store_results en qid rs)))"

definition failure_text :: "string \<Rightarrow> verification_result \<Rightarrow> string" where
  "failure_text fallback r = (case vr_reason r of Some x \<Rightarrow> if x = [] then fallback else x | None \<Rightarrow> fallback)"

definition failure_texts :: "string \<Rightarrow> verification_result list \<Rightarrow> string list" where
  "failure_texts fallback rs = map (failure_text fallback) (filter (\<lambda>r. \<not> vr_passed r) rs)"

definition milestone_verdict ::
    "dict \<Rightarrow> string list \<Rightarrow> verification_result list \<Rightarrow> bool \<times> string list \<times> string list" where
  "milestone_verdict s is rs =
     (list_all (\<lambda>r. (case criteria_by_id s (vr_criterion r) of
          Some c \<Rightarrow> vr_criterion r \<in> set is \<and> c_required c | None \<Rightarrow> False) \<longrightarrow> vr_passed r) rs,
      map (\<lambda>r. evi_id (vr_evidence r)) (filter vr_passed rs),
      failure_texts ''verification failed'' rs)"

definition verify_milestone ::
    "service \<Rightarrow> environment \<Rightarrow> dict \<Rightarrow> milestone \<Rightarrow> string \<Rightarrow> nat \<Rightarrow>
     (world, bool \<times> string list \<times> string list) act" where
  "verify_milestone sv en s m aid sequence =
     (let stop = (False, [], []);
          vc = \<lparr>vc_quest = Some (state_id s), vc_milestone = Some (m_id m),
                vc_version = contract_version s, vc_attempt = Some aid, vc_sequence = Some (int sequence)\<rparr>
      in unless_lost en stop
        (act_bind
           (if m_criteria m \<noteq> [] then verify_criteria sv en s vc (m_criteria m)
            else unless_lost en None
              (act_bind (on_files (verify_read_only_tool (sv_host sv) (Some (sv_tools sv))
                 (observation_of_milestone s m aid sequence))) (\<lambda>r. act_return (Some [r])))) (\<lambda>results.
         case results of
           None \<Rightarrow> act_return stop
         | Some rs \<Rightarrow> act_bind (store_results en (state_id s) rs) (\<lambda>stored.
             if stored then act_return (milestone_verdict s (m_criteria m) rs) else act_return stop))))"

section \<open>Replanning\<close>

text \<open>The first \<open>n\<close> characters of a text: a byte that continues a character is not counted.\<close>

fun utf8_take :: "nat \<Rightarrow> string \<Rightarrow> string" where
  "utf8_take n [] = []"
| "utf8_take n (c # cs) =
     (if cont c then c # utf8_take n cs else if n = 0 then [] else c # utf8_take (n - 1) cs)"

definition hypothesis_of :: "string list \<Rightarrow> string" where
  "hypothesis_of reasons = utf8_take 2000 (join ''; '' reasons)"

definition replan_usage :: "dict \<Rightarrow> dict" where
  "replan_usage s = dict_set ''replans'' (JInt (usage_of (state_usage s) ''replans'' + 1)) (state_usage s)"

definition handle_replan ::
    "service \<Rightarrow> environment \<Rightarrow> dict \<Rightarrow> string \<Rightarrow> string list \<Rightarrow> (world, bool) act" where
  "handle_replan sv en s mid reasons =
     (let hypothesis = hypothesis_of reasons; qid = state_id s
      in case replan_from_state (sv_sha sv) s mid hypothesis None of
           Inl e \<Rightarrow> act_raise (exc_of e)
         | Inr outcome \<Rightarrow> unless_lost en False
             (case outcome of
                RequiresUser \<Rightarrow> unless_lost en False
                  (act_bind (service_append_event sv en qid ''ReplanNeedsUser''
                     [(''status'', JStr ''waiting_user''),
                      (''error'', JObj (error_dict ''REPLAN_BUDGET_EXHAUSTED'' hypothesis))]
                     (state_version s)) (\<lambda>_. act_return False))
              | Replanned p \<Rightarrow> unless_lost en False
                  (act_bind (service_append_event sv en qid ''ReplanningStarted''
                     [(''status'', JStr ''replanning''), (''budget_usage'', JObj (replan_usage s)),
                      (''last_failure_hypothesis'', JStr hypothesis)] (state_version s)) (\<lambda>_.
                   act_bind (service_get_quest en qid) (\<lambda>s'. unless_lost en False
                  (act_bind (transact en (\<lambda>t. store_plan_version (sv_sha sv) qid p (state_version s')
                     (en_now en t) (en_now en (t + 1)))) (\<lambda>_. unless_lost en False
                  (act_bind (checkpoint sv en qid) (\<lambda>_. act_return True)))))))))"

section \<open>Executing a milestone\<close>

definition action_id_of :: "(json \<Rightarrow> string) \<Rightarrow> string \<Rightarrow> milestone \<Rightarrow> string" where
  "action_id_of sha qid m = ''action_'' @ take 16 (stable_hash sha
     (JObj [(''quest'', JStr qid), (''milestone'', JStr (m_id m)), (''attempt'', JInt (m_attempt m))]))"

definition call_of :: "(json \<Rightarrow> string) \<Rightarrow> dict \<Rightarrow> milestone \<Rightarrow> nat \<Rightarrow> bool \<Rightarrow> gateway_call" where
  "call_of sha s m version approved = gateway_call.make (action_id_of sha (state_id s) m) (state_id s)
     (m_id m) (state_id s @ '':'' @ m_id m @ '':'' @ int_text (m_attempt m)) version
     (state_workspace s) (m_tool m) (JObj (m_args m)) approved"

text \<open>The usage after the start of an attempt, and the patch of \<^verbatim>\<open>MilestoneStarted\<close>.\<close>

definition started_usage :: "dict \<Rightarrow> milestone \<Rightarrow> dict" where
  "started_usage s m =
     (let u = state_usage s
      in if m_status m \<noteq> Pending then u
         else update_dict u
           [(''steps'', JInt (usage_of u ''steps'' + 1)), (''tool_calls'', JInt (usage_of u ''tool_calls'' + 1)),
            (''messages'', JInt (usage_of u ''messages'' + message_cost s))])"

definition handoff_of :: "dict \<Rightarrow> milestone \<Rightarrow> dict" where
  "handoff_of s m = build_handoff (state_id s) (as_int (read s ''state_version'')) (m_evidence m)
     (Some ''tool_receipt'') ''planner'' ''executor'' (JObj [(''milestone_id'', JStr (m_id m))])"

definition start_patch :: "dict \<Rightarrow> milestone \<Rightarrow> json list \<Rightarrow> dict" where
  "start_patch s m ms =
     [(''status'', JStr ''running''), (''current_milestone_id'', JStr (m_id m)),
      (''milestones'', JList ms), (''budget_usage'', JObj (started_usage s m))]"

text \<open>The handoff is published on the bus of the service; a repeated message is not accepted.\<close>

definition publish_handoff :: "(json \<Rightarrow> string) \<Rightarrow> dict \<Rightarrow> milestone \<Rightarrow> (world, bool) act" where
  "publish_handoff sha s m w =
     (case bus_publish sha (wd_bus w) (state_id s) (as_int (read s ''state_version'')) ''planner'' ''executor''
             (m_evidence m) (Some ''tool_receipt'') (JObj [(''milestone_id'', JStr (m_id m))]) of
        (r, bus) \<Rightarrow> (Inr (accepted r), w\<lparr>wd_bus := bus\<rparr>))"

definition start_milestone :: "service \<Rightarrow> environment \<Rightarrow> dict \<Rightarrow> milestone \<Rightarrow> (world, event_row) act" where
  "start_milestone sv en s m =
     with_milestone s (m_id m)
       [(''status'', JStr ''running''),
        (''attempt'', JInt (m_attempt m + (if m_status m = Pending then 1 else 0)))] (\<lambda>ms.
     act_bind
       (if message_cost s \<noteq> 0 \<and> m_status m = Pending
        then act_bind (publish_handoff (sv_sha sv) s m) (\<lambda>ok. act_return
          [(''last_handoff'', JObj (handoff_of s m)), (''handoff_accepted'', JBool ok)])
        else act_return []) (\<lambda>handoff.
     service_append_event sv en (state_id s) ''MilestoneStarted'' (start_patch s m ms @ handoff) (state_version s)))"

definition approval_patch :: "(json \<Rightarrow> string) \<Rightarrow> milestone \<Rightarrow> string \<Rightarrow> dict" where
  "approval_patch sha m aid =
     [(''status'', JStr ''waiting_user''),
      (''pending_approval'', JObj [(''action_id'', JStr aid), (''milestone_id'', JStr (m_id m)),
         (''tool_name'', JStr (m_tool m)), (''arguments_hash'', JStr (stable_hash sha (JObj (m_args m))))]),
      (''error'', JObj (error_dict ''APPROVAL_REQUIRED''
         (''Tool '' @ [CHR 0x27] @ m_tool m @ [CHR 0x27] @ '' requires explicit approval'')))]"

definition busy_patch :: dict where
  "busy_patch = [(''status'', JStr ''waiting_user''),
     (''error'', JObj (error_dict ''RESOURCE_BUSY'' ''Workspace resource has another writer''))]"

text \<open>
  The tool call under the lease of the written path; \<open>None\<close> when the worker has to stop. The lease is
  given back on every way out of the call.
\<close>

definition call_tool ::
    "service \<Rightarrow> environment \<Rightarrow> dict \<Rightarrow> milestone \<Rightarrow> string \<Rightarrow> nat \<Rightarrow> bool \<Rightarrow> (world, receipt option) act" where
  "call_tool sv en s m owner version approved =
     (let call = unless_lost en None (act_bind (gateway_execute sv en (call_of (sv_sha sv) s m version approved))
            (\<lambda>r. act_return (Some r)));
          key = state_workspace s @ '':'' @ as_str (dict_get_or (m_args m) ''path'' (JStr []))
      in if m_tool m \<noteq> ''write_file'' then call
         else act_bind (transact en (\<lambda>t. acquire_resource_lease key (state_id s) owner (sv_lease sv) (en_clock en t)))
           (\<lambda>acquired.
             if acquired
             then act_finally call (transact en (\<lambda>t d. always (release_resource_lease key (state_id s) owner d)))
             else unless_lost en None
               (act_bind (service_append_event sv en (state_id s) ''ResourceBusy'' busy_patch version) (\<lambda>_. act_return None))))"

text \<open>A failed call ends the Quest, an unknown effect pauses it.\<close>

definition settle_failed :: "service \<Rightarrow> environment \<Rightarrow> dict \<Rightarrow> string \<Rightarrow> receipt \<Rightarrow> (world, bool) act" where
  "settle_failed sv en s mid r = unless_lost en False
     (with_milestone s mid [(''status'', JStr ''failed''), (''error'', opt_obj (rc_error r))] (\<lambda>ms.
      act_bind (append_now sv en (state_id s) ''ToolFailed'' (\<lambda>now.
        [(''status'', JStr ''failed''), (''milestones'', JList ms), (''finished_at'', JStr now),
         (''error'', opt_obj (rc_error r)), (''last_receipt'', JObj (receipt_dict r))]) (state_version s))
        (\<lambda>_. act_return False)))"

definition settle_unknown :: "service \<Rightarrow> environment \<Rightarrow> dict \<Rightarrow> receipt \<Rightarrow> (world, bool) act" where
  "settle_unknown sv en s r = unless_lost en False
     (act_bind (service_append_event sv en (state_id s) ''ToolEffectUnknown''
        [(''status'', JStr ''paused''), (''recovery_required'', JBool True),
         (''error'', opt_obj (rc_error r)), (''last_receipt'', JObj (receipt_dict r))] (state_version s)) (\<lambda>_.
      act_bind (checkpoint sv en (state_id s)) (\<lambda>_. act_return False)))"

text \<open>The newest \<^verbatim>\<open>ToolCommitted\<close> event of the action.\<close>

definition commits_action :: "string \<Rightarrow> event_row \<Rightarrow> bool" where
  "commits_action aid e \<longleftrightarrow> ev_type e = ''ToolCommitted'' \<and>
     read (as_dict (dict_get_or (as_dict (dict_get_or (as_dict (ev_payload e)) ''patch'' (JObj [])))
       ''last_receipt'' (JObj []))) ''action_id'' = JStr aid"

definition commit_event :: "environment \<Rightarrow> string \<Rightarrow> string \<Rightarrow> (world, event_row) act" where
  "commit_event en qid aid =
     act_bind (query en (\<lambda>d. find (commits_action aid) (rev (list_events d qid 0)))) (\<lambda>r. case r of
       None \<Rightarrow> act_raise (OtherExc ''StopIteration'' [])
     | Some e \<Rightarrow> act_return e)"

definition is_completed :: "json \<Rightarrow> bool" where
  "is_completed m \<longleftrightarrow> read (as_dict m) ''status'' = JStr ''completed''"

definition completed_patch :: "string \<Rightarrow> json list \<Rightarrow> dict" where
  "completed_patch mid ms =
     [(''status'', JStr ''running''), (''milestones'', JList ms),
      (''progress'', JFloat (of_nat (length (filter is_completed ms)) / of_nat (max (length ms) 1))),
      (''current_milestone_id'', JNull), (''last_verified_milestone_id'', JStr mid)]"

definition complete_milestone ::
    "service \<Rightarrow> environment \<Rightarrow> dict \<Rightarrow> milestone \<Rightarrow> string list \<Rightarrow> (world, bool) act" where
  "complete_milestone sv en s m evidence = unless_lost en False
     (with_milestone s (m_id m) [(''status'', JStr ''completed''), (''evidence_ids'', json_strs evidence)] (\<lambda>ms.
      unless_lost en False
     (act_bind (service_append_event sv en (state_id s) ''MilestoneVerified'' (completed_patch (m_id m) ms) (state_version s))
        (\<lambda>ev. act_bind (checkpoint sv en (state_id s)) (\<lambda>_.
      act_bind (service_get_quest en (state_id s)) (\<lambda>s'.
      act_bind (record_progress_and_check_loop sv en s' m (ev_sequence ev)) (\<lambda>stalled.
      act_return (\<not> stalled))))))))"

text \<open>From the committed receipt to the verdict.\<close>

definition judge_milestone ::
    "service \<Rightarrow> environment \<Rightarrow> string \<Rightarrow> milestone \<Rightarrow> string \<Rightarrow> (world, bool) act" where
  "judge_milestone sv en qid m aid =
     act_bind (commit_event en qid aid) (\<lambda>committed. unless_lost en False
     (act_bind (service_get_quest en qid) (\<lambda>s.
      act_bind
        (if m_status m = Verifying then act_return True
         else unless_lost en False
           (with_milestone s (m_id m) [(''status'', JStr ''verifying'')] (\<lambda>ms.
            act_bind (service_append_event sv en qid ''MilestoneVerificationStarted''
              [(''status'', JStr ''verifying''), (''milestones'', JList ms)] (state_version s))
              (\<lambda>_. act_return True)))) (\<lambda>go. if \<not> go then act_return False else
      act_bind (service_get_quest en qid) (\<lambda>s.
      act_bind (find_milestone s (m_id m)) (\<lambda>m. unless_lost en False
      (act_bind (verify_milestone sv en s m aid (ev_sequence committed)) (\<lambda>(passed, evidence, reasons).
       unless_lost en False
       (if passed then complete_milestone sv en s m evidence
        else unless_lost en False
          (act_bind (record_progress_and_check_loop sv en s m (state_version s)) (\<lambda>stalled.
             if stalled then act_return False
             else handle_replan sv en s (m_id m) reasons)))))))))))"

definition continue_milestone ::
    "service \<Rightarrow> environment \<Rightarrow> dict \<Rightarrow> milestone \<Rightarrow> string \<Rightarrow> nat \<Rightarrow> bool \<Rightarrow> (world, bool) act" where
  "continue_milestone sv en s m owner version approved = unless_lost en False
     (act_bind (call_tool sv en s m owner version approved) (\<lambda>r. case r of
        None \<Rightarrow> act_return False
      | Some receipt \<Rightarrow> unless_lost en False
          (act_bind (service_get_quest en (state_id s)) (\<lambda>s'.
             if rc_status receipt = ActFailed then settle_failed sv en s' (m_id m) receipt
             else if rc_status receipt = ActUnknownEffect then settle_unknown sv en s' receipt
             else judge_milestone sv en (state_id s) m (action_id_of (sv_sha sv) (state_id s) m)))))"

definition execute_milestone ::
    "service \<Rightarrow> environment \<Rightarrow> dict \<Rightarrow> milestone \<Rightarrow> string \<Rightarrow> (world, bool) act" where
  "execute_milestone sv en s m owner = unless_lost en False
     (act_bind (start_milestone sv en s m) (\<lambda>ev. unless_lost en False
     (act_bind (service_get_quest en (state_id s)) (\<lambda>s'.
      act_bind (find_milestone s' (m_id m)) (\<lambda>m'.
      let aid = action_id_of (sv_sha sv) (state_id s) m'
      in act_bind (action_is_approved en (state_id s) aid) (\<lambda>approved.
         if m_tool m' \<in> set (gw_high_risk (sv_gateway sv)) \<and> \<not> approved
         then unless_lost en False
           (act_bind (service_append_event sv en (state_id s) ''ApprovalRequired'' (approval_patch (sv_sha sv) m' aid)
              (state_version s')) (\<lambda>_.
            act_bind (checkpoint sv en (state_id s)) (\<lambda>_. act_return False)))
         else continue_milestone sv en s' m' owner (ev_after ev) approved))))))"

end
