(* ===== verification/Quest_Final.thy ===== *)
theory Quest_Final
  imports Quest_Milestone
begin

text \<open>
  The end of a Quest (\<^verbatim>\<open>_finalize_quest\<close> of \<^verbatim>\<open>v1/service.py\<close>): the final verification of all criteria
  under the time budget, then completion, a replan, or the freeze of the artifacts with their
  provenance for the review of the user.
\<close>

section \<open>The time budget\<close>

definition time_budget_exceeded :: "environment \<Rightarrow> dict \<Rightarrow> (world, bool) act" where
  "time_budget_exceeded en s =
     (case read s ''started_at'' of
        JStr started \<Rightarrow>
          if started = [] then act_return False
          else act_bind (ask (\<lambda>t. en_elapsed en t started)) (\<lambda>elapsed. act_return (case elapsed of
            None \<Rightarrow> False | Some x \<Rightarrow> as_rat (read (state_budget s) ''max_seconds'') < x))
      | _ \<Rightarrow> act_return False)"

definition exhausted_patch :: "string \<Rightarrow> string \<Rightarrow> dict" where
  "exhausted_patch msg now =
     [(''status'', JStr ''budget_exhausted''), (''finished_at'', JStr now),
      (''error'', JObj (error_dict ''BUDGET_EXHAUSTED'' msg))]"

definition exhaust_time_budget :: "service \<Rightarrow> environment \<Rightarrow> dict \<Rightarrow> (world, unit) act" where
  "exhaust_time_budget sv en s =
     act_bind (append_now sv en (state_id s) ''BudgetExhausted'' (exhausted_patch ''time budget exceeded'')
       (state_version s)) (\<lambda>_. act_return ())"

section \<open>Artifacts\<close>

definition ARTIFACT_PREVIEW_BYTES :: nat where
  "ARTIFACT_PREVIEW_BYTES = 256000"

definition invalid_path :: "string \<Rightarrow> exc" where
  "invalid_path m = AppExc ''ARTIFACT_PATH_INVALID'' m 409"

fun lexical_walk :: "fs \<Rightarrow> path \<Rightarrow> string list \<Rightarrow> path outcome" where
  "lexical_walk w p [] = Inr p"
| "lexical_walk w p (c # cs) =
     (case w (p @ [c]) of
        Some (Link t) \<Rightarrow> Inl (invalid_path ''Artifact path contains a symbolic link or reparse point'')
      | _ \<Rightarrow> lexical_walk w (p @ [c]) cs)"

text \<open>\<^verbatim>\<open>Path(s)\<close> has lost its single dots, so only \<^verbatim>\<open>..\<close> can be among its parts.\<close>

definition artifact_lexical_path :: "service \<Rightarrow> dict \<Rightarrow> string \<Rightarrow> (fs, path) act" where
  "artifact_lexical_path sv s rel =
     (let parts = path_parts rel
      in if parts = [] \<or> is_absolute rel \<or> ''..'' \<in> set parts
         then act_raise (invalid_path ''Artifact path is not a safe relative path'')
         else act_bind (workspace_path (sv_sandbox sv) (state_workspace s) False)
                (\<lambda>base w. (lexical_walk w base parts, w)))"

definition artifact_item :: "service \<Rightarrow> string \<Rightarrow> string \<Rightarrow> string \<Rightarrow> dict" where
  "artifact_item sv rel bytes eid =
     (let digest = ho_bsha (sv_host sv) bytes
      in [(''artifact_id'', JStr (take 24 (stable_hash (sv_sha sv)
             (JObj [(''path'', JStr rel), (''hash'', JStr digest), (''evidence_id'', JStr eid)])))),
          (''path'', JStr rel), (''hash'', JStr digest), (''size'', JInt (int (length bytes))),
          (''evidence_id'', JStr eid), (''created_by_quest'', JBool True)])"

text \<open>\<open>None\<close>: the path is skipped.\<close>

definition freeze_artifact :: "service \<Rightarrow> dict \<Rightarrow> string \<Rightarrow> string \<Rightarrow> (fs, dict option) act" where
  "freeze_artifact sv s rel eid w =
     (case artifact_lexical_path sv s rel w of
        (Inl e, w') \<Rightarrow> (if is_app_error e then Inr None else Inl e, w')
      | (Inr p, w') \<Rightarrow>
          (case w' p of
             Some (RegFile bytes) \<Rightarrow>
               if utf8_decode bytes = None \<or>
                  min (sb_max_bytes (sv_sandbox sv)) ARTIFACT_PREVIEW_BYTES < length bytes
               then (Inr None, w') else (Inr (Some (artifact_item sv rel bytes eid)), w')
           | _ \<Rightarrow> (Inr None, w')))"

fun freeze_each :: "service \<Rightarrow> dict \<Rightarrow> (string \<times> string) list \<Rightarrow> (fs, dict list) act" where
  "freeze_each sv s [] = act_return []"
| "freeze_each sv s ((rel, eid) # rest) =
     act_bind (freeze_artifact sv s rel eid) (\<lambda>item.
     act_bind (freeze_each sv s rest) (\<lambda>items. act_return (case item of None \<Rightarrow> items | Some i \<Rightarrow> i # items)))"

definition evidence_by_path :: "verification_result list \<Rightarrow> (string \<times> string) list" where
  "evidence_by_path rs = sort (fold (\<lambda>r acc.
     case evi_path (vr_evidence r) of
       Some p \<Rightarrow> if vr_passed r \<and> p \<noteq> [] then AList.update p (evi_id (vr_evidence r)) acc else acc
     | None \<Rightarrow> acc) rs [])"

definition freeze_artifacts :: "service \<Rightarrow> dict \<Rightarrow> verification_result list \<Rightarrow> (fs, dict list) act" where
  "freeze_artifacts sv s rs = freeze_each sv s (evidence_by_path rs)"

section \<open>Requesting the review\<close>

definition snapshot_dict :: "workspace_snapshot \<Rightarrow> dict" where
  "snapshot_dict ws =
     [(''workspace'', JStr (ws_workspace ws)), (''policy_version'', JStr (ws_policy ws)),
      (''status'', JStr (ws_status ws)), (''entries'', JList (map entry_json (ws_entries ws))),
      (''root_hash'', opt_str (ws_root ws)), (''file_count'', JInt (ws_count ws)),
      (''total_bytes'', JInt (ws_total ws))]"

definition final_id :: "service \<Rightarrow> dict \<Rightarrow> workspace_snapshot \<Rightarrow> dict list \<Rightarrow> string" where
  "final_id sv s ws manifest = ''final_'' @ take 24 (stable_hash (sv_sha sv) (JObj
     [(''quest_id'', JStr (state_id s)), (''state_version'', read s ''state_version''),
      (''workspace'', JStr (state_workspace s)), (''policy_version'', JStr (ws_policy ws)),
      (''status'', JStr (ws_status ws)), (''root_hash'', opt_str (ws_root ws)),
      (''artifacts'', JList (map (\<lambda>i. JObj (map (\<lambda>k. (k, read i k))
         [''artifact_id'', ''path'', ''hash'', ''size'', ''evidence_id''])) manifest))]))"

definition provenance_id :: "service \<Rightarrow> dict \<Rightarrow> dict \<Rightarrow> string \<Rightarrow> string \<Rightarrow> provenance_result \<Rightarrow> string" where
  "provenance_id sv s item baseline final r = ''prov_'' @ take 24 (stable_hash (sv_sha sv) (JObj
     [(''quest_id'', JStr (state_id s)), (''artifact_id'', read item ''artifact_id''),
      (''artifact_hash'', read item ''hash''), (''evidence_id'', read item ''evidence_id''),
      (''baseline_snapshot_id'', JStr baseline), (''final_snapshot_id'', JStr final),
      (''provenance_status'', JStr (ps_status r)), (''reason_code'', JStr (ps_reason r)),
      (''action_id'', opt_str (ps_action r)), (''committed_event_id'', opt_int (ps_event r))]))"

definition enriched_item :: "service \<Rightarrow> dict \<Rightarrow> dict \<Rightarrow> string \<Rightarrow> string \<Rightarrow> provenance_result \<Rightarrow> dict" where
  "enriched_item sv s item baseline final r = item @
     [(''provenance_id'', JStr (provenance_id sv s item baseline final r)),
      (''provenance_status'', JStr (ps_status r)), (''provenance_reason_code'', JStr (ps_reason r)),
      (''provenance_mode'', JStr ''compatibility_shadow''), (''baseline_snapshot_id'', JStr baseline),
      (''final_snapshot_id'', JStr final)]"

definition provenance_entry :: "service \<Rightarrow> dict \<Rightarrow> dict \<Rightarrow> string \<Rightarrow> string \<Rightarrow> provenance_result \<Rightarrow> dict" where
  "provenance_entry sv s item baseline final r =
     [(''provenance_id'', JStr (provenance_id sv s item baseline final r)),
      (''artifact_id'', read item ''artifact_id''), (''path'', read item ''path''),
      (''artifact_hash'', read item ''hash''), (''evidence_id'', read item ''evidence_id''),
      (''status'', JStr (ps_storage r)), (''provenance_status'', JStr (ps_status r)),
      (''provenance_mode'', JStr ''compatibility_shadow''), (''baseline_snapshot_id'', JStr baseline),
      (''final_snapshot_id'', JStr final),
      (''action_id'', if claims_observed r then opt_str (ps_action r) else JNull),
      (''committed_event_id'', if claims_observed r then opt_int (ps_event r) else JNull)]"

definition classify_item ::
    "dict \<Rightarrow> snapshot_row \<Rightarrow> snapshot_entry_row list \<Rightarrow> workspace_snapshot \<Rightarrow> action_row list \<Rightarrow> json list \<Rightarrow>
     dict \<Rightarrow> provenance_result" where
  "classify_item s baseline entries ws acts obs item =
     classify_artifact_provenance (JObj item) (JObj (snapshot_json baseline))
       (JList (map entry_row_json entries))
       (JObj (dict_set ''quest_id'' (JStr (state_id s)) (snapshot_dict ws)))
       (JList (map entry_json (ws_entries ws))) (JList (map action_json acts)) (JList obs)"

text \<open>What a refused request means: a lost lease or a newer version stops the worker.\<close>

definition review_refused :: "environment \<Rightarrow> string \<Rightarrow> exc \<Rightarrow> (world, unit) act" where
  "review_refused en qid e =
     (case e of
        OtherExc t m \<Rightarrow>
          if \<not> is_value_error e then act_raise e
          else if m \<in> {''state version conflict'', ''live execution lease is not held by owner''}
          then act_return ()
          else if m = ''artifact review was already requested''
          then act_bind (query en (\<lambda>d. list_ex (\<lambda>ev. ev_type ev = ''ArtifactReviewRequested'') (list_events d qid 0)))
            (\<lambda>known. if known then act_return () else act_raise e)
          else act_raise e
      | _ \<Rightarrow> act_raise e)"

definition request_artifact_review ::
    "service \<Rightarrow> environment \<Rightarrow> dict \<Rightarrow> string \<Rightarrow> dict list \<Rightarrow> (world, unit) act" where
  "request_artifact_review sv en s owner manifest = unless_lost en ()
     (let qid = state_id s in
      act_bind (query en (\<lambda>d. get_baseline_snapshot d qid)) (\<lambda>b. case b of
        None \<Rightarrow> act_raise (OtherExc ''RuntimeError'' ''artifact review provenance baseline is missing'')
      | Some baseline \<Rightarrow>
          act_bind (query en (\<lambda>d. list_workspace_snapshot_entries d (sn_id baseline))) (\<lambda>entries.
          act_bind (scan sv en (state_workspace s)) (\<lambda>ws.
          act_bind (query en (\<lambda>d. list_tool_actions d qid)) (\<lambda>acts.
          act_bind (query en (\<lambda>d. list_tool_file_observations d qid)) (\<lambda>obs.
          let fid = final_id sv s ws manifest;
              results = map (\<lambda>i. (i, classify_item s baseline entries ws acts obs i)) manifest;
              enriched = map (\<lambda>(i, r). enriched_item sv s i (sn_id baseline) fid r) results;
              provenance = map (\<lambda>(i, r). provenance_entry sv s i (sn_id baseline) fid r) results
          in unless_lost en ()
            (act_bind (ask (en_uuid en)) (\<lambda>u.
             act_try (act_bind (transact en (\<lambda>t. request_artifact_review_with_provenance (sv_sha sv) qid owner
                 (''review_'' @ take 16 u) enriched (stable_hash (sv_sha sv) (JList (map JObj enriched))) fid ws
                 provenance (state_version s) (en_clock en t) (en_now en t) (en_now en (t + 1))))
                 (\<lambda>_. act_return ()))
               (review_refused en qid)))))))))"

section \<open>The final verification\<close>

definition completed_quest_patch :: "string \<Rightarrow> dict" where
  "completed_quest_patch now =
     [(''status'', JStr ''completed''), (''progress'', JFloat 1), (''current_milestone_id'', JNull),
      (''finished_at'', JStr now), (''error'', JNull)]"

definition unavailable_patch :: "string \<Rightarrow> dict" where
  "unavailable_patch now =
     [(''status'', JStr ''failed''), (''artifact_disposition'', JStr ''unavailable''),
      (''finished_at'', JStr now),
      (''error'', JObj (error_dict ''NO_PREVIEWABLE_ARTIFACTS''
         ''Verification passed without a previewable text artifact''))]"

text \<open>All required criteria hold: complete the Quest or ask for the review of its artifacts.\<close>

definition complete_quest :: "service \<Rightarrow> environment \<Rightarrow> dict \<Rightarrow> (world, unit) act" where
  "complete_quest sv en s =
     act_bind (append_now sv en (state_id s) ''QuestCompleted'' completed_quest_patch (state_version s))
       (\<lambda>_. checkpoint sv en (state_id s))"

definition review_results ::
    "service \<Rightarrow> environment \<Rightarrow> dict \<Rightarrow> string \<Rightarrow> verification_result list \<Rightarrow> (world, unit) act" where
  "review_results sv en s owner rs =
     act_bind (on_files (freeze_artifacts sv s rs)) (\<lambda>manifest. unless_lost en () (unless_lost en ()
       (if manifest = []
        then act_bind (append_now sv en (state_id s) ''ArtifactReviewUnavailable'' unavailable_patch
               (state_version s)) (\<lambda>_. act_return ())
        else request_artifact_review sv en s owner manifest)))"

definition accept_quest ::
    "service \<Rightarrow> environment \<Rightarrow> dict \<Rightarrow> string \<Rightarrow> verification_result list \<Rightarrow> (world, unit) act" where
  "accept_quest sv en s owner rs = unless_lost en ()
     (if truthy (read s ''artifact_review_required'')
      then unless_lost en () (review_results sv en s owner rs)
      else unless_lost en () (complete_quest sv en s))"

text \<open>A required criterion fails: replan its milestone, or ask the user when no milestone owns it.\<close>

definition reject_quest ::
    "service \<Rightarrow> environment \<Rightarrow> dict \<Rightarrow> verification_result list \<Rightarrow> (world, unit) act" where
  "reject_quest sv en s rs =
     (case find (\<lambda>r. \<not> vr_passed r) rs of
        None \<Rightarrow> act_raise (OtherExc ''StopIteration'' [])
      | Some r \<Rightarrow>
          (case find (\<lambda>m. vr_criterion r \<in> set (m_criteria m)) (state_milestones s) of
             None \<Rightarrow> unless_lost en ()
               (act_bind (service_append_event sv en (state_id s) ''QuestVerificationNeedsUser''
                 [(''status'', JStr ''waiting_user''),
                  (''error'', JObj (error_dict ''FINAL_VERIFICATION_FAILED'' (vr_criterion r)))]
                 (state_version s)) (\<lambda>_. act_return ()))
           | Some m \<Rightarrow> unless_lost en ()
               (act_bind (handle_replan sv en s (m_id m) (failure_texts ''final verification failed'' rs))
                 (\<lambda>_. act_return ()))))"

definition final_context :: "dict \<Rightarrow> nat \<Rightarrow> verify_context" where
  "final_context s sequence =
     \<lparr>vc_quest = Some (state_id s), vc_milestone = None, vc_version = contract_version s,
      vc_attempt = Some (''final:'' @ int_text (as_int (read s ''state_version''))),
      vc_sequence = Some (int sequence)\<rparr>"

text \<open>\<^verbatim>\<open>if self._time_budget_exceeded(state): ...; return\<close>\<close>

definition within_time :: "service \<Rightarrow> environment \<Rightarrow> dict \<Rightarrow> (world, unit) act \<Rightarrow> (world, unit) act" where
  "within_time sv en s m = unless_lost en () (act_bind (time_budget_exceeded en s) (\<lambda>late.
     if late then unless_lost en () (exhaust_time_budget sv en s) else m))"

definition finalize_quest :: "service \<Rightarrow> environment \<Rightarrow> dict \<Rightarrow> string \<Rightarrow> (world, unit) act" where
  "finalize_quest sv en s owner = within_time sv en s (unless_lost en ()
     (act_bind (service_append_event sv en (state_id s) ''QuestVerificationStarted'' [(''status'', JStr ''verifying'')]
        (state_version s)) (\<lambda>ev.
      act_bind (service_get_quest en (state_id s)) (\<lambda>s. unless_lost en ()
      (act_bind (on_files (verify_all (sv_host sv) (sv_sandbox sv) (state_criteria s) (state_workspace s)
         (final_context s (ev_sequence ev)) None)) (\<lambda>(passed, rs). unless_lost en ()
      (act_bind (store_results en (state_id s) rs) (\<lambda>stored. if \<not> stored then act_return () else
       act_bind (service_get_quest en (state_id s)) (\<lambda>s.
       within_time sv en s (if passed then accept_quest sv en s owner rs else reject_quest sv en s rs))))))))))"

end
