(* ===== verification/Quest_Worker.thy ===== *)
theory Quest_Worker
  imports Quest_Final
begin

text \<open>
  The worker of a Quest (\<^verbatim>\<open>_execute_quest\<close>, \<^verbatim>\<open>_record_execution_baseline\<close>, \<^verbatim>\<open>_start_worker\<close> and
  \<^verbatim>\<open>_fail_quest\<close> of \<^verbatim>\<open>v1/service.py\<close>): admission under a lease, the baseline snapshot, then one milestone
  after the other until the Quest stops being active. The loop has a bound on its passes; \<open>None\<close> is a run
  that the bound cuts off.
\<close>

section \<open>Failing a Quest\<close>

definition failed_patch :: "string \<Rightarrow> string \<Rightarrow> dict \<Rightarrow> string \<Rightarrow> dict" where
  "failed_patch code msg details now =
     [(''status'', JStr ''failed''), (''finished_at'', JStr now),
      (''error'', JObj (error_dict code msg @ [(''details'', JObj details)]))]"

definition ignore_value_error :: "exc \<Rightarrow> (world, unit) act" where
  "ignore_value_error e = (if is_value_error e then act_return () else act_raise e)"

definition fail_quest ::
    "service \<Rightarrow> environment \<Rightarrow> dict \<Rightarrow> string \<Rightarrow> string \<Rightarrow> dict \<Rightarrow> (world, unit) act" where
  "fail_quest sv en s code msg details =
     act_try (act_bind (append_now sv en (state_id s) ''QuestFailed'' (failed_patch code msg details)
       (state_version s)) (\<lambda>_. act_return ())) ignore_value_error"

section \<open>The baseline snapshot\<close>

definition not_lost :: "environment \<Rightarrow> (world, bool) act" where
  "not_lost en = act_bind (ask (en_lost en)) (\<lambda>lost. act_return (\<not> lost))"

definition baseline_id :: "service \<Rightarrow> event_row \<Rightarrow> string \<Rightarrow> dict \<Rightarrow> string" where
  "baseline_id sv ev ws extra = ''baseline_'' @ take 24 (stable_hash (sv_sha sv) (JObj
     ([(''quest_id'', JStr (ev_quest ev)), (''state_version'', JInt (int (ev_after ev))),
       (''event_sequence'', JInt (int (ev_sequence ev))), (''workspace'', JStr ws)] @ extra)))"

definition store_baseline ::
    "service \<Rightarrow> environment \<Rightarrow> event_row \<Rightarrow> string \<Rightarrow> string \<Rightarrow> bool \<Rightarrow> (world, unit) act" where
  "store_baseline sv en ev owner ws legacy =
     (let qid = ev_quest ev; version = ev_after ev; sequence = Some (ev_sequence ev)
      in if legacy then act_bind (transact en (\<lambda>t. record_legacy_unobserved_baseline (sv_sha sv)
             (baseline_id sv ev ws [(''mode'', JStr ''legacy_unobserved'')]) qid owner version sequence
             (en_clock en t) (en_now en t))) (\<lambda>_. act_return ())
         else act_bind (service_get_quest en qid) (\<lambda>s.
           act_bind (scan sv en (state_workspace s)) (\<lambda>snapshot.
           act_bind (transact en (\<lambda>t. save_baseline_snapshot (sv_sha sv)
             (baseline_id sv ev ws [(''policy_version'', JStr (ws_policy snapshot)),
                (''status'', JStr (ws_status snapshot)), (''root_hash'', opt_str (ws_root snapshot))])
             qid owner version snapshot sequence (en_clock en t) (en_now en t))) (\<lambda>_. act_return ()))))"

definition baseline_refused :: "environment \<Rightarrow> string \<Rightarrow> exc \<Rightarrow> (world, bool) act" where
  "baseline_refused en qid e =
     (if \<not> is_value_error e then act_raise e
      else if exc_text e \<in> {''state version conflict'', ''live execution lease is not held by owner''}
      then act_return False
      else if exc_text e = ''baseline snapshot already exists for quest''
      then act_bind (query en (\<lambda>d. get_baseline_snapshot d qid)) (\<lambda>b.
             if b = None then act_return False else not_lost en)
      else act_raise e)"

definition record_execution_baseline ::
    "service \<Rightarrow> environment \<Rightarrow> event_row \<Rightarrow> string \<Rightarrow> (world, bool) act" where
  "record_execution_baseline sv en ev owner = unless_lost en False
     (act_bind (query en (\<lambda>d. get_baseline_snapshot d (ev_quest ev))) (\<lambda>b.
      if b \<noteq> None then not_lost en
      else act_bind (query en (\<lambda>d. list_tool_actions d (ev_quest ev))) (\<lambda>acts.
           act_bind (service_get_quest en (ev_quest ev)) (\<lambda>s.
           act_try (act_bind (store_baseline sv en ev owner (state_workspace s) (acts \<noteq> [])) (\<lambda>_. not_lost en))
             (baseline_refused en (ev_quest ev))))))"

section \<open>One pass of the loop\<close>

definition paused_patch :: dict where
  "paused_patch = [(''status'', JStr ''paused''), (''pause_requested'', JBool False),
     (''recovery_required'', JBool False)]"

definition pause_now :: "service \<Rightarrow> environment \<Rightarrow> dict \<Rightarrow> string \<Rightarrow> (world, unit) act" where
  "pause_now sv en s qid =
     act_bind (service_append_event sv en qid ''QuestPaused'' paused_patch (state_version s)) (\<lambda>_. checkpoint sv en qid)"

definition version_conflict :: "exc \<Rightarrow> bool" where
  "version_conflict e \<longleftrightarrow> is_value_error e \<and> sublist ''state version conflict'' (exc_text e)"

definition run_milestone ::
    "service \<Rightarrow> environment \<Rightarrow> dict \<Rightarrow> milestone \<Rightarrow> string \<Rightarrow> (world, bool) act" where
  "run_milestone sv en s m owner =
     act_bind (budget_reason sv en s m) (\<lambda>r. case r of
       Some x \<Rightarrow> unless_lost en False
         (act_bind (append_now sv en (state_id s) ''BudgetExhausted'' (exhausted_patch x) (state_version s))
           (\<lambda>_. act_return False))
     | None \<Rightarrow> act_try (execute_milestone sv en s m owner)
         (\<lambda>e. if version_conflict e then act_return True else act_raise e))"

definition worker_pass :: "service \<Rightarrow> environment \<Rightarrow> string \<Rightarrow> string \<Rightarrow> (world, bool) act" where
  "worker_pass sv en qid owner = unless_lost en False
     (act_bind (service_get_quest en qid) (\<lambda>s.
      if state_status s \<notin> set ACTIVE_STATUSES then act_return False
      else if truthy (read s ''pause_requested'')
      then act_bind (pause_now sv en s qid) (\<lambda>_. act_return False)
      else case ready_milestones (state_milestones s) of
        [] \<Rightarrow> unless_lost en False
          (act_bind (if list_all is_completed (as_list (read s ''milestones''))
             then finalize_quest sv en s owner
             else fail_quest sv en s ''DAG_STALLED'' ''No milestone is ready and the Quest is incomplete'' [])
            (\<lambda>_. act_return False))
      | m # ms \<Rightarrow> run_milestone sv en s m owner))"

fun worker_loop ::
    "nat \<Rightarrow> service \<Rightarrow> environment \<Rightarrow> string \<Rightarrow> string \<Rightarrow> world \<Rightarrow> (unit outcome \<times> world) option" where
  "worker_loop 0 sv en qid owner w = None"
| "worker_loop (Suc n) sv en qid owner w =
     (case worker_pass sv en qid owner w of
        (Inl e, w') \<Rightarrow> Some (Inl e, w')
      | (Inr go, w') \<Rightarrow> if go then worker_loop n sv en qid owner w' else Some (Inr (), w'))"

section \<open>The worker\<close>

text \<open>Before the loop; \<open>True\<close> when the loop is to run.\<close>

definition cancelled_patch :: dict where
  "cancelled_patch = [(''status'', JStr ''paused''), (''pause_requested'', JBool False),
     (''recovery_required'', JBool True),
     (''error'', JObj (error_dict ''SERVICE_SHUTDOWN'' ''Runtime is shutting down''))]"

definition worker_enter :: "service \<Rightarrow> environment \<Rightarrow> string \<Rightarrow> string \<Rightarrow> (world, bool) act" where
  "worker_enter sv en qid owner =
     act_bind (service_get_quest en qid) (\<lambda>s.
     act_bind (ask (en_closed en)) (\<lambda>closed.
     if closed then
       act_bind (if state_status s \<in> set ACTIVE_STATUSES
           then act_try (act_bind (service_append_event sv en qid ''QuestExecutionCancelled'' cancelled_patch (state_version s))
                  (\<lambda>_. act_return ())) ignore_value_error
           else act_return ()) (\<lambda>_. act_return False)
     else if truthy (read s ''pause_requested'')
     then act_bind (pause_now sv en s qid) (\<lambda>_. act_return False)
     else act_bind (ask (en_now en)) (\<lambda>now.
       act_bind (transact en (\<lambda>t. admit_execution (sv_sha sv) qid owner (sv_lease sv) (state_version s) now
         (en_clock en t) (en_now en t))) (\<lambda>admitted. case admitted of
           None \<Rightarrow> act_return False
         | Some ev \<Rightarrow>
             if sv_lease sv \<le> 0 then act_raise (OtherExc ''ValueError'' ''lease_seconds must be positive'')
             else record_execution_baseline sv en ev owner))))"

definition worker_body ::
    "nat \<Rightarrow> service \<Rightarrow> environment \<Rightarrow> string \<Rightarrow> string \<Rightarrow> world \<Rightarrow> (unit outcome \<times> world) option" where
  "worker_body n sv en qid owner w =
     (case worker_enter sv en qid owner w of
        (Inl e, w') \<Rightarrow> Some (Inl e, w')
      | (Inr go, w') \<Rightarrow> if go then worker_loop n sv en qid owner w' else Some (Inr (), w'))"

text \<open>The handler of all other exceptions.\<close>

definition worker_failed :: "service \<Rightarrow> environment \<Rightarrow> string \<Rightarrow> exc \<Rightarrow> (world, unit) act" where
  "worker_failed sv en qid e =
     act_bind (query en (\<lambda>d. get_quest d qid)) (\<lambda>r. unless_lost en () (case r of
       None \<Rightarrow> act_return ()
     | Some s \<Rightarrow>
         if state_status s \<in> set TERMINAL_STATUSES then act_return ()
         else fail_quest sv en s ''RUNTIME_ERROR'' ''Unexpected runtime failure''
                [(''exception_type'', JStr (exc_type e))]))"

definition worker_finish :: "environment \<Rightarrow> string \<Rightarrow> string \<Rightarrow> (world, unit) act" where
  "worker_finish en qid owner =
     act_bind (ask (en_stuck en)) (\<lambda>stuck.
       if stuck then act_raise (OtherExc ''RuntimeError'' ''lease heartbeat did not stop'')
       else act_bind (transact en (\<lambda>t d. always (release_lease qid owner d))) (\<lambda>_. act_return ()))"

definition worker_settle ::
    "service \<Rightarrow> environment \<Rightarrow> string \<Rightarrow> string \<Rightarrow> unit outcome \<Rightarrow> (world, unit) act" where
  "worker_settle sv en qid owner r = act_finally
     (case r of Inl e \<Rightarrow> worker_failed sv en qid e | Inr _ \<Rightarrow> act_return ()) (worker_finish en qid owner)"

definition lease_owner :: "service \<Rightarrow> string \<Rightarrow> string \<Rightarrow> string" where
  "lease_owner sv qid u = sv_owner sv @ '':'' @ qid @ '':'' @ u"

definition execute_quest ::
    "nat \<Rightarrow> service \<Rightarrow> environment \<Rightarrow> string \<Rightarrow> world \<Rightarrow> (unit outcome \<times> world) option" where
  "execute_quest n sv en qid w =
     (let owner = lease_owner sv qid (en_uuid en (wd_tick w))
      in case worker_body n sv en qid owner (w\<lparr>wd_tick := wd_tick w + 1\<rparr>) of
           None \<Rightarrow> None
         | Some (r, w') \<Rightarrow> Some (worker_settle sv en qid owner r w'))"

section \<open>Starting a worker\<close>

text \<open>The job itself is \<open>execute_quest\<close>, run later by a thread of the pool.\<close>

definition conflict_or_active :: "environment \<Rightarrow> string \<Rightarrow> exc \<Rightarrow> (world, 'a) act" where
  "conflict_or_active en qid e =
     act_bind (query en (\<lambda>d. get_quest d qid)) (\<lambda>r.
       if (case r of Some s \<Rightarrow> state_status s \<in> set ACTIVE_STATUSES | None \<Rightarrow> False)
       then act_raise (AppExc ''QUEST_LEASE_CONFLICT'' ''Quest already has an active executor'' 409)
       else act_raise e)"

definition scheduling_failed_patch :: "string \<Rightarrow> dict" where
  "scheduling_failed_patch now =
     [(''status'', JStr ''failed''), (''finished_at'', JStr now),
      (''error'', JObj (error_dict ''SCHEDULING_FAILED'' ''Quest could not be scheduled''))]"

definition submit_worker :: "service \<Rightarrow> environment \<Rightarrow> dict \<Rightarrow> (world, dict) act" where
  "submit_worker sv en s =
     act_bind (ask (en_submit en)) (\<lambda>submitted.
       if submitted then act_return s
       else act_bind (query en (\<lambda>d. get_quest d (state_id s))) (\<lambda>r.
         act_bind (case r of
             Some latest \<Rightarrow>
               if state_status latest \<in> set TERMINAL_STATUSES then act_return ()
               else act_bind (append_now sv en (state_id s) ''QuestSchedulingFailed'' scheduling_failed_patch
                      (state_version latest)) (\<lambda>_. act_return ())
           | None \<Rightarrow> act_return ())
           (\<lambda>_. act_raise (AppExc ''SCHEDULING_FAILED'' ''Quest could not be scheduled'' 503))))"

definition start_worker :: "service \<Rightarrow> environment \<Rightarrow> dict \<Rightarrow> bool \<Rightarrow> (world, dict) act" where
  "start_worker sv en s transition =
     act_bind (ask (en_closed en)) (\<lambda>closed.
       if closed then act_raise (AppExc ''SERVICE_UNAVAILABLE'' ''Runtime is shutting down'' 503)
       else if \<not> transition then submit_worker sv en s
       else act_bind (act_try (service_append_event sv en (state_id s) ''QuestStarted''
                [(''status'', JStr ''running''), (''error'', JNull)] (state_version s))
              (\<lambda>e. if is_value_error e
                 then conflict_or_active en (state_id s)
                        (AppExc ''STATE_VERSION_CONFLICT'' ''Quest state changed'' 409)
                 else act_raise e)) (\<lambda>ev.
            act_bind (service_get_quest en (ev_quest ev)) (submit_worker sv en)))"

end
