(* ===== verification/Quest_Control.thy ===== *)
theory Quest_Control
  imports Quest_Worker
begin

text \<open>
  The controls of a Quest, called by users through the interfaces (\<^verbatim>\<open>v1/service.py\<close>): create, confirm,
  start, pause, resume and decide, and the recovery of interrupted Quests when the service starts.
\<close>

section \<open>Contracts and drafts\<close>

definition budget_json :: "execution_budget \<Rightarrow> json" where
  "budget_json b = JObj
     [(''max_steps'', opt_int (max_steps b)), (''max_tool_calls'', opt_int (max_tool_calls b)),
      (''max_messages'', opt_int (max_messages b)), (''max_tokens'', opt_int (max_tokens b)),
      (''max_seconds'', case max_seconds b of None \<Rightarrow> JNull | Some x \<Rightarrow> JFloat x),
      (''max_replans'', opt_int (max_replans b))]"

definition budget_of_json :: "json \<Rightarrow> execution_budget" where
  "budget_of_json v =
     (let n = (\<lambda>k. Some (as_int (read (as_dict v) k)))
      in \<lparr>max_steps = n ''max_steps'', max_tool_calls = n ''max_tool_calls'', max_messages = n ''max_messages'',
          max_tokens = n ''max_tokens'', max_replans = n ''max_replans'',
          max_seconds = Some (as_rat (read (as_dict v) ''max_seconds''))\<rparr>)"

definition criterion_json :: "acceptance_criterion \<Rightarrow> json" where
  "criterion_json c = JObj
     [(''id'', JStr (c_id c)), (''kind'', JStr (kind_name (c_kind c))),
      (''description'', JStr (c_description c)), (''path'', opt_str (c_path c)),
      (''required_keys'', json_strs (c_required_keys c)), (''allowed_paths'', json_strs (c_allowed_paths c)),
      (''changed_paths'', json_strs (c_changed_paths c)), (''required'', JBool (c_required c))]"

definition contract_json :: "goal_contract \<Rightarrow> dict" where
  "contract_json c =
     [(''id'', JStr (goal_contract.gc_id c)), (''quest_id'', JStr (goal_contract.gc_quest c)),
      (''version'', JInt (goal_contract.gc_version c)), (''goal'', JStr (gc_goal c)),
      (''constraints'', json_strs (gc_constraints c)), (''non_goals'', json_strs (gc_non_goals c)),
      (''budget'', budget_json (gc_budget c)),
      (''acceptance_criteria'', JList (map criterion_json (gc_criteria c))),
      (''confirmed'', JBool False), (''created_at'', JNull), (''confirmed_at'', JNull)]"

text \<open>\<^verbatim>\<open>GoalContract.model_validate(contract).model_dump(mode="json")\<close>\<close>

definition validate_contract :: "service \<Rightarrow> dict \<Rightarrow> (world, dict) act" where
  "validate_contract sv c =
     (case sv_contract sv c of
        Inl m \<Rightarrow> act_raise (OtherExc ''ValidationError'' m) | Inr c' \<Rightarrow> act_return c')"

text \<open>\<^verbatim>\<open>compile_draft\<close>, with the agent's answer and the validated contract.\<close>

definition draft ::
    "service \<Rightarrow> quest_create \<Rightarrow> string \<Rightarrow> string option \<Rightarrow> string \<Rightarrow>
     (world, string \<times> dict \<times> plan \<times> string list) act" where
  "draft sv payload goal template qid =
     (case sv_plan sv goal template of
        Inl e \<Rightarrow> act_raise e
      | Inr (goal', template', steps) \<Rightarrow>
          (case compile_draft (sv_sha sv) goal' template' steps payload qid of
             Inl e \<Rightarrow> act_raise (exc_of e)
           | Inr (_, tid, contract, p, route) \<Rightarrow>
               act_bind (validate_contract sv (contract_json contract)) (\<lambda>c. act_return (tid, c, p, route))))"

section \<open>Creating a Quest\<close>

record quest_request =
  rq_payload :: quest_create
  rq_goal :: string
  rq_template :: "string option"
  rq_workspace :: "string option"
  rq_review :: bool

fun workspace_error :: "exc \<Rightarrow> exc" where
  "workspace_error (AppExc c m n) = AppExc c m n"
| "workspace_error (ToolExc c m d) = AppExc c m 422"
| "workspace_error e = AppExc ''INVALID_WORKSPACE'' (exc_text e) 422"

definition prepare_workspace :: "service \<Rightarrow> string \<Rightarrow> bool \<Rightarrow> (world, unit) act" where
  "prepare_workspace sv ws review = act_try
     (act_bind (if review
          then act_bind (on_files (workspace_path (sv_sandbox sv) ws False)) (\<lambda>p w.
                 if wd_files w p \<noteq> None
                 then (Inl (AppExc ''ARTIFACT_REVIEW_WORKSPACE_EXISTS''
                         ''Service-owned artifact review workspace already exists'' 409), w)
                 else (Inr (), w))
          else act_return ()) (\<lambda>_.
      act_bind (on_files (workspace_path (sv_sandbox sv) ws True)) (\<lambda>_. act_return ())))
     (\<lambda>e. act_raise (workspace_error e))"

definition configured_patch :: dict where
  "configured_patch = [(''artifact_review_required'', JBool True),
     (''artifact_disposition'', JStr ''pending''), (''pending_artifact_review'', JNull)]"

definition create_quest :: "service \<Rightarrow> environment \<Rightarrow> quest_request \<Rightarrow> (world, dict) act" where
  "create_quest sv en rq =
     act_bind (ask (en_uuid en)) (\<lambda>u.
     let qid = ''qv1_'' @ take 12 u
     in if rq_review rq \<and> rq_workspace rq \<noteq> None
        then act_raise (AppExc ''ARTIFACT_REVIEW_WORKSPACE_FORBIDDEN''
               ''Artifact review quests use a service-owned workspace'' 422)
        else let ws = (case rq_workspace rq of Some x \<Rightarrow> if x = [] then ''quests/'' @ qid else x
                       | None \<Rightarrow> ''quests/'' @ qid)
        in act_bind (prepare_workspace sv ws (rq_review rq)) (\<lambda>_.
           act_bind (draft sv (rq_payload rq) (rq_goal rq) (rq_template rq) qid) (\<lambda>(tid, contract, p, route).
           act_bind (transact en (\<lambda>t. create_draft (sv_sha sv) qid contract
             (p\<lparr>pl_metadata := dict_set ''template_id'' (JStr tid) (pl_metadata p)\<rparr>) (Some ws) (Some route)
             ''draft'' (en_now en t))) (\<lambda>created.
           if rq_review rq
           then act_bind (service_append_event sv en qid ''ArtifactReviewConfigured'' configured_patch (state_version created))
                  (\<lambda>_. service_get_quest en qid)
           else act_return created))))"

section \<open>Confirming the contract\<close>

record quest_confirm =
  qf_version :: nat
  qf_contract_version :: int
  qf_approved :: bool
  qf_changes :: dict

text \<open>
  \<open>qf_changes\<close>: the fields goal, constraints, non_goals, acceptance_criteria and budget the user sent,
  as JSON.
\<close>

definition rejected_patch :: dict where
  "rejected_patch = [(''status'', JStr ''draft''),
     (''error'', JObj (error_dict ''GOAL_CONTRACT_REJECTED'' ''Goal Contract requires revision''))]"

definition conflict_409 :: "exc \<Rightarrow> (world, 'a) act" where
  "conflict_409 e =
     (if is_value_error e then act_raise (AppExc ''STATE_VERSION_CONFLICT'' (exc_text e) 409) else act_raise e)"

definition confirmed_contract :: "dict \<Rightarrow> dict \<Rightarrow> string \<Rightarrow> dict" where
  "confirmed_contract contract changes now = update_dict contract
     ([(''version'', JInt (as_int (read contract ''version'') + 1))] @ changes @
      [(''confirmed'', JBool True), (''confirmed_at'', JStr now)])"

definition confirm_quest :: "service \<Rightarrow> environment \<Rightarrow> string \<Rightarrow> quest_confirm \<Rightarrow> (world, dict) act" where
  "confirm_quest sv en qid qf =
     act_bind (service_get_quest en qid) (\<lambda>s.
     if state_status s \<noteq> ''draft'' then act_raise (AppExc ''QUEST_NOT_CONFIRMABLE''
         (''Quest in '' @ [CHR 0x27] @ state_status s @ [CHR 0x27] @ '' state cannot be confirmed'') 409)
     else if state_version s \<noteq> qf_version qf then act_raise (AppExc ''STATE_VERSION_CONFLICT''
         ''Quest changed after the confirmation form was loaded'' 409)
     else if \<not> qf_approved qf
     then act_bind (service_append_event sv en qid ''GoalContractRejected'' rejected_patch (state_version s))
            (\<lambda>ev. service_get_quest en (ev_quest ev))
     else if contract_version s \<noteq> qf_contract_version qf
     then act_raise (AppExc ''CONTRACT_VERSION_CONFLICT'' ''Goal Contract version does not match'' 409)
     else act_bind (ask (en_now en)) (\<lambda>now.
          act_bind (validate_contract sv (confirmed_contract (as_dict (read s ''contract'')) (qf_changes qf) now))
            (\<lambda>contract.
          act_bind (act_try (transact en (\<lambda>t. store_contract_version (sv_sha sv) qid contract (state_version s)
              ''GoalContractConfirmed'' ''planned'' (en_now en t))) conflict_409) (\<lambda>_.
          service_get_quest en qid))))"

section \<open>Start and pause\<close>

definition check_expected_state_version :: "dict \<Rightarrow> nat option \<Rightarrow> (world, unit) act" where
  "check_expected_state_version s expected =
     (if expected \<noteq> None \<and> expected \<noteq> Some (state_version s)
      then act_raise (AppExc ''STATE_VERSION_CONFLICT'' ''Quest changed after the control was prepared'' 409)
      else act_return ())"

definition wrong_status :: "string \<Rightarrow> dict \<Rightarrow> string \<Rightarrow> exc" where
  "wrong_status code s verb = AppExc code
     (''Quest in '' @ [CHR 0x27] @ state_status s @ [CHR 0x27] @ '' state cannot be '' @ verb) 409"

definition start_quest :: "service \<Rightarrow> environment \<Rightarrow> string \<Rightarrow> nat option \<Rightarrow> (world, dict) act" where
  "start_quest sv en qid expected =
     act_bind (service_get_quest en qid) (\<lambda>s.
     act_bind (act_try (check_expected_state_version s expected)
       (\<lambda>e. if is_app_error e then conflict_or_active en qid e else act_raise e)) (\<lambda>_.
     if state_status s \<noteq> ''planned'' then act_raise (wrong_status ''QUEST_NOT_RUNNABLE'' s ''started'')
     else start_worker sv en s True))"

definition pause_quest :: "service \<Rightarrow> environment \<Rightarrow> string \<Rightarrow> nat option \<Rightarrow> (world, dict) act" where
  "pause_quest sv en qid expected =
     act_bind (service_get_quest en qid) (\<lambda>s.
     act_bind (check_expected_state_version s expected) (\<lambda>_.
     if state_status s = ''paused'' then act_return s
     else if state_status s \<notin> set ACTIVE_STATUSES
     then act_raise (wrong_status ''QUEST_NOT_PAUSABLE'' s ''paused'')
     else act_bind (service_append_event sv en qid ''PauseRequested'' [(''pause_requested'', JBool True)] (state_version s))
            (\<lambda>_. service_get_quest en qid)))"

section \<open>Resume\<close>

definition call_of_action :: "dict \<Rightarrow> string \<Rightarrow> action_row \<Rightarrow> bool \<Rightarrow> gateway_call" where
  "call_of_action s qid a approved = gateway_call.make (a_id a) qid (a_milestone a) (a_key a) (a_expected a)
     (state_workspace s) (a_tool a) (JObj (a_args a)) approved"

text \<open>The unresolved actions, one after the other; \<open>True\<close> when one of them stays unknown.\<close>

fun reconcile_actions ::
    "service \<Rightarrow> environment \<Rightarrow> dict \<Rightarrow> string \<Rightarrow> action_row list \<Rightarrow> (world, bool) act" where
  "reconcile_actions sv en s qid [] = act_return False"
| "reconcile_actions sv en s qid (a # as) =
     act_bind (action_is_approved en qid (a_id a)) (\<lambda>approved.
     act_bind (gateway_execute sv en (call_of_action s qid a approved)) (\<lambda>receipt.
     if rc_status receipt = ActUnknownEffect
     then act_bind (service_append_event sv en qid ''RecoveryNeedsUser''
            [(''status'', JStr ''waiting_user''), (''recovery_required'', JBool True),
             (''error'', opt_obj (rc_error receipt))] (state_version s)) (\<lambda>_. act_return True)
     else reconcile_actions sv en s qid as))"

definition check_history :: "service \<Rightarrow> environment \<Rightarrow> string \<Rightarrow> dict \<Rightarrow> (world, unit) act" where
  "check_history sv en qid s =
     act_bind (query en (\<lambda>d. replay (sv_sha sv) d qid False)) (\<lambda>r. case r of
       Inl e \<Rightarrow>
         (if is_value_error (exc_of e) then act_raise (AppExc ''EVENT_REPLAY_FAILED'' (exc_text (exc_of e)) 409)
          else act_raise (exc_of e))
     | Inr replayed \<Rightarrow>
         if stable_hash (sv_sha sv) (JObj replayed) \<noteq> stable_hash (sv_sha sv) (JObj s)
         then act_raise (AppExc ''STATE_CHECKSUM_MISMATCH'' ''Event replay does not match the current projection'' 409)
         else act_bind (query en (\<lambda>d. has_checkpoint d qid)) (\<lambda>known.
           if \<not> known then act_return ()
           else act_bind (transact en (\<lambda>t d. andThen (validate_checkpoint (sv_sha sv) d qid None) (\<lambda>b. Inr (b, d))))
             (\<lambda>valid. if valid then act_return ()
                else act_raise (AppExc ''CHECKPOINT_INVALID'' ''Checkpoint checksum or replay validation failed'' 409))))"

definition resume_quest :: "service \<Rightarrow> environment \<Rightarrow> string \<Rightarrow> nat option \<Rightarrow> (world, dict) act" where
  "resume_quest sv en qid expected =
     act_bind (service_get_quest en qid) (\<lambda>s.
     act_bind (check_expected_state_version s expected) (\<lambda>_.
     if state_status s \<notin> {''paused'', ''recovering''}
     then act_raise (wrong_status ''QUEST_NOT_RESUMABLE'' s ''resumed'')
     else act_bind (check_history sv en qid s) (\<lambda>_.
          act_bind (query en (\<lambda>d. list_unresolved_actions d qid)) (\<lambda>unresolved.
          act_bind (reconcile_actions sv en s qid unresolved) (\<lambda>blocked.
          if blocked then service_get_quest en qid
          else act_bind (service_get_quest en qid) (\<lambda>s.
               act_bind (service_append_event sv en qid ''RecoveryStarted''
                 [(''status'', JStr ''recovering''), (''pause_requested'', JBool False),
                  (''milestones'', read s ''milestones'')] (state_version s)) (\<lambda>_.
               act_bind (service_get_quest en qid) (\<lambda>s.
               act_bind (service_append_event sv en qid ''RecoveryCompleted''
                 [(''status'', JStr ''running''), (''recovery_required'', JBool False), (''error'', JNull)]
                 (state_version s)) (\<lambda>_.
               act_bind (service_get_quest en qid) (\<lambda>s. start_worker sv en s False))))))))))"

end
