(* ===== verification/Quest_Review.thy ===== *)
theory Quest_Review
  imports Quest_Control
begin

text \<open>
  The decisions of the user on a waiting Quest (\<^verbatim>\<open>submit_decision\<close>, \<^verbatim>\<open>review_artifacts\<close> and their
  helpers in \<^verbatim>\<open>v1/service.py\<close>), reading the artifacts, and the recovery when the service starts.
\<close>

section \<open>Decisions\<close>

record decision_request =
  dq_kind :: string
  dq_version :: nat
  dq_note :: string
  dq_patch :: dict

definition supported_fields :: "string list" where
  "supported_fields = [''goal'', ''constraints'', ''non_goals'', ''budget'', ''acceptance_criteria'']"

definition decision_data :: "decision_request \<Rightarrow> string \<Rightarrow> string \<Rightarrow> dict \<Rightarrow> dict" where
  "decision_data dq did qid s =
     [(''kind'', JStr (dq_kind dq)), (''expected_state_version'', JInt (int (dq_version dq))),
      (''note'', JStr (dq_note dq)), (''contract_patch'', JObj (dq_patch dq)), (''id'', JStr did),
      (''quest_id'', JStr qid), (''state_version'', read s ''state_version'')]"

definition invalid_patch :: "string \<Rightarrow> exc" where
  "invalid_patch m = AppExc ''INVALID_CONTRACT_PATCH'' m 422"

definition payload_of_contract :: "dict \<Rightarrow> dict \<Rightarrow> quest_create" where
  "payload_of_contract s c =
     \<lparr>qc_constraints = map as_str (as_list (read c ''constraints'')),
      qc_non_goals = map as_str (as_list (read c ''non_goals'')),
      qc_budget = budget_of_json (read c ''budget''),
      qc_criteria = map criterion_of_json (as_list (read c ''acceptance_criteria'')),
      qc_force_multi = Some (1 < length (state_route s))\<rparr>"

definition next_plan :: "dict \<Rightarrow> plan \<Rightarrow> plan" where
  "next_plan s p =
     (let version = as_int (read s ''plan_version'') + 1
      in p\<lparr>pl_id := as_str (dict_get_or s ''plan_id'' (JStr (pl_id p))), pl_version := version,
           pl_milestones := map (\<lambda>m. m\<lparr>m_plan_version := version\<rparr>) (pl_milestones p)\<rparr>)"

text \<open>The new contract, its plan and the route of a modification.\<close>

definition modification ::
    "service \<Rightarrow> environment \<Rightarrow> dict \<Rightarrow> string \<Rightarrow> decision_request \<Rightarrow>
     (world, dict \<times> plan \<times> string list) act" where
  "modification sv en s qid dq =
     (if dq_patch dq = [] \<or> \<not> set (map fst (dq_patch dq)) \<subseteq> set supported_fields
      then act_raise (invalid_patch ''A modification requires only supported Goal Contract fields'')
      else act_bind (ask (en_now en)) (\<lambda>now.
        act_bind (act_try (validate_contract sv
            (update_dict (update_dict (as_dict (read s ''contract'')) (dq_patch dq))
              [(''version'', JInt (contract_version s + 1)), (''confirmed'', JBool True),
               (''confirmed_at'', JStr now)]))
          (\<lambda>e. if is_value_error e then act_raise (invalid_patch ''Goal Contract modification is invalid'')
             else act_raise e)) (\<lambda>contract.
        act_bind (draft sv (payload_of_contract s contract) (as_str (read contract ''goal''))
            (case read s ''template_id'' of JStr x \<Rightarrow> Some x | _ \<Rightarrow> None) qid) (\<lambda>(tid, c, p, route).
        act_return (contract, next_plan s p, route)))))"

definition modified_events :: "dict \<Rightarrow> plan \<Rightarrow> string list \<Rightarrow> (string \<times> dict) list" where
  "modified_events contract p route =
     [(''GoalContractModified'', [(''contract'', JObj contract), (''goal'', dict_get_or contract ''goal'' (JStr [])),
         (''status'', JStr ''replanning''), (''error'', JNull)]),
      (''PlanReplanned'', [(''plan_id'', JStr (pl_id p)), (''plan_version'', JInt (pl_version p)),
         (''plan_metadata'', JObj (pl_metadata p)), (''milestones'', milestones_json (pl_milestones p)),
         (''status'', JStr ''running'')]),
      (''UserModificationApplied'', [(''status'', JStr ''paused''), (''route'', json_strs route),
         (''pending_approval'', JNull), (''current_milestone_id'', JNull), (''error'', JNull)])]"

definition rejected_events :: "string \<Rightarrow> string \<Rightarrow> (string \<times> dict) list" where
  "rejected_events note now = [(''UserRejected'', [(''status'', JStr ''failed''), (''finished_at'', JStr now),
     (''error'', JObj (error_dict ''USER_REJECTED'' note))])]"

text \<open>The milestone that waits for the approval goes back to pending, its attempt does not count.\<close>

definition reopen_milestone :: "json \<Rightarrow> json \<Rightarrow> json" where
  "reopen_milestone mid m =
     (if read (as_dict m) ''id'' = mid
      then JObj (update_dict (as_dict m) [(''status'', JStr ''pending''),
        (''attempt'', JInt (max 0 (as_int (dict_get_or (as_dict m) ''attempt'' (JInt 0)) - 1)))])
      else m)"

definition approved_events :: "dict \<Rightarrow> (string \<times> dict) list" where
  "approved_events s =
     (let pending = read s ''pending_approval''; ms = as_list (read s ''milestones'')
      in [(''UserApproved'', [(''status'', JStr ''paused''), (''error'', JNull), (''pending_approval'', JNull),
         (''milestones'', JList (if truthy pending
            then map (reopen_milestone (read (as_dict pending) ''milestone_id'')) ms else ms))])])"

definition decision_error :: "exc \<Rightarrow> (world, 'a) act" where
  "decision_error e =
     (let m = exc_text e
      in if \<not> is_value_error e then act_raise e
         else if sublist ''approval target'' m then act_raise (AppExc ''APPROVAL_TARGET_MISMATCH'' m 422)
         else if sublist ''completed milestone'' m then act_raise (AppExc ''COMPLETED_MILESTONE_IMMUTABLE'' m 409)
         else if sublist ''decision not requested'' m then act_raise (AppExc ''DECISION_NOT_REQUESTED'' m 409)
         else act_raise (AppExc ''STATE_VERSION_CONFLICT'' m 409))"

definition decide ::
    "service \<Rightarrow> environment \<Rightarrow> dict \<Rightarrow> string \<Rightarrow> string \<Rightarrow> decision_request \<Rightarrow>
     (string \<times> dict) list \<Rightarrow> dict option \<Rightarrow> plan option \<Rightarrow> (world, dict) act" where
  "decide sv en s qid did dq es contract p =
     act_try (transact en (\<lambda>t. apply_decision (sv_sha sv) qid did (decision_data dq did qid s) (dq_version dq)
       (dq_kind dq) es contract p (en_now en t))) decision_error"

definition submit_decision :: "service \<Rightarrow> environment \<Rightarrow> string \<Rightarrow> decision_request \<Rightarrow> (world, dict) act" where
  "submit_decision sv en qid dq =
     act_bind (service_get_quest en qid) (\<lambda>s.
     if state_status s \<noteq> ''waiting_user'' then act_raise (AppExc ''DECISION_NOT_REQUESTED''
         (''Quest in '' @ [CHR 0x27] @ state_status s @ [CHR 0x27] @ '' state is not waiting for a decision'') 409)
     else if truthy (read s ''pending_artifact_review'') then act_raise (AppExc ''ARTIFACT_REVIEW_REQUIRED''
         ''Use the artifact review endpoint to retain or discard the frozen results'' 409)
     else if state_version s \<noteq> dq_version dq
     then act_raise (AppExc ''STATE_VERSION_CONFLICT'' ''Quest state changed'' 409)
     else act_bind (ask (en_uuid en)) (\<lambda>u.
       let did = ''decision_'' @ take 12 u; pending = read s ''pending_approval''
       in if dq_kind dq = ''approve'' \<and> truthy pending \<and>
             read (dq_patch dq) ''action_id'' \<noteq> read (as_dict pending) ''action_id''
          then act_raise (AppExc ''APPROVAL_TARGET_MISMATCH'' ''Approval must name the exact pending action'' 422)
          else if dq_kind dq = ''modify''
          then act_bind (modification sv en s qid dq) (\<lambda>(contract, p, route).
            decide sv en s qid did dq (modified_events contract p route) (Some contract) (Some p))
          else if dq_kind dq = ''reject''
          then act_bind (ask (en_now en)) (\<lambda>now.
            decide sv en s qid did dq (rejected_events (dq_note dq) now) None None)
          else decide sv en s qid did dq (approved_events s) None None))"

section \<open>Artifacts\<close>

definition verified_artifact_path :: "service \<Rightarrow> dict \<Rightarrow> dict \<Rightarrow> (fs, path) act" where
  "verified_artifact_path sv s item =
     (if read item ''created_by_quest'' \<noteq> JBool True
      then act_raise (AppExc ''ARTIFACT_OWNERSHIP_INVALID'' ''Artifact is not marked as created by this Quest'' 409)
      else act_bind (artifact_lexical_path sv s (as_str (read item ''path''))) (\<lambda>p w. case w p of
        None \<Rightarrow> (Inl (invalid_path ''Artifact path is unavailable''), w)
      | Some (RegFile bytes) \<Rightarrow>
          if JInt (int (length bytes)) \<noteq> read item ''size''
          then (Inl (AppExc ''ARTIFACT_CHANGED'' ''Artifact is no longer the frozen regular file'' 409), w)
          else if JStr (ho_bsha (sv_host sv) bytes) \<noteq> read item ''hash''
          then (Inl (AppExc ''ARTIFACT_HASH_MISMATCH'' ''Artifact no longer matches the frozen hash'' 409), w)
          else (Inr p, w)
      | Some _ \<Rightarrow> (Inl (AppExc ''ARTIFACT_CHANGED'' ''Artifact is no longer the frozen regular file'' 409), w)))"

definition state_manifest :: "dict \<Rightarrow> dict list" where
  "state_manifest s = map as_dict (as_list (dict_get_or s ''artifact_manifest'' (JList [])))"

definition get_artifacts :: "environment \<Rightarrow> string \<Rightarrow> (world, dict) act" where
  "get_artifacts en qid =
     act_bind (service_get_quest en qid) (\<lambda>s.
     if \<not> truthy (read s ''artifact_review_required'')
     then act_raise (AppExc ''ARTIFACT_REVIEW_NOT_ENABLED'' ''Artifact review was not requested'' 404)
     else let pending = as_dict (read s ''pending_artifact_review'')
          in act_return
            [(''review'', JObj [(''status'', read s ''status''), (''disposition'', read s ''artifact_disposition''),
                (''review_id'', read pending ''review_id''), (''manifest_hash'', read pending ''manifest_hash''),
                (''pending'', JObj pending)]),
             (''artifact_disposition'', read s ''artifact_disposition''),
             (''items'', dict_get_or s ''artifact_manifest'' (JList []))])"

definition preview_artifact :: "service \<Rightarrow> environment \<Rightarrow> string \<Rightarrow> string \<Rightarrow> (world, dict) act" where
  "preview_artifact sv en qid aid =
     act_bind (service_get_quest en qid) (\<lambda>s.
     case find (\<lambda>i. read i ''artifact_id'' = JStr aid) (state_manifest s) of
       None \<Rightarrow> act_raise (AppExc ''ARTIFACT_NOT_FOUND'' ''Artifact was not found'' 404)
     | Some item \<Rightarrow> act_bind (on_files (verified_artifact_path sv s item)) (\<lambda>p w.
         case wd_files w p of
           Some (RegFile bytes) \<Rightarrow>
             if utf8_decode bytes = None
             then (Inl (AppExc ''ARTIFACT_NOT_TEXT'' ''Artifact is not UTF-8 text'' 409), w)
             else (Inr [(''artifact_id'', JStr aid), (''path'', read item ''path''),
                    (''content'', JStr (read_newlines bytes)), (''size'', read item ''size''),
                    (''hash'', read item ''hash'')], w)
         | _ \<Rightarrow> (Inl (OtherExc ''FileNotFoundError'' []), w)))"

text \<open>A manifest item that names a provenance row must agree with it.\<close>

definition storage_status_of :: "json \<Rightarrow> string option" where
  "storage_status_of v =
     (case v of
        JStr st \<Rightarrow>
          if starts_with st ''shadow_'' then Some ''shadow''
          else if st = ''legacy_unobserved'' then Some ''legacy_unobserved''
          else if starts_with st ''unrecoverable_'' then Some ''unrecoverable'' else None
      | _ \<Rightarrow> None)"

definition provenance_agrees :: "dict \<Rightarrow> dict \<Rightarrow> provenance_row \<Rightarrow> bool" where
  "provenance_agrees s item row \<longleftrightarrow>
     read item ''provenance_mode'' = JStr ''compatibility_shadow'' \<and>
     storage_status_of (read item ''provenance_status'') = Some (pr_status row) \<and>
     pr_quest row = state_id s \<and> JStr (pr_artifact row) = read item ''artifact_id'' \<and>
     JStr (pr_hash row) = read item ''hash'' \<and> JStr (pr_evidence row) = read item ''evidence_id'' \<and>
     JStr (pr_baseline row) = read item ''baseline_snapshot_id'' \<and>
     JStr (pr_final row) = read item ''final_snapshot_id''"

definition verify_provenance_reference :: "environment \<Rightarrow> dict \<Rightarrow> dict \<Rightarrow> (world, unit) act" where
  "verify_provenance_reference en s item =
     (let invalid = (\<lambda>m. act_raise (AppExc ''ARTIFACT_PROVENANCE_INVALID'' m 409))
      in case read item ''provenance_id'' of
           JNull \<Rightarrow> act_return ()
         | JStr i \<Rightarrow>
             if i = [] then invalid ''Artifact provenance reference is invalid''
             else act_bind (query en (\<lambda>d. get_artifact_provenance d i)) (\<lambda>row.
               if (case row of Some r \<Rightarrow> provenance_agrees s item r | None \<Rightarrow> False) then act_return ()
               else invalid ''Artifact provenance does not match the frozen manifest'')
         | _ \<Rightarrow> invalid ''Artifact provenance reference is invalid'')"

definition verify_artifact_manifest :: "service \<Rightarrow> environment \<Rightarrow> dict \<Rightarrow> (world, unit) act" where
  "verify_artifact_manifest sv en s =
     (if state_manifest s = [] then act_raise (AppExc ''ARTIFACT_MANIFEST_EMPTY''
          ''No previewable verified artifacts were produced'' 409)
      else act_each (\<lambda>item. act_bind (on_files (verified_artifact_path sv s item))
             (\<lambda>_. verify_provenance_reference en s item)) (state_manifest s))"

text \<open>Only a file that is still the frozen one is removed; an absent one is skipped.\<close>

definition discard_artifact :: "service \<Rightarrow> dict \<Rightarrow> dict \<Rightarrow> (fs, unit) act" where
  "discard_artifact sv s item =
     act_bind (artifact_lexical_path sv s (as_str (dict_get_or item ''path'' (JStr [])))) (\<lambda>p w.
       if w p = None then (Inr (), w)
       else act_bind (verified_artifact_path sv s item) (\<lambda>p w. (Inr (), w(p := None))) w)"

definition discard_artifacts :: "service \<Rightarrow> environment \<Rightarrow> dict \<Rightarrow> (world, unit) act" where
  "discard_artifacts sv en s =
     act_bind (act_each (\<lambda>item. on_files (discard_artifact sv s item)) (state_manifest s)) (\<lambda>_.
     act_bind (service_get_quest en (state_id s)) (\<lambda>latest.
     if state_status latest = ''discarding''
     then act_bind (transact en (\<lambda>t. finalize_artifact_discard (sv_sha sv) (state_id latest)
            (state_version latest) (en_now en t))) (\<lambda>_. act_return ())
     else act_return ()))"

section \<open>The review\<close>

record review_request =
  rr_version :: nat
  rr_review :: string
  rr_manifest :: string
  rr_decision :: string
  rr_key :: string
  rr_note :: "string option"

definition validate_receipt :: "review_row \<Rightarrow> review_request \<Rightarrow> (world, unit) act" where
  "validate_receipt row rr =
     (if rv_id row \<noteq> rr_review rr \<or> rv_manifest row \<noteq> rr_manifest rr \<or> rv_key row \<noteq> rr_key rr \<or>
         rv_decision row \<noteq> rr_decision rr \<or> rv_note row \<noteq> rr_note rr
      then act_raise (AppExc ''IDEMPOTENCY_CONFLICT'' ''Review request conflicts with the recorded decision'' 409)
      else act_return ())"

definition review_event :: "bool \<Rightarrow> string \<times> dict" where
  "review_event retain =
     (if retain then (''ArtifactAccepted'', [(''artifact_disposition'', JStr ''retained''),
                        (''pending_artifact_review'', JNull)])
      else (''ArtifactDiscardRequested'', [(''status'', JStr ''discarding''),
              (''artifact_disposition'', JStr ''discarding''), (''pending_artifact_review'', JNull)]))"

definition begin_review ::
    "service \<Rightarrow> environment \<Rightarrow> dict \<Rightarrow> string \<Rightarrow> review_request \<Rightarrow> (world, review_row \<times> event_row option) act" where
  "begin_review sv en s qid rr =
     (let retain = (rr_decision rr = ''retain'')
      in act_bind (if retain then ask (en_now en) else act_return []) (\<lambda>now.
         act_try (transact en (\<lambda>t. begin_artifact_review (sv_sha sv) qid (rr_review rr) (rr_manifest rr)
             (rr_key rr) (rr_decision rr) (rr_note rr) (state_version s) (fst (review_event retain))
             (snd (review_event retain))
             (if retain then Some (''QuestCompleted'', completed_quest_patch now) else None) (en_now en t)))
           (\<lambda>e. if is_value_error e
              then act_raise (AppExc ''STATE_VERSION_CONFLICT'' ''Quest state changed'' 409) else act_raise e)))"

definition repeat_review ::
    "service \<Rightarrow> environment \<Rightarrow> string \<Rightarrow> review_request \<Rightarrow> review_row \<Rightarrow> (world, dict) act" where
  "repeat_review sv en qid rr row =
     act_bind (validate_receipt row rr) (\<lambda>_.
     act_bind (if rr_decision rr = ''discard''
         then act_bind (service_get_quest en qid) (\<lambda>s.
           if state_status s = ''discarding''
           then act_bind (service_get_quest en qid) (discard_artifacts sv en) else act_return ())
         else act_return ()) (\<lambda>_.
     service_get_quest en qid))"

definition review_artifacts :: "service \<Rightarrow> environment \<Rightarrow> string \<Rightarrow> review_request \<Rightarrow> (world, dict) act" where
  "review_artifacts sv en qid rr =
     act_bind (service_get_quest en qid) (\<lambda>s.
     if \<not> truthy (read s ''artifact_review_required'')
     then act_raise (AppExc ''ARTIFACT_REVIEW_NOT_ENABLED'' ''Artifact review was not requested'' 409)
     else act_bind (query en (\<lambda>d. find_review d qid)) (\<lambda>known. case known of
       Some row \<Rightarrow> repeat_review sv en qid rr row
     | None \<Rightarrow>
         let pending = read s ''pending_artifact_review'' in
         if state_status s \<noteq> ''waiting_user'' \<or> \<not> truthy pending
         then act_raise (AppExc ''ARTIFACT_REVIEW_NOT_PENDING'' ''Quest is not awaiting artifact review'' 409)
         else if read (as_dict pending) ''review_id'' \<noteq> JStr (rr_review rr) \<or>
                 read (as_dict pending) ''manifest_hash'' \<noteq> JStr (rr_manifest rr)
         then act_raise (AppExc ''ARTIFACT_REVIEW_CONFLICT''
                ''Artifact review does not match the frozen manifest'' 409)
         else act_bind (check_expected_state_version s (Some (rr_version rr))) (\<lambda>_.
              act_bind (if rr_decision rr = ''retain'' then verify_artifact_manifest sv en s else act_return ()) (\<lambda>_.
              act_bind (begin_review sv en s qid rr) (\<lambda>(row, ev).
              if ev = None then act_bind (validate_receipt row rr) (\<lambda>_. service_get_quest en qid)
              else if rr_decision rr = ''retain''
              then act_bind (checkpoint sv en qid) (\<lambda>_. service_get_quest en qid)
              else act_bind (service_get_quest en qid) (\<lambda>s'.
                   act_bind (discard_artifacts sv en s') (\<lambda>_. service_get_quest en qid)))))))"

section \<open>Recovery when the service starts\<close>

definition interrupted_patch :: "dict \<Rightarrow> dict" where
  "interrupted_patch s =
     [(''status'', JStr ''paused''), (''pause_requested'', JBool False), (''recovery_required'', JBool True),
      (''milestones'', dict_get_or s ''milestones'' (JList [])),
      (''error'', JObj (error_dict ''PROCESS_INTERRUPTED'' ''Resume will replay and reconcile the last action''))]"

definition list_quests :: "db \<Rightarrow> dict list" where
  "list_quests d = map q_state (rev (sort_key (\<lambda>r. (q_created r, q_id r)) (quests d)))"

fun recover_quests :: "service \<Rightarrow> environment \<Rightarrow> dict list \<Rightarrow> (world, nat) act" where
  "recover_quests sv en [] = act_return 0"
| "recover_quests sv en (s # ss) =
     (if state_status s = ''discarding''
      then act_bind (act_try (discard_artifacts sv en s)
             (\<lambda>e. if is_app_error e then act_return () else act_raise e)) (\<lambda>_. recover_quests sv en ss)
      else if state_status s \<notin> set ACTIVE_STATUSES then recover_quests sv en ss
      else act_bind (service_append_event sv en (state_id s) ''ProcessInterrupted'' (interrupted_patch s) (state_version s)) (\<lambda>_.
           act_bind (checkpoint sv en (state_id s)) (\<lambda>_.
           act_bind (recover_quests sv en ss) (\<lambda>n. act_return (n + 1)))))"

record recovery_summary =
  rs_interrupted :: nat
  rs_ambiguous :: nat
  rs_leases :: nat
  rs_resource_leases :: nat
  rs_receipts :: "nat \<times> nat \<times> nat"

definition recover_interrupted :: "service \<Rightarrow> environment \<Rightarrow> (world, recovery_summary) act" where
  "recover_interrupted sv en =
     act_bind (transact en (\<lambda>t d. always (clear_runtime_leases_on_startup d))) (\<lambda>(leases, resources).
     act_bind (transact en (\<lambda>t d. always (mark_dispatched_actions_unknown (en_now en t) d))) (\<lambda>ambiguous.
     act_bind (query en list_quests) (\<lambda>ss.
     act_bind (recover_quests sv en ss) (\<lambda>n.
     act_bind (query en action_recovery_summary) (\<lambda>receipts.
     act_return \<lparr>rs_interrupted = n, rs_ambiguous = ambiguous, rs_leases = leases,
       rs_resource_leases = resources, rs_receipts = receipts\<rparr>)))))"

end
