(* ===== verification/Effects.thy ===== *)
theory Effects
  imports Quest_World
begin

text \<open>
  What an action does to its state, as a relation between the state before and after. The relation is
  reflexive and transitive, so the actions that respect it are closed under the ways the sources combine
  actions: sequence, branches, \<^verbatim>\<open>try\<close>, \<^verbatim>\<open>finally\<close> and loops.
\<close>

locale action_relation =
  fixes R :: "'s \<Rightarrow> 's \<Rightarrow> bool"
  assumes R_refl: "R s s" and R_trans: "R s s' \<Longrightarrow> R s' s'' \<Longrightarrow> R s s''"
begin

definition keeps :: "('s, 'a) act \<Rightarrow> bool" where
  "keeps m \<longleftrightarrow> (\<forall>s. R s (snd (m s)))"

lemma keepsD: "keeps m \<Longrightarrow> m s = (r, s') \<Longrightarrow> R s s'"
  unfolding keeps_def by (metis snd_conv)

lemma keepsI: "(\<And>s. R s (snd (m s))) \<Longrightarrow> keeps m"
  by (simp add: keeps_def)

lemma keeps_same: "(\<And>s. snd (m s) = s) \<Longrightarrow> keeps m"
  by (simp add: keeps_def R_refl)

text \<open>One action, then another one that may depend on the first.\<close>

lemma keeps_then:
  assumes "keeps m" and "\<And>r. keeps (f r)" and "\<And>s r s1. m s = (r, s1) \<Longrightarrow> snd (q s) = s1 \<or> snd (q s) = snd (f r s1)"
  shows "keeps q"
proof (rule keepsI)
  fix s :: 's
  obtain r s1 where m: "m s = (r, s1)" by (cases "m s")
  have "R s s1" by (rule keepsD [OF assms(1) m])
  moreover have "R s1 (snd (f r s1))" using assms(2) by (simp add: keeps_def)
  ultimately show "R s (snd (q s))" using assms(3) [OF m] R_trans by auto
qed

lemma keeps_return: "keeps (act_return x)" and keeps_raise: "keeps (act_raise e)"
  by (rule keeps_same, simp add: act_return_def act_raise_def)+

lemma keeps_bind:
  assumes "keeps m" and "\<And>x. keeps (f x)"
  shows "keeps (act_bind m f)"
  by (rule keeps_then [OF assms(1), of "\<lambda>r. case r of Inl e \<Rightarrow> act_raise e | Inr x \<Rightarrow> f x"])
    (use assms(2) keeps_raise in \<open>auto simp: act_bind_def split: sum.splits\<close>)

lemma keeps_try:
  assumes "keeps m" and "\<And>e. keeps (f e)"
  shows "keeps (act_try m f)"
  by (rule keeps_then [OF assms(1), of "\<lambda>r. case r of Inl e \<Rightarrow> f e | Inr x \<Rightarrow> act_return x"])
    (use assms(2) keeps_return in \<open>auto simp: act_try_def split: sum.splits\<close>)

lemma keeps_finally:
  assumes "keeps m" and "keeps f"
  shows "keeps (act_finally m f)"
  by (rule keeps_then [OF assms(1), of "\<lambda>_. f"])
    (use assms(2) in \<open>auto simp: act_finally_def split: prod.splits sum.splits\<close>)

lemma keeps_catch: "keeps m \<Longrightarrow> keeps (act_catch m f)"
  unfolding keeps_def act_catch_def by (auto split: prod.splits sum.splits) (metis snd_conv)+

lemma keeps_if: "(b \<Longrightarrow> keeps m) \<Longrightarrow> (\<not> b \<Longrightarrow> keeps m') \<Longrightarrow> keeps (if b then m else m')"
  by simp

lemma keeps_option: "keeps m \<Longrightarrow> (\<And>x. keeps (f x)) \<Longrightarrow> keeps (case r of None \<Rightarrow> m | Some x \<Rightarrow> f x)"
  by (cases r) auto

lemma keeps_sum:
  "(\<And>e. keeps (f e)) \<Longrightarrow> (\<And>x. keeps (g x)) \<Longrightarrow> keeps (case r of Inl e \<Rightarrow> f e | Inr x \<Rightarrow> g x)"
  by (cases r) auto

lemma keeps_pair: "(\<And>x y. keeps (f x y)) \<Longrightarrow> keeps (case p of (x, y) \<Rightarrow> f x y)"
  by (cases p) auto

lemma keeps_list:
  "keeps m \<Longrightarrow> (\<And>x xs. keeps (f x xs)) \<Longrightarrow> keeps (case ys of [] \<Rightarrow> m | x # xs \<Rightarrow> f x xs)"
  by (cases ys) auto

lemma keeps_let: "keeps (f x) \<Longrightarrow> keeps (let y = x in f y)"
  by simp

lemma keeps_each: "(\<And>x. keeps (f x)) \<Longrightarrow> keeps (act_each f xs)"
  by (induction xs) (auto intro: keeps_return keeps_bind)

lemmas keeps_intros = keeps_return keeps_raise keeps_bind keeps_try keeps_finally keeps_catch keeps_if
  keeps_option keeps_sum keeps_pair keeps_list keeps_let keeps_each

end

end
