(* ===== verification/Quest_Refinement.thy ===== *)
theory Quest_Refinement
  imports Quest_Review Effects
begin

text \<open>
  The service refines the store: whatever an operation of the service does to the database, it does by
  steps of the store. The gateway is covered once, for every store whose operations step (locale
  \<open>stepping_store\<close>), the service by closure rules for its actions, collected in \<open>step_intros\<close>.
\<close>

section \<open>The gateway over a store that steps\<close>

locale stepping_store =
  fixes st :: "'s gateway_store" and R :: "'s \<Rightarrow> 's \<Rightarrow> bool"
  assumes R_refl: "R d d"
    and R_trans: "R d d' \<Longrightarrow> R d' d'' \<Longrightarrow> R d d''"
    and prepare_R: "gs_prepare st aid qid mid key tool h args v pre d = Inr (row, d') \<Longrightarrow> R d d'"
    and dispatched_R: "gs_dispatched st aid d = Inr (row, d') \<Longrightarrow> R d d'"
    and commit_R: "gs_commit st aid res ob d = Inr (row, d') \<Longrightarrow> R d d'"
    and fail_R: "gs_fail st aid err d = Inr (row, d') \<Longrightarrow> R d d'"
    and unknown_R: "gs_unknown st aid err' d = Inr (row, d') \<Longrightarrow> R d d'"
begin

sublocale effects: action_relation "\<lambda>s s' :: 's gw_state. R (st_store s) (st_store s')"
  by unfold_locales (auto intro: R_refl R_trans)

abbreviation gw_steps :: "('s gw_state, 'a) act \<Rightarrow> bool" where
  "gw_steps \<equiv> effects.keeps"

lemma gw_steps_simple: "(\<And>s. st_store (snd (m s)) = st_store s) \<Longrightarrow> gw_steps m"
  by (simp add: effects.keeps_def R_refl)

lemma gw_steps_fs: "gw_steps (on_fs m)"
  by (rule gw_steps_simple) (simp add: on_fs_def split: prod.splits)

lemma gw_steps_fault: "gw_steps (hit_fault p)"
  by (rule gw_steps_simple) (simp add: hit_fault_def)

lemma gw_steps_store: "(\<And>d x d'. f d = Inr (x, d') \<Longrightarrow> R d d') \<Longrightarrow> gw_steps (on_store f)"
  by (auto simp: effects.keeps_def on_store_def R_refl split: sum.splits)

lemmas gw_intros = effects.keeps_intros gw_steps_fs gw_steps_fault

lemma commit_receipt_steps: "gw_steps (commit_receipt st row res ob)"
  unfolding commit_receipt_def by (intro gw_intros gw_steps_store) (rule commit_R)

lemma fail_receipt_steps: "gw_steps (fail_receipt st aid err)"
  unfolding fail_receipt_def by (intro gw_intros gw_steps_store) (rule fail_R)

lemma unknown_receipt_steps: "gw_steps (unknown_receipt st aid err)"
  unfolding unknown_receipt_def by (intro gw_intros gw_steps_store) (rule unknown_R)

lemmas receipt_steps = commit_receipt_steps fail_receipt_steps unknown_receipt_steps

lemma commit_reconciled_steps: "gw_steps (commit_reconciled gw st row ws content p ob)"
  unfolding commit_reconciled_def by (intro gw_intros receipt_steps)

lemma reconcile_written_steps: "gw_steps (reconcile_written gw st sha bsha ios row ws args content p)"
  unfolding effects.keeps_def reconcile_written_def
proof
  fix s :: "'s gw_state"
  obtain r s1 where m: "on_fs (write_file_observation gw sha bsha ios row ws args) s = (r, s1)"
    by (cases "on_fs (write_file_observation gw sha bsha ios row ws args) s")
  have 1: "R (st_store s) (st_store s1)" by (rule effects.keepsD [OF gw_steps_fs m])
  have 2: "R (st_store s1) (st_store (snd (commit_reconciled gw st row ws content p ob s1)))" for ob
    using commit_reconciled_steps by (simp add: effects.keeps_def)
  show "R (st_store s) (st_store (snd (case on_fs (write_file_observation gw sha bsha ios row ws args) s of
        (Inl (ToolExc c m d), s1) \<Rightarrow> (Inr (None, False), s1)
      | (Inl e, s1) \<Rightarrow> (Inl e, s1)
      | (Inr observation, s1) \<Rightarrow> commit_reconciled gw st row ws content p observation s1)))"
    using 1 R_trans [OF 1 2] m by (auto split: sum.splits exc.splits)
qed

lemma reconcile_at_steps: "gw_steps (reconcile_at gw st sha bsha ios row ws args content p)"
  using reconcile_written_steps
  by (auto simp: effects.keeps_def reconcile_at_def act_return_def R_refl split: option.splits node.splits)

lemma reconcile_steps: "gw_steps (reconcile gw st sha bsha ios row ws args)"
  unfolding reconcile_def
  by (auto intro!: gw_intros reconcile_at_steps split: option.splits json.splits)

lemma attempt_tool_steps: "gw_steps (attempt_tool gw st sha bsha ios row ws tool args)"
proof -
  have obs: "gw_steps (act_bind (on_fs (write_file_observation gw sha bsha ios row ws args))
      (\<lambda>observation. commit_receipt st row d observation))" for d
    by (intro gw_intros receipt_steps)
  have last: "gw_steps (\<lambda>s. let (res', s') =
      (if ''malformed_result'' \<in> set (st_faults s)
       then (JNull, s\<lparr>st_faults := filter (\<lambda>p. p \<noteq> ''malformed_result'') (st_faults s)\<rparr>) else (res, s))
    in case res' of
         JObj d \<Rightarrow> act_bind (on_fs (write_file_observation gw sha bsha ios row ws args))
             (\<lambda>observation. commit_receipt st row d observation) s'
       | _ \<Rightarrow> (Inl (ToolExc ''MALFORMED_RESULT'' ''Tool returned a non-object result'' []), s'))" for res
    using obs unfolding effects.keeps_def by (auto simp: R_refl split: json.splits)
  show ?thesis unfolding attempt_tool_def by (intro gw_intros last)
qed

lemma handle_failure_steps: "gw_steps (handle_failure gw st aid tool e)"
  by (cases e) (auto intro!: receipt_steps)

lemma dispatch_steps: "gw_steps (dispatch gw st sha bsha ios row ws tool args)"
proof -
  have run: "gw_steps (\<lambda>s2 :: 's gw_state. case attempt_tool gw st sha bsha ios row ws tool args s2 of
      (Inr rc, s3) \<Rightarrow> (Inr rc, s3) | (Inl e, s3) \<Rightarrow> handle_failure gw st (a_id row) tool e s3)"
    unfolding effects.keeps_def
  proof
    fix s :: "'s gw_state"
    obtain r s1 where m: "attempt_tool gw st sha bsha ios row ws tool args s = (r, s1)"
      by (cases "attempt_tool gw st sha bsha ios row ws tool args s")
    have 1: "R (st_store s) (st_store s1)" by (rule effects.keepsD [OF attempt_tool_steps m])
    have 2: "R (st_store s1) (st_store (snd (handle_failure gw st (a_id row) tool e s1)))" for e
      using handle_failure_steps by (simp add: effects.keeps_def)
    show "R (st_store s) (st_store (snd (case attempt_tool gw st sha bsha ios row ws tool args s of
      (Inr rc, s3) \<Rightarrow> (Inr rc, s3) | (Inl e, s3) \<Rightarrow> handle_failure gw st (a_id row) tool e s3)))"
      using 1 R_trans [OF 1 2] m by (auto split: sum.splits)
  qed
  have mark: "gw_steps (if a_status row = ActPrepared
      then act_bind (on_store (gs_dispatched st (a_id row))) (\<lambda>_. act_return ()) else act_return ())"
    by (auto intro!: gw_intros gw_steps_store intro: dispatched_R)
  have body: "gw_steps (act_bind (if a_status row = ActPrepared
      then act_bind (on_store (gs_dispatched st (a_id row))) (\<lambda>_. act_return ()) else act_return ())
      (\<lambda>_ s2. case attempt_tool gw st sha bsha ios row ws tool args s2 of
      (Inr rc, s3) \<Rightarrow> (Inr rc, s3) | (Inl e, s3) \<Rightarrow> handle_failure gw st (a_id row) tool e s3))"
    by (rule effects.keeps_bind [OF mark run])
  show ?thesis
    unfolding effects.keeps_def
  proof
    fix s :: "'s gw_state"
    obtain r s1 where m: "hit_fault ''before_dispatch'' s = (r, s1)" by (cases "hit_fault ''before_dispatch'' s")
    have 1: "R (st_store s) (st_store s1)" by (rule effects.keepsD [OF gw_steps_fault m])
    have 2: "gw_steps q \<Longrightarrow> R (st_store s1) (st_store (snd (q s1)))" for q :: "('s gw_state, receipt) act"
      by (simp add: effects.keeps_def)
    show "R (st_store s) (st_store (snd (dispatch gw st sha bsha ios row ws tool args s)))"
      using R_trans [OF 1 2 [OF fail_receipt_steps]] R_trans [OF 1 2 [OF body]] m
      by (cases r) (simp_all add: dispatch_def)
  qed
qed

lemma continue_call_steps: "gw_steps (continue_call gw st sha bsha ios c args row)"
  unfolding continue_call_def
  by (auto intro!: gw_intros reconcile_steps dispatch_steps receipt_steps split: option.splits)

lemma execute_steps: "gw_steps (execute gw st sha bsha ios c)"
  unfolding execute_def
  by (auto intro!: gw_intros continue_call_steps gw_steps_store intro: prepare_R
      split: sum.splits json.splits)

end

section \<open>Steps of the system\<close>

text \<open>
  A step is quiet for a Quest \<open>q\<close> when it does not complete \<open>q\<close> and its state keeps the identifier \<open>q\<close>.
  The label of a step says whether the step may complete a Quest; if not, it is quiet for every one.
\<close>

definition no_completion :: "string \<Rightarrow> db \<Rightarrow> db \<Rightarrow> bool" where
  "no_completion q d d' \<longleftrightarrow>
     (\<forall>e \<in> set (events d'). ev_type e = ''QuestCompleted'' \<longrightarrow> ev_quest e = q \<longrightarrow> e \<in> set (events d))"

definition id_ok :: "string \<Rightarrow> db \<Rightarrow> bool" where
  "id_ok q d \<longleftrightarrow> (\<forall>r \<in> set (quests d). q_id r = q \<longrightarrow> read (q_state r) ''id'' = JStr q)"

definition quiet_step :: "string \<Rightarrow> db \<Rightarrow> db \<Rightarrow> bool" where
  "quiet_step q d d' \<longleftrightarrow> no_completion q d d' \<and> (id_ok q d \<longrightarrow> id_ok q d')"

definition own_step :: "(json \<Rightarrow> string) \<Rightarrow> bool \<Rightarrow> db \<Rightarrow> db \<Rightarrow> bool" where
  "own_step sha c d d' \<longleftrightarrow> store_step sha d d' \<and> (c \<or> (\<forall>q. quiet_step q d d'))"

text \<open>A step of the system: one of the store, or what the others do between two calls.\<close>

inductive system_step :: "(json \<Rightarrow> string) \<Rightarrow> environment \<Rightarrow> bool \<Rightarrow> db \<Rightarrow> db \<Rightarrow> bool" for sha en c where
  own: "own_step sha c d d' \<Longrightarrow> system_step sha en c d d'"
| others: "system_step sha en c d (en_others en t d)"

abbreviation system_steps :: "(json \<Rightarrow> string) \<Rightarrow> environment \<Rightarrow> bool \<Rightarrow> db \<Rightarrow> db \<Rightarrow> bool" where
  "system_steps sha en c \<equiv> (system_step sha en c)\<^sup>*\<^sup>*"

lemma others_then_own: "own_step sha c (en_others en t d) d' \<Longrightarrow> system_steps sha en c d d'"
  by (meson converse_rtranclp_into_rtranclp r_into_rtranclp system_step.intros)

subsection \<open>Which steps complete nothing\<close>

lemma same_events_own:
  "store_step sha d d' \<Longrightarrow> events d' = events d \<Longrightarrow> quests d' = quests d \<Longrightarrow> own_step sha c d d'"
  by (simp add: own_step_def quiet_step_def no_completion_def id_ok_def)

lemma same_core_own: "store_step sha d d' \<Longrightarrow> same_core d d' \<Longrightarrow> own_step sha c d d'"
  by (simp add: same_events_own same_core_def)

lemma may_complete: "store_step sha d d' \<Longrightarrow> own_step sha True d d'"
  by (simp add: own_step_def)

lemma append_locked_quiet:
  assumes app: "append_locked sha qid ty patch v schema now d = Inr (ev, d')"
    and "ty \<noteq> ''QuestCompleted''" and id: "dict_get patch ''id'' = None"
  shows "quiet_step q d d'"
proof -
  obtain row where row: "find_quest d qid = Some row" "q_version row = v"
    and ev: "ev = new_event sha d row ty patch now"
    and d': "d' = d\<lparr>events := events d @ [ev], next_event := next_event d + 1,
           quests := update_where (\<lambda>r. q_id r = qid \<and> q_version r = v)
             (\<lambda>r. r\<lparr>q_state := q_state (advanced patch now row), q_version := q_version (advanced patch now row),
                   q_status := q_status (advanced patch now row), q_updated := now\<rparr>) (quests d)\<rparr>"
    using append_locked_Inr [OF app] by blast
  have "no_completion q d d'" using assms(2) by (auto simp: no_completion_def d' ev new_event_def)
  moreover have "read (q_state (advanced patch now row)) ''id'' = read (q_state row) ''id''"
    by (simp add: read_def dict_get_or_def event_patch_def dict_get_merge_items_None id)
  then have "id_ok q d \<Longrightarrow> id_ok q d'"
    using find_quest_in [OF row(1)] by (auto simp: id_ok_def d' set_update_where)
  ultimately show ?thesis by (simp add: quiet_step_def)
qed

lemma appended_own:
  assumes "store_step sha d d'" and "same_core d d1"
    and "append_locked sha qid ty patch v schema now d1 = Inr (ev, d')"
    and "c \<or> ty \<noteq> ''QuestCompleted'' \<and> dict_get patch ''id'' = None"
  shows "own_step sha c d d'"
proof -
  have "quiet_step q d d'" if "\<not> c" for q
    using append_locked_quiet [OF assms(3)] assms(2,4) that
    by (simp add: quiet_step_def no_completion_def id_ok_def same_core_def)
  then show ?thesis using assms(1) by (auto simp: own_step_def)
qed

lemma append_own:
  assumes "append_event sha qid ty patch v schema now d = Inr (ev, d')" and "distinct (map fst patch)"
    and "c \<or> ty \<noteq> ''QuestCompleted'' \<and> dict_get patch ''id'' = None"
  shows "own_step sha c d d'"
  by (rule appended_own [OF store_step.append [OF assms(1,2)] same_core_refl
        assms(1) [unfolded append_event_def] assms(3)])

lemma plan_own:
  assumes "store_plan_version sha qid p v now now' d = Inr (ev, d')"
  shows "own_step sha c d d'"
  using assms
proof (cases rule: store_plan_cases)
  case (1 s ms ms' row d1)
  show ?thesis by (rule appended_own [OF store_step.plan [OF assms] insert_plan_core [OF 1(6)] 1(7)]) simp
qed

lemma admit_own:
  assumes "admit_execution sha qid owner ttl v adm clock now d = Inr (r, d')"
  shows "own_step sha c d d'"
proof -
  have step: "store_step sha d d'" by (rule store_step.admit [OF assms])
  have "d' = d \<or> (\<exists>d1 s ev. put_lease qid owner (clock + ttl) d = Inr d1 \<and>
      append_locked sha qid ''ExecutionAdmitted'' (admission_patch s adm) v EVENT_SCHEMA_VERSION now d1 =
        Inr (ev, d'))"
    using assms by (fastforce simp: admit_execution_def result_simps split: option.splits if_splits)
  then consider "d' = d" | (new) d1 s ev where "put_lease qid owner (clock + ttl) d = Inr d1"
    "append_locked sha qid ''ExecutionAdmitted'' (admission_patch s adm) v EVENT_SCHEMA_VERSION now d1 = Inr (ev, d')"
    by blast
  then show ?thesis
  proof cases
    case new
    show ?thesis by (rule appended_own [OF step put_lease_core [OF new(1)] new(2)]) (simp add: admission_patch_def)
  qed (use same_events_own [OF step] in simp)
qed

lemma freeze_own:
  assumes "request_artifact_review_with_provenance sha qid owner rid man dig i ws prov v clock now now' d =
    Inr (ev, d')"
  shows "own_step sha c d d'"
  using assms
proof (cases rule: request_review_cases)
  case (1 quest fin d1 d2)
  have "same_core d d2"
    by (rule same_core_trans [OF insert_workspace_snapshot_core [OF 1(6)] insert_provenances_core [OF 1(8)]])
  then show ?thesis by (rule appended_own [OF store_step.freeze [OF assms] _ 1(9)]) (simp add: review_patch_def)
qed

lemma record_own: "record_data t i qid data now d = Inr (r, d') \<Longrightarrow> own_step sha c d d'"
  by (rule same_core_own [OF store_step.entry record_data_core])

lemma checkpoint_own: "save_checkpoint sha qid now d = Inr (r, d') \<Longrightarrow> own_step sha c d d'"
  by (rule same_events_own [OF store_step.checkpoint])
    (auto simp: save_checkpoint_def result_simps Let_def split: option.splits if_splits)

lemma resource_own:
  "acquire_resource_lease k qid owner ttl now d = Inr (b, d') \<Longrightarrow> own_step sha c d d'"
  "always (release_resource_lease k qid owner d) = Inr (b, d') \<Longrightarrow> own_step sha c d d'"
  by (rule same_core_own [OF store_step.acquire_resource acquire_resource_lease_core])
    (auto simp: always_def release_resource_lease_def Let_def
      intro!: same_events_own [OF store_step.release_resource])

lemma release_own: "always (release_lease qid owner d) = Inr (b, d') \<Longrightarrow> own_step sha c d d'"
  by (auto simp: always_def release_lease_def Let_def intro!: same_events_own [OF store_step.release])

lemma baseline_own:
  "save_baseline_snapshot sha i qid owner v ws sq clock now d = Inr (row, d') \<Longrightarrow> own_step sha c d d'"
  "record_legacy_unobserved_baseline sha i qid owner v sq clock now d = Inr (row, d') \<Longrightarrow> own_step sha c d d'"
  by (blast intro: same_core_own [OF store_step.baseline save_baseline_core]
      same_core_own [OF store_step.legacy legacy_baseline_core])+

lemma transition_events:
  "transition_action aid from st res err now d = Inr (row, d') \<Longrightarrow> events d' = events d \<and> quests d' = quests d"
  by (auto simp: transition_action_def result_simps Let_def split: option.splits if_splits)

lemma journal_own:
  "prepare_action aid qid mid key tool h args v pre now d = Inr (row, d') \<Longrightarrow> own_step sha c d d'"
  "mark_action_dispatched aid now d = Inr (row, d') \<Longrightarrow> own_step sha c d d'"
  "fail_action aid err now d = Inr (row, d') \<Longrightarrow> own_step sha c d d'"
  "mark_action_unknown aid err' now d = Inr (row, d') \<Longrightarrow> own_step sha c d d'"
proof -
  show "prepare_action aid qid mid key tool h args v pre now d = Inr (row, d') \<Longrightarrow> own_step sha c d d'"
    by (rule same_events_own [OF store_step.prepare])
      (auto simp: prepare_action_def result_simps Let_def split: option.splits if_splits)
  show "mark_action_dispatched aid now d = Inr (row, d') \<Longrightarrow> own_step sha c d d'"
    by (rule same_events_own [OF store_step.dispatch]) (auto simp: mark_action_dispatched_def dest: transition_events)
  show "fail_action aid err now d = Inr (row, d') \<Longrightarrow> own_step sha c d d'"
    by (rule same_events_own [OF store_step.fail]) (auto simp: fail_action_def dest: transition_events)
  show "mark_action_unknown aid err' now d = Inr (row, d') \<Longrightarrow> own_step sha c d d'"
    by (rule same_events_own [OF store_step.unknown]) (auto simp: mark_action_unknown_def dest: transition_events)
qed

lemma commit_own:
  assumes "commit_action_with_event sha aid res ob now now' d = Inr (row', d')"
  shows "own_step sha c d d'"
  using assms
proof (cases rule: commit_cases)
  case (replayed stored)
  then show ?thesis using same_events_own [OF store_step.commit [OF assms]] by simp
next
  case (committed row ev d1 d2 d3)
  have "quiet_step q d1 d2" for q
    by (rule receipt_event_Inr [OF committed(4)]) (erule append_locked_quiet, simp_all)
  moreover have "events d1 = events d" "quests d1 = quests d" using committed(3) by simp_all
  moreover have "events d3 = events d2 \<and> quests d3 = quests d2"
    using committed(5) by (auto simp: link_action_def split: if_splits)
  moreover have "events d' = events d3 \<and> quests d' = quests d3"
    using committed(6) by (auto simp: insert_observation_def Let_def split: if_splits option.splits)
  ultimately have "quiet_step q d d'" for q by (simp add: quiet_step_def no_completion_def id_ok_def)
  then show ?thesis using store_step.commit [OF assms] by (simp add: own_step_def)
qed

section \<open>Actions that step\<close>

interpretation steps: action_relation "\<lambda>w w'. system_steps (sv_sha sv) en c (wd_db w) (wd_db w')" for sv en c
  by unfold_locales auto

abbreviation by_steps :: "service \<Rightarrow> environment \<Rightarrow> bool \<Rightarrow> (world, 'a) act \<Rightarrow> bool" where
  "by_steps sv en c \<equiv> action_relation.keeps (\<lambda>w w'. system_steps (sv_sha sv) en c (wd_db w) (wd_db w'))"

lemmas by_steps_def = steps.keeps_def
lemmas by_stepsD = steps.keepsD
lemmas by_steps_bind = steps.keeps_bind
lemmas by_steps_combinators [step_intros] = steps.keeps_intros

lemma by_steps_same: "(\<And>w. wd_db (snd (m w)) = wd_db w) \<Longrightarrow> by_steps sv en c m"
  by (simp add: by_steps_def)

lemma by_steps_ask [step_intros]: "by_steps sv en c (ask f)"
  by (rule by_steps_same) (simp add: ask_def wd_db_def)

lemma by_steps_files [step_intros]: "by_steps sv en c (on_files m)"
  by (rule by_steps_same) (auto simp: on_files_def on_fs_def wd_db_def split: prod.splits)

lemma by_steps_look [step_intros]: "by_steps sv en c (\<lambda>w. (f w, w))"
  by (rule by_steps_same) simp

lemma by_steps_unless_lost [step_intros]: "by_steps sv en c m \<Longrightarrow> by_steps sv en c (unless_lost en x m)"
  unfolding unless_lost_def by (intro step_intros)

section \<open>The calls of the storage\<close>

lemma by_steps_transact:
  assumes "\<And>t d x d'. f t d = Inr (x, d') \<Longrightarrow> d' = d \<or> own_step (sv_sha sv) c d d'"
  shows "by_steps sv en c (transact en f)"
  unfolding by_steps_def
proof
  fix w :: world
  let ?d = "en_others en (wd_tick w) (wd_db w)"
  have 1: "system_steps (sv_sha sv) en c (wd_db w) ?d" by (blast intro: system_step.others)
  have "system_steps (sv_sha sv) en c (wd_db w) d'" if "f (wd_tick w) ?d = Inr (x, d')" for x d'
    using assms [OF that] 1 others_then_own by metis
  then show "system_steps (sv_sha sv) en c (wd_db w) (wd_db (snd (transact en f w)))"
    using 1 by (auto simp: transact_def with_db_def wd_db_def Let_def split: sum.splits)
qed

lemma by_steps_query [step_intros]: "by_steps sv en c (query en g)"
  unfolding query_def by (rule by_steps_transact) auto

lemma by_steps_get_quest [step_intros]: "by_steps sv en c (service_get_quest en qid)"
  unfolding service_get_quest_def by (intro step_intros)

lemma by_steps_append:
  "distinct (map fst patch) \<Longrightarrow> c \<or> ty \<noteq> ''QuestCompleted'' \<and> dict_get patch ''id'' = None \<Longrightarrow>
     by_steps sv en c (service_append_event sv en qid ty patch v)"
  unfolding service_append_event_def by (rule by_steps_transact) (auto intro: append_own)

lemma by_steps_append_now:
  "(\<And>now. distinct (map fst (patch now))) \<Longrightarrow>
     (\<And>now. c \<or> ty \<noteq> ''QuestCompleted'' \<and> dict_get (patch now) ''id'' = None) \<Longrightarrow>
     by_steps sv en c (append_now sv en qid ty patch v)"
  unfolding append_now_def by (intro step_intros by_steps_append)

lemma by_steps_checkpoint [step_intros]:
  "by_steps sv en c (checkpoint sv en qid)"
  unfolding checkpoint_def
  by (intro step_intros by_steps_transact) (auto intro: checkpoint_own)

lemma by_steps_scan [step_intros]: "by_steps sv en c (scan sv en ws)"
  unfolding scan_def
  by (rule by_steps_bind [OF by_steps_ask]) (auto simp: by_steps_def split: sum.splits option.splits)

interpretation worker: stepping_store "worker_store sha en t" "system_steps sha en c" for sha en c t
  by unfold_locales
    (auto simp: worker_store_def intro: others_then_own journal_own commit_own)

lemma by_steps_gateway [step_intros]: "by_steps sv en c (gateway_execute sv en call)"
  unfolding by_steps_def
  by (auto simp: gateway_execute_def wd_db_def Let_def
      dest: worker.effects.keepsD [OF worker.execute_steps] split: prod.splits)

section \<open>The operations of the service\<close>

lemma dict_set_distinct [step_intros]: "distinct (map fst d) \<Longrightarrow> distinct (map fst (dict_set k v d))"
  by (rule distinct_dict_set)

lemmas append_intros = by_steps_append by_steps_append_now by_steps_transact

lemma by_steps_with_milestone [step_intros]:
  "(\<And>ms. by_steps sv en c (k ms)) \<Longrightarrow> by_steps sv en c (with_milestone s mid changes k)"
  unfolding with_milestone_def by (intro step_intros)

lemma by_steps_find_milestone [step_intros]: "by_steps sv en c (find_milestone s mid)"
  unfolding find_milestone_def by (intro step_intros)

lemma by_steps_budget [step_intros]: "by_steps sv en c (budget_reason sv en s m)"
proof -
  have "by_steps sv en c (time_reason en s)"
    unfolding time_reason_def by (cases "read s ''started_at''") (auto intro!: step_intros)
  then show ?thesis unfolding budget_reason_def Let_def by (intro step_intros)
qed

lemma by_steps_approved [step_intros]: "by_steps sv en c (action_is_approved en qid aid)"
  unfolding action_is_approved_def by (intro step_intros)

lemma by_steps_progress [step_intros]:
  "by_steps sv en c (record_progress_and_check_loop sv en s m sequence)"
  unfolding record_progress_and_check_loop_def append_progress_def
  by (intro step_intros append_intros) (auto simp: loop_patch_def intro: record_own)

lemma by_steps_store_results [step_intros]: "by_steps sv en c (store_results en qid rs)"
  by (induction rs)
    (auto simp: append_evidence_def append_verification_result_def intro!: step_intros append_intros intro: record_own)

lemma by_steps_verify_criteria [step_intros]: "by_steps sv en c (verify_criteria sv en s vc is)"
  by (induction "is") (auto intro!: step_intros)

lemma by_steps_verify_milestone [step_intros]: "by_steps sv en c (verify_milestone sv en s m aid sequence)"
  unfolding verify_milestone_def by (intro step_intros)

lemma by_steps_replan [step_intros]: "by_steps sv en c (handle_replan sv en s mid reasons)"
proof -
  have plan: "by_steps sv en c (transact en (\<lambda>t. store_plan_version (sv_sha sv) qid p v (en_now en t) (en_now en (t + 1))))"
    for qid p v by (rule by_steps_transact) (blast intro: plan_own)
  have outcome: "by_steps sv en c m \<Longrightarrow> (\<And>p. by_steps sv en c (f p)) \<Longrightarrow>
      by_steps sv en c (case out of RequiresUser \<Rightarrow> m | Replanned p \<Rightarrow> f p)"
    for out and m :: "(world, 'a) act" and f by (cases out) auto
  show ?thesis
    unfolding handle_replan_def by (intro step_intros outcome plan by_steps_append) auto
qed

lemma by_steps_publish [step_intros]: "by_steps sv en c (publish_handoff sha s m)"
  by (rule by_steps_same) (auto simp: publish_handoff_def wd_db_def split: prod.splits)

lemma by_steps_start [step_intros]: "by_steps sv en c (start_milestone sv en s m)"
proof -
  let ?handoff = "if message_cost s \<noteq> 0 \<and> m_status m = Pending
    then act_bind (publish_handoff (sv_sha sv) s m) (\<lambda>ok. act_return
      [(''last_handoff'', JObj (handoff_of s m)), (''handoff_accepted'', JBool ok)]) else act_return []"
  have "by_steps sv en c (act_bind ?handoff (\<lambda>handoff. service_append_event sv en qid ty (start_patch s m ms @ handoff) v))"
    if ty: "c \<or> ty \<noteq> ''QuestCompleted''" for qid ty ms v
  proof (cases "message_cost s \<noteq> 0 \<and> m_status m = Pending")
    case True
    have "by_steps sv en c (act_bind (publish_handoff (sv_sha sv) s m) (\<lambda>ok. service_append_event sv en qid ty (start_patch s m ms @
        [(''last_handoff'', JObj (handoff_of s m)), (''handoff_accepted'', JBool ok)]) v))"
      by (intro step_intros by_steps_append) (use ty in \<open>simp_all add: start_patch_def\<close>)
    moreover have "act_bind (act_bind m f) g = act_bind m (\<lambda>x. act_bind (f x) g)" for m :: "(world, bool) act" and f and g :: "dict \<Rightarrow> (world, event_row) act"
      by (rule ext) (auto simp: act_bind_def split: prod.splits sum.splits)
    ultimately show ?thesis using True by simp
  next
    case False
    have "by_steps sv en c (service_append_event sv en qid ty (start_patch s m ms) v)"
      by (intro by_steps_append) (use ty in \<open>simp_all add: start_patch_def\<close>)
    then show ?thesis using False by auto
  qed
  then show ?thesis unfolding start_milestone_def by (intro by_steps_with_milestone) simp
qed

lemma by_steps_call_tool [step_intros]: "by_steps sv en c (call_tool sv en s m owner version approved)"
  unfolding call_tool_def Let_def
  by (intro step_intros append_intros disjI2) (auto simp: busy_patch_def intro: resource_own)

lemma by_steps_settle_failed [step_intros]: "by_steps sv en c (settle_failed sv en s mid r)"
  unfolding settle_failed_def by (intro step_intros append_intros) auto

lemma by_steps_settle_unknown [step_intros]: "by_steps sv en c (settle_unknown sv en s r)"
  unfolding settle_unknown_def by (intro step_intros append_intros) auto

lemma by_steps_commit_event [step_intros]: "by_steps sv en c (commit_event en qid aid)"
  unfolding commit_event_def by (intro step_intros)

lemma by_steps_complete [step_intros]: "by_steps sv en c (complete_milestone sv en s m evidence)"
  unfolding complete_milestone_def by (intro step_intros append_intros) (simp_all add: completed_patch_def)

lemma by_steps_judge [step_intros]: "by_steps sv en c (judge_milestone sv en qid m aid)"
  unfolding judge_milestone_def by (intro step_intros by_steps_append) auto

lemma by_steps_continue [step_intros]:
  "by_steps sv en c (continue_milestone sv en s m owner version approved)"
  unfolding continue_milestone_def by (intro step_intros)

lemma by_steps_execute_milestone [step_intros]: "by_steps sv en c (execute_milestone sv en s m owner)"
  unfolding execute_milestone_def
  by (intro step_intros by_steps_append) (simp_all add: approval_patch_def)

section \<open>The end of a Quest and its worker\<close>

lemma by_steps_late [step_intros]: "by_steps sv en c (time_budget_exceeded en s)"
  unfolding time_budget_exceeded_def by (cases "read s ''started_at''") (auto intro!: step_intros)

lemma by_steps_within_time [step_intros]: "by_steps sv en c m \<Longrightarrow> by_steps sv en c (within_time sv en s m)"
  unfolding within_time_def exhaust_time_budget_def
  by (intro step_intros by_steps_append_now) (simp_all add: exhausted_patch_def)

lemma by_steps_refused [step_intros]: "by_steps sv en c (review_refused en qid e)"
  unfolding review_refused_def by (cases e) (auto intro!: step_intros)

lemma by_steps_request_review [step_intros]: "by_steps sv en c (request_artifact_review sv en s owner manifest)"
  unfolding request_artifact_review_def Let_def
  by (intro step_intros by_steps_transact disjI2) (erule freeze_own)

lemma by_steps_complete_quest [step_intros]: "by_steps sv en True (complete_quest sv en s)"
  unfolding complete_quest_def by (intro step_intros by_steps_append_now) (simp_all add: completed_quest_patch_def)

lemma by_steps_review_results [step_intros]: "by_steps sv en c (review_results sv en s owner rs)"
  unfolding review_results_def by (intro step_intros by_steps_append_now) (simp_all add: unavailable_patch_def)

lemma by_steps_accept [step_intros]: "by_steps sv en True (accept_quest sv en s owner rs)"
  unfolding accept_quest_def by (intro step_intros)

lemma by_steps_reject [step_intros]: "by_steps sv en c (reject_quest sv en s rs)"
  unfolding reject_quest_def by (intro step_intros by_steps_append) auto

lemma by_steps_finalize [step_intros]: "by_steps sv en True (finalize_quest sv en s owner)"
  unfolding finalize_quest_def by (intro step_intros by_steps_append) auto

lemma by_steps_ignore [step_intros]: "by_steps sv en c (ignore_value_error e)"
  unfolding ignore_value_error_def by (intro step_intros)

lemma by_steps_fail_quest [step_intros]: "by_steps sv en c (fail_quest sv en s code msg details)"
  unfolding fail_quest_def by (intro step_intros by_steps_append_now) (simp_all add: failed_patch_def)

lemma by_steps_not_lost [step_intros]: "by_steps sv en c (not_lost en)"
  unfolding not_lost_def by (intro step_intros)

lemma by_steps_baseline [step_intros]: "by_steps sv en c (record_execution_baseline sv en ev owner)"
proof -
  have "by_steps sv en c (store_baseline sv en ev owner ws legacy)" for ws legacy
    unfolding store_baseline_def Let_def
    by (intro step_intros by_steps_transact disjI2) (blast intro: baseline_own)+
  moreover have "by_steps sv en c (baseline_refused en qid e)" for qid e
    unfolding baseline_refused_def by (intro step_intros)
  ultimately show ?thesis unfolding record_execution_baseline_def by (intro step_intros)
qed

lemma by_steps_pause [step_intros]: "by_steps sv en c (pause_now sv en s qid)"
  unfolding pause_now_def by (intro step_intros by_steps_append) (simp_all add: paused_patch_def)

lemma by_steps_run_milestone [step_intros]: "by_steps sv en c (run_milestone sv en s m owner)"
  unfolding run_milestone_def by (intro step_intros by_steps_append_now) (simp_all add: exhausted_patch_def)

lemma by_steps_pass [step_intros]: "by_steps sv en True (worker_pass sv en qid owner)"
  unfolding worker_pass_def by (intro step_intros)

lemma by_steps_enter [step_intros]: "by_steps sv en c (worker_enter sv en qid owner)"
  unfolding worker_enter_def
  by (intro step_intros by_steps_append by_steps_transact disjI2)
    (auto simp: cancelled_patch_def intro: admit_own)

lemma worker_loop_steps:
  "worker_loop n sv en qid owner w = Some (r, w') \<Longrightarrow> system_steps (sv_sha sv) en True (wd_db w) (wd_db w')"
proof (induction n arbitrary: w)
  case (Suc n)
  obtain r1 w1 where p: "worker_pass sv en qid owner w = (r1, w1)" by (cases "worker_pass sv en qid owner w")
  have 1: "system_steps (sv_sha sv) en True (wd_db w) (wd_db w1)" by (rule by_stepsD [OF by_steps_pass p])
  show ?case
  proof (cases r1)
    case (Inr go)
    then show ?thesis using Suc p 1 by (cases go) (auto intro: rtranclp_trans)
  qed (use Suc.prems p 1 in simp)
qed simp

lemma worker_body_steps:
  assumes "worker_body n sv en qid owner w = Some (r, w')"
  shows "system_steps (sv_sha sv) en True (wd_db w) (wd_db w')"
proof -
  obtain r1 w1 where p: "worker_enter sv en qid owner w = (r1, w1)" by (cases "worker_enter sv en qid owner w")
  have 1: "system_steps (sv_sha sv) en True (wd_db w) (wd_db w1)" by (rule by_stepsD [OF by_steps_enter p])
  show ?thesis
  proof (cases r1)
    case (Inr go)
    then show ?thesis using assms p 1 worker_loop_steps
      by (cases go) (auto simp: worker_body_def intro: rtranclp_trans)
  qed (use assms p 1 in \<open>simp add: worker_body_def\<close>)
qed

lemma by_steps_settle [step_intros]: "by_steps sv en c (worker_settle sv en qid owner r)"
  unfolding worker_settle_def worker_failed_def worker_finish_def
  by (intro step_intros by_steps_transact disjI2) (auto intro: release_own)

lemma execute_quest_steps:
  assumes "execute_quest n sv en qid w = Some (r, w')"
  shows "system_steps (sv_sha sv) en True (wd_db w) (wd_db w')"
proof -
  let ?o = "lease_owner sv qid (en_uuid en (wd_tick w))"
  obtain r1 w1 where 1: "worker_body n sv en qid ?o (w\<lparr>wd_tick := wd_tick w + 1\<rparr>) = Some (r1, w1)"
    and 2: "worker_settle sv en qid ?o r1 w1 = (r, w')"
    using assms by (auto simp: execute_quest_def Let_def split: option.splits)
  show ?thesis
    using worker_body_steps [OF 1] by_stepsD [OF by_steps_settle [where c = True] 2] by (simp add: wd_db_def)
qed

end
