(* ===== verification/Control_Refinement.thy ===== *)
theory Control_Refinement
  imports Quest_Refinement
begin

text \<open>
  The controls of a Quest, the reviews of its artifacts and the recovery at the start change the database
  by steps of the store as the worker does. \<open>service_step\<close> is one call of the service by a user or by a
  thread of its pool.
\<close>

section \<open>Drafts, contracts, start and pause\<close>

lemma by_steps_prepare [step_intros]: "by_steps sv en True (prepare_workspace sv ws review)"
proof -
  have "by_steps sv en True (\<lambda>w. if wd_files w p \<noteq> None then (Inl e, w) else (Inr (), w))" for p e
    by (rule by_steps_same) simp
  then show ?thesis unfolding prepare_workspace_def by (intro step_intros)
qed

lemma by_steps_validate [step_intros]: "by_steps sv en True (validate_contract sv c)"
  unfolding validate_contract_def by (intro step_intros)

lemma by_steps_draft [step_intros]: "by_steps sv en True (draft sv payload goal template qid)"
  unfolding draft_def by (intro step_intros)

lemma by_steps_create: "by_steps sv en True (create_quest sv en rq)"
proof -
  have "by_steps sv en True (transact en (\<lambda>t. create_draft (sv_sha sv) qid contract p ws route st (en_now en t)))"
    for qid contract p ws route st
    by (intro by_steps_transact disjI2 may_complete) (rule store_step.draft)
  moreover have "by_steps sv en True (service_append_event sv en qid ''ArtifactReviewConfigured'' configured_patch v)"
    for qid v by (intro by_steps_append) (simp_all add: configured_patch_def)
  ultimately show ?thesis unfolding create_quest_def Let_def by (intro step_intros)
qed

lemma by_steps_confirm: "by_steps sv en True (confirm_quest sv en qid qf)"
proof -
  have "by_steps sv en True (transact en (\<lambda>t. store_contract_version (sv_sha sv) qid c v ty st (en_now en t)))"
    for c v ty st by (intro by_steps_transact disjI2 may_complete) (rule store_step.contract)
  moreover have "by_steps sv en True (service_append_event sv en qid ''GoalContractRejected'' rejected_patch v)" for v
    by (intro by_steps_append) (simp_all add: rejected_patch_def)
  ultimately show ?thesis unfolding confirm_quest_def conflict_409_def by (intro step_intros)
qed

lemma by_steps_expected [step_intros]: "by_steps sv en True (check_expected_state_version s expected)"
  unfolding check_expected_state_version_def by (intro step_intros)

lemma by_steps_conflict [step_intros]: "by_steps sv en True (conflict_or_active en qid e)"
  unfolding conflict_or_active_def by (intro step_intros)

lemma by_steps_submit [step_intros]: "by_steps sv en True (submit_worker sv en s)"
  unfolding submit_worker_def by (intro step_intros by_steps_append_now) (simp_all add: scheduling_failed_patch_def)

lemma by_steps_start_worker [step_intros]: "by_steps sv en True (start_worker sv en s transition)"
  unfolding start_worker_def by (intro step_intros by_steps_append) simp_all

lemma by_steps_start_quest: "by_steps sv en True (start_quest sv en qid expected)"
  unfolding start_quest_def by (intro step_intros)

lemma by_steps_pause_quest: "by_steps sv en True (pause_quest sv en qid expected)"
  unfolding pause_quest_def by (intro step_intros by_steps_append) simp_all

section \<open>Resume\<close>

lemma by_steps_reconcile [step_intros]: "by_steps sv en True (reconcile_actions sv en s qid as)"
  by (induction "as") (auto intro!: step_intros by_steps_append)

lemma by_steps_history [step_intros]: "by_steps sv en True (check_history sv en qid s)"
proof -
  have "by_steps sv en True (transact en (\<lambda>t d. andThen (validate_checkpoint (sv_sha sv) d qid None) (\<lambda>b. Inr (b, d))))"
    by (rule by_steps_transact) (auto simp: result_simps)
  then show ?thesis unfolding check_history_def by (intro step_intros)
qed

lemma by_steps_resume: "by_steps sv en True (resume_quest sv en qid expected)"
  unfolding resume_quest_def by (intro step_intros by_steps_append) simp_all

section \<open>Decisions and reviews\<close>

lemma by_steps_decide:
  assumes "\<forall>(ty, patch) \<in> set es. distinct (map fst patch)"
  shows "by_steps sv en True (decide sv en s qid did dq es contract p)"
proof -
  have "by_steps sv en True (transact en (\<lambda>t. apply_decision (sv_sha sv) qid did (decision_data dq did qid s)
      (dq_version dq) (dq_kind dq) es contract p (en_now en t)))"
    by (intro by_steps_transact disjI2 may_complete) (rule store_step.decide [OF _ assms])
  then show ?thesis unfolding decide_def decision_error_def Let_def by (intro step_intros)
qed

lemma by_steps_modification [step_intros]: "by_steps sv en True (modification sv en s qid dq)"
  unfolding modification_def by (intro step_intros)

lemma by_steps_submit_decision: "by_steps sv en True (submit_decision sv en qid dq)"
  unfolding submit_decision_def Let_def
  by (intro step_intros by_steps_decide) (simp_all add: modified_events_def rejected_events_def approved_events_def Let_def)

lemma by_steps_artifacts: "by_steps sv en True (get_artifacts en qid)"
  unfolding get_artifacts_def Let_def by (intro step_intros)

lemma by_steps_preview: "by_steps sv en True (preview_artifact sv en qid aid)"
proof -
  have "by_steps sv en True (\<lambda>w. case wd_files w p of
      Some (RegFile bytes) \<Rightarrow> if bad bytes then (Inl e, w) else (Inr (x bytes), w) | _ \<Rightarrow> (Inl e', w))"
    for p bad e e' and x :: "string \<Rightarrow> dict"
    by (rule by_steps_same) (simp split: option.splits node.splits)
  then show ?thesis unfolding preview_artifact_def by (intro step_intros)
qed

lemma by_steps_reference [step_intros]: "by_steps sv en True (verify_provenance_reference en s item)"
  unfolding verify_provenance_reference_def Let_def
  by (cases "read item ''provenance_id''") (auto intro!: step_intros)

lemma by_steps_manifest [step_intros]: "by_steps sv en True (verify_artifact_manifest sv en s)"
  unfolding verify_artifact_manifest_def by (intro step_intros)

lemma by_steps_discard [step_intros]: "by_steps sv en True (discard_artifacts sv en s)"
  unfolding discard_artifacts_def
  by (intro step_intros by_steps_transact disjI2 may_complete) (rule store_step.discard)

lemma by_steps_begin [step_intros]: "by_steps sv en True (begin_review sv en s qid rr)"
proof -
  have "by_steps sv en True (transact en (\<lambda>t. begin_artifact_review (sv_sha sv) qid i m k dec n v
      (fst (review_event retain)) (snd (review_event retain))
      (if retain then Some (''QuestCompleted'', completed_quest_patch now) else None) (en_now en t)))"
    for i m k dec n v retain now
    by (intro by_steps_transact disjI2 may_complete, erule store_step.review)
      (auto simp: review_event_def completed_quest_patch_def)
  then show ?thesis unfolding begin_review_def Let_def by (intro step_intros)
qed

lemma by_steps_receipt [step_intros]: "by_steps sv en True (validate_receipt row rr)"
  unfolding validate_receipt_def by (intro step_intros)

lemma by_steps_repeat [step_intros]: "by_steps sv en True (repeat_review sv en qid rr row)"
  unfolding repeat_review_def by (intro step_intros)

lemma by_steps_review: "by_steps sv en True (review_artifacts sv en qid rr)"
  unfolding review_artifacts_def Let_def by (intro step_intros)

section \<open>Recovery\<close>

lemma by_steps_recover_quests [step_intros]: "by_steps sv en True (recover_quests sv en ss)"
  by (induction ss) (auto intro!: step_intros by_steps_append simp: interrupted_patch_def)

lemma by_steps_recover: "by_steps sv en True (recover_interrupted sv en)"
proof -
  have "by_steps sv en True (transact en (\<lambda>t d. always (clear_runtime_leases_on_startup d)))"
    "by_steps sv en True (transact en (\<lambda>t d. always (mark_dispatched_actions_unknown (en_now en t) d)))"
    by (intro by_steps_transact disjI2 may_complete; auto simp: always_def intro: store_step.clear store_step.startup)+
  then show ?thesis unfolding recover_interrupted_def by (intro step_intros)
qed

section \<open>A call of the service\<close>

inductive service_step :: "service \<Rightarrow> environment \<Rightarrow> world \<Rightarrow> world \<Rightarrow> bool" for sv en where
  create: "create_quest sv en rq w = (r, w') \<Longrightarrow> service_step sv en w w'"
| confirm: "confirm_quest sv en qid qf w = (r, w') \<Longrightarrow> service_step sv en w w'"
| start: "start_quest sv en qid expected w = (r, w') \<Longrightarrow> service_step sv en w w'"
| pause: "pause_quest sv en qid expected w = (r, w') \<Longrightarrow> service_step sv en w w'"
| resume: "resume_quest sv en qid expected w = (r, w') \<Longrightarrow> service_step sv en w w'"
| decision: "submit_decision sv en qid dq w = (r, w') \<Longrightarrow> service_step sv en w w'"
| artifacts: "get_artifacts en qid w = (r, w') \<Longrightarrow> service_step sv en w w'"
| preview: "preview_artifact sv en qid aid w = (r, w') \<Longrightarrow> service_step sv en w w'"
| review: "review_artifacts sv en qid rr w = (r, w') \<Longrightarrow> service_step sv en w w'"
| recover: "recover_interrupted sv en w = (r, w') \<Longrightarrow> service_step sv en w w'"
| worker: "execute_quest n sv en qid w = Some (r, w') \<Longrightarrow> service_step sv en w w'"

lemma service_step_steps:
  assumes "service_step sv en w w'"
  shows "system_steps (sv_sha sv) en True (wd_db w) (wd_db w')"
  using assms
proof cases
  case (worker n qid r)
  then show ?thesis by (rule execute_quest_steps)
next
  case (artifacts qid r)
  then show ?thesis by (rule by_stepsD [OF by_steps_artifacts, of en qid w r w' sv])
qed (auto intro: by_stepsD [OF by_steps_create] by_stepsD [OF by_steps_confirm]
  by_stepsD [OF by_steps_start_quest] by_stepsD [OF by_steps_pause_quest] by_stepsD [OF by_steps_resume]
  by_stepsD [OF by_steps_submit_decision] by_stepsD [OF by_steps_preview] by_stepsD [OF by_steps_review]
  by_stepsD [OF by_steps_recover])

end
