(* ===== verification/Quest_Completion.thy ===== *)
theory Quest_Completion
  imports Control_Refinement Store_Properties Verifier_Properties
begin

text \<open>
  Runs of the service against the store: every run is a sequence of steps of the store, the state read
  under a version is the state an append under that version changes, and whenever a worker completes a
  Quest, the files it leaves meet the required criteria (locale \<open>worker_run\<close>, with the worker among
  others that work on the store, too).
\<close>

section \<open>The service and the store\<close>

lemma system_steps_store:
  assumes "\<And>t d. (store_step sha)\<^sup>*\<^sup>* d (en_others en t d)" and "system_steps sha en c d d'"
  shows "(store_step sha)\<^sup>*\<^sup>* d d'"
  using assms(2)
proof (induction rule: rtranclp_induct)
  case (step d1 d2)
  from step.hyps(2) have "(store_step sha)\<^sup>*\<^sup>* d1 d2"
  proof cases
    case own
    then show ?thesis by (auto simp: own_step_def)
  qed (use assms(1) in simp)
  then show ?case using step.IH by (rule rtranclp_trans [rotated])
qed simp

lemma service_run_store:
  assumes "\<And>t d. (store_step (sv_sha sv))\<^sup>*\<^sup>* d (en_others en t d)" and "(service_step sv en)\<^sup>*\<^sup>* w w'"
  shows "(store_step (sv_sha sv))\<^sup>*\<^sup>* (wd_db w) (wd_db w')"
  using assms(2)
proof (induction rule: rtranclp_induct)
  case (step w1 w2)
  then show ?case using system_steps_store [OF assms(1) service_step_steps [OF step.hyps(2)]] by simp
qed simp

section \<open>The state at a version\<close>

lemma wd_tick_simps [simp]: "wd_db (w\<lparr>wd_tick := t\<rparr>) = wd_db w" "wd_files (w\<lparr>wd_tick := t\<rparr>) = wd_files w"
  by (simp_all add: wd_db_def wd_files_def)

lemma quest_events_append: "events d' = events d @ es \<Longrightarrow>
    quest_events d' qid = quest_events d qid @ filter (\<lambda>e. ev_quest e = qid) es"
  by (simp add: quest_events_def)

lemma same_version_same_state:
  assumes "reachable sha d" and "(store_step sha)\<^sup>*\<^sup>* d d'" and "find_quest d qid = Some row"
    and "find_quest d' qid = Some row'" and "q_version row' = q_version row"
  shows "q_state row' = q_state row"
proof -
  obtain es where "events d' = events d @ es" using steps_grow [OF assms(2,1)] by blast
  note es = quest_events_append [OF this, of qid]
  have ok: "quest_ok sha d row" "quest_ok sha d' row'" and qid: "q_id row = qid" "q_id row' = qid"
    using ledger_quest_ok find_quest_in reachable_ok(1) steps_reachable [OF assms(2,1)] assms(1,3,4) by metis+
  have "filter (\<lambda>e. ev_quest e = qid) es = []"
    using quest_ok_lengthD [OF ok(1)] quest_ok_lengthD [OF ok(2)] es qid assms(5) by simp
  then show ?thesis using ok es qid by (simp add: quest_ok_def)
qed

lemma state_version_row:
  assumes "quest_ok sha d row"
  shows "state_version (q_state row) = q_version row"
proof (cases "q_version row")
  case 0
  then have "q_state row = []" using assms by (auto simp: quest_ok_def)
  then show ?thesis using 0 by (simp add: state_version_def read_def dict_get_or_def)
next
  case (Suc n)
  then show ?thesis using assms by (simp add: quest_ok_def state_version_def read_def dict_get_or_def)
qed

lemma get_quest_Some: "get_quest d qid = Some s \<longleftrightarrow> (\<exists>row. find_quest d qid = Some row \<and> s = q_state row)"
  by (auto simp: get_quest_def)

lemma service_get_quest_Inr:
  assumes "service_get_quest en qid w = (Inr s, w1)"
  shows "get_quest (wd_db w1) qid = Some s" and "wd_files w1 = wd_files w"
  using assms
  by (auto simp: service_get_quest_def query_def transact_def with_db_def wd_db_def wd_files_def Let_def
      act_bind_Inr_iff act_return_def act_raise_def split: option.splits)

lemma service_append_Inr:
  assumes "service_append_event sv en qid ty patch v w = (Inr ev, w')"
  shows "append_event (sv_sha sv) qid ty patch v EVENT_SCHEMA_VERSION (en_now en (wd_tick w))
      (en_others en (wd_tick w) (wd_db w)) = Inr (ev, wd_db w')"
  using assms
  by (auto simp: service_append_event_def transact_def with_db_def wd_db_def Let_def split: sum.splits)

text \<open>
  What an append finds: the version it names is the version it read, so the state it changes is the one
  it read, whatever happened in between.
\<close>

lemma append_finds_state:
  assumes others: "\<And>t d. (store_step (sv_sha sv))\<^sup>*\<^sup>* d (en_others en t d)"
    and re: "reachable (sv_sha sv) d" and s: "get_quest d qid = Some s"
    and steps: "(store_step (sv_sha sv))\<^sup>*\<^sup>* d (wd_db w)"
    and app: "service_append_event sv en qid ty patch (state_version s) w = (Inr ev, w')"
  shows "get_quest (wd_db w') qid =
      Some (merge_items s (event_patch patch (Suc (state_version s)) (en_now en (wd_tick w))))"
    and "ev_before ev = state_version s" and "ev_quest ev = qid" and "ev_type ev = ty"
proof -
  let ?d = "en_others en (wd_tick w) (wd_db w)" and ?now = "en_now en (wd_tick w)"
  have to: "(store_step (sv_sha sv))\<^sup>*\<^sup>* d ?d" using steps others by (rule rtranclp_trans)
  have ok: "ledger_ok (sv_sha sv) ?d" by (rule reachable_ok(1) [OF steps_reachable [OF to re]])
  obtain row where row: "find_quest d qid = Some row" "s = q_state row" using s by (auto simp: get_quest_Some)
  have v: "state_version s = q_version row"
    using state_version_row ledger_quest_ok [OF reachable_ok(1) [OF re] row(1)] row(2) by blast
  obtain row' where row': "find_quest ?d qid = Some row'" "q_version row' = state_version s"
    "find_quest (wd_db w') qid = Some (advanced patch ?now row')" "ev = new_event (sv_sha sv) ?d row' ty patch ?now"
    using find_quest_append [OF service_append_Inr [OF app, unfolded append_event_def] ok] by blast
  have same: "q_state row' = s"
    using same_version_same_state [OF re to row(1) row'(1)] row'(2) v row(2) by simp
  show "get_quest (wd_db w') qid = Some (merge_items s (event_patch patch (Suc (state_version s)) ?now))"
    using row'(2,3) same by (simp add: get_quest_def)
  show "ev_before ev = state_version s" "ev_quest ev = qid" "ev_type ev = ty"
    using row'(2,4) find_quest_in [OF row'(1)] by (auto simp: new_event_def)
qed

section \<open>Completion\<close>

text \<open>
  A new completion is justified when the state of the Quest at some version of the run, before the
  completion, has all its required criteria met by the files the run leaves.
\<close>

definition verified_at :: "service \<Rightarrow> world \<Rightarrow> world \<Rightarrow> event_row \<Rightarrow> nat \<Rightarrow> bool" where
  "verified_at sv w w' e k \<longleftrightarrow>
     length (quest_events (wd_db w) (ev_quest e)) < k \<and> k \<le> ev_before e \<and>
     (\<exists>s. replay_loop (sv_sha sv) [] (take k (quest_events (wd_db w') (ev_quest e))) = Inr s \<and>
       (\<forall>cr \<in> set (state_criteria s). c_required cr \<longrightarrow>
          criterion_meets (sv_host sv) (sv_sandbox sv) (state_workspace s) cr (wd_files w')))"

definition justified :: "string \<Rightarrow> service \<Rightarrow> world \<Rightarrow> world \<Rightarrow> world \<Rightarrow> bool" where
  "justified qid sv w0 w w' \<longleftrightarrow>
     (\<forall>e \<in> set (events (wd_db w')). ev_type e = ''QuestCompleted'' \<longrightarrow> ev_quest e = qid \<longrightarrow>
        e \<notin> set (events (wd_db w)) \<longrightarrow> (\<exists>k. verified_at sv w0 w' e k))"

lemma no_completion_refl [simp]: "no_completion q d d"
  by (simp add: no_completion_def)

lemma no_completion_trans: "no_completion q d d' \<Longrightarrow> no_completion q d' d'' \<Longrightarrow> no_completion q d d''"
  by (auto simp: no_completion_def)

lemma quiet_step_trans: "quiet_step q d d' \<Longrightarrow> quiet_step q d' d'' \<Longrightarrow> quiet_step q d d''"
  unfolding quiet_step_def using no_completion_trans by blast

lemma quiet_justified: "no_completion qid (wd_db w) (wd_db w') \<Longrightarrow> justified qid sv w0 w w'"
  by (auto simp: justified_def no_completion_def)

text \<open>A quiet stretch of the run before the completion, and one after it that keeps the files.\<close>

lemma justified_after: "no_completion qid (wd_db w) (wd_db w1) \<Longrightarrow> justified qid sv w0 w1 w' \<Longrightarrow> justified qid sv w0 w w'"
  unfolding justified_def no_completion_def by blast

lemma event_before_length:
  assumes "ledger_ok sha d" and "e \<in> set (events d)"
  shows "ev_before e < length (quest_events d (ev_quest e))"
proof -
  obtain row where row: "row \<in> set (quests d)" "ev_quest e = q_id row"
    using assms by (auto simp: ledger_ok_def)
  then have ok: "quest_ok sha d row" and e: "event_ok e" using assms by (auto simp: ledger_ok_def)
  have "e \<in> set (quest_events d (q_id row))" using assms(2) row(2) by (simp add: quest_events_def)
  then have "ev_sequence e \<in> set [1..<Suc (q_version row)]"
    using ok unfolding quest_ok_def by (metis image_eqI list.set_map)
  then show ?thesis using e quest_ok_lengthD [OF ok] row(2) by (auto simp: event_ok_def simp del: upt_Suc)
qed

lemma justified_before:
  assumes "justified qid sv w0 w w1" and "no_completion qid (wd_db w1) (wd_db w')"
    and es: "events (wd_db w') = events (wd_db w1) @ es"
    and files: "wd_files w' = wd_files w1" and ok: "ledger_ok (sv_sha sv) (wd_db w1)"
  shows "justified qid sv w0 w w'"
  unfolding justified_def
proof (intro ballI impI)
  fix e assume e: "e \<in> set (events (wd_db w'))" "ev_type e = ''QuestCompleted''" "ev_quest e = qid"
    "e \<notin> set (events (wd_db w))"
  then have in1: "e \<in> set (events (wd_db w1))" using assms(2) by (simp add: no_completion_def)
  then obtain k where k: "verified_at sv w0 w1 e k" using assms(1) e by (auto simp: justified_def)
  then have "k < length (quest_events (wd_db w1) (ev_quest e))"
    using event_before_length [OF ok in1] by (simp add: verified_at_def)
  then have "take k (quest_events (wd_db w') (ev_quest e)) = take k (quest_events (wd_db w1) (ev_quest e))"
    by (simp add: quest_events_append [OF es])
  then show "\<exists>k. verified_at sv w0 w' e k" using k files by (auto simp: verified_at_def)
qed

section \<open>Actions that keep the files\<close>

named_theorems file_intros \<open>closure rules: an action leaves the files as they are\<close>

interpretation still: action_relation "\<lambda>w w'. wd_files w' = wd_files w"
  by unfold_locales auto

lemmas still_combinators [file_intros] = still.keeps_intros

lemma still_ask [file_intros]: "still.keeps (ask f)"
  by (rule still.keepsI) (simp add: ask_def wd_files_def)

lemma still_transact [file_intros]: "still.keeps (transact en f)"
  by (rule still.keepsI) (simp add: transact_def with_db_def wd_files_def Let_def split: sum.splits)

lemma still_query [file_intros]: "still.keeps (query en g)"
  unfolding query_def by (rule still_transact)

lemma still_unless_lost [file_intros]: "still.keeps m \<Longrightarrow> still.keeps (unless_lost en x m)"
  unfolding unless_lost_def by (intro file_intros)

lemma still_get_quest [file_intros]: "still.keeps (service_get_quest en qid)"
  unfolding service_get_quest_def by (intro file_intros)

lemma still_append [file_intros]: "still.keeps (service_append_event sv en qid ty patch v)"
  unfolding service_append_event_def by (rule still_transact)

lemma still_append_now [file_intros]: "still.keeps (append_now sv en qid ty patch v)"
  unfolding append_now_def by (intro file_intros)

lemma still_checkpoint [file_intros]: "still.keeps (checkpoint sv en qid)"
  unfolding checkpoint_def by (intro file_intros)

lemma still_store_results [file_intros]: "still.keeps (store_results en qid rs)"
  by (induction rs) (auto intro!: file_intros)

lemma still_late [file_intros]: "still.keeps (time_budget_exceeded en s)"
  unfolding time_budget_exceeded_def by (cases "read s ''started_at''") (auto intro!: file_intros)

lemma still_settle: "still.keeps (worker_settle sv en qid owner r)"
  unfolding worker_settle_def worker_failed_def worker_finish_def fail_quest_def ignore_value_error_def
  by (intro file_intros)

section \<open>Versions, identifiers and the final verification\<close>

lemma version_length:
  assumes "reachable sha d" and "get_quest d q = Some s"
  shows "state_version s = length (quest_events d q)"
proof -
  obtain row where row: "find_quest d q = Some row" "s = q_state row" using assms(2) by (auto simp: get_quest_Some)
  have "quest_ok sha d row" "q_id row = q"
    using ledger_quest_ok [OF reachable_ok(1) [OF assms(1)] row(1)] find_quest_in [OF row(1)] by auto
  then show ?thesis using state_version_row quest_ok_lengthD row(2) by metis
qed

lemma quest_log:
  assumes "reachable sha d" and "get_quest d q = Some s"
  shows "replay_loop sha [] (quest_events d q) = Inr s"
proof -
  obtain row where row: "find_quest d q = Some row" "s = q_state row" using assms(2) by (auto simp: get_quest_Some)
  have "quest_ok sha d row" "q_id row = q"
    using ledger_quest_ok [OF reachable_ok(1) [OF assms(1)] row(1)] find_quest_in [OF row(1)] by auto
  then show ?thesis using row(2) by (simp add: quest_ok_def)
qed

lemma log_grows:
  assumes "(store_step sha)\<^sup>*\<^sup>* d d'" and "reachable sha d"
  obtains es where "quest_events d' q = quest_events d q @ es"
  using steps_grow [OF assms] quest_events_append by blast

lemma id_ok_state: "id_ok q d \<Longrightarrow> get_quest d q = Some s \<Longrightarrow> state_id s = q"
  using find_quest_in by (force simp: id_ok_def get_quest_Some state_id_def)

lemma final_verification:
  assumes "on_files (verify_all ho sb crs ws vc None) w = (Inr (True, rs), w')"
  shows "\<forall>cr \<in> set crs. c_required cr \<longrightarrow> criterion_meets ho sb ws cr (wd_files w')"
proof -
  have run: "verify_all ho sb crs ws vc None (wd_files w) = (Inr (True, rs), wd_files w')"
    using assms by (auto simp: on_files_def on_fs_def wd_files_def split: prod.splits)
  have "criterion_meets ho sb ws cr (wd_files w') = criterion_meets ho sb ws cr (wd_files w)" for cr
    using verify_all_sound(3) [OF run] by auto
  then show ?thesis using verify_all_sound(2) [OF run] by simp
qed

section \<open>A worker among others\<close>

text \<open>
  The others work on the store by its operations, too: they may complete or change other Quests, review
  artifacts and append to this one, but they do not complete this Quest nor rename it.
\<close>

locale worker_run =
  fixes sv :: service and en :: environment and qid :: string and w0 :: world
  assumes others_steps: "(store_step (sv_sha sv))\<^sup>*\<^sup>* d (en_others en t d)"
    and others_quiet: "quiet_step qid d (en_others en t d)"
    and start_reachable: "reachable (sv_sha sv) (wd_db w0)"
    and start_id: "id_ok qid (wd_db w0)"
begin

text \<open>A world of the run, after the start and before the completion.\<close>

definition running :: "world \<Rightarrow> bool" where
  "running w \<longleftrightarrow> (store_step (sv_sha sv))\<^sup>*\<^sup>* (wd_db w0) (wd_db w) \<and> id_ok qid (wd_db w)"

lemma run_steps:
  "by_steps sv en c m \<Longrightarrow> m w = (r, w') \<Longrightarrow> (store_step (sv_sha sv))\<^sup>*\<^sup>* (wd_db w) (wd_db w')"
  by (rule system_steps_store [OF others_steps steps.keepsD])

lemma quiet_run: "by_steps sv en False m \<Longrightarrow> m w = (r, w') \<Longrightarrow> quiet_step qid (wd_db w) (wd_db w')"
proof -
  assume m: "by_steps sv en False m" "m w = (r, w')"
  have "system_steps (sv_sha sv) en False d d' \<Longrightarrow> quiet_step qid d d'" for d d'
  proof (induction rule: rtranclp_induct)
    case (step d1 d2)
    from step.hyps(2) have "quiet_step qid d1 d2"
      by cases (use others_quiet in \<open>auto simp: own_step_def\<close>)
    then show ?case by (rule quiet_step_trans [OF step.IH])
  qed (simp add: quiet_step_def)
  then show ?thesis using steps.keepsD [OF m] by blast
qed

lemma quiet_completion:
  "by_steps sv en False m \<Longrightarrow> m w = (r, w') \<Longrightarrow> no_completion qid (wd_db w) (wd_db w')"
  using quiet_run unfolding quiet_step_def by blast

lemma running_start: "running w0"
  by (simp add: running_def start_id)

lemma running_next:
  assumes "by_steps sv en False m" and "m w = (r, w')" and "running w"
  shows "running w'"
  using run_steps [OF assms(1,2)] quiet_run [OF assms(1,2)] assms(3) by (auto simp: running_def quiet_step_def)

lemma running_reachable: "running w \<Longrightarrow> reachable (sv_sha sv) (wd_db w)"
  using steps_reachable start_reachable by (auto simp: running_def)

text \<open>The rules: a quiet action, a quiet action and what follows, an action and a quiet end.\<close>

lemma justified_quiet: "by_steps sv en False m \<Longrightarrow> justified qid sv w0 w (snd (m w))"
  using quiet_completion by (metis prod.collapse quiet_justified)

lemma justified_return [simp]: "justified qid sv w0 w (snd (act_return x w))"
  by (simp add: act_return_def justified_def)

lemma justified_bind:
  assumes "running w" and "by_steps sv en False m"
    and "\<And>x w1. m w = (Inr x, w1) \<Longrightarrow> running w1 \<Longrightarrow> justified qid sv w0 w1 (snd (f x w1))"
  shows "justified qid sv w0 w (snd (act_bind m f w))"
proof -
  obtain r w1 where m: "m w = (r, w1)" by (cases "m w")
  note quiet = quiet_completion [OF assms(2) m]
  show ?thesis
  proof (cases r)
    case (Inl e)
    then show ?thesis using m quiet_justified [OF quiet] by (simp add: act_bind_def)
  next
    case (Inr x)
    then have "justified qid sv w0 w1 (snd (f x w1))" using assms(3) m running_next [OF assms(2) m assms(1)] by blast
    then show ?thesis using m Inr justified_after [OF quiet] by (simp add: act_bind_def)
  qed
qed

lemma justified_unless_lost:
  assumes "running w" and "\<And>w1. wd_gw w1 = wd_gw w \<Longrightarrow> running w1 \<Longrightarrow> justified qid sv w0 w1 (snd (m w1))"
  shows "justified qid sv w0 w (snd (unless_lost en x m w))"
  unfolding unless_lost_def
proof (rule justified_bind [OF assms(1) by_steps_ask])
  fix lost w1
  assume 1: "ask (en_lost en) w = (Inr lost, w1)" "running w1"
  then have "wd_gw w1 = wd_gw w" by (auto simp: ask_def)
  then show "justified qid sv w0 w1 (snd ((if lost then act_return x else m) w1))"
    using assms(2) 1(2) by simp
qed

lemma justified_end:
  assumes "justified qid sv w0 w w1" and "reachable (sv_sha sv) (wd_db w1)" and "by_steps sv en False f"
    and "still.keeps f" and "f w1 = (r, w')"
  shows "justified qid sv w0 w w'"
proof -
  obtain es where "events (wd_db w') = events (wd_db w1) @ es"
    using steps_grow [OF run_steps [OF assms(3,5)] assms(2)] by blast
  then show ?thesis
    using justified_before [OF assms(1) quiet_completion [OF assms(3,5)]] still.keepsD [OF assms(4,5)]
      reachable_ok(1) [OF assms(2)] by blast
qed

text \<open>The append that completes: a verified state before it, and the state it was read from.\<close>

lemma completion_justified:
  assumes s1: "running w1" "get_quest (wd_db w1) q = Some s1"
    and new: "length (quest_events (wd_db w0) q) < state_version s1"
    and s2: "running w2" "(store_step (sv_sha sv))\<^sup>*\<^sup>* (wd_db w1) (wd_db w2)" "get_quest (wd_db w2) q = Some s2"
    and w: "(store_step (sv_sha sv))\<^sup>*\<^sup>* (wd_db w2) (wd_db w)"
    and app: "service_append_event sv en q ty patch (state_version s2) w = (Inr ev, w')"
    and "distinct (map fst patch)"
    and meets: "\<forall>cr \<in> set (state_criteria s1). c_required cr \<longrightarrow>
      criterion_meets (sv_host sv) (sv_sandbox sv) (state_workspace s1) cr (wd_files w')"
  shows "justified qid sv w0 w w'"
  unfolding justified_def
proof (intro ballI impI)
  fix e assume e: "e \<in> set (events (wd_db w'))" "ev_type e = ''QuestCompleted''" "ev_quest e = qid"
    "e \<notin> set (events (wd_db w))"
  let ?d = "en_others en (wd_tick w) (wd_db w)"
  note re = running_reachable [OF s1(1)] running_reachable [OF s2(1)]
  have db: "events (wd_db w') = events ?d @ [ev]"
    using service_append_Inr [OF app] by (auto simp: append_event_def dest!: append_locked_Inr)
  moreover have "no_completion qid (wd_db w) ?d" using others_quiet by (simp add: quiet_step_def)
  ultimately have "e = ev" using e by (auto simp: no_completion_def)
  with append_finds_state(2,3) [OF others_steps re(2) s2(3) w app]
  have ev: "ev_before e = state_version s2" "ev_quest e = q" by simp_all
  obtain es where es: "quest_events (wd_db w2) q = quest_events (wd_db w1) q @ es" by (rule log_grows [OF s2(2) re(1)])
  have "(store_step (sv_sha sv))\<^sup>*\<^sup>* (wd_db w2) ?d" using w others_steps by (rule rtranclp_trans)
  then obtain es' where es': "quest_events ?d q = quest_events (wd_db w2) q @ es'" by (rule log_grows [OF _ re(2)])
  have "take (state_version s1) (quest_events (wd_db w') q) = quest_events (wd_db w1) q"
    using version_length [OF re(1) s1(2)] quest_events_append [OF db, of q] es es' by simp
  moreover have "state_version s1 \<le> state_version s2"
    using version_length [OF re(1) s1(2)] version_length [OF re(2) s2(3)] es by simp
  ultimately have "verified_at sv w0 w' e (state_version s1)"
    using quest_log [OF re(1) s1(2)] new meets ev by (auto simp: verified_at_def)
  then show "\<exists>k. verified_at sv w0 w' e k" by blast
qed

lemma justified_within_time:
  assumes "running w" and m: "\<And>w1. running w1 \<Longrightarrow> wd_files w1 = wd_files w \<Longrightarrow>
    (store_step (sv_sha sv))\<^sup>*\<^sup>* (wd_db w) (wd_db w1) \<Longrightarrow> justified qid sv w0 w1 (snd (m w1))"
  shows "justified qid sv w0 w (snd (within_time sv en s m w))"
  unfolding within_time_def
proof (rule justified_unless_lost [OF assms(1)])
  fix w1 assume w1: "wd_gw w1 = wd_gw w" "running w1"
  show "justified qid sv w0 w1 (snd (act_bind (time_budget_exceeded en s)
      (\<lambda>late. if late then unless_lost en () (exhaust_time_budget sv en s) else m) w1))"
  proof (rule justified_bind [OF w1(2) by_steps_late])
    fix late w2 assume 2: "time_budget_exceeded en s w1 = (Inr late, w2)" "running w2"
    have "by_steps sv en False (unless_lost en () (exhaust_time_budget sv en s))"
      unfolding exhaust_time_budget_def
      by (intro step_intros by_steps_append_now) (simp_all add: exhausted_patch_def)
    moreover have "wd_files w2 = wd_files w"
      using still.keepsD [OF still_late 2(1)] w1(1) by (simp add: wd_files_def)
    moreover have "(store_step (sv_sha sv))\<^sup>*\<^sup>* (wd_db w) (wd_db w2)"
      using run_steps [OF by_steps_late 2(1)] w1(1) by (simp add: wd_db_def)
    ultimately show "justified qid sv w0 w2
        (snd ((if late then unless_lost en () (exhaust_time_budget sv en s) else m) w2))"
      using m [OF 2(2)] justified_quiet by auto
  qed
qed

text \<open>Everything from the successful verification on.\<close>

lemma complete_justified:
  assumes s1: "running w1" "get_quest (wd_db w1) qid = Some s1"
    and new: "length (quest_events (wd_db w0) qid) < state_version s1"
    and s2: "running w2" "(store_step (sv_sha sv))\<^sup>*\<^sup>* (wd_db w1) (wd_db w2)" "get_quest (wd_db w2) qid = Some s2"
    and w: "running w" "(store_step (sv_sha sv))\<^sup>*\<^sup>* (wd_db w2) (wd_db w)"
    and meets: "\<forall>cr \<in> set (state_criteria s1). c_required cr \<longrightarrow>
      criterion_meets (sv_host sv) (sv_sandbox sv) (state_workspace s1) cr (wd_files w)"
  shows "justified qid sv w0 w (snd (complete_quest sv en s2 w))"
proof -
  have id: "state_id s2 = qid" using id_ok_state [OF _ s2(3)] s2(1) by (simp add: running_def)
  let ?append = "append_now sv en qid ''QuestCompleted'' completed_quest_patch (state_version s2)"
  obtain r w5 where app: "?append w = (r, w5)" by fastforce
  define w4 where "w4 = w\<lparr>wd_tick := wd_tick w + 1\<rparr>"
  have app4: "service_append_event sv en qid ''QuestCompleted'' (completed_quest_patch (en_now en (wd_tick w)))
      (state_version s2) w4 = (r, w5)"
    using app by (simp add: append_now_def act_bind_def ask_def w4_def)
  have db: "wd_db w4 = wd_db w" by (simp add: w4_def wd_db_def)
  have "by_steps sv en True ?append"
    by (intro by_steps_append_now) (simp_all add: completed_quest_patch_def)
  then have reach: "reachable (sv_sha sv) (wd_db w5)"
    using steps_reachable run_steps app running_reachable [OF w(1)] by metis
  have just: "justified qid sv w0 w w5"
  proof (cases r)
    case (Inl e)
    then have "wd_db w5 = en_others en (wd_tick w4) (wd_db w)"
      using app4 db by (auto simp: service_append_event_def transact_def with_db_def wd_db_def Let_def split: sum.splits)
    then show ?thesis using others_quiet quiet_justified by (simp add: quiet_step_def)
  next
    case (Inr ev)
    have "wd_files w5 = wd_files w" by (rule still.keepsD [OF still_append_now app])
    then have "justified qid sv w0 w4 w5"
      by (intro completion_justified [OF s1 new s2 _ app4 [unfolded Inr]])
        (use meets w(2) db in \<open>simp_all add: completed_quest_patch_def\<close>)
    then show ?thesis using db by (simp add: justified_def)
  qed
  show ?thesis
  proof (cases r)
    case (Inl e)
    then show ?thesis using just app by (simp add: complete_quest_def id act_bind_def)
  next
    case (Inr ev)
    obtain r6 w6 where "checkpoint sv en qid w5 = (r6, w6)" by fastforce
    then show ?thesis
      using justified_end [OF just reach by_steps_checkpoint still_checkpoint] app Inr
      by (simp add: complete_quest_def id act_bind_def)
  qed
qed

lemma accept_justified:
  assumes "running w1" and "get_quest (wd_db w1) qid = Some s1"
    and "length (quest_events (wd_db w0) qid) < state_version s1"
    and "running w2" and "(store_step (sv_sha sv))\<^sup>*\<^sup>* (wd_db w1) (wd_db w2)" and "get_quest (wd_db w2) qid = Some s2"
    and w: "running w" "(store_step (sv_sha sv))\<^sup>*\<^sup>* (wd_db w2) (wd_db w)"
    and meets: "\<forall>cr \<in> set (state_criteria s1). c_required cr \<longrightarrow>
      criterion_meets (sv_host sv) (sv_sandbox sv) (state_workspace s1) cr (wd_files w)"
  shows "justified qid sv w0 w (snd (accept_quest sv en s2 owner rs w))"
proof -
  have "justified qid sv w0 w3 (snd (unless_lost en () (complete_quest sv en s2) w3))"
    if "running w3" "wd_gw w3 = wd_gw w" for w3
  proof (rule justified_unless_lost [OF that(1)])
    fix w4 assume "wd_gw w4 = wd_gw w3" "running w4"
    then show "justified qid sv w0 w4 (snd (complete_quest sv en s2 w4))"
      using that w(2) meets by (intro complete_justified [OF assms(1-6)]) (simp_all add: wd_db_def wd_files_def)
  qed
  moreover have "by_steps sv en False (unless_lost en () (review_results sv en s2 owner rs))"
    by (intro step_intros)
  ultimately show ?thesis
    unfolding accept_quest_def
    by (intro justified_unless_lost [OF w(1)]) (simp add: justified_quiet)
qed

text \<open>The final verification, from the event that starts it.\<close>

lemma verified_start:
  assumes w: "running w" and app: "service_append_event sv en q ty patch v w = (Inr ev, w')"
    and r: "running w'" "(store_step (sv_sha sv))\<^sup>*\<^sup>* (wd_db w') (wd_db w1)" "get_quest (wd_db w1) q = Some s1"
  shows "length (quest_events (wd_db w0) q) < state_version s1"
proof -
  let ?d = "en_others en (wd_tick w) (wd_db w)"
  have "(store_step (sv_sha sv))\<^sup>*\<^sup>* (wd_db w0) ?d"
    using w others_steps by (auto simp: running_def intro: rtranclp_trans)
  then have "length (quest_events (wd_db w0) q) \<le> length (quest_events ?d q)"
    using start_reachable by (metis log_grows length_append le_add1)
  moreover have "events (wd_db w') = events ?d @ [ev]" and "ev_quest ev = q"
    using service_append_Inr [OF app] find_quest_in
    by (auto simp: append_event_def new_event_def dest!: append_locked_Inr)
  then have "length (quest_events (wd_db w') q) = Suc (length (quest_events ?d q))"
    by (simp add: quest_events_append)
  moreover have "length (quest_events (wd_db w') q) \<le> length (quest_events (wd_db w1) q)"
    using r(2) running_reachable [OF r(1)] by (metis log_grows length_append le_add1)
  moreover have "reachable (sv_sha sv) (wd_db w1)" using steps_reachable [OF r(2) running_reachable [OF r(1)]] .
  ultimately show ?thesis using version_length [OF _ r(3)] by simp
qed

lemma verdict_justified:
  assumes s1: "running w1" "get_quest (wd_db w1) qid = Some s1"
    and new: "length (quest_events (wd_db w0) qid) < state_version s1"
    and w: "running w" "(store_step (sv_sha sv))\<^sup>*\<^sup>* (wd_db w1) (wd_db w)"
    and meets: "passed \<Longrightarrow> \<forall>cr \<in> set (state_criteria s1). c_required cr \<longrightarrow>
      criterion_meets (sv_host sv) (sv_sandbox sv) (state_workspace s1) cr (wd_files w)"
  shows "justified qid sv w0 w (snd (act_bind (store_results en qid rs) (\<lambda>stored. if \<not> stored then act_return () else
    act_bind (service_get_quest en qid) (\<lambda>s. within_time sv en s
      (if passed then accept_quest sv en s owner rs else reject_quest sv en s rs))) w))"
proof (rule justified_bind [OF w(1) by_steps_store_results])
  fix stored w2 assume 2: "store_results en qid rs w = (Inr stored, w2)" "running w2"
  have to2: "(store_step (sv_sha sv))\<^sup>*\<^sup>* (wd_db w1) (wd_db w2)"
    using w(2) run_steps [OF by_steps_store_results 2(1)] by (rule rtranclp_trans)
  have files2: "wd_files w2 = wd_files w" by (rule still.keepsD [OF still_store_results 2(1)])
  have "justified qid sv w0 w2 (snd (act_bind (service_get_quest en qid) (\<lambda>s. within_time sv en s
      (if passed then accept_quest sv en s owner rs else reject_quest sv en s rs)) w2))"
  proof (rule justified_bind [OF 2(2) by_steps_get_quest])
    fix s2 w3 assume 3: "service_get_quest en qid w2 = (Inr s2, w3)" "running w3"
    have to3: "(store_step (sv_sha sv))\<^sup>*\<^sup>* (wd_db w1) (wd_db w3)"
      using to2 run_steps [OF by_steps_get_quest 3(1)] by (rule rtranclp_trans)
    have s2: "get_quest (wd_db w3) qid = Some s2" and files3: "wd_files w3 = wd_files w"
      using service_get_quest_Inr [OF 3(1)] files2 by auto
    show "justified qid sv w0 w3 (snd (within_time sv en s2
        (if passed then accept_quest sv en s2 owner rs else reject_quest sv en s2 rs) w3))"
    proof (rule justified_within_time [OF 3(2)])
      fix w4 assume 4: "running w4" "wd_files w4 = wd_files w3" "(store_step (sv_sha sv))\<^sup>*\<^sup>* (wd_db w3) (wd_db w4)"
      show "justified qid sv w0 w4 (snd ((if passed then accept_quest sv en s2 owner rs else reject_quest sv en s2 rs) w4))"
      proof (cases passed)
        case True
        then show ?thesis
          using accept_justified [OF s1 new 3(2) to3 s2 4(1,3)] meets files3 4(2) by simp
      qed (simp add: justified_quiet by_steps_reject)
    qed
  qed
  then show "justified qid sv w0 w2 (snd ((if \<not> stored then act_return () else
      act_bind (service_get_quest en qid) (\<lambda>s. within_time sv en s
        (if passed then accept_quest sv en s owner rs else reject_quest sv en s rs))) w2))"
    by simp
qed

lemma finalize_justified:
  assumes "running w" and "state_id s = qid"
  shows "justified qid sv w0 w (snd (finalize_quest sv en s owner w))"
  unfolding finalize_quest_def
proof (intro justified_within_time justified_unless_lost justified_bind assms(1), unfold assms(2))
  let ?q = qid
  show "by_steps sv en False (service_append_event sv en ?q ''QuestVerificationStarted''
      [(''status'', JStr ''verifying'')] (state_version s))"
    by (rule by_steps_append) simp_all
  show "by_steps sv en False (service_get_quest en ?q)" by (rule by_steps_get_quest)
  fix w1 w2 w3 w4 w5 ev s1
  assume ev: "running w2" "service_append_event sv en ?q ''QuestVerificationStarted''
      [(''status'', JStr ''verifying'')] (state_version s) w2 = (Inr ev, w3)" "running w3"
    and s1: "service_get_quest en ?q w3 = (Inr s1, w4)" "running w4"
    and w5: "wd_gw w5 = wd_gw w4" "running w5"
  have got: "get_quest (wd_db w4) ?q = Some s1" by (rule service_get_quest_Inr [OF s1(1)])
  have id: "state_id s1 = ?q" using id_ok_state [OF _ got] s1(2) by (simp add: running_def)
  have new: "length (quest_events (wd_db w0) ?q) < state_version s1"
    by (rule verified_start [OF ev(1,2,3) run_steps [OF by_steps_get_quest s1(1)] got])
  show "by_steps sv en False (on_files (verify_all (sv_host sv) (sv_sandbox sv) (state_criteria s1)
      (state_workspace s1) (final_context s1 (ev_sequence ev)) None))" by (rule by_steps_files)
  fix x w6
  assume v: "on_files (verify_all (sv_host sv) (sv_sandbox sv) (state_criteria s1) (state_workspace s1)
      (final_context s1 (ev_sequence ev)) None) w5 = (Inr x, w6)" "running w6"
  obtain passed rs where x: "x = (passed, rs)" by (cases x)
  have meets: "passed \<Longrightarrow> \<forall>cr \<in> set (state_criteria s1). c_required cr \<longrightarrow>
      criterion_meets (sv_host sv) (sv_sandbox sv) (state_workspace s1) cr (wd_files w6)"
    using final_verification v(1) x by simp
  have to6: "(store_step (sv_sha sv))\<^sup>*\<^sup>* (wd_db w4) (wd_db w6)"
    using run_steps [OF by_steps_files v(1)] w5(1) by (simp add: wd_db_def)
  show "justified qid sv w0 w6 (snd ((case x of (passed, rs) \<Rightarrow> unless_lost en ()
      (act_bind (store_results en (state_id s1) rs) (\<lambda>stored. if \<not> stored then act_return () else
       act_bind (service_get_quest en (state_id s1)) (\<lambda>s.
       within_time sv en s (if passed then accept_quest sv en s owner rs else reject_quest sv en s rs))))) w6))"
    unfolding x prod.case id
  proof (rule justified_unless_lost [OF v(2)])
    fix w7 assume 7: "wd_gw w7 = wd_gw w6" "running w7"
    show "justified qid sv w0 w7 (snd (act_bind (store_results en ?q rs) (\<lambda>stored. if \<not> stored then act_return () else
        act_bind (service_get_quest en ?q) (\<lambda>s. within_time sv en s
          (if passed then accept_quest sv en s owner rs else reject_quest sv en s rs))) w7))"
      using 7 to6 meets
      by (intro verdict_justified [OF s1(2) got new]) (simp_all add: wd_db_def wd_files_def)
  qed
qed

text \<open>The loop: only its last pass can complete the Quest.\<close>

lemma pass_justified:
  assumes "running w"
  shows "justified qid sv w0 w (snd (worker_pass sv en qid owner w))"
  unfolding worker_pass_def
proof (intro justified_unless_lost justified_bind assms by_steps_get_quest)
  fix w1 s w2
  assume got: "service_get_quest en qid w1 = (Inr s, w2)" and "running w2"
  have id: "state_id s = qid"
    using id_ok_state [OF _ service_get_quest_Inr(1) [OF got]] \<open>running w2\<close> by (simp add: running_def)
  have final: "justified qid sv w0 w3 (snd (unless_lost en False (act_bind
      (if list_all is_completed (as_list (read s ''milestones'')) then finalize_quest sv en s owner
       else fail_quest sv en s ''DAG_STALLED'' ''No milestone is ready and the Quest is incomplete'' [])
      (\<lambda>_. act_return False)) w3))" if "running w3" for w3
  proof (rule justified_unless_lost [OF that])
    fix w4 assume w4: "running w4"
    have "snd (act_bind m (\<lambda>_. act_return False) w4) = snd (m w4)" for m :: "(world, unit) act"
      by (cases "m w4"; cases "fst (m w4)") (auto simp: act_bind_def act_return_def)
    then show "justified qid sv w0 w4 (snd (act_bind
      (if list_all is_completed (as_list (read s ''milestones'')) then finalize_quest sv en s owner
       else fail_quest sv en s ''DAG_STALLED'' ''No milestone is ready and the Quest is incomplete'' [])
      (\<lambda>_. act_return False) w4))"
      using finalize_justified [OF w4 id] justified_quiet [OF by_steps_fail_quest] by simp
  qed
  have pause: "justified qid sv w0 w2 (snd (act_bind (pause_now sv en s qid) (\<lambda>_. act_return False) w2))"
    by (rule justified_quiet) (intro step_intros)
  show "justified qid sv w0 w2 (snd ((if state_status s \<notin> set ACTIVE_STATUSES then act_return False
      else if truthy (read s ''pause_requested'')
      then act_bind (pause_now sv en s qid) (\<lambda>_. act_return False)
      else case ready_milestones (state_milestones s) of
        [] \<Rightarrow> unless_lost en False (act_bind
          (if list_all is_completed (as_list (read s ''milestones'')) then finalize_quest sv en s owner
           else fail_quest sv en s ''DAG_STALLED'' ''No milestone is ready and the Quest is incomplete'' [])
          (\<lambda>_. act_return False))
      | m # ms \<Rightarrow> run_milestone sv en s m owner) w2))"
    using final [OF \<open>running w2\<close>] pause justified_quiet [OF by_steps_run_milestone]
    by (cases "state_status s \<in> set ACTIVE_STATUSES"; cases "truthy (read s ''pause_requested'')";
        cases "ready_milestones (state_milestones s)") simp_all
qed

lemma unless_lost_go: "unless_lost en False m w = (Inr True, w') \<Longrightarrow> m (w\<lparr>wd_tick := wd_tick w + 1\<rparr>) = (Inr True, w')"
  by (auto simp: unless_lost_def act_bind_Inr_iff ask_def act_return_def split: if_splits)

lemma pass_goes_on:
  assumes w: "running w" and go: "worker_pass sv en qid owner w = (Inr True, w')"
  shows "running w'" and "no_completion qid (wd_db w) (wd_db w')"
proof -
  let ?w = "w\<lparr>wd_tick := wd_tick w + 1\<rparr>"
  obtain s w2 where s: "service_get_quest en qid ?w = (Inr s, w2)"
    and rest: "(if state_status s \<notin> set ACTIVE_STATUSES then act_return False
      else if truthy (read s ''pause_requested'')
      then act_bind (pause_now sv en s qid) (\<lambda>_. act_return False)
      else case ready_milestones (state_milestones s) of
        [] \<Rightarrow> unless_lost en False (act_bind
          (if list_all is_completed (as_list (read s ''milestones'')) then finalize_quest sv en s owner
           else fail_quest sv en s ''DAG_STALLED'' ''No milestone is ready and the Quest is incomplete'' [])
          (\<lambda>_. act_return False))
      | m # ms \<Rightarrow> run_milestone sv en s m owner) w2 = (Inr True, w')"
    using unless_lost_go [OF go [unfolded worker_pass_def]] by (auto simp: act_bind_Inr_iff)
  obtain m where m: "run_milestone sv en s m owner w2 = (Inr True, w')"
    using rest by (auto simp: act_return_def act_bind_Inr_iff dest!: unless_lost_go split: if_splits list.splits)
  have "running ?w" using w by (simp add: running_def)
  then have 2: "running w2" by (rule running_next [OF by_steps_get_quest s])
  then show "running w'" by (rule running_next [OF by_steps_run_milestone m])
  show "no_completion qid (wd_db w) (wd_db w')"
    using no_completion_trans [OF quiet_completion [OF by_steps_get_quest s] quiet_completion [OF by_steps_run_milestone m]]
    by simp
qed

lemma loop_justified:
  "running w \<Longrightarrow> worker_loop n sv en qid owner w = Some (r, w') \<Longrightarrow> justified qid sv w0 w w'"
proof (induction n arbitrary: w)
  case (Suc n)
  obtain r1 w1 where p: "worker_pass sv en qid owner w = (r1, w1)" by (cases "worker_pass sv en qid owner w")
  have here: "justified qid sv w0 w w1" using pass_justified [OF Suc.prems(1)] p by (metis snd_conv)
  show ?case
  proof (cases "r1 = Inr True")
    case True
    note on = pass_goes_on [OF Suc.prems(1) p [unfolded True]]
    have "justified qid sv w0 w1 w'" using Suc.IH [OF on(1)] Suc.prems(2) p True by simp
    then show ?thesis by (rule justified_after [OF on(2)])
  next
    case False
    then show ?thesis using Suc.prems(2) p here by (auto split: sum.splits)
  qed
qed simp

lemma body_justified:
  assumes "running w" and "worker_body n sv en qid owner w = Some (r, w')"
  shows "justified qid sv w0 w w'"
proof -
  obtain r1 w1 where e: "worker_enter sv en qid owner w = (r1, w1)" by (cases "worker_enter sv en qid owner w")
  note quiet = quiet_completion [OF by_steps_enter e]
  show ?thesis
  proof (cases "r1 = Inr True")
    case True
    then have "justified qid sv w0 w1 w'"
      using loop_justified [OF running_next [OF by_steps_enter e assms(1)]] assms(2) e by (simp add: worker_body_def)
    then show ?thesis by (rule justified_after [OF quiet])
  next
    case False
    then have "w' = w1" using assms(2) e by (auto simp: worker_body_def split: sum.splits)
    then show ?thesis using quiet_justified [OF quiet] by simp
  qed
qed

lemma worker_justified:
  assumes "execute_quest n sv en qid w0 = Some (r, w')"
  shows "justified qid sv w0 w0 w'"
proof -
  let ?o = "lease_owner sv qid (en_uuid en (wd_tick w0))" and ?w = "w0\<lparr>wd_tick := wd_tick w0 + 1\<rparr>"
  obtain r1 w1 where 1: "worker_body n sv en qid ?o ?w = Some (r1, w1)"
    and 2: "worker_settle sv en qid ?o r1 w1 = (r, w')"
    using assms by (auto simp: execute_quest_def Let_def split: option.splits)
  have "running ?w" using running_start by (simp add: running_def)
  then have "justified qid sv w0 ?w w1" by (rule body_justified [OF _ 1])
  moreover have "reachable (sv_sha sv) (wd_db w1)"
    using steps_reachable [OF system_steps_store [OF others_steps worker_body_steps [OF 1]]] start_reachable by simp
  ultimately have "justified qid sv w0 ?w w'" by (rule justified_end [OF _ _ by_steps_settle still_settle 2])
  then show ?thesis by (simp add: justified_def)
qed

end

text \<open>
  A service on an empty database, with others that complete the Quest \<open>q2\<close> whenever it is at the given
  version: their transaction finds the version current, or it is rolled back.
\<close>

definition finish_other :: "(json \<Rightarrow> string) \<Rightarrow> string \<Rightarrow> nat \<Rightarrow> db \<Rightarrow> db" where
  "finish_other sha q2 v d =
     (case append_event sha q2 ''QuestCompleted'' (completed_quest_patch ''t'') v EVENT_SCHEMA_VERSION ''t'' d of
        Inl e \<Rightarrow> d
      | Inr (ev, d') \<Rightarrow> d')"

lemma finish_other_steps: "(store_step sha)\<^sup>*\<^sup>* d (finish_other sha q2 v d)"
  by (auto simp: finish_other_def completed_quest_patch_def split: sum.splits
      intro!: r_into_rtranclp store_step.append)

lemma quiet_elsewhere:
  assumes "append_locked sha q2 ty patch v schema now d = Inr (ev, d')" and "q2 \<noteq> q"
  shows "quiet_step q d d'"
proof -
  obtain row where row: "find_quest d q2 = Some row" "q_version row = v"
    and ev: "ev = new_event sha d row ty patch now"
    and d': "d' = d\<lparr>events := events d @ [ev], next_event := next_event d + 1,
           quests := update_where (\<lambda>r. q_id r = q2 \<and> q_version r = v)
             (\<lambda>r. r\<lparr>q_state := q_state (advanced patch now row), q_version := q_version (advanced patch now row),
                   q_status := q_status (advanced patch now row), q_updated := now\<rparr>) (quests d)\<rparr>"
    using append_locked_Inr [OF assms(1)] by blast
  have "no_completion q d d'"
    using find_quest_in [OF row(1)] assms(2) by (auto simp: no_completion_def d' ev new_event_def)
  moreover have "id_ok q d \<Longrightarrow> id_ok q d'" using assms(2) by (auto simp: id_ok_def d' set_update_where)
  ultimately show ?thesis by (simp add: quiet_step_def)
qed

lemma finish_other_quiet: "q2 \<noteq> q \<Longrightarrow> quiet_step q d (finish_other sha q2 v d)"
  by (auto simp: finish_other_def append_event_def quiet_step_def no_completion_def
      dest: quiet_elsewhere split: sum.splits)

definition fresh_world :: "fs \<Rightarrow> world" where
  "fresh_world fs = \<lparr>wd_gw = \<lparr>st_store = empty_db, st_fs = fs, st_faults = []\<rparr>, wd_bus = bus_init, wd_tick = 0\<rparr>"

interpretation among: worker_run sv "en\<lparr>en_others := \<lambda>t. finish_other (sv_sha sv) ''q2'' t\<rparr>" "''q1''" "fresh_world fs"
  for sv en fs
proof unfold_locales
  have "wd_db (fresh_world fs) = empty_db" by (simp add: fresh_world_def wd_db_def)
  then show "reachable (sv_sha sv) (wd_db (fresh_world fs))" and "id_ok ''q1'' (wd_db (fresh_world fs))"
    using reachable.start by (simp_all add: id_ok_def) (simp add: empty_db_def)
qed (simp_all add: finish_other_steps finish_other_quiet)

end
