(* ===== verification/Quest_Demo.thy ===== *)
theory Quest_Demo
  imports Quest_Completion Gateway_Properties
begin

text \<open>
  A worker that runs a small Quest to its end while another worker completes another Quest: one
  criterion (a file that is not empty), milestones that are done already, and the databases the worker
  goes through. The databases are computed; that the worker goes through them is derived with rules for
  the actions of the service (\<open>goes\<close>).
\<close>

section \<open>The service and the Quest\<close>

definition note_fs :: fs where
  "note_fs = map_of [([''s''], Directory), ([''s'', ''w''], Directory), ([''s'', ''w'', ''r.md''], RegFile ''# hi'')]"

definition demo_clock :: "nat \<Rightarrow> rat" where "demo_clock t = 0"
definition demo_elapsed :: "nat \<Rightarrow> string \<Rightarrow> rat option" where "demo_elapsed t x = Some 0"
definition demo_observe :: "nat \<Rightarrow> observe_io \<times> observe_io" where "demo_observe t = (demo_io, demo_io)"
definition demo_scans :: "nat \<Rightarrow> scan_io" where
  "demo_scans t = \<lparr>si_list = (\<lambda>p. None), si_before = (\<lambda>p. True), si_after = (\<lambda>p. True),
     si_final = (\<lambda>p. True), si_stable = (\<lambda>p. True)\<rparr>"

text \<open>The others complete the Quest \<open>q2\<close> before the first transaction of the worker.\<close>

definition busy :: "db \<Rightarrow> db" where
  "busy = finish_other sha0 ''q2'' 1"

definition demo_environment :: environment where
  "demo_environment = \<lparr>en_now = (\<lambda>t. ''t''), en_clock = demo_clock, en_uuid = (\<lambda>t. ''u''),
     en_elapsed = demo_elapsed, en_lost = (\<lambda>t. False), en_closed = (\<lambda>t. False), en_stuck = (\<lambda>t. False),
     en_submit = (\<lambda>t. True), en_others = (\<lambda>t. busy), en_observe = demo_observe, en_scan = demo_scans\<rparr>"
definition demo_agent :: "string \<Rightarrow> string option \<Rightarrow> (string \<times> string \<times> plan_step list) outcome" where
  "demo_agent goal template = Inl send_error"
definition demo_service :: service where
  "demo_service = \<lparr>sv_host = demo_host\<lparr>ho_sha := sha0\<rparr>, sv_sandbox = demo_sandbox, sv_tools = [],
     sv_gateway = demo_gateway, sv_lease = 60, sv_threshold = 2, sv_owner = ''o'', sv_plan = demo_agent,
     sv_contract = Inr, sv_scan_bound = 3\<rparr>"

definition note_contract :: dict where
  "note_contract = [(''goal'', JStr ''note''), (''version'', JInt 1),
     (''budget'', JObj [(''max_seconds'', JInt 60), (''max_steps'', JInt 2)]),
     (''acceptance_criteria'', JList [JObj [(''id'', JStr ''c''), (''kind'', JStr ''file_exists_nonempty''), (''description'', JStr ''d''),
       (''path'', JStr ''r.md''), (''required'', JBool True)]])]"

definition tiny_plan :: plan where
  "tiny_plan = \<lparr>pl_id = ''p'', pl_version = 1, pl_milestones = [demo_milestone ''a'' 1 [] Pending], pl_metadata = []\<rparr>"

definition owner0 :: string where "owner0 = lease_owner demo_service ''q1'' ''u''"

definition state_of :: "db \<Rightarrow> dict" where
  "state_of d = (case get_quest d ''q1'' of Some s \<Rightarrow> s | None \<Rightarrow> [])"

text \<open>A Quest whose milestones are all done, before its worker starts, and the databases of its run.\<close>

definition prepared_db :: "db result" where
  "prepared_db =
     andThen (create_draft sha0 ''q2'' note_contract (tiny_plan\<lparr>pl_id := ''p2''\<rparr>) (Some ''v'') None ''planned'' ''t'' empty_db) (\<lambda>(s, d).
     andThen (create_draft sha0 ''q1'' note_contract tiny_plan (Some ''w'') None ''planned'' ''t'' d) (\<lambda>(s, d).
     andThen (append_event sha0 ''q1'' ''P'' [(''milestones'', JList []), (''status'', JStr ''running'')] 1
        EVENT_SCHEMA_VERSION ''t'' d) (\<lambda>(ev, d).
     andThen (prepare_action ''a'' ''q1'' ''m'' ''k'' ''t'' ''h'' [] 2 None ''t'' d) (\<lambda>(row, d).
     andThen (admit_execution sha0 ''q1'' ''x'' 60 2 ''t'' 0 ''t'' d) (\<lambda>(ev, d).
     andThen (record_legacy_unobserved_baseline sha0 ''b'' ''q1'' ''x'' 3 (Some 3) 0 ''t'' d) (\<lambda>(row, d).
     Inr (snd (release_lease ''q1'' ''x'' d))))))))"

definition final_result :: "dict \<Rightarrow> nat \<Rightarrow> verification_result option" where
  "final_result s n =
     (case fst (verify_all (sv_host demo_service) demo_sandbox (state_criteria s) ''w'' (final_context s n) None note_fs) of
        Inr (True, [r]) \<Rightarrow> Some r | _ \<Rightarrow> None)"

definition calm :: "db \<Rightarrow> bool" where
  "calm d \<longleftrightarrow> (case append_event sha0 ''q2'' ''QuestCompleted'' (completed_quest_patch ''t'') 1 EVENT_SCHEMA_VERSION ''t'' d of
     Inl e \<Rightarrow> True | Inr x \<Rightarrow> False)"

lemma busy_calm [simp]: "calm d \<Longrightarrow> busy d = d"
  by (auto simp: calm_def busy_def finish_other_def split: sum.splits)

definition runs_on :: "db \<Rightarrow> nat \<Rightarrow> bool" where
  "runs_on d v \<longleftrightarrow> calm d \<and> (case get_quest d ''q1'' of None \<Rightarrow> False | Some s \<Rightarrow>
     state_id s = ''q1'' \<and> state_version s = v \<and> state_status s \<in> set ACTIVE_STATUSES \<and>
     \<not> truthy (read s ''pause_requested'') \<and> as_list (read s ''milestones'') = [] \<and> state_workspace s = ''w'' \<and>
     read s ''started_at'' = JStr ''t'' \<and> \<not> truthy (read s ''artifact_review_required'') \<and>
     0 \<le> as_rat (read (state_budget s) ''max_seconds''))"

definition demo_run :: "(db \<times> db \<times> db \<times> db \<times> db \<times> event_row \<times> event_row \<times> event_row \<times> db \<times> db) option" where
  "demo_run = (case prepared_db of Inl e \<Rightarrow> None | Inr d0 \<Rightarrow>
     (case admit_execution sha0 ''q1'' owner0 60 3 ''t'' 0 ''t'' (busy d0) of
        Inr (Some e1, d1) \<Rightarrow>
          (case append_event sha0 ''q1'' ''QuestVerificationStarted'' [(''status'', JStr ''verifying'')] 4
             EVENT_SCHEMA_VERSION ''t'' d1 of
             Inr (e2, d2) \<Rightarrow>
               (case final_result (state_of d2) (ev_sequence e2) of
                  Some r \<Rightarrow>
                    (case append_evidence ''q1'' (evi_id (vr_evidence r)) (evidence_json (vr_evidence r)) ''t'' d2 of
                       Inr (x, d3) \<Rightarrow>
                         (case append_verification_result ''q1'' (vr_id r) (result_json r) ''t'' d3 of
                            Inr (x, d4) \<Rightarrow>
                              (case append_event sha0 ''q1'' ''QuestCompleted'' (completed_quest_patch ''t'') 5
                                 EVENT_SCHEMA_VERSION ''t'' d4 of
                                 Inr (e5, d5) \<Rightarrow>
                                   (case save_checkpoint sha0 ''q1'' ''t'' d5 of
                                      Inr (x, d6) \<Rightarrow> Some (d0, d1, d2, d3, d4, e1, e2, e5, d5, d6)
                                    | _ \<Rightarrow> None)
                               | _ \<Rightarrow> None)
                          | _ \<Rightarrow> None)
                     | _ \<Rightarrow> None)
                | None \<Rightarrow> None)
           | _ \<Rightarrow> None)
      | _ \<Rightarrow> None))"

definition finishes_q2 :: "db \<Rightarrow> bool" where
  "finishes_q2 d \<longleftrightarrow> (\<exists>e \<in> set (events (busy d)). ev_type e = ''QuestCompleted'' \<and> ev_quest e = ''q2'')"

definition run_ok :: bool where
  "run_ok = (case demo_run of None \<Rightarrow> False | Some (d0, d1, d2, d3, d4, e1, e2, e5, d5, d6) \<Rightarrow>
     runs_on (busy d0) 3 \<and> runs_on d1 4 \<and> runs_on d2 5 \<and> runs_on d4 5 \<and> get_baseline_snapshot d1 ''q1'' \<noteq> None \<and>
     ev_quest e1 = ''q1'' \<and> id_ok ''q1'' d0 \<and> calm d3 \<and> calm d5 \<and> calm d6 \<and> finishes_q2 d0 \<and> (\<forall>e \<in> set (events d0). ev_type e \<noteq> ''QuestCompleted'') \<and>
     ev_type e5 = ''QuestCompleted'' \<and> e5 \<in> set (events d6))"
lemma run_ok: "run_ok = True" by code_simp

lemma demo_run:
  obtains d0 e1 d1 e2 d2 r d3 d4 e5 d5 d6 x3 x4 x6 where "prepared_db = Inr d0"
    "admit_execution sha0 ''q1'' owner0 60 3 ''t'' 0 ''t'' (busy d0) = Inr (Some e1, d1)"
    "append_event sha0 ''q1'' ''QuestVerificationStarted'' [(''status'', JStr ''verifying'')] 4
       EVENT_SCHEMA_VERSION ''t'' d1 = Inr (e2, d2)"
    "final_result (state_of d2) (ev_sequence e2) = Some r"
    "append_evidence ''q1'' (evi_id (vr_evidence r)) (evidence_json (vr_evidence r)) ''t'' d2 = Inr (x3, d3)"
    "append_verification_result ''q1'' (vr_id r) (result_json r) ''t'' d3 = Inr (x4, d4)"
    "append_event sha0 ''q1'' ''QuestCompleted'' (completed_quest_patch ''t'') 5 EVENT_SCHEMA_VERSION ''t'' d4 =
       Inr (e5, d5)"
    "save_checkpoint sha0 ''q1'' ''t'' d5 = Inr (x6, d6)"
    "runs_on (busy d0) 3" "runs_on d1 4" "runs_on d2 5" "runs_on d4 5"
    "get_baseline_snapshot d1 ''q1'' \<noteq> None" "ev_quest e1 = ''q1''" "id_ok ''q1'' d0" "calm d3" "calm d5" "calm d6" "finishes_q2 d0"
    "\<forall>e \<in> set (events d0). ev_type e \<noteq> ''QuestCompleted''" "ev_type e5 = ''QuestCompleted''"
    "e5 \<in> set (events d6)"
proof -
  obtain d0 d1 d2 d3 d4 e1 e2 e5 d5 d6 where run: "demo_run = Some (d0, d1, d2, d3, d4, e1, e2, e5, d5, d6)"
    and ok: "runs_on (busy d0) 3 \<and> runs_on d1 4 \<and> runs_on d2 5 \<and> runs_on d4 5 \<and> get_baseline_snapshot d1 ''q1'' \<noteq> None \<and>
     ev_quest e1 = ''q1'' \<and> id_ok ''q1'' d0 \<and> calm d3 \<and> calm d5 \<and> calm d6 \<and> finishes_q2 d0 \<and> (\<forall>e \<in> set (events d0). ev_type e \<noteq> ''QuestCompleted'') \<and>
     ev_type e5 = ''QuestCompleted'' \<and> e5 \<in> set (events d6)"
    using run_ok unfolding run_ok_def by (auto split: option.split_asm)
  have "\<exists>b. get_baseline_snapshot d1 ''q1'' = Some b" using ok by auto
  with run show thesis
    unfolding demo_run_def
    by (auto split: sum.split_asm option.split_asm prod.split_asm intro!: that simp: ok)
qed

lemma demo_environment_simps [simp]:
  "en_now demo_environment t = ''t''" "en_clock demo_environment t = 0" "en_uuid demo_environment t = ''u''"
  "en_elapsed demo_environment t x = Some 0" "en_lost demo_environment t = False"
  "en_closed demo_environment t = False" "en_stuck demo_environment t = False"
  "en_others demo_environment t d = busy d"
  by (simp_all add: demo_environment_def demo_clock_def demo_elapsed_def)

lemma demo_service_simps [simp]: "ho_sha (sv_host demo_service) = sha0" "sv_lease demo_service = 60"
  "sv_sandbox demo_service = demo_sandbox"
  by (simp_all add: demo_service_def)

lemma runs_onD:
  assumes "runs_on d v"
  obtains s where "get_quest d ''q1'' = Some s" "state_of d = s" "state_id s = ''q1''" "state_version s = v"
    "state_status s \<in> set ACTIVE_STATUSES" "\<not> truthy (read s ''pause_requested'')" "as_list (read s ''milestones'') = []"
    "state_workspace s = ''w''" "read s ''started_at'' = JStr ''t''" "\<not> truthy (read s ''artifact_review_required'')"
    "0 \<le> as_rat (read (state_budget s) ''max_seconds'')" "calm d"
  using assms by (auto simp: runs_on_def state_of_def split: option.split_asm)

text \<open>An action that returns: its value, and the database and the files it leaves.\<close>

definition goes :: "(world, 'a) act \<Rightarrow> world \<Rightarrow> 'a \<Rightarrow> db \<Rightarrow> fs \<Rightarrow> bool" where
  "goes m w x d fs \<longleftrightarrow> (\<exists>w1. m w = (Inr x, w1) \<and> wd_db w1 = d \<and> wd_files w1 = fs)"

named_theorems goes_intros

lemma goes_return [goes_intros]: "wd_db w = d \<Longrightarrow> wd_files w = fs \<Longrightarrow> x = y \<Longrightarrow> goes (act_return x) w y d fs"
  by (simp add: goes_def act_return_def)

lemma goes_bind:
  assumes "goes m w x d fs" and "\<And>w1. wd_db w1 = d \<Longrightarrow> wd_files w1 = fs \<Longrightarrow> goes (f x) w1 y d' fs'"
  shows "goes (act_bind m f) w y d' fs'"
  using assms by (auto simp: goes_def act_bind_def)

lemma goes_try: "goes m w x d fs \<Longrightarrow> goes (act_try m f) w x d fs"
  by (auto simp: goes_def act_try_def)

lemma goes_ask: "(\<And>t. f t = x) \<Longrightarrow> goes (ask f) w x (wd_db w) (wd_files w)"
  by (simp add: goes_def ask_def)

lemma goes_lost [goes_intros]:
  assumes "\<And>w1. wd_db w1 = wd_db w \<Longrightarrow> wd_files w1 = wd_files w \<Longrightarrow> goes m w1 y d fs"
  shows "goes (unless_lost demo_environment x m) w y d fs"
  unfolding unless_lost_def
  by (rule goes_bind [OF goes_ask [of _ False]]) (simp_all add: assms)

lemma goes_transact:
  "(\<And>t. f t (busy (wd_db w)) = Inr (x, d)) \<Longrightarrow> goes (transact demo_environment f) w x d (wd_files w)"
  by (simp add: goes_def transact_def with_db_def wd_db_def wd_files_def)

text \<open>The same steps, each with what follows it.\<close>

lemma then_ask:
  assumes "\<And>t. f t = x" and "\<And>w1. wd_db w1 = wd_db w \<Longrightarrow> wd_files w1 = wd_files w \<Longrightarrow> goes (k x) w1 y d fs"
  shows "goes (act_bind (ask f) k) w y d fs"
  using goes_bind [OF goes_ask] assms by metis

lemma then_transact:
  assumes "\<And>t. f t (busy (wd_db w)) = Inr (x, d1)" and "\<And>w1. wd_db w1 = d1 \<Longrightarrow> wd_files w1 = wd_files w \<Longrightarrow> goes (k x) w1 y d fs"
  shows "goes (act_bind (transact demo_environment f) k) w y d fs"
  using goes_bind [OF goes_transact] assms by metis

lemma then_query:
  assumes "\<And>w1. wd_db w1 = busy (wd_db w) \<Longrightarrow> wd_files w1 = wd_files w \<Longrightarrow> goes (k (g (busy (wd_db w)))) w1 y d fs"
  shows "goes (act_bind (query demo_environment g) k) w y d fs"
  unfolding query_def by (rule then_transact) (auto intro: assms)

lemma then_get:
  assumes "get_quest (busy (wd_db w)) q = Some s"
    and "\<And>w1. wd_db w1 = busy (wd_db w) \<Longrightarrow> wd_files w1 = wd_files w \<Longrightarrow> goes (k s) w1 y d fs"
  shows "goes (act_bind (service_get_quest demo_environment q) k) w y d fs"
proof -
  have "goes (service_get_quest demo_environment q) w s (busy (wd_db w)) (wd_files w)"
    unfolding service_get_quest_def by (rule then_query) (simp add: assms(1) goes_return)
  then show ?thesis by (rule goes_bind) (rule assms(2))
qed

lemma then_append:
  assumes "append_event sha0 q ty patch v EVENT_SCHEMA_VERSION ''t'' (busy (wd_db w)) = Inr (ev, d1)"
    and "\<And>w1. wd_db w1 = d1 \<Longrightarrow> wd_files w1 = wd_files w \<Longrightarrow> goes (k ev) w1 y d fs"
  shows "goes (act_bind (service_append_event demo_service demo_environment q ty patch v) k) w y d fs"
  unfolding service_append_event_def
proof (rule then_transact)
  show "append_event (sv_sha demo_service) q ty patch v EVENT_SCHEMA_VERSION (en_now demo_environment t) (busy (wd_db w)) =
      Inr (ev, d1)" for t
    by (simp add: assms(1))
qed (rule assms(2))

lemma demo_enter:
  assumes adm: "admit_execution sha0 ''q1'' owner0 60 3 ''t'' 0 ''t'' (busy (wd_db w)) = Inr (Some e1, d1)"
    and s: "runs_on (busy (wd_db w)) 3" and d1: "calm d1" and b: "get_baseline_snapshot d1 ''q1'' \<noteq> None" and q: "ev_quest e1 = ''q1''"
  shows "goes (worker_enter demo_service demo_environment ''q1'' owner0) w True d1 (wd_files w)"
  using s
proof (cases rule: runs_onD)
  case (1 s)
  have "goes (not_lost demo_environment) w1 True d1 (wd_files w)" if "wd_db w1 = d1" "wd_files w1 = wd_files w" for w1
    unfolding not_lost_def by (rule then_ask [of _ False]) (simp_all add: that goes_return)
  then have base: "goes (record_execution_baseline demo_service demo_environment e1 owner0) w1 True d1 (wd_files w)"
    if "wd_db w1 = d1" "wd_files w1 = wd_files w" for w1
    unfolding record_execution_baseline_def q by (intro goes_lost then_query) (simp add: that b d1)
  show ?thesis
    unfolding worker_enter_def
  proof (rule then_get [OF 1(1)], rule then_ask [of _ False])
    fix w1 w2 assume "wd_db w1 = busy (wd_db w)" "wd_files w1 = wd_files w" "wd_db w2 = wd_db w1" "wd_files w2 = wd_files w1"
    then have w2: "wd_db w2 = busy (wd_db w)" "wd_files w2 = wd_files w" by auto
    show "goes (if False then act_bind (if state_status s \<in> set ACTIVE_STATUSES
           then act_try (act_bind (service_append_event demo_service demo_environment ''q1'' ''QuestExecutionCancelled''
             cancelled_patch (state_version s)) (\<lambda>_. act_return ())) ignore_value_error
           else act_return ()) (\<lambda>_. act_return False)
     else if truthy (read s ''pause_requested'')
     then act_bind (pause_now demo_service demo_environment s ''q1'') (\<lambda>_. act_return False)
     else act_bind (ask (en_now demo_environment)) (\<lambda>now.
       act_bind (transact demo_environment (\<lambda>t. admit_execution (sv_sha demo_service) ''q1'' owner0 (sv_lease demo_service)
         (state_version s) now (en_clock demo_environment t) (en_now demo_environment t))) (\<lambda>admitted. case admitted of
           None \<Rightarrow> act_return False
         | Some ev \<Rightarrow>
             if sv_lease demo_service \<le> 0 then act_raise (OtherExc ''ValueError'' ''lease_seconds must be positive'')
             else record_execution_baseline demo_service demo_environment ev owner0))) w2 True d1 (wd_files w)"
      unfolding if_False if_not_P [OF 1(6)]
      by (rule then_ask [of _ "''t''"], simp, rule then_transact [of _ _ "Some e1" d1])
        (simp_all add: 1(4,12) adm w2 base)
  qed simp
qed


lemma demo_within:
  assumes "read s ''started_at'' = JStr ''t''" and "0 \<le> as_rat (read (state_budget s) ''max_seconds'')"
    and "\<And>w1. wd_db w1 = wd_db w \<Longrightarrow> wd_files w1 = wd_files w \<Longrightarrow> goes m w1 () d fs"
  shows "goes (within_time demo_service demo_environment s m) w () d fs"
  unfolding within_time_def
proof (rule goes_lost)
  fix w1 assume w1: "wd_db w1 = wd_db w" "wd_files w1 = wd_files w"
  have "goes (time_budget_exceeded demo_environment s) w1 False (wd_db w) (wd_files w)"
    unfolding time_budget_exceeded_def assms(1)
    using assms(2) w1
    by (simp, intro then_ask [of _ "Some 0"] goes_return) simp_all
  then show "goes (act_bind (time_budget_exceeded demo_environment s)
      (\<lambda>late. if late then unless_lost demo_environment () (exhaust_time_budget demo_service demo_environment s) else m)) w1 () d fs"
    by (rule goes_bind) (simp add: assms(3))
qed

lemma demo_store:
  assumes "append_evidence ''q1'' (evi_id (vr_evidence r)) (evidence_json (vr_evidence r)) ''t'' (wd_db w) = Inr (x3, d3)"
    and "append_verification_result ''q1'' (vr_id r) (result_json r) ''t'' d3 = Inr (x4, d4)"
    and "calm (wd_db w)" "calm d3"
  shows "goes (store_results demo_environment ''q1'' [r]) w True d4 (wd_files w)"
  unfolding store_results.simps
  by (rule goes_lost, rule then_transact [of _ _ x3 d3], simp add: assms(1,3), rule then_transact [of _ _ x4 d4])
    (use assms(2,4) in \<open>auto intro: goes_return\<close>)

lemma demo_accept:
  assumes s: "runs_on (wd_db w0) 5" "state_of (wd_db w0) = s"
    and c: "append_event sha0 ''q1'' ''QuestCompleted'' (completed_quest_patch ''t'') 5 EVENT_SCHEMA_VERSION ''t'' (wd_db w) = Inr (e5, d5)"
    and calm: "calm (wd_db w)" "calm d5" and cp: "save_checkpoint sha0 ''q1'' ''t'' d5 = Inr (x6, d6)"
  shows "goes (accept_quest demo_service demo_environment s owner rs) w () d6 (wd_files w)"
  using s(1)
proof (cases rule: runs_onD)
  case (1 s')
  then have s': "s' = s" using s(2) by simp
  have cp: "goes (checkpoint demo_service demo_environment ''q1'') w1 () d6 (wd_files w)"
    if "wd_db w1 = d5" "wd_files w1 = wd_files w" for w1
    unfolding checkpoint_def
    by (rule then_transact [of _ _ x6 d6]) (use cp that calm in \<open>auto intro: goes_return\<close>)
  have "goes (complete_quest demo_service demo_environment s) w1 () d6 (wd_files w)"
    if "wd_db w1 = wd_db w" "wd_files w1 = wd_files w" for w1
    unfolding complete_quest_def append_now_def 1(3,4) [unfolded s']
  proof (rule goes_bind [of _ _ e5 d5 "wd_files w"], rule then_ask [of _ "''t''"])
    fix w2 assume "wd_db w2 = wd_db w1" "wd_files w2 = wd_files w1"
    then show "goes (service_append_event demo_service demo_environment ''q1'' ''QuestCompleted'' (completed_quest_patch ''t'') 5)
        w2 e5 d5 (wd_files w)"
      unfolding service_append_event_def using goes_transact [of "\<lambda>t. append_event (sv_sha demo_service) ''q1'' ''QuestCompleted''
          (completed_quest_patch ''t'') 5 EVENT_SCHEMA_VERSION (en_now demo_environment t)" w2 e5 d5] c that calm(1)
      by simp
  qed (simp_all add: cp)
  then show ?thesis
    unfolding accept_quest_def using 1(10) [unfolded s'] by (auto intro!: goes_lost)
qed


lemma final_resultD:
  assumes "final_result s n = Some r"
  obtains fs where "verify_all (sv_host demo_service) demo_sandbox (state_criteria s) ''w'' (final_context s n)
      None note_fs = (Inr (True, [r]), fs)"
  using assms by (auto simp: final_result_def split: sum.split_asm prod.split_asm bool.split_asm list.split_asm)
    (metis prod.collapse)

lemma demo_finalize:
  assumes w: "wd_files w = note_fs"
    and s1: "runs_on (wd_db w) 4" and s2: "runs_on d2 5" and s4: "runs_on d4 5"
    and q: "append_event sha0 ''q1'' ''QuestVerificationStarted'' [(''status'', JStr ''verifying'')] 4
       EVENT_SCHEMA_VERSION ''t'' (wd_db w) = Inr (e2, d2)"
    and v1: "verify_all (sv_host demo_service) demo_sandbox (state_criteria (state_of d2)) ''w''
      (final_context (state_of d2) (ev_sequence e2)) None note_fs = (Inr (True, [r]), fs)"
    and e: "append_evidence ''q1'' (evi_id (vr_evidence r)) (evidence_json (vr_evidence r)) ''t'' d2 = Inr (x3, d3)"
    and v: "append_verification_result ''q1'' (vr_id r) (result_json r) ''t'' d3 = Inr (x4, d4)"
    and c: "append_event sha0 ''q1'' ''QuestCompleted'' (completed_quest_patch ''t'') 5 EVENT_SCHEMA_VERSION ''t'' d4 =
       Inr (e5, d5)"
    and calm: "calm d3" "calm d5" and cp: "save_checkpoint sha0 ''q1'' ''t'' d5 = Inr (x6, d6)"
  shows "goes (finalize_quest demo_service demo_environment (state_of (wd_db w)) owner) w () d6 fs"
proof -
  have calms: "calm (wd_db w)" "calm d2" "calm d4" using s1 s2 s4 by (auto simp: runs_on_def)
  obtain s where 1: "state_of (wd_db w) = s" "state_id s = ''q1''" "state_version s = 4" "read s ''started_at'' = JStr ''t''"
    "0 \<le> as_rat (read (state_budget s) ''max_seconds'')" using s1 by (cases rule: runs_onD) auto
  obtain t where 2: "get_quest d2 ''q1'' = Some t" "state_of d2 = t" "state_id t = ''q1''" "state_workspace t = ''w''"
    using s2 by (cases rule: runs_onD) auto
  obtain u where 4: "get_quest d4 ''q1'' = Some u" "state_of d4 = u" "read u ''started_at'' = JStr ''t''"
    "0 \<le> as_rat (read (state_budget u) ''max_seconds'')" using s4 by (cases rule: runs_onD) auto
  have verify: "goes (on_files (verify_all (sv_host demo_service) (sv_sandbox demo_service) (state_criteria t)
      (state_workspace t) (final_context t (ev_sequence e2)) None)) w1 (True, [r]) d2 fs"
    if "wd_db w1 = d2" "wd_files w1 = note_fs" for w1
    using that v1 2(2,4) by (auto simp: goes_def on_files_def on_fs_def wd_files_def wd_db_def)
  have rest: "goes (act_bind (store_results demo_environment ''q1'' [r]) (\<lambda>stored. if \<not> stored then act_return () else
       act_bind (service_get_quest demo_environment ''q1'') (\<lambda>s.
       within_time demo_service demo_environment s (if True then accept_quest demo_service demo_environment s owner [r]
         else reject_quest demo_service demo_environment s [r])))) w1 () d6 fs"
    if w1: "wd_db w1 = d2" "wd_files w1 = fs" for w1
  proof (rule goes_bind [OF demo_store])
    show "append_evidence ''q1'' (evi_id (vr_evidence r)) (evidence_json (vr_evidence r)) ''t'' (wd_db w1) = Inr (x3, d3)"
      using e w1 by simp
    fix w2 assume w2: "wd_db w2 = d4" "wd_files w2 = wd_files w1"
    have "goes (accept_quest demo_service demo_environment u owner [r]) w3 () d6 fs"
      if "wd_db w3 = d4" "wd_files w3 = fs" for w3
    proof -
      have "goes (accept_quest demo_service demo_environment u owner [r]) w3 () d6 (wd_files w3)"
        by (rule demo_accept [OF _ _ _ _ _ cp, of w3]) (use s4 4(2) c that calm calms in simp_all)
      then show ?thesis using that by simp
    qed
    then show "goes (if \<not> True then act_return () else
       act_bind (service_get_quest demo_environment ''q1'') (\<lambda>s.
       within_time demo_service demo_environment s (if True then accept_quest demo_service demo_environment s owner [r]
         else reject_quest demo_service demo_environment s [r]))) w2 () d6 fs"
      using w1 w2 4 calms by (auto intro!: then_get demo_within)
  qed (use v w1 calm calms in simp_all)
  have "goes (finalize_quest demo_service demo_environment s owner) w () d6 fs"
    unfolding finalize_quest_def 1(2,3)
  proof (rule demo_within [OF 1(4,5)], rule goes_lost, rule then_append [of _ _ _ _ _ e2 d2], goal_cases)
    case (1 w1 w2)
    then show ?case using q calms by simp
  next
    case (2 w1 w2 w3)
    then have w3: "wd_db w3 = d2" "wd_files w3 = note_fs" using w by simp_all
    show ?case
    proof (rule then_get, use w3 calms \<open>get_quest d2 ''q1'' = Some t\<close> in simp, rule goes_lost, rule goes_bind [OF verify], goal_cases)
      case (3 w4 w5 w6)
      then have files: "wd_db w6 = d2" "wd_files w6 = fs" by simp_all
      show ?case unfolding \<open>state_id t = ''q1''\<close> prod.case
        by (rule goes_lost, rule rest) (use files in simp_all)
    qed (use w3 calms in simp_all)
  qed
  then show ?thesis using 1(1) by auto
qed


lemma demo_execute_quest:
  assumes w: "wd_files w = note_fs" and d0: "runs_on (busy (wd_db w)) 3"
    and adm: "admit_execution sha0 ''q1'' owner0 60 3 ''t'' 0 ''t'' (busy (wd_db w)) = Inr (Some e1, d1)"
    and b: "get_baseline_snapshot d1 ''q1'' \<noteq> None" and q: "ev_quest e1 = ''q1''" and d1: "runs_on d1 4" and d6: "calm d6"
    and final: "\<And>w1 owner. wd_files w1 = note_fs \<Longrightarrow> wd_db w1 = d1 \<Longrightarrow>
      goes (finalize_quest demo_service demo_environment (state_of d1) owner) w1 () d6 fs"
  shows "\<exists>w'. execute_quest 1 demo_service demo_environment ''q1'' w = Some (Inr (), w') \<and>
    wd_db w' = snd (release_lease ''q1'' owner0 d6)"
proof -
  let ?w = "w\<lparr>wd_tick := wd_tick w + 1\<rparr>"
  have c1: "calm d1" using d1 by (simp add: runs_on_def)
  have owner: "lease_owner demo_service ''q1'' ''u'' = owner0" by (simp add: owner0_def)
  obtain w1 where 1: "worker_enter demo_service demo_environment ''q1'' owner0 ?w = (Inr True, w1)"
    "wd_db w1 = d1" "wd_files w1 = note_fs"
    using demo_enter [of ?w e1 d1] adm d0 b q w c1 by (auto simp: goes_def)
  obtain s where s: "get_quest d1 ''q1'' = Some s" "state_of d1 = s" "state_status s \<in> set ACTIVE_STATUSES"
    "\<not> truthy (read s ''pause_requested'')" "as_list (read s ''milestones'') = []"
    using d1 by (cases rule: runs_onD) auto
  have ready: "ready_milestones (state_milestones s) = []"
    using s(5) by (simp add: state_milestones_def read_def dict_get_or_def ready_milestones_def split: option.splits)
  have "goes (worker_pass demo_service demo_environment ''q1'' owner0) w1 False d6 fs"
  proof -
    have fs: "goes (finalize_quest demo_service demo_environment s owner0) w2 () d6 fs"
      if "wd_db w2 = d1" "wd_files w2 = note_fs" for w2
      using final [of w2 owner0] that s(2) by simp
    have last: "goes (unless_lost demo_environment False (act_bind (if list_all is_completed (as_list (read s ''milestones''))
         then finalize_quest demo_service demo_environment s owner0
         else fail_quest demo_service demo_environment s ''DAG_STALLED'' ''No milestone is ready and the Quest is incomplete'' [])
       (\<lambda>_. act_return False))) w2 False d6 fs" if "wd_db w2 = d1" "wd_files w2 = note_fs" for w2
      by (rule goes_lost, rule goes_bind [OF _ goes_return]) (use fs s(5) that in simp_all)
    have "goes (worker_pass demo_service demo_environment ''q1'' owner0) w1 False d6 fs"
      unfolding worker_pass_def
    proof (rule goes_lost, rule then_get [of _ _ s], goal_cases)
      case (1 w2)
      then show ?case using s(1) c1 \<open>wd_db w1 = d1\<close> by simp
    next
      case (2 w2 w3)
      then show ?case using s(3,4) c1 \<open>wd_db w1 = d1\<close> \<open>wd_files w1 = note_fs\<close> by (simp add: ready last)
    qed
    then show ?thesis .
  qed
  then obtain w2 where 2: "worker_pass demo_service demo_environment ''q1'' owner0 w1 = (Inr False, w2)" "wd_db w2 = d6"
    by (auto simp: goes_def)
  have body: "worker_body 1 demo_service demo_environment ''q1'' owner0 ?w = Some (Inr (), w2)"
    using 1 2 by (simp add: worker_body_def)
  have "goes (worker_finish demo_environment ''q1'' owner0) w2 () (snd (release_lease ''q1'' owner0 d6)) (wd_files w2)"
    unfolding worker_finish_def
    by (rule then_ask [of _ False], simp, simp,
        rule then_transact [of _ _ "fst (release_lease ''q1'' owner0 d6)" "snd (release_lease ''q1'' owner0 d6)"])
      (auto simp: always_def 2(2) d6 intro: goes_return)
  then show ?thesis
    using body by (auto simp: execute_quest_def owner worker_settle_def act_finally_def act_return_def goes_def)
qed

section \<open>The run from a reachable database\<close>

definition demo_world :: "db \<Rightarrow> world" where
  "demo_world d = \<lparr>wd_gw = \<lparr>st_store = d, st_fs = note_fs, st_faults = []\<rparr>, wd_bus = bus_init, wd_tick = 0\<rparr>"

lemma demo_world_simps [simp]: "wd_db (demo_world d) = d" "wd_files (demo_world d) = note_fs"
  by (simp_all add: demo_world_def wd_db_def wd_files_def)

lemma prepared_reachable:
  assumes "prepared_db = Inr d"
  shows "reachable sha0 d"
proof -
  obtain s0 d0 s d1 e d2 r d3 e' d4 r' d5
    where "create_draft sha0 ''q2'' note_contract (tiny_plan\<lparr>pl_id := ''p2''\<rparr>) (Some ''v'') None ''planned'' ''t'' empty_db =
        Inr (s0, d0)"
      and "create_draft sha0 ''q1'' note_contract tiny_plan (Some ''w'') None ''planned'' ''t'' d0 = Inr (s, d1)"
      and "append_event sha0 ''q1'' ''P'' [(''milestones'', JList []), (''status'', JStr ''running'')] 1
        EVENT_SCHEMA_VERSION ''t'' d1 = Inr (e, d2)"
      and "prepare_action ''a'' ''q1'' ''m'' ''k'' ''t'' ''h'' [] 2 None ''t'' d2 = Inr (r, d3)"
      and "admit_execution sha0 ''q1'' ''x'' 60 2 ''t'' 0 ''t'' d3 = Inr (e', d4)"
      and "record_legacy_unobserved_baseline sha0 ''b'' ''q1'' ''x'' 3 (Some 3) 0 ''t'' d4 = Inr (r', d5)"
      and "release_lease ''q1'' ''x'' d5 = (fst (release_lease ''q1'' ''x'' d5), d)"
    using assms unfolding prepared_db_def by (auto simp: result_simps prod_eq_iff split: sum.splits)
  note steps = this
  have "store_step sha0 empty_db d0" "store_step sha0 d0 d1" "store_step sha0 d1 d2" "store_step sha0 d2 d3" "store_step sha0 d3 d4"
    "store_step sha0 d4 d5" "store_step sha0 d5 d"
    by (rule store_step.draft [OF steps(1)], rule store_step.draft [OF steps(2)],
      rule store_step.append [OF steps(3)], simp, rule store_step.prepare [OF steps(4)],
      rule store_step.admit [OF steps(5)], rule store_step.legacy [OF steps(6)], rule store_step.release [OF steps(7)])
  then show ?thesis using reachable.start by (meson reachable.step)
qed

lemma busy_reachable: "reachable sha0 d \<Longrightarrow> reachable sha0 (busy d)"
  unfolding busy_def by (rule steps_reachable [OF finish_other_steps])

lemma release_lease_events: "events (snd (release_lease q x d)) = events d"
  by (simp add: release_lease_def)

lemma demo_append:
  obtains d s ev d' where "reachable sha0 d" "calm d" "get_quest d ''q1'' = Some s" "state_version s = 4"
    "append_event sha0 ''q1'' ''QuestVerificationStarted'' [(''status'', JStr ''verifying'')] 4
       EVENT_SCHEMA_VERSION ''t'' d = Inr (ev, d')"
proof -
  obtain d0 e1 d1 e2 d2 where run: "prepared_db = Inr d0"
    "admit_execution sha0 ''q1'' owner0 60 3 ''t'' 0 ''t'' (busy d0) = Inr (Some e1, d1)"
    "append_event sha0 ''q1'' ''QuestVerificationStarted'' [(''status'', JStr ''verifying'')] 4
       EVENT_SCHEMA_VERSION ''t'' d1 = Inr (e2, d2)" "runs_on d1 4" by (rule demo_run)
  obtain s where "get_quest d1 ''q1'' = Some s" "state_version s = 4" "calm d1" using run(4) by (cases rule: runs_onD) auto
  moreover have "reachable sha0 d1"
    by (rule reachable.step [OF busy_reachable [OF prepared_reachable [OF run(1)]] store_step.admit [OF run(2)]])
  ultimately show thesis using that run(3) by blast
qed

lemma demo_worker:
  obtains d w' e f where "reachable sha0 d" "id_ok ''q1'' d"
    "execute_quest 1 demo_service demo_environment ''q1'' (demo_world d) = Some (Inr (), w')"
    "e \<in> set (events (wd_db w'))" "ev_type e = ''QuestCompleted''" "ev_quest e = ''q1''" "e \<notin> set (events d)"
    "f \<in> set (events (wd_db w'))" "ev_type f = ''QuestCompleted''" "ev_quest f = ''q2''" "f \<notin> set (events d)"
proof -
  obtain d0 e1 d1 e2 d2 r d3 d4 e5 d5 d6 x3 x4 x6 where run: "prepared_db = Inr d0"
    "admit_execution sha0 ''q1'' owner0 60 3 ''t'' 0 ''t'' (busy d0) = Inr (Some e1, d1)"
    "append_event sha0 ''q1'' ''QuestVerificationStarted'' [(''status'', JStr ''verifying'')] 4
       EVENT_SCHEMA_VERSION ''t'' d1 = Inr (e2, d2)"
    "final_result (state_of d2) (ev_sequence e2) = Some r"
    "append_evidence ''q1'' (evi_id (vr_evidence r)) (evidence_json (vr_evidence r)) ''t'' d2 = Inr (x3, d3)"
    "append_verification_result ''q1'' (vr_id r) (result_json r) ''t'' d3 = Inr (x4, d4)"
    "append_event sha0 ''q1'' ''QuestCompleted'' (completed_quest_patch ''t'') 5 EVENT_SCHEMA_VERSION ''t'' d4 =
       Inr (e5, d5)"
    "save_checkpoint sha0 ''q1'' ''t'' d5 = Inr (x6, d6)"
    and on: "runs_on (busy d0) 3" "runs_on d1 4" "runs_on d2 5" "runs_on d4 5"
    and facts: "get_baseline_snapshot d1 ''q1'' \<noteq> None" "ev_quest e1 = ''q1''" "id_ok ''q1'' d0"
    and calm: "calm d3" "calm d5" "calm d6" and q2: "finishes_q2 d0"
    and ends: "\<forall>e \<in> set (events d0). ev_type e \<noteq> ''QuestCompleted''" "ev_type e5 = ''QuestCompleted''"
    "e5 \<in> set (events d6)" by (rule demo_run)
  obtain fs where v: "verify_all (sv_host demo_service) demo_sandbox (state_criteria (state_of d2)) ''w''
      (final_context (state_of d2) (ev_sequence e2)) None note_fs = (Inr (True, [r]), fs)"
    using final_resultD [OF run(4)] .
  have final: "goes (finalize_quest demo_service demo_environment (state_of d1) owner) w1 () d6 fs"
    if "wd_files w1 = note_fs" "wd_db w1 = d1" for w1 owner
    using demo_finalize [OF that(1) _ on(3,4) _ v run(5,6,7) calm(1,2) run(8), of owner] that(2) on(2) run(3) by simp
  obtain w' where w': "execute_quest 1 demo_service demo_environment ''q1'' (demo_world d0) = Some (Inr (), w')"
    "wd_db w' = snd (release_lease ''q1'' owner0 d6)"
    using demo_execute_quest [of "demo_world d0" e1 d1 d6 fs] on(1,2) run(2) facts calm(3) final by auto
  have re: "reachable sha0 d0" by (rule prepared_reachable [OF run(1)])
  have steps: "(store_step sha0)\<^sup>*\<^sup>* (busy d0) d6"
  proof -
    have "store_step sha0 (busy d0) d1" "store_step sha0 d1 d2" "store_step sha0 d2 d3" "store_step sha0 d3 d4"
      "store_step sha0 d4 d5" "store_step sha0 d5 d6"
      by (rule store_step.admit [OF run(2)], rule store_step.append [OF run(3)], simp,
        rule store_step.entry [OF run(5) [unfolded append_evidence_def]],
        rule store_step.entry [OF run(6) [unfolded append_verification_result_def]],
        rule store_step.append [OF run(7)], simp add: completed_quest_patch_def, rule store_step.checkpoint [OF run(8)])
    then show ?thesis by (meson converse_rtranclp_into_rtranclp rtranclp.rtrancl_refl)
  qed
  obtain f where f: "f \<in> set (events (busy d0))" "ev_type f = ''QuestCompleted''" "ev_quest f = ''q2''"
    using q2 by (auto simp: finishes_q2_def)
  then have "f \<in> set (events (wd_db w'))"
    using steps_grow [OF steps busy_reachable [OF re]] w'(2) by (auto simp: release_lease_events)
  moreover have "ev_quest e5 = ''q1''"
    using run(7) find_quest_in by (auto simp: append_event_def new_event_def dest!: append_locked_Inr)
  ultimately show thesis
    using that [OF re facts(3) w'(1), of e5 f] w'(2) ends f by (auto simp: release_lease_events)
qed

end
