(* ===== verification/Quest_Properties.thy ===== *)
theory Quest_Properties
  imports Quest_Demo
begin

text \<open>
  Properties of the Quest service: it refines the store, loses no update, and completes a Quest only when
  its final verification met the files; and what its controls and its recovery do.
\<close>

lemma demo_others: "(store_step (sv_sha demo_service))\<^sup>*\<^sup>* d (en_others demo_environment t d)"
  "quiet_step ''q1'' d (en_others demo_environment t d)"
  using finish_other_steps [of sha0 d "''q2''" 1] finish_other_quiet [of "''q2''" "''q1''" d sha0 1]
  by (simp_all add: busy_def demo_service_def demo_host_def)

text \<open>A larger bound on the passes of the worker leaves a run that ends as it is.\<close>

lemma worker_loop_mono: "worker_loop n sv en qid owner w = Some r \<Longrightarrow> n \<le> k \<Longrightarrow> worker_loop k sv en qid owner w = Some r"
proof (induction n arbitrary: w k)
  case (Suc n)
  then show ?case by (cases k) (auto split: prod.splits sum.splits if_splits)
qed simp

lemma worker_body_mono:
  "worker_body n sv en qid owner w = Some r \<Longrightarrow> n \<le> k \<Longrightarrow> worker_body k sv en qid owner w = Some r"
  by (auto simp: worker_body_def intro: worker_loop_mono split: prod.splits sum.splits if_splits)

lemma execute_quest_mono:
  "execute_quest n sv en qid w = Some r \<Longrightarrow> n \<le> k \<Longrightarrow> execute_quest k sv en qid w = Some r"
  by (auto simp: execute_quest_def Let_def dest: worker_body_mono split: option.splits prod.splits)

text \<open>
  Claim C8. The service refines the store: whatever sequence of calls of \<^verbatim>\<open>V1QuestService\<close> runs, controls of users,
  reviews, recovery and workers, with other processes between any two transactions, the database moves
  only by operations of \<^verbatim>\<open>V1Storage\<close>, so every invariant of the store holds of it.
\<close>
theorem service_refines_store:
  assumes "\<And>t d. (store_step (sv_sha sv))\<^sup>*\<^sup>* d (en_others en t d)"
    and "(service_step sv en)\<^sup>*\<^sup>* w w'"
  shows "(store_step (sv_sha sv))\<^sup>*\<^sup>* (wd_db w) (wd_db w')"
  using service_run_store assms by metis

theorem service_refines_store_witness:
  "\<exists>w w'. (service_step demo_service demo_environment)\<^sup>*\<^sup>* w w' \<and> events (wd_db w') \<noteq> events (wd_db w) \<and>
     (store_step sha0)\<^sup>*\<^sup>* (wd_db w) (wd_db w')"
proof -
  obtain d w' e where run: "execute_quest 1 demo_service demo_environment ''q1'' (demo_world d) = Some (Inr (), w')"
    "e \<in> set (events (wd_db w'))" "e \<notin> set (events d)" using demo_worker by metis
  have step: "(service_step demo_service demo_environment)\<^sup>*\<^sup>* (demo_world d) w'"
    by (rule r_into_rtranclp, rule service_step.worker [OF run(1)])
  have "(store_step (sv_sha demo_service))\<^sup>*\<^sup>* (wd_db (demo_world d)) (wd_db w')"
    by (rule service_refines_store [OF demo_others(1) step])
  moreover have "events (wd_db w') \<noteq> events (wd_db (demo_world d))" using run(2,3) by auto
  ultimately show ?thesis using step by (intro exI [of _ "demo_world d"] exI [of _ w']) simp
qed

text \<open>
  Claim C4. No update is lost: a decision taken on a state read by \<^verbatim>\<open>get_quest\<close> is appended with the version of that
  state, and if the append succeeds, after any number of other calls and workers, the state it produces
  is the state that was read with exactly the appended changes.
\<close>
theorem no_lost_update:
  assumes "\<And>t d. (store_step (sv_sha sv))\<^sup>*\<^sup>* d (en_others en t d)"
    and "reachable (sv_sha sv) (wd_db w0)" and "service_get_quest en qid w0 = (Inr s, w1)"
    and "(service_step sv en)\<^sup>*\<^sup>* w1 w2"
    and "service_append_event sv en qid ty patch (state_version s) w2 = (Inr ev, w3)"
  shows "get_quest (wd_db w3) qid =
    Some (merge_items s (event_patch patch (Suc (state_version s)) (en_now en (wd_tick w2))))"
proof (rule append_finds_state(1) [OF assms(1) _ _ _ assms(5)])
  show "get_quest (wd_db w1) qid = Some s" by (rule service_get_quest_Inr [OF assms(3)])
  show "reachable (sv_sha sv) (wd_db w1)"
    using steps_reachable [OF system_steps_store [OF assms(1) by_stepsD [OF by_steps_get_quest assms(3)]] assms(2)] .
  show "(store_step (sv_sha sv))\<^sup>*\<^sup>* (wd_db w1) (wd_db w2)" by (rule service_run_store [OF assms(1,4)])
qed

theorem no_lost_update_witness:
  "\<exists>s w1 ev w3. service_append_event demo_service demo_environment ''q1'' ''QuestVerificationStarted''
       [(''status'', JStr ''verifying'')] (state_version s) w1 = (Inr ev, w3) \<and>
     get_quest (wd_db w3) ''q1'' =
       Some (merge_items s (event_patch [(''status'', JStr ''verifying'')] (Suc (state_version s)) ''t''))"
proof -
  obtain d s ev d' where run: "reachable sha0 d" "calm d" "get_quest d ''q1'' = Some s" "state_version s = 4"
    "append_event sha0 ''q1'' ''QuestVerificationStarted'' [(''status'', JStr ''verifying'')] 4
       EVENT_SCHEMA_VERSION ''t'' d = Inr (ev, d')" by (rule demo_append)
  let ?w = "demo_world d" and ?w1 = "with_db d (demo_world d)"
  have 1: "service_get_quest demo_environment ''q1'' ?w = (Inr s, ?w1)"
    by (simp add: service_get_quest_def query_def transact_def Let_def act_bind_def act_return_def run(2,3))
  have 2: "service_append_event demo_service demo_environment ''q1'' ''QuestVerificationStarted''
      [(''status'', JStr ''verifying'')] (state_version s) ?w1 = (Inr ev, with_db d' ?w1)"
    by (simp add: service_append_event_def transact_def run(4,5)) (simp add: with_db_def wd_db_def run(2,5))
  have "get_quest (wd_db (with_db d' ?w1)) ''q1'' = Some (merge_items s
      (event_patch [(''status'', JStr ''verifying'')] (Suc (state_version s)) (en_now demo_environment (wd_tick ?w1))))"
    by (rule no_lost_update [OF demo_others(1) _ 1 rtranclp.rtrancl_refl 2]) (use run(1) in simp)
  then show ?thesis using 2 by fastforce
qed

text \<open>
  Claim C3. A Quest is completed only when it is verified: when the log has a new \<^verbatim>\<open>QuestCompleted\<close> event of
  the Quest of a worker (\<^verbatim>\<open>_execute_quest\<close>) after the worker's run, the run has, before that event, a
  version of the Quest whose required acceptance criteria are all met by the files the worker leaves.
  Others may work on the same store between any two transactions, finish other Quests and append to this
  one, with two reservations: none of them completes this very Quest (then the completion is theirs) or
  overwrites the \<^verbatim>\<open>id\<close> of its state, which carries the identifier when the worker starts.
\<close>
theorem completed_means_verified:
  assumes "\<And>t d. (store_step (sv_sha sv))\<^sup>*\<^sup>* d (en_others en t d)" and "\<And>t d. quiet_step qid d (en_others en t d)"
    and "reachable (sv_sha sv) (wd_db w)" and "id_ok qid (wd_db w)"
    and "execute_quest n sv en qid w = Some (r, w')"
    and "e \<in> set (events (wd_db w'))" and "ev_type e = ''QuestCompleted''" and "ev_quest e = qid"
    and "e \<notin> set (events (wd_db w))"
  shows "\<exists>k s. length (quest_events (wd_db w) qid) < k \<and> k \<le> ev_before e \<and>
    replay_loop (sv_sha sv) [] (take k (quest_events (wd_db w') qid)) = Inr s \<and>
    (\<forall>cr \<in> set (state_criteria s). c_required cr \<longrightarrow>
      criterion_meets (sv_host sv) (sv_sandbox sv) (state_workspace s) cr (wd_files w'))"
proof -
  have "justified qid sv w w w'"
    by (rule worker_run.worker_justified [OF worker_run.intro [OF assms(1-4)] assms(5)])
  then obtain k where "verified_at sv w w' e k" using assms(6-9) by (auto simp: justified_def)
  then show ?thesis unfolding verified_at_def using assms(8) by blast
qed

text \<open>A worker completes \<open>q1\<close> while another one completes \<open>q2\<close>.\<close>

theorem completed_means_verified_witness:
  "\<exists>w w' e f k s. e \<in> set (events (wd_db w')) \<and> ev_type e = ''QuestCompleted'' \<and> ev_quest e = ''q1'' \<and>
     f \<in> set (events (wd_db w')) \<and> f \<notin> set (events (wd_db w)) \<and> ev_type f = ''QuestCompleted'' \<and> ev_quest f = ''q2'' \<and>
     execute_quest 1 demo_service demo_environment ''q1'' w = Some (Inr (), w') \<and> k \<le> ev_before e \<and>
     replay_loop sha0 [] (take k (quest_events (wd_db w') ''q1'')) = Inr s \<and>
     (\<forall>cr \<in> set (state_criteria s). c_required cr \<longrightarrow>
       criterion_meets (sv_host demo_service) demo_sandbox (state_workspace s) cr (wd_files w'))"
proof -
  obtain d w' e f where run: "reachable sha0 d" "id_ok ''q1'' d"
    "execute_quest 1 demo_service demo_environment ''q1'' (demo_world d) = Some (Inr (), w')"
    "e \<in> set (events (wd_db w'))" "ev_type e = ''QuestCompleted''" "ev_quest e = ''q1''" "e \<notin> set (events d)"
    "f \<in> set (events (wd_db w'))" "ev_type f = ''QuestCompleted''" "ev_quest f = ''q2''" "f \<notin> set (events d)"
    by (rule demo_worker)
  obtain k s where "k \<le> ev_before e" "replay_loop (sv_sha demo_service) [] (take k (quest_events (wd_db w') ''q1'')) = Inr s"
    "\<forall>cr \<in> set (state_criteria s). c_required cr \<longrightarrow>
      criterion_meets (sv_host demo_service) (sv_sandbox demo_service) (state_workspace s) cr (wd_files w')"
    using completed_means_verified [OF demo_others _ _ run(3,4,5,6)] run(1,2,7) by auto
  then show ?thesis using run
    by (intro exI [of _ "demo_world d"] exI [of _ w'] exI [of _ e] exI [of _ f] exI [of _ k] exI [of _ s]) simp
qed

end
