(* ===== verification/Candidate.thy ===== *)
theory Candidate
  imports Plan_Graph Provenance Tools Json_Text
begin

text \<open>
  Planning candidates of language models (\<^verbatim>\<open>v1/model_adapter.py\<close>): untrusted JSON is parsed under the
  field constraints of the contract and then validated: tools, relative paths, dependencies and, by a
  depth-first search, dependency cycles. What is accepted is characterised exactly.
\<close>

section \<open>Names and bounded JSON\<close>

text \<open>A string of the model is its UTF-8 text; its length in characters leaves continuation bytes out.\<close>

definition char_count :: "string \<Rightarrow> nat" where
  "char_count s = length (filter (\<lambda>c. \<not> cont c) s)"

definition is_alpha :: "char \<Rightarrow> bool" where
  "is_alpha c \<longleftrightarrow> (65 \<le> byte c \<and> byte c \<le> 90) \<or> (97 \<le> byte c \<and> byte c \<le> 122)"

definition is_alnum :: "char \<Rightarrow> bool" where
  "is_alnum c \<longleftrightarrow> is_alpha c \<or> (48 \<le> byte c \<and> byte c \<le> 57)"

definition matches_name :: "(char \<Rightarrow> bool) \<Rightarrow> (char \<Rightarrow> bool) \<Rightarrow> string \<Rightarrow> bool" where
  "matches_name first rest s \<longleftrightarrow> s \<noteq> [] \<and> length s \<le> 120 \<and> first (hd s) \<and> list_all rest (tl s)"

definition is_identifier :: "string \<Rightarrow> bool" where
  "is_identifier = matches_name is_alnum (\<lambda>c. is_alnum c \<or> c \<in> set ''_.:-'')"

definition is_tool_name :: "string \<Rightarrow> bool" where
  "is_tool_name = matches_name is_alpha (\<lambda>c. is_alnum c \<or> c \<in> set ''_.-'')"

definition sensitive_markers :: "string list" where
  "sensitive_markers = [''api_key'', ''apikey'', ''authorization'', ''credential'', ''password'', ''prompt'', ''secret'']"

definition sensitive_key :: "string \<Rightarrow> bool" where
  "sensitive_key k \<longleftrightarrow> list_ex (\<lambda>m. sublist m (str_lower k)) sensitive_markers"

fun bounded_json :: "nat \<Rightarrow> json \<Rightarrow> bool" where
  "bounded_json depth (JObj d) \<longleftrightarrow> depth \<le> 4 \<and> length d \<le> 32 \<and>
     list_all (\<lambda>(k, v). char_count k \<le> 120 \<and> \<not> sensitive_key k \<and> bounded_json (Suc depth) v) d"
| "bounded_json depth (JList xs) \<longleftrightarrow> depth \<le> 4 \<and> length xs \<le> 64 \<and> list_all (bounded_json (Suc depth)) xs"
| "bounded_json depth (JStr s) \<longleftrightarrow> depth \<le> 4 \<and> char_count s \<le> 8000"
| "bounded_json depth _ \<longleftrightarrow> depth \<le> 4"

section \<open>Candidates\<close>

record candidate_step =
  cd_step :: string
  cd_title :: string
  cd_description :: string
  cd_tool :: string
  cd_args :: dict
  cd_deps :: "string list"

record planning_candidate =
  cd_id :: string
  cd_version :: int
  cd_summary :: string
  cd_steps :: "candidate_step list"

fun strings_of :: "json list \<Rightarrow> string list option" where
  "strings_of [] = Some []"
| "strings_of (JStr s # xs) = map_option ((#) s) (strings_of xs)"
| "strings_of (_ # xs) = None"

text \<open>\<^verbatim>\<open>extra="forbid"\<close>, and the strict types and bounds of the fields.\<close>

definition only_fields :: "string list \<Rightarrow> dict \<Rightarrow> bool" where
  "only_fields ks d \<longleftrightarrow> list_all (\<lambda>(k, v). k \<in> set ks) d"

definition step_fields_ok :: "candidate_step \<Rightarrow> bool" where
  "step_fields_ok s \<longleftrightarrow> is_identifier (cd_step s) \<and> cd_title s \<noteq> [] \<and> char_count (cd_title s) \<le> 240 \<and>
     char_count (cd_description s) \<le> 2000 \<and> is_tool_name (cd_tool s) \<and> length (cd_args s) \<le> 32 \<and>
     bounded_json 0 (JObj (cd_args s)) \<and> length (cd_deps s) \<le> 32 \<and> distinct (cd_deps s) \<and>
     list_all is_identifier (cd_deps s)"

definition parse_step :: "json \<Rightarrow> candidate_step option" where
  "parse_step v =
     (let d = as_dict v in
      case (read d ''id'', read d ''title'', dict_get_or d ''description'' (JStr []), read d ''tool_name'',
            dict_get_or d ''tool_args'' (JObj []), dict_get_or d ''dependencies'' (JList [])) of
        (JStr i, JStr t, JStr about, JStr tool, JObj args, JList deps) \<Rightarrow>
          (case strings_of deps of
             None \<Rightarrow> None
           | Some ds \<Rightarrow>
               let s = \<lparr>cd_step = i, cd_title = t, cd_description = about, cd_tool = tool, cd_args = args, cd_deps = ds\<rparr>
               in if step_fields_ok s \<and>
                     only_fields [''id'', ''title'', ''description'', ''tool_name'', ''tool_args'', ''dependencies''] d
                  then Some s else None)
      | _ \<Rightarrow> None)"

fun parse_steps :: "json list \<Rightarrow> candidate_step list option" where
  "parse_steps [] = Some []"
| "parse_steps (v # vs) =
     (case (parse_step v, parse_steps vs) of (Some s, Some ss) \<Rightarrow> Some (s # ss) | _ \<Rightarrow> None)"

definition parse_candidate :: "json \<Rightarrow> planning_candidate option" where
  "parse_candidate v =
     (let d = as_dict v in
      case (dict_get_or d ''schema_version'' (JInt 1), read d ''id'', read d ''version'', read d ''summary'', read d ''steps'') of
        (JInt sv, JStr i, JInt n, JStr s, JList steps) \<Rightarrow>
          (case parse_steps steps of
             None \<Rightarrow> None
           | Some ss \<Rightarrow>
               if sv = 1 \<and> is_identifier i \<and> 1 \<le> n \<and> n \<le> 1000000 \<and> s \<noteq> [] \<and> char_count s \<le> 2000 \<and>
                  ss \<noteq> [] \<and> length ss \<le> 64 \<and>
                  only_fields [''schema_version'', ''id'', ''version'', ''summary'', ''steps''] d
               then Some \<lparr>cd_id = i, cd_version = n, cd_summary = s, cd_steps = ss\<rparr> else None)
      | _ \<Rightarrow> None)"

text \<open>\<^verbatim>\<open>model_dump(mode="json")\<close>\<close>

definition step_json :: "candidate_step \<Rightarrow> json" where
  "step_json s = JObj
     [(''id'', JStr (cd_step s)), (''title'', JStr (cd_title s)), (''description'', JStr (cd_description s)),
      (''tool_name'', JStr (cd_tool s)), (''tool_args'', JObj (cd_args s)),
      (''dependencies'', JList (map JStr (cd_deps s)))]"

definition candidate_json :: "planning_candidate \<Rightarrow> dict" where
  "candidate_json c =
     [(''schema_version'', JInt 1), (''id'', JStr (cd_id c)), (''version'', JInt (cd_version c)),
      (''summary'', JStr (cd_summary c)), (''steps'', JList (map step_json (cd_steps c)))]"

definition candidate_hash :: "(json \<Rightarrow> string) \<Rightarrow> planning_candidate \<Rightarrow> string" where
  "candidate_hash sha c = stable_hash sha (JObj (candidate_json c))"

section \<open>Paths in the arguments\<close>

text \<open>An absolute Windows path with a drive: one character, a colon and a separator.\<close>

definition drive_absolute :: "string \<Rightarrow> bool" where
  "drive_absolute s \<longleftrightarrow> s \<noteq> [] \<and>
     (case dropWhile cont (tl s) of
        c # d # _ \<Rightarrow> c = CHR '':'' \<and> (d = CHR ''/'' \<or> d = CHR 0x5C)
      | _ \<Rightarrow> False)"

definition forward_slashes :: "string \<Rightarrow> string" where
  "forward_slashes s = map (\<lambda>c. if c = CHR 0x5C then CHR ''/'' else c) s"

definition unsafe_path :: "string \<Rightarrow> bool" where
  "unsafe_path s \<longleftrightarrow>
     (let n = forward_slashes s
      in n = [] \<or> is_absolute n \<or> drive_absolute s \<or> ''..'' \<in> set (path_parts n))"

fun has_unsafe_path :: "string \<Rightarrow> json \<Rightarrow> bool" where
  "has_unsafe_path key (JObj d) = list_ex (\<lambda>(k, v). has_unsafe_path k v) d"
| "has_unsafe_path key (JList xs) = list_ex (has_unsafe_path key) xs"
| "has_unsafe_path key (JStr s) = (ends_with (str_lower key) ''path'' \<and> unsafe_path s)"
| "has_unsafe_path key _ = False"

section \<open>The search for a dependency cycle\<close>

lemma fewer_to_visit:
  assumes "map_of D i = Some ds" and "i \<notin> set path"
  shows "card (set (map fst D) - set (i # path)) < card (set (map fst D) - set path)"
proof (rule psubset_card_mono)
  have "i \<in> set (map fst D)" using map_of_SomeD [OF assms(1)] by force
  then show "set (map fst D) - set (i # path) \<subset> set (map fst D) - set path" using assms(2) by auto
qed simp

text \<open>
  \<open>path\<close> holds the steps being visited, \<open>seen\<close> the steps done; the answer \<open>True\<close> ends the search. Every
  dependency is a step by then, so the search of the table never misses.
\<close>

function visit :: "(string \<times> string list) list \<Rightarrow> string list \<Rightarrow> string list \<Rightarrow> string \<Rightarrow> bool \<times> string list"
  and visit_each :: "(string \<times> string list) list \<Rightarrow> string list \<Rightarrow> string list \<Rightarrow> string list \<Rightarrow> bool \<times> string list"
where
  "visit D path seen i =
     (if i \<in> set path then (True, seen)
      else if i \<in> set seen then (False, seen)
      else case map_of D i of
        None \<Rightarrow> (False, seen)
      | Some ds \<Rightarrow>
          (case visit_each D (i # path) seen ds of
             (True, seen') \<Rightarrow> (True, seen')
           | (False, seen') \<Rightarrow> (False, i # seen')))"
| "visit_each D path seen [] = (False, seen)"
| "visit_each D path seen (i # is) =
     (case visit D path seen i of
        (True, seen') \<Rightarrow> (True, seen')
      | (False, seen') \<Rightarrow> visit_each D path seen' is)"
  by pat_completeness auto

termination
proof (relation "measures [\<lambda>x. (case x of Inl (D, path, seen, i) \<Rightarrow> card (set (map fst D) - set path)
      | Inr (D, path, seen, is) \<Rightarrow> card (set (map fst D) - set path)),
    \<lambda>x. (case x of Inl (D, path, seen, i) \<Rightarrow> 0 | Inr (D, path, seen, is) \<Rightarrow> Suc (length is))]")
qed (simp_all add: fewer_to_visit del: set_map list.set)

declare visit.simps [simp del]

definition has_dependency_cycle :: "candidate_step list \<Rightarrow> bool" where
  "has_dependency_cycle ss =
     fst (visit_each (map (\<lambda>s. (cd_step s, cd_deps s)) ss) [] [] (map cd_step ss))"

section \<open>Validation\<close>

definition MAX_CANDIDATE_BYTES :: nat where
  "MAX_CANDIDATE_BYTES = 32768"

fun check_steps :: "string list \<Rightarrow> string list \<Rightarrow> candidate_step list \<Rightarrow> string + unit" where
  "check_steps allowed ids [] = Inr ()"
| "check_steps allowed ids (s # ss) =
     (if cd_tool s \<notin> set allowed then Inl ''TOOL_NOT_ALLOWED''
      else if has_unsafe_path [] (JObj (cd_args s)) then Inl ''UNSAFE_PATH''
      else if \<not> set (cd_deps s) \<subseteq> set ids then Inl ''MISSING_DEPENDENCY''
      else check_steps allowed ids ss)"

definition validate_planning_candidate ::
    "(json \<Rightarrow> string) \<Rightarrow> (rat \<Rightarrow> string) \<Rightarrow> string list \<Rightarrow> planning_candidate \<Rightarrow> string + planning_candidate \<times> string" where
  "validate_planning_candidate sha fl allowed c =
     (let ids = map cd_step (cd_steps c)
      in if MAX_CANDIDATE_BYTES < length (json_text fl (JObj (candidate_json c))) then Inl ''CANDIDATE_TOO_LARGE''
         else if \<not> distinct ids then Inl ''DUPLICATE_STEP_ID''
         else andThen (check_steps allowed ids (cd_steps c)) (\<lambda>_.
              if has_dependency_cycle (cd_steps c) then Inl ''DEPENDENCY_CYCLE''
              else Inr (c, candidate_hash sha c)))"

section \<open>The search is exact\<close>

definition dep_edges :: "(string \<times> string list) list \<Rightarrow> (string \<times> string) set" where
  "dep_edges D = {(i, d). \<exists>ds. map_of D i = Some ds \<and> d \<in> set ds}"

text \<open>The steps being visited lead to each other, and the steps done are in a topological order.\<close>

fun linked :: "(string \<times> string list) list \<Rightarrow> string list \<Rightarrow> bool" where
  "linked D (x # y # ys) \<longleftrightarrow> (y, x) \<in> dep_edges D \<and> linked D (y # ys)"
| "linked D _ \<longleftrightarrow> True"

fun topological :: "(string \<times> string list) list \<Rightarrow> string list \<Rightarrow> bool" where
  "topological D [] \<longleftrightarrow> True"
| "topological D (i # is) \<longleftrightarrow> (\<forall>d. (i, d) \<in> dep_edges D \<longrightarrow> d \<in> set is) \<and> topological D is"

lemma linked_reaches: "linked D (x # path) \<Longrightarrow> y \<in> set path \<Longrightarrow> (y, x) \<in> (dep_edges D)\<^sup>+"
proof (induction path arbitrary: x)
  case (Cons z path)
  then have edge: "(z, x) \<in> dep_edges D" and rest: "linked D (z # path)" by simp_all
  show ?case
  proof (cases "y = z")
    case True
    then show ?thesis using edge by blast
  next
    case False
    then have "(y, z) \<in> (dep_edges D)\<^sup>+" using Cons rest by simp
    then show ?thesis using edge by (rule trancl_into_trancl)
  qed
qed simp

lemma linked_Cons: "linked D (y # ys) \<Longrightarrow> (y, x) \<in> dep_edges D \<Longrightarrow> linked D (x # y # ys)"
  by simp

text \<open>What a visit establishes.\<close>

definition found_ok :: "(string \<times> string list) list \<Rightarrow> string list \<Rightarrow> string list \<Rightarrow> bool \<times> string list \<Rightarrow> bool" where
  "found_ok D is seen r \<longleftrightarrow>
     (if fst r then \<not> acyclic (dep_edges D)
      else topological D (snd r) \<and> set seen \<subseteq> set (snd r) \<and> set is \<subseteq> set (snd r))"

definition deps_closed :: "(string \<times> string list) list \<Rightarrow> bool" where
  "deps_closed D \<longleftrightarrow> (\<forall>e \<in> dep_edges D. snd e \<in> fst ` set D)"

lemma visit_found:
  shows "deps_closed D \<Longrightarrow> i \<in> fst ` set D \<Longrightarrow> linked D (i # path) \<Longrightarrow> topological D seen \<Longrightarrow>
      found_ok D [i] seen (visit D path seen i)"
    and "deps_closed D \<Longrightarrow> set is \<subseteq> fst ` set D \<Longrightarrow> \<forall>i \<in> set is. linked D (i # path) \<Longrightarrow> topological D seen \<Longrightarrow>
      found_ok D is seen (visit_each D path seen is)"
proof (induction D path seen i and D path seen "is" rule: visit_visit_each.induct)
  case (1 D path seen i)
  show ?case
  proof (cases "i \<in> set path \<or> i \<in> set seen")
    case True
    have "(i, i) \<in> (dep_edges D)\<^sup>+" if "i \<in> set path" using linked_reaches [OF "1.prems"(3) that] .
    then show ?thesis using True "1.prems"(4) by (auto simp: visit.simps found_ok_def acyclic_def)
  next
    case False
    obtain ds where ds: "map_of D i = Some ds" using "1.prems"(2) by (metis map_of_eq_None_iff option.exhaust)
    have edges: "(i, d) \<in> dep_edges D \<longleftrightarrow> d \<in> set ds" for d using ds by (simp add: dep_edges_def)
    have sub: "set ds \<subseteq> fst ` set D" using "1.prems"(1) edges by (force simp: deps_closed_def)
    have "\<forall>d \<in> set ds. linked D (d # i # path)" using "1.prems"(3) edges by simp
    then have "found_ok D ds seen (visit_each D (i # path) seen ds)"
      using "1.IH" False ds "1.prems" sub by blast
    then show ?thesis
      using False ds edges by (auto simp: visit.simps found_ok_def split: prod.splits bool.splits)
  qed
next
  case (2 D path seen)
  then show ?case by (simp add: found_ok_def)
next
  case (3 D path seen i "is")
  have here: "found_ok D [i] seen (visit D path seen i)" using "3.IH"(1) "3.prems" by simp
  obtain b seen' where v: "visit D path seen i = (b, seen')" by (cases "visit D path seen i")
  show ?case
  proof (cases b)
    case True
    then show ?thesis using here v by (simp add: found_ok_def)
  next
    case False
    then have seen': "topological D seen'" "set seen \<subseteq> set seen'" "i \<in> set seen'" using here v by (simp_all add: found_ok_def)
    have "found_ok D is seen' (visit_each D path seen' is)"
      using "3.IH"(2) [OF v [symmetric]] False "3.prems" seen'(1) by simp
    moreover have "visit_each D path seen (i # is) = visit_each D path seen' is" using v False by simp
    moreover have "found_ok D (i # is) seen r" if "found_ok D is seen' r" for r
      using that seen' by (cases "fst r") (auto simp: found_ok_def intro: subset_trans)
    ultimately show ?thesis by simp
  qed
qed

lemma pos_in_append: "pos_in (xs @ [y]) x = (if x \<in> set xs then pos_in xs x else if x = y then length xs else Suc (length xs))"
  by (induction xs) (auto simp: pos_in_def)

lemma topological_pos:
  "topological D seen \<Longrightarrow> i \<in> set seen \<Longrightarrow> (i, d) \<in> dep_edges D \<Longrightarrow>
     d \<in> set seen \<and> pos_in (rev seen) d < pos_in (rev seen) i"
proof (induction seen)
  case (Cons j seen)
  have "pos_in (rev seen) d < length seen" if "d \<in> set seen"
    using pos_in_nth [of d "rev seen"] that by simp
  then show ?case using Cons by (auto simp: pos_in_append)
qed simp

lemma topological_acyclic:
  assumes "topological D seen" and "fst ` set D \<subseteq> set seen"
  shows "acyclic (dep_edges D)"
proof -
  have "(dep_edges D)\<inverse> \<subseteq> measure (pos_in (rev seen))"
    using topological_pos [OF assms(1)] assms(2) map_of_SomeD by (fastforce simp: dep_edges_def)
  then have "acyclic ((dep_edges D)\<inverse>)" by (meson wf_acyclic wf_measure wf_subset)
  then show ?thesis by simp
qed

definition step_edges :: "candidate_step list \<Rightarrow> (string \<times> string) set" where
  "step_edges ss = {(cd_step s, d) | s d. s \<in> set ss \<and> d \<in> set (cd_deps s)}"

lemma has_dependency_cycle_iff:
  assumes "distinct (map cd_step ss)" and "\<forall>s \<in> set ss. set (cd_deps s) \<subseteq> cd_step ` set ss"
  shows "has_dependency_cycle ss \<longleftrightarrow> \<not> acyclic (step_edges ss)"
proof -
  let ?D = "map (\<lambda>s. (cd_step s, cd_deps s)) ss"
  have "map fst ?D = map cd_step ss" by (simp add: comp_def)
  then have "map_of ?D i = Some ds \<longleftrightarrow> (\<exists>s \<in> set ss. i = cd_step s \<and> ds = cd_deps s)" for i ds
    using assms(1) by (subst map_of_eq_Some_iff) (auto simp: comp_def)
  then have E: "dep_edges ?D = step_edges ss" by (auto simp: dep_edges_def step_edges_def)
  have "deps_closed ?D" unfolding deps_closed_def E using assms(2) by (force simp: step_edges_def)
  then have "found_ok ?D (map cd_step ss) [] (visit_each ?D [] [] (map cd_step ss))"
    by (intro visit_found) (auto simp: image_image)
  moreover have "fst ` set ?D = set (map cd_step ss)" by force
  ultimately show ?thesis
    unfolding has_dependency_cycle_def found_ok_def E
    using topological_acyclic [of ?D] E by (auto split: if_splits)
qed

section \<open>What validation accepts\<close>

lemma check_steps_iff:
  "check_steps allowed ids ss = Inr u \<longleftrightarrow>
     (\<forall>s \<in> set ss. cd_tool s \<in> set allowed \<and> \<not> has_unsafe_path [] (JObj (cd_args s)) \<and> set (cd_deps s) \<subseteq> set ids)"
  by (induction ss) auto

text \<open>
  Claim C28. A planning candidate is accepted (\<^verbatim>\<open>validate_planning_candidate\<close>) exactly when its text is not too long, its
  step identifiers differ, every step uses an allowed tool, safe relative paths and known dependencies,
  and the dependency graph has no cycle: the depth-first search decides acyclicity.
\<close>
theorem candidate_accepted_exactly:
  "validate_planning_candidate sha fl allowed c = Inr r \<longleftrightarrow>
     r = (c, candidate_hash sha c) \<and> length (json_text fl (JObj (candidate_json c))) \<le> MAX_CANDIDATE_BYTES \<and>
     distinct (map cd_step (cd_steps c)) \<and>
     (\<forall>s \<in> set (cd_steps c). cd_tool s \<in> set allowed \<and> \<not> has_unsafe_path [] (JObj (cd_args s)) \<and>
        set (cd_deps s) \<subseteq> cd_step ` set (cd_steps c)) \<and>
     acyclic (step_edges (cd_steps c))"
proof (cases "distinct (map cd_step (cd_steps c)) \<and> (\<forall>s \<in> set (cd_steps c). set (cd_deps s) \<subseteq> cd_step ` set (cd_steps c))")
  case True
  then have "has_dependency_cycle (cd_steps c) \<longleftrightarrow> \<not> acyclic (step_edges (cd_steps c))"
    using has_dependency_cycle_iff by blast
  then show ?thesis
    using True by (auto simp: validate_planning_candidate_def Let_def result_simps check_steps_iff)
next
  case False
  then show ?thesis by (auto simp: validate_planning_candidate_def Let_def result_simps check_steps_iff)
qed

text \<open>The length of a quoted text.\<close>

lemma escape_bound: "length (escape_char c) \<le> 6"
  by (simp add: escape_char_def Let_def)

lemma quoted_bound: "length (quoted s) \<le> 6 * length s + 2"
proof -
  have "length (concat (map escape_char s)) \<le> 6 * length s"
    by (induction s) (use escape_bound in \<open>auto intro: add_mono\<close>)
  then show ?thesis by (simp add: quoted_def Let_def)
qed

definition two_steps :: planning_candidate where
  "two_steps = \<lparr>cd_id = ''c'', cd_version = 1, cd_summary = ''s'', cd_steps =
     [\<lparr>cd_step = ''a'', cd_title = ''A'', cd_description = [], cd_tool = ''r'',
         cd_args = [(''path'', JStr ''n'')], cd_deps = []\<rparr>,
      \<lparr>cd_step = ''b'', cd_title = ''B'', cd_description = [], cd_tool = ''r'', cd_args = [], cd_deps = [''a'']\<rparr>]\<rparr>"

lemma two_steps_accepted:
  "validate_planning_candidate sha fl [''r''] two_steps = Inr (two_steps, candidate_hash sha two_steps)"
proof -
  have "length (json_text fl (JObj (candidate_json two_steps))) \<le> MAX_CANDIDATE_BYTES"
    by (simp add: json_text_def two_steps_def candidate_json_def step_json_def sort_key_def MAX_CANDIDATE_BYTES_def
        quoted_def escape_char_def int_text_def nat_text.simps Let_def)
  moreover have "\<not> has_dependency_cycle (cd_steps two_steps)" by code_simp
  moreover have "check_steps [''r''] (map cd_step (cd_steps two_steps)) (cd_steps two_steps) = Inr ()" by code_simp
  moreover have "distinct (map cd_step (cd_steps two_steps))" by code_simp
  ultimately show ?thesis by (simp add: validate_planning_candidate_def)
qed

theorem candidate_accepted_exactly_witness:
  "acyclic (step_edges (cd_steps two_steps)) \<and> distinct (map cd_step (cd_steps two_steps))"
  using candidate_accepted_exactly [of "\<lambda>v. []" "\<lambda>x. []" "[''r'']" two_steps
      "(two_steps, candidate_hash (\<lambda>v. []) two_steps)"] two_steps_accepted by simp

section \<open>Parsing\<close>

lemma strings_of_map [simp]: "strings_of (map JStr xs) = Some xs"
  by (induction xs) auto

lemma parse_step_fields: "parse_step v = Some s \<Longrightarrow> step_fields_ok s"
  by (auto simp: parse_step_def Let_def split: json.splits option.splits if_splits)

lemma parse_step_json: "step_fields_ok s \<Longrightarrow> parse_step (step_json s) = Some s"
  by (cases s) (simp add: parse_step_def step_json_def read_def dict_get_or_def only_fields_def Let_def)

lemma parse_steps_fields: "parse_steps vs = Some ss \<Longrightarrow> s \<in> set ss \<Longrightarrow> step_fields_ok s"
  by (induction vs arbitrary: ss) (auto split: option.splits dest: parse_step_fields)

lemma parse_steps_json: "(\<And>s. s \<in> set ss \<Longrightarrow> step_fields_ok s) \<Longrightarrow> parse_steps (map step_json ss) = Some ss"
  by (induction ss) (auto simp: parse_step_json)

lemma parse_candidate_json:
  assumes "is_identifier (cd_id c)" "1 \<le> cd_version c" "cd_version c \<le> 1000000" "cd_summary c \<noteq> []"
    "char_count (cd_summary c) \<le> 2000" "cd_steps c \<noteq> []" "length (cd_steps c) \<le> 64"
    and "\<And>s. s \<in> set (cd_steps c) \<Longrightarrow> step_fields_ok s"
  shows "parse_candidate (JObj (candidate_json c)) = Some c"
  using assms parse_steps_json [OF assms(8)]
  by (simp add: parse_candidate_def candidate_json_def read_def dict_get_or_def only_fields_def)

text \<open>
  Every candidate the parser accepts is printed (\<^verbatim>\<open>model_dump\<close>) to a JSON object that parses to the same
  candidate: what the journal keeps of a call is a candidate again.
\<close>
lemma candidate_roundtrip:
  assumes "parse_candidate v = Some c"
  shows "parse_candidate (JObj (candidate_json c)) = Some c"
proof -
  obtain steps ss where ss: "parse_steps steps = Some ss" "cd_steps c = ss"
    and ok: "is_identifier (cd_id c)" "1 \<le> cd_version c" "cd_version c \<le> 1000000" "cd_summary c \<noteq> []"
      "char_count (cd_summary c) \<le> 2000" "ss \<noteq> []" "length ss \<le> 64"
    using assms by (auto simp: parse_candidate_def Let_def split: json.splits option.splits if_splits)
  then show ?thesis using parse_steps_fields [OF ss(1)] ss(2) by (intro parse_candidate_json) simp_all
qed

lemma candidate_roundtrip_witness:
  "parse_candidate (JObj (candidate_json two_steps)) = Some two_steps"
proof -
  have "parse_candidate (JObj [(''id'', JStr ''c''), (''version'', JInt 1), (''summary'', JStr ''s''), (''steps'', JList
      [JObj [(''id'', JStr ''a''), (''title'', JStr ''A''), (''tool_name'', JStr ''r''),
         (''tool_args'', JObj [(''path'', JStr ''n'')])],
       JObj [(''title'', JStr ''B''), (''id'', JStr ''b''), (''tool_name'', JStr ''r''),
         (''dependencies'', JList [JStr ''a''])]])]) = Some two_steps"
    by code_simp
  then show ?thesis by (rule candidate_roundtrip)
qed

end
