(* ===== verification/Coordinator.thy ===== *)
theory Coordinator
  imports Candidate Model_Calls Effects
begin

text \<open>
  The coordinator of model calls (\<^verbatim>\<open>v1/model_runtime.py\<close>): it checks a submission, reserves an attempt in
  the journal, sends the request to the adapter, validates the answer and settles the attempt. The
  adapter, the clock and what others do to the database between two calls of the storage are inputs.
  \<^verbatim>\<open>casefold\<close> is modelled on the ASCII range, as in the journal.
\<close>

section \<open>Submissions and requests\<close>

record submission =
  sm_quest :: string
  sm_key :: string
  sm_prompt :: string
  sm_payload :: dict
  sm_tools :: "string list"
  sm_parameters :: dict
  sm_reserved :: int
  sm_max_output :: int
  sm_expected :: nat
  sm_adapter :: string
  sm_model :: string
  sm_cost :: "cost_quote option"
  sm_retain :: bool

definition PUBLIC_TOKEN_COUNTER_FIELDS :: "string list" where
  "PUBLIC_TOKEN_COUNTER_FIELDS = [''input_tokens'', ''output_tokens'', ''total_tokens'', ''reserved_tokens'',
     ''settled_tokens'', ''max_tokens'', ''estimated_input_tokens'', ''max_output_tokens'']"

definition secret_markers :: "string list" where
  "secret_markers = [''api_key'', ''apikey'', ''authorization'', ''credential'', ''password'', ''secret'', ''token'']"

text \<open>\<^verbatim>\<open>isinstance(child, int)\<close> and not a bool, and not negative.\<close>

fun is_counter :: "json \<Rightarrow> bool" where
  "is_counter (JInt n) \<longleftrightarrow> 0 \<le> n"
| "is_counter _ \<longleftrightarrow> False"

definition public_item :: "string \<Rightarrow> json \<Rightarrow> bool" where
  "public_item k v \<longleftrightarrow>
     (let n = summary_key k
      in char_count k \<le> 120 \<and>
         (if sublist ''token'' n then n \<in> set PUBLIC_TOKEN_COUNTER_FIELDS \<and> is_counter v
          else \<not> list_ex (\<lambda>m. sublist m n) secret_markers))"

fun public_json :: "nat \<Rightarrow> json \<Rightarrow> bool" where
  "public_json depth (JObj d) \<longleftrightarrow> depth \<le> 4 \<and> length d \<le> 32 \<and>
     list_all (\<lambda>(k, v). public_item k v \<and> public_json (Suc depth) v) d"
| "public_json depth (JList xs) \<longleftrightarrow> depth \<le> 4 \<and> length xs \<le> 64 \<and> list_all (public_json (Suc depth)) xs"
| "public_json depth (JStr s) \<longleftrightarrow> depth \<le> 4 \<and> char_count s \<le> 8000"
| "public_json depth _ \<longleftrightarrow> depth \<le> 4"

text \<open>The fields of a quote as the storage names them.\<close>

definition quote_json :: "cost_quote \<Rightarrow> json" where
  "quote_json q = JObj
     [(''account_id'', JStr (qt_account q)), (''provider'', JStr (qt_provider q)),
      (''model_alias'', JStr (qt_alias q)), (''model_snapshot'', JStr (qt_snapshot q)),
      (''pricing_version'', JStr (qt_pricing q)), (''fx_micro_cny_per_usd'', JInt (qt_fx q)),
      (''estimated_input_tokens'', JInt (qt_input q)), (''max_output_tokens'', JInt (qt_output q)),
      (''reserved_micro_cny'', JInt (qt_reserved q))]"

definition submission_ok :: "submission \<Rightarrow> bool" where
  "submission_ok s \<longleftrightarrow>
     list_all is_identifier [sm_quest s, sm_key s, sm_prompt s, sm_adapter s, sm_model s] \<and>
     sm_payload s \<noteq> [] \<and> length (sm_payload s) \<le> 32 \<and> public_json 0 (JObj (sm_payload s)) \<and>
     sm_tools s \<noteq> [] \<and> length (sm_tools s) \<le> 64 \<and>
     length (sm_parameters s) \<le> 32 \<and> public_json 0 (JObj (sm_parameters s)) \<and>
     1 \<le> sm_reserved s \<and> sm_reserved s \<le> 32768 \<and> 1 \<le> sm_max_output s \<and> sm_max_output s \<le> 32768 \<and>
     1 \<le> sm_expected s \<and> sm_expected s \<le> 1000000000 \<and> sm_max_output s \<le> sm_reserved s \<and>
     (case sm_cost s of None \<Rightarrow> True | Some q \<Rightarrow> public_json 0 (quote_json q))"

record planning_request =
  pq_quest :: string
  pq_prompt :: string
  pq_input_hash :: string
  pq_contract :: string
  pq_contract_version :: int
  pq_contract_hash :: string
  pq_plan :: string
  pq_plan_version :: int
  pq_plan_hash :: string
  pq_expected :: int
  pq_tools :: "string list"
  pq_max_output :: int
  pq_parameters :: dict

definition request_ok :: "planning_request \<Rightarrow> bool" where
  "request_ok r \<longleftrightarrow>
     list_all is_identifier [pq_quest r, pq_prompt r, pq_contract r, pq_plan r] \<and>
     list_all is_sha256 [pq_input_hash r, pq_contract_hash r, pq_plan_hash r] \<and>
     1 \<le> pq_contract_version r \<and> pq_contract_version r \<le> 1000000 \<and>
     1 \<le> pq_plan_version r \<and> pq_plan_version r \<le> 1000000 \<and>
     1 \<le> pq_expected r \<and> pq_expected r \<le> 1000000000 \<and>
     pq_tools r \<noteq> [] \<and> length (pq_tools r) \<le> 64 \<and> distinct (pq_tools r) \<and> list_all is_tool_name (pq_tools r) \<and>
     1 \<le> pq_max_output r \<and> pq_max_output r \<le> 32768 \<and>
     length (pq_parameters r) \<le> 32 \<and> bounded_json 0 (JObj (pq_parameters r))"

definition request_json :: "planning_request \<Rightarrow> dict" where
  "request_json r =
     [(''schema_version'', JInt 1), (''quest_id'', JStr (pq_quest r)), (''purpose'', JStr ''planning''),
      (''prompt_version'', JStr (pq_prompt r)), (''input_hash'', JStr (pq_input_hash r)),
      (''contract_id'', JStr (pq_contract r)), (''contract_version'', JInt (pq_contract_version r)),
      (''contract_hash'', JStr (pq_contract_hash r)), (''plan_id'', JStr (pq_plan r)),
      (''plan_version'', JInt (pq_plan_version r)), (''plan_hash'', JStr (pq_plan_hash r)),
      (''expected_state_version'', JInt (pq_expected r)),
      (''allowed_tools'', JList (map JStr (pq_tools r))), (''max_output_tokens'', JInt (pq_max_output r)),
      (''sanitized_parameters'', JObj (pq_parameters r))]"

definition request_for_submission :: "(json \<Rightarrow> string) \<Rightarrow> submission \<Rightarrow> planning_request" where
  "request_for_submission sha s =
     \<lparr>pq_quest = sm_quest s, pq_prompt = sm_prompt s, pq_input_hash = stable_hash sha (JObj (sm_payload s)),
      pq_contract = ''pending'', pq_contract_version = 1, pq_contract_hash = replicate 64 (CHR ''0''),
      pq_plan = ''pending'', pq_plan_version = 1, pq_plan_hash = replicate 64 (CHR ''0''),
      pq_expected = int (sm_expected s), pq_tools = sm_tools s, pq_max_output = sm_max_output s,
      pq_parameters = sm_parameters s\<rparr>"

definition audit_parameters :: "(json \<Rightarrow> string) \<Rightarrow> submission \<Rightarrow> dict" where
  "audit_parameters sha s =
     [(''schema_version'', JInt 1), (''allowed_tools'', JList (map JStr (sm_tools s))),
      (''max_tokens'', JInt (sm_max_output s)), (''sanitized_parameters'', JObj (sm_parameters s))] @
     (case sm_cost s of
        None \<Rightarrow> []
      | Some q \<Rightarrow> [(''cost_reservation_hash'', JStr (stable_hash sha (quote_json q))),
          (''candidate_retention'', JStr (if sm_retain s then ''full'' else ''hash_only''))])"

definition call_id_of :: "(json \<Rightarrow> string) \<Rightarrow> string \<Rightarrow> string \<Rightarrow> string" where
  "call_id_of sha qid key = ''modelcall_'' @
     take 24 (stable_hash sha (JObj [(''quest_id'', JStr qid), (''idempotency_key'', JStr key)]))"

definition journal_request :: "(json \<Rightarrow> string) \<Rightarrow> submission \<Rightarrow> model_request" where
  "journal_request sha s =
     (let cid = call_id_of sha (sm_quest s) (sm_key s); r = request_for_submission sha s
      in \<lparr>mq_call = cid, mq_quest = sm_quest s, mq_purpose = ''planning'', mq_key = sm_key s,
          mq_input_hash = pq_input_hash r, mq_prompt = sm_prompt s, mq_request_schema = 1, mq_candidate_schema = 1,
          mq_adapter = sm_adapter s, mq_model = sm_model s, mq_parameters = audit_parameters sha s,
          mq_reserved = sm_reserved s, mq_expected = Some (sm_expected s),
          mq_token = Some (''dispatch_'' @ cid @ ''_1''), mq_cost = sm_cost s\<rparr>)"

section \<open>Answers of the adapter\<close>

text \<open>\<open>KnownFailure\<close> and \<open>UnknownFailure\<close> carry the \<^verbatim>\<open>code\<close> of the exception.\<close>

datatype adapter_answer = Answer json | KnownFailure json | UnknownFailure json | OtherFailure

definition safe_adapter_code :: "json \<Rightarrow> string \<Rightarrow> string" where
  "safe_adapter_code code fallback = (case code of JStr c \<Rightarrow> if is_identifier c then c else fallback | _ \<Rightarrow> fallback)"

record model_tokens =
  mt_input :: int
  mt_output :: int
  mt_total :: int
  mt_cost :: int

definition tokens_ok :: "model_tokens \<Rightarrow> bool" where
  "tokens_ok u \<longleftrightarrow> 0 \<le> mt_input u \<and> mt_input u \<le> 32768 \<and> 0 \<le> mt_output u \<and> mt_output u \<le> 32768 \<and>
     0 \<le> mt_total u \<and> mt_total u \<le> 65536 \<and> 0 \<le> mt_cost u \<and> mt_cost u \<le> 1000000000 \<and>
     mt_total u = mt_input u + mt_output u"

definition parse_tokens :: "json \<Rightarrow> model_tokens option" where
  "parse_tokens v =
     (let d = as_dict v in
      case (dict_get_or d ''schema_version'' (JInt 1), read d ''input_tokens'', read d ''output_tokens'',
            read d ''total_tokens'', read d ''cost_microunits'') of
        (JInt sv, JInt i, JInt n, JInt t, JInt c) \<Rightarrow>
          (let u = \<lparr>mt_input = i, mt_output = n, mt_total = t, mt_cost = c\<rparr>
           in if sv = 1 \<and> tokens_ok u \<and> only_fields [''schema_version'', ''input_tokens'', ''output_tokens'',
                ''total_tokens'', ''cost_microunits''] d then Some u else None)
      | _ \<Rightarrow> None)"

definition tokens_json :: "model_tokens \<Rightarrow> dict" where
  "tokens_json u = [(''schema_version'', JInt 1), (''input_tokens'', JInt (mt_input u)),
     (''output_tokens'', JInt (mt_output u)), (''total_tokens'', JInt (mt_total u)),
     (''cost_microunits'', JInt (mt_cost u))]"

definition extract_valid_usage :: "json \<Rightarrow> model_tokens option" where
  "extract_valid_usage v = (case read (as_dict v) ''usage'' of JObj u \<Rightarrow> parse_tokens (JObj u) | _ \<Rightarrow> None)"

record model_response =
  mr_request :: string
  mr_candidate :: planning_candidate
  mr_hash :: string
  mr_usage :: model_tokens

definition parse_response :: "(json \<Rightarrow> string) \<Rightarrow> json \<Rightarrow> model_response option" where
  "parse_response sha v =
     (let d = as_dict v in
      case (dict_get_or d ''schema_version'' (JInt 1), read d ''request_hash'', read d ''candidate'',
            read d ''candidate_hash'', read d ''usage'') of
        (JInt sv, JStr rh, JObj cv, JStr ch, JObj uv) \<Rightarrow>
          (case (parse_candidate (JObj cv), parse_tokens (JObj uv)) of
             (Some c, Some u) \<Rightarrow>
               if sv = 1 \<and> is_sha256 rh \<and> is_sha256 ch \<and> ch = candidate_hash sha c \<and>
                  only_fields [''schema_version'', ''request_hash'', ''candidate'', ''candidate_hash'', ''usage''] d
               then Some \<lparr>mr_request = rh, mr_candidate = c, mr_hash = ch, mr_usage = u\<rparr> else None
           | _ \<Rightarrow> None)
      | _ \<Rightarrow> None)"

definition response_json :: "model_response \<Rightarrow> json" where
  "response_json r = JObj
     [(''schema_version'', JInt 1), (''request_hash'', JStr (mr_request r)),
      (''candidate'', JObj (candidate_json (mr_candidate r))), (''candidate_hash'', JStr (mr_hash r)),
      (''usage'', JObj (tokens_json (mr_usage r)))]"

section \<open>The durable record of a call\<close>

text \<open>\<^verbatim>\<open>_attempt_for_record\<close>: the winner, or else the latest attempt.\<close>

definition latest_attempt :: "model_attempt_row \<Rightarrow> model_attempt_row list \<Rightarrow> model_attempt_row" where
  "latest_attempt = foldl (\<lambda>a b. if ma_no a < ma_no b then b else a)"

definition attempt_for_record :: "call_view \<Rightarrow> model_attempt_row option" where
  "attempt_for_record view =
     (case view of (c, attempts) \<Rightarrow>
       (case attempts of
          [] \<Rightarrow> None
        | a # as \<Rightarrow>
            (case mc_winner c of
               Some w \<Rightarrow> find (\<lambda>x. ma_id x = w) attempts
             | None \<Rightarrow> Some (latest_attempt a as))))"

text \<open>Python's \<^verbatim>\<open>==\<close> of JSON values: numbers by value, dicts without their order.\<close>

fun plain_numbers :: "json \<Rightarrow> json" where
  "plain_numbers (JBool b) = JFloat (if b then 1 else 0)"
| "plain_numbers (JInt n) = JFloat (of_int n)"
| "plain_numbers (JList xs) = JList (map plain_numbers xs)"
| "plain_numbers (JObj d) = JObj (map (\<lambda>(k, v). (k, plain_numbers v)) d)"
| "plain_numbers v = v"

definition py_equal :: "json \<Rightarrow> json \<Rightarrow> bool" where
  "py_equal v v' \<longleftrightarrow> canon (plain_numbers v) = canon (plain_numbers v')"

definition matches_existing :: "(json \<Rightarrow> string) \<Rightarrow> submission \<Rightarrow> model_call_row \<Rightarrow> model_attempt_row \<Rightarrow> bool" where
  "matches_existing sha s c a \<longleftrightarrow>
     mc_quest c = sm_quest s \<and> mc_purpose c = ''planning'' \<and> mc_key c = sm_key s \<and>
     mc_input_hash c = pq_input_hash (request_for_submission sha s) \<and> mc_prompt c = sm_prompt s \<and>
     mc_request_schema c = 1 \<and> mc_candidate_schema c = 1 \<and> mc_expected c = sm_expected s \<and>
     ma_adapter a = sm_adapter s \<and> ma_model a = sm_model s \<and> ma_reserved a = sm_reserved s \<and>
     py_equal (JObj (ma_parameters a)) (JObj (audit_parameters sha s))"

definition retention_ok :: "dict \<Rightarrow> bool" where
  "retention_ok d \<longleftrightarrow> dict_get d ''cost_reservation_hash'' = None \<or>
     (case read d ''cost_reservation_hash'' of JStr h \<Rightarrow> is_sha256 h | _ \<Rightarrow> False) \<and>
     read d ''candidate_retention'' \<in> {JStr ''full'', JStr ''hash_only''}"

definition durable_parameters :: "dict \<Rightarrow> (string list \<times> int \<times> dict) option" where
  "durable_parameters d =
     (case (read d ''allowed_tools'', read d ''max_tokens'', read d ''sanitized_parameters'') of
        (JList ts, JInt n, JObj ps) \<Rightarrow>
          (case strings_of ts of
             None \<Rightarrow> None
           | Some tools \<Rightarrow>
               if dict_get d ''schema_version'' \<noteq> None \<and> py_equal (read d ''schema_version'') (JInt 1) \<and>
                  only_fields [''schema_version'', ''allowed_tools'', ''max_tokens'', ''sanitized_parameters'',
                    ''cost_reservation_hash'', ''candidate_retention''] d \<and> retention_ok d
               then Some (tools, n, ps) else None)
      | _ \<Rightarrow> None)"

definition request_from_durable_binding :: "model_call_row \<Rightarrow> model_attempt_row \<Rightarrow> planning_request option" where
  "request_from_durable_binding c a =
     (case durable_parameters (ma_parameters a) of
        None \<Rightarrow> None
      | Some (tools, n, ps) \<Rightarrow>
          let r = \<lparr>pq_quest = mc_quest c, pq_prompt = mc_prompt c, pq_input_hash = mc_input_hash c,
                pq_contract = mc_contract c, pq_contract_version = mc_contract_version c,
                pq_contract_hash = mc_contract_hash c, pq_plan = mc_plan c, pq_plan_version = mc_plan_version c,
                pq_plan_hash = mc_plan_hash c, pq_expected = int (mc_expected c), pq_tools = tools,
                pq_max_output = n, pq_parameters = ps\<rparr>
          in if request_ok r then Some r else None)"

section \<open>Results\<close>

record call_result =
  cl_call :: "string option"
  cl_attempt :: "string option"
  cl_outcome :: string
  cl_validation :: string
  cl_candidate :: "string option"
  cl_response :: "string option"
  cl_error :: "string option"
  cl_replay :: bool

fun validation_name :: "validation_status \<Rightarrow> string" where
  "validation_name VPending = ''pending''"
| "validation_name VCurrent = ''validated_current''"
| "validation_name VInvalid = ''invalid''"
| "validation_name VStale = ''stale''"
| "validation_name VConflict = ''conflict''"
| "validation_name VCancelled = ''cancelled_before_dispatch''"

definition outcome_of :: "model_attempt_row \<Rightarrow> string" where
  "outcome_of a =
     (if ma_validation a = VCurrent then ''validated_current''
      else if ma_validation a = VStale then ''stale''
      else if ma_status a = UnknownOutcome then ''unknown_outcome''
      else if ma_status a \<in> {Prepared, Dispatched} then ''in_progress'' else ''failed'')"

definition error_code_of :: "model_attempt_row \<Rightarrow> string option" where
  "error_code_of a = (case ma_error a of
     Some e \<Rightarrow> (case read e ''code'' of JStr c \<Rightarrow> Some c | _ \<Rightarrow> None) | None \<Rightarrow> None)"

definition result_of_attempt :: "model_attempt_row \<Rightarrow> string option \<Rightarrow> bool \<Rightarrow> call_result" where
  "result_of_attempt a code replayed =
     \<lparr>cl_call = Some (ma_call a), cl_attempt = Some (ma_id a), cl_outcome = outcome_of a,
      cl_validation = validation_name (ma_validation a), cl_candidate = ma_candidate_hash a,
      cl_response = ma_response_hash a, cl_error = (if code = None then error_code_of a else code),
      cl_replay = replayed\<rparr>"

definition plain_result :: "string option \<Rightarrow> string option \<Rightarrow> string \<Rightarrow> string \<Rightarrow> string \<Rightarrow> call_result" where
  "plain_result cid aid outcome validation code =
     \<lparr>cl_call = cid, cl_attempt = aid, cl_outcome = outcome, cl_validation = validation,
      cl_candidate = None, cl_response = None, cl_error = Some code, cl_replay = False\<rparr>"

text \<open>The field constraints of \<^verbatim>\<open>ModelCallResult\<close>; its construction raises where they fail.\<close>

definition optional_ok :: "('a \<Rightarrow> bool) \<Rightarrow> 'a option \<Rightarrow> bool" where
  "optional_ok p x = (case x of None \<Rightarrow> True | Some y \<Rightarrow> p y)"

definition result_ok :: "call_result \<Rightarrow> bool" where
  "result_ok r \<longleftrightarrow> optional_ok (\<lambda>s. char_count s \<le> 120) (cl_call r) \<and> optional_ok (\<lambda>s. char_count s \<le> 160) (cl_attempt r) \<and>
     optional_ok is_sha256 (cl_candidate r) \<and> optional_ok is_sha256 (cl_response r) \<and>
     optional_ok (\<lambda>s. char_count s \<le> 80 \<and> is_identifier s) (cl_error r)"

definition give :: "call_result \<Rightarrow> ('s, call_result) act" where
  "give r = (if result_ok r then act_return r else act_raise (OtherExc ''ValidationError'' []))"

section \<open>The run of a submission\<close>

record call_world =
  cw_db :: db
  cw_sent :: "(string \<times> dict) list"
  cw_tick :: nat

text \<open>
  \<open>cw_sent\<close> logs the requests given to the adapter, each with its call. \<open>ce_others\<close>: what others do to the
  database before the next call of the storage.
\<close>

record call_environment =
  ce_sha :: "json \<Rightarrow> string"
  ce_text :: "rat \<Rightarrow> string"
  ce_now :: "nat \<Rightarrow> string"
  ce_others :: "nat \<Rightarrow> db \<Rightarrow> db"
  ce_adapter :: "nat \<Rightarrow> dict \<Rightarrow> adapter_answer"

definition stored :: "call_environment \<Rightarrow> (nat \<Rightarrow> db \<Rightarrow> ('a \<times> db) result) \<Rightarrow> (call_world, 'a) act" where
  "stored en f w =
     (let t = cw_tick w; d = ce_others en t (cw_db w)
      in case f t d of
           Inl e \<Rightarrow> (Inl (exc_of e), w\<lparr>cw_db := d, cw_tick := t + 1\<rparr>)
         | Inr (x, d') \<Rightarrow> (Inr x, w\<lparr>cw_db := d', cw_tick := t + 1\<rparr>))"

definition send :: "call_environment \<Rightarrow> string \<Rightarrow> dict \<Rightarrow> (call_world, adapter_answer) act" where
  "send en cid r w =
     (Inr (ce_adapter en (cw_tick w) r), w\<lparr>cw_sent := cw_sent w @ [(cid, r)], cw_tick := cw_tick w + 1\<rparr>)"

text \<open>\<^verbatim>\<open>except (KeyError, ValueError, RuntimeError)\<close>\<close>

definition is_refusal :: "exc \<Rightarrow> bool" where
  "is_refusal e \<longleftrightarrow> is_value_error e \<or> exc_type e \<in> {''KeyError'', ''RuntimeError''}"

definition unless_refused :: "('s, 'a) act \<Rightarrow> ('s, 'a option) act" where
  "unless_refused m = act_try (act_bind m (\<lambda>x. act_return (Some x)))
     (\<lambda>e. if is_refusal e then act_return None else act_raise e)"

definition mark_unknown :: "call_environment \<Rightarrow> string \<Rightarrow> string \<Rightarrow> (call_world, call_result) act" where
  "mark_unknown en aid code =
     act_bind (unless_refused (stored en (\<lambda>t. mark_model_attempt_unknown (ce_text en) aid (Some [(''code'', JStr code)]))))
       (\<lambda>r. give (case r of
          None \<Rightarrow> plain_result None (Some aid) ''unknown_outcome'' ''pending'' ''UNKNOWN_OUTCOME''
        | Some a \<Rightarrow> result_of_attempt a (Some code) False))"

definition failed_usage :: "int \<Rightarrow> bool \<Rightarrow> model_tokens" where
  "failed_usage reservation conservative =
     (let n = if conservative then reservation else 0
      in \<lparr>mt_input = n, mt_output = 0, mt_total = n, mt_cost = 0\<rparr>)"

definition cost_json :: "model_tokens \<Rightarrow> dict" where
  "cost_json u = [(''cost_microunits'', JInt (mt_cost u))]"

definition record_failure ::
    "call_environment \<Rightarrow> string \<Rightarrow> string \<Rightarrow> model_tokens option \<Rightarrow> int \<Rightarrow> bool \<Rightarrow> (call_world, call_result) act" where
  "record_failure en aid code usage reservation conservative =
     (let u = (case usage of Some x \<Rightarrow> x | None \<Rightarrow> failed_usage reservation conservative)
      in act_bind (unless_refused (stored en (\<lambda>t. record_model_failure (ce_sha en) (ce_text en) aid
             [(''code'', JStr code)] (mt_input u) (mt_output u) (Some (tokens_json u)) (Some (cost_json u)))))
           (\<lambda>r. case r of
              None \<Rightarrow> mark_unknown en aid ''SETTLEMENT_UNKNOWN''
            | Some a \<Rightarrow> give (result_of_attempt a (Some code) False)))"

text \<open>The answer of the adapter, validated and settled.\<close>

definition settle_response ::
    "call_environment \<Rightarrow> submission \<Rightarrow> planning_request \<Rightarrow> string \<Rightarrow> model_response \<Rightarrow> planning_candidate \<Rightarrow>
     (call_world, call_result) act" where
  "settle_response en s rq aid rp c =
     act_bind (unless_refused (stored en (\<lambda>t. record_model_success (ce_sha en) (ce_text en) aid (sm_quest s)
         (pq_input_hash rq) (stable_hash (ce_sha en) (response_json rp)) (candidate_json c)
         (mt_input (mr_usage rp)) (mt_output (mr_usage rp)) (Some (tokens_json (mr_usage rp)))
         (Some (cost_json (mr_usage rp))) (sm_retain s))))
       (\<lambda>r. case r of
          None \<Rightarrow> mark_unknown en aid ''SETTLEMENT_UNKNOWN''
        | Some a \<Rightarrow> give (result_of_attempt a None False))"

definition handle_response ::
    "call_environment \<Rightarrow> submission \<Rightarrow> planning_request \<Rightarrow> string \<Rightarrow> json \<Rightarrow> (call_world, call_result) act" where
  "handle_response en s rq aid raw =
     (let fail = (\<lambda>code. record_failure en aid code (extract_valid_usage raw) (sm_reserved s) True)
      in case parse_response (ce_sha en) raw of
           None \<Rightarrow> fail ''INVALID_RESPONSE''
         | Some rp \<Rightarrow>
             if mr_request rp \<noteq> stable_hash (ce_sha en) (JObj (request_json rq)) then fail ''REQUEST_HASH_MISMATCH''
             else case validate_planning_candidate (ce_sha en) (ce_text en) (pq_tools rq) (mr_candidate rp) of
                    Inl e \<Rightarrow> fail ''CANDIDATE_REJECTED''
                  | Inr (c, h) \<Rightarrow>
                      if h \<noteq> mr_hash rp then fail ''CANDIDATE_HASH_MISMATCH'' else settle_response en s rq aid rp c)"

definition handle_answer ::
    "call_environment \<Rightarrow> submission \<Rightarrow> planning_request \<Rightarrow> string \<Rightarrow> adapter_answer \<Rightarrow> (call_world, call_result) act" where
  "handle_answer en s rq aid answer =
     (case answer of
        KnownFailure code \<Rightarrow>
          record_failure en aid (safe_adapter_code code ''KNOWN_FAILURE'') None (sm_reserved s) False
      | UnknownFailure code \<Rightarrow> mark_unknown en aid (safe_adapter_code code ''UNKNOWN_OUTCOME'')
      | OtherFailure \<Rightarrow> mark_unknown en aid ''UNKNOWN_OUTCOME''
      | Answer raw \<Rightarrow> handle_response en s rq aid raw)"

text \<open>A record without attempts, or without its winner, raises a \<^verbatim>\<open>ValueError\<close>.\<close>

definition record_attempt :: "call_view \<Rightarrow> ('s, model_attempt_row) act" where
  "record_attempt view =
     (case attempt_for_record view of
        None \<Rightarrow> act_raise (OtherExc ''ValueError'' ''model call record has no attempts'')
      | Some a \<Rightarrow> act_return a)"

definition replay_existing :: "call_environment \<Rightarrow> submission \<Rightarrow> string \<Rightarrow> call_view \<Rightarrow> (call_world, call_result) act" where
  "replay_existing en s cid view =
     (case attempt_for_record view of
        None \<Rightarrow> give (plain_result (Some cid) None ''invalid'' ''invalid'' ''DURABLE_RECORD_INVALID'')
      | Some a \<Rightarrow>
          let r = result_of_attempt a None True
          in if \<not> result_ok r
             then give (plain_result (Some cid) None ''invalid'' ''invalid'' ''DURABLE_RECORD_INVALID'')
             else if \<not> matches_existing (ce_sha en) s (fst view) a
             then give (plain_result (Some cid) None ''invalid'' ''conflict'' ''IDEMPOTENCY_CONFLICT'')
             else act_return r)"

definition budget_messages :: "string list" where
  "budget_messages = [''model token budget exceeded'', ''model cost per-call budget exceeded'',
     ''model cost total budget exceeded'', ''model cost account is breached'']"

definition prepare_refused :: "string \<Rightarrow> exc \<Rightarrow> call_result" where
  "prepare_refused cid e =
     (if is_value_error e \<and> exc_text e \<in> set budget_messages
      then plain_result (Some cid) None ''budget_rejected'' ''invalid'' ''BUDGET_REJECTED''
      else plain_result (Some cid) None ''invalid'' ''invalid'' ''PREPARE_REJECTED'')"

definition dispatch_request ::
    "call_environment \<Rightarrow> submission \<Rightarrow> string \<Rightarrow> call_view \<Rightarrow> model_attempt_row \<Rightarrow> planning_request \<Rightarrow>
     (call_world, call_result) act" where
  "dispatch_request en s cid prepared a rq =
     act_bind (unless_refused (stored en (\<lambda>t. mark_model_attempt_dispatched (ma_id a)))) (\<lambda>marked. case marked of
       None \<Rightarrow>
         act_bind (stored en (\<lambda>t d. Inr (get_model_call d cid, d))) (\<lambda>v.
         act_bind (record_attempt (case v of None \<Rightarrow> prepared | Some v' \<Rightarrow> v')) (\<lambda>a'.
         give (result_of_attempt a' None True)))
     | Some _ \<Rightarrow> act_bind (send en cid (request_json rq)) (handle_answer en s rq (ma_id a)))"

definition run_prepared ::
    "call_environment \<Rightarrow> submission \<Rightarrow> string \<Rightarrow> call_view \<Rightarrow> (call_world, call_result) act" where
  "run_prepared en s cid prepared =
     act_bind (record_attempt prepared) (\<lambda>a.
     if ma_status a \<noteq> Prepared then give (result_of_attempt a None True)
     else case request_from_durable_binding (fst prepared) a of
       None \<Rightarrow> record_failure en (ma_id a) ''DURABLE_PARAMETERS_INVALID'' None (ma_reserved a) False
     | Some rq \<Rightarrow> dispatch_request en s cid prepared a rq)"

definition coordinator_run :: "call_environment \<Rightarrow> submission \<Rightarrow> (call_world, call_result) act" where
  "coordinator_run en s =
     (if \<not> submission_ok s \<or> \<not> request_ok (request_for_submission (ce_sha en) s)
      then give (plain_result None None ''invalid'' ''invalid'' ''INVALID_REQUEST'')
      else let cid = call_id_of (ce_sha en) (sm_quest s) (sm_key s)
      in act_bind (stored en (\<lambda>t d. Inr (get_model_call d cid, d))) (\<lambda>existing. case existing of
           Some view \<Rightarrow> replay_existing en s cid view
         | None \<Rightarrow>
             act_bind (act_try (act_bind (stored en (\<lambda>t. prepare_model_call (ce_sha en) (ce_text en)
                   (journal_request (ce_sha en) s) (ce_now en t))) (\<lambda>v. act_return (Inr v)))
                 (\<lambda>e. if is_refusal e then act_return (Inl (prepare_refused cid e)) else act_raise e))
               (\<lambda>r. case r of Inl refused \<Rightarrow> give refused | Inr prepared \<Rightarrow> run_prepared en s cid prepared)))"

end
