(* ===== verification/Coordinator_Properties.thy ===== *)
theory Coordinator_Properties
  imports Coordinator Model_Properties
begin

text \<open>
  Properties of the coordinator of model calls, over every interleaving with the journal of model calls
  (locale \<open>coordinator\<close>): the adapter is called at most once for a call, what is reported as validated was
  validated, and a call that reached the adapter is settled.
\<close>

section \<open>Calls are never removed\<close>

definition call_ids :: "db \<Rightarrow> string set" where
  "call_ids d = mc_id ` set (model_calls d)"

lemma call_ids_cong: "model_calls d' = model_calls d \<Longrightarrow> call_ids d' = call_ids d"
  by (simp add: call_ids_def)

lemma update_where_ids: "(\<And>c. mc_id (f c) = mc_id c) \<Longrightarrow> mc_id ` set (update_where p f cs) = mc_id ` set cs"
  by (induction cs) auto

lemma set_call_ids: "(\<And>c. mc_id (f c) = mc_id c) \<Longrightarrow> call_ids (set_call p f d) = call_ids d"
  by (simp add: call_ids_def set_call_def update_where_ids)

lemma find_call_ids: "find_call d i \<noteq> None \<longleftrightarrow> i \<in> call_ids d"
proof -
  have "find_call d i = None \<longleftrightarrow> i \<notin> call_ids d"
    by (force simp: find_call_def call_ids_def select_one_None_iff)
  then show ?thesis by simp
qed

lemma get_model_call_ids: "get_model_call d i = None \<longleftrightarrow> i \<notin> call_ids d"
  using find_call_ids [of d i] by (cases "find_call d i") (simp_all add: get_model_call_def)

lemma reserve_optional_ids: "reserve_optional i q d = Inr d' \<Longrightarrow> call_ids d' = call_ids d"
  by (auto simp: reserve_optional_def call_ids_def dest: reserve_cost_tables split: option.splits)

lemma settle_ids:
  assumes "settle_model_attempt sha fl aid st d = Inr (a, d')"
  shows "call_ids d' = call_ids d"
  using assms
proof (cases rule: settle_cases)
  case (settled a call cand h v d2)
  have "call_ids d2 = call_ids d"
    using settle_cost_tables [OF settled(7)] by (simp add: call_ids_def set_attempt_def)
  then show ?thesis using settled(8) by (simp add: set_call_ids split: if_splits)
qed simp

lemma prepare_ids:
  assumes "prepare_model_call sha fl rq now d = Inr (v, d')"
  shows "call_ids d \<subseteq> call_ids d'"
  using assms
proof (cases rule: prepare_call_cases)
  case (fresh b parameters cost d1 d2)
  then have "call_ids d \<subseteq> call_ids d1" "call_ids d2 = call_ids d1"
    by (auto simp: insert_call_def insert_attempt_def call_ids_def split: if_splits)
  then show ?thesis using reserve_optional_ids [OF fresh(6)] by simp
qed simp

lemma retry_ids:
  assumes "retry_model_call sha fl cid aid token adapter model parameters reserved cost d = Inr (a, d')"
  shows "call_ids d' = call_ids d"
  using assms
proof (cases rule: retry_cases)
  case (1 call b clean cost' d1 d2)
  have "call_ids d1 = call_ids d" using 1 by (auto simp: insert_attempt_def call_ids_def split: if_splits)
  moreover have "call_ids d2 = call_ids d1" using reserve_optional_ids 1 by blast
  ultimately show ?thesis using 1 by (simp add: set_call_ids)
qed

lemma frame_ids [simp]:
  "call_ids (set_attempt i f d) = call_ids d" "call_ids (suspend_held p d) = call_ids d"
  "call_ids (release_held p d) = call_ids d" "call_ids (update_attempts st g d) = call_ids d"
  by (simp_all add: call_ids_def set_attempt_def suspend_held_def release_held_def update_attempts_def)

lemma recover_ids: "recover_model_calls d = (n, d') \<Longrightarrow> call_ids d' = call_ids d"
  unfolding recover_model_calls_def Let_def prod.inject
  by (elim conjE, hypsubst) (simp add: set_call_ids)

lemma dispatch_ids:
  assumes "mark_model_attempt_dispatched aid d = Inr (a, d')"
  shows "call_ids d' = call_ids d"
  using assms by (cases "find_attempt d aid") (auto simp: mark_model_attempt_dispatched_def set_call_ids split: if_splits)

lemma success_ids:
  assumes "record_model_success sha fl aid qid ih rh cand i n us co retain d = Inr (a, d')"
  shows "call_ids d' = call_ids d"
  using assms unfolding record_model_success_def result_simps by (elim exE conjE) (rule settle_ids)

lemma failure_ids:
  assumes "record_model_failure sha fl aid err i n us co d = Inr (a, d')"
  shows "call_ids d' = call_ids d"
  using assms unfolding record_model_failure_def by (rule settle_ids)

lemma unknown_ids:
  assumes "mark_model_attempt_unknown fl aid err d = Inr (a, d')"
  shows "call_ids d' = call_ids d"
  using assms by (cases "find_attempt d aid")
    (auto simp: mark_model_attempt_unknown_def result_simps Let_def set_call_ids split: if_splits)

lemma model_step_ids:
  assumes "model_step sha fl d d'"
  shows "call_ids d \<subseteq> call_ids d'"
  using assms
proof cases
  case (prepare rq now v)
  then show ?thesis by (rule prepare_ids)
next
  case (dispatch aid a)
  then show ?thesis using dispatch_ids by blast
next
  case (success aid qid ih rh cand i n us co retain a)
  then show ?thesis using success_ids by blast
next
  case (failure aid err i n us co a)
  then show ?thesis using failure_ids by blast
next
  case (unknown aid err' a)
  then show ?thesis using unknown_ids by blast
next
  case (retry cid aid token adapter model parameters reserved cost a)
  then show ?thesis using retry_ids by blast
next
  case (recover n)
  then show ?thesis using recover_ids by blast
next
  case other
  then show ?thesis using call_ids_cong by blast
qed

lemma model_steps_ids: "(model_step sha fl)\<^sup>*\<^sup>* d d' \<Longrightarrow> call_ids d \<subseteq> call_ids d'"
  by (induction rule: rtranclp_induct) (use model_step_ids in blast)+

text \<open>The call a preparation returns is in the journal, under the identifier of the request.\<close>

lemma replay_view:
  assumes "replay_prepared fl rq cost b existing d = Inr v"
  shows "mc_id existing = mq_call rq"
proof -
  have "existing\<lparr>mc_status := Prepared, mc_winner := None\<rparr> = call_of_request rq b (mc_created existing)"
    using assms by (auto simp: replay_prepared_def split: option.splits if_splits)
  then show ?thesis by (metis call_of_request_def model_call_row.select_convs(1) model_call_row.update_convs(17,18) model_call_row.surjective)
qed

lemma prepare_view:
  assumes "prepare_model_call sha fl rq now d = Inr (v, d')"
  shows "mq_call rq \<in> call_ids d'"
proof -
  have good: "\<not> bad_request rq" using assms by (auto simp: prepare_model_call_def split: if_splits)
  obtain x parameters cost b where pre: "require_model_hash (mq_input_hash rq) ''input hash'' = Inr x"
    "model_summary fl (mq_parameters rq) ''model parameters'' 8192 True = Inr parameters"
    "validate_optional (mq_cost rq) = Inr cost" "model_binding_of sha d (mq_quest rq) = Inr b"
    "\<not> (mq_expected rq \<noteq> None \<and> mq_expected rq \<noteq> Some (b_version b))"
    using assms good by (auto simp: prepare_model_call_def result_simps split: if_splits)
  show ?thesis
  proof (cases "select_one (\<lambda>c. mc_quest c = mq_quest rq \<and> mc_key c = mq_key rq) (model_calls d)")
    case (Some existing)
    then have "replay_prepared fl rq cost b existing d = Inr v" "d' = d"
      using assms good pre by (auto simp: prepare_model_call_def result_simps)
    then have "mc_id existing = mq_call rq" using replay_view by blast
    moreover have "existing \<in> set (model_calls d)" using select_one_Some_in [OF Some] by blast
    ultimately show ?thesis using \<open>d' = d\<close> by (metis call_ids_def imageI)
  next
    case None
    obtain s h where u: "model_usage d (mq_quest rq) = (s, h)" by fastforce
    have "get_model_call d' (mq_call rq) \<noteq> None"
      using assms good pre None u by (auto simp: prepare_model_call_def result_simps Let_def split: if_splits option.splits)
    then show ?thesis by (simp add: get_model_call_ids)
  qed
qed

section \<open>What a run does to the journal and to the adapter\<close>

text \<open>Others only move the journal by its own operations.\<close>

definition others_are_steps :: "call_environment \<Rightarrow> bool" where
  "others_are_steps en \<longleftrightarrow> (\<forall>t d. (model_step (ce_sha en) (ce_text en))\<^sup>*\<^sup>* d (ce_others en t d))"

definition model_moves :: "call_environment \<Rightarrow> db \<Rightarrow> db \<Rightarrow> bool" where
  "model_moves en d d' \<longleftrightarrow> (others_are_steps en \<longrightarrow> (model_step (ce_sha en) (ce_text en))\<^sup>*\<^sup>* d d')"

text \<open>Part of a run during which the adapter is not called.\<close>

definition calm :: "call_environment \<Rightarrow> call_world \<Rightarrow> call_world \<Rightarrow> bool" where
  "calm en w w' \<longleftrightarrow> cw_sent w' = cw_sent w \<and> model_moves en (cw_db w) (cw_db w')"

lemma model_moves_trans: "model_moves en d d1 \<Longrightarrow> model_moves en d1 d2 \<Longrightarrow> model_moves en d d2"
  by (auto simp: model_moves_def)

interpretation calm: action_relation "calm en" for en
  by unfold_locales (auto simp: calm_def intro: model_moves_trans, simp add: model_moves_def)

lemma model_step_refl: "model_step sha fl d d"
  by (rule model_step.other) simp_all

lemma calm_stored [intro]:
  assumes "\<And>t d x d'. f t d = Inr (x, d') \<Longrightarrow> model_step (ce_sha en) (ce_text en) d d'"
  shows "calm.keeps en (stored en f)"
proof (rule calm.keepsI)
  fix w :: call_world
  let ?t = "cw_tick w" and ?d = "ce_others en (cw_tick w) (cw_db w)"
  have others: "model_moves en (cw_db w) ?d" by (simp add: model_moves_def others_are_steps_def)
  show "calm en w (snd (stored en f w))"
  proof (cases "f ?t ?d")
    case (Inl e)
    then show ?thesis using others by (simp add: calm_def stored_def Let_def)
  next
    case (Inr y)
    obtain x d' where y: "y = (x, d')" by (cases y)
    have "model_moves en ?d d'" using assms Inr y by (auto simp: model_moves_def)
    then show ?thesis using others Inr y by (auto simp: calm_def stored_def Let_def intro: model_moves_trans)
  qed
qed

lemma calm_give [intro]: "calm.keeps en (give r)"
  by (simp add: give_def calm.keeps_return calm.keeps_raise)

lemma calm_unless_refused [intro]: "calm.keeps en m \<Longrightarrow> calm.keeps en (unless_refused m)"
  unfolding unless_refused_def by (intro calm.keeps_intros)

lemma calm_mark_unknown [intro]: "calm.keeps en (mark_unknown en aid code)"
  unfolding mark_unknown_def
  by (intro calm.keeps_bind calm_unless_refused calm_stored calm_give) (rule model_step.unknown)

lemma calm_record_failure [intro]: "calm.keeps en (record_failure en aid code usage n conservative)"
  unfolding record_failure_def Let_def
  by (intro calm.keeps_bind calm.keeps_option calm_unless_refused calm_stored calm_give calm_mark_unknown)
    (rule model_step.failure)

lemma calm_settle_response [intro]: "calm.keeps en (settle_response en s rq aid rp c)"
  unfolding settle_response_def
  by (intro calm.keeps_bind calm.keeps_option calm_unless_refused calm_stored calm_give calm_mark_unknown)
    (rule model_step.success)

lemma calm_handle_answer [intro]: "calm.keeps en (handle_answer en s rq aid answer)"
  by (auto simp: handle_answer_def handle_response_def Let_def split: adapter_answer.split option.split sum.split)

lemma calm_record_attempt [intro]: "calm.keeps en (record_attempt view)"
  unfolding record_attempt_def by (intro calm.keeps_intros)

lemma calm_replay [intro]: "calm.keeps en (replay_existing en s cid view)"
  unfolding replay_existing_def Let_def by (intro calm.keeps_intros calm_give)

lemma calm_read: "calm.keeps en (stored en (\<lambda>t d. Inr (g t d, d)))"
  by (rule calm_stored) (auto intro: model_step_refl)

text \<open>Part of a run during which the adapter is called at most once.\<close>

definition asks :: "call_environment \<Rightarrow> string \<Rightarrow> call_world \<Rightarrow> call_world \<Rightarrow> bool" where
  "asks en cid w w' \<longleftrightarrow> model_moves en (cw_db w) (cw_db w') \<and>
     (cw_sent w' = cw_sent w \<or> (\<exists>rq. cw_sent w' = cw_sent w @ [(cid, request_json rq)]))"

lemma asks_calm: "calm en w w' \<Longrightarrow> asks en cid w w'"
  by (simp add: asks_def calm_def)

lemma calm_asks: "calm en w w1 \<Longrightarrow> asks en cid w1 w' \<Longrightarrow> asks en cid w w'"
  by (auto simp: asks_def calm_def intro: model_moves_trans)

lemma asks_bind:
  assumes "calm.keeps en m" and "\<And>x w. asks en cid w (snd (f x w))"
  shows "asks en cid w (snd (act_bind m f w))"
proof -
  obtain r w1 where m: "m w = (r, w1)" by (cases "m w")
  have "calm en w w1" using calm.keepsD [OF assms(1) m] .
  then show ?thesis using assms(2) calm_asks asks_calm by (cases r) (auto simp: act_bind_def m)
qed

lemma asks_keeps: "calm.keeps en m \<Longrightarrow> asks en cid w (snd (m w))"
  by (simp add: calm.keeps_def asks_calm)

lemma dispatch_asks: "asks en cid w (snd (dispatch_request en s cid prepared a rq w))"
  unfolding dispatch_request_def
proof (intro asks_bind calm_unless_refused calm_stored)
  fix t d x d'
  assume "mark_model_attempt_dispatched (ma_id a) d = Inr (x, d')"
  then show "model_step (ce_sha en) (ce_text en) d d'" by (rule model_step.dispatch)
next
  fix x :: "model_attempt_row option" and w :: call_world
  show "asks en cid w (snd ((case x of
       None \<Rightarrow>
         act_bind (stored en (\<lambda>t d. Inr (get_model_call d cid, d))) (\<lambda>v.
         act_bind (record_attempt (case v of None \<Rightarrow> prepared | Some v' \<Rightarrow> v')) (\<lambda>a'.
         give (result_of_attempt a' None True)))
     | Some _ \<Rightarrow> act_bind (send en cid (request_json rq)) (handle_answer en s rq (ma_id a))) w))"
  proof (cases x)
    case None
    then show ?thesis
      by (auto intro!: asks_keeps calm.keeps_bind calm_read)
  next
    case (Some y)
    let ?w = "w\<lparr>cw_sent := cw_sent w @ [(cid, request_json rq)], cw_tick := cw_tick w + 1\<rparr>"
    have "calm en ?w (snd (handle_answer en s rq (ma_id a) (ce_adapter en (cw_tick w) (request_json rq)) ?w))"
      using calm_handle_answer by (simp add: calm.keeps_def)
    then show ?thesis using Some by (auto simp: act_bind_def send_def asks_def calm_def)
  qed
qed

lemma prepared_asks: "asks en cid w (snd (run_prepared en s cid prepared w))"
  unfolding run_prepared_def
  by (intro asks_bind calm_record_attempt)
    (auto intro: asks_keeps dispatch_asks split: option.split)

lemma moves_ids: "model_moves en d d' \<Longrightarrow> others_are_steps en \<Longrightarrow> call_ids d \<subseteq> call_ids d'"
  by (simp add: model_moves_def model_steps_ids)

lemma calm_ids: "calm en w w' \<Longrightarrow> others_are_steps en \<Longrightarrow> call_ids (cw_db w) \<subseteq> call_ids (cw_db w')"
  unfolding calm_def by (blast dest: moves_ids)

text \<open>A call is made for an identifier that was not in the journal before and is in it afterwards.\<close>

lemma run_sends:
  assumes others: "others_are_steps en" and run: "coordinator_run en s w = (r, w')"
  shows "(model_step (ce_sha en) (ce_text en))\<^sup>*\<^sup>* (cw_db w) (cw_db w') \<and>
    (cw_sent w' = cw_sent w \<or>
     (\<exists>cid rq. cw_sent w' = cw_sent w @ [(cid, request_json rq)] \<and>
        cid \<notin> call_ids (cw_db w) \<and> cid \<in> call_ids (cw_db w')))"
proof (cases "\<not> submission_ok s \<or> \<not> request_ok (request_for_submission (ce_sha en) s)")
  case True
  then have "calm en w w'" using run calm.keepsD [OF calm_give] unfolding coordinator_run_def by auto
  then show ?thesis using others by (simp add: calm_def model_moves_def)
next
  case False
  let ?cid = "call_id_of (ce_sha en) (sm_quest s) (sm_key s)"
  let ?look = "\<lambda>t d. Inr (get_model_call d ?cid, d)"
  let ?prepare = "\<lambda>t. prepare_model_call (ce_sha en) (ce_text en) (journal_request (ce_sha en) s) (ce_now en t)"
  let ?guard = "act_try (act_bind (stored en ?prepare) (\<lambda>v. act_return (Inr v)))
    (\<lambda>e. if is_refusal e then act_return (Inl (prepare_refused ?cid e)) else act_raise e)"
  define d0 where "d0 = ce_others en (cw_tick w) (cw_db w)"
  define w0 where "w0 = w\<lparr>cw_db := d0, cw_tick := cw_tick w + 1\<rparr>"
  have look: "stored en ?look w = (Inr (get_model_call d0 ?cid), w0)"
    by (simp add: stored_def w0_def d0_def Let_def)
  have c0: "calm en w w0" by (rule calm.keepsD [OF calm_read look])
  have rest: "(case get_model_call d0 ?cid of
       Some view \<Rightarrow> replay_existing en s ?cid view
     | None \<Rightarrow> act_bind ?guard (\<lambda>r. case r of Inl refused \<Rightarrow> give refused | Inr prepared \<Rightarrow> run_prepared en s ?cid prepared))
     w0 = (r, w')"
    using run False look by (simp add: coordinator_run_def Let_def act_bind_def)
  show ?thesis
  proof (cases "get_model_call d0 ?cid")
    case (Some view)
    then have "calm en w0 w'" using rest calm.keepsD [OF calm_replay] by simp
    then have "calm en w w'" by (rule calm.R_trans [OF c0])
    then show ?thesis using others by (simp add: calm_def model_moves_def)
  next
    case None
    obtain g w1 where g: "?guard w0 = (g, w1)" by (cases "?guard w0")
    have "calm.keeps en ?guard"
      by (intro calm.keeps_intros calm_stored) (rule model_step.prepare)
    then have c1: "calm en w0 w1" using g by (rule calm.keepsD)
    have fresh: "?cid \<notin> call_ids (cw_db w)"
      using None calm_ids [OF c0 others] by (auto simp: get_model_call_ids w0_def)
    show ?thesis
    proof (cases "\<exists>prepared. g = Inr (Inr prepared)")
      case False
      then have "calm en w1 w'" using rest None g calm.keepsD [OF calm_give]
        by (auto simp: act_bind_def calm.R_refl split: sum.splits)
      then have "calm en w w'" using c0 c1 calm.R_trans by blast
      then show ?thesis using others by (simp add: calm_def model_moves_def)
    next
      case True
      then obtain prepared where p: "g = Inr (Inr prepared)" by blast
      then have "run_prepared en s ?cid prepared w1 = (r, w')" using rest None g by (simp add: act_bind_def)
      then have a: "asks en ?cid w1 w'" using prepared_asks by (metis snd_conv)
      have "stored en ?prepare w0 = (Inr prepared, w1)"
        using g p by (auto simp: act_try_def act_bind_def act_return_def act_raise_def split: prod.splits sum.splits if_splits)
      then have "?cid \<in> call_ids (cw_db w1)"
        using prepare_view by (force simp: stored_def Let_def journal_request_def split: sum.splits prod.splits)
      then have known: "?cid \<in> call_ids (cw_db w')" using a moves_ids [OF _ others] by (auto simp: asks_def)
      have "asks en ?cid w w'" using a c0 c1 calm_asks by blast
      then show ?thesis using others fresh known by (auto simp: asks_def model_moves_def)
    qed
  qed
qed

section \<open>Histories of runs\<close>

text \<open>
  Runs of one coordinator, in the order its lock admits them, among steps of others on the journal. The
  answers of the adapter and the steps of others during a run may differ from run to run.
\<close>

inductive coordinator_history :: "(json \<Rightarrow> string) \<Rightarrow> (rat \<Rightarrow> string) \<Rightarrow> call_world \<Rightarrow> bool" for sha fl where
  start: "model_reachable sha fl (cw_db w) \<Longrightarrow> cw_sent w = [] \<Longrightarrow> coordinator_history sha fl w"
| run: "coordinator_history sha fl w \<Longrightarrow> ce_sha en = sha \<Longrightarrow> ce_text en = fl \<Longrightarrow> others_are_steps en \<Longrightarrow>
    coordinator_run en s w = (r, w') \<Longrightarrow> coordinator_history sha fl w'"
| between: "coordinator_history sha fl w \<Longrightarrow> model_step sha fl (cw_db w) d \<Longrightarrow>
    coordinator_history sha fl (w\<lparr>cw_db := d\<rparr>)"

lemma history_invariant:
  "coordinator_history sha fl w \<Longrightarrow>
     distinct (map fst (cw_sent w)) \<and> fst ` set (cw_sent w) \<subseteq> call_ids (cw_db w)"
proof (induction rule: coordinator_history.induct)
  case (run w en s r w')
  have "call_ids (cw_db w) \<subseteq> call_ids (cw_db w')"
    using run_sends [OF run(4,5)] model_steps_ids by blast
  then have old: "cid \<in> call_ids (cw_db w')" if "cid \<in> fst ` set (cw_sent w)" for cid
    using run.IH that by blast
  from run_sends [OF run(4,5)] consider "cw_sent w' = cw_sent w"
    | cid rq where "cw_sent w' = cw_sent w @ [(cid, request_json rq)]" "cid \<notin> call_ids (cw_db w)"
        "cid \<in> call_ids (cw_db w')" by blast
  then show ?case
  proof cases
    case 1
    then show ?thesis using run.IH old by (simp add: subset_iff)
  next
    case 2
    then have "cid \<notin> fst ` set (cw_sent w)" using run.IH by blast
    then show ?thesis using 2 run.IH old by (simp add: subset_iff)
  qed
next
  case (between w d)
  then show ?case using model_step_ids by fastforce
qed simp

lemma history_reachable: "coordinator_history sha fl w \<Longrightarrow> model_reachable sha fl (cw_db w)"
proof (induction rule: coordinator_history.induct)
  case (run w en s r w')
  have "(model_step sha fl)\<^sup>*\<^sup>* (cw_db w) (cw_db w')" using run_sends [OF run(4,5)] run(2,3) by simp
  then show ?case using run.IH by (induction rule: rtranclp_induct) (auto intro: model_reachable.step)
qed (auto intro: model_reachable.step)

text \<open>
  Claim C12. The adapter is called at most once for a call: in every history of runs of a coordinator,
  with others changing the journal of model calls between and during the runs, no two requests that
  went out are for the same call, and every call that went out is in the journal.
\<close>

theorem adapter_called_once:
  assumes "coordinator_history sha fl w"
  shows "distinct (map fst (cw_sent w)) \<and>
    (\<forall>cid. cid \<in> fst ` set (cw_sent w) \<longrightarrow> get_model_call (cw_db w) cid \<noteq> None)"
  using history_invariant [OF assms] by (auto simp: get_model_call_ids)

section \<open>Validated results\<close>

lemma failure_not_current:
  assumes "record_model_failure sha fl aid err i n us co d = Inr (a, d')"
  shows "ma_validation a \<noteq> VCurrent"
  using assms unfolding record_model_failure_def
  by (cases rule: settle_cases) (auto simp: final_validation_def settled_row_def)

lemma unknown_not_current:
  assumes "calls_ok d" and "mark_model_attempt_unknown fl aid err d = Inr (a, d')"
  shows "ma_validation a \<noteq> VCurrent"
proof -
  obtain b where f: "find_attempt d aid = Some b"
    using assms(2) by (cases "find_attempt d aid") (simp_all add: mark_model_attempt_unknown_def)
  have "ma_status b = UnknownOutcome \<and> a = b \<or> ma_status b = Dispatched \<and> ma_validation a = ma_validation b"
  proof (cases "ma_status b = UnknownOutcome \<or> ma_status b \<noteq> Dispatched")
    case True
    then show ?thesis using assms(2) f by (simp add: mark_model_attempt_unknown_def split: if_splits)
  next
    case False
    let ?err = "optional_summary fl (case err of Some e \<Rightarrow> if e = [] then None else Some e | None \<Rightarrow> None) ''model error''"
    obtain clean where "?err = Inr clean"
      using assms(2) f False by (cases ?err) (simp_all add: mark_model_attempt_unknown_def)
    then have "a = b\<lparr>ma_status := UnknownOutcome, ma_error := clean\<rparr>"
      using assms(2) f False by (simp add: mark_model_attempt_unknown_def Let_def)
    then show ?thesis using False by auto
  qed
  then have b: "find_attempt d aid = Some b" "ma_status b \<in> {Dispatched, UnknownOutcome}"
    "ma_validation a = ma_validation b" using f by auto
  have "attempt_ok d b" using calls_okD(1) [OF assms(1)] find_attempt_in [OF b(1)] by blast
  then have "ma_validation b = VPending" using b(2) unfolding attempt_ok_def by blast
  then show ?thesis using b(3) by simp
qed

lemma success_response:
  assumes "record_model_success sha fl aid qid ih rh cand i n us co retain d = Inr (a, d')"
  shows "ma_response_hash a = Some rh"
  using assms unfolding record_model_success_def result_simps
proof (elim exE conjE)
  assume "settle_model_attempt sha fl aid
       \<lparr>st_status = Succeeded, st_validation = VPending, st_response = Some rh,
        st_candidate = Some cand, st_input = i, st_output = n, st_usage = us,
        st_cost = co, st_error = None, st_current = True, st_quest = Some qid,
        st_input_hash = Some ih, st_retain = retain\<rparr> d = Inr (a, d')"
  then show ?thesis by (cases rule: settle_cases) (simp_all add: settled_row_def)
qed

text \<open>The journal stays well formed during a run.\<close>

lemma model_steps_ok:
  "(model_step sha fl)\<^sup>*\<^sup>* d d' \<Longrightarrow> calls_ok d \<and> cost_ok d \<Longrightarrow> calls_ok d' \<and> cost_ok d'"
  by (induction rule: rtranclp_induct) (simp, metis model_step_ok)

lemma moves_ok:
  "model_moves en d d' \<Longrightarrow> others_are_steps en \<Longrightarrow> calls_ok d \<and> cost_ok d \<Longrightarrow> calls_ok d' \<and> cost_ok d'"
  unfolding model_moves_def using model_steps_ok by blast

lemma give_Inr: "give r w = (Inr r', w') \<longleftrightarrow> r' = r \<and> w' = w \<and> result_ok r"
  by (auto simp: give_def act_return_def act_raise_def)

lemma unless_refused_Inr:
  "unless_refused m w = (Inr x, w') \<longleftrightarrow>
     (case x of None \<Rightarrow> \<exists>e. m w = (Inl e, w') \<and> is_refusal e | Some y \<Rightarrow> m w = (Inr y, w'))"
  by (auto simp: unless_refused_def act_try_def act_bind_def act_return_def act_raise_def
      split: prod.splits sum.splits option.splits if_splits)

lemma stored_Inr:
  assumes "stored en f w = (Inr x, w')"
  shows "f (cw_tick w) (ce_others en (cw_tick w) (cw_db w)) = Inr (x, cw_db w')"
  using assms by (auto simp: stored_def Let_def split: sum.splits prod.splits)

definition ready :: "call_environment \<Rightarrow> call_world \<Rightarrow> bool" where
  "ready en w \<longleftrightarrow> others_are_steps en \<and> calls_ok (cw_db w) \<and> cost_ok (cw_db w)"

lemma ready_calm: "ready en w \<Longrightarrow> calm en w w' \<Longrightarrow> ready en w'"
  using moves_ok by (auto simp: ready_def calm_def)

lemma mark_unknown_outcome:
  assumes "ready en w" and "mark_unknown en aid code w = (Inr r, w')"
  shows "cl_outcome r \<noteq> ''validated_current''"
proof -
  obtain x w1 where x: "unless_refused (stored en (\<lambda>t. mark_model_attempt_unknown (ce_text en) aid (Some [(''code'', JStr code)]))) w = (Inr x, w1)"
    and r: "r = (case x of None \<Rightarrow> plain_result None (Some aid) ''unknown_outcome'' ''pending'' ''UNKNOWN_OUTCOME''
        | Some a \<Rightarrow> result_of_attempt a (Some code) False)"
    using assms(2) by (auto simp: mark_unknown_def act_bind_Inr_iff give_Inr)
  show ?thesis
  proof (cases x)
    case (Some a)
    have "model_moves en (cw_db w) (ce_others en (cw_tick w) (cw_db w))"
      by (simp add: model_moves_def others_are_steps_def)
    then have "calls_ok (ce_others en (cw_tick w) (cw_db w))"
      using assms(1) moves_ok unfolding ready_def by blast
    moreover have "mark_model_attempt_unknown (ce_text en) aid (Some [(''code'', JStr code)])
        (ce_others en (cw_tick w) (cw_db w)) = Inr (a, cw_db w1)"
      using x Some by (simp add: unless_refused_Inr) (rule stored_Inr)
    ultimately have "ma_validation a \<noteq> VCurrent" by (rule unknown_not_current)
    then show ?thesis by (simp add: r Some result_of_attempt_def outcome_of_def)
  qed (simp add: r plain_result_def)
qed

lemma record_failure_outcome:
  assumes "ready en w" and "record_failure en aid code usage n conservative w = (Inr r, w')"
  shows "cl_outcome r \<noteq> ''validated_current''"
proof -
  define m where "m = (let u = (case usage of Some x \<Rightarrow> x | None \<Rightarrow> failed_usage n conservative)
    in unless_refused (stored en (\<lambda>t. record_model_failure (ce_sha en) (ce_text en) aid
         [(''code'', JStr code)] (mt_input u) (mt_output u) (Some (tokens_json u)) (Some (cost_json u)))))"
  obtain x w1 where x: "m w = (Inr x, w1)"
    and rest: "(case x of None \<Rightarrow> mark_unknown en aid ''SETTLEMENT_UNKNOWN''
        | Some a \<Rightarrow> give (result_of_attempt a (Some code) False)) w1 = (Inr r, w')"
    using assms(2) by (auto simp: record_failure_def Let_def act_bind_Inr_iff m_def)
  have "calm.keeps en m"
    unfolding m_def Let_def by (intro calm_unless_refused calm_stored) (rule model_step.failure)
  then have w1: "ready en w1" using calm.keepsD x ready_calm [OF assms(1)] by blast
  show ?thesis
  proof (cases x)
    case None
    then show ?thesis using mark_unknown_outcome [OF w1] rest by simp
  next
    case (Some a)
    then have "ma_validation a \<noteq> VCurrent"
      using x by (simp add: m_def Let_def unless_refused_Inr) (drule stored_Inr, erule failure_not_current)
    then show ?thesis using rest Some by (auto simp: give_Inr result_of_attempt_def outcome_of_def)
  qed
qed

lemma settle_response_outcome:
  assumes "ready en w" and "settle_response en s rq aid rp c w = (Inr r, w')"
    and "cl_outcome r = ''validated_current''"
  shows "cl_response r = Some (stable_hash (ce_sha en) (response_json rp))"
proof -
  define m where "m = unless_refused (stored en (\<lambda>t. record_model_success (ce_sha en) (ce_text en) aid (sm_quest s)
         (pq_input_hash rq) (stable_hash (ce_sha en) (response_json rp)) (candidate_json c)
         (mt_input (mr_usage rp)) (mt_output (mr_usage rp)) (Some (tokens_json (mr_usage rp)))
         (Some (cost_json (mr_usage rp))) (sm_retain s)))"
  obtain x w1 where x: "m w = (Inr x, w1)"
    and rest: "(case x of None \<Rightarrow> mark_unknown en aid ''SETTLEMENT_UNKNOWN''
        | Some a \<Rightarrow> give (result_of_attempt a None False)) w1 = (Inr r, w')"
    using assms(2) by (auto simp: settle_response_def act_bind_Inr_iff m_def)
  have "calm.keeps en m"
    unfolding m_def by (intro calm_unless_refused calm_stored) (rule model_step.success)
  then have w1: "ready en w1" using calm.keepsD x ready_calm [OF assms(1)] by blast
  show ?thesis
  proof (cases x)
    case None
    then show ?thesis using mark_unknown_outcome [OF w1] rest assms(3) by simp
  next
    case (Some a)
    then have "ma_response_hash a = Some (stable_hash (ce_sha en) (response_json rp))"
      using x by (simp add: m_def unless_refused_Inr) (drule stored_Inr, erule success_response)
    then show ?thesis using rest Some by (auto simp: give_Inr result_of_attempt_def)
  qed
qed

text \<open>What the adapter answered for a result that counts as validated.\<close>

definition validated_answer ::
    "call_environment \<Rightarrow> planning_request \<Rightarrow> adapter_answer \<Rightarrow> call_result \<Rightarrow> bool" where
  "validated_answer en rq answer r \<longleftrightarrow>
     (\<exists>raw rp c. answer = Answer raw \<and> parse_response (ce_sha en) raw = Some rp \<and>
        mr_request rp = stable_hash (ce_sha en) (JObj (request_json rq)) \<and>
        validate_planning_candidate (ce_sha en) (ce_text en) (pq_tools rq) (mr_candidate rp) = Inr (c, mr_hash rp) \<and>
        cl_response r = Some (stable_hash (ce_sha en) (response_json rp)))"

lemma handle_answer_outcome:
  assumes "ready en w" and "handle_answer en s rq aid answer w = (Inr r, w')"
    and "cl_outcome r = ''validated_current''"
  shows "validated_answer en rq answer r"
proof (cases answer)
  case (Answer raw)
  then have h: "handle_response en s rq aid raw w = (Inr r, w')" using assms(2) by (simp add: handle_answer_def)
  have no: "\<And>code usage n cons. record_failure en aid code usage n cons w \<noteq> (Inr r, w')"
    using record_failure_outcome [OF assms(1)] assms(3) by blast
  obtain rp where rp: "parse_response (ce_sha en) raw = Some rp"
    using h no by (cases "parse_response (ce_sha en) raw") (auto simp: handle_response_def Let_def)
  have hash: "mr_request rp = stable_hash (ce_sha en) (JObj (request_json rq))"
    using h no rp by (auto simp: handle_response_def Let_def split: if_splits)
  obtain c ch where c: "validate_planning_candidate (ce_sha en) (ce_text en) (pq_tools rq) (mr_candidate rp) = Inr (c, ch)"
    using h no rp hash
    by (cases "validate_planning_candidate (ce_sha en) (ce_text en) (pq_tools rq) (mr_candidate rp)")
      (auto simp: handle_response_def Let_def)
  have ch: "ch = mr_hash rp"
    using h no rp hash c by (auto simp: handle_response_def Let_def split: if_splits)
  have "settle_response en s rq aid rp c w = (Inr r, w')"
    using h rp hash c ch by (simp add: handle_response_def Let_def)
  then have "cl_response r = Some (stable_hash (ce_sha en) (response_json rp))"
    by (rule settle_response_outcome [OF assms(1) _ assms(3)])
  then show ?thesis using Answer rp hash c ch by (auto simp: validated_answer_def)
qed (use assms record_failure_outcome mark_unknown_outcome in \<open>fastforce simp: handle_answer_def\<close>)+

lemma dispatch_outcome:
  assumes "ready en w" and "dispatch_request en s cid prepared a rq w = (Inr r, w')"
    and "cl_outcome r = ''validated_current''" and "\<not> cl_replay r"
  shows "\<exists>t. cw_sent w' = cw_sent w @ [(cid, request_json rq)] \<and>
    validated_answer en rq (ce_adapter en t (request_json rq)) r"
proof -
  let ?mark = "unless_refused (stored en (\<lambda>t. mark_model_attempt_dispatched (ma_id a)))"
  obtain x w1 where x: "?mark w = (Inr x, w1)"
    and rest: "(case x of
       None \<Rightarrow>
         act_bind (stored en (\<lambda>t d. Inr (get_model_call d cid, d))) (\<lambda>v.
         act_bind (record_attempt (case v of None \<Rightarrow> prepared | Some v' \<Rightarrow> v')) (\<lambda>a'.
         give (result_of_attempt a' None True)))
     | Some _ \<Rightarrow> act_bind (send en cid (request_json rq)) (handle_answer en s rq (ma_id a))) w1 = (Inr r, w')"
    using assms(2) by (auto simp: dispatch_request_def act_bind_Inr_iff)
  have "calm.keeps en ?mark" by (intro calm_unless_refused calm_stored) (rule model_step.dispatch)
  then have c: "calm en w w1" using x by (rule calm.keepsD)
  have "x \<noteq> None"
    using rest assms(4) by (cases x) (auto simp: act_bind_Inr_iff give_Inr result_of_attempt_def)
  then have h: "handle_answer en s rq (ma_id a) (ce_adapter en (cw_tick w1) (request_json rq))
      (w1\<lparr>cw_sent := cw_sent w1 @ [(cid, request_json rq)], cw_tick := cw_tick w1 + 1\<rparr>) = (Inr r, w')"
    using rest by (auto simp: act_bind_def send_def)
  have "ready en (w1\<lparr>cw_sent := cw_sent w1 @ [(cid, request_json rq)], cw_tick := cw_tick w1 + 1\<rparr>)"
    using ready_calm [OF assms(1) c] by (simp add: ready_def)
  note handle_answer_outcome [OF this h assms(3)]
  moreover have "cw_sent w' = cw_sent w1 @ [(cid, request_json rq)]"
    using calm.keepsD [OF calm_handle_answer h] by (simp add: calm_def)
  ultimately show ?thesis using c by (auto simp: calm_def)
qed

lemma prepared_outcome:
  assumes "ready en w" and "run_prepared en s cid prepared w = (Inr r, w')"
    and "cl_outcome r = ''validated_current''" and "\<not> cl_replay r"
  shows "\<exists>t rq. cw_sent w' = cw_sent w @ [(cid, request_json rq)] \<and>
    validated_answer en rq (ce_adapter en t (request_json rq)) r"
proof -
  obtain a where a: "attempt_for_record prepared = Some a"
    using assms(2) by (cases "attempt_for_record prepared")
      (auto simp: run_prepared_def record_attempt_def act_raise_def)
  have p: "ma_status a = Prepared"
    using assms(2,4) a by (auto simp: run_prepared_def record_attempt_def give_Inr result_of_attempt_def split: if_splits)
  obtain rq where rq: "request_from_durable_binding (fst prepared) a = Some rq"
    using assms(2,3) a p record_failure_outcome [OF assms(1)]
    by (cases "request_from_durable_binding (fst prepared) a") (auto simp: run_prepared_def record_attempt_def)
  then have "dispatch_request en s cid prepared a rq w = (Inr r, w')"
    using assms(2) a p by (simp add: run_prepared_def record_attempt_def)
  then show ?thesis using dispatch_outcome [OF assms(1) _ assms(3,4)] by blast
qed

text \<open>
  Claim C13. What a run reports as validated was validated: when a run that is not a replay returns the outcome
  \<open>validated_current\<close>, it sent exactly one request, and the answer to that request had the hash of that
  request, parsed as a response, passed the validation of its candidate with the candidate's own hash
  against the tools the request allowed, and is the response named by the result; whatever others did
  to the journal meanwhile.
\<close>

theorem validated_result_was_validated:
  assumes "model_reachable (ce_sha en) (ce_text en) (cw_db w)" and "others_are_steps en"
    and "coordinator_run en s w = (Inr r, w')"
    and "cl_outcome r = ''validated_current''" and "\<not> cl_replay r"
  shows "\<exists>cid t rq raw rp c. cw_sent w' = cw_sent w @ [(cid, request_json rq)] \<and>
    ce_adapter en t (request_json rq) = Answer raw \<and> parse_response (ce_sha en) raw = Some rp \<and>
    mr_request rp = stable_hash (ce_sha en) (JObj (request_json rq)) \<and>
    validate_planning_candidate (ce_sha en) (ce_text en) (pq_tools rq) (mr_candidate rp) = Inr (c, mr_hash rp) \<and>
    cl_response r = Some (stable_hash (ce_sha en) (response_json rp))"
proof -
  let ?cid = "call_id_of (ce_sha en) (sm_quest s) (sm_key s)"
  let ?look = "stored en (\<lambda>t d. Inr (get_model_call d ?cid, d)) :: (call_world, call_view option) act"
  let ?guard = "act_try (act_bind (stored en (\<lambda>t. prepare_model_call (ce_sha en) (ce_text en)
      (journal_request (ce_sha en) s) (ce_now en t))) (\<lambda>v. act_return (Inr v)))
    (\<lambda>e. if is_refusal e then act_return (Inl (prepare_refused ?cid e)) else act_raise e)"
  have fails: "cl_outcome r' \<noteq> ''validated_current'' \<or> cl_replay r'"
    if "replay_existing en s ?cid view w1 = (Inr r', w2)" for view w1 w2 r'
    using that by (auto simp: replay_existing_def Let_def give_Inr plain_result_def result_of_attempt_def
        split: option.splits if_splits)
  have refused: "cl_outcome (prepare_refused ?cid e) \<noteq> ''validated_current''" for e
    by (simp add: prepare_refused_def plain_result_def)
  have ok: "ready en w" using assms(1,2) model_reachable_ok by (simp add: ready_def)
  have "submission_ok s \<and> request_ok (request_for_submission (ce_sha en) s)"
    using assms(3,4) by (auto simp: coordinator_run_def give_Inr plain_result_def split: if_splits)
  then obtain view w0 where look: "?look w = (Inr view, w0)"
    and rest: "(case view of Some v \<Rightarrow> replay_existing en s ?cid v
      | None \<Rightarrow> act_bind ?guard (\<lambda>r. case r of Inl refused \<Rightarrow> give refused | Inr prepared \<Rightarrow> run_prepared en s ?cid prepared))
      w0 = (Inr r, w')"
    using assms(3) by (auto simp: coordinator_run_def Let_def act_bind_Inr_iff)
  have c0: "calm en w w0" by (rule calm.keepsD [OF calm_read look])
  have none: "view = None" using rest fails assms(4,5) by (cases view) auto
  then obtain g w1 where g: "?guard w0 = (Inr g, w1)"
    and more: "(case g of Inl refused \<Rightarrow> give refused | Inr prepared \<Rightarrow> run_prepared en s ?cid prepared) w1 = (Inr r, w')"
    using rest by (auto simp: act_bind_Inr_iff)
  have "calm.keeps en ?guard"
    by (intro calm.keeps_intros calm_stored) (rule model_step.prepare)
  then have "calm en w0 w1" using g by (rule calm.keepsD)
  with c0 have c1: "calm en w w1" by (rule calm.R_trans)
  have "\<exists>refused. r = refused \<and> g = Inl refused \<Longrightarrow> cl_outcome r \<noteq> ''validated_current''"
    using g refused
    by (auto simp: act_try_def act_bind_def act_return_def act_raise_def split: prod.splits sum.splits if_splits)
  then obtain prepared where "run_prepared en s ?cid prepared w1 = (Inr r, w')"
    using more assms(4) by (cases g) (auto simp: give_Inr)
  from prepared_outcome [OF ready_calm [OF ok c1] this assms(4,5)] c1
  show ?thesis unfolding validated_answer_def calm_def by metis
qed

section \<open>A run on a concrete Quest\<close>

definition sha_a :: "json \<Rightarrow> string" where
  "sha_a v = replicate 64 (CHR ''a'')"

definition demo_submission :: submission where
  "demo_submission = \<lparr>sm_quest = ''q'', sm_key = ''k'', sm_prompt = ''v1'', sm_payload = [(''goal'', JStr ''g'')],
     sm_tools = [''r''], sm_parameters = [], sm_reserved = 150, sm_max_output = 100, sm_expected = 4,
     sm_adapter = ''qwen'', sm_model = ''qwen-plus'', sm_cost = None, sm_retain = True\<rparr>"

definition demo_response :: model_response where
  "demo_response = \<lparr>mr_request = replicate 64 (CHR ''a''), mr_candidate = two_steps,
     mr_hash = replicate 64 (CHR ''a''),
     mr_usage = \<lparr>mt_input = 60, mt_output = 40, mt_total = 100, mt_cost = 7\<rparr>\<rparr>"

definition demo_call_environment :: call_environment where
  "demo_call_environment = \<lparr>ce_sha = sha_a, ce_text = fl1, ce_now = (\<lambda>t. ''t''), ce_others = (\<lambda>t d. d),
     ce_adapter = (\<lambda>t r. Answer (response_json demo_response))\<rparr>"

definition demo_call_world :: call_world where
  "demo_call_world = \<lparr>cw_db = demo_bound, cw_sent = [], cw_tick = 0\<rparr>"

definition demo_id :: string where
  "demo_id = ''modelcall_'' @ replicate 24 (CHR ''a'')"

definition demo_call :: model_call_row where
  "demo_call = \<lparr>mc_id = demo_id, mc_quest = ''q'', mc_purpose = ''planning'', mc_key = ''k'',
     mc_request_schema = 1, mc_candidate_schema = 1, mc_input_hash = replicate 64 (CHR ''a''), mc_prompt = ''v1'',
     mc_contract = ''c'', mc_contract_version = 1, mc_contract_hash = replicate 64 (CHR ''a''),
     mc_plan = ''p'', mc_plan_version = 1, mc_plan_hash = replicate 64 (CHR ''a''), mc_expected = 4,
     mc_max_tokens = 20000, mc_status = Prepared, mc_winner = None, mc_created = ''t''\<rparr>"

definition demo_parameters :: dict where
  "demo_parameters = [(''schema_version'', JInt 1), (''allowed_tools'', JList [JStr ''r'']),
      (''max_tokens'', JInt 100), (''sanitized_parameters'', JObj [])]"

definition demo_attempt :: model_attempt_row where
  "demo_attempt = fresh_attempt (demo_id @ '':1'') demo_id 1 (''dispatch_'' @ demo_id @ ''_1'') ''qwen'' ''qwen-plus''
     demo_parameters 150"

lemma demo_hashes [simp]: "stable_hash sha_a v = replicate 64 (CHR ''a'')" "is_sha256 (replicate 64 (CHR ''a''))"
  by (simp_all add: stable_hash_def sha_a_def is_sha256_def)

lemma demo_call_id: "call_id_of sha_a ''q'' ''k'' = demo_id"
  by (simp add: call_id_of_def demo_id_def)

lemma demo_checked: "submission_ok demo_submission" "request_ok (request_for_submission sha_a demo_submission)"
proof -
  show "submission_ok demo_submission"
    by (simp add: submission_ok_def demo_submission_def public_item_def summary_key_def secret_markers_def
        is_identifier_def Let_def) code_simp
  show "request_ok (request_for_submission sha_a demo_submission)"
    by (simp add: request_ok_def request_for_submission_def demo_submission_def) code_simp
qed

lemma demo_audit: "audit_parameters sha_a demo_submission = demo_parameters"
  by (simp add: audit_parameters_def demo_submission_def demo_parameters_def)

lemma demo_parameters_summary: "model_summary fl1 demo_parameters ''model parameters'' 8192 True = Inr demo_parameters"
  by (simp add: model_summary_def demo_parameters_def json_text_def sort_key_def quoted_def escape_char_def
      int_text_def nat_text.simps Let_def) code_simp

lemma demo_journal_request:
  "journal_request sha_a demo_submission = \<lparr>mq_call = demo_id, mq_quest = ''q'', mq_purpose = ''planning'', mq_key = ''k'',
     mq_input_hash = replicate 64 (CHR ''a''), mq_prompt = ''v1'', mq_request_schema = 1, mq_candidate_schema = 1,
     mq_adapter = ''qwen'', mq_model = ''qwen-plus'', mq_parameters = demo_parameters, mq_reserved = 150,
     mq_expected = Some 4, mq_token = Some (''dispatch_'' @ demo_id @ ''_1''), mq_cost = None\<rparr>"
  unfolding journal_request_def demo_audit Let_def
  by (simp add: request_for_submission_def demo_submission_def demo_call_id)

lemma demo_id_nonempty: "demo_id \<noteq> []"
  by (simp add: demo_id_def)

lemma demo_binding:
  "model_binding_of sha_a (demo_bound\<lparr>model_calls := cs, model_attempts := as\<rparr>) ''q'' =
     Inr \<lparr>b_quest = ''q'', b_version = 4,
      b_contract = ''c'', b_contract_version = 1, b_contract_hash = replicate 64 (CHR ''a''), b_plan = ''p'',
      b_plan_version = 1, b_plan_hash = replicate 64 (CHR ''a''), b_max_tokens = 20000\<rparr>"
  by (simp add: model_binding_of_def demo_bound_def find_quest_def dict_get_or_def Let_def)

lemma demo_tables: "model_calls demo_bound = []" "model_attempts demo_bound = []"
  "demo_bound\<lparr>model_calls := [], model_attempts := []\<rparr> = demo_bound" "cost_reservations demo_bound = []"
  by (simp_all add: demo_bound_def empty_db_def)

lemma demo_prepares:
  "prepare_model_call sha_a fl1 (journal_request sha_a demo_submission) ''t'' demo_bound =
     Inr ((demo_call, [demo_attempt]), demo_bound\<lparr>model_calls := [demo_call], model_attempts := [demo_attempt]\<rparr>)"
  using demo_binding [of "[]" "[]"] demo_id_nonempty
  by (simp add: prepare_model_call_def demo_journal_request demo_parameters_summary demo_tables
      bad_request_def require_model_hash_def validate_optional_def model_usage_def quest_attempts_def
      insert_call_def call_of_request_def insert_attempt_def fresh_attempt_def request_token_def
      reserve_optional_def get_model_call_def find_call_def Let_def demo_call_def demo_attempt_def)

definition demo_durable :: planning_request where
  "demo_durable = \<lparr>pq_quest = ''q'', pq_prompt = ''v1'', pq_input_hash = replicate 64 (CHR ''a''), pq_contract = ''c'',
     pq_contract_version = 1, pq_contract_hash = replicate 64 (CHR ''a''), pq_plan = ''p'', pq_plan_version = 1,
     pq_plan_hash = replicate 64 (CHR ''a''), pq_expected = 4, pq_tools = [''r''], pq_max_output = 100,
     pq_parameters = []\<rparr>"

lemma demo_binds:
  "request_from_durable_binding demo_call demo_attempt = Some demo_durable"
  "attempt_for_record (demo_call, [demo_attempt]) = Some demo_attempt"
proof -
  have "durable_parameters demo_parameters = Some ([''r''], 100, [])"
    unfolding demo_parameters_def durable_parameters_def py_equal_def by code_simp
  moreover have "request_ok demo_durable"
    by (simp add: request_ok_def demo_durable_def) code_simp
  ultimately show "request_from_durable_binding demo_call demo_attempt = Some demo_durable"
    by (simp add: request_from_durable_binding_def demo_attempt_def fresh_attempt_def demo_call_def demo_durable_def Let_def)
  show "attempt_for_record (demo_call, [demo_attempt]) = Some demo_attempt"
    by (simp add: attempt_for_record_def demo_call_def latest_attempt_def)
qed

lemma demo_answer:
  "parse_response sha_a (response_json demo_response) = Some demo_response"
  by code_simp

definition demo_dispatched :: db where
  "demo_dispatched = demo_bound\<lparr>model_calls := [demo_call\<lparr>mc_status := Dispatched\<rparr>],
     model_attempts := [demo_attempt\<lparr>ma_status := Dispatched\<rparr>]\<rparr>"

lemma demo_dispatches:
  "mark_model_attempt_dispatched (demo_id @ '':1'')
     (demo_bound\<lparr>model_calls := [demo_call], model_attempts := [demo_attempt]\<rparr>) =
     Inr (demo_attempt\<lparr>ma_status := Dispatched\<rparr>, demo_dispatched)"
  by (simp add: mark_model_attempt_dispatched_def find_attempt_def demo_attempt_def fresh_attempt_def demo_dispatched_def
      set_call_def set_attempt_def demo_call_def)

lemma demo_settles:
  "\<exists>d. record_model_success sha_a fl1 (demo_id @ '':1'') ''q'' (replicate 64 (CHR ''a'')) (replicate 64 (CHR ''a''))
     (candidate_json two_steps) 60 40 (Some (tokens_json (mr_usage demo_response)))
     (Some (cost_json (mr_usage demo_response))) True demo_dispatched =
     Inr (demo_attempt\<lparr>ma_status := Succeeded, ma_validation := VCurrent, ma_settled := 100, ma_input := 60,
        ma_output := 40, ma_candidate := Some (candidate_json two_steps),
        ma_candidate_hash := Some (replicate 64 (CHR ''a'')), ma_response_hash := Some (replicate 64 (CHR ''a'')),
        ma_usage := Some (tokens_json (mr_usage demo_response)),
        ma_cost := Some (cost_json (mr_usage demo_response)), ma_error := None\<rparr>, d)"
proof -
  have c: "model_summary fl1 (candidate_json two_steps) ''model candidate'' 262144 False = Inr (candidate_json two_steps)"
    by (simp add: model_summary_def candidate_json_def step_json_def two_steps_def json_text_def sort_key_def quoted_def
      escape_char_def int_text_def nat_text.simps Let_def) code_simp
  have u: "model_summary fl1 (tokens_json (mr_usage demo_response)) ''model usage'' 8192 True =
      Inr (tokens_json (mr_usage demo_response))"
    by (simp add: model_summary_def tokens_json_def demo_response_def json_text_def sort_key_def quoted_def
      escape_char_def int_text_def nat_text.simps Let_def) code_simp
  have k: "model_summary fl1 (cost_json (mr_usage demo_response)) ''model cost'' 8192 True =
      Inr (cost_json (mr_usage demo_response))"
    by (simp add: model_summary_def cost_json_def demo_response_def json_text_def sort_key_def quoted_def
      escape_char_def int_text_def nat_text.simps Let_def) code_simp
  have f: "find_attempt demo_dispatched (demo_id @ '':1'') = Some (demo_attempt\<lparr>ma_status := Dispatched\<rparr>)"
    "find_call demo_dispatched demo_id = Some (demo_call\<lparr>mc_status := Dispatched\<rparr>)"
    by (simp_all add: find_attempt_def find_call_def demo_dispatched_def demo_attempt_def fresh_attempt_def demo_call_def)
  have a: "ma_call demo_attempt = demo_id" "ma_response_hash demo_attempt = None" "ma_id demo_attempt = demo_id @ '':1''"
    "ma_validation demo_attempt = VPending"
    by (simp_all add: demo_attempt_def fresh_attempt_def)
  have m: "mc_quest demo_call = ''q''" "mc_input_hash demo_call = replicate 64 (CHR ''a'')"
    by (simp_all add: demo_call_def)
  have v: "final_validation sha_a st (demo_call\<lparr>mc_status := Dispatched\<rparr>) demo_dispatched = Inr VCurrent"
    if "st_current st" for st
    using that by (simp add: final_validation_def demo_dispatched_def demo_binding demo_call_def binding_current_def a)
  have held: "find_reservation (set_attempt i f demo_dispatched) j = None" for i f j
    by (simp add: find_reservation_def set_attempt_def demo_dispatched_def demo_tables)
  show ?thesis
    by (simp add: record_model_success_def require_model_hash_def settle_model_attempt_def clean_candidate_def
      settle_summaries_def optional_summary_def c u k f a m v held settled_row_def settle_cost_def Let_def)
qed

lemma demo_call_run:
  "\<exists>r w. coordinator_run demo_call_environment demo_submission demo_call_world = (Inr r, w) \<and>
     cl_outcome r = ''validated_current'' \<and> \<not> cl_replay r \<and> cw_sent w \<noteq> []"
proof -
  let ?w = "\<lambda>d n. \<lparr>cw_db = d, cw_sent = [], cw_tick = n\<rparr>"
  let ?d1 = "demo_bound\<lparr>model_calls := [demo_call], model_attempts := [demo_attempt]\<rparr>"
  have id: "call_id_of sha_a (sm_quest demo_submission) (sm_key demo_submission) = demo_id"
    by (simp add: demo_submission_def demo_call_id)
  have absent: "get_model_call demo_bound demo_id = None"
    by (simp add: get_model_call_def find_call_def demo_tables)
  have a: "ma_id demo_attempt = demo_id @ '':1''" "ma_status demo_attempt = Prepared" "ma_call demo_attempt = demo_id"
    by (simp_all add: demo_attempt_def fresh_attempt_def)
  have sub: "sm_quest demo_submission = ''q''" "sm_retain demo_submission"
    by (simp_all add: demo_submission_def)
  have rp: "mr_request demo_response = replicate 64 (CHR ''a'')" "mr_hash demo_response = replicate 64 (CHR ''a'')"
    "mr_candidate demo_response = two_steps" "mt_input (mr_usage demo_response) = 60" "mt_output (mr_usage demo_response) = 40"
    by (simp_all add: demo_response_def)
  have rq: "pq_tools demo_durable = [''r'']" "pq_input_hash demo_durable = replicate 64 (CHR ''a'')"
    by (simp_all add: demo_durable_def)
  have env: "ce_sha demo_call_environment = sha_a" "ce_text demo_call_environment = fl1" "ce_now demo_call_environment t = ''t''"
    "ce_others demo_call_environment t d = d" "ce_adapter demo_call_environment t x = Answer (response_json demo_response)" for t d x
    by (simp_all add: demo_call_environment_def)
  obtain d where d: "record_model_success sha_a fl1 (demo_id @ '':1'') ''q'' (replicate 64 (CHR ''a'')) (replicate 64 (CHR ''a''))
     (candidate_json two_steps) 60 40 (Some (tokens_json (mr_usage demo_response)))
     (Some (cost_json (mr_usage demo_response))) True demo_dispatched =
     Inr (demo_attempt\<lparr>ma_status := Succeeded, ma_validation := VCurrent, ma_settled := 100, ma_input := 60,
        ma_output := 40, ma_candidate := Some (candidate_json two_steps),
        ma_candidate_hash := Some (replicate 64 (CHR ''a'')), ma_response_hash := Some (replicate 64 (CHR ''a'')),
        ma_usage := Some (tokens_json (mr_usage demo_response)),
        ma_cost := Some (cost_json (mr_usage demo_response)), ma_error := None\<rparr>, d)"
    using demo_settles by blast
  let ?done = "demo_attempt\<lparr>ma_status := Succeeded, ma_validation := VCurrent, ma_settled := 100, ma_input := 60,
        ma_output := 40, ma_candidate := Some (candidate_json two_steps),
        ma_candidate_hash := Some (replicate 64 (CHR ''a'')), ma_response_hash := Some (replicate 64 (CHR ''a'')),
        ma_usage := Some (tokens_json (mr_usage demo_response)),
        ma_cost := Some (cost_json (mr_usage demo_response)), ma_error := None\<rparr>"
  have good: "result_ok (result_of_attempt ?done None False)"
    by (simp add: result_ok_def result_of_attempt_def a optional_ok_def error_code_of_def demo_id_def char_count_def)
  have settled: "settle_response demo_call_environment demo_submission demo_durable (demo_id @ '':1'') demo_response two_steps
      \<lparr>cw_db = demo_dispatched, cw_sent = x, cw_tick = n\<rparr> =
      (Inr (result_of_attempt ?done None False), \<lparr>cw_db = d, cw_sent = x, cw_tick = n + 1\<rparr>)" for x n
    by (simp add: settle_response_def act_bind_def unless_refused_def act_try_def stored_def env sub rp rq d Let_def give_def good
        act_return_def)
  have answered: "handle_answer demo_call_environment demo_submission demo_durable (demo_id @ '':1'') (Answer (response_json demo_response))
      \<lparr>cw_db = demo_dispatched, cw_sent = x, cw_tick = n\<rparr> =
      (Inr (result_of_attempt ?done None False), \<lparr>cw_db = d, cw_sent = x, cw_tick = n + 1\<rparr>)" for x n
    using two_steps_accepted [of sha_a fl1]
    by (simp add: handle_answer_def handle_response_def env demo_answer rp rq candidate_hash_def settled Let_def)
  have dispatched: "dispatch_request demo_call_environment demo_submission demo_id v demo_attempt demo_durable (?w ?d1 n) =
      (Inr (result_of_attempt ?done None False),
       \<lparr>cw_db = d, cw_sent = [(demo_id, request_json demo_durable)], cw_tick = n + 3\<rparr>)" for v n
    by (simp add: dispatch_request_def act_bind_def unless_refused_def act_try_def stored_def env demo_dispatches a Let_def
        act_return_def send_def answered)
  have "coordinator_run demo_call_environment demo_submission demo_call_world =
      (Inr (result_of_attempt ?done None False),
       \<lparr>cw_db = d, cw_sent = [(demo_id, request_json demo_durable)], cw_tick = 5\<rparr>)"
    by (simp add: coordinator_run_def id env demo_checked demo_call_world_def stored_def Let_def act_bind_def absent
        act_try_def act_return_def demo_prepares run_prepared_def record_attempt_def demo_binds a dispatched)
  then show ?thesis by (auto simp: result_of_attempt_def outcome_of_def)
qed

lemma demo_call_others: "others_are_steps demo_call_environment"
  by (simp add: others_are_steps_def demo_call_environment_def)

lemma demo_call_reachable: "model_reachable sha fl demo_bound"
  by (rule model_reachable.step [OF model_reachable.start model_step.other])
    (simp_all add: demo_bound_def empty_db_def)

theorem validated_result_was_validated_witness:
  "\<exists>r w raw rp. coordinator_run demo_call_environment demo_submission demo_call_world = (Inr r, w) \<and>
     parse_response sha_a raw = Some rp \<and> cl_response r = Some (stable_hash sha_a (response_json rp))"
proof -
  obtain r w where run: "coordinator_run demo_call_environment demo_submission demo_call_world = (Inr r, w)"
    "cl_outcome r = ''validated_current''" "\<not> cl_replay r" using demo_call_run by blast
  have env: "ce_sha demo_call_environment = sha_a" by (simp add: demo_call_environment_def)
  have "model_reachable (ce_sha demo_call_environment) (ce_text demo_call_environment) (cw_db demo_call_world)"
    by (simp add: demo_call_world_def demo_call_reachable)
  from validated_result_was_validated [OF this demo_call_others run] obtain raw rp
    where "parse_response sha_a raw = Some rp" "cl_response r = Some (stable_hash sha_a (response_json rp))"
    unfolding env by (elim exE conjE)
  with run(1) show ?thesis by (intro exI conjI)
qed

theorem adapter_called_once_witness:
  "\<exists>w :: call_world. cw_sent w \<noteq> [] \<and> distinct (map fst (cw_sent w))"
proof -
  obtain r w where run: "coordinator_run demo_call_environment demo_submission demo_call_world = (Inr r, w)"
    "cl_outcome r = ''validated_current''" "\<not> cl_replay r" "cw_sent w \<noteq> []" using demo_call_run by blast
  have "coordinator_history sha_a fl1 demo_call_world"
    by (rule coordinator_history.start) (simp_all add: demo_call_world_def demo_call_reachable)
  from coordinator_history.run [OF this _ _ demo_call_others run(1)] have "coordinator_history sha_a fl1 w"
    by (simp add: demo_call_environment_def)
  then have "distinct (map fst (cw_sent w))" using adapter_called_once by blast
  with run(4) show ?thesis by blast
qed

end
