(* ===== verification/Coordinator_Settling.thy ===== *)
theory Coordinator_Settling
  imports Coordinator_Properties
begin

text \<open>
  A run of the coordinator settles what it dispatched: which errors the journal raises when it refuses a
  settlement, that an attempt that was dispatched can always be marked as unknown, and from both that no run
  leaves an attempt dispatched that was not so before.
\<close>

section \<open>Refusals of the journal\<close>

fun refusable :: "py_error \<Rightarrow> bool" where
  "refusable (ValueError m) \<longleftrightarrow> True"
| "refusable (KeyError m) \<longleftrightarrow> True"
| "refusable (RuntimeError m) \<longleftrightarrow> True"
| "refusable _ \<longleftrightarrow> False"

lemma refusable_is_refusal: "refusable e \<Longrightarrow> is_refusal (exc_of e)"
  by (cases e) (simp_all add: is_refusal_def value_errors_def)

definition refuses :: "'a result \<Rightarrow> bool" where
  "refuses m \<longleftrightarrow> (\<forall>e. m = Inl e \<longrightarrow> refusable e)"

lemma refuses_Inr: "refuses (Inr x)" and refuses_Inl: "refusable e \<Longrightarrow> refuses (Inl e)"
  by (simp_all add: refuses_def)

lemma refuses_andThen: "refuses m \<Longrightarrow> (\<And>x. refuses (f x)) \<Longrightarrow> refuses (andThen m f)"
  by (cases m) (auto simp: refuses_def)

lemma refuses_if: "(b \<Longrightarrow> refuses m) \<Longrightarrow> (\<not> b \<Longrightarrow> refuses m') \<Longrightarrow> refuses (if b then m else m')"
  by simp

lemma refuses_option: "refuses m \<Longrightarrow> (\<And>x. refuses (f x)) \<Longrightarrow> refuses (case r of None \<Rightarrow> m | Some x \<Rightarrow> f x)"
  by (cases r) auto

lemma refuses_pair: "(\<And>x y. refuses (f x y)) \<Longrightarrow> refuses (case p of (x, y) \<Rightarrow> f x y)"
  by (cases p) auto

lemmas refuses_intros = refuses_Inr refuses_Inl refuses_andThen refuses_if refuses_option refuses_pair

lemma refuses_summary: "refuses (model_summary fl v label n allow)" "refuses (optional_summary fl x label)"
  unfolding optional_summary_def model_summary_def by (intro refuses_intros; simp)+

lemma refuses_binding: "refuses (model_binding_of sha d qid)"
  unfolding model_binding_of_def Let_def by (intro refuses_intros; simp)

lemma refuses_hash: "refuses (require_model_hash h label)"
  unfolding require_model_hash_def by (intro refuses_intros; simp)

lemma refuses_settle_cost: "refuses (settle_cost i n m d)"
  unfolding settle_cost_def Let_def by (intro refuses_intros; simp)

lemma refuses_settle: "refuses (settle_model_attempt sha fl aid st d)"
  unfolding settle_model_attempt_def clean_candidate_def settle_summaries_def final_validation_def Let_def
  by (intro refuses_intros refuses_summary refuses_binding refuses_hash refuses_settle_cost; simp)

lemma refuses_success: "refuses (record_model_success sha fl aid qid ih rh cand i n us co retain d)"
  unfolding record_model_success_def by (intro refuses_andThen refuses_hash refuses_settle)

lemma refuses_failure: "refuses (record_model_failure sha fl aid err i n us co d)"
  unfolding record_model_failure_def by (rule refuses_settle)

section \<open>Attempts that are dispatched\<close>

definition dispatched_ids :: "db \<Rightarrow> string set" where
  "dispatched_ids d = {ma_id a | a. a \<in> set (model_attempts d) \<and> ma_status a = Dispatched}"

lemma dispatched_cong: "model_attempts d' = model_attempts d \<Longrightarrow> dispatched_ids d' = dispatched_ids d"
  by (simp add: dispatched_ids_def)

lemma dispatched_frame [simp]:
  "dispatched_ids (set_call p f d) = dispatched_ids d" "dispatched_ids (suspend_held q d) = dispatched_ids d"
  by (simp_all add: dispatched_ids_def set_call_def suspend_held_def)

lemma dispatched_find:
  assumes "calls_ok d" and "find_attempt d aid = Some a"
  shows "aid \<in> dispatched_ids d \<longleftrightarrow> ma_status a = Dispatched"
  using find_attempt_in [OF assms(2)] attempt_unique [OF assms] by (fastforce simp: dispatched_ids_def)

lemma dispatched_none: "find_attempt d aid = None \<Longrightarrow> aid \<notin> dispatched_ids d"
  by (auto simp: dispatched_ids_def find_attempt_def select_one_None_iff)

lemma set_attempt_lands:
  assumes "\<And>a. ma_id (f a) = ma_id a" and "\<And>a. ma_status (f a) \<noteq> Dispatched"
  shows "dispatched_ids (set_attempt aid f d) = dispatched_ids d - {aid}"
  using assms by (auto simp: dispatched_ids_def set_attempt_def set_update_where)

lemma settle_lands:
  assumes "calls_ok d" and "settle_model_attempt sha fl aid st d = Inr (a, d')" and "st_status st \<noteq> Dispatched"
  shows "dispatched_ids d' = dispatched_ids d - {aid}"
  using assms(2)
proof (cases rule: settle_cases)
  case replayed
  have "attempt_ok d a" using calls_okD(1) [OF assms(1)] find_attempt_in [OF replayed(2)] by blast
  then have "ma_status a \<noteq> Dispatched" using replayed(3) unfolding attempt_ok_def by blast
  then show ?thesis using dispatched_find [OF assms(1) replayed(2)] replayed(1) by blast
next
  case (settled a0 call cand h v d2)
  have "dispatched_ids d2 = dispatched_ids (set_attempt aid (settled_row st cand h v) d)"
    using settle_cost_tables [OF settled(7)] by (intro dispatched_cong) simp
  also have "\<dots> = dispatched_ids d - {aid}"
    by (rule set_attempt_lands) (use assms(3) in \<open>simp_all add: settled_row_def\<close>)
  finally show ?thesis by (simp add: settled(8))
qed

lemma success_lands:
  assumes "calls_ok d" and "record_model_success sha fl aid qid ih rh cand i n us co retain d = Inr (a, d')"
  shows "dispatched_ids d' = dispatched_ids d - {aid}"
  using assms(2) unfolding record_model_success_def result_simps
  by (elim exE conjE) (rule settle_lands [OF assms(1)], assumption, simp)

lemma failure_lands:
  assumes "calls_ok d" and "record_model_failure sha fl aid err i n us co d = Inr (a, d')"
  shows "dispatched_ids d' = dispatched_ids d - {aid}"
  using assms(2) unfolding record_model_failure_def by (rule settle_lands [OF assms(1)]) simp

text \<open>An attempt that is dispatched can be marked as unknown, with any code a run gives.\<close>

lemma code_summary:
  assumes "length code \<le> 1000"
  shows "model_summary fl [(''code'', JStr code)] label 8192 True = Inr [(''code'', JStr code)]"
proof -
  have "\<not> has_secret True (JObj [(''code'', JStr code)])" by simp code_simp
  moreover have "length (json_text fl (JObj [(''code'', JStr code)])) \<le> 8192"
    using quoted_bound [of code] quoted_bound [of "''code''"] assms by (simp add: json_text_def sort_key_def)
  ultimately show ?thesis by (simp add: model_summary_def)
qed

lemma unknown_accepts:
  assumes "calls_ok d" and "aid \<in> dispatched_ids d" and "length code \<le> 1000"
  shows "\<exists>a d'. mark_model_attempt_unknown fl aid (Some [(''code'', JStr code)]) d = Inr (a, d') \<and>
    dispatched_ids d' = dispatched_ids d - {aid}"
proof -
  obtain a where a: "find_attempt d aid = Some a"
    using assms(2) dispatched_none by (cases "find_attempt d aid") auto
  then have "ma_status a = Dispatched" using dispatched_find [OF assms(1) a] assms(2) by blast
  then show ?thesis
    using a code_summary [OF assms(3)]
    by (simp add: mark_model_attempt_unknown_def optional_summary_def Let_def set_attempt_lands)
qed

lemma unknown_shrinks:
  assumes "calls_ok d" and "mark_model_attempt_unknown fl aid err d = Inr (a, d')"
  shows "dispatched_ids d' \<subseteq> dispatched_ids d"
proof -
  obtain b where b: "find_attempt d aid = Some b"
    using assms(2) by (cases "find_attempt d aid") (simp_all add: mark_model_attempt_unknown_def)
  show ?thesis
    using assms(2) b
    by (cases "ma_status b = UnknownOutcome"; cases "ma_status b = Dispatched")
      (auto simp: mark_model_attempt_unknown_def Let_def result_simps set_attempt_lands)
qed

lemma dispatch_lands:
  assumes "calls_ok d" and "mark_model_attempt_dispatched aid d = Inr (a, d')"
  shows "dispatched_ids d' = insert aid (dispatched_ids d)"
proof -
  obtain b where b: "find_attempt d aid = Some b"
    using assms(2) by (cases "find_attempt d aid") (simp_all add: mark_model_attempt_dispatched_def)
  have "dispatched_ids (set_attempt aid (\<lambda>a. a\<lparr>ma_status := Dispatched\<rparr>) d) = insert aid (dispatched_ids d)"
    (is "dispatched_ids ?d = _")
  proof -
    have member: "a\<lparr>ma_status := Dispatched\<rparr> \<in> set (model_attempts ?d)"
      if "a \<in> set (model_attempts d)" "ma_id a = aid" for a
      using that by (auto simp: set_attempt_def set_update_where)
    have other: "a \<in> set (model_attempts ?d)" if "a \<in> set (model_attempts d)" "ma_id a \<noteq> aid" for a
      using that by (auto simp: set_attempt_def set_update_where)
    have "aid \<in> dispatched_ids ?d"
      using member [of b] find_attempt_in [OF b] unfolding dispatched_ids_def
      by (intro CollectI exI [of _ "b\<lparr>ma_status := Dispatched\<rparr>"]) simp
    moreover have "dispatched_ids d \<subseteq> dispatched_ids ?d \<union> {aid}"
      using other by (auto simp: dispatched_ids_def)
    moreover have "dispatched_ids ?d \<subseteq> insert aid (dispatched_ids d)"
      by (auto simp: dispatched_ids_def set_attempt_def set_update_where)
    ultimately show ?thesis by blast
  qed
  then have marked: "dispatched_ids (set_call p f (set_attempt aid (\<lambda>a. a\<lparr>ma_status := Dispatched\<rparr>) d)) =
      insert aid (dispatched_ids d)" for p f by simp
  show ?thesis
  proof (cases "ma_status b = Dispatched")
    case True
    then have "d' = d" using assms(2) b by (simp add: mark_model_attempt_dispatched_def)
    then show ?thesis using dispatched_find [OF assms(1) b] True by blast
  next
    case False
    then show ?thesis using assms(2) b
      by (simp add: mark_model_attempt_dispatched_def split: if_splits) (use marked in blast)
  qed
qed

lemma prepare_lands:
  assumes "prepare_model_call sha fl rq now d = Inr (v, d')"
  shows "dispatched_ids d' = dispatched_ids d"
  using assms
proof (cases rule: prepare_call_cases)
  case (fresh b parameters cost d1 d2)
  have "dispatched_ids d1 = dispatched_ids d"
    using fresh by (intro dispatched_cong) (auto simp: insert_call_def split: if_splits)
  moreover have "dispatched_ids d2 = dispatched_ids d1"
    using fresh by (auto simp: insert_attempt_def dispatched_ids_def fresh_attempt_def split: if_splits)
  moreover have "model_attempts d' = model_attempts d2"
    using fresh(6) by (auto simp: reserve_optional_def dest: reserve_cost_tables split: option.splits)
  ultimately show ?thesis using dispatched_cong by metis
qed simp

section \<open>Runs\<close>

text \<open>Others leave the attempts alone; the relation says which attempts an action may leave dispatched.\<close>

definition attempts_alone :: "call_environment \<Rightarrow> bool" where
  "attempts_alone en \<longleftrightarrow> (\<forall>t d. model_attempts (ce_others en t d) = model_attempts d)"

definition settling :: "call_environment \<Rightarrow> call_world \<Rightarrow> call_world \<Rightarrow> bool" where
  "settling en w w' \<longleftrightarrow> (ready en w \<and> attempts_alone en \<longrightarrow>
     ready en w' \<and> dispatched_ids (cw_db w') \<subseteq> dispatched_ids (cw_db w))"

interpretation settling: action_relation "settling en" for en
  by unfold_locales (auto simp: settling_def)

lemma others_alone: "attempts_alone en \<Longrightarrow> dispatched_ids (ce_others en t d) = dispatched_ids d"
  by (rule dispatched_cong) (simp add: attempts_alone_def)

lemma ready_others: "ready en w \<Longrightarrow> calls_ok (ce_others en t (cw_db w)) \<and> cost_ok (ce_others en t (cw_db w))"
  using model_steps_ok unfolding ready_def others_are_steps_def by blast

lemma settling_stored:
  assumes "\<And>t d x d'. f t d = Inr (x, d') \<Longrightarrow> model_step (ce_sha en) (ce_text en) d d'"
    and "\<And>t d x d'. calls_ok d \<Longrightarrow> f t d = Inr (x, d') \<Longrightarrow> dispatched_ids d' \<subseteq> dispatched_ids d"
  shows "settling.keeps en (stored en f)"
proof (rule settling.keepsI)
  fix w :: call_world
  let ?d = "ce_others en (cw_tick w) (cw_db w)"
  have "calm.keeps en (stored en f)" by (rule calm_stored) (rule assms(1))
  then have calm: "calm en w (snd (stored en f w))" by (simp add: calm.keeps_def)
  show "settling en w (snd (stored en f w))"
  proof (unfold settling_def, intro impI conjI)
    assume w: "ready en w \<and> attempts_alone en"
    show "ready en (snd (stored en f w))" using ready_calm [OF _ calm] w by blast
    show "dispatched_ids (cw_db (snd (stored en f w))) \<subseteq> dispatched_ids (cw_db w)"
      using assms(2) [of ?d] w ready_others others_alone [of en "cw_tick w" "cw_db w"]
      by (cases "f (cw_tick w) ?d") (auto simp: stored_def Let_def split: prod.split)
  qed
qed

lemma settling_give [intro]: "settling.keeps en (give r)"
  by (simp add: give_def settling.keeps_return settling.keeps_raise)

lemma settling_unless_refused [intro]: "settling.keeps en m \<Longrightarrow> settling.keeps en (unless_refused m)"
  unfolding unless_refused_def by (intro settling.keeps_intros)

lemma settling_read: "settling.keeps en (stored en (\<lambda>t d. Inr (g t d, d)))"
  by (rule settling_stored) (auto intro: model_step_refl)

lemma settling_record_attempt: "settling.keeps en (record_attempt view)"
  unfolding record_attempt_def by (intro settling.keeps_intros)

lemma settling_replay: "settling.keeps en (replay_existing en s cid view)"
  unfolding replay_existing_def Let_def by (intro settling.keeps_intros settling_give)

text \<open>A step that settles an attempt, or is refused, leaves the attempt settled or as it was.\<close>

lemma refused_alone:
  assumes "unless_refused (stored en f) w = (r, w')"
    and "\<And>t d. refuses (f t d)"
  shows "(\<exists>x. r = Inr (Some x) \<and> f (cw_tick w) (ce_others en (cw_tick w) (cw_db w)) = Inr (x, cw_db w')) \<or>
    r = Inr None \<and> cw_db w' = ce_others en (cw_tick w) (cw_db w)"
proof (cases "f (cw_tick w) (ce_others en (cw_tick w) (cw_db w))")
  case (Inl e)
  then have "is_refusal (exc_of e)" using assms(2) refusable_is_refusal unfolding refuses_def by blast
  then show ?thesis using assms(1) Inl
    by (auto simp: unless_refused_def act_try_def act_bind_def act_return_def stored_def Let_def)
next
  case (Inr y)
  then show ?thesis using assms(1)
    by (cases y) (auto simp: unless_refused_def act_try_def act_bind_def act_return_def stored_def Let_def)
qed

definition lands :: "call_environment \<Rightarrow> string \<Rightarrow> call_world \<Rightarrow> call_world \<Rightarrow> bool" where
  "lands en aid w w' \<longleftrightarrow> dispatched_ids (cw_db w') \<subseteq> dispatched_ids (cw_db w) - {aid}"

lemma give_same: "snd (give r w) = w"
  by (simp add: give_def act_return_def act_raise_def)

lemma mark_unknown_lands:
  assumes "ready en w" "attempts_alone en" "length code \<le> 1000"
    and "aid \<in> dispatched_ids (cw_db w)"
  shows "lands en aid w (snd (mark_unknown en aid code w))"
proof -
  let ?d = "ce_others en (cw_tick w) (cw_db w)"
  have d: "dispatched_ids ?d = dispatched_ids (cw_db w)" by (rule others_alone [OF assms(2)])
  then obtain a d' where m: "mark_model_attempt_unknown (ce_text en) aid (Some [(''code'', JStr code)]) ?d = Inr (a, d')"
    "dispatched_ids d' = dispatched_ids ?d - {aid}"
    using unknown_accepts [of ?d aid code] ready_others [OF assms(1)] assms(3,4) by blast
  then show ?thesis
    by (simp add: mark_unknown_def act_bind_def unless_refused_def act_try_def act_return_def stored_def Let_def give_same
        lands_def d)
qed

text \<open>A settlement, and the marking as unknown that follows its refusal.\<close>

lemma settlement_lands:
  assumes "ready en w" "attempts_alone en" "aid \<in> dispatched_ids (cw_db w)"
    and "\<And>t d. refuses (f t d)"
    and step: "\<And>t d x d'. f t d = Inr (x, d') \<Longrightarrow> model_step (ce_sha en) (ce_text en) d d'"
    and lands: "\<And>t d x d'. calls_ok d \<Longrightarrow> f t d = Inr (x, d') \<Longrightarrow> dispatched_ids d' = dispatched_ids d - {aid}"
  shows "lands en aid w (snd (act_bind (unless_refused (stored en f)) (\<lambda>r. case r of
      None \<Rightarrow> mark_unknown en aid ''SETTLEMENT_UNKNOWN'' | Some a \<Rightarrow> give (g a)) w))"
proof -
  obtain r w1 where x: "unless_refused (stored en f) w = (r, w1)" by (cases "unless_refused (stored en f) w")
  let ?d = "ce_others en (cw_tick w) (cw_db w)"
  have d: "dispatched_ids ?d = dispatched_ids (cw_db w)" by (rule others_alone [OF assms(2)])
  have "calm.keeps en (unless_refused (stored en f))"
    by (intro calm_unless_refused calm_stored) (rule step)
  then have w1: "ready en w1" using calm.keepsD x ready_calm [OF assms(1)] by blast
  from refused_alone [OF x assms(4)] show ?thesis
  proof (elim disjE exE conjE)
    fix y assume r: "r = Inr (Some y)" "f (cw_tick w) ?d = Inr (y, cw_db w1)"
    then have "dispatched_ids (cw_db w1) = dispatched_ids ?d - {aid}"
      using lands ready_others [OF assms(1)] by blast
    then show ?thesis using x r by (simp add: act_bind_def give_same lands_def d)
  next
    assume r: "r = Inr None" "cw_db w1 = ?d"
    then have "lands en aid w1 (snd (mark_unknown en aid ''SETTLEMENT_UNKNOWN'' w1))"
      using assms d by (intro mark_unknown_lands [OF w1]) simp_all
    then show ?thesis using x r by (simp add: act_bind_def lands_def d)
  qed
qed

lemma record_failure_lands:
  assumes "ready en w" "attempts_alone en" "aid \<in> dispatched_ids (cw_db w)"
  shows "lands en aid w (snd (record_failure en aid code usage n conservative w))"
  unfolding record_failure_def Let_def
  by (rule settlement_lands [OF assms refuses_failure]) (rule model_step.failure, assumption, rule failure_lands)

lemma settle_response_lands:
  assumes "ready en w" "attempts_alone en" "aid \<in> dispatched_ids (cw_db w)"
  shows "lands en aid w (snd (settle_response en s rq aid rp c w))"
  unfolding settle_response_def
  by (rule settlement_lands [OF assms refuses_success]) (rule model_step.success, assumption, rule success_lands)

lemma safe_code_length: "length fallback \<le> 1000 \<Longrightarrow> length (safe_adapter_code code fallback) \<le> 1000"
  by (cases code) (simp_all add: safe_adapter_code_def is_identifier_def matches_name_def)

lemma handle_answer_lands:
  assumes "ready en w" "attempts_alone en" "aid \<in> dispatched_ids (cw_db w)"
  shows "lands en aid w (snd (handle_answer en s rq aid answer w))"
proof (cases answer)
  case (Answer raw)
  show ?thesis
    using record_failure_lands [OF assms] settle_response_lands [OF assms]
    by (simp add: Answer handle_answer_def handle_response_def Let_def split: option.split sum.split)
qed (use record_failure_lands [OF assms] mark_unknown_lands [OF assms(1,2) _ assms(3)] safe_code_length
     in \<open>simp_all add: handle_answer_def\<close>)

text \<open>Dispatching and what follows.\<close>

lemma settling_mark_unknown: "settling.keeps en (mark_unknown en aid code)"
  unfolding mark_unknown_def
  by (intro settling.keeps_bind settling_unless_refused settling_stored settling_give)
    (rule model_step.unknown, assumption, rule unknown_shrinks)

lemma settling_record_failure: "settling.keeps en (record_failure en aid code usage n conservative)"
  unfolding record_failure_def Let_def
  by (intro settling.keeps_bind settling.keeps_option settling_unless_refused settling_stored settling_give
      settling_mark_unknown) (rule model_step.failure, assumption, use failure_lands in blast)

lemma refuses_dispatch: "refuses (mark_model_attempt_dispatched aid d)"
  unfolding mark_model_attempt_dispatched_def by (intro refuses_intros; simp)

lemma settling_dispatch: "settling.keeps en (dispatch_request en s cid prepared a rq)"
proof (rule settling.keepsI)
  fix w :: call_world
  let ?aid = "ma_id a"
  let ?mark = "unless_refused (stored en (\<lambda>t. mark_model_attempt_dispatched ?aid))"
  let ?reread = "act_bind (stored en (\<lambda>t d. Inr (get_model_call d cid, d))) (\<lambda>v.
      act_bind (record_attempt (case v of None \<Rightarrow> prepared | Some v' \<Rightarrow> v')) (\<lambda>a'.
      give (result_of_attempt a' None True)))"
  let ?d = "ce_others en (cw_tick w) (cw_db w)"
  obtain r w1 where x: "?mark w = (r, w1)" by (cases "?mark w")
  have "calm.keeps en ?mark" by (intro calm_unless_refused calm_stored) (rule model_step.dispatch)
  then have calm: "calm en w w1" using x by (rule calm.keepsD)
  have reread: "settling.keeps en ?reread"
    by (intro settling.keeps_bind settling_read settling_record_attempt settling_give)
  show "settling en w (snd (dispatch_request en s cid prepared a rq w))"
  proof (unfold settling_def, intro impI)
    assume "ready en w \<and> attempts_alone en"
    then have w: "ready en w" "attempts_alone en" by auto
    have w1: "ready en w1" by (rule ready_calm [OF w(1) calm])
    have d: "dispatched_ids ?d = dispatched_ids (cw_db w)" by (rule others_alone [OF w(2)])
    from refused_alone [OF x refuses_dispatch]
    show "ready en (snd (dispatch_request en s cid prepared a rq w)) \<and>
      dispatched_ids (cw_db (snd (dispatch_request en s cid prepared a rq w))) \<subseteq> dispatched_ids (cw_db w)"
    proof (elim disjE exE conjE)
      fix y assume r: "r = Inr (Some y)" "mark_model_attempt_dispatched ?aid ?d = Inr (y, cw_db w1)"
      let ?w2 = "w1\<lparr>cw_sent := cw_sent w1 @ [(cid, request_json rq)], cw_tick := cw_tick w1 + 1\<rparr>"
      have ins: "dispatched_ids (cw_db w1) = insert ?aid (dispatched_ids ?d)"
        using dispatch_lands r(2) ready_others [OF w(1)] by blast
      have w2: "ready en ?w2" using w1 by (simp add: ready_def)
      let ?answer = "ce_adapter en (cw_tick w1) (request_json rq)"
      have "lands en ?aid ?w2 (snd (handle_answer en s rq ?aid ?answer ?w2))"
        by (rule handle_answer_lands [OF w2 w(2)]) (simp add: ins)
      moreover have "calm en ?w2 (snd (handle_answer en s rq ?aid ?answer ?w2))"
        using calm_handle_answer by (simp add: calm.keeps_def)
      moreover have "dispatch_request en s cid prepared a rq w = handle_answer en s rq ?aid ?answer ?w2"
        using x r by (simp add: dispatch_request_def act_bind_def send_def)
      ultimately show ?thesis using ready_calm [OF w2] ins d by (auto simp: lands_def)
    next
      assume r: "r = Inr None" "cw_db w1 = ?d"
      have "dispatch_request en s cid prepared a rq w = ?reread w1"
        using x r by (simp add: dispatch_request_def act_bind_def)
      moreover have "settling en w1 (snd (?reread w1))" using reread by (simp add: settling.keeps_def)
      ultimately show ?thesis using w1 w(2) r(2) d by (simp add: settling_def)
    qed
  qed
qed

lemma settling_prepared: "settling.keeps en (run_prepared en s cid prepared)"
  unfolding run_prepared_def
  by (intro settling.keeps_bind settling.keeps_if settling.keeps_option settling_record_attempt settling_give
      settling_record_failure settling_dispatch)

lemma settling_run: "settling.keeps en (coordinator_run en s)"
  unfolding coordinator_run_def Let_def
  by (intro settling.keeps_if settling.keeps_bind settling.keeps_option settling.keeps_sum settling.keeps_try
      settling.keeps_return settling.keeps_raise settling_give settling_read settling_replay settling_prepared
      settling_stored) (rule model_step.prepare, assumption, simp add: prepare_lands)

text \<open>
  Claim C27. A run settles what it dispatched: when others leave the attempts alone meanwhile, whatever the adapter
  answers and whatever the journal refuses, also when the run itself raises, no attempt is dispatched after
  a run that was not dispatched before it.
\<close>

theorem run_leaves_nothing_dispatched:
  assumes "model_reachable (ce_sha en) (ce_text en) (cw_db w)" and "others_are_steps en"
    and "\<forall>t d. model_attempts (ce_others en t d) = model_attempts d"
    and "coordinator_run en s w = (r, w')"
  shows "{ma_id a | a. a \<in> set (model_attempts (cw_db w')) \<and> ma_status a = Dispatched} \<subseteq>
    {ma_id a | a. a \<in> set (model_attempts (cw_db w)) \<and> ma_status a = Dispatched}"
proof -
  have "ready en w" using assms(1,2) model_reachable_ok by (simp add: ready_def)
  moreover have "attempts_alone en" using assms(3) by (simp add: attempts_alone_def)
  moreover have "settling en w w'" using settling_run assms(4) by (rule settling.keepsD)
  ultimately show ?thesis by (simp add: settling_def dispatched_ids_def)
qed

theorem run_leaves_nothing_dispatched_witness:
  "\<exists>r (w :: call_world). coordinator_run demo_call_environment demo_submission demo_call_world = (r, w) \<and> cw_sent w \<noteq> [] \<and>
     \<not> (\<exists>a. a \<in> set (model_attempts (cw_db w)) \<and> ma_status a = Dispatched)"
proof -
  obtain r w where run: "coordinator_run demo_call_environment demo_submission demo_call_world = (Inr r, w)" "cw_sent w \<noteq> []"
    using demo_call_run by blast
  have "model_reachable (ce_sha demo_call_environment) (ce_text demo_call_environment) (cw_db demo_call_world)"
    by (simp add: demo_call_world_def demo_call_reachable)
  moreover have "\<forall>t d. model_attempts (ce_others demo_call_environment t d) = model_attempts d"
    by (simp add: demo_call_environment_def)
  ultimately have "{ma_id a | a. a \<in> set (model_attempts (cw_db w)) \<and> ma_status a = Dispatched} \<subseteq>
      {ma_id a | a. a \<in> set (model_attempts (cw_db demo_call_world)) \<and> ma_status a = Dispatched}"
    by (rule run_leaves_nothing_dispatched [OF _ demo_call_others _ run(1)])
  then have "\<not> (\<exists>a. a \<in> set (model_attempts (cw_db w)) \<and> ma_status a = Dispatched)"
    by (auto simp: demo_call_world_def demo_tables)
  with run show ?thesis by blast
qed

end
