(* ===== verification/Fake_Adapter.thy ===== *)
theory Fake_Adapter
  imports Coordinator
begin

text \<open>
  The offline adapter of \<^verbatim>\<open>v1/model_adapter.py\<close> (\<^verbatim>\<open>DeterministicFakeModelAdapter\<close>): its answer to a request, and
  that the coordinator accepts this answer.
\<close>

definition fake_suffix :: "(json \<Rightarrow> string) \<Rightarrow> planning_request \<Rightarrow> string" where
  "fake_suffix sha rq = take 12 (stable_hash sha (JObj
     [(''input_hash'', JStr (pq_input_hash rq)),
      (''request'', JStr (stable_hash sha (JObj (request_json rq))))]))"

definition fake_candidate :: "(json \<Rightarrow> string) \<Rightarrow> planning_request \<Rightarrow> planning_candidate" where
  "fake_candidate sha rq =
     \<lparr>cd_id = ''candidate_'' @ fake_suffix sha rq, cd_version = 1,
      cd_summary = ''Deterministic offline planning candidate.'',
      cd_steps =
        [\<lparr>cd_step = ''step_'' @ fake_suffix sha rq, cd_title = ''Prepare planning artifact'',
          cd_description = ''A deterministic, non-executing planning step.'', cd_tool = hd (pq_tools rq),
          cd_args = [(''path'', JStr (''deliverables/plan_'' @ take 12 (pq_input_hash rq) @ ''.json''))],
          cd_deps = []\<rparr>]\<rparr>"

definition fake_usage :: "planning_request \<Rightarrow> model_tokens" where
  "fake_usage rq =
     (let n = min 16 (pq_max_output rq) in \<lparr>mt_input = 0, mt_output = n, mt_total = n, mt_cost = 0\<rparr>)"

text \<open>A candidate or a response that pydantic or the validation refuses raises.\<close>

definition fake_response ::
    "(json \<Rightarrow> string) \<Rightarrow> (rat \<Rightarrow> string) \<Rightarrow> planning_request \<Rightarrow> model_response option" where
  "fake_response sha fl rq =
     (case parse_candidate (JObj (candidate_json (fake_candidate sha rq))) of
        None \<Rightarrow> None
      | Some c \<Rightarrow>
          (case validate_planning_candidate sha fl (pq_tools rq) c of
             Inl e \<Rightarrow> None
           | Inr (c', h) \<Rightarrow>
               parse_response sha (response_json \<lparr>mr_request = stable_hash sha (JObj (request_json rq)),
                 mr_candidate = c', mr_hash = h, mr_usage = fake_usage rq\<rparr>)))"

definition fake_adapter ::
    "(json \<Rightarrow> string) \<Rightarrow> (rat \<Rightarrow> string) \<Rightarrow> string list \<Rightarrow> string list \<Rightarrow> planning_request \<Rightarrow> adapter_answer" where
  "fake_adapter sha fl failing unknown rq =
     (if pq_input_hash rq \<in> set failing then KnownFailure (JStr ''KNOWN_FAILURE'')
      else if pq_input_hash rq \<in> set unknown then UnknownFailure (JStr ''UNKNOWN_OUTCOME'')
      else case fake_response sha fl rq of
        None \<Rightarrow> OtherFailure
      | Some rp \<Rightarrow> Answer (response_json rp))"

section \<open>The candidate is well formed\<close>

definition hex_text :: "string \<Rightarrow> bool" where
  "hex_text s \<longleftrightarrow> (\<forall>c \<in> set s. c \<in> set ''0123456789abcdef'')"

lemma hex_take: "is_sha256 s \<Longrightarrow> hex_text (take n s)"
  unfolding is_sha256_def hex_text_def by (blast dest: in_set_takeD)

lemma hex_char:
  assumes "hex_text s" and "c \<in> set s"
  shows "is_alnum c" "c \<noteq> CHR ''/''" "c \<noteq> CHR 0x5C"
proof -
  have "list_all (\<lambda>c. is_alnum c \<and> c \<noteq> CHR ''/'' \<and> c \<noteq> CHR 0x5C) ''0123456789abcdef''" by code_simp
  then show "is_alnum c" "c \<noteq> CHR ''/''" "c \<noteq> CHR 0x5C"
    using assms unfolding hex_text_def list_all_iff by blast+
qed

lemma char_count_bound: "length s \<le> n \<Longrightarrow> char_count s \<le> n"
  unfolding char_count_def by (rule order_trans [OF length_filter_le])

lemma hex_rest: "hex_text s \<Longrightarrow> list_all (\<lambda>c. is_alnum c \<or> c \<in> set ''_.:-'') s"
  unfolding list_all_iff by (blast dest: hex_char(1))

lemma fake_identifiers:
  assumes "hex_text s" and "length s \<le> 12"
  shows "is_identifier (''candidate_'' @ s)" "is_identifier (''step_'' @ s)"
  using assms hex_rest [OF assms(1)]
  by (simp_all add: is_identifier_def matches_name_def is_alnum_def is_alpha_def byte_def)

lemma split_no_slash: "CHR ''/'' \<notin> set s \<Longrightarrow> py_split (CHR ''/'') s = [s]"
  by (induction s) auto

lemma fake_path_safe:
  assumes "hex_text s"
  shows "\<not> unsafe_path (''deliverables/plan_'' @ s @ ''.json'')"
proof -
  have slashes: "CHR 0x5C \<notin> set s" "CHR ''/'' \<notin> set s" using hex_char(2,3) [OF assms] by blast+
  then have same: "forward_slashes (''deliverables/plan_'' @ s @ ''.json'') = ''deliverables/plan_'' @ s @ ''.json''"
    by (auto simp: forward_slashes_def intro: map_idI)
  have "py_split (CHR ''/'') (''plan_'' @ s @ ''.json'') = [''plan_'' @ s @ ''.json'']"
    using slashes by (intro split_no_slash) simp
  then have "path_parts (''deliverables/plan_'' @ s @ ''.json'') = [''deliverables'', ''plan_'' @ s @ ''.json'']"
    by (simp add: path_parts_def)
  then show ?thesis
    unfolding unsafe_path_def Let_def same
    by (simp add: is_absolute_def starts_with_def drive_absolute_def cont_def byte_def)
qed

lemma tool_name_bound: "is_tool_name s \<Longrightarrow> length s \<le> 120"
  by (simp add: is_tool_name_def matches_name_def)

lemma fake_step_ok:
  assumes "hex_text s" "length s \<le> 12" "hex_text h" "length h \<le> 12" "is_tool_name tool"
  shows "step_fields_ok \<lparr>cd_step = ''step_'' @ s, cd_title = ''Prepare planning artifact'',
      cd_description = ''A deterministic, non-executing planning step.'', cd_tool = tool,
      cd_args = [(''path'', JStr (''deliverables/plan_'' @ h @ ''.json''))], cd_deps = []\<rparr>"
proof -
  have "char_count ''Prepare planning artifact'' \<le> 240"
    "char_count ''A deterministic, non-executing planning step.'' \<le> 2000" "char_count ''path'' \<le> 120"
    "char_count (''deliverables/plan_'' @ h @ ''.json'') \<le> 8000"
    using assms(4) by (intro char_count_bound; simp)+
  moreover have "\<not> sensitive_key ''path''" by code_simp
  ultimately show ?thesis using assms fake_identifiers(2) [OF assms(1,2)] by (simp add: step_fields_ok_def)
qed

lemma fake_candidate_small:
  assumes "length s \<le> 12" "length h \<le> 12" "length tool \<le> 120"
  shows "length (json_text fl (JObj (candidate_json \<lparr>cd_id = ''candidate_'' @ s, cd_version = 1,
      cd_summary = ''Deterministic offline planning candidate.'',
      cd_steps = [\<lparr>cd_step = ''step_'' @ s, cd_title = ''Prepare planning artifact'',
          cd_description = ''A deterministic, non-executing planning step.'', cd_tool = tool,
          cd_args = [(''path'', JStr (''deliverables/plan_'' @ h @ ''.json''))], cd_deps = []\<rparr>]\<rparr>))) \<le> MAX_CANDIDATE_BYTES"
  using quoted_bound [of "''candidate_'' @ s"] quoted_bound [of "''step_'' @ s"] quoted_bound [of tool]
    quoted_bound [of "''deliverables/plan_'' @ h @ ''.json''"] assms
    quoted_bound [of "''id''"] quoted_bound [of "''version''"] quoted_bound [of "''summary''"] quoted_bound [of "''steps''"]
    quoted_bound [of "''schema_version''"] quoted_bound [of "''title''"] quoted_bound [of "''description''"]
    quoted_bound [of "''tool_name''"] quoted_bound [of "''tool_args''"] quoted_bound [of "''dependencies''"]
    quoted_bound [of "''path''"] quoted_bound [of "''Prepare planning artifact''"]
    quoted_bound [of "''A deterministic, non-executing planning step.''"]
    quoted_bound [of "''Deterministic offline planning candidate.''"]
  by (simp add: json_text_def candidate_json_def step_json_def sort_key_def MAX_CANDIDATE_BYTES_def
      int_text_def nat_text.simps)

lemma fake_usage_ok: "1 \<le> pq_max_output rq \<Longrightarrow> pq_max_output rq \<le> 32768 \<Longrightarrow> tokens_ok (fake_usage rq)"
  by (simp add: fake_usage_def tokens_ok_def min_def Let_def)

lemma parse_tokens_json: "tokens_ok u \<Longrightarrow> parse_tokens (JObj (tokens_json u)) = Some u"
  by (cases u) (simp add: parse_tokens_def tokens_json_def read_def dict_get_or_def only_fields_def Let_def)

lemma parse_response_json:
  assumes "is_sha256 (mr_request rp)" "is_sha256 (mr_hash rp)" "mr_hash rp = candidate_hash sha (mr_candidate rp)"
    and "tokens_ok (mr_usage rp)" "parse_candidate (JObj (candidate_json (mr_candidate rp))) = Some (mr_candidate rp)"
  shows "parse_response sha (response_json rp) = Some rp"
  using assms parse_tokens_json [OF assms(4)]
  by (simp add: parse_response_def response_json_def read_def dict_get_or_def only_fields_def Let_def)

text \<open>
  The offline adapter keeps the contract of an adapter: for every valid request whose input it is not
  told to fail, with any digest that prints 64 hexadecimal digits, it answers with a response that
  parses, names the hash of the request, and holds a candidate that validation accepts unchanged with
  the hash the response claims.
\<close>

lemma fake_answer_is_valid:
  assumes "request_ok rq" and "\<forall>v. is_sha256 (sha v)"
    and "pq_input_hash rq \<notin> set failing" and "pq_input_hash rq \<notin> set unknown"
  shows "\<exists>rp. fake_adapter sha fl failing unknown rq = Answer (response_json rp) \<and>
    parse_response sha (response_json rp) = Some rp \<and>
    mr_request rp = stable_hash sha (JObj (request_json rq)) \<and>
    validate_planning_candidate sha fl (pq_tools rq) (mr_candidate rp) = Inr (mr_candidate rp, mr_hash rp)"
proof -
  let ?c = "fake_candidate sha rq" and ?s = "fake_suffix sha rq" and ?h = "take 12 (pq_input_hash rq)"
  have hash: "is_sha256 (stable_hash sha v)" for v using assms(2) by (simp add: stable_hash_def)
  have s: "hex_text ?s" "length ?s \<le> 12" using hash by (auto simp: fake_suffix_def intro: hex_take)
  have "is_sha256 (pq_input_hash rq)" using assms(1) by (simp add: request_ok_def)
  then have h: "hex_text ?h" "length ?h \<le> 12" by (auto intro: hex_take)
  have tools: "pq_tools rq \<noteq> []" "list_all is_tool_name (pq_tools rq)" using assms(1) by (auto simp: request_ok_def)
  then have tool: "is_tool_name (hd (pq_tools rq))" "hd (pq_tools rq) \<in> set (pq_tools rq)"
    by (cases "pq_tools rq", simp_all)+
  have "char_count ''Deterministic offline planning candidate.'' \<le> 2000" by (rule char_count_bound) simp
  then have parsed: "parse_candidate (JObj (candidate_json ?c)) = Some ?c"
    using fake_identifiers(1) [OF s] fake_step_ok [OF s h tool(1)]
    by (intro parse_candidate_json) (simp_all add: fake_candidate_def)
  have small: "length (json_text fl (JObj (candidate_json ?c))) \<le> MAX_CANDIDATE_BYTES"
    unfolding fake_candidate_def by (rule fake_candidate_small [OF s(2) h(2) tool_name_bound [OF tool(1)]])
  have "check_steps (pq_tools rq) (map cd_step (cd_steps ?c)) (cd_steps ?c) = Inr ()"
    using tool(2) fake_path_safe [OF h(1)] by (simp add: fake_candidate_def)
  moreover have "\<not> has_dependency_cycle (cd_steps ?c)"
    by (simp add: has_dependency_cycle_def fake_candidate_def visit.simps)
  ultimately have valid: "validate_planning_candidate sha fl (pq_tools rq) ?c = Inr (?c, candidate_hash sha ?c)"
    using small by (simp add: validate_planning_candidate_def fake_candidate_def)
  define rp where "rp = \<lparr>mr_request = stable_hash sha (JObj (request_json rq)), mr_candidate = ?c,
      mr_hash = candidate_hash sha ?c, mr_usage = fake_usage rq\<rparr>"
  have "tokens_ok (fake_usage rq)" using assms(1) by (intro fake_usage_ok) (simp_all add: request_ok_def)
  then have rp: "parse_response sha (response_json rp) = Some rp"
    using hash parsed by (intro parse_response_json) (simp_all add: rp_def candidate_hash_def)
  then have "fake_response sha fl rq = Some rp"
    using parsed valid by (simp add: fake_response_def rp_def [symmetric])
  then have "fake_adapter sha fl failing unknown rq = Answer (response_json rp)"
    using assms(3,4) by (simp add: fake_adapter_def)
  then show ?thesis using rp valid by (intro exI [of _ rp]) (simp add: rp_def)
qed

definition fake_request :: planning_request where
  "fake_request = \<lparr>pq_quest = ''q'', pq_prompt = ''v1'', pq_input_hash = replicate 64 (CHR ''a''), pq_contract = ''c'',
     pq_contract_version = 1, pq_contract_hash = replicate 64 (CHR ''b''), pq_plan = ''p'', pq_plan_version = 1,
     pq_plan_hash = replicate 64 (CHR ''c''), pq_expected = 4, pq_tools = [''write_file''], pq_max_output = 100,
     pq_parameters = []\<rparr>"

lemma fake_answer_is_valid_witness:
  "\<exists>rp. fake_adapter (\<lambda>v. replicate 64 (CHR ''d'')) (\<lambda>x. []) [] [replicate 64 (CHR ''b'')] fake_request = Answer (response_json rp) \<and>
     mr_request rp = replicate 64 (CHR ''d'')"
proof -
  have "request_ok fake_request"
    by (simp add: request_ok_def fake_request_def is_sha256_def) code_simp
  moreover have "\<forall>v :: json. is_sha256 (replicate 64 (CHR ''d''))" by (simp add: is_sha256_def)
  moreover have "pq_input_hash fake_request \<notin> set []" by simp
  moreover have "pq_input_hash fake_request \<notin> set [replicate 64 (CHR ''b'')]"
    by (simp add: fake_request_def)
  ultimately obtain rp where
    "fake_adapter (\<lambda>v. replicate 64 (CHR ''d'')) (\<lambda>x. []) [] [replicate 64 (CHR ''b'')] fake_request = Answer (response_json rp)"
    "mr_request rp = stable_hash (\<lambda>v. replicate 64 (CHR ''d'')) (JObj (request_json fake_request))"
    using fake_answer_is_valid [of fake_request "\<lambda>v. replicate 64 (CHR ''d'')" "[]" "[replicate 64 (CHR ''b'')]" "\<lambda>x. []"] by blast
  then show ?thesis by (auto simp: stable_hash_def)
qed

end
