(* ===== verification/Retrieval.thy ===== *)
theory Retrieval
  imports Candidate
begin

text \<open>
  Retrieval over documents given by the caller (\<^verbatim>\<open>v1/rag.py\<close>): the documents and their checks, the split
  into chunks, the index, the search and the verification of its citations. Offsets count code points, so
  the texts here are lists of code points; \<open>utf8\<close> gives the bytes that are hashed. The tables of Unicode
  (normal form C, case folding) are inputs. The digest prints 64 hexadecimal digits, so the patterns of
  the hash fields never fail.
\<close>

section \<open>Text\<close>

type_synonym codepoints = "nat list"

record unicode =
  uc_nfc :: "codepoints \<Rightarrow> codepoints"
  uc_fold :: "nat \<Rightarrow> codepoints"

definition casefold :: "unicode \<Rightarrow> codepoints \<Rightarrow> codepoints" where
  "casefold uc t = concat (map (uc_fold uc) t)"

definition between :: "nat \<Rightarrow> nat \<Rightarrow> nat \<Rightarrow> bool" where
  "between lo hi c \<longleftrightarrow> lo \<le> c \<and> c \<le> hi"

text \<open>\<^verbatim>\<open>str.isspace\<close> of one character, and \<^verbatim>\<open>str.strip\<close>.\<close>

definition py_space :: "nat \<Rightarrow> bool" where
  "py_space c \<longleftrightarrow> between 9 13 c \<or> between 28 32 c \<or> c = 0x85 \<or> c = 0xA0 \<or> c = 0x1680 \<or> between 0x2000 0x200A c \<or>
     c = 0x2028 \<or> c = 0x2029 \<or> c = 0x202F \<or> c = 0x205F \<or> c = 0x3000"

definition strip :: "codepoints \<Rightarrow> codepoints" where
  "strip t = rev (dropWhile py_space (rev (dropWhile py_space t)))"

text \<open>Surrogates are code points without a UTF-8 form.\<close>

definition encodable :: "codepoints \<Rightarrow> bool" where
  "encodable t \<longleftrightarrow> list_all (\<lambda>c. c < 0x110000 \<and> \<not> between 0xD800 0xDFFF c) t"

definition utf8_char :: "nat \<Rightarrow> string" where
  "utf8_char c =
     (let tail = (\<lambda>n. char_of (0x80 + c div n mod 64))
      in if c < 0x80 then [char_of c]
         else if c < 0x800 then [char_of (0xC0 + c div 64), tail 1]
         else if c < 0x10000 then [char_of (0xE0 + c div 4096), tail 64, tail 1]
         else [char_of (0xF0 + c div 262144), tail 4096, tail 64, tail 1])"

definition utf8 :: "codepoints \<Rightarrow> string" where
  "utf8 t = concat (map utf8_char t)"

text \<open>
  The characters of \<^verbatim>\<open>[a-z0-9]\<close> when case is ignored: beside the ASCII letters these are the dotted capital
  I, the dotless i, the long s and the Kelvin sign.
\<close>

definition word_char :: "nat \<Rightarrow> bool" where
  "word_char c \<longleftrightarrow> between 97 122 c \<or> between 65 90 c \<or> between 48 57 c \<or> c \<in> {0x130, 0x131, 0x17F, 0x212A}"

definition han_char :: "nat \<Rightarrow> bool" where
  "han_char c \<longleftrightarrow> between 0x3400 0x9FFF c"

function find_tokens :: "codepoints \<Rightarrow> codepoints list" where
  "find_tokens [] = []"
| "find_tokens (c # cs) =
     (if word_char c then (c # takeWhile word_char cs) # find_tokens (dropWhile word_char cs)
      else if han_char c then [c] # find_tokens cs
      else find_tokens cs)"
  by pat_completeness auto

termination by (relation "measure length") (simp_all add: less_Suc_eq_le length_dropWhile_le)

definition tokens :: "unicode \<Rightarrow> codepoints \<Rightarrow> codepoints list" where
  "tokens uc t = find_tokens (casefold uc t)"

section \<open>Documents\<close>

text \<open>\<open>Rejected\<close> is \<^verbatim>\<open>RAGValidationError\<close> with its code; \<open>Escaped\<close> is any other exception.\<close>

datatype rag_error = Rejected string | Escaped string

record rag_document =
  rd_id :: string
  rd_revision :: int
  rd_text :: codepoints
  rd_metadata :: "(codepoints \<times> codepoints) list"

definition MAX_DOCUMENTS :: nat where "MAX_DOCUMENTS = 64"
definition MAX_DOCUMENT_BYTES :: nat where "MAX_DOCUMENT_BYTES = 262144"
definition MAX_INDEX_BYTES :: nat where "MAX_INDEX_BYTES = 1048576"
definition MAX_QUERY_BYTES :: nat where "MAX_QUERY_BYTES = 4096"
definition MAX_TOP_K :: int where "MAX_TOP_K = 20"
definition MAX_CHUNK_CHARS :: nat where "MAX_CHUNK_CHARS = 800"
definition MAX_METADATA_ITEMS :: nat where "MAX_METADATA_ITEMS = 16"

definition metadata_markers :: "string list" where
  "metadata_markers = [''api_key'', ''apikey'', ''authorization'', ''credential'', ''password'', ''prompt'', ''secret'', ''token'']"

definition ascii :: "string \<Rightarrow> codepoints" where
  "ascii s = map byte s"

definition metadata_item_ok :: "unicode \<Rightarrow> codepoints \<Rightarrow> codepoints \<Rightarrow> bool" where
  "metadata_item_ok uc k v \<longleftrightarrow> k \<noteq> [] \<and> length k \<le> 80 \<and> length v \<le> 1000 \<and>
     \<not> list_ex (\<lambda>m. sublist (ascii m) (casefold uc k)) metadata_markers"

fun validate_metadata ::
    "unicode \<Rightarrow> (codepoints \<times> codepoints) list \<Rightarrow> (codepoints \<times> codepoints) list \<Rightarrow> (codepoints \<times> codepoints) list option" where
  "validate_metadata uc done_items [] = Some (sort_key fst done_items)"
| "validate_metadata uc done_items ((key, item) # rest) =
     (if 0 \<in> set key \<or> 0 \<in> set item then None
      else let k = uc_nfc uc key; v = uc_nfc uc item
      in if \<not> metadata_item_ok uc k v \<or> k \<in> fst ` set done_items then None
         else validate_metadata uc (done_items @ [(k, v)]) rest)"

definition normalize_document_text :: "unicode \<Rightarrow> codepoints \<Rightarrow> codepoints option" where
  "normalize_document_text uc value =
     (let t = uc_nfc uc value
      in if 0 \<in> set value \<or> strip t = [] \<or> MAX_DOCUMENT_BYTES < length (utf8 t) then None else Some t)"

text \<open>The fields of a mapping that is given in the place of a document, with their types and bounds.\<close>

definition document_of_fields :: "unicode \<Rightarrow> rag_document \<Rightarrow> rag_document option" where
  "document_of_fields uc d =
     (if \<not> is_identifier (rd_id d) \<or> rd_revision d < 1 \<or> 1000000000 < rd_revision d \<or> rd_text d = [] \<or>
         MAX_DOCUMENT_BYTES < length (rd_text d) \<or> MAX_METADATA_ITEMS < length (rd_metadata d) \<or>
         \<not> encodable (rd_text d) \<or> \<not> list_all (\<lambda>(k, v). encodable k \<and> encodable v) (rd_metadata d)
      then None
      else case (normalize_document_text uc (rd_text d), validate_metadata uc [] (rd_metadata d)) of
        (Some t, Some m) \<Rightarrow> Some (d\<lparr>rd_text := t, rd_metadata := m\<rparr>)
      | _ \<Rightarrow> None)"

text \<open>A document, a mapping with its fields, or anything else.\<close>

datatype document_input = Document rag_document | Fields rag_document | NoDocument

definition parse_document :: "unicode \<Rightarrow> document_input \<Rightarrow> rag_error + rag_document" where
  "parse_document uc v =
     (case v of
        Document d \<Rightarrow> Inr d
      | Fields f \<Rightarrow> (case document_of_fields uc f of None \<Rightarrow> Inl (Rejected ''INVALID_DOCUMENT'') | Some d \<Rightarrow> Inr d)
      | NoDocument \<Rightarrow> Inl (Rejected ''INVALID_DOCUMENT''))"

fun parse_documents :: "unicode \<Rightarrow> document_input list \<Rightarrow> rag_error + rag_document list" where
  "parse_documents uc [] = Inr []"
| "parse_documents uc (v # vs) =
     andThen (parse_document uc v) (\<lambda>d. andThen (parse_documents uc vs) (\<lambda>ds. Inr (d # ds)))"

definition document_hash :: "(json \<Rightarrow> string) \<Rightarrow> rag_document \<Rightarrow> string" where
  "document_hash sha d = stable_hash sha (JObj
     [(''schema_version'', JInt 1), (''id'', JStr (rd_id d)), (''revision'', JInt (rd_revision d)),
      (''text'', JStr (utf8 (rd_text d))),
      (''metadata'', JObj (map (\<lambda>(k, v). (utf8 k, JStr (utf8 v))) (rd_metadata d)))])"

section \<open>Chunks\<close>

text \<open>\<^verbatim>\<open>text.rfind(c, lo, hi)\<close>\<close>

definition rfind :: "nat \<Rightarrow> codepoints \<Rightarrow> nat \<Rightarrow> nat \<Rightarrow> int" where
  "rfind c t lo hi = (case filter (\<lambda>i. t ! i = c) [lo ..< min hi (length t)] of [] \<Rightarrow> - 1 | i # is \<Rightarrow> int (last (i # is)))"

function skip_left :: "codepoints \<Rightarrow> nat \<Rightarrow> nat \<Rightarrow> nat" where
  "skip_left t s e = (if s < e \<and> py_space (t ! s) then skip_left t (Suc s) e else s)"
  by pat_completeness auto

termination by (relation "measure (\<lambda>(t, s, e). e - s)") auto

fun skip_right :: "codepoints \<Rightarrow> nat \<Rightarrow> nat \<Rightarrow> nat" where
  "skip_right t s 0 = 0"
| "skip_right t s (Suc e) = (if s < Suc e \<and> py_space (t ! e) then skip_right t s e else Suc e)"

declare skip_left.simps [simp del]

text \<open>Where the window that starts at an offset ends: after its last blank or newline, if there is one.\<close>

definition window_end :: "codepoints \<Rightarrow> nat \<Rightarrow> nat" where
  "window_end t s =
     (let e = min (s + MAX_CHUNK_CHARS) (length t)
      in if e < length t
         then let b = max (rfind 32 t s (e + 1)) (rfind 10 t s (e + 1))
              in if int s < b then nat b + 1 else e
         else e)"

lemma skip_left_le: "s \<le> skip_left t s e"
proof (induction t s e rule: skip_left.induct)
  case (1 t s e)
  then show ?case by (subst skip_left.simps) auto
qed

function split_from :: "codepoints \<Rightarrow> nat \<Rightarrow> (nat \<times> nat) list" where
  "split_from t s =
     (if s < length t
      then let e = window_end t s; s' = skip_left t s e; e' = skip_right t s' e;
               rest = split_from t (max e' (Suc s'))
           in if s' < e' then (s', e') # rest else rest
      else [])"
  by pat_completeness auto

termination
proof (relation "measure (\<lambda>(t, s). length t - s)")
  show "((t, max e' (Suc s')), t, s) \<in> measure (\<lambda>(t, s). length t - s)"
    if "s < length t" "e = window_end t s" "s' = skip_left t s e" for t s e s' e'
    using that skip_left_le [of s t e] by auto
qed simp

declare split_from.simps [simp del]

definition split_normalized_text :: "codepoints \<Rightarrow> (nat \<times> nat) list" where
  "split_normalized_text t = split_from t 0"

definition slice :: "codepoints \<Rightarrow> nat \<Rightarrow> nat \<Rightarrow> codepoints" where
  "slice t s e = drop s (take e t)"

section \<open>The index\<close>

record rag_chunk =
  rk_id :: string
  rk_document :: string
  rk_revision :: int
  rk_hash :: string
  rk_start :: nat
  rk_end :: nat
  rk_text_hash :: string
  rk_tokens :: "codepoints list"

record rag_index =
  ri_hash :: string
  ri_documents :: "rag_document list"
  ri_chunks :: "rag_chunk list"

definition chunk_json :: "rag_chunk \<Rightarrow> json" where
  "chunk_json c = JObj
     [(''id'', JStr (rk_id c)), (''document_id'', JStr (rk_document c)), (''document_revision'', JInt (rk_revision c)),
      (''document_hash'', JStr (rk_hash c)), (''normalized_start'', JInt (int (rk_start c))),
      (''normalized_end'', JInt (int (rk_end c))), (''text_hash'', JStr (rk_text_hash c)),
      (''tokens'', JList (map (\<lambda>t. JStr (utf8 t)) (rk_tokens c)))]"

text \<open>The chunks of a document from one ordinal on; an identifier that is too long raises.\<close>

fun chunks_from ::
    "unicode \<Rightarrow> (json \<Rightarrow> string) \<Rightarrow> rag_document \<Rightarrow> nat \<Rightarrow> (nat \<times> nat) list \<Rightarrow> rag_error + rag_chunk list" where
  "chunks_from uc sha d n [] = Inr []"
| "chunks_from uc sha d n ((s, e) # spans) =
     (let t = slice (rd_text d) s e; ts = tokens uc t; cid = rd_id d @ '':'' @ nat_text n
      in if ts = [] then chunks_from uc sha d (Suc n) spans
         else if \<not> is_identifier cid then Inl (Escaped ''ValidationError'')
         else andThen (chunks_from uc sha d (Suc n) spans) (\<lambda>cs. Inr
           (\<lparr>rk_id = cid, rk_document = rd_id d, rk_revision = rd_revision d, rk_hash = document_hash sha d,
             rk_start = s, rk_end = e, rk_text_hash = stable_hash sha (JStr (utf8 t)), rk_tokens = ts\<rparr> # cs)))"

fun chunks_of :: "unicode \<Rightarrow> (json \<Rightarrow> string) \<Rightarrow> rag_document list \<Rightarrow> rag_error + rag_chunk list" where
  "chunks_of uc sha [] = Inr []"
| "chunks_of uc sha (d # ds) =
     andThen (chunks_from uc sha d 1 (split_normalized_text (rd_text d))) (\<lambda>cs.
     andThen (chunks_of uc sha ds) (\<lambda>cs'. Inr (cs @ cs')))"

definition index_hash :: "(json \<Rightarrow> string) \<Rightarrow> rag_document list \<Rightarrow> rag_chunk list \<Rightarrow> string" where
  "index_hash sha ds cs = stable_hash sha (JObj
     [(''schema_version'', JInt 1),
      (''documents'', JList (map (\<lambda>d. JObj [(''id'', JStr (rd_id d)), (''revision'', JInt (rd_revision d)),
         (''document_hash'', JStr (document_hash sha d))]) ds)),
      (''chunks'', JList (map chunk_json cs))])"

definition index_of_documents :: "unicode \<Rightarrow> (json \<Rightarrow> string) \<Rightarrow> rag_document list \<Rightarrow> rag_error + rag_index" where
  "index_of_documents uc sha parsed =
     (if \<not> distinct (map rd_id parsed) then Inl (Rejected ''DUPLICATE_DOCUMENT_ID'')
      else if MAX_INDEX_BYTES < sum_list (map (\<lambda>d. length (utf8 (rd_text d))) parsed) then Inl (Rejected ''INDEX_BYTES_EXCEEDED'')
      else let ds = sort_key rd_id parsed
      in andThen (chunks_of uc sha ds) (\<lambda>cs.
         if cs = [] then Inl (Rejected ''NO_RETRIEVABLE_CONTENT'')
         else Inr \<lparr>ri_hash = index_hash sha ds cs, ri_documents = ds, ri_chunks = cs\<rparr>))"

definition build_index :: "unicode \<Rightarrow> (json \<Rightarrow> string) \<Rightarrow> document_input list \<Rightarrow> rag_error + rag_index" where
  "build_index uc sha documents =
     (if length documents < 1 \<or> MAX_DOCUMENTS < length documents then Inl (Rejected ''DOCUMENT_COUNT_OUT_OF_RANGE'')
      else andThen (parse_documents uc documents) (index_of_documents uc sha))"

section \<open>Search\<close>

definition parse_query :: "unicode \<Rightarrow> (json \<Rightarrow> string) \<Rightarrow> codepoints \<Rightarrow> rag_error + codepoints \<times> codepoints list \<times> string" where
  "parse_query uc sha query =
     (if 0 \<in> set query then Inl (Rejected ''INVALID_QUERY'')
      else let q = strip (uc_nfc uc query); ts = tokens uc q
      in if q = [] then Inl (Rejected ''INVALID_QUERY'')
         else if \<not> encodable q then Inl (Escaped ''UnicodeEncodeError'')
         else if MAX_QUERY_BYTES < length (utf8 q) then Inl (Rejected ''INVALID_QUERY'')
         else if ts = [] then Inl (Rejected ''NO_QUERY_TOKENS'')
         else Inr (q, ts, stable_hash sha (JStr (utf8 q))))"

definition require_top_k :: "json \<Rightarrow> rag_error + nat" where
  "require_top_k v =
     (case v of JInt n \<Rightarrow> if 1 \<le> n \<and> n \<le> MAX_TOP_K then Inr (nat n) else Inl (Rejected ''INVALID_TOP_K'')
      | _ \<Rightarrow> Inl (Rejected ''INVALID_TOP_K''))"

record rag_citation =
  rc_index :: string
  rc_query :: string
  rc_chunk :: string
  rc_document :: string
  rc_revision :: int
  rc_hash :: string
  rc_start :: nat
  rc_end :: nat
  rc_text_hash :: string

record rag_hit =
  rh_score :: nat
  rh_citation :: rag_citation

record search_result =
  rs_index :: string
  rs_query :: string
  rs_top_k :: nat
  rs_hits :: "rag_hit list"
  rs_bundle :: string

definition RETRIEVER_VERSION :: string where "RETRIEVER_VERSION = ''deterministic-lexical-v1''"
definition RANKER_VERSION :: string where "RANKER_VERSION = ''integer-token-phrase-v1''"

definition cite :: "rag_index \<Rightarrow> string \<Rightarrow> rag_chunk \<Rightarrow> rag_citation" where
  "cite ix query_hash c =
     \<lparr>rc_index = ri_hash ix, rc_query = query_hash, rc_chunk = rk_id c, rc_document = rk_document c,
      rc_revision = rk_revision c, rc_hash = rk_hash c, rc_start = rk_start c, rc_end = rk_end c,
      rc_text_hash = rk_text_hash c\<rparr>"

definition require_canonical_index :: "unicode \<Rightarrow> (json \<Rightarrow> string) \<Rightarrow> rag_index \<Rightarrow> rag_error + unit" where
  "require_canonical_index uc sha ix =
     andThen (build_index uc sha (map Document (ri_documents ix))) (\<lambda>expected.
     if ix = expected then Inr () else Inl (Rejected ''INVALID_INDEX''))"

definition citation_json :: "rag_citation \<Rightarrow> json" where
  "citation_json c = JObj
     [(''index_hash'', JStr (rc_index c)), (''query_hash'', JStr (rc_query c)), (''chunk_id'', JStr (rc_chunk c)),
      (''document_id'', JStr (rc_document c)), (''document_revision'', JInt (rc_revision c)),
      (''document_hash'', JStr (rc_hash c)), (''normalized_start'', JInt (int (rc_start c))),
      (''normalized_end'', JInt (int (rc_end c))), (''text_hash'', JStr (rc_text_hash c))]"

definition bundle_hash :: "(json \<Rightarrow> string) \<Rightarrow> string \<Rightarrow> string \<Rightarrow> nat \<Rightarrow> rag_hit list \<Rightarrow> string" where
  "bundle_hash sha ih qh k hits = stable_hash sha (JObj
     [(''schema_version'', JInt 1), (''index_hash'', JStr ih), (''query_hash'', JStr qh),
      (''retriever_version'', JStr RETRIEVER_VERSION), (''ranker_version'', JStr RANKER_VERSION),
      (''requested_top_k'', JInt (int k)),
      (''hits'', JList (map (\<lambda>h. JObj [(''score'', JInt (int (rh_score h))), (''citation'', citation_json (rh_citation h))]) hits))])"

definition chunk_text :: "rag_index \<Rightarrow> rag_chunk \<Rightarrow> rag_error + codepoints" where
  "chunk_text ix c =
     (case find (\<lambda>d. rd_id d = rk_document c) (ri_documents ix) of
        None \<Rightarrow> Inl (Rejected ''INVALID_INDEX'')
      | Some d \<Rightarrow> Inr (slice (rd_text d) (rk_start c) (rk_end c)))"

text \<open>The keys of a \<^verbatim>\<open>Counter\<close>, in the order of their first occurrence.\<close>

definition counted :: "codepoints list \<Rightarrow> codepoints list" where
  "counted ts = rev (remdups (rev ts))"

definition token_score :: "codepoints list \<Rightarrow> codepoints list \<Rightarrow> nat" where
  "token_score query chunk =
     sum_list (map (\<lambda>t. min (count_list query t) (count_list chunk t) * 10) (filter (\<lambda>t. t \<in> set chunk) (counted query)))"

definition chunk_score :: "unicode \<Rightarrow> codepoints \<Rightarrow> codepoints list \<Rightarrow> rag_chunk \<Rightarrow> codepoints \<Rightarrow> nat" where
  "chunk_score uc q ts c t =
     token_score ts (rk_tokens c) + (if sublist (casefold uc q) (casefold uc t) then 100 else 0)"

fun score_chunks ::
    "unicode \<Rightarrow> rag_index \<Rightarrow> codepoints \<Rightarrow> codepoints list \<Rightarrow> rag_chunk list \<Rightarrow> rag_error + (nat \<times> rag_chunk) list" where
  "score_chunks uc ix q ts [] = Inr []"
| "score_chunks uc ix q ts (c # cs) =
     andThen (chunk_text ix c) (\<lambda>t. andThen (score_chunks uc ix q ts cs) (\<lambda>rest.
     let n = chunk_score uc q ts c t in Inr (if n = 0 then rest else (n, c) # rest)))"

definition rank_key :: "nat \<times> rag_chunk \<Rightarrow> int \<times> string \<times> nat \<times> string" where
  "rank_key x = (case x of (n, c) \<Rightarrow> (- int n, rk_document c, rk_start c, rk_id c))"

definition search :: "unicode \<Rightarrow> (json \<Rightarrow> string) \<Rightarrow> rag_index \<Rightarrow> codepoints \<Rightarrow> json \<Rightarrow> rag_error + search_result" where
  "search uc sha ix query top_k =
     andThen (require_canonical_index uc sha ix) (\<lambda>_.
     andThen (parse_query uc sha query) (\<lambda>(q, ts, qh).
     andThen (require_top_k top_k) (\<lambda>k.
     andThen (score_chunks uc ix q ts (ri_chunks ix)) (\<lambda>scored.
     let hits = map (\<lambda>(n, c). \<lparr>rh_score = n, rh_citation = cite ix qh c\<rparr>) (take k (sort_key rank_key scored))
     in Inr \<lparr>rs_index = ri_hash ix, rs_query = qh, rs_top_k = k, rs_hits = hits,
             rs_bundle = bundle_hash sha (ri_hash ix) qh k hits\<rparr>))))"

section \<open>Verification\<close>

text \<open>\<open>None\<close> is a mapping that pydantic refuses.\<close>

definition verify_citation ::
    "unicode \<Rightarrow> (json \<Rightarrow> string) \<Rightarrow> rag_index \<Rightarrow> codepoints \<Rightarrow> rag_citation option \<Rightarrow> rag_error + bool" where
  "verify_citation uc sha ix query citation =
     andThen (require_canonical_index uc sha ix) (\<lambda>_.
     andThen (parse_query uc sha query) (\<lambda>(q, ts, qh).
     case citation of
       None \<Rightarrow> Inr False
     | Some ct \<Rightarrow>
         if rc_index ct \<noteq> ri_hash ix \<or> rc_query ct \<noteq> qh then Inr False
         else case find (\<lambda>c. rk_id c = rc_chunk ct) (ri_chunks ix) of
           None \<Rightarrow> Inr False
         | Some c \<Rightarrow>
             if ct \<noteq> cite ix qh c then Inr False
             else andThen (chunk_text ix c) (\<lambda>t. Inr (stable_hash sha (JStr (utf8 t)) = rk_text_hash c))))"

definition verify_search_result ::
    "unicode \<Rightarrow> (json \<Rightarrow> string) \<Rightarrow> rag_index \<Rightarrow> codepoints \<Rightarrow> search_result option \<Rightarrow> rag_error + bool" where
  "verify_search_result uc sha ix query result =
     (case result of
        None \<Rightarrow> Inr False
      | Some r \<Rightarrow>
          (case search uc sha ix query (JInt (int (rs_top_k r))) of
             Inl (Rejected code) \<Rightarrow> Inr False
           | Inl e \<Rightarrow> Inl e
           | Inr expected \<Rightarrow>
               Inr (r = expected \<and> rs_bundle r = bundle_hash sha (rs_index r) (rs_query r) (rs_top_k r) (rs_hits r))))"

end
