(* ===== verification/Retrieval_Properties.thy ===== *)
theory Retrieval_Properties
  imports Retrieval "HOL-Library.Multiset"
begin

text \<open>
  Properties of retrieval: what the split of a text into chunks covers, that an index does not depend on the
  order of the documents, that a search returns the best chunks, and that exactly the citations of chunks
  of the index verify.
\<close>

section \<open>Splitting\<close>

lemma rfind_cases:
  obtains "rfind c t lo hi = - 1"
  | i where "rfind c t lo hi = int i" "lo \<le> i" "i < hi" "i < length t" "t ! i = c"
proof (cases "filter (\<lambda>i. t ! i = c) [lo ..< min hi (length t)]")
  case Nil
  then show ?thesis using that(1) by (simp add: rfind_def)
next
  case (Cons j js)
  have "last (j # js) \<in> set (filter (\<lambda>i. t ! i = c) [lo ..< min hi (length t)])"
    unfolding Cons by (rule last_in_set) simp
  then have "lo \<le> last (j # js) \<and> last (j # js) < hi \<and> last (j # js) < length t \<and> t ! last (j # js) = c" by auto
  moreover have "rfind c t lo hi = int (last (j # js))" using Cons by (simp add: rfind_def)
  ultimately show ?thesis using that(2) by blast
qed

lemma window_end_bounds:
  assumes "s < length t"
  shows "s < window_end t s \<and> window_end t s \<le> length t \<and> window_end t s \<le> s + 801 \<and>
    (window_end t s = s + 801 \<longrightarrow> py_space (t ! (window_end t s - 1)))"
proof -
  have blank: "py_space 32" "py_space 10" by (simp_all add: py_space_def between_def)
  define e where "e = min (s + MAX_CHUNK_CHARS) (length t)"
  define b where "b = max (rfind 32 t s (e + 1)) (rfind 10 t s (e + 1))"
  have w: "window_end t s = (if e < length t \<and> int s < b then nat b + 1 else e)"
    by (simp add: window_end_def e_def b_def Let_def)
  have e: "s < e" "e \<le> length t" "e \<le> s + 800" using assms by (auto simp: e_def MAX_CHUNK_CHARS_def)
  have "\<exists>i. b = int i \<and> i \<le> e \<and> i < length t \<and> py_space (t ! i)" if "int s < b"
    by (rule rfind_cases [of 32 t s "e + 1"]; rule rfind_cases [of 10 t s "e + 1"])
      (use that blank in \<open>auto simp: b_def max_def split: if_splits\<close>)
  then show ?thesis using e by (cases "e < length t \<and> int s < b") (auto simp: w)
qed

lemma skip_left_bounds:
  "s \<le> e \<Longrightarrow> skip_left t s e \<le> e \<and> (\<forall>i. s \<le> i \<and> i < skip_left t s e \<longrightarrow> py_space (t ! i)) \<and>
     (skip_left t s e < e \<longrightarrow> \<not> py_space (t ! skip_left t s e))"
proof (induction t s e rule: skip_left.induct)
  case (1 t s e)
  show ?case
  proof (cases "s < e \<and> py_space (t ! s)")
    case True
    then have "skip_left t s e = skip_left t (Suc s) e" by (subst skip_left.simps) simp
    then show ?thesis using 1 True by (metis Suc_leI le_antisym not_less_eq_eq)
  next
    case False
    then have "skip_left t s e = s" by (subst skip_left.simps) auto
    then show ?thesis using 1 False by auto
  qed
qed

lemma skip_right_bounds:
  "s \<le> e \<Longrightarrow> s \<le> skip_right t s e \<and> skip_right t s e \<le> e \<and> (\<forall>i. skip_right t s e \<le> i \<and> i < e \<longrightarrow> py_space (t ! i)) \<and>
     (s < skip_right t s e \<longrightarrow> \<not> py_space (t ! (skip_right t s e - 1)))"
proof (induction t s e rule: skip_right.induct)
  case (2 t s e)
  then show ?case by (cases "s < Suc e \<and> py_space (t ! e)") (auto simp: less_Suc_eq)
qed simp

text \<open>One window of the split.\<close>

definition span_ok :: "codepoints \<Rightarrow> nat \<Rightarrow> nat \<times> nat \<Rightarrow> bool" where
  "span_ok t lo p \<longleftrightarrow> (case p of (s, e) \<Rightarrow> lo \<le> s \<and> s < e \<and> e \<le> length t \<and> e - s \<le> 800 \<and>
     \<not> py_space (t ! s) \<and> \<not> py_space (t ! (e - 1)))"

lemma span_ok_mono: "span_ok t lo p \<Longrightarrow> lo' \<le> lo \<Longrightarrow> span_ok t lo' p"
  by (auto simp: span_ok_def)

lemma split_window:
  assumes "s < length t"
  obtains (chunk) s' e' where "split_from t s = (s', e') # split_from t e'" "span_ok t s (s', e')"
      "\<And>i. s \<le> i \<Longrightarrow> i < s' \<Longrightarrow> py_space (t ! i)"
  | (blank) e where "split_from t s = split_from t (Suc e)" "s < e" "e \<le> length t"
      "\<And>i. s \<le> i \<Longrightarrow> i < e \<Longrightarrow> py_space (t ! i)"
proof -
  let ?e = "window_end t s" and ?s = "skip_left t s (window_end t s)"
  let ?e' = "skip_right t ?s ?e"
  note w = window_end_bounds [OF assms]
  have left: "s \<le> ?s" "?s \<le> ?e" "\<And>i. s \<le> i \<Longrightarrow> i < ?s \<Longrightarrow> py_space (t ! i)" "?s < ?e \<Longrightarrow> \<not> py_space (t ! ?s)"
    using skip_left_bounds [of s ?e t] skip_left_le [of s t ?e] w by auto
  have right: "?s \<le> ?e'" "?e' \<le> ?e" "\<And>i. ?e' \<le> i \<Longrightarrow> i < ?e \<Longrightarrow> py_space (t ! i)"
    "?s < ?e' \<Longrightarrow> \<not> py_space (t ! (?e' - 1))"
    using skip_right_bounds [of ?s ?e t] left(2) by auto
  have unfold: "split_from t s = (if ?s < ?e' then (?s, ?e') # split_from t (max ?e' (Suc ?s))
      else split_from t (max ?e' (Suc ?s)))"
    using assms by (subst split_from.simps) (simp add: Let_def)
  show thesis
  proof (cases "?s < ?e'")
    case True
    have "?e' - ?s \<le> 800"
    proof (cases "?e' = s + 801")
      case True
      then have "py_space (t ! (?e' - 1))" using w right(2) by auto
      then show ?thesis using right(4) \<open>?s < ?e'\<close> by blast
    next
      case False
      then show ?thesis using w right(2) left(1) by linarith
    qed
    then have "span_ok t s (?s, ?e')" using True left right(2,4) w by (auto simp: span_ok_def)
    then show ?thesis using chunk True unfold left(3) by (simp add: max_absorb1)
  next
    case False
    then have "?s = ?e"
      using left right by (metis le_antisym le_neq_implies_less)
    then show ?thesis using blank [of ?e] False unfold left(3) w right by (simp add: max_absorb2)
  qed
qed

lemma split_end: "length t \<le> s \<Longrightarrow> split_from t s = []"
  by (subst split_from.simps) simp

lemma split_from_spans:
  "(\<forall>p \<in> set (split_from t s). span_ok t s p) \<and>
   sorted_wrt (\<lambda>p p'. snd p \<le> fst p') (split_from t s)"
proof (induction "length t - s" arbitrary: s rule: less_induct)
  case less
  show ?case
  proof (cases "s < length t")
    case True
    then show ?thesis
    proof (cases rule: split_window)
      case (chunk s' e')
      then have "s < e'" by (auto simp: span_ok_def)
      then have "(\<forall>p \<in> set (split_from t e'). span_ok t e' p) \<and>
          sorted_wrt (\<lambda>p p'. snd p \<le> fst p') (split_from t e')"
        using less True by simp
      then show ?thesis using chunk(1,2) \<open>s < e'\<close>
        by (auto intro: span_ok_mono simp: span_ok_def)
    next
      case (blank e)
      then have "(\<forall>p \<in> set (split_from t (Suc e)). span_ok t (Suc e) p) \<and>
          sorted_wrt (\<lambda>p p'. snd p \<le> fst p') (split_from t (Suc e))"
        using less True by simp
      then show ?thesis using blank(1,2) by (auto intro: span_ok_mono)
    qed
  next
    case False
    then show ?thesis by (simp add: split_end)
  qed
qed

lemma split_from_covers:
  assumes "s \<le> p" "p < length t" "\<not> py_space (t ! p)"
  shows "(\<exists>(a, b) \<in> set (split_from t s). a \<le> p \<and> p < b) \<or> (s < p \<and> py_space (t ! (p - 1)))"
  using assms(1)
proof (induction "length t - s" arbitrary: s rule: less_induct)
  case less
  have "s < length t" using less(2) assms(2) by simp
  then show ?case
  proof (cases rule: split_window)
    case (chunk s' e')
    have e': "s < e'" "s' < e'" using chunk(2) by (auto simp: span_ok_def)
    show ?thesis
    proof (cases "p < e'")
      case True
      have "s' \<le> p" using chunk(3) [of p] less(2) assms(3) by force
      then show ?thesis using chunk(1) True by auto
    next
      case False
      then have "(\<exists>(a, b) \<in> set (split_from t e'). a \<le> p \<and> p < b) \<or> e' < p \<and> py_space (t ! (p - 1))"
        using less(1) [of e'] e' \<open>s < length t\<close> by simp
      then show ?thesis using chunk(1) e' by auto
    qed
  next
    case (blank e)
    have "e \<le> p" using blank(4) [of p] less(2) assms(3) by force
    show ?thesis
    proof (cases "p = e")
      case True
      then show ?thesis using blank(2) blank(4) [of "p - 1"] by auto
    next
      case False
      then have "(\<exists>(a, b) \<in> set (split_from t (Suc e)). a \<le> p \<and> p < b) \<or> Suc e < p \<and> py_space (t ! (p - 1))"
        using less(1) [of "Suc e"] \<open>e \<le> p\<close> \<open>s < length t\<close> blank(2) by simp
      then show ?thesis using blank(1,2) by auto
    qed
  qed
qed

text \<open>
  Claim C26. The split of a text (\<^verbatim>\<open>_split_normalized_text\<close>): the chunks lie inside the text in ascending
  order without overlap, each has between 1 and \<open>MAX_CHUNK_CHARS\<close> characters and neither begins nor ends
  with white space, and a character that is not white space is in some chunk unless white space
  comes directly before it.
\<close>

theorem split_covers_the_text:
  "sorted_wrt (\<lambda>a b. snd a \<le> fst b) (split_normalized_text t) \<and>
   (\<forall>(s, e) \<in> set (split_normalized_text t). s < e \<and> e \<le> length t \<and> e - s \<le> MAX_CHUNK_CHARS \<and>
      \<not> py_space (t ! s) \<and> \<not> py_space (t ! (e - 1))) \<and>
   (\<forall>p < length t. py_space (t ! p) \<or> (\<exists>(s, e) \<in> set (split_normalized_text t). s \<le> p \<and> p < e) \<or>
      0 < p \<and> py_space (t ! (p - 1)))"
proof (intro conjI)
  show "sorted_wrt (\<lambda>a b. snd a \<le> fst b) (split_normalized_text t)"
    unfolding split_normalized_text_def using split_from_spans by blast
  show "\<forall>(s, e) \<in> set (split_normalized_text t). s < e \<and> e \<le> length t \<and> e - s \<le> MAX_CHUNK_CHARS \<and>
      \<not> py_space (t ! s) \<and> \<not> py_space (t ! (e - 1))"
    using split_from_spans [of t 0] by (auto simp: split_normalized_text_def span_ok_def MAX_CHUNK_CHARS_def)
  show "\<forall>p < length t. py_space (t ! p) \<or> (\<exists>(s, e) \<in> set (split_normalized_text t). s \<le> p \<and> p < e) \<or>
      0 < p \<and> py_space (t ! (p - 1))"
    using split_from_covers [of 0 _ t] by (auto simp: split_normalized_text_def)
qed

theorem split_covers_the_text_witness:
  "\<exists>(s, e) \<in> set (split_normalized_text [97, 32, 98]). s \<le> 0 \<and> 0 < e"
proof -
  have "\<not> py_space ([97, 32, 98] ! 0)" by (simp add: py_space_def between_def)
  then show ?thesis
    using split_covers_the_text [of "[97, 32, 98]", THEN conjunct2, THEN conjunct2, rule_format, of 0] by simp
qed

text \<open>
  The exception is real: two line breaks before a long stretch without white space, and the first
  character of the stretch is in no chunk.
\<close>

definition indented_text :: codepoints where
  "indented_text = [10, 10] @ replicate 900 0x4E00"

lemma split_drops_a_character:
  "\<not> py_space (indented_text ! 2) \<and> \<not> (\<exists>(a, b) \<in> set (split_normalized_text indented_text). a \<le> 2 \<and> 2 < b)"
proof -
  let ?t = indented_text
  have l: "length ?t = 902" by (simp add: indented_text_def)
  have han: "?t ! i = 0x4E00" if "2 \<le> i" "i < 902" for i
    using that by (simp add: indented_text_def nth_append)
  have breaks: "?t ! 0 = 10" "?t ! 1 = 10" by (simp_all add: indented_text_def)
  have halves: "[0 ..< 801] = [0, 1] @ [2 ..< 801 :: nat]"
    by (subst upt_conv_Cons, simp, subst upt_conv_Cons, simp)
      (simp del: upt_rec_numeral add: eval_nat_numeral(2)[symmetric] numeral_2_eq_2 One_nat_def)
  have "filter (\<lambda>i. ?t ! i = 10) [2 ..< 801] = []" "filter (\<lambda>i. ?t ! i = 32) [2 ..< 801] = []"
    using han by (auto simp: filter_empty_conv simp del: upt_rec_numeral)
  then have "rfind 10 ?t 0 801 = 1" "rfind 32 ?t 0 801 = - 1"
    using breaks by (simp_all add: rfind_def l halves del: upt_rec_numeral)
  then have w: "window_end ?t 0 = 2" by (simp add: window_end_def l MAX_CHUNK_CHARS_def Let_def)
  have "skip_left ?t 0 2 = 2"
    using breaks by (simp add: skip_left.simps py_space_def between_def numeral_2_eq_2)
  moreover have "skip_right ?t 2 2 = 2"
    using skip_right_bounds [of 2 2 ?t] by simp
  ultimately have "split_normalized_text ?t = split_from ?t 3"
    by (simp add: split_normalized_text_def split_from.simps [of ?t 0] w l)
  moreover have "\<not> (\<exists>(a, b) \<in> set (split_from ?t 3). a \<le> 2 \<and> 2 < b)"
    using split_from_spans [of ?t 3] by (force simp: span_ok_def)
  moreover have "\<not> py_space (?t ! 2)" using han [of 2] by (simp add: py_space_def between_def)
  ultimately show ?thesis by simp
qed

section \<open>Documents and chunks\<close>

lemma parse_documents_cases:
  "parse_documents uc vs = Inr ds \<longleftrightarrow> map (parse_document uc) vs = map Inr ds"
  by (induction vs arbitrary: ds) (auto simp: result_simps Cons_eq_map_conv)

lemma parse_document_error: "parse_document uc v = Inl e \<Longrightarrow> e = Rejected ''INVALID_DOCUMENT''"
  by (cases v) (auto simp: parse_document_def split: option.splits)

lemma parse_documents_error: "parse_documents uc vs = Inl e \<Longrightarrow> e = Rejected ''INVALID_DOCUMENT''"
proof (induction vs)
  case (Cons v vs)
  then show ?case using parse_document_error [of uc v]
    by (cases "parse_document uc v"; cases "parse_documents uc vs") auto
qed simp

lemma parse_documents_permuted:
  assumes "mset vs = mset ws" and "parse_documents uc vs = Inr ds"
  shows "\<exists>es. parse_documents uc ws = Inr es \<and> mset es = mset ds"
proof -
  have vs: "map (parse_document uc) vs = map Inr ds" using assms(2) by (simp add: parse_documents_cases)
  have same: "mset (map (parse_document uc) ws) = mset (map Inr ds)" using assms(1) vs by (metis mset_map)
  define es where "es = map (projr \<circ> parse_document uc) ws"
  have "set (map (parse_document uc) ws) = set (map Inr ds)" using same by (rule mset_eq_setD)
  then have "parse_document uc w = Inr (projr (parse_document uc w))" if "w \<in> set ws" for w
  proof -
    have "parse_document uc w \<in> set (map (parse_document uc) ws)" using that by simp
    then have "parse_document uc w \<in> Inr ` set ds" unfolding \<open>set (map _ ws) = _\<close> by simp
    then show ?thesis by auto
  qed
  then have es: "map (parse_document uc) ws = map Inr es" by (simp add: es_def)
  have projr: "mset (map projr (map Inr xs :: (rag_error + rag_document) list)) = mset xs" for xs
    by (simp add: comp_def)
  have "mset es = mset ds"
    using same projr [of es] projr [of ds] unfolding es by (metis mset_map)
  with es have "\<exists>es. map (parse_document uc) ws = map Inr es \<and> mset es = mset ds" by blast
  then show ?thesis by (auto simp: parse_documents_cases)
qed

section \<open>The index\<close>

lemma index_of_documents_permuted:
  assumes "mset ds = mset es"
  shows "index_of_documents uc sha ds = index_of_documents uc sha es"
proof -
  have ids: "distinct (map rd_id ds) \<longleftrightarrow> distinct (map rd_id es)"
    using assms by (intro mset_eq_imp_distinct_iff) (metis mset_map)
  have bytes: "sum_list (map (\<lambda>d. length (utf8 (rd_text d))) ds) = sum_list (map (\<lambda>d. length (utf8 (rd_text d))) es)"
    using assms by (metis mset_map sum_mset_sum_list)
  have order: "sort_key rd_id ds = sort_key rd_id es" if "distinct (map rd_id ds)"
  proof (rule sort_key_inj_key_eq)
    show "mset ds = mset (sort_key rd_id es)" using assms by simp
    show "inj_on rd_id (set ds)" using that by (simp add: distinct_map)
  qed simp
  show ?thesis
  proof (cases "distinct (map rd_id ds)")
    case True
    then show ?thesis unfolding index_of_documents_def Let_def order [OF True] bytes using ids by simp
  next
    case False
    then show ?thesis unfolding index_of_documents_def using ids by simp
  qed
qed

text \<open>
  An index does not depend on the order in which its documents are given (\<^verbatim>\<open>build_index\<close>): any
  permutation of the documents gives the same index with the same hash, or the same error.
\<close>

lemma index_ignores_document_order:
  assumes "mset vs = mset ws"
  shows "build_index uc sha vs = build_index uc sha ws"
proof -
  have "length vs = length ws" using assms by (rule mset_eq_length)
  moreover have "andThen (parse_documents uc vs) (index_of_documents uc sha) =
      andThen (parse_documents uc ws) (index_of_documents uc sha)"
  proof (cases "parse_documents uc vs")
    case (Inr ds)
    obtain es where es: "parse_documents uc ws = Inr es" "mset es = mset ds"
      using parse_documents_permuted [OF assms Inr] by blast
    then show ?thesis using Inr index_of_documents_permuted [OF es(2)] by simp
  next
    case (Inl e)
    have "parse_documents uc ws \<noteq> Inr ds" for ds
      using parse_documents_permuted [OF assms [symmetric], of uc ds] Inl by auto
    then obtain e' where e': "parse_documents uc ws = Inl e'" by (cases "parse_documents uc ws") auto
    show ?thesis using Inl e' parse_documents_error [OF Inl] parse_documents_error [OF e'] by simp
  qed
  ultimately show ?thesis by (simp add: build_index_def)
qed

lemma build_index_cases:
  assumes "build_index uc sha vs = Inr ix"
  obtains ds where "parse_documents uc vs = Inr ds" "index_of_documents uc sha ds = Inr ix"
    "ri_documents ix = sort_key rd_id ds" "distinct (map rd_id (ri_documents ix))"
    "chunks_of uc sha (ri_documents ix) = Inr (ri_chunks ix)" "length vs = length ds"
    "1 \<le> length vs" "length vs \<le> MAX_DOCUMENTS"
proof -
  obtain ds where ds: "parse_documents uc vs = Inr ds" "index_of_documents uc sha ds = Inr ix"
    "1 \<le> length vs" "length vs \<le> MAX_DOCUMENTS"
    using assms by (auto simp: build_index_def result_simps Suc_le_eq split: if_splits)
  then have "map (parse_document uc) vs = map Inr ds" by (simp add: parse_documents_cases)
  then have "length vs = length ds" by (metis length_map)
  moreover have "ri_documents ix = sort_key rd_id ds" "chunks_of uc sha (sort_key rd_id ds) = Inr (ri_chunks ix)"
    "distinct (map rd_id ds)"
    using ds(2) by (auto simp: index_of_documents_def Let_def result_simps split: if_splits)
  moreover have "distinct (map rd_id (sort_key rd_id ds)) \<longleftrightarrow> distinct (map rd_id ds)"
    by (rule mset_eq_imp_distinct_iff) simp
  ultimately show thesis using that ds by simp
qed

lemma built_index_canonical:
  assumes "build_index uc sha vs = Inr ix"
  shows "require_canonical_index uc sha ix = Inr ()"
proof -
  from assms obtain ds where ds: "index_of_documents uc sha ds = Inr ix" "ri_documents ix = sort_key rd_id ds"
    "length vs = length ds" "1 \<le> length vs" "length vs \<le> MAX_DOCUMENTS"
    by (rule build_index_cases)
  have "parse_documents uc (map Document (ri_documents ix)) = Inr (ri_documents ix)"
    by (simp add: parse_documents_cases parse_document_def)
  moreover have "index_of_documents uc sha (ri_documents ix) = Inr ix"
    using index_of_documents_permuted [of "ri_documents ix" ds] ds(1,2) by simp
  ultimately have "build_index uc sha (map Document (ri_documents ix)) = Inr ix"
    using ds by (auto simp: build_index_def Suc_le_eq)
  then show ?thesis by (simp add: require_canonical_index_def)
qed

section \<open>Chunk identifiers\<close>

definition number_of :: "string \<Rightarrow> nat" where
  "number_of s = foldl (\<lambda>a c. a * 10 + (of_char c - 48)) 0 s"

lemma digit_value: "n < 10 \<Longrightarrow> of_char (digit n) = 48 + n"
  by (simp add: digit_def)

lemma number_of_nat_text: "number_of (nat_text n) = n"
proof (induction n rule: nat_text.induct)
  case (1 n)
  show ?case
  proof (cases "n < 10")
    case True
    then show ?thesis by (subst nat_text.simps) (simp add: number_of_def digit_value)
  next
    case False
    then have "number_of (nat_text n) = number_of (nat_text (n div 10)) * 10 + n mod 10"
      by (subst nat_text.simps) (simp add: number_of_def digit_value)
    then show ?thesis using 1 False by simp
  qed
qed

lemma nat_text_inj: "nat_text m = nat_text n \<Longrightarrow> m = n"
  by (metis number_of_nat_text)

lemma nat_text_digits: "CHR '':'' \<notin> set (nat_text n)"
proof (induction n rule: nat_text.induct)
  case (1 n)
  have "CHR '':'' \<noteq> digit k" if "k < 10" for k
  proof
    assume "CHR '':'' = digit k"
    then have "(of_char (digit k) :: nat) = of_char CHR '':''" by simp
    then show False using digit_value [OF that] that by simp
  qed
  then show ?case using 1 by (subst nat_text.simps) auto
qed

lemma chunk_id_inj:
  assumes "i @ '':'' @ nat_text m = j @ '':'' @ nat_text n"
  shows "i = j \<and> m = n"
proof -
  have digits: "\<forall>x \<in> set (nat_text k). x \<noteq> CHR '':''" for k using nat_text_digits [of k] by blast
  have "rev (nat_text m) @ CHR '':'' # rev i = rev (nat_text n) @ CHR '':'' # rev j"
    using arg_cong [OF assms, of rev] by simp
  then have "takeWhile (\<lambda>c. c \<noteq> CHR '':'') (rev (nat_text m) @ CHR '':'' # rev i) =
      takeWhile (\<lambda>c. c \<noteq> CHR '':'') (rev (nat_text n) @ CHR '':'' # rev j)" by (rule arg_cong)
  then have "rev (nat_text m) = rev (nat_text n)"
    using digits by (simp add: takeWhile_append)
  then have "m = n" using nat_text_inj by simp
  then show ?thesis using assms by simp
qed

text \<open>What a chunk of the index is.\<close>

definition chunk_of :: "unicode \<Rightarrow> (json \<Rightarrow> string) \<Rightarrow> rag_document \<Rightarrow> rag_chunk \<Rightarrow> bool" where
  "chunk_of uc sha d c \<longleftrightarrow> rk_document c = rd_id d \<and> (\<exists>n. rk_id c = rd_id d @ '':'' @ nat_text n) \<and>
     (rk_start c, rk_end c) \<in> set (split_normalized_text (rd_text d)) \<and>
     rk_text_hash c = stable_hash sha (JStr (utf8 (slice (rd_text d) (rk_start c) (rk_end c)))) \<and>
     rk_tokens c = tokens uc (slice (rd_text d) (rk_start c) (rk_end c))"

lemma chunks_from_facts:
  assumes "chunks_from uc sha d n spans = Inr cs" and "set spans \<subseteq> set (split_normalized_text (rd_text d))"
  shows "(\<forall>c \<in> set cs. chunk_of uc sha d c \<and> (\<exists>m \<ge> n. rk_id c = rd_id d @ '':'' @ nat_text m)) \<and> distinct (map rk_id cs)"
  using assms
proof (induction spans arbitrary: n cs)
  case (Cons p spans)
  obtain s e where p: "p = (s, e)" by (cases p)
  show ?case
  proof (cases "tokens uc (slice (rd_text d) s e) = []")
    case True
    then have "chunks_from uc sha d (Suc n) spans = Inr cs" using Cons.prems(1) p by (simp add: Let_def)
    then have "(\<forall>c \<in> set cs. chunk_of uc sha d c \<and> (\<exists>m \<ge> Suc n. rk_id c = rd_id d @ '':'' @ nat_text m)) \<and>
        distinct (map rk_id cs)"
      using Cons.IH Cons.prems(2) by simp
    then show ?thesis using Suc_leD by blast
  next
    case False
    define c where "c = \<lparr>rk_id = rd_id d @ '':'' @ nat_text n, rk_document = rd_id d, rk_revision = rd_revision d,
      rk_hash = document_hash sha d, rk_start = s, rk_end = e,
      rk_text_hash = stable_hash sha (JStr (utf8 (slice (rd_text d) s e))), rk_tokens = tokens uc (slice (rd_text d) s e)\<rparr>"
    obtain cs' where cs: "chunks_from uc sha d (Suc n) spans = Inr cs'" "cs = c # cs'"
      using Cons.prems(1) False p by (auto simp: Let_def result_simps c_def split: if_splits)
    have c: "rk_id c = rd_id d @ '':'' @ nat_text n" "chunk_of uc sha d c"
      using Cons.prems(2) p by (auto simp: c_def chunk_of_def)
    have ih: "\<forall>x \<in> set cs'. chunk_of uc sha d x \<and> (\<exists>m \<ge> Suc n. rk_id x = rd_id d @ '':'' @ nat_text m)"
      "distinct (map rk_id cs')"
      using Cons.IH [OF cs(1)] Cons.prems(2) by auto
    have "rk_id c \<notin> rk_id ` set cs'"
    proof
      assume "rk_id c \<in> rk_id ` set cs'"
      then obtain x where x: "x \<in> set cs'" "rk_id x = rk_id c" by auto
      then obtain m where m: "Suc n \<le> m" "rk_id x = rd_id d @ '':'' @ nat_text m" using ih(1) by blast
      then show False using chunk_id_inj [of "rd_id d" n "rd_id d" m] x(2) c(1) by simp
    qed
    moreover have "\<forall>x \<in> set cs'. \<exists>m \<ge> n. rk_id x = rd_id d @ '':'' @ nat_text m"
      using ih(1) by (meson Suc_leD)
    ultimately show ?thesis using ih c cs(2) by auto
  qed
qed simp

lemma chunks_of_facts:
  assumes "chunks_of uc sha ds = Inr cs" and "distinct (map rd_id ds)"
  shows "(\<forall>c \<in> set cs. \<exists>d \<in> set ds. chunk_of uc sha d c) \<and> distinct (map rk_id cs)"
  using assms
proof (induction ds arbitrary: cs)
  case (Cons d ds)
  obtain xs ys where cs: "chunks_from uc sha d 1 (split_normalized_text (rd_text d)) = Inr xs"
    "chunks_of uc sha ds = Inr ys" "cs = xs @ ys"
    using Cons.prems(1) by (auto simp: result_simps)
  have x: "\<forall>c \<in> set xs. chunk_of uc sha d c" "distinct (map rk_id xs)" using chunks_from_facts [OF cs(1)] by auto
  have y: "\<forall>c \<in> set ys. \<exists>d \<in> set ds. chunk_of uc sha d c" "distinct (map rk_id ys)"
    using Cons.IH [OF cs(2)] Cons.prems(2) by auto
  have "rk_id a \<noteq> rk_id b" if "a \<in> set xs" "b \<in> set ys" for a b
  proof
    assume same: "rk_id a = rk_id b"
    obtain d' where d': "d' \<in> set ds" "chunk_of uc sha d' b" using y(1) \<open>b \<in> set ys\<close> by blast
    have "chunk_of uc sha d a" using x(1) \<open>a \<in> set xs\<close> by blast
    then obtain m n where "rd_id d @ '':'' @ nat_text m = rd_id d' @ '':'' @ nat_text n"
      using d'(2) same unfolding chunk_of_def by metis
    then have "rd_id d = rd_id d'" using chunk_id_inj by blast
    then show False using Cons.prems(2) d'(1) by auto
  qed
  then show ?case using x y cs(3) by fastforce
qed simp

text \<open>The passage a chunk stands for.\<close>

definition passage :: "rag_index \<Rightarrow> rag_chunk \<Rightarrow> codepoints" where
  "passage ix c =
     (case find (\<lambda>d. rd_id d = rk_document c) (ri_documents ix) of
        None \<Rightarrow> [] | Some d \<Rightarrow> slice (rd_text d) (rk_start c) (rk_end c))"

lemma find_distinct:
  "distinct (map f xs) \<Longrightarrow> x \<in> set xs \<Longrightarrow> find (\<lambda>y. f y = f x) xs = Some x"
  by (induction xs) (auto simp: image_iff)

lemma built_chunk:
  assumes "build_index uc sha vs = Inr ix" and "c \<in> set (ri_chunks ix)"
  shows "chunk_text ix c = Inr (passage ix c) \<and> rk_tokens c = tokens uc (passage ix c) \<and>
    rk_text_hash c = stable_hash sha (JStr (utf8 (passage ix c)))"
proof -
  from assms(1) have ix: "distinct (map rd_id (ri_documents ix))" "chunks_of uc sha (ri_documents ix) = Inr (ri_chunks ix)"
    by (auto elim: build_index_cases)
  then obtain d where d: "d \<in> set (ri_documents ix)" "chunk_of uc sha d c"
    using chunks_of_facts assms(2) by blast
  then have "find (\<lambda>x. rd_id x = rk_document c) (ri_documents ix) = Some d"
    using find_distinct [OF ix(1) d(1)] by (simp add: chunk_of_def)
  then show ?thesis using d(2) by (simp add: chunk_text_def passage_def chunk_of_def)
qed

lemma built_chunk_ids:
  assumes "build_index uc sha vs = Inr ix"
  shows "distinct (map rk_id (ri_chunks ix))"
proof -
  from assms have "distinct (map rd_id (ri_documents ix))" "chunks_of uc sha (ri_documents ix) = Inr (ri_chunks ix)"
    by (auto elim: build_index_cases)
  then show ?thesis using chunks_of_facts by blast
qed

section \<open>Search\<close>

text \<open>The score as it is meant: ten for each token the query and the passage share, counted with multiplicity.\<close>

definition relevance :: "unicode \<Rightarrow> rag_index \<Rightarrow> codepoints \<Rightarrow> codepoints list \<Rightarrow> rag_chunk \<Rightarrow> nat" where
  "relevance uc ix q ts c =
     10 * size (mset ts \<inter># mset (tokens uc (passage ix c))) +
     (if sublist (casefold uc q) (casefold uc (passage ix c)) then 100 else 0)"

lemma count_list_mset: "count_list xs x = count (mset xs) x"
  by (induction xs) auto

lemma token_score_shared: "token_score ts cs = 10 * size (mset ts \<inter># mset cs)"
proof -
  have d: "distinct (filter (\<lambda>t. t \<in> set cs) (counted ts))" by (simp add: counted_def)
  have s: "set (filter (\<lambda>t. t \<in> set cs) (counted ts)) = set ts \<inter> set cs" by (auto simp: counted_def)
  have "token_score ts cs = (\<Sum>t \<in> set ts \<inter> set cs. min (count_list ts t) (count_list cs t) * 10)"
    unfolding token_score_def by (subst sum_list_distinct_conv_sum_set [OF d]) (simp only: s)
  also have "\<dots> = (\<Sum>t \<in> set ts \<inter> set cs. count (mset ts \<inter># mset cs) t) * 10"
    by (simp add: count_list_mset sum_distrib_right)
  also have "\<dots> = size (mset ts \<inter># mset cs) * 10"
    by (simp add: size_multiset_overloaded_eq)
  finally show ?thesis by simp
qed

lemma score_chunks_built:
  assumes "build_index uc sha vs = Inr ix" and "set cs \<subseteq> set (ri_chunks ix)"
  shows "score_chunks uc ix q ts cs =
    Inr (filter (\<lambda>x. fst x \<noteq> 0) (map (\<lambda>c. (relevance uc ix q ts c, c)) cs))"
  using assms(2)
proof (induction cs)
  case (Cons c cs)
  have c: "chunk_text ix c = Inr (passage ix c)" "rk_tokens c = tokens uc (passage ix c)"
    using built_chunk [OF assms(1)] Cons.prems by auto
  have "chunk_score uc q ts c (passage ix c) = relevance uc ix q ts c"
    by (simp add: chunk_score_def relevance_def token_score_shared c(2))
  then show ?case using Cons c(1) by (simp add: Let_def)
qed simp

definition ranking :: "unicode \<Rightarrow> rag_index \<Rightarrow> codepoints \<Rightarrow> codepoints list \<Rightarrow> rag_chunk list" where
  "ranking uc ix q ts =
     sort_key (\<lambda>c. rank_key (relevance uc ix q ts c, c)) (filter (\<lambda>c. relevance uc ix q ts c \<noteq> 0) (ri_chunks ix))"

lemma sort_key_map: "sort_key f (map g xs) = map g (sort_key (\<lambda>x. f (g x)) xs)"
proof (rule properties_for_sort_key)
  show "mset (map g (sort_key (\<lambda>x. f (g x)) xs)) = mset (map g xs)" by (simp add: mset_map)
  show "sorted (map f (map g (sort_key (\<lambda>x. f (g x)) xs)))" by (simp add: comp_def sorted_sort_key)
  show "filter (\<lambda>y. f x = f y) (map g (sort_key (\<lambda>x. f (g x)) xs)) = filter (\<lambda>y. f x = f y) (map g xs)"
    if "x \<in> set (map g (sort_key (\<lambda>x. f (g x)) xs))" for x
    by (simp add: filter_map comp_def eq_commute [of "f x"] sort_key_stable)
qed

lemma search_built:
  assumes "build_index uc sha vs = Inr ix" and "parse_query uc sha query = Inr (q, ts, qh)" and "1 \<le> k" "k \<le> 20"
  shows "search uc sha ix query (JInt (int k)) = Inr (let hits = map (\<lambda>c. \<lparr>rh_score = relevance uc ix q ts c, rh_citation = cite ix qh c\<rparr>)
      (take k (ranking uc ix q ts)) in \<lparr>rs_index = ri_hash ix, rs_query = qh, rs_top_k = k, rs_hits = hits,
        rs_bundle = bundle_hash sha (ri_hash ix) qh k hits\<rparr>)"
proof -
  have k: "require_top_k (JInt (int k)) = Inr k" using assms(3,4) by (simp add: require_top_k_def MAX_TOP_K_def)
  have "sort_key rank_key (filter (\<lambda>x. fst x \<noteq> 0) (map (\<lambda>c. (relevance uc ix q ts c, c)) (ri_chunks ix))) =
      map (\<lambda>c. (relevance uc ix q ts c, c)) (ranking uc ix q ts)"
    by (simp add: filter_map comp_def sort_key_map ranking_def)
  then show ?thesis
    using built_index_canonical [OF assms(1)] score_chunks_built [OF assms(1), of "ri_chunks ix" q ts] assms(2) k
    by (simp add: search_def Let_def take_map comp_def)
qed

text \<open>
  Claim C14. A search returns the best chunks (\<^verbatim>\<open>search\<close> with \<open>top_k\<close>): over a built index it cites, each once,
  chunks of the index with a positive score, the score being ten for each token shared with the query
  (with multiplicity) and a hundred for the whole phrase; it cites as many as there are up to the
  limit, best first, and no chunk it leaves out scores higher than one it cites.
\<close>

theorem search_returns_the_best:
  assumes "build_index uc sha vs = Inr ix" and "parse_query uc sha query = Inr (q, ts, qh)" and "1 \<le> k" "k \<le> 20"
  shows "\<exists>r best. search uc sha ix query (JInt (int k)) = Inr r \<and>
    rs_hits r = map (\<lambda>c. \<lparr>rh_score = relevance uc ix q ts c, rh_citation = cite ix qh c\<rparr>) best \<and>
    distinct best \<and> set best \<subseteq> {c \<in> set (ri_chunks ix). 0 < relevance uc ix q ts c} \<and>
    length best = min k (card {c \<in> set (ri_chunks ix). 0 < relevance uc ix q ts c}) \<and>
    sorted_wrt (\<lambda>c c'. relevance uc ix q ts c' \<le> relevance uc ix q ts c) best \<and>
    (\<forall>c \<in> set (ri_chunks ix) - set best. \<forall>b \<in> set best. relevance uc ix q ts c \<le> relevance uc ix q ts b)"
proof -
  let ?rel = "relevance uc ix q ts" and ?rank = "ranking uc ix q ts"
  have chunks: "distinct (ri_chunks ix)" using built_chunk_ids [OF assms(1)] by (simp add: distinct_map)
  have set_rank: "set ?rank = {c \<in> set (ri_chunks ix). 0 < ?rel c}" by (auto simp: ranking_def)
  have d: "distinct ?rank" using chunks by (simp add: ranking_def)
  have "sorted (map (\<lambda>c. rank_key (?rel c, c)) ?rank)" by (simp add: ranking_def)
  then have "sorted_wrt (\<lambda>c c'. rank_key (?rel c, c) \<le> rank_key (?rel c', c')) ?rank"
    by (simp add: sorted_wrt_map)
  then have order: "sorted_wrt (\<lambda>c c'. ?rel c' \<le> ?rel c) ?rank"
    by (rule sorted_wrt_mono_rel [rotated]) (auto simp: rank_key_def less_eq_prod_def split: if_splits)
  have split: "?rank = take k ?rank @ drop k ?rank" by simp
  then have rest: "?rel c \<le> ?rel b" if "b \<in> set (take k ?rank)" "c \<in> set (drop k ?rank)" for b c
    using order that sorted_wrt_append by metis
  have "?rel c \<le> ?rel b" if "c \<in> set (ri_chunks ix) - set (take k ?rank)" "b \<in> set (take k ?rank)" for b c
  proof (cases "0 < ?rel c")
    case True
    then have "c \<in> set ?rank" using that(1) set_rank by blast
    then have "c \<in> set (drop k ?rank)" using that(1) split by (metis DiffD2 UnE set_append)
    then show ?thesis using rest that(2) by blast
  qed simp
  moreover have "length (take k ?rank) = min k (card {c \<in> set (ri_chunks ix). 0 < ?rel c})"
    unfolding set_rank [symmetric] distinct_card [OF d] by (simp add: min.commute)
  moreover have "set (take k ?rank) \<subseteq> {c \<in> set (ri_chunks ix). 0 < ?rel c}"
    using set_rank by (metis set_take_subset)
  moreover have "sorted_wrt (\<lambda>c c'. ?rel c' \<le> ?rel c) (take k ?rank)" using order by (rule sorted_wrt_take)
  moreover have "distinct (take k ?rank)" using d by simp
  moreover obtain r where "search uc sha ix query (JInt (int k)) = Inr r"
    "rs_hits r = map (\<lambda>c. \<lparr>rh_score = ?rel c, rh_citation = cite ix qh c\<rparr>) (take k ?rank)"
    using search_built [OF assms] by (auto simp: Let_def)
  ultimately show ?thesis by blast
qed

text \<open>
  Claim C25. Exactly the citations of chunks of a built index verify (\<^verbatim>\<open>verify_citation\<close>), so every citation a
  search returns does; and a result verifies (\<^verbatim>\<open>verify_search_result\<close>) exactly when it is what the
  search returns.
\<close>

theorem verified_is_what_search_returns:
  assumes "build_index uc sha vs = Inr ix" and "parse_query uc sha query = Inr (q, ts, qh)" and "1 \<le> k" "k \<le> 20"
  shows "(verify_citation uc sha ix query (Some ct) = Inr True \<longleftrightarrow> (\<exists>c \<in> set (ri_chunks ix). ct = cite ix qh c)) \<and>
    (rs_top_k r = k \<longrightarrow>
       (verify_search_result uc sha ix query (Some r) = Inr True \<longleftrightarrow> search uc sha ix query (JInt (int k)) = Inr r)) \<and>
    (search uc sha ix query (JInt (int k)) = Inr r \<longrightarrow>
       (\<forall>h \<in> set (rs_hits r). verify_citation uc sha ix query (Some (rh_citation h)) = Inr True))"
proof -
  have verify: "verify_citation uc sha ix query (Some ct) = Inr True \<longleftrightarrow> (\<exists>c \<in> set (ri_chunks ix). ct = cite ix qh c)" for ct
  proof
    assume v: "verify_citation uc sha ix query (Some ct) = Inr True"
    then obtain c where "find (\<lambda>c. rk_id c = rc_chunk ct) (ri_chunks ix) = Some c" "ct = cite ix qh c"
      using built_index_canonical [OF assms(1)] assms(2)
      by (auto simp: verify_citation_def split: if_splits option.splits)
    then show "\<exists>c \<in> set (ri_chunks ix). ct = cite ix qh c" by (auto simp: find_Some_iff)
  next
    assume "\<exists>c \<in> set (ri_chunks ix). ct = cite ix qh c"
    then obtain c where c: "c \<in> set (ri_chunks ix)" "ct = cite ix qh c" by blast
    have "find (\<lambda>x. rk_id x = rk_id c) (ri_chunks ix) = Some c"
      by (rule find_distinct [OF built_chunk_ids [OF assms(1)] c(1)])
    then show "verify_citation uc sha ix query (Some ct) = Inr True"
      using built_index_canonical [OF assms(1)] assms(2) built_chunk [OF assms(1) c(1)] c(2)
      by (simp add: verify_citation_def cite_def)
  qed
  have cited: "\<forall>h \<in> set (rs_hits r). verify_citation uc sha ix query (Some (rh_citation h)) = Inr True"
    if found: "search uc sha ix query (JInt (int k)) = Inr r"
  proof
    fix h assume "h \<in> set (rs_hits r)"
    then have "rh_citation h \<in> cite ix qh ` set (take k (ranking uc ix q ts))"
      using found unfolding search_built [OF assms] Let_def by auto
    then obtain c where "c \<in> set (ranking uc ix q ts)" "rh_citation h = cite ix qh c"
      by (auto dest: in_set_takeD)
    then show "verify_citation uc sha ix query (Some (rh_citation h)) = Inr True"
      using verify by (auto simp: ranking_def)
  qed
  have "verify_search_result uc sha ix query (Some r) = Inr True \<longleftrightarrow> search uc sha ix query (JInt (int k)) = Inr r"
    if "rs_top_k r = k"
  proof -
    obtain x where x: "search uc sha ix query (JInt (int k)) = Inr x"
      "rs_bundle x = bundle_hash sha (rs_index x) (rs_query x) (rs_top_k x) (rs_hits x)"
      using search_built [OF assms] by (simp add: Let_def)
    show ?thesis using that x by (auto simp: verify_search_result_def)
  qed
  then show ?thesis using verify cited by blast
qed

section \<open>A small index\<close>

definition plain_unicode :: unicode where
  "plain_unicode = \<lparr>uc_nfc = (\<lambda>t. t), uc_fold = (\<lambda>c. [if between 65 90 c then c + 32 else c])\<rparr>"

definition plain_sha :: "json \<Rightarrow> string" where
  "plain_sha v = replicate 64 (CHR ''a'')"

definition small_document :: rag_document where
  "small_document = \<lparr>rd_id = ''a'', rd_revision = 1, rd_text = [66, 97], rd_metadata = []\<rparr>"

definition small_chunk :: rag_chunk where
  "small_chunk = \<lparr>rk_id = ''a:1'', rk_document = ''a'', rk_revision = 1, rk_hash = replicate 64 (CHR ''a''),
     rk_start = 0, rk_end = 2, rk_text_hash = replicate 64 (CHR ''a''), rk_tokens = [[98, 97]]\<rparr>"

definition small_ix :: rag_index where
  "small_ix = \<lparr>ri_hash = replicate 64 (CHR ''a''), ri_documents = [small_document], ri_chunks = [small_chunk]\<rparr>"

lemma plain_hash [simp]: "stable_hash plain_sha v = replicate 64 (CHR ''a'')"
  by (simp add: stable_hash_def plain_sha_def)

lemma small_index:
  "build_index plain_unicode plain_sha [Document small_document] = Inr small_ix"
proof -
  have content: "rd_text small_document = [66, 97]" by (simp add: small_document_def)
  have letters: "\<not> py_space 66" "\<not> py_space 97" by (simp_all add: py_space_def between_def)
  have "split_normalized_text [66, 97] = [(0, 2)]"
    using letters
    by (simp add: split_normalized_text_def split_from.simps [of "[66, 97]"] window_end_def skip_left.simps [of "[66, 97]" 0]
        MAX_CHUNK_CHARS_def numeral_2_eq_2 Let_def split_end)
  moreover have "tokens plain_unicode (slice [66, 97] 0 2) = [[98, 97]]"
    by (simp add: tokens_def slice_def casefold_def plain_unicode_def word_char_def between_def)
  moreover have "is_identifier ''a:1''" by code_simp
  moreover have "nat_text 1 = ''1''" by code_simp
  moreover have "length (utf8 [66, 97]) = 2" by (simp add: utf8_def utf8_char_def)
  moreover have "rd_id small_document = ''a''" "rd_revision small_document = 1" by (simp_all add: small_document_def)
  ultimately show ?thesis
    by (simp add: build_index_def MAX_DOCUMENTS_def parse_document_def index_of_documents_def MAX_INDEX_BYTES_def
        index_hash_def document_hash_def small_chunk_def small_ix_def content Let_def)
qed

lemma small_query: "parse_query plain_unicode plain_sha [98, 65] = Inr ([98, 65], [[98, 97]], replicate 64 (CHR ''a''))"
proof -
  have "strip (uc_nfc plain_unicode [98, 65]) = [98, 65]"
    by (simp add: strip_def plain_unicode_def py_space_def between_def)
  moreover have "tokens plain_unicode [98, 65] = [[98, 97]]"
    by (simp add: tokens_def casefold_def plain_unicode_def word_char_def between_def)
  moreover have "encodable [98, 65]" by (simp add: encodable_def between_def)
  moreover have "length (utf8 [98, 65]) = 2" by (simp add: utf8_def utf8_char_def)
  ultimately show ?thesis by (simp add: parse_query_def MAX_QUERY_BYTES_def Let_def)
qed

lemma index_ignores_document_order_witness:
  "build_index plain_unicode plain_sha [Document small_document, Document (small_document\<lparr>rd_id := ''b''\<rparr>)] =
   build_index plain_unicode plain_sha [Document (small_document\<lparr>rd_id := ''b''\<rparr>), Document small_document]"
  by (rule index_ignores_document_order) simp

theorem search_returns_the_best_witness:
  "\<exists>r (best :: rag_chunk list). build_index plain_unicode plain_sha [Document small_document] = Inr small_ix \<and>
     search plain_unicode plain_sha small_ix [98, 65] (JInt (int 5)) = Inr r \<and>
     length best = min 5 (card {c \<in> set (ri_chunks small_ix). 0 < relevance plain_unicode small_ix [98, 65] [[98, 97]] c})"
proof -
  have "(1 :: nat) \<le> 5" "(5 :: nat) \<le> 20" by simp_all
  from search_returns_the_best [OF small_index small_query this] obtain r and best :: "rag_chunk list"
    where "search plain_unicode plain_sha small_ix [98, 65] (JInt (int 5)) = Inr r"
      "length best = min 5 (card {c \<in> set (ri_chunks small_ix). 0 < relevance plain_unicode small_ix [98, 65] [[98, 97]] c})"
    by blast
  then show ?thesis using small_index by blast
qed

theorem verified_is_what_search_returns_witness:
  "build_index plain_unicode plain_sha [Document small_document] = Inr small_ix \<and>
   verify_citation plain_unicode plain_sha small_ix [98, 65] (Some (cite small_ix (replicate 64 (CHR ''a'')) small_chunk)) = Inr True"
proof -
  have "(1 :: nat) \<le> 5" "(5 :: nat) \<le> 20" by simp_all
  moreover have "small_chunk \<in> set (ri_chunks small_ix)" by (simp add: small_ix_def)
  ultimately have "verify_citation plain_unicode plain_sha small_ix [98, 65]
      (Some (cite small_ix (replicate 64 (CHR ''a'')) small_chunk)) = Inr True"
    using verified_is_what_search_returns [OF small_index small_query, THEN conjunct1] by blast
  then show ?thesis using small_index by blast
qed

end
